(* ===== verification/Prelude.thy ===== *)
theory Prelude
  imports Complex_Main "HOL-Library.Char_ord"
begin

text \<open>
  What every component shares: the text operations of JavaScript that the services call on
  request data (trim, case mapping, the regular expression for a decimal id, the conversions
  BigInt(s), Number(s) and String(n)), the exceptions of the HTTP layer as a sum type, and
  database tables as lists of rows with a key.

  Text is a list of characters and the operations are those of ECMAScript restricted to
  ASCII: certificate numbers, hex addresses and hashes, decimal ids and uuids, which are the
  strings the modelled code inspects. Numbers that JavaScript holds as doubles are exact
  rationals here; all the integers the code computes with stay below 2^53.
\<close>

named_theorems js_simps \<open>rewriting of trimmed, lower-cased and decimal text\<close>
named_theorems table_simps \<open>reading a table after a write\<close>

section \<open>Text\<close>

definition char_code :: "char \<Rightarrow> nat" where
  "char_code c = of_char c"

definition is_ws :: "char \<Rightarrow> bool" where
  "is_ws c = (let n = char_code c in (9 \<le> n \<and> n \<le> 13) \<or> n = 32)"

definition js_trim :: "string \<Rightarrow> string" where
  "js_trim s = rev (dropWhile is_ws (rev (dropWhile is_ws s)))"

definition lower_char :: "char \<Rightarrow> char" where
  "lower_char c = (let n = char_code c in if 65 \<le> n \<and> n \<le> 90 then char_of (n + 32) else c)"

definition upper_char :: "char \<Rightarrow> char" where
  "upper_char c = (let n = char_code c in if 97 \<le> n \<and> n \<le> 122 then char_of (n - 32) else c)"

definition js_lower :: "string \<Rightarrow> string" where
  "js_lower s = map lower_char s"

definition js_upper :: "string \<Rightarrow> string" where
  "js_upper s = map upper_char s"

definition is_digit :: "char \<Rightarrow> bool" where
  "is_digit c = (let n = char_code c in 48 \<le> n \<and> n \<le> 57)"

text \<open>The test /^\d+$/ of the sources.\<close>

definition is_decimal :: "string \<Rightarrow> bool" where
  "is_decimal s = (s \<noteq> [] \<and> list_all is_digit s)"

definition is_hex_lower :: "char \<Rightarrow> bool" where
  "is_hex_lower c = (let n = char_code c in (48 \<le> n \<and> n \<le> 57) \<or> (97 \<le> n \<and> n \<le> 102))"

definition is_hex :: "char \<Rightarrow> bool" where
  "is_hex c = (let n = char_code c in
     (48 \<le> n \<and> n \<le> 57) \<or> (97 \<le> n \<and> n \<le> 102) \<or> (65 \<le> n \<and> n \<le> 70))"

text \<open>The tests /^0x[a-f0-9]{n}$/ and /^0x[a-fA-F0-9]{n}$/.\<close>

definition is_hex_word :: "nat \<Rightarrow> string \<Rightarrow> bool" where
  "is_hex_word n s = (take 2 s = ''0x'' \<and> length s = n + 2 \<and> list_all is_hex_lower (drop 2 s))"

definition is_hex_word_ci :: "nat \<Rightarrow> string \<Rightarrow> bool" where
  "is_hex_word_ci n s = (take 2 s = ''0x'' \<and> length s = n + 2 \<and> list_all is_hex (drop 2 s))"

text \<open>The idiom x?.trim() || null: absent and blank text are both null.\<close>

definition non_empty :: "string \<Rightarrow> string option" where
  "non_empty s = (if s = [] then None else Some s)"

definition trim_or_null :: "string option \<Rightarrow> string option" where
  "trim_or_null x = Option.bind x (\<lambda>s. non_empty (js_trim s))"

definition or_empty :: "string option \<Rightarrow> string" where
  "or_empty x = (case x of None \<Rightarrow> [] | Some s \<Rightarrow> s)"

subsection \<open>Facts about text\<close>

lemma char_code_lt [simp]: "char_code c < 256"
  by (simp add: char_code_def)

lemma char_code_char_of [simp]: "char_code (char_of n) = n mod 256"
  by (simp add: char_code_def)

lemma lower_char_idem [simp]: "lower_char (lower_char c) = lower_char c"
  by (simp add: lower_char_def Let_def)

lemma upper_char_idem [simp]: "upper_char (upper_char c) = upper_char c"
  by (auto simp: upper_char_def Let_def)

lemma is_ws_lower [simp]: "is_ws (lower_char c) = is_ws c"
  by (auto simp: is_ws_def lower_char_def Let_def)

lemma is_ws_upper [simp]: "is_ws (upper_char c) = is_ws c"
  by (auto simp: is_ws_def upper_char_def Let_def)

lemma js_lower_idem [simp, js_simps]: "js_lower (js_lower s) = js_lower s"
  by (simp add: js_lower_def)

lemma js_upper_idem [simp, js_simps]: "js_upper (js_upper s) = js_upper s"
  by (simp add: js_upper_def)

lemma js_lower_empty [simp]: "js_lower s = [] \<longleftrightarrow> s = []"
  by (simp add: js_lower_def)

lemma js_upper_empty [simp]: "js_upper s = [] \<longleftrightarrow> s = []"
  by (simp add: js_upper_def)

lemma js_trim_Nil [simp]: "js_trim [] = []"
  by (simp add: js_trim_def)

lemma dropWhile_map_inv: "(\<And>x. P (f x) = P x) \<Longrightarrow> dropWhile P (map f xs) = map f (dropWhile P xs)"
  by (induction xs) auto

lemma js_trim_lower [js_simps]: "js_trim (js_lower s) = js_lower (js_trim s)"
  by (simp add: js_trim_def js_lower_def dropWhile_map_inv rev_map)

lemma js_trim_upper [js_simps]: "js_trim (js_upper s) = js_upper (js_trim s)"
  by (simp add: js_trim_def js_upper_def dropWhile_map_inv rev_map)

lemma dropWhile_id: "(xs = [] \<or> \<not> P (hd xs)) \<Longrightarrow> dropWhile P xs = xs"
  by (cases xs) auto

lemma last_rev_dropWhile: "rev (dropWhile P (rev xs)) = [] \<or> \<not> P (last (rev (dropWhile P (rev xs))))"
  by (metis hd_dropWhile last_rev rev_is_Nil_conv)

lemma hd_trim_right: "rev (dropWhile P (rev xs)) \<noteq> [] \<Longrightarrow> hd (rev (dropWhile P (rev xs))) = hd xs"
proof -
  assume ne: "rev (dropWhile P (rev xs)) \<noteq> []"
  have "xs = rev (dropWhile P (rev xs)) @ rev (takeWhile P (rev xs))"
    by (metis rev_append rev_rev_ident takeWhile_dropWhile_id)
  with ne show ?thesis by (metis hd_append2)
qed

lemma js_trim_idem [simp, js_simps]: "js_trim (js_trim s) = js_trim s"
proof -
  let ?d = "dropWhile is_ws s" and ?t = "js_trim s"
  have t: "?t = rev (dropWhile is_ws (rev ?d))" by (simp add: js_trim_def)
  have "?t = [] \<or> \<not> is_ws (hd ?t)"
    by (metis hd_dropWhile hd_trim_right t dropWhile.simps(1) rev.simps(1))
  then have 1: "dropWhile is_ws ?t = ?t" by (rule dropWhile_id)
  have "rev ?t = dropWhile is_ws (rev ?d)" by (simp add: t)
  then have "rev ?t = [] \<or> \<not> is_ws (hd (rev ?t))" by (metis hd_dropWhile)
  then have 2: "dropWhile is_ws (rev ?t) = rev ?t" by (rule dropWhile_id)
  show ?thesis unfolding js_trim_def [of ?t] by (simp add: 1 2)
qed

lemma digit_not_ws: "is_digit c \<Longrightarrow> \<not> is_ws c"
  by (auto simp: is_digit_def is_ws_def Let_def)

lemma hex_not_ws: "is_hex_lower c \<Longrightarrow> \<not> is_ws c"
  by (auto simp: is_hex_lower_def is_ws_def Let_def)

lemma dropWhile_none: "list_all (\<lambda>x. \<not> P x) xs \<Longrightarrow> dropWhile P xs = xs"
  by (cases xs) auto

lemma js_trim_no_ws: "list_all (\<lambda>c. \<not> is_ws c) s \<Longrightarrow> js_trim s = s"
  by (simp add: js_trim_def dropWhile_none)

lemma js_trim_decimal [simp]: "is_decimal s \<Longrightarrow> js_trim s = s"
  by (auto simp: is_decimal_def list_all_iff digit_not_ws intro!: js_trim_no_ws)

lemma trim_or_null_Some: "trim_or_null x = Some s \<Longrightarrow> s \<noteq> [] \<and> js_trim s = s"
  by (auto simp: trim_or_null_def non_empty_def split: if_splits Option.bind_splits)

lemma trim_or_null_idem [simp]: "trim_or_null (trim_or_null x) = trim_or_null x"
  by (auto simp: trim_or_null_def non_empty_def split: Option.bind_splits)

section \<open>Exceptions and results\<close>

text \<open>
  The exceptions of the HTTP layer that the services throw, one constructor per class, with
  the constant text of the message (a templated message keeps its constant part), and the
  error of the database driver. An operation that may throw returns a sum; an operation that
  has already written when it throws returns the new state beside the sum.
\<close>

datatype http_exception =
    BadRequestException string
  | NotFoundException string
  | ConflictException string
  | ForbiddenException string
  | ServiceUnavailableException string
  | InternalServerErrorException string
  | OtherError string

type_synonym 'a result = "http_exception + 'a"

text \<open>A guard clause: throw unless the condition holds, and go on with the next check.\<close>

definition check :: "bool \<Rightarrow> http_exception \<Rightarrow> 'a result \<Rightarrow> 'a result" where
  "check ok e k = (if ok then k else Inl e)"

definition on_ok :: "'a result \<Rightarrow> ('a \<Rightarrow> 'b result) \<Rightarrow> 'b result" where
  "on_ok r k = (case r of Inl e \<Rightarrow> Inl e | Inr x \<Rightarrow> k x)"

lemma check_Inr [simp]: "check ok e k = Inr x \<longleftrightarrow> ok \<and> k = Inr x"
  by (simp add: check_def)

lemma check_True [simp]: "check True e k = k"
  by (simp add: check_def)

lemma check_False [simp]: "check False e k = Inl e"
  by (simp add: check_def)

lemma on_ok_Inr [simp]: "on_ok (Inr x) k = k x"
  by (simp add: on_ok_def)

lemma on_ok_Inl [simp]: "on_ok (Inl e) k = Inl e"
  by (simp add: on_ok_def)

lemma on_ok_eq_Inr: "on_ok r k = Inr y \<longleftrightarrow> (\<exists>x. r = Inr x \<and> k x = Inr y)"
  by (cases r) auto

text \<open>Set(xs) spread back into an array: the first occurrence of every value, in order.\<close>

fun js_unique_acc :: "'a list \<Rightarrow> 'a list \<Rightarrow> 'a list" where
  "js_unique_acc seen [] = []"
| "js_unique_acc seen (x # xs) =
     (if x \<in> set seen then js_unique_acc seen xs else x # js_unique_acc (x # seen) xs)"

definition js_unique :: "'a list \<Rightarrow> 'a list" where
  "js_unique xs = js_unique_acc [] xs"

lemma set_js_unique_acc: "set (js_unique_acc seen xs) = set xs - set seen"
  by (induction seen xs rule: js_unique_acc.induct) auto

lemma set_js_unique [simp]: "set (js_unique xs) = set xs"
  by (simp add: js_unique_def set_js_unique_acc)

lemma distinct_js_unique_acc: "distinct (js_unique_acc seen xs)"
  by (induction seen xs rule: js_unique_acc.induct) (auto simp: set_js_unique_acc)

lemma distinct_js_unique [simp]: "distinct (js_unique xs)"
  by (simp add: js_unique_def distinct_js_unique_acc)

lemma js_unique_Nil [simp]: "js_unique [] = []"
  by (simp add: js_unique_def)

end
