(* ===== verification/JsNumbers.thy ===== *)
theory JsNumbers
  imports Prelude
begin

text \<open>
  The conversions between text and numbers that the services call: BigInt(s), Number(s),
  String(n) and toFixed(2), and Math.round and Math.floor. BigInt and Number follow the
  string grammars of ECMAScript: surrounding white space, sign, the 0x, 0o and 0b prefixes,
  decimal fractions and exponents. A value that is not finite, or text that does not parse,
  is None; the sources test Number.isFinite or catch the SyntaxError.
\<close>

section \<open>Digits\<close>

definition digit_val :: "char \<Rightarrow> nat option" where
  "digit_val c = (let n = char_code c in
     if 48 \<le> n \<and> n \<le> 57 then Some (n - 48)
     else if 97 \<le> n \<and> n \<le> 122 then Some (n - 87)
     else if 65 \<le> n \<and> n \<le> 90 then Some (n - 55) else None)"

fun radix_val_acc :: "nat \<Rightarrow> nat \<Rightarrow> string \<Rightarrow> nat option" where
  "radix_val_acc b acc [] = Some acc"
| "radix_val_acc b acc (c # cs) =
     (case digit_val c of
        None \<Rightarrow> None
      | Some d \<Rightarrow> if d < b then radix_val_acc b (b * acc + d) cs else None)"

definition radix_val :: "nat \<Rightarrow> string \<Rightarrow> nat option" where
  "radix_val b s = (if s = [] then None else radix_val_acc b 0 s)"

text \<open>0x, 0o and 0b literals.\<close>

definition non_decimal :: "string \<Rightarrow> nat option" where
  "non_decimal t = (case t of
      z # p # ds \<Rightarrow>
        if z \<noteq> CHR ''0'' then None
        else if p = CHR ''x'' \<or> p = CHR ''X'' then radix_val 16 ds
        else if p = CHR ''o'' \<or> p = CHR ''O'' then radix_val 8 ds
        else if p = CHR ''b'' \<or> p = CHR ''B'' then radix_val 2 ds
        else None
    | _ \<Rightarrow> None)"

definition split_sign :: "string \<Rightarrow> int \<times> string" where
  "split_sign t = (case t of
      c # cs \<Rightarrow> if c = CHR ''-'' then (- 1, cs) else if c = CHR ''+'' then (1, cs) else (1, t)
    | [] \<Rightarrow> (1, []))"

definition js_BigInt :: "string \<Rightarrow> int option" where
  "js_BigInt s = (let t = js_trim s in
     if t = [] then Some 0
     else case non_decimal t of
       Some n \<Rightarrow> Some (int n)
     | None \<Rightarrow> (let (sg, ds) = split_sign t in map_option (\<lambda>n. sg * int n) (radix_val 10 ds)))"

text \<open>
  Number(s): the mantissa is digits with an optional fraction, at least one digit in all,
  and the exponent is an optional e with a signed integer.
\<close>

definition split_at_char :: "(char \<Rightarrow> bool) \<Rightarrow> string \<Rightarrow> string \<times> string option" where
  "split_at_char p s = (case dropWhile (\<lambda>c. \<not> p c) s of
      [] \<Rightarrow> (s, None) | _ # r \<Rightarrow> (takeWhile (\<lambda>c. \<not> p c) s, Some r))"

definition exponent_val :: "string option \<Rightarrow> int option" where
  "exponent_val e = (case e of
      None \<Rightarrow> Some 0
    | Some x \<Rightarrow> (let (sg, ds) = split_sign x in map_option (\<lambda>n. sg * int n) (radix_val 10 ds)))"

definition mantissa_val :: "string \<Rightarrow> rat option" where
  "mantissa_val m = (let (ip, fp) = split_at_char (\<lambda>c. c = CHR ''.'') m; f = or_empty fp in
     map_option (\<lambda>n. of_nat n / 10 ^ length f) (radix_val 10 (ip @ f)))"

definition scale10 :: "rat \<Rightarrow> int \<Rightarrow> rat" where
  "scale10 x e = (if 0 \<le> e then x * 10 ^ nat e else x / 10 ^ nat (- e))"

definition js_Number :: "string \<Rightarrow> rat option" where
  "js_Number s = (let t = js_trim s in
     if t = [] then Some 0
     else case non_decimal t of
       Some n \<Rightarrow> Some (of_nat n)
     | None \<Rightarrow>
         (let (sg, u) = split_sign t;
              (m, e) = split_at_char (\<lambda>c. c = CHR ''e'' \<or> c = CHR ''E'') u
          in case (mantissa_val m, exponent_val e) of
               (Some x, Some k) \<Rightarrow> Some (of_int sg * scale10 x k)
             | _ \<Rightarrow> None))"

definition digit_char :: "nat \<Rightarrow> char" where
  "digit_char d = char_of (48 + d)"

text \<open>String(n) of a natural number.\<close>

fun nat_str :: "nat \<Rightarrow> string" where
  "nat_str n = (if n < 10 then [digit_char n] else nat_str (n div 10) @ [digit_char (n mod 10)])"

declare nat_str.simps [simp del]

definition int_str :: "int \<Rightarrow> string" where
  "int_str i = (if i < 0 then CHR ''-'' # nat_str (nat (- i)) else nat_str (nat i))"

text \<open>Math.round rounds half up; Math.floor is the floor.\<close>

definition js_round :: "rat \<Rightarrow> int" where
  "js_round x = \<lfloor>x + 1 / 2\<rfloor>"

definition pad2 :: "nat \<Rightarrow> string" where
  "pad2 n = [digit_char (n div 10 mod 10), digit_char (n mod 10)]"

text \<open>x.toFixed(2): the nearest number of cents (the larger of two), as text.\<close>

definition to_fixed2 :: "rat \<Rightarrow> string" where
  "to_fixed2 x = (let c = js_round (\<bar>x\<bar> * 100) in
     (if x < 0 then ''-'' else []) @ nat_str (nat c div 100) @ ''.'' @ pad2 (nat c mod 100))"

text \<open>BigInt division truncates towards zero; it is used with a positive divisor.\<close>

definition bigint_div :: "int \<Rightarrow> int \<Rightarrow> int" where
  "bigint_div a b = (if 0 \<le> a then a div b else - ((- a) div b))"

section \<open>Reading and printing integers\<close>

lemma digit_val_digit_char: "d < 10 \<Longrightarrow> digit_val (digit_char d) = Some d"
  by (simp add: digit_val_def digit_char_def Let_def)

lemma is_digit_digit_char: "d < 10 \<Longrightarrow> is_digit (digit_char d)"
  by (simp add: is_digit_def digit_char_def Let_def)

lemma digit_val_digit: "is_digit c \<Longrightarrow> \<exists>d < 10. digit_val c = Some d"
  by (auto simp: is_digit_def digit_val_def Let_def)

lemma radix_val_acc_append:
  "radix_val_acc b a (xs @ ys) = Option.bind (radix_val_acc b a xs) (\<lambda>v. radix_val_acc b v ys)"
  by (induction b a xs rule: radix_val_acc.induct) (auto split: option.splits)

lemma radix_val_acc_digits: "list_all is_digit s \<Longrightarrow> \<exists>n. radix_val_acc 10 a s = Some n"
proof (induction s arbitrary: a)
  case Nil
  then show ?case by simp
next
  case (Cons c cs)
  from Cons.prems digit_val_digit [of c] obtain d where "d < 10" "digit_val c = Some d" by auto
  with Cons show ?case by simp
qed

lemma radix_val_decimal: "is_decimal s \<Longrightarrow> \<exists>n. radix_val 10 s = Some n"
  by (simp add: is_decimal_def radix_val_def radix_val_acc_digits)

lemma nat_str_nonempty [simp]: "nat_str n \<noteq> []"
  by (subst nat_str.simps) simp

lemma is_decimal_nat_str [simp]: "is_decimal (nat_str n)"
proof (induction n rule: nat_str.induct)
  case (1 n)
  then show ?case
    by (cases "n < 10")
       (simp_all add: nat_str.simps [of n] is_decimal_def is_digit_digit_char)
qed

lemma radix_val_acc_nat_str: "radix_val_acc 10 0 (nat_str n) = Some n"
proof (induction n rule: nat_str.induct)
  case (1 n)
  then show ?case
    by (cases "n < 10")
       (simp_all add: nat_str.simps [of n] radix_val_acc_append digit_val_digit_char)
qed

lemma radix_val_nat_str [simp]: "radix_val 10 (nat_str n) = Some n"
  by (simp add: radix_val_def radix_val_acc_nat_str)

lemma nat_str_inj [simp]: "nat_str m = nat_str n \<longleftrightarrow> m = n"
  by (metis option.inject radix_val_nat_str)

lemma decimal_head: "is_decimal (c # cs) \<Longrightarrow> is_digit c"
  by (simp add: is_decimal_def)

lemma letter_no_digit [simp]:
  "\<not> is_digit (CHR ''x'')" "\<not> is_digit (CHR ''X'')" "\<not> is_digit (CHR ''o'')"
  "\<not> is_digit (CHR ''O'')" "\<not> is_digit (CHR ''b'')" "\<not> is_digit (CHR ''B'')"
  "\<not> is_digit (CHR ''-'')" "\<not> is_digit (CHR ''+'')" "\<not> is_digit (CHR ''.'')"
  "\<not> is_digit (CHR ''e'')" "\<not> is_digit (CHR ''E'')"
  by (simp_all add: is_digit_def char_code_def)

lemma non_decimal_decimal [simp]:
  assumes "is_decimal s"
  shows "non_decimal s = None"
proof (cases s)
  case (Cons z t)
  show ?thesis
  proof (cases t)
    case t: (Cons p ds)
    then have "is_digit p" using assms Cons by (simp add: is_decimal_def)
    then have "p \<notin> {CHR ''x'', CHR ''X'', CHR ''o'', CHR ''O'', CHR ''b'', CHR ''B''}"
      using letter_no_digit by blast
    then show ?thesis by (simp add: Cons t non_decimal_def)
  qed (simp add: Cons non_decimal_def)
qed (simp add: non_decimal_def)

lemma split_sign_decimal [simp]: "is_decimal s \<Longrightarrow> split_sign s = (1, s)"
  by (cases s) (auto simp: split_sign_def is_decimal_def)

lemma js_BigInt_decimal: "is_decimal s \<Longrightarrow> js_BigInt s = map_option int (radix_val 10 s)"
  by (auto simp: js_BigInt_def Let_def is_decimal_def [of "[]"])

lemma js_BigInt_nat_str [simp]: "js_BigInt (nat_str n) = Some (int n)"
  by (simp add: js_BigInt_decimal)

lemma split_at_char_none: "list_all (\<lambda>c. \<not> p c) s \<Longrightarrow> split_at_char p s = (s, None)"
proof -
  assume "list_all (\<lambda>c. \<not> p c) s"
  then have "dropWhile (\<lambda>c. \<not> p c) s = []" by (simp add: list_all_iff)
  then show ?thesis unfolding split_at_char_def by (metis (no_types) list.simps(4))
qed

lemma decimal_no_mark:
  "is_decimal s \<Longrightarrow> list_all (\<lambda>c. \<not> (c = CHR ''e'' \<or> c = CHR ''E'')) s"
  "is_decimal s \<Longrightarrow> list_all (\<lambda>c. \<not> c = CHR ''.'') s"
  by (auto simp: is_decimal_def list_all_iff)

lemma js_Number_decimal: "is_decimal s \<Longrightarrow> js_Number s = map_option of_nat (radix_val 10 s)"
proof -
  assume s: "is_decimal s"
  then have ne: "s \<noteq> []" by (simp add: is_decimal_def)
  have e: "split_at_char (\<lambda>c. c = CHR ''e'' \<or> c = CHR ''E'') s = (s, None)"
    by (rule split_at_char_none) (rule decimal_no_mark(1) [OF s])
  have d: "split_at_char (\<lambda>c. c = CHR ''.'') s = (s, None)"
    by (rule split_at_char_none) (rule decimal_no_mark(2) [OF s])
  obtain n where n: "radix_val 10 s = Some n" using radix_val_decimal [OF s] by blast
  show ?thesis
    using s ne by (simp add: js_Number_def e d mantissa_val_def exponent_val_def or_empty_def
        scale10_def n)
qed

lemma js_Number_nat_str [simp]: "js_Number (nat_str n) = Some (of_nat n)"
  by (simp add: js_Number_decimal)

lemma js_BigInt_nonneg_decimal: "is_decimal s \<Longrightarrow> js_BigInt s = Some i \<Longrightarrow> 0 \<le> i"
  by (auto simp: js_BigInt_decimal)

lemma bigint_div_nonneg [simp]: "0 \<le> a \<Longrightarrow> bigint_div a b = a div b"
  by (simp add: bigint_div_def)

lemma js_BigInt_int_str_nonneg: "0 \<le> i \<Longrightarrow> js_BigInt (int_str i) = Some i"
  by (simp add: int_str_def)

lemma int_str_nonneg [simp]: "0 \<le> i \<Longrightarrow> int_str i = nat_str (nat i)"
  by (simp add: int_str_def)

end
