(* ===== verification/Repository.thy ===== *)
theory Repository
  imports JsNumbers
begin

text \<open>
  Tables of the database as lists of rows, and what a TypeORM repository does with them:
  findOne by a condition is the first row in table order, save replaces the row with the same
  primary key and appends a row with a new one, a unique index (partial when it has a WHERE
  clause) is a predicate on the table. The locale repository states what the services rely on
  when they load and save rows; every table of the model interprets it.
\<close>

section \<open>Tables\<close>

definition find_row :: "('r \<Rightarrow> bool) \<Rightarrow> 'r list \<Rightarrow> 'r option" where
  "find_row p t = List.find p t"

definition find_key :: "('r \<Rightarrow> 'k) \<Rightarrow> 'k \<Rightarrow> 'r list \<Rightarrow> 'r option" where
  "find_key key k t = List.find (\<lambda>r. key r = k) t"

fun upsert :: "('r \<Rightarrow> 'k) \<Rightarrow> 'r \<Rightarrow> 'r list \<Rightarrow> 'r list" where
  "upsert key r [] = [r]"
| "upsert key r (x # xs) = (if key x = key r then r # xs else x # upsert key r xs)"

text \<open>save of an array of rows, one after the other.\<close>

definition upsert_all :: "('r \<Rightarrow> 'k) \<Rightarrow> 'r list \<Rightarrow> 'r list \<Rightarrow> 'r list" where
  "upsert_all key rs t = fold (upsert key) rs t"

text \<open>CREATE UNIQUE INDEX ON t (g) WHERE p.\<close>

definition unique_index :: "('r \<Rightarrow> 'k) \<Rightarrow> ('r \<Rightarrow> 'g) \<Rightarrow> ('r \<Rightarrow> bool) \<Rightarrow> 'r list \<Rightarrow> bool" where
  "unique_index key g p t = (\<forall>x \<in> set t. \<forall>y \<in> set t. p x \<longrightarrow> p y \<longrightarrow> g x = g y \<longrightarrow> key x = key y)"

text \<open>
  The row of a table with the largest value of f (ORDER BY f DESC, LIMIT 1), and with the
  smallest (ORDER BY f ASC); among equals the first in table order.
\<close>

fun latest_by :: "('r \<Rightarrow> 'o::linorder) \<Rightarrow> 'r list \<Rightarrow> 'r option" where
  "latest_by f [] = None"
| "latest_by f (x # xs) = (case latest_by f xs of
      None \<Rightarrow> Some x | Some y \<Rightarrow> if f y \<le> f x then Some x else Some y)"

fun earliest_by :: "('r \<Rightarrow> 'o::linorder) \<Rightarrow> 'r list \<Rightarrow> 'r option" where
  "earliest_by f [] = None"
| "earliest_by f (x # xs) = (case earliest_by f xs of
      None \<Rightarrow> Some x | Some y \<Rightarrow> if f x \<le> f y then Some x else Some y)"

text \<open>ORDER BY f ASC and DESC on a whole result.\<close>

definition order_asc :: "('r \<Rightarrow> 'o::linorder) \<Rightarrow> 'r list \<Rightarrow> 'r list" where
  "order_asc f t = sort_key f t"

definition order_desc :: "('r \<Rightarrow> int) \<Rightarrow> 'r list \<Rightarrow> 'r list" where
  "order_desc f t = sort_key (\<lambda>r. - f r) t"

section \<open>Reading a row\<close>

lemma find_row_Some: "find_row p t = Some r \<Longrightarrow> r \<in> set t \<and> p r"
  by (auto simp: find_row_def find_Some_iff)

lemma find_row_None: "find_row p t = None \<longleftrightarrow> (\<forall>r \<in> set t. \<not> p r)"
  by (auto simp: find_row_def find_None_iff)

lemma find_key_Some: "find_key key k t = Some r \<Longrightarrow> r \<in> set t \<and> key r = k"
  by (auto simp: find_key_def find_Some_iff)

lemma find_key_None: "find_key key k t = None \<longleftrightarrow> k \<notin> key ` set t"
  by (auto simp: find_key_def find_None_iff)

lemma find_key_member: "distinct (map key t) \<Longrightarrow> r \<in> set t \<Longrightarrow> find_key key (key r) t = Some r"
  by (induction t) (auto simp: find_key_def)

lemma find_row_unique:
  "r \<in> set t \<Longrightarrow> p r \<Longrightarrow> \<forall>x \<in> set t. p x \<longrightarrow> x = r \<Longrightarrow> find_row p t = Some r"
  by (metis find_row_None find_row_Some not_Some_eq)

lemma find_row_cong:
  "(\<And>x. x \<in> set t \<Longrightarrow> p x = q x) \<Longrightarrow> find_row p t = find_row q t"
  unfolding find_row_def by (induction t) auto

lemma latest_by_None [simp]: "latest_by f t = None \<longleftrightarrow> t = []"
  by (cases t) (auto split: option.splits)

lemma latest_by_Some: "latest_by f t = Some r \<Longrightarrow> r \<in> set t \<and> (\<forall>x \<in> set t. f x \<le> f r)"
  by (induction t arbitrary: r) (fastforce split: option.splits if_splits)+

lemma earliest_by_None [simp]: "earliest_by f t = None \<longleftrightarrow> t = []"
  by (cases t) (auto split: option.splits)

lemma earliest_by_Some: "earliest_by f t = Some r \<Longrightarrow> r \<in> set t \<and> (\<forall>x \<in> set t. f r \<le> f x)"
  by (induction t arbitrary: r) (fastforce split: option.splits if_splits)+

section \<open>Saving a row\<close>

lemma find_key_upsert [table_simps]:
  "find_key key k (upsert key r t) = (if key r = k then Some r else find_key key k t)"
  by (induction t) (auto simp: find_key_def)

lemma keys_upsert: "key ` set (upsert key r t) = insert (key r) (key ` set t)"
  by (induction key r t rule: upsert.induct) auto

lemma distinct_upsert [simp]:
  "distinct (map key t) \<Longrightarrow> distinct (map key (upsert key r t))"
proof (induction key r t rule: upsert.induct)
  case (2 key r x xs)
  have "key x \<noteq> key r \<Longrightarrow> key x \<notin> key ` set xs \<Longrightarrow> key x \<notin> key ` set (upsert key r xs)"
    by (simp add: keys_upsert)
  with 2 show ?case by auto
qed simp

lemma set_upsert_subset: "set (upsert key r t) \<subseteq> insert r (set t)"
  by (induction key r t rule: upsert.induct) auto

lemma set_upsert:
  "distinct (map key t) \<Longrightarrow> set (upsert key r t) = insert r {x \<in> set t. key x \<noteq> key r}"
  by (induction key r t rule: upsert.induct) (auto simp: rev_image_eqI)

lemma upsert_member [simp]: "r \<in> set (upsert key r t)"
  by (induction key r t rule: upsert.induct) auto

lemma upsert_fresh: "key r \<notin> key ` set t \<Longrightarrow> upsert key r t = t @ [r]"
  by (induction key r t rule: upsert.induct) auto

lemma upsert_same: "distinct (map key t) \<Longrightarrow> r \<in> set t \<Longrightarrow> upsert key r t = t"
  by (induction key r t rule: upsert.induct) (auto simp: rev_image_eqI)

lemma upsert_keeps_keys: "key r \<in> key ` set t \<Longrightarrow> map key (upsert key r t) = map key t"
  by (induction key r t rule: upsert.induct) auto

lemma length_upsert:
  "length (upsert key r t) = (if key r \<in> key ` set t then length t else Suc (length t))"
  by (induction key r t rule: upsert.induct) auto

lemma upsert_twice [table_simps]:
  "key r = key s \<Longrightarrow> upsert key r (upsert key s t) = upsert key r t"
  by (induction t) auto

lemma list_all_upsert: "list_all p t \<Longrightarrow> p r \<Longrightarrow> list_all p (upsert key r t)"
  by (induction key r t rule: upsert.induct) auto

lemma ball_upsert: "\<forall>x \<in> set t. p x \<Longrightarrow> p r \<Longrightarrow> \<forall>x \<in> set (upsert key r t). p x"
  using set_upsert_subset [of key r t] by blast

lemma bex_upsert:
  assumes "distinct (map key t)" and "b \<in> set t" and "key b = key r" and "q b \<Longrightarrow> q r"
    and "\<exists>x \<in> set t. q x"
  shows "\<exists>x \<in> set (upsert key r t). q x"
proof -
  obtain x where x: "x \<in> set t" "q x" using assms(5) by blast
  show ?thesis
  proof (cases "key x = key r")
    case True
    then have "x = b" using assms(1-3) x(1) by (metis find_key_member option.inject)
    then show ?thesis using assms(4) x(2) by auto
  next
    case False
    then show ?thesis using x set_upsert [OF assms(1), of r] by blast
  qed
qed

text \<open>A filter that the saved row does not change keeps its result.\<close>

lemma filter_upsert_off:
  "\<not> p r \<Longrightarrow> \<forall>x \<in> set t. key x = key r \<longrightarrow> \<not> p x \<Longrightarrow> filter p (upsert key r t) = filter p t"
  by (induction key r t rule: upsert.induct) auto

section \<open>Unique indexes\<close>

lemma unique_index_Nil [simp]: "unique_index key g p []"
  by (simp add: unique_index_def)

lemma unique_indexD:
  "unique_index key g p t \<Longrightarrow> x \<in> set t \<Longrightarrow> y \<in> set t \<Longrightarrow> p x \<Longrightarrow> p y \<Longrightarrow> g x = g y \<Longrightarrow> key x = key y"
  unfolding unique_index_def by blast

lemma unique_index_upsert:
  assumes "unique_index key g p t"
    and "p r \<Longrightarrow> \<forall>x \<in> set t. p x \<longrightarrow> g x = g r \<longrightarrow> key x = key r"
  shows "unique_index key g p (upsert key r t)"
  unfolding unique_index_def
proof (intro ballI impI)
  fix x y
  assume xy: "x \<in> set (upsert key r t)" "y \<in> set (upsert key r t)" "p x" "p y" "g x = g y"
  then have "x = r \<or> x \<in> set t" "y = r \<or> y \<in> set t"
    using set_upsert_subset [of key r t] by auto
  with xy assms show "key x = key y" by (metis unique_indexD)
qed

text \<open>A save that leaves the group of the row alone and does not open it.\<close>

lemma unique_index_update:
  assumes "unique_index key g p t" and "x \<in> set t" and "key r = key x" and "g r = g x"
    and "p r \<Longrightarrow> p x"
  shows "unique_index key g p (upsert key r t)"
  by (rule unique_index_upsert [OF assms(1)]) (metis assms unique_indexD)

lemma unique_index_closed:
  "unique_index key g p t \<Longrightarrow> \<not> p r \<Longrightarrow> unique_index key g p (upsert key r t)"
  by (rule unique_index_upsert) auto

section \<open>The interface of a repository\<close>

locale repository =
  fixes key :: "'r \<Rightarrow> 'k"
    and look :: "'k \<Rightarrow> 't \<Rightarrow> 'r option"
    and put :: "'r \<Rightarrow> 't \<Rightarrow> 't"
  assumes look_put: "look k (put r t) = (if key r = k then Some r else look k t)"
    and look_key: "look k t = Some r \<Longrightarrow> key r = k"
begin

lemma look_put_same: "look (key r) (put r t) = Some r"
  by (simp add: look_put)

lemma look_put_other: "k \<noteq> key r \<Longrightarrow> look k (put r t) = look k t"
  by (simp add: look_put)

lemma put_put: "key r = key s \<Longrightarrow> look k (put r (put s t)) = look k (put r t)"
  by (simp add: look_put)

lemma put_commute: "key r \<noteq> key s \<Longrightarrow> look k (put r (put s t)) = look k (put s (put r t))"
  by (auto simp: look_put)

text \<open>Saving an array: the last row with the key wins, other keys keep their row.\<close>

lemma look_fold_other: "k \<notin> key ` set rs \<Longrightarrow> look k (fold put rs t) = look k t"
  by (induction rs arbitrary: t) (auto simp: look_put)

lemma look_fold_member: "distinct (map key rs) \<Longrightarrow> r \<in> set rs \<Longrightarrow> look (key r) (fold put rs t) = Some r"
proof (induction rs arbitrary: t)
  case Nil
  then show ?case by simp
next
  case (Cons a rs)
  show ?case
  proof (cases "r = a")
    case True
    with Cons.prems show ?thesis by (simp add: look_fold_other look_put)
  next
    case False
    with Cons show ?thesis by simp
  qed
qed

text \<open>A law of one row that the put keeps holds of every row the table shows.\<close>

lemma all_rows_put:
  "\<forall>k r. look k t = Some r \<longrightarrow> p r \<Longrightarrow> p r' \<Longrightarrow> look k (put r' t) = Some r \<Longrightarrow> p r"
  by (auto simp: look_put split: if_splits)

end

end
