(* ===== verification/TokenIds.thy ===== *)
theory TokenIds
  imports Repository
begin

text \<open>
  Decimal token ids (vault/vault.service.ts, marketplace/orders/orders.service.ts,
  marketplace/utils/platform-tape.util.ts). The API, the mint writer and the wallet pad ids
  differently, so the services compare ids after stripping leading zeros: a loop over an index
  in TypeScript, an LTRIM expression in the SQL of applyDecimalTokenIdMatch. The lemmas show
  that both compute the shortest decimal numeral of the same number.
\<close>

section \<open>The operations\<close>

text \<open>The loop: i advances while a further character exists and the current one is 0.\<close>

function skip_zeros :: "string \<Rightarrow> nat \<Rightarrow> nat" where
  "skip_zeros s i = (if i + 1 < length s \<and> s ! i = CHR ''0'' then skip_zeros s (i + 1) else i)"
  by pat_completeness auto
termination by (relation "measure (\<lambda>(s, i). length s - i)") auto

declare skip_zeros.simps [simp del]

definition normalizeDecimalTokenId :: "string \<Rightarrow> string" where
  "normalizeDecimalTokenId raw = (let s = js_trim raw in
     if \<not> is_decimal s then s else drop (skip_zeros s 0) s)"

definition decimalTokenIdLookupKeys :: "string \<Rightarrow> string list" where
  "decimalTokenIdLookupKeys raw = (let trimmed = js_trim raw in
     if trimmed = [] then [] else js_unique [trimmed, normalizeDecimalTokenId trimmed])"

definition isValidDecimalTokenId :: "string option \<Rightarrow> bool" where
  "isValidDecimalTokenId raw = is_decimal (js_trim (or_empty raw))"

text \<open>COALESCE(NULLIF(LTRIM(token_id, '0'), ''), '0') and the WHERE clause around it.\<close>

definition sql_strip_zeros :: "string \<Rightarrow> string" where
  "sql_strip_zeros s = (case dropWhile (\<lambda>c. c = CHR ''0'') s of [] \<Rightarrow> ''0'' | c # cs \<Rightarrow> c # cs)"

definition matches_decimal_ids :: "string list \<Rightarrow> string \<Rightarrow> bool" where
  "matches_decimal_ids tokenIds stored =
     (stored \<in> set (js_unique (concat (map decimalTokenIdLookupKeys tokenIds)))
      \<or> is_decimal stored
        \<and> sql_strip_zeros stored \<in> set (js_unique (map normalizeDecimalTokenId tokenIds)))"

section \<open>The loop and the SQL expression\<close>

lemma skip_zeros_ge: "i \<le> skip_zeros s i"
  by (induction s i rule: skip_zeros.induct) (subst skip_zeros.simps, auto)

lemma skip_zeros_bound: "i < length s \<Longrightarrow> skip_zeros s i < length s"
  by (induction s i rule: skip_zeros.induct) (subst skip_zeros.simps, auto)

lemma drop_skip_zeros:
  "i < length s \<Longrightarrow> drop (skip_zeros s i) s = sql_strip_zeros (drop i s)"
proof (induction s i rule: skip_zeros.induct)
  case (1 s i)
  then have d: "drop i s = s ! i # drop (Suc i) s" by (simp add: Cons_nth_drop_Suc)
  show ?case
  proof (cases "i + 1 < length s \<and> s ! i = CHR ''0''")
    case True
    with 1 have "drop (skip_zeros s (i + 1)) s = sql_strip_zeros (drop (Suc i) s)" by simp
    with True show ?thesis by (subst skip_zeros.simps) (simp add: sql_strip_zeros_def d)
  next
    case False
    then consider "s ! i \<noteq> CHR ''0''" | "s ! i = CHR ''0''" "drop (Suc i) s = []"
      using 1 by force
    then show ?thesis
      by cases (use False in \<open>subst skip_zeros.simps, simp add: sql_strip_zeros_def d\<close>)+
  qed
qed

lemma normalize_decimal: "is_decimal s \<Longrightarrow> normalizeDecimalTokenId s = sql_strip_zeros s"
  by (cases s) (simp_all add: normalizeDecimalTokenId_def drop_skip_zeros is_decimal_def [of "[]"])

section \<open>Canonical numerals\<close>

lemma digit_char_val: "is_digit c \<Longrightarrow> digit_val c = Some d \<Longrightarrow> digit_char d = c"
proof -
  assume "is_digit c" "digit_val c = Some d"
  then have "48 + d = char_code c" by (auto simp: is_digit_def digit_val_def Let_def)
  then show ?thesis by (simp add: digit_char_def char_code_def)
qed

lemma digit_char_0 [simp]: "digit_char 0 = CHR ''0''"
  by code_simp

lemma nat_str_snoc: "0 < m \<Longrightarrow> d < 10 \<Longrightarrow> nat_str (10 * m + d) = nat_str m @ [digit_char d]"
  by (subst nat_str.simps) simp

lemma nat_str_0 [simp]: "nat_str 0 = ''0''"
  by (simp add: nat_str.simps)

lemma digit_val_zero: "is_digit c \<Longrightarrow> digit_val c = Some 0 \<Longrightarrow> c = CHR ''0''"
  using digit_char_val [of c 0] by simp

lemma radix_val_acc_ge: "radix_val_acc 10 a s = Some n \<Longrightarrow> a \<le> n"
proof (induction s arbitrary: a)
  case (Cons c cs)
  then obtain d where "radix_val_acc 10 (10 * a + d) cs = Some n"
    by (auto split: option.splits if_splits)
  from Cons.IH [OF this] show ?case by simp
qed simp

text \<open>A numeral without a leading zero is what String prints for its value.\<close>

lemma canonical_numeral:
  "list_all is_digit s \<Longrightarrow> s \<noteq> [] \<Longrightarrow> hd s \<noteq> CHR ''0'' \<Longrightarrow> radix_val_acc 10 0 s = Some n
   \<Longrightarrow> nat_str n = s \<and> 0 < n"
proof (induction s arbitrary: n rule: rev_induct)
  case (snoc c t)
  from snoc.prems obtain d where d: "d < 10" "digit_val c = Some d"
    using digit_val_digit [of c] by auto
  have c: "digit_char d = c" using snoc.prems d digit_char_val by auto
  show ?case
  proof (cases "t = []")
    case True
    with snoc.prems d c show ?thesis
      by (auto simp: nat_str.simps [of n] digit_val_zero intro: gr0I)
  next
    case False
    from snoc.prems d obtain m where m: "radix_val_acc 10 0 t = Some m" "n = 10 * m + d"
      by (auto simp: radix_val_acc_append split: Option.bind_splits)
    from snoc.IH [OF _ False _ m(1)] False snoc.prems have "nat_str m = t" "0 < m" by auto
    with m d c show ?thesis by (simp add: nat_str_snoc)
  qed
qed simp

lemma radix_val_acc_strip:
  "radix_val_acc 10 0 (dropWhile (\<lambda>c. c = CHR ''0'') s) = radix_val_acc 10 0 s"
proof (induction s)
  case (Cons c cs)
  have "digit_val (CHR ''0'') = Some 0" by (simp add: digit_val_def char_code_def)
  with Cons show ?case by simp
qed simp

lemma sql_strip_nat_str:
  assumes s: "is_decimal s" and n: "radix_val 10 s = Some n"
  shows "sql_strip_zeros s = nat_str n"
proof -
  let ?u = "dropWhile (\<lambda>c. c = CHR ''0'') s"
  have val: "radix_val_acc 10 0 ?u = Some n"
    using s n by (simp add: radix_val_acc_strip radix_val_def is_decimal_def)
  show ?thesis
  proof (cases ?u)
    case Nil
    with val have "n = 0" by simp
    with Nil show ?thesis unfolding sql_strip_zeros_def by (simp only: list.simps nat_str_0)
  next
    case (Cons c cs)
    have "list_all is_digit ?u"
      using s set_dropWhileD [of _ _ s] by (fastforce simp: is_decimal_def list_all_iff)
    moreover have "hd ?u \<noteq> CHR ''0''" using Cons hd_dropWhile [of "\<lambda>c. c = CHR ''0''" s] by auto
    ultimately have "nat_str n = ?u" using canonical_numeral [OF _ _ _ val] Cons by simp
    then show ?thesis using Cons by (simp add: sql_strip_zeros_def)
  qed
qed

lemma normalize_nat_str:
  "is_decimal s \<Longrightarrow> radix_val 10 s = Some n \<Longrightarrow> normalizeDecimalTokenId s = nat_str n"
  by (simp add: normalize_decimal sql_strip_nat_str)

lemma normalize_trim [simp, js_simps]:
  "normalizeDecimalTokenId (js_trim s) = normalizeDecimalTokenId s"
  by (simp add: normalizeDecimalTokenId_def)

lemma normalize_other: "\<not> is_decimal (js_trim s) \<Longrightarrow> normalizeDecimalTokenId s = js_trim s"
  by (simp add: normalizeDecimalTokenId_def)

lemma is_decimal_normalize [simp]:
  "is_decimal (normalizeDecimalTokenId s) \<longleftrightarrow> is_decimal (js_trim s)"
proof (cases "is_decimal (js_trim s)")
  case True
  then obtain n where "radix_val 10 (js_trim s) = Some n" using radix_val_decimal by blast
  with True have "normalizeDecimalTokenId (js_trim s) = nat_str n" by (rule normalize_nat_str)
  with True show ?thesis by simp
qed (simp add: normalize_other)

lemma normalize_idem [simp, js_simps]:
  "normalizeDecimalTokenId (normalizeDecimalTokenId s) = normalizeDecimalTokenId s"
proof (cases "is_decimal (js_trim s)")
  case True
  then obtain n where n: "radix_val 10 (js_trim s) = Some n" using radix_val_decimal by blast
  then have "normalizeDecimalTokenId s = nat_str n"
    using normalize_nat_str [OF True n] by simp
  then show ?thesis by (simp add: normalize_nat_str)
qed (simp add: normalize_other)

lemma normalize_eq_iff:
  "is_decimal a \<Longrightarrow> is_decimal b \<Longrightarrow>
   normalizeDecimalTokenId a = normalizeDecimalTokenId b \<longleftrightarrow> js_BigInt a = js_BigInt b"
  using radix_val_decimal [of a] radix_val_decimal [of b]
  by (auto simp: normalize_nat_str js_BigInt_decimal)

lemma matches_decimal_iff:
  assumes "is_decimal a" "is_decimal b"
  shows "matches_decimal_ids [a] b \<longleftrightarrow> js_BigInt a = js_BigInt b"
proof -
  have ne: "js_trim a \<noteq> []" using assms by (simp add: is_decimal_def)
  have "matches_decimal_ids [a] b \<longleftrightarrow>
      b = a \<or> b = normalizeDecimalTokenId a \<or> sql_strip_zeros b = normalizeDecimalTokenId a"
    using assms ne by (auto simp: matches_decimal_ids_def decimalTokenIdLookupKeys_def)
  also have "\<dots> \<longleftrightarrow> normalizeDecimalTokenId a = normalizeDecimalTokenId b"
    using assms by (metis normalize_decimal normalize_idem)
  finally show ?thesis using assms by (simp add: normalize_eq_iff)
qed

end
