(* ===== verification/FeeSplit.thy ===== *)
theory FeeSplit
  imports TokenIds
begin

text \<open>
  The platform fee (marketplace/settlement/platform-fee-split.util.ts and
  rwa-settlement-policy.ts): the fee rate in basis points is read from the configuration and
  clamped to 0..10000, and a gross amount of USDC micros is split between seller and
  platform with BigInt arithmetic, so that the remainder of the division goes to the seller.
  The locale fee_split is the contract a payout relies on.
\<close>

type_synonym config = "string \<Rightarrow> string option"

section \<open>Settlement policy of a token\<close>

datatype settlement_policy = standard | self_vault_hold

definition isSelfVaultHoldPolicy :: "string option \<Rightarrow> bool" where
  "isSelfVaultHoldPolicy p = (js_trim (or_empty p) = ''self_vault_hold'')"

definition normalizeRwaSettlementPolicy :: "string option \<Rightarrow> settlement_policy" where
  "normalizeRwaSettlementPolicy raw =
     (if isSelfVaultHoldPolicy raw then self_vault_hold else standard)"

text \<open>The text a policy value is stored as.\<close>

definition policy_str :: "settlement_policy \<Rightarrow> string" where
  "policy_str p = (case p of standard \<Rightarrow> ''standard'' | self_vault_hold \<Rightarrow> ''self_vault_hold'')"

section \<open>Fee rates\<close>

text \<open>
  The common shape of readPlatformFeeBps and readSelfVaultPlatformFeeBps: a value that is not
  a finite number or is negative falls back to 500.
\<close>

definition clamp_fee_bps :: "string \<Rightarrow> int" where
  "clamp_fee_bps raw = (case js_Number raw of
      None \<Rightarrow> 500
    | Some x \<Rightarrow> if x < 0 then 500 else min \<lfloor>x\<rfloor> 10000)"

definition readPlatformFeeBps :: "config \<Rightarrow> int" where
  "readPlatformFeeBps config =
     clamp_fee_bps (case config ''PLATFORM_FEE_BPS'' of None \<Rightarrow> ''500'' | Some s \<Rightarrow> s)"

definition SELF_VAULT_PLATFORM_FEE_BPS_DEFAULT :: nat where
  "SELF_VAULT_PLATFORM_FEE_BPS_DEFAULT = 500"

definition readSelfVaultPlatformFeeBps :: "config \<Rightarrow> int" where
  "readSelfVaultPlatformFeeBps config =
     clamp_fee_bps (case config ''SELF_VAULT_PLATFORM_FEE_BPS'' of
        None \<Rightarrow> nat_str SELF_VAULT_PLATFORM_FEE_BPS_DEFAULT | Some s \<Rightarrow> s)"

definition feeBpsForSettlementPolicy :: "config \<Rightarrow> string option \<Rightarrow> int" where
  "feeBpsForSettlementPolicy config policy =
     (if js_trim (or_empty policy) = ''self_vault_hold'' then readSelfVaultPlatformFeeBps config
      else readPlatformFeeBps config)"

section \<open>The split\<close>

definition splitGrossUsdcMicros :: "int \<Rightarrow> int \<Rightarrow> int \<times> int" where
  "splitGrossUsdcMicros grossMicros feeBps =
     (let bps = max 0 (min feeBps 10000);
          feeMicros = bigint_div (grossMicros * bps) 10000;
          sellerMicros = grossMicros - feeMicros
      in (sellerMicros, feeMicros))"

section \<open>The contract of a split\<close>

locale fee_split =
  fixes split :: "int \<Rightarrow> int \<times> int"
  assumes conserves: "fst (split g) + snd (split g) = g"
    and fee_nonneg: "0 \<le> g \<Longrightarrow> 0 \<le> snd (split g)"
    and fee_le: "0 \<le> g \<Longrightarrow> snd (split g) \<le> g"
    and fee_mono: "0 \<le> g \<Longrightarrow> g \<le> h \<Longrightarrow> snd (split g) \<le> snd (split h)"
    and seller_mono: "0 \<le> g \<Longrightarrow> g \<le> h \<Longrightarrow> fst (split g) \<le> fst (split h)"
begin

lemma seller_bounds: "0 \<le> g \<Longrightarrow> 0 \<le> fst (split g) \<and> fst (split g) \<le> g"
  using conserves [of g] fee_nonneg [of g] fee_le [of g] by linarith

lemma fee_of_zero: "split 0 = (0, 0)"
  using conserves [of 0] fee_nonneg [of 0] fee_le [of 0] by (simp add: prod_eq_iff)

text \<open>A batch of sales pays out exactly what it took in.\<close>

lemma batch_conserves: "(\<Sum>g \<leftarrow> gs. fst (split g)) + (\<Sum>g \<leftarrow> gs. snd (split g)) = sum_list gs"
  using conserves by (induction gs) (simp_all, smt (verit))

lemma seller_determines_fee: "fst (split g) = g \<longleftrightarrow> snd (split g) = 0"
  using conserves [of g] by linarith

end

section \<open>The rates are basis points\<close>

lemma clamp_fee_bps_range: "0 \<le> clamp_fee_bps s \<and> clamp_fee_bps s \<le> 10000"
  by (simp add: clamp_fee_bps_def split: option.splits)

lemma clamp_fee_bps_decimal:
  "is_decimal s \<Longrightarrow> radix_val 10 s = Some n \<Longrightarrow> clamp_fee_bps s = min (int n) 10000"
  by (simp add: clamp_fee_bps_def js_Number_decimal)

lemma readPlatformFeeBps_range:
  "0 \<le> readPlatformFeeBps cfg \<and> readPlatformFeeBps cfg \<le> 10000"
  unfolding readPlatformFeeBps_def by (rule clamp_fee_bps_range)

lemma readSelfVaultPlatformFeeBps_range:
  "0 \<le> readSelfVaultPlatformFeeBps cfg \<and> readSelfVaultPlatformFeeBps cfg \<le> 10000"
  unfolding readSelfVaultPlatformFeeBps_def by (rule clamp_fee_bps_range)

lemma feeBps_range:
  "0 \<le> feeBpsForSettlementPolicy cfg p \<and> feeBpsForSettlementPolicy cfg p \<le> 10000"
  by (simp add: feeBpsForSettlementPolicy_def readPlatformFeeBps_range
      readSelfVaultPlatformFeeBps_range)

section \<open>The split meets the contract\<close>

lemma bps_part_le: "0 \<le> (g::int) \<Longrightarrow> b \<le> 10000 \<Longrightarrow> 0 \<le> b \<Longrightarrow> g * b div 10000 \<le> g"
proof -
  assume g: "0 \<le> g" "b \<le> 10000" "0 \<le> b"
  then have "g * b div 10000 \<le> g * 10000 div 10000"
    by (intro zdiv_mono1 mult_left_mono) auto
  then show ?thesis by simp
qed

lemma bps_part_mono: "0 \<le> b \<Longrightarrow> (g::int) \<le> h \<Longrightarrow> g * b div 10000 \<le> h * b div 10000"
  by (intro zdiv_mono1 mult_right_mono) auto

text \<open>The rest grows with the amount: the fee of d more micros is at most d more.\<close>

lemma bps_rest_mono:
  assumes "0 \<le> b" "b \<le> 10000" "(g::int) \<le> h"
  shows "g - g * b div 10000 \<le> h - h * b div 10000"
proof -
  have "h * b \<le> g * b + (h - g) * 10000"
    using assms mult_left_mono [of b 10000 "h - g"] by (simp add: algebra_simps)
  then have "h * b div 10000 \<le> (g * b + (h - g) * 10000) div 10000"
    by (rule zdiv_mono1) simp
  then show ?thesis by simp
qed

lemma split_nonneg:
  assumes "0 \<le> g"
  shows "splitGrossUsdcMicros g bps =
     (g - g * max 0 (min bps 10000) div 10000, g * max 0 (min bps 10000) div 10000)"
proof -
  have "0 \<le> g * max 0 (min bps 10000)" using assms by simp
  then show ?thesis by (simp add: splitGrossUsdcMicros_def Let_def)
qed

interpretation gross_split: fee_split "\<lambda>g. splitGrossUsdcMicros g bps" for bps
proof
  fix g h :: int
  let ?b = "max 0 (min bps 10000)"
  show "fst (splitGrossUsdcMicros g bps) + snd (splitGrossUsdcMicros g bps) = g"
    by (simp add: splitGrossUsdcMicros_def Let_def)
  show "0 \<le> g \<Longrightarrow> 0 \<le> snd (splitGrossUsdcMicros g bps)"
    by (simp add: split_nonneg div_int_pos_iff)
  show "0 \<le> g \<Longrightarrow> snd (splitGrossUsdcMicros g bps) \<le> g"
    by (simp add: split_nonneg bps_part_le)
  show "0 \<le> g \<Longrightarrow> g \<le> h \<Longrightarrow> snd (splitGrossUsdcMicros g bps) \<le> snd (splitGrossUsdcMicros h bps)"
    by (simp add: split_nonneg bps_part_mono)
  show "0 \<le> g \<Longrightarrow> g \<le> h \<Longrightarrow> fst (splitGrossUsdcMicros g bps) \<le> fst (splitGrossUsdcMicros h bps)"
    by (simp add: split_nonneg bps_rest_mono)
qed

text \<open>The fee is the exact share rounded down: less than one micro is lost to the seller.\<close>

lemma split_fee_rounding:
  assumes "0 \<le> g" "0 \<le> bps" "bps \<le> 10000"
  shows "snd (splitGrossUsdcMicros g bps) * 10000 \<le> g * bps"
    and "g * bps < (snd (splitGrossUsdcMicros g bps) + 1) * 10000"
proof -
  have b: "max 0 (min bps 10000) = bps" using assms by simp
  show "snd (splitGrossUsdcMicros g bps) * 10000 \<le> g * bps"
    using assms by (simp add: split_nonneg b)
  show "g * bps < (snd (splitGrossUsdcMicros g bps) + 1) * 10000"
    using assms by (simp add: split_nonneg b)
qed

end
