(* ===== verification/VaultData.thy ===== *)
theory VaultData
  imports FeeSplit
begin

text \<open>
  The tables of the vault (vault/entities, marketplace/entities/rwa-token.entity.ts and
  marketplace-partner.entity.ts; sql/schema/020_vault.sql and 030_rwa_tokens.sql): one record
  per entity, the statuses as datatypes, the database as a record of tables. Generated uuids
  are numbers taken from a counter, dates are milliseconds, and the columns created_at and
  updated_at are left out where no code reads them.
\<close>

section \<open>Assets and cycles\<close>

datatype vault_asset_type = psa_graded

record vault_asset =
  va_id :: nat
  va_assetType :: vault_asset_type
  va_externalCertNumber :: string
  va_vaultRef :: string
  va_displayName :: "string option"

datatype vault_cycle_status =
    pending_deposit | deposit_verified | minting | minted | redemption_requested
  | redeemed | cancelled

datatype delivery_mode = custody | direct

record vault_mint_attempt =
  ma_tokenURI :: string
  ma_certNumber :: string
  ma_settlementPolicy :: settlement_policy
  ma_vaultPartnerId :: "string option"
  ma_ownerWallet :: string
  ma_deliveryMode :: delivery_mode
  ma_displayName :: "string option"
  ma_displayImageUrl :: "string option"
  ma_displayImageBackUrl :: "string option"
  ma_tokenId :: "string option"
  ma_txHash :: "string option"

record vault_cycle =
  vc_id :: nat
  vc_vaultAssetId :: nat
  vc_chainId :: nat
  vc_cycleNumber :: nat
  vc_status :: vault_cycle_status
  vc_depositedAt :: "int option"
  vc_depositVerifiedBy :: "string option"
  vc_depositedByUserId :: "string option"
  vc_redeemedAt :: "int option"
  vc_mintAttempt :: "vault_mint_attempt option"
  vc_updatedAt :: int

section \<open>Redemptions and payment claims\<close>

datatype vault_redemption_status =
    r_pending | r_ownership_verified | r_in_custody | r_burned | r_vault_release_pending
  | r_completed | r_failed | r_cancelled | r_refunded

datatype refund_status = rf_none | usdc_refunded | nft_returned | fully_refunded

datatype receipt_via = via_user | via_auto

record vault_redemption =
  vr_id :: nat
  vr_vaultCycleId :: nat
  vr_requestedByUserId :: "string option"
  vr_requestedAt :: int
  vr_ownerWalletAddress :: string
  vr_status :: vault_redemption_status
  vr_ownershipVerifiedAt :: "int option"
  vr_burnTxHash :: "string option"
  vr_burnedAt :: "int option"
  vr_vaultReleasedAt :: "int option"
  vr_failureReason :: "string option"
  vr_shipToName :: "string option"
  vr_shipToLine1 :: "string option"
  vr_shipToLine2 :: "string option"
  vr_shipToCity :: "string option"
  vr_shipToRegion :: "string option"
  vr_shipToPostal :: "string option"
  vr_shipToCountry :: "string option"
  vr_shipToPhone :: "string option"
  vr_feeRetrievalUsd :: "string option"
  vr_feeEarlyWithdrawalUsd :: "string option"
  vr_feeShippingUsd :: "string option"
  vr_feeTotalUsd :: "string option"
  vr_paymentTxHash :: "string option"
  vr_paymentBatchId :: "string option"
  vr_paidAt :: "int option"
  vr_chainId :: "nat option"
  vr_paymentReceivedUsdcMicros :: "string option"
  vr_custodyTxHash :: "string option"
  vr_custodyAt :: "int option"
  vr_custodyReturnTxHash :: "string option"
  vr_custodyReturnedAt :: "int option"
  vr_refundStatus :: refund_status
  vr_refundTxHash :: "string option"
  vr_refundedUsdcMicros :: "string option"
  vr_refundedAt :: "int option"
  vr_trackingNumber :: "string option"
  vr_trackingCarrier :: "string option"
  vr_trackingSetAt :: "int option"
  vr_carrierDeliveredAt :: "int option"
  vr_receiptConfirmedVia :: "receipt_via option"
  vr_adminMemo :: "string option"
  vr_vaultedAt :: "int option"
  vr_earlyWithdrawal :: "bool option"

record payment_claim =
  pc_paymentTxHash :: string
  pc_paymentBatchId :: string
  pc_paymentReceivedUsdcMicros :: "string option"
  pc_chainId :: "nat option"

section \<open>Minted tokens and partners\<close>

record rwa_token =
  rt_tokenContract :: string
  rt_tokenId :: string
  rt_certNumber :: "string option"
  rt_tokenUri :: "string option"
  rt_metadataCid :: "string option"
  rt_displayName :: "string option"
  rt_displayImageUrl :: "string option"
  rt_displayImageBackUrl :: "string option"
  rt_collectionKey :: "string option"
  rt_metadataSyncedAt :: "int option"
  rt_vaultCycleId :: "nat option"
  rt_vaultRef :: "string option"
  rt_burnedAt :: "int option"
  rt_burnTxHash :: "string option"
  rt_mintTxHash :: "string option"
  rt_settlementPolicy :: "settlement_policy option"
  rt_vaultPartnerId :: "string option"
  rt_ownerWallet :: "string option"

definition rt_key :: "rwa_token \<Rightarrow> string \<times> string" where
  "rt_key t = (rt_tokenContract t, rt_tokenId t)"

record marketplace_partner =
  mp_id :: string
  mp_displayName :: string
  mp_walletAddress :: string
  mp_encryptedPrivateKey :: "string option"
  mp_isActive :: bool

section \<open>The database\<close>

record vault_db =
  vd_assets :: "vault_asset list"
  vd_cycles :: "vault_cycle list"
  vd_redemptions :: "vault_redemption list"
  vd_claims :: "payment_claim list"
  vd_tokens :: "rwa_token list"
  vd_partners :: "marketplace_partner list"
  vd_next :: nat

text \<open>
  The saves. The stamp updated_at of a cycle is only read on minting rows, in the order of
  listMintingCyclesForRecovery, and every save of such a row changes it.
\<close>

definition save_asset :: "vault_asset \<Rightarrow> vault_db \<Rightarrow> vault_db" where
  "save_asset a db = db\<lparr>vd_assets := upsert va_id a (vd_assets db)\<rparr>"

definition save_cycle :: "int \<Rightarrow> vault_cycle \<Rightarrow> vault_db \<Rightarrow> vault_db" where
  "save_cycle now c db =
     db\<lparr>vd_cycles := upsert vc_id (c\<lparr>vc_updatedAt := now\<rparr>) (vd_cycles db)\<rparr>"

definition save_redemption :: "vault_redemption \<Rightarrow> vault_db \<Rightarrow> vault_db" where
  "save_redemption r db = db\<lparr>vd_redemptions := upsert vr_id r (vd_redemptions db)\<rparr>"

definition save_token :: "rwa_token \<Rightarrow> vault_db \<Rightarrow> vault_db" where
  "save_token t db = db\<lparr>vd_tokens := upsert rt_key t (vd_tokens db)\<rparr>"

definition find_asset :: "nat \<Rightarrow> vault_db \<Rightarrow> vault_asset option" where
  "find_asset i db = find_key va_id i (vd_assets db)"

definition find_cycle :: "nat \<Rightarrow> vault_db \<Rightarrow> vault_cycle option" where
  "find_cycle i db = find_key vc_id i (vd_cycles db)"

definition find_redemption :: "nat \<Rightarrow> vault_db \<Rightarrow> vault_redemption option" where
  "find_redemption i db = find_key vr_id i (vd_redemptions db)"

definition find_token :: "string \<times> string \<Rightarrow> vault_db \<Rightarrow> rwa_token option" where
  "find_token k db = find_key rt_key k (vd_tokens db)"

text \<open>status NOT IN ('redeemed', 'cancelled'), and the same for redemptions.\<close>

definition open_cycle :: "vault_cycle \<Rightarrow> bool" where
  "open_cycle c = (vc_status c \<noteq> redeemed \<and> vc_status c \<noteq> cancelled)"

definition open_redemption :: "vault_redemption \<Rightarrow> bool" where
  "open_redemption r = (vr_status r \<notin> {r_completed, r_failed, r_cancelled, r_refunded})"

text \<open>The unique indexes of the schema, as predicates on the database.\<close>

definition uq_assets_type_cert :: "vault_db \<Rightarrow> bool" where
  "uq_assets_type_cert db = unique_index va_id
     (\<lambda>a. (va_assetType a, va_externalCertNumber a)) (\<lambda>_. True) (vd_assets db)"

definition uq_cycles_one_open_per_asset_chain :: "vault_db \<Rightarrow> bool" where
  "uq_cycles_one_open_per_asset_chain db = unique_index vc_id
     (\<lambda>c. (vc_vaultAssetId c, vc_chainId c)) open_cycle (vd_cycles db)"

definition uq_cycles_asset_number :: "vault_db \<Rightarrow> bool" where
  "uq_cycles_asset_number db = unique_index vc_id
     (\<lambda>c. (vc_vaultAssetId c, vc_cycleNumber c)) (\<lambda>_. True) (vd_cycles db)"

definition uq_redemptions_one_open_per_cycle :: "vault_db \<Rightarrow> bool" where
  "uq_redemptions_one_open_per_cycle db =
     unique_index vr_id vr_vaultCycleId open_redemption (vd_redemptions db)"

definition uq_tokens_vault_cycle :: "rwa_token list \<Rightarrow> bool" where
  "uq_tokens_vault_cycle ts =
     unique_index rt_key rt_vaultCycleId (\<lambda>t. rt_vaultCycleId t \<noteq> None) ts"

definition uq_tokens_contract_cert_active :: "rwa_token list \<Rightarrow> bool" where
  "uq_tokens_contract_cert_active ts =
     unique_index rt_key (\<lambda>t. (rt_tokenContract t, rt_certNumber t))
       (\<lambda>t. rt_certNumber t \<noteq> None \<and> rt_burnedAt t = None) ts"

definition uq_claims_batch :: "payment_claim list \<Rightarrow> bool" where
  "uq_claims_batch cs = unique_index pc_paymentTxHash pc_paymentBatchId (\<lambda>_. True) cs"

definition unique_violation :: http_exception where
  "unique_violation = OtherError ''23505 duplicate key value violates unique constraint''"

definition tokens_unique :: "rwa_token list \<Rightarrow> bool" where
  "tokens_unique ts = (uq_tokens_vault_cycle ts \<and> uq_tokens_contract_cert_active ts)"

definition cycles_of_asset :: "nat \<Rightarrow> vault_db \<Rightarrow> vault_cycle list" where
  "cycles_of_asset assetId db = filter (\<lambda>c. vc_vaultAssetId c = assetId) (vd_cycles db)"

section \<open>Certificate numbers\<close>

definition normalizeCert :: "string \<Rightarrow> string" where
  "normalizeCert certNumber = js_upper (js_trim certNumber)"

text \<open>keccak256 of the UTF-8 bytes is a parameter: it is the ethers package's.\<close>

definition computeVaultRef :: "(string \<Rightarrow> string) \<Rightarrow> string \<Rightarrow> string result" where
  "computeVaultRef keccak256 certNumber = (let normalized = normalizeCert certNumber in
     if normalized = [] then Inl (BadRequestException ''certNumber is required to compute vaultRef'')
     else Inr (keccak256 normalized))"

lemma normalizeCert_idem [simp]: "normalizeCert (normalizeCert c) = normalizeCert c"
  by (simp add: normalizeCert_def js_simps)

section \<open>The tables are repositories\<close>

interpretation asset_repo: repository va_id find_asset save_asset
  by unfold_locales (auto simp: find_asset_def save_asset_def table_simps dest: find_key_Some)

interpretation redemption_repo: repository vr_id find_redemption save_redemption
  by unfold_locales
    (auto simp: find_redemption_def save_redemption_def table_simps dest: find_key_Some)

interpretation token_repo: repository rt_key find_token save_token
  by unfold_locales (auto simp: find_token_def save_token_def table_simps dest: find_key_Some)

lemma find_save_cycle [table_simps]:
  "find_cycle i (save_cycle now c db) =
     (if vc_id c = i then Some (c\<lparr>vc_updatedAt := now\<rparr>) else find_cycle i db)"
  by (auto simp: find_cycle_def save_cycle_def table_simps)

lemma find_cycle_Some: "find_cycle i db = Some c \<Longrightarrow> c \<in> set (vd_cycles db) \<and> vc_id c = i"
  unfolding find_cycle_def by (rule find_key_Some)

lemma find_asset_Some: "find_asset i db = Some a \<Longrightarrow> a \<in> set (vd_assets db) \<and> va_id a = i"
  unfolding find_asset_def by (rule find_key_Some)

lemma find_redemption_Some:
  "find_redemption i db = Some r \<Longrightarrow> r \<in> set (vd_redemptions db) \<and> vr_id r = i"
  unfolding find_redemption_def by (rule find_key_Some)

lemma find_token_Some: "find_token k db = Some t \<Longrightarrow> t \<in> set (vd_tokens db) \<and> rt_key t = k"
  unfolding find_token_def by (rule find_key_Some)

text \<open>Each save changes one table.\<close>

lemma save_tables:
  "vd_assets (save_asset a db) = upsert va_id a (vd_assets db)"
  "vd_cycles (save_cycle now c db) = upsert vc_id (c\<lparr>vc_updatedAt := now\<rparr>) (vd_cycles db)"
  "vd_redemptions (save_redemption r db) = upsert vr_id r (vd_redemptions db)"
  "vd_tokens (save_token t db) = upsert rt_key t (vd_tokens db)"
  by (simp_all add: save_asset_def save_cycle_def save_redemption_def save_token_def)

lemma save_frames [simp]:
  "vd_cycles (save_asset a db) = vd_cycles db" "vd_redemptions (save_asset a db) = vd_redemptions db"
  "vd_claims (save_asset a db) = vd_claims db" "vd_tokens (save_asset a db) = vd_tokens db"
  "vd_partners (save_asset a db) = vd_partners db" "vd_next (save_asset a db) = vd_next db"
  "vd_assets (save_cycle now c db) = vd_assets db"
  "vd_redemptions (save_cycle now c db) = vd_redemptions db"
  "vd_claims (save_cycle now c db) = vd_claims db" "vd_tokens (save_cycle now c db) = vd_tokens db"
  "vd_partners (save_cycle now c db) = vd_partners db" "vd_next (save_cycle now c db) = vd_next db"
  "vd_assets (save_redemption r db) = vd_assets db" "vd_cycles (save_redemption r db) = vd_cycles db"
  "vd_claims (save_redemption r db) = vd_claims db" "vd_tokens (save_redemption r db) = vd_tokens db"
  "vd_partners (save_redemption r db) = vd_partners db"
  "vd_next (save_redemption r db) = vd_next db"
  "vd_assets (save_token t db) = vd_assets db" "vd_cycles (save_token t db) = vd_cycles db"
  "vd_redemptions (save_token t db) = vd_redemptions db" "vd_claims (save_token t db) = vd_claims db"
  "vd_partners (save_token t db) = vd_partners db" "vd_next (save_token t db) = vd_next db"
  by (simp_all add: save_asset_def save_cycle_def save_redemption_def save_token_def)

lemma find_frames [simp]:
  "find_cycle i (save_asset a db) = find_cycle i db"
  "find_redemption i (save_asset a db) = find_redemption i db"
  "find_token k (save_asset a db) = find_token k db"
  "find_asset i (save_cycle now c db) = find_asset i db"
  "find_redemption i (save_cycle now c db) = find_redemption i db"
  "find_token k (save_cycle now c db) = find_token k db"
  "find_asset i (save_redemption r db) = find_asset i db"
  "find_cycle i (save_redemption r db) = find_cycle i db"
  "find_token k (save_redemption r db) = find_token k db"
  "find_asset i (save_token t db) = find_asset i db"
  "find_cycle i (save_token t db) = find_cycle i db"
  "find_redemption i (save_token t db) = find_redemption i db"
  by (simp_all add: find_asset_def find_cycle_def find_redemption_def find_token_def)

section \<open>The life cycle as an order\<close>

text \<open>
  A cycle only moves up in this order: from the deposit over the mint to the redemption, with
  the two terminal statuses at the top.
\<close>

definition status_rank :: "vault_cycle_status \<Rightarrow> nat" where
  "status_rank s = (case s of
      pending_deposit \<Rightarrow> 0 | deposit_verified \<Rightarrow> 1 | minting \<Rightarrow> 2 | minted \<Rightarrow> 3
    | redemption_requested \<Rightarrow> 4 | cancelled \<Rightarrow> 5 | redeemed \<Rightarrow> 6)"

lemma status_rank_inj: "status_rank s = status_rank t \<Longrightarrow> s = t"
  by (cases s; cases t; simp add: status_rank_def)

instantiation vault_cycle_status :: linorder
begin

definition less_eq_vault_cycle_status :: "vault_cycle_status \<Rightarrow> vault_cycle_status \<Rightarrow> bool" where
  "less_eq_vault_cycle_status s t = (status_rank s \<le> status_rank t)"

definition less_vault_cycle_status :: "vault_cycle_status \<Rightarrow> vault_cycle_status \<Rightarrow> bool" where
  "less_vault_cycle_status s t = (status_rank s < status_rank t)"

instance
  by standard (auto simp: less_eq_vault_cycle_status_def less_vault_cycle_status_def
      dest: status_rank_inj)

end

lemma terminal_status: "(s = redeemed \<or> s = cancelled) \<longleftrightarrow> cancelled \<le> s"
  by (cases s) (simp_all add: less_eq_vault_cycle_status_def status_rank_def)

lemma open_cycle_less: "open_cycle c \<longleftrightarrow> vc_status c < cancelled"
  using terminal_status [of "vc_status c"] by (auto simp: open_cycle_def)

lemma status_le [simp]:
  "minted \<le> s \<longleftrightarrow> s \<in> {minted, redemption_requested, cancelled, redeemed}"
  "s \<le> (redeemed :: vault_cycle_status)"
  by (cases s; simp add: less_eq_vault_cycle_status_def status_rank_def)+

end
