(* ===== verification/VaultInvariant.thy ===== *)
theory VaultInvariant
  imports VaultData
begin

text \<open>
  The invariant of the vault tables and what each kind of save does to it. The parts are the
  unique indexes of the schema, the keys and their counter, the numbering of the cycles of an
  asset, and the link between redemptions and cycles: while a redemption is open its cycle is
  redemption_requested or redeemed. The operations of the vault are proved to keep it from
  these lemmas, so the indexes of the schema that the lemmas name are never what stops them.
\<close>

named_theorems wf_intros \<open>saves that keep the vault invariant\<close>

section \<open>The invariant\<close>

definition keys_wf :: "vault_db \<Rightarrow> bool" where
  "keys_wf db = (distinct (map va_id (vd_assets db)) \<and> distinct (map vc_id (vd_cycles db))
     \<and> distinct (map vr_id (vd_redemptions db))
     \<and> (\<forall>a \<in> set (vd_assets db). va_id a < vd_next db)
     \<and> (\<forall>c \<in> set (vd_cycles db). vc_id c < vd_next db)
     \<and> (\<forall>r \<in> set (vd_redemptions db). vr_id r < vd_next db))"

definition cycles_wf :: "vault_db \<Rightarrow> bool" where
  "cycles_wf db = (uq_cycles_one_open_per_asset_chain db \<and> uq_cycles_asset_number db
     \<and> (\<forall>c \<in> set (vd_cycles db). 1 \<le> vc_cycleNumber c
          \<and> vc_cycleNumber c \<le> length (cycles_of_asset (vc_vaultAssetId c) db)
          \<and> (\<exists>a \<in> set (vd_assets db). va_id a = vc_vaultAssetId c)))"

definition in_redemption :: "nat \<Rightarrow> vault_db \<Rightarrow> bool" where
  "in_redemption cycleId db = (\<exists>c \<in> set (vd_cycles db).
     vc_id c = cycleId \<and> (vc_status c = redemption_requested \<or> vc_status c = redeemed))"

definition redemptions_wf :: "vault_db \<Rightarrow> bool" where
  "redemptions_wf db = (uq_redemptions_one_open_per_cycle db
     \<and> (\<forall>r \<in> set (vd_redemptions db). open_redemption r \<longrightarrow> in_redemption (vr_vaultCycleId r) db))"

definition tokens_wf :: "vault_db \<Rightarrow> bool" where
  "tokens_wf db = (tokens_unique (vd_tokens db) \<and> distinct (map rt_key (vd_tokens db))
     \<and> (\<forall>t \<in> set (vd_tokens db). \<forall>i. rt_vaultCycleId t = Some i \<longrightarrow>
          (\<exists>c \<in> set (vd_cycles db). vc_id c = i \<and> minted \<le> vc_status c \<and> vc_status c \<noteq> cancelled)))"

definition claims_wf :: "vault_db \<Rightarrow> bool" where
  "claims_wf db = (distinct (map pc_paymentTxHash (vd_claims db)) \<and> uq_claims_batch (vd_claims db))"

definition vault_wf :: "vault_db \<Rightarrow> bool" where
  "vault_wf db = (keys_wf db \<and> uq_assets_type_cert db \<and> cycles_wf db \<and> redemptions_wf db
     \<and> tokens_wf db \<and> claims_wf db)"

lemmas wf_defs = vault_wf_def keys_wf_def cycles_wf_def redemptions_wf_def tokens_wf_def claims_wf_def
  uq_assets_type_cert_def uq_cycles_one_open_per_asset_chain_def uq_cycles_asset_number_def
  uq_redemptions_one_open_per_cycle_def

definition empty_db :: vault_db where
  "empty_db = \<lparr>vd_assets = [], vd_cycles = [], vd_redemptions = [], vd_claims = [], vd_tokens = [],
     vd_partners = [], vd_next = 0\<rparr>"

lemma empty_db_wf: "vault_wf empty_db"
  by (simp add: wf_defs empty_db_def tokens_unique_def uq_tokens_vault_cycle_def
      uq_tokens_contract_cert_active_def uq_claims_batch_def)

section \<open>Reading a well-formed database\<close>

lemma find_cycle_member: "vault_wf db \<Longrightarrow> c \<in> set (vd_cycles db) \<Longrightarrow> find_cycle (vc_id c) db = Some c"
  by (simp add: wf_defs find_cycle_def find_key_member)

lemma cycle_by_id:
  "vault_wf db \<Longrightarrow> c \<in> set (vd_cycles db) \<Longrightarrow> d \<in> set (vd_cycles db) \<Longrightarrow> vc_id c = vc_id d \<Longrightarrow> c = d"
  by (metis find_cycle_member option.inject)

lemma asset_by_id:
  "vault_wf db \<Longrightarrow> a \<in> set (vd_assets db) \<Longrightarrow> b \<in> set (vd_assets db) \<Longrightarrow> va_id a = va_id b \<Longrightarrow> a = b"
  unfolding vault_wf_def keys_wf_def by (metis find_key_member option.inject)

lemma in_redemption_iff:
  "vault_wf db \<Longrightarrow> in_redemption i db \<longleftrightarrow>
     (\<exists>c. find_cycle i db = Some c \<and> (vc_status c = redemption_requested \<or> vc_status c = redeemed))"
  unfolding in_redemption_def by (metis find_cycle_Some find_cycle_member)

lemma cycles_of_asset_frames [simp]:
  "cycles_of_asset i (save_asset a db) = cycles_of_asset i db"
  "cycles_of_asset i (save_redemption r db) = cycles_of_asset i db"
  "cycles_of_asset i (save_token t db) = cycles_of_asset i db"
  "cycles_of_asset i (db\<lparr>vd_next := n\<rparr>) = cycles_of_asset i db"
  "cycles_of_asset i (db\<lparr>vd_claims := cs\<rparr>) = cycles_of_asset i db"
  by (simp_all add: cycles_of_asset_def)

lemma in_redemption_frames [simp]:
  "in_redemption i (save_asset a db) = in_redemption i db"
  "in_redemption i (save_redemption r db) = in_redemption i db"
  "in_redemption i (save_token t db) = in_redemption i db"
  "in_redemption i (db\<lparr>vd_next := n\<rparr>) = in_redemption i db"
  "in_redemption i (db\<lparr>vd_claims := cs\<rparr>) = in_redemption i db"
  by (simp_all add: in_redemption_def)

section \<open>Assets\<close>

lemma save_asset_wf [wf_intros]:
  assumes wf: "vault_wf db" and old: "find_asset (va_id a) db = Some b"
    and same: "va_assetType a = va_assetType b" "va_externalCertNumber a = va_externalCertNumber b"
  shows "vault_wf (save_asset a db)"
proof -
  have b: "b \<in> set (vd_assets db)" "va_id b = va_id a" using find_asset_Some [OF old] by auto
  have uq: "uq_assets_type_cert (save_asset a db)"
    unfolding uq_assets_type_cert_def save_asset_def
    using wf b same by (auto simp: wf_defs intro!: unique_index_update)
  have keys: "va_id ` set (upsert va_id a (vd_assets db)) = va_id ` set (vd_assets db)"
    using b by (metis (no_types, lifting) image_eqI insert_absorb keys_upsert)
  then have ex: "(\<exists>x \<in> set (upsert va_id a (vd_assets db)). va_id x = i) \<longleftrightarrow>
      (\<exists>x \<in> set (vd_assets db). va_id x = i)" for i
    by (metis (no_types, opaque_lifting) image_iff)
  have lt: "\<forall>x \<in> set (upsert va_id a (vd_assets db)). va_id x < vd_next db"
    using wf b by (intro ball_upsert) (auto simp: wf_defs)
  have "keys_wf (save_asset a db)" using wf lt by (simp add: wf_defs save_asset_def)
  moreover have "cycles_wf (save_asset a db)"
    using wf ex by (simp add: cycles_wf_def vault_wf_def save_asset_def uq_cycles_asset_number_def
        uq_cycles_one_open_per_asset_chain_def cycles_of_asset_def)
  ultimately show ?thesis
    using wf uq by (simp add: vault_wf_def redemptions_wf_def tokens_wf_def claims_wf_def
        uq_redemptions_one_open_per_cycle_def)
qed

lemma new_asset_wf [wf_intros]:
  assumes wf: "vault_wf db" and new: "va_id a = vd_next db"
    and fresh: "\<forall>b \<in> set (vd_assets db). (va_assetType b, va_externalCertNumber b)
       \<noteq> (va_assetType a, va_externalCertNumber a)"
  shows "vault_wf (save_asset a (db\<lparr>vd_next := vd_next db + 1\<rparr>))"
proof -
  have app: "upsert va_id a (vd_assets db) = vd_assets db @ [a]"
    using wf new by (intro upsert_fresh) (auto simp: wf_defs)
  have uq: "unique_index va_id (\<lambda>a. (va_assetType a, va_externalCertNumber a)) (\<lambda>_. True)
      (upsert va_id a (vd_assets db))"
    using wf fresh by (intro unique_index_upsert) (auto simp: wf_defs)
  show ?thesis
    using wf new uq unfolding wf_defs save_asset_def
    by (auto simp: app cycles_of_asset_def in_redemption_def less_Suc_eq)
qed

section \<open>Cycles\<close>

lemma map_filter_upsert_same:
  "distinct (map key t) \<Longrightarrow> x \<in> set t \<Longrightarrow> key r = key x \<Longrightarrow> p r = p x \<Longrightarrow>
   length (filter p (upsert key r t)) = length (filter p t)"
proof (induction t)
  case (Cons a t)
  have "key a = key x \<Longrightarrow> a = x" using Cons.prems by (auto simp: rev_image_eqI)
  with Cons show ?case by (auto simp: rev_image_eqI)
qed simp

text \<open>
  A save that keeps the place of a cycle and never reopens it. A cycle may leave its redemption
  only when none of its redemptions is open.
\<close>

lemma save_cycle_wf_gen:
  assumes wf: "vault_wf db" and old: "find_cycle (vc_id c) db = Some b"
    and same: "vc_vaultAssetId c = vc_vaultAssetId b" "vc_chainId c = vc_chainId b"
      "vc_cycleNumber c = vc_cycleNumber b"
    and closed: "open_cycle c \<Longrightarrow> open_cycle b"
    and red: "vc_status b = redemption_requested \<or> vc_status b = redeemed \<Longrightarrow>
       vc_status c = redemption_requested \<or> vc_status c = redeemed
       \<or> (\<forall>r \<in> set (vd_redemptions db). open_redemption r \<longrightarrow> vr_vaultCycleId r \<noteq> vc_id c)"
    and up: "minted \<le> vc_status b \<Longrightarrow> vc_status b \<noteq> cancelled \<Longrightarrow>
       minted \<le> vc_status c \<and> vc_status c \<noteq> cancelled"
  shows "vault_wf (save_cycle now c db)"
proof -
  let ?c = "c\<lparr>vc_updatedAt := now\<rparr>"
  let ?t = "upsert vc_id ?c (vd_cycles db)"
  have b: "b \<in> set (vd_cycles db)" "vc_id b = vc_id c" using find_cycle_Some [OF old] by auto
  have dist: "distinct (map vc_id (vd_cycles db))" using wf by (simp add: wf_defs)
  have 1: "unique_index vc_id (\<lambda>c. (vc_vaultAssetId c, vc_chainId c)) open_cycle ?t"
    by (rule unique_index_update [of _ _ _ _ b])
      (use wf b same closed in \<open>auto simp: wf_defs open_cycle_def\<close>)
  have 2: "unique_index vc_id (\<lambda>c. (vc_vaultAssetId c, vc_cycleNumber c)) (\<lambda>_. True) ?t"
    by (rule unique_index_update [of _ _ _ _ b]) (use wf b same in \<open>auto simp: wf_defs\<close>)
  have len: "length (filter (\<lambda>x. vc_vaultAssetId x = i) ?t) =
      length (filter (\<lambda>x. vc_vaultAssetId x = i) (vd_cycles db))" for i
    by (rule map_filter_upsert_same [OF dist b(1)]) (use b same in auto)
  have num: "\<forall>x \<in> set ?t. 1 \<le> vc_cycleNumber x
      \<and> vc_cycleNumber x \<le> length (filter (\<lambda>y. vc_vaultAssetId y = vc_vaultAssetId x) (vd_cycles db))
      \<and> (\<exists>a \<in> set (vd_assets db). va_id a = vc_vaultAssetId x)"
    by (rule ball_upsert) (use wf b same in \<open>auto simp: wf_defs cycles_of_asset_def\<close>)
  have keys: "keys_wf (save_cycle now c db)"
    using wf b dist ball_upsert [of "vd_cycles db" "\<lambda>x. vc_id x < vd_next db" ?c vc_id]
    by (auto simp: wf_defs save_cycle_def)
  have cycles: "cycles_wf (save_cycle now c db)"
    using wf 1 2 num by (simp add: cycles_wf_def vault_wf_def uq_cycles_asset_number_def
        uq_cycles_one_open_per_asset_chain_def save_cycle_def cycles_of_asset_def len)
  have ex: "(q b \<Longrightarrow> q ?c) \<Longrightarrow> \<exists>x \<in> set (vd_cycles db). q x \<Longrightarrow> \<exists>x \<in> set ?t. q x" for q
    by (rule bex_upsert [OF dist b(1)]) (use b(2) in auto)
  have inr: "in_redemption (vr_vaultCycleId r) (save_cycle now c db)"
    if r: "r \<in> set (vd_redemptions db)" "open_redemption r" for r
  proof -
    have "in_redemption (vr_vaultCycleId r) db" using wf r by (simp add: wf_defs)
    then show ?thesis
      unfolding in_redemption_def save_cycle_def
      by simp (rule ex, use red b(2) r in auto)
  qed
  have tok: "\<exists>x \<in> set (vd_cycles db). vc_id x = i \<and> minted \<le> vc_status x \<and> vc_status x \<noteq> cancelled \<Longrightarrow>
      \<exists>x \<in> set ?t. vc_id x = i \<and> minted \<le> vc_status x \<and> vc_status x \<noteq> cancelled" for i
    by (rule ex) (use up b(2) in auto)
  have "tokens_wf (save_cycle now c db)"
    using wf tok unfolding vault_wf_def tokens_wf_def save_cycle_def by simp
  moreover have "redemptions_wf (save_cycle now c db)"
    using wf inr unfolding vault_wf_def redemptions_wf_def uq_redemptions_one_open_per_cycle_def by simp
  ultimately show ?thesis
    using wf keys cycles by (simp add: vault_wf_def uq_assets_type_cert_def claims_wf_def)
qed

lemma save_cycle_wf [wf_intros]:
  assumes "vault_wf db" "find_cycle (vc_id c) db = Some b" "vc_vaultAssetId c = vc_vaultAssetId b"
    "vc_chainId c = vc_chainId b" "vc_cycleNumber c = vc_cycleNumber b" "open_cycle c \<Longrightarrow> open_cycle b"
    "vc_status b = redemption_requested \<or> vc_status b = redeemed \<Longrightarrow>
       vc_status c = redemption_requested \<or> vc_status c = redeemed"
    "minted \<le> vc_status b \<Longrightarrow> vc_status b \<noteq> cancelled \<Longrightarrow> minted \<le> vc_status c \<and> vc_status c \<noteq> cancelled"
  shows "vault_wf (save_cycle now c db)"
  by (rule save_cycle_wf_gen [OF assms(1-5)]) (use assms(6-8) in blast)+

text \<open>A new cycle takes the next number of its asset and finds no open one.\<close>

lemma new_cycle_wf [wf_intros]:
  assumes wf: "vault_wf db" and new: "vc_id c = vd_next db"
    and a: "\<exists>a \<in> set (vd_assets db). va_id a = vc_vaultAssetId c"
    and num: "vc_cycleNumber c = length (cycles_of_asset (vc_vaultAssetId c) db) + 1"
    and none: "\<forall>x \<in> set (vd_cycles db). open_cycle x \<longrightarrow>
       vc_vaultAssetId x = vc_vaultAssetId c \<longrightarrow> vc_chainId x \<noteq> vc_chainId c"
  shows "vault_wf (save_cycle now c (db\<lparr>vd_next := vd_next db + 1\<rparr>))"
proof -
  let ?c = "c\<lparr>vc_updatedAt := now\<rparr>"
  have app: "upsert vc_id ?c (vd_cycles db) = vd_cycles db @ [?c]"
    using wf new by (intro upsert_fresh) (auto simp: wf_defs)
  have 1: "unique_index vc_id (\<lambda>c. (vc_vaultAssetId c, vc_chainId c)) open_cycle
      (upsert vc_id ?c (vd_cycles db))"
    by (rule unique_index_upsert) (use wf none in \<open>auto simp: wf_defs open_cycle_def\<close>)
  have 2: "unique_index vc_id (\<lambda>c. (vc_vaultAssetId c, vc_cycleNumber c)) (\<lambda>_. True)
      (upsert vc_id ?c (vd_cycles db))"
    by (rule unique_index_upsert) (use wf num in \<open>fastforce simp: wf_defs\<close>)+
  have keys: "keys_wf (save_cycle now c (db\<lparr>vd_next := vd_next db + 1\<rparr>))"
    using wf new by (auto simp: wf_defs save_cycle_def app less_Suc_eq)
  have cycles: "cycles_wf (save_cycle now c (db\<lparr>vd_next := vd_next db + 1\<rparr>))"
    using wf 1 2 a num unfolding wf_defs save_cycle_def
    by (auto simp: app cycles_of_asset_def)
  have "redemptions_wf (save_cycle now c (db\<lparr>vd_next := vd_next db + 1\<rparr>))"
    using wf by (auto simp: wf_defs save_cycle_def app in_redemption_def)
  moreover have "tokens_wf (save_cycle now c (db\<lparr>vd_next := vd_next db + 1\<rparr>))"
    using wf by (fastforce simp: wf_defs save_cycle_def app)
  ultimately show ?thesis
    using wf keys cycles by (simp add: vault_wf_def uq_assets_type_cert_def claims_wf_def)
qed

section \<open>Redemptions, tokens and claims\<close>

text \<open>A save that keeps the cycle of a redemption and does not reopen it.\<close>

lemma save_redemption_wf [wf_intros]:
  assumes wf: "vault_wf db" and old: "find_redemption (vr_id r) db = Some b"
    and same: "vr_vaultCycleId r = vr_vaultCycleId b"
    and closed: "open_redemption r \<Longrightarrow> open_redemption b"
  shows "vault_wf (save_redemption r db)"
proof -
  let ?t = "upsert vr_id r (vd_redemptions db)"
  have b: "b \<in> set (vd_redemptions db)" "vr_id b = vr_id r" using find_redemption_Some [OF old] by auto
  have 1: "unique_index vr_id vr_vaultCycleId open_redemption ?t"
    by (rule unique_index_update [of _ _ _ _ b]) (use wf b same closed in \<open>auto simp: wf_defs\<close>)
  have 2: "\<forall>x \<in> set ?t. open_redemption x \<longrightarrow> in_redemption (vr_vaultCycleId x) db"
    by (rule ball_upsert) (use wf b same closed in \<open>auto simp: wf_defs\<close>)
  have 3: "\<forall>x \<in> set ?t. vr_id x < vd_next db"
    by (rule ball_upsert) (use wf b in \<open>auto simp: wf_defs\<close>)
  have "keys_wf (save_redemption r db)"
    using wf 3 by (simp add: wf_defs save_redemption_def)
  moreover have "redemptions_wf (save_redemption r db)"
    using 1 2 unfolding redemptions_wf_def uq_redemptions_one_open_per_cycle_def
    by simp (simp add: save_redemption_def)
  ultimately show ?thesis
    using wf by (simp add: vault_wf_def uq_assets_type_cert_def claims_wf_def tokens_wf_def
        cycles_wf_def uq_cycles_one_open_per_asset_chain_def uq_cycles_asset_number_def)
qed

lemma new_redemption_wf [wf_intros]:
  assumes wf: "vault_wf db" and new: "vr_id r = vd_next db"
    and none: "open_redemption r \<Longrightarrow> \<forall>x \<in> set (vd_redemptions db). open_redemption x \<longrightarrow>
       vr_vaultCycleId x \<noteq> vr_vaultCycleId r"
    and inr: "open_redemption r \<Longrightarrow> in_redemption (vr_vaultCycleId r) db"
  shows "vault_wf (save_redemption r (db\<lparr>vd_next := vd_next db + 1\<rparr>))"
proof -
  let ?db = "save_redemption r (db\<lparr>vd_next := vd_next db + 1\<rparr>)"
  have app: "upsert vr_id r (vd_redemptions db) = vd_redemptions db @ [r]"
    using wf new by (intro upsert_fresh) (auto simp: wf_defs)
  have 1: "unique_index vr_id vr_vaultCycleId open_redemption (upsert vr_id r (vd_redemptions db))"
    by (rule unique_index_upsert) (use wf none in \<open>auto simp: wf_defs\<close>)
  have "keys_wf ?db" using wf new by (auto simp: wf_defs save_redemption_def app less_Suc_eq)
  moreover have "redemptions_wf ?db"
    using wf 1 inr by (auto simp: wf_defs save_redemption_def app in_redemption_def)
  ultimately show ?thesis
    using wf by (simp add: vault_wf_def uq_assets_type_cert_def claims_wf_def tokens_wf_def
        cycles_wf_def uq_cycles_one_open_per_asset_chain_def uq_cycles_asset_number_def)
qed

lemma save_token_wf [wf_intros]:
  assumes wf: "vault_wf db" and uq: "tokens_unique (vd_tokens (save_token t db))"
    and link: "\<And>i. rt_vaultCycleId t = Some i \<Longrightarrow>
       \<exists>c. find_cycle i db = Some c \<and> minted \<le> vc_status c \<and> vc_status c \<noteq> cancelled"
  shows "vault_wf (save_token t db)"
proof -
  have "\<forall>x \<in> set (upsert rt_key t (vd_tokens db)). \<forall>i. rt_vaultCycleId x = Some i \<longrightarrow>
      (\<exists>c \<in> set (vd_cycles db). vc_id c = i \<and> minted \<le> vc_status c \<and> vc_status c \<noteq> cancelled)"
  proof (rule ball_upsert)
    show "\<forall>x \<in> set (vd_tokens db). \<forall>i. rt_vaultCycleId x = Some i \<longrightarrow>
      (\<exists>c \<in> set (vd_cycles db). vc_id c = i \<and> minted \<le> vc_status c \<and> vc_status c \<noteq> cancelled)"
      using wf unfolding vault_wf_def tokens_wf_def by blast
    show "\<forall>i. rt_vaultCycleId t = Some i \<longrightarrow>
      (\<exists>c \<in> set (vd_cycles db). vc_id c = i \<and> minted \<le> vc_status c \<and> vc_status c \<noteq> cancelled)"
      using link find_cycle_Some by blast
  qed
  then have "tokens_wf (save_token t db)"
    using wf uq by (simp add: vault_wf_def tokens_wf_def) (simp add: save_token_def)
  then show ?thesis
    using wf by (simp add: vault_wf_def keys_wf_def uq_assets_type_cert_def claims_wf_def
        cycles_wf_def uq_cycles_one_open_per_asset_chain_def uq_cycles_asset_number_def
        redemptions_wf_def uq_redemptions_one_open_per_cycle_def)
qed

lemma token_cycle:
  assumes "vault_wf db" "t \<in> set (vd_tokens db)" "rt_vaultCycleId t = Some i"
  shows "\<exists>c. find_cycle i db = Some c \<and> minted \<le> vc_status c \<and> vc_status c \<noteq> cancelled"
  using assms find_cycle_member [OF assms(1)] unfolding vault_wf_def tokens_wf_def by metis

text \<open>Updates of a token that keep its cycle and do not put a burned one back.\<close>

lemma save_token_update_wf [wf_intros]:
  assumes wf: "vault_wf db" and old: "find_token (rt_key t) db = Some b"
    and same: "rt_vaultCycleId t = rt_vaultCycleId b" "rt_certNumber t = rt_certNumber b"
    and burn: "rt_burnedAt t = None \<Longrightarrow> rt_burnedAt b = None"
  shows "vault_wf (save_token t db)"
proof (rule save_token_wf [OF wf])
  have b: "b \<in> set (vd_tokens db)" "rt_key b = rt_key t" using find_token_Some [OF old] by auto
  have c: "rt_tokenContract t = rt_tokenContract b" using b(2) by (simp add: rt_key_def)
  have uq: "uq_tokens_vault_cycle (vd_tokens db)" "uq_tokens_contract_cert_active (vd_tokens db)"
    using wf by (simp_all add: wf_defs tokens_unique_def)
  have "uq_tokens_vault_cycle (vd_tokens (save_token t db))"
    using uq(1) unfolding uq_tokens_vault_cycle_def save_tables
    by (rule unique_index_update [of _ _ _ _ b]) (use b same in auto)
  moreover have "uq_tokens_contract_cert_active (vd_tokens (save_token t db))"
    using uq(2) unfolding uq_tokens_contract_cert_active_def save_tables
    by (rule unique_index_update [of _ _ _ _ b]) (use b c same burn in auto)
  ultimately show "tokens_unique (vd_tokens (save_token t db))" by (simp add: tokens_unique_def)
  show "\<exists>c. find_cycle i db = Some c \<and> minted \<le> vc_status c \<and> vc_status c \<noteq> cancelled"
    if "rt_vaultCycleId t = Some i" for i
    using that b same token_cycle [OF wf] by metis
qed

lemma claims_wf_replace [wf_intros]:
  "vault_wf db \<Longrightarrow> claims_wf (db\<lparr>vd_claims := cs\<rparr>) \<Longrightarrow> vault_wf (db\<lparr>vd_claims := cs\<rparr>)"
  by (simp add: vault_wf_def keys_wf_def uq_assets_type_cert_def tokens_wf_def
      cycles_wf_def uq_cycles_one_open_per_asset_chain_def uq_cycles_asset_number_def
      redemptions_wf_def uq_redemptions_one_open_per_cycle_def)

text \<open>The rows an index allows one of.\<close>

lemma one_open_cycle:
  assumes "vault_wf db" "c \<in> set (vd_cycles db)" "d \<in> set (vd_cycles db)" "open_cycle c" "open_cycle d"
    "vc_vaultAssetId c = vc_vaultAssetId d" "vc_chainId c = vc_chainId d"
  shows "c = d"
proof -
  have "vc_id c = vc_id d"
    using assms by (intro unique_indexD [of vc_id "\<lambda>c. (vc_vaultAssetId c, vc_chainId c)" open_cycle
          "vd_cycles db"]) (auto simp: wf_defs)
  with assms show ?thesis by (blast intro: cycle_by_id)
qed

lemma one_open_redemption:
  assumes "vault_wf db" "r \<in> set (vd_redemptions db)" "q \<in> set (vd_redemptions db)"
    "open_redemption r" "open_redemption q" "vr_vaultCycleId r = vr_vaultCycleId q"
  shows "r = q"
proof -
  have "vr_id r = vr_id q"
    using assms by (intro unique_indexD [of vr_id vr_vaultCycleId open_redemption
          "vd_redemptions db"]) (auto simp: wf_defs)
  moreover have "distinct (map vr_id (vd_redemptions db))" using assms by (simp add: wf_defs)
  ultimately show ?thesis using assms(2,3) by (metis find_key_member option.inject)
qed

lemma open_redemption_in_redemption:
  "vault_wf db \<Longrightarrow> r \<in> set (vd_redemptions db) \<Longrightarrow> open_redemption r \<Longrightarrow>
   in_redemption (vr_vaultCycleId r) db"
  by (simp add: wf_defs)

section \<open>Cycles only advance\<close>

text \<open>
  Every cycle is still there, at the same place, and its status has not gone down in the order
  of the life cycle.
\<close>

definition cycles_advance :: "vault_db \<Rightarrow> vault_db \<Rightarrow> bool" where
  "cycles_advance db db' = (\<forall>c \<in> set (vd_cycles db). \<exists>d \<in> set (vd_cycles db'). vc_id d = vc_id c
     \<and> vc_vaultAssetId d = vc_vaultAssetId c \<and> vc_chainId d = vc_chainId c
     \<and> vc_cycleNumber d = vc_cycleNumber c \<and> vc_status c \<le> vc_status d)"

lemma cycles_advance_refl [simp]: "cycles_advance db db"
  by (auto simp: cycles_advance_def)

lemma cycles_advance_same: "vd_cycles db' = vd_cycles db \<Longrightarrow> cycles_advance db db'"
  by (auto simp: cycles_advance_def)

lemma cycles_advance_trans: "cycles_advance a b \<Longrightarrow> cycles_advance b c \<Longrightarrow> cycles_advance a c"
  unfolding cycles_advance_def by (metis order_trans)

lemma cycles_advance_terminal:
  assumes "cycles_advance db db'" "c \<in> set (vd_cycles db)" "\<not> open_cycle c"
  shows "\<exists>d \<in> set (vd_cycles db'). vc_id d = vc_id c \<and> \<not> open_cycle d"
proof -
  obtain d where "d \<in> set (vd_cycles db')" "vc_id d = vc_id c" "vc_status c \<le> vc_status d"
    using assms unfolding cycles_advance_def by blast
  then show ?thesis using assms(3) unfolding open_cycle_less by force
qed

lemma save_cycle_advance:
  assumes "find_cycle (vc_id c) db = Some b"
    and "vc_vaultAssetId c = vc_vaultAssetId b" "vc_chainId c = vc_chainId b"
      "vc_cycleNumber c = vc_cycleNumber b" "vc_status b \<le> vc_status c" and wf: "vault_wf db"
  shows "cycles_advance db (save_cycle now c db)"
  unfolding cycles_advance_def
proof
  fix x assume x: "x \<in> set (vd_cycles db)"
  have dist: "distinct (map vc_id (vd_cycles db))" using wf by (simp add: wf_defs)
  show "\<exists>d \<in> set (vd_cycles (save_cycle now c db)). vc_id d = vc_id x
      \<and> vc_vaultAssetId d = vc_vaultAssetId x \<and> vc_chainId d = vc_chainId x
      \<and> vc_cycleNumber d = vc_cycleNumber x \<and> vc_status x \<le> vc_status d"
    unfolding save_tables
    by (rule bex_upsert [OF dist, of b])
       (use assms x find_cycle_Some [OF assms(1)] cycle_by_id [OF wf x] in auto)
qed

lemma new_cycle_advance:
  assumes "vault_wf db" "vc_id c = vd_next db"
  shows "cycles_advance db (save_cycle now c (db\<lparr>vd_next := vd_next db + 1\<rparr>))"
proof -
  have "vc_id (c\<lparr>vc_updatedAt := now\<rparr>) \<notin> vc_id ` set (vd_cycles db)"
    using assms by (auto simp: wf_defs)
  then show ?thesis by (auto simp: cycles_advance_def save_tables upsert_fresh)
qed

lemmas status_order = less_eq_vault_cycle_status_def status_rank_def

text \<open>
  A save of a loaded cycle with a later status; a minted cycle is not cancelled. Every writer
  of cycles in the vault is of this form.
\<close>

lemma step_cycle:
  assumes wf: "vault_wf db" and old: "find_cycle i db = Some b"
    and same: "vc_id c = vc_id b" "vc_vaultAssetId c = vc_vaultAssetId b" "vc_chainId c = vc_chainId b"
      "vc_cycleNumber c = vc_cycleNumber b"
    and up: "vc_status b \<le> vc_status c" "minted \<le> vc_status b \<Longrightarrow> vc_status c \<noteq> cancelled"
  shows "vault_wf (save_cycle now c db)" "cycles_advance db (save_cycle now c db)"
proof -
  have old': "find_cycle (vc_id c) db = Some b" using old same find_cycle_Some by fastforce
  show "vault_wf (save_cycle now c db)"
    by (rule save_cycle_wf [OF wf old' same(2-4)])
       (use up in \<open>cases "vc_status b"; cases "vc_status c";
          simp add: open_cycle_def less_eq_vault_cycle_status_def status_rank_def\<close>)+
  show "cycles_advance db (save_cycle now c db)"
    by (rule save_cycle_advance [OF old' same(2-4) up(1) wf])
qed

end
