(* ===== verification/VaultDeposit.thy ===== *)
theory VaultDeposit
  imports VaultInvariant
begin

text \<open>
  The deposit half of vault/vault.service.ts: the pre-flight checks, reserveCycleForDeposit,
  the mint attempt (beginMintAttempt, noteMintAttemptTx, cancelCycle,
  listMintingCyclesForRecovery) and recordMintResult.

  An operation that runs in a transaction, or that writes only once at its end, returns a
  result whose Inr carries the new database; recordMintResult saves the cycle before it can
  throw, so it returns the database beside the result.
\<close>

section \<open>Lookups\<close>

definition find_asset_by_cert :: "vault_asset_type \<Rightarrow> string \<Rightarrow> vault_db \<Rightarrow> vault_asset option" where
  "find_asset_by_cert ty cert db =
     find_row (\<lambda>a. va_assetType a = ty \<and> va_externalCertNumber a = cert) (vd_assets db)"

definition open_cycle_of :: "nat \<Rightarrow> nat \<Rightarrow> vault_db \<Rightarrow> vault_cycle option" where
  "open_cycle_of assetId chainId db =
     find_row (\<lambda>c. vc_vaultAssetId c = assetId \<and> vc_chainId c = chainId \<and> open_cycle c) (vd_cycles db)"

text \<open>findOpenCycleForCert returns the certificate, the cycle's number and its status.\<close>

definition findOpenCycleForCert ::
  "string \<Rightarrow> nat \<Rightarrow> vault_asset_type \<Rightarrow> vault_db \<Rightarrow> (string \<times> nat \<times> vault_cycle_status) option" where
  "findOpenCycleForCert certNumber chainId assetType db =
     (let normalized = normalizeCert certNumber in
      if normalized = [] then None
      else case find_asset_by_cert assetType normalized db of
        None \<Rightarrow> None
      | Some asset \<Rightarrow> (case open_cycle_of (va_id asset) chainId db of
          None \<Rightarrow> None
        | Some c \<Rightarrow> Some (normalized, vc_cycleNumber c, vc_status c)))"

definition findOpenVaultCycleWithAsset ::
  "string \<Rightarrow> nat \<Rightarrow> vault_asset_type \<Rightarrow> vault_db \<Rightarrow> (vault_cycle \<times> vault_asset) option" where
  "findOpenVaultCycleWithAsset certNumber chainId assetType db =
     (let normalized = normalizeCert certNumber in
      if normalized = [] then None
      else case find_asset_by_cert assetType normalized db of
        None \<Rightarrow> None
      | Some asset \<Rightarrow> (case open_cycle_of (va_id asset) chainId db of
          None \<Rightarrow> None
        | Some c \<Rightarrow> Some (c, asset)))"

definition already_minted_message :: string where
  "already_minted_message =
     ''PSA cert is already minted on this network. Redeem it before minting again.''"

text \<open>checkAvailableForNewCycle: available, the certificate and the message.\<close>

definition checkAvailableForNewCycle ::
  "string \<Rightarrow> nat \<Rightarrow> vault_asset_type \<Rightarrow> vault_db \<Rightarrow> bool \<times> string \<times> string option" where
  "checkAvailableForNewCycle certNumber chainId assetType db =
     (case findOpenCycleForCert certNumber chainId assetType db of
        None \<Rightarrow> (True, normalizeCert certNumber, None)
      | Some (cert, n, s) \<Rightarrow> (False, cert, Some already_minted_message))"

definition assertAvailableForNewCycle ::
  "string \<Rightarrow> nat \<Rightarrow> vault_asset_type \<Rightarrow> vault_db \<Rightarrow> unit result" where
  "assertAvailableForNewCycle certNumber chainId assetType db =
     (let (available, cert, message) = checkAvailableForNewCycle certNumber chainId assetType db in
      if \<not> available then Inl (ConflictException (case message of
         Some m \<Rightarrow> m
       | None \<Rightarrow> ''PSA cert already has an active vault cycle on chain. Redeem it before re-vaulting.''))
      else Inr ())"

definition findOpenMintedTokenForCert ::
  "string \<Rightarrow> nat \<Rightarrow> vault_asset_type \<Rightarrow> vault_db \<Rightarrow>
   (vault_cycle \<times> rwa_token \<times> rat \<times> string) option" where
  "findOpenMintedTokenForCert certNumber chainId assetType db =
     (let normalized = normalizeCert certNumber in
      if normalized = [] then None
      else case find_asset_by_cert assetType normalized db of
        None \<Rightarrow> None
      | Some asset \<Rightarrow> (case open_cycle_of (va_id asset) chainId db of
          None \<Rightarrow> None
        | Some openCycle \<Rightarrow>
            if vc_status openCycle \<noteq> minted then None
            else case find_row (\<lambda>t. rt_vaultCycleId t = Some (vc_id openCycle)) (vd_tokens db) of
              None \<Rightarrow> None
            | Some token \<Rightarrow>
                if rt_tokenId token = [] \<or> rt_burnedAt token \<noteq> None then None
                else case js_Number (rt_tokenId token) of
                  None \<Rightarrow> None
                | Some tokenId \<Rightarrow>
                    if tokenId < 0 then None
                    else Some (openCycle, token, tokenId, va_vaultRef asset)))"

section \<open>Reserving a cycle\<close>

text \<open>Find or create the permanent row of the card.\<close>

definition find_or_create_asset ::
  "(string \<Rightarrow> string) \<Rightarrow> vault_asset_type \<Rightarrow> string \<Rightarrow> string option \<Rightarrow> vault_db \<Rightarrow>
   (vault_asset \<times> vault_db) result" where
  "find_or_create_asset keccak256 assetType normalized displayName db =
     (case find_asset_by_cert assetType normalized db of
        None \<Rightarrow> on_ok (computeVaultRef keccak256 normalized) (\<lambda>vaultRef.
          let asset = \<lparr>va_id = vd_next db, va_assetType = assetType,
                       va_externalCertNumber = normalized, va_vaultRef = vaultRef,
                       va_displayName = trim_or_null displayName\<rparr>
          in Inr (asset, save_asset asset (db\<lparr>vd_next := vd_next db + 1\<rparr>)))
      | Some asset \<Rightarrow>
          if trim_or_null displayName \<noteq> None \<and> or_empty (va_displayName asset) = []
          then let asset' = asset\<lparr>va_displayName := trim_or_null displayName\<rparr>
               in Inr (asset', save_asset asset' db)
          else Inr (asset, db))"

definition reserveCycleForDeposit ::
  "(string \<Rightarrow> string) \<Rightarrow> int \<Rightarrow> string \<Rightarrow> nat \<Rightarrow> vault_asset_type \<Rightarrow> string option \<Rightarrow>
   string option \<Rightarrow> vault_db \<Rightarrow> (vault_asset \<times> vault_cycle \<times> vault_db) result" where
  "reserveCycleForDeposit keccak256 now certNumber chainId assetType displayName depositedByUserId db =
     (let normalized = normalizeCert certNumber in
      if normalized = [] then Inl (BadRequestException ''certNumber is required'')
      else on_ok (find_or_create_asset keccak256 assetType normalized displayName db) (\<lambda>(asset, db).
        case open_cycle_of (va_id asset) chainId db of
          Some openCycle \<Rightarrow>
            Inl (ConflictException ''PSA cert already has an active vault cycle on chain'')
        | None \<Rightarrow>
            let priorCount = length (cycles_of_asset (va_id asset) db);
                cycle = \<lparr>vc_id = vd_next db, vc_vaultAssetId = va_id asset, vc_chainId = chainId,
                         vc_cycleNumber = priorCount + 1, vc_status = deposit_verified,
                         vc_depositedAt = Some now, vc_depositVerifiedBy = None,
                         vc_depositedByUserId = depositedByUserId, vc_redeemedAt = None,
                         vc_mintAttempt = None, vc_updatedAt = now\<rparr>
            in Inr (asset, cycle, save_cycle now cycle (db\<lparr>vd_next := vd_next db + 1\<rparr>))))"

section \<open>The mint attempt\<close>

definition beginMintAttempt ::
  "int \<Rightarrow> nat \<Rightarrow> vault_mint_attempt \<Rightarrow> vault_db \<Rightarrow> vault_db result" where
  "beginMintAttempt now cycleId attempt db =
     (case find_cycle cycleId db of
        None \<Rightarrow> Inl (NotFoundException ''Vault cycle not found'')
      | Some cycle \<Rightarrow>
          if vc_status cycle \<noteq> deposit_verified \<and> vc_status cycle \<noteq> minting
          then Inl (ConflictException ''Vault cycle cannot begin mint'')
          else let tokenURI = js_trim (ma_tokenURI attempt);
                   certNumber = normalizeCert (ma_certNumber attempt);
                   ownerWallet = js_lower (js_trim (ma_ownerWallet attempt)) in
          if tokenURI = [] \<or> certNumber = [] \<or> ownerWallet = []
          then Inl (BadRequestException ''mint attempt requires tokenURI, certNumber, and ownerWallet'')
          else let settlementPolicy =
                     (if ma_settlementPolicy attempt = self_vault_hold then self_vault_hold else standard);
                   att = \<lparr>ma_tokenURI = tokenURI, ma_certNumber = certNumber,
                          ma_settlementPolicy = settlementPolicy,
                          ma_vaultPartnerId = (if settlementPolicy = self_vault_hold
                             then trim_or_null (ma_vaultPartnerId attempt) else None),
                          ma_ownerWallet = ownerWallet,
                          ma_deliveryMode = (if ma_deliveryMode attempt = direct then direct else custody),
                          ma_displayName = trim_or_null (ma_displayName attempt),
                          ma_displayImageUrl = trim_or_null (ma_displayImageUrl attempt),
                          ma_displayImageBackUrl = trim_or_null (ma_displayImageBackUrl attempt),
                          ma_tokenId = trim_or_null (ma_tokenId attempt),
                          ma_txHash = map_option js_lower (trim_or_null (ma_txHash attempt))\<rparr>
               in Inr (save_cycle now (cycle\<lparr>vc_status := minting, vc_mintAttempt := Some att\<rparr>) db))"

definition noteMintAttemptTx ::
  "int \<Rightarrow> nat \<Rightarrow> string option \<Rightarrow> string \<Rightarrow> vault_db \<Rightarrow> vault_db" where
  "noteMintAttemptTx now cycleId tokenId txHash db =
     (case find_cycle cycleId db of
        None \<Rightarrow> db
      | Some cycle \<Rightarrow>
          if vc_status cycle \<noteq> minting then db
          else case vc_mintAttempt cycle of
            None \<Rightarrow> db
          | Some att \<Rightarrow>
              let att1 = (if tokenId \<noteq> None \<and> tokenId \<noteq> Some []
                          then att\<lparr>ma_tokenId := map_option js_trim tokenId\<rparr> else att);
                  att2 = att1\<lparr>ma_txHash := Some (js_lower (js_trim txHash))\<rparr>
              in save_cycle now (cycle\<lparr>vc_mintAttempt := Some att2\<rparr>) db)"

definition cancelCycle :: "int \<Rightarrow> nat \<Rightarrow> vault_db \<Rightarrow> vault_db" where
  "cancelCycle now cycleId db =
     (case find_cycle cycleId db of
        None \<Rightarrow> db
      | Some cycle \<Rightarrow>
          if vc_status cycle \<noteq> deposit_verified \<and> vc_status cycle \<noteq> minting then db
          else save_cycle now (cycle\<lparr>vc_status := cancelled, vc_mintAttempt := None\<rparr>) db)"

definition recoverable ::
  "vault_db \<Rightarrow> vault_cycle \<Rightarrow> (vault_cycle \<times> vault_asset \<times> vault_mint_attempt) option" where
  "recoverable db cycle =
     (case (vc_mintAttempt cycle, find_asset (vc_vaultAssetId cycle) db) of
        (Some attempt, Some asset) \<Rightarrow>
          if ma_tokenURI attempt = [] \<or> ma_certNumber attempt = [] then None
          else Some (cycle, asset, attempt)
      | _ \<Rightarrow> None)"

definition listMintingCyclesForRecovery ::
  "int \<Rightarrow> vault_db \<Rightarrow> (vault_cycle \<times> vault_asset \<times> vault_mint_attempt) list" where
  "listMintingCyclesForRecovery limit db =
     List.map_filter (recoverable db)
       (take (nat (min (max limit 1) 200))
         (order_asc vc_updatedAt (filter (\<lambda>c. vc_status c = minting) (vd_cycles db))))"

section \<open>Recording the mint\<close>

record mint_result =
  mr_cycleId :: nat
  mr_tokenContract :: string
  mr_tokenId :: string
  mr_tokenURI :: string
  mr_txHash :: string
  mr_certNumber :: string
  mr_displayName :: "string option"
  mr_displayImageUrl :: "string option"
  mr_displayImageBackUrl :: "string option"
  mr_settlementPolicy :: "settlement_policy option"
  mr_vaultPartnerId :: "string option"
  mr_ownerWallet :: "string option"
  mr_collectionKey :: "string option"

text \<open>
  INSERT ... ON CONFLICT (token_contract, token_id) DO UPDATE of the listed columns. The
  partial unique indexes of the table may refuse the row; then nothing is written.
\<close>

definition minted_row :: "int \<Rightarrow> nat \<Rightarrow> string \<Rightarrow> mint_result \<Rightarrow> rwa_token option \<Rightarrow> rwa_token" where
  "minted_row now cycleId vaultRef p old =
     (let settlementPolicy =
            (if mr_settlementPolicy p = Some self_vault_hold then self_vault_hold else standard);
          collectionKey = map_option js_lower (trim_or_null (mr_collectionKey p));
          mintTxHash = js_lower (js_trim (mr_txHash p));
          storedMintTx = (if is_hex_word 64 mintTxHash then Some mintTxHash else None);
          base = (case old of
              Some t \<Rightarrow> t
            | None \<Rightarrow> \<lparr>rt_tokenContract = mr_tokenContract p, rt_tokenId = mr_tokenId p,
                rt_certNumber = None, rt_tokenUri = None, rt_metadataCid = None, rt_displayName = None,
                rt_displayImageUrl = None, rt_displayImageBackUrl = None, rt_collectionKey = None,
                rt_metadataSyncedAt = None, rt_vaultCycleId = None, rt_vaultRef = None,
                rt_burnedAt = None, rt_burnTxHash = None, rt_mintTxHash = None,
                rt_settlementPolicy = None, rt_vaultPartnerId = None, rt_ownerWallet = None\<rparr>)
      in base\<lparr>rt_certNumber := Some (normalizeCert (mr_certNumber p)),
              rt_tokenUri := Some (mr_tokenURI p),
              rt_displayName := trim_or_null (mr_displayName p),
              rt_displayImageUrl := trim_or_null (mr_displayImageUrl p),
              rt_displayImageBackUrl := trim_or_null (mr_displayImageBackUrl p),
              rt_collectionKey := (if collectionKey \<noteq> None then collectionKey else rt_collectionKey base),
              rt_mintTxHash := (if storedMintTx \<noteq> None then storedMintTx else rt_mintTxHash base),
              rt_vaultCycleId := Some cycleId,
              rt_vaultRef := Some vaultRef,
              rt_settlementPolicy := Some settlementPolicy,
              rt_vaultPartnerId := (if settlementPolicy = self_vault_hold
                 then trim_or_null (mr_vaultPartnerId p) else None),
              rt_ownerWallet := map_option js_lower (trim_or_null (mr_ownerWallet p)),
              rt_metadataSyncedAt := Some now\<rparr>)"

definition name_asset_once :: "nat \<Rightarrow> string option \<Rightarrow> vault_db \<Rightarrow> vault_db" where
  "name_asset_once assetId displayName db =
     (case displayName of
        None \<Rightarrow> db
      | Some name \<Rightarrow> (case find_asset assetId db of
          None \<Rightarrow> db
        | Some asset \<Rightarrow>
            if trim_or_null (va_displayName asset) = None
            then save_asset (asset\<lparr>va_displayName := Some name\<rparr>) db else db))"

definition recordMintResult ::
  "(string \<Rightarrow> string) \<Rightarrow> int \<Rightarrow> mint_result \<Rightarrow> vault_db \<Rightarrow> vault_db \<times> unit result" where
  "recordMintResult keccak256 now p db =
     (case find_cycle (mr_cycleId p) db of
        None \<Rightarrow> (db, Inl (NotFoundException ''Vault cycle not found''))
      | Some cycle \<Rightarrow>
          if vc_status cycle \<noteq> deposit_verified \<and> vc_status cycle \<noteq> minting \<and> vc_status cycle \<noteq> minted
          then (db, Inl (ConflictException ''Vault cycle cannot record mint''))
          else let db1 = save_cycle now (cycle\<lparr>vc_status := minted, vc_mintAttempt := None\<rparr>) db in
            case computeVaultRef keccak256 (mr_certNumber p) of
              Inl e \<Rightarrow> (db1, Inl e)
            | Inr vaultRef \<Rightarrow>
                let db2 = name_asset_once (vc_vaultAssetId cycle) (trim_or_null (mr_displayName p)) db1;
                    key = (mr_tokenContract p, mr_tokenId p);
                    row = minted_row now (vc_id cycle) vaultRef p (find_token key db2);
                    db3 = save_token row db2
                in if tokens_unique (vd_tokens db3) then (db3, Inr ()) else (db2, Inl unique_violation))"

section \<open>The operations keep the invariant\<close>

lemma find_asset_by_cert_Some:
  "find_asset_by_cert ty cert db = Some a \<Longrightarrow>
   a \<in> set (vd_assets db) \<and> va_assetType a = ty \<and> va_externalCertNumber a = cert"
  unfolding find_asset_by_cert_def by (drule find_row_Some) simp

lemma find_asset_by_cert_None:
  "find_asset_by_cert ty cert db = None \<longleftrightarrow>
   (\<forall>a \<in> set (vd_assets db). (va_assetType a, va_externalCertNumber a) \<noteq> (ty, cert))"
  by (auto simp: find_asset_by_cert_def find_row_None)

lemma asset_by_cert:
  assumes "vault_wf db" "a \<in> set (vd_assets db)" "b \<in> set (vd_assets db)"
    "va_assetType a = va_assetType b" "va_externalCertNumber a = va_externalCertNumber b"
  shows "a = b"
proof -
  have "unique_index va_id (\<lambda>a. (va_assetType a, va_externalCertNumber a)) (\<lambda>_. True) (vd_assets db)"
    using assms(1) by (simp add: vault_wf_def uq_assets_type_cert_def)
  then have "va_id a = va_id b"
    by (rule unique_indexD) (simp_all only: assms(2-5))
  then show ?thesis using asset_by_id [OF assms(1-3)] by blast
qed

lemma find_asset_by_cert_member:
  "vault_wf db \<Longrightarrow> a \<in> set (vd_assets db) \<Longrightarrow>
   find_asset_by_cert (va_assetType a) (va_externalCertNumber a) db = Some a"
  unfolding find_asset_by_cert_def
  by (rule find_row_unique, assumption, simp, intro ballI impI, rule asset_by_cert, assumption+, simp_all)

lemma open_cycle_of_Some:
  "open_cycle_of i ch db = Some c \<Longrightarrow>
   c \<in> set (vd_cycles db) \<and> vc_vaultAssetId c = i \<and> vc_chainId c = ch \<and> open_cycle c"
  unfolding open_cycle_of_def by (drule find_row_Some) simp

lemma open_cycle_of_None:
  "open_cycle_of i ch db = None \<longleftrightarrow> (\<forall>c \<in> set (vd_cycles db). open_cycle c \<longrightarrow>
     vc_vaultAssetId c = i \<longrightarrow> vc_chainId c \<noteq> ch)"
  by (auto simp: open_cycle_of_def find_row_None)

lemma open_cycle_of_member:
  assumes "vault_wf db" "c \<in> set (vd_cycles db)" "open_cycle c"
  shows "open_cycle_of (vc_vaultAssetId c) (vc_chainId c) db = Some c"
  unfolding open_cycle_of_def
  by (rule find_row_unique) (use assms in \<open>blast intro: one_open_cycle | simp\<close>)+

lemma find_or_create_asset_ok:
  assumes wf: "vault_wf db"
    and ok: "find_or_create_asset keccak256 ty cert name db = Inr (a, db')"
  shows "vault_wf db' \<and> find_asset_by_cert ty cert db' = Some a \<and> vd_cycles db' = vd_cycles db
     \<and> vd_redemptions db' = vd_redemptions db \<and> vd_tokens db' = vd_tokens db
     \<and> vd_claims db' = vd_claims db"
proof (cases "find_asset_by_cert ty cert db")
  case None
  then obtain ref where ref: "computeVaultRef keccak256 cert = Inr ref"
    and a: "a = \<lparr>va_id = vd_next db, va_assetType = ty, va_externalCertNumber = cert,
        va_vaultRef = ref, va_displayName = trim_or_null name\<rparr>"
    and db': "db' = save_asset a (db\<lparr>vd_next := vd_next db + 1\<rparr>)"
    using ok by (auto simp: find_or_create_asset_def on_ok_eq_Inr Let_def)
  have fresh: "va_id a \<notin> va_id ` set (vd_assets db)" using wf a by (auto simp: wf_defs)
  have "vault_wf db'"
    unfolding db' by (rule new_asset_wf [OF wf]) (use a None in \<open>auto simp: find_asset_by_cert_None\<close>)
  moreover have "find_asset_by_cert ty cert db' = Some a"
    unfolding db' find_asset_by_cert_def save_tables
    using None a fresh by (intro find_row_unique) (auto simp: upsert_fresh find_asset_by_cert_None)
  ultimately show ?thesis by (simp add: db')
next
  case (Some b)
  note b = find_asset_by_cert_Some [OF Some]
  then have fb: "find_asset (va_id b) db = Some b"
    using wf by (simp add: find_asset_def find_key_member wf_defs)
  show ?thesis
  proof (cases "trim_or_null name \<noteq> None \<and> or_empty (va_displayName b) = []")
    case True
    then have a: "a = b\<lparr>va_displayName := trim_or_null name\<rparr>" and db': "db' = save_asset a db"
      using ok Some by (auto simp: find_or_create_asset_def Let_def)
    have wf': "vault_wf db'" unfolding db' by (rule save_asset_wf [OF wf, of _ b]) (use a fb in auto)
    have "a \<in> set (vd_assets db')" by (simp add: db' save_tables)
    then have "find_asset_by_cert (va_assetType a) (va_externalCertNumber a) db' = Some a"
      by (rule find_asset_by_cert_member [OF wf'])
    then have "find_asset_by_cert ty cert db' = Some a" using a b by simp
    with wf' show ?thesis by (simp add: db')
  next
    case False
    then have "a = b" "db' = db" using ok Some by (auto simp: find_or_create_asset_def split: if_splits)
    then show ?thesis using wf Some by simp
  qed
qed

lemma reserve_Inr:
  assumes "reserveCycleForDeposit keccak256 now certNumber chainId ty name user db = Inr (a, c, db')"
  obtains db1 where "normalizeCert certNumber \<noteq> []"
    "find_or_create_asset keccak256 ty (normalizeCert certNumber) name db = Inr (a, db1)"
    "open_cycle_of (va_id a) chainId db1 = None"
    "c = \<lparr>vc_id = vd_next db1, vc_vaultAssetId = va_id a, vc_chainId = chainId,
        vc_cycleNumber = length (cycles_of_asset (va_id a) db1) + 1, vc_status = deposit_verified,
        vc_depositedAt = Some now, vc_depositVerifiedBy = None, vc_depositedByUserId = user,
        vc_redeemedAt = None, vc_mintAttempt = None, vc_updatedAt = now\<rparr>"
    "db' = save_cycle now c (db1\<lparr>vd_next := vd_next db1 + 1\<rparr>)"
  using assms unfolding reserveCycleForDeposit_def Let_def
  by (auto simp: on_ok_eq_Inr split: if_splits option.splits)

lemma reserve_wf:
  assumes wf: "vault_wf db"
    and ok: "reserveCycleForDeposit keccak256 now certNumber chainId ty name user db = Inr (a, c, db')"
  shows "vault_wf db' \<and> cycles_advance db db'"
proof -
  from ok obtain db1 where r: "find_or_create_asset keccak256 ty (normalizeCert certNumber) name db = Inr (a, db1)"
    "open_cycle_of (va_id a) chainId db1 = None"
    and c: "c = \<lparr>vc_id = vd_next db1, vc_vaultAssetId = va_id a, vc_chainId = chainId,
        vc_cycleNumber = length (cycles_of_asset (va_id a) db1) + 1, vc_status = deposit_verified,
        vc_depositedAt = Some now, vc_depositVerifiedBy = None, vc_depositedByUserId = user,
        vc_redeemedAt = None, vc_mintAttempt = None, vc_updatedAt = now\<rparr>"
    and db': "db' = save_cycle now c (db1\<lparr>vd_next := vd_next db1 + 1\<rparr>)"
    by (rule reserve_Inr)
  note 1 = find_or_create_asset_ok [OF wf r(1)]
  then have a: "a \<in> set (vd_assets db1)" using find_asset_by_cert_Some by blast
  have "vault_wf db'"
    unfolding db' by (rule new_cycle_wf) (use 1 a c r(2) in \<open>auto simp: open_cycle_of_None\<close>)
  moreover have "cycles_advance db1 db'"
    unfolding db' by (rule new_cycle_advance) (use 1 c in auto)
  ultimately show ?thesis using 1 by (auto simp: cycles_advance_def)
qed

lemma beginMint_Inr:
  assumes "beginMintAttempt now i att db = Inr db'"
  obtains c att' where "find_cycle i db = Some c" "vc_status c = deposit_verified \<or> vc_status c = minting"
    "db' = save_cycle now (c\<lparr>vc_status := minting, vc_mintAttempt := Some att'\<rparr>) db"
    "ma_tokenURI att' = js_trim (ma_tokenURI att)" "ma_certNumber att' = normalizeCert (ma_certNumber att)"
    "ma_ownerWallet att' = js_lower (js_trim (ma_ownerWallet att))"
    "ma_tokenURI att' \<noteq> []" "ma_certNumber att' \<noteq> []" "ma_ownerWallet att' \<noteq> []"
  using assms unfolding beginMintAttempt_def Let_def
  by (auto split: if_splits option.splits)

lemma beginMint_wf:
  assumes "vault_wf db" "beginMintAttempt now i att db = Inr db'"
  shows "vault_wf db' \<and> cycles_advance db db'"
  using assms(2)
proof (rule beginMint_Inr)
  fix c att'
  assume c: "find_cycle i db = Some c" "vc_status c = deposit_verified \<or> vc_status c = minting"
    and db': "db' = save_cycle now (c\<lparr>vc_status := minting, vc_mintAttempt := Some att'\<rparr>) db"
  show ?thesis
    unfolding db' by (intro conjI step_cycle [OF assms(1) c(1)]) (use c(2) in \<open>auto simp: status_order\<close>)
qed

lemma noteMint_cases:
  obtains "noteMintAttemptTx now i tid tx db = db"
  | c att where "find_cycle i db = Some c" "vc_status c = minting"
      "noteMintAttemptTx now i tid tx db = save_cycle now (c\<lparr>vc_mintAttempt := Some att\<rparr>) db"
  unfolding noteMintAttemptTx_def Let_def
  by (cases "find_cycle i db"; simp; cases "vc_mintAttempt (the (find_cycle i db))"; fastforce)

lemma noteMint_wf:
  assumes "vault_wf db"
  shows "vault_wf (noteMintAttemptTx now i tid tx db) \<and> cycles_advance db (noteMintAttemptTx now i tid tx db)"
proof (cases rule: noteMint_cases [of now i tid tx db])
  case (2 c att)
  show ?thesis unfolding 2(3) by (intro conjI step_cycle [OF assms 2(1)]) (use 2(2) in auto)
qed (use assms in simp)

lemma cancelCycle_cases:
  obtains "cancelCycle now i db = db"
  | c where "find_cycle i db = Some c" "vc_status c = deposit_verified \<or> vc_status c = minting"
      "cancelCycle now i db = save_cycle now (c\<lparr>vc_status := cancelled, vc_mintAttempt := None\<rparr>) db"
  unfolding cancelCycle_def by (cases "find_cycle i db"; fastforce)

lemma cancelCycle_wf:
  assumes "vault_wf db"
  shows "vault_wf (cancelCycle now i db) \<and> cycles_advance db (cancelCycle now i db)"
proof (cases rule: cancelCycle_cases [of now i db])
  case (2 c)
  show ?thesis
    unfolding 2(3) by (intro conjI step_cycle [OF assms 2(1)]) (use 2(2) in \<open>auto simp: status_order\<close>)
qed (use assms in simp)

lemma name_asset_once_wf: "vault_wf db \<Longrightarrow> vault_wf (name_asset_once i name db)"
  unfolding name_asset_once_def
  by (auto split: option.splits) (rule save_asset_wf, auto dest: find_asset_Some)

lemma name_asset_once_frames [simp]:
  "vd_cycles (name_asset_once i name db) = vd_cycles db"
  "vd_redemptions (name_asset_once i name db) = vd_redemptions db"
  "vd_tokens (name_asset_once i name db) = vd_tokens db"
  "vd_claims (name_asset_once i name db) = vd_claims db"
  "find_cycle j (name_asset_once i name db) = find_cycle j db"
  by (simp_all add: name_asset_once_def find_cycle_def split: option.splits)

lemma record_wf:
  assumes wf: "vault_wf db" and r: "recordMintResult keccak256 now p db = (db', res)"
  shows "vault_wf db' \<and> cycles_advance db db'"
proof (cases "find_cycle (mr_cycleId p) db")
  case None
  with r wf show ?thesis by (auto simp: recordMintResult_def)
next
  case (Some c)
  have i: "vc_id c = mr_cycleId p" using find_cycle_Some [OF Some] by simp
  show ?thesis
  proof (cases "vc_status c = deposit_verified \<or> vc_status c = minting \<or> vc_status c = minted")
    case False
    with r wf Some show ?thesis by (auto simp: recordMintResult_def)
  next
    case True
    define db1 where "db1 = save_cycle now (c\<lparr>vc_status := minted, vc_mintAttempt := None\<rparr>) db"
    have wf1: "vault_wf db1" and adv: "cycles_advance db db1"
      unfolding db1_def by (rule step_cycle [OF wf Some]; use True in \<open>auto simp: status_order\<close>)+
    show ?thesis
    proof (cases "computeVaultRef keccak256 (mr_certNumber p)")
      case (Inl e)
      with r True Some wf1 adv show ?thesis by (auto simp: recordMintResult_def db1_def Let_def)
    next
      case (Inr ref)
      define db2 where "db2 = name_asset_once (vc_vaultAssetId c) (trim_or_null (mr_displayName p)) db1"
      define row where "row = minted_row now (vc_id c) ref p (find_token (mr_tokenContract p, mr_tokenId p) db2)"
      have wf2: "vault_wf db2" unfolding db2_def by (rule name_asset_once_wf [OF wf1])
      have linked: "rt_vaultCycleId row = Some (vc_id c)"
        by (simp add: row_def minted_row_def Let_def)
      have found: "find_cycle (vc_id c) db2 = Some (c\<lparr>vc_status := minted, vc_mintAttempt := None, vc_updatedAt := now\<rparr>)"
        by (simp add: db2_def db1_def table_simps)
      have "db' = (if tokens_unique (vd_tokens (save_token row db2)) then save_token row db2 else db2)"
        using r True Some Inr by (auto simp: recordMintResult_def db1_def db2_def row_def Let_def split: if_splits)
      moreover have "tokens_unique (vd_tokens (save_token row db2)) \<Longrightarrow> vault_wf (save_token row db2)"
        by (rule save_token_wf [OF wf2]) (use linked found in auto)
      moreover have "cycles_advance db (save_token row db2)" "cycles_advance db db2"
        using adv by (auto simp: cycles_advance_def db2_def)
      ultimately show ?thesis using wf2 by simp
    qed
  qed
qed

end
