(* ===== verification/VaultRedeem.thy ===== *)
theory VaultRedeem
  imports VaultDeposit
begin

text \<open>
  The redeem half of vault/vault.service.ts: requestRedemption, createPaidRedemptionBatch with
  insertPaymentClaimOrConflict, insertPaidRedemptionRow and backfillCycleForToken,
  markCustodyReceived, completeRedemptionBurn, confirmVaultRelease, markUserReceiptConfirmed,
  and the reads on redemptions and payment claims. Notifications are sent without waiting and
  their failures are logged only, so they are left out.
\<close>

section \<open>Requests\<close>

record ship_to =
  st_name :: string
  st_line1 :: string
  st_line2 :: "string option"
  st_city :: string
  st_region :: "string option"
  st_postal :: string
  st_country :: string
  st_phone :: string

record redeem_fees =
  fe_feeRetrievalUsd :: rat
  fe_feeEarlyWithdrawalUsd :: rat
  fe_feeShippingUsd :: rat
  fe_feeTotalUsd :: rat
  fe_paymentTxHash :: string
  fe_paymentBatchId :: string
  fe_paidAt :: int
  fe_vaultedAt :: "int option"
  fe_earlyWithdrawal :: bool
  fe_chainId :: nat
  fe_paymentReceivedUsdcMicros :: string

text \<open>The row of create(...): the columns that are not given are null or have their default.\<close>

definition blank_redemption :: "nat \<Rightarrow> nat \<Rightarrow> int \<Rightarrow> string \<Rightarrow> vault_redemption" where
  "blank_redemption i cycleId now owner =
     \<lparr>vr_id = i, vr_vaultCycleId = cycleId, vr_requestedByUserId = None, vr_requestedAt = now,
      vr_ownerWalletAddress = owner, vr_status = r_pending, vr_ownershipVerifiedAt = None,
      vr_burnTxHash = None, vr_burnedAt = None, vr_vaultReleasedAt = None, vr_failureReason = None,
      vr_shipToName = None, vr_shipToLine1 = None, vr_shipToLine2 = None, vr_shipToCity = None,
      vr_shipToRegion = None, vr_shipToPostal = None, vr_shipToCountry = None, vr_shipToPhone = None,
      vr_feeRetrievalUsd = None, vr_feeEarlyWithdrawalUsd = None, vr_feeShippingUsd = None,
      vr_feeTotalUsd = None, vr_paymentTxHash = None, vr_paymentBatchId = None, vr_paidAt = None,
      vr_chainId = None, vr_paymentReceivedUsdcMicros = None, vr_custodyTxHash = None,
      vr_custodyAt = None, vr_custodyReturnTxHash = None, vr_custodyReturnedAt = None,
      vr_refundStatus = rf_none, vr_refundTxHash = None, vr_refundedUsdcMicros = None,
      vr_refundedAt = None, vr_trackingNumber = None, vr_trackingCarrier = None,
      vr_trackingSetAt = None, vr_carrierDeliveredAt = None, vr_receiptConfirmedVia = None,
      vr_adminMemo = None, vr_vaultedAt = None, vr_earlyWithdrawal = None\<rparr>"

definition with_ship_to :: "ship_to option \<Rightarrow> vault_redemption \<Rightarrow> vault_redemption" where
  "with_ship_to ship r = r\<lparr>
     vr_shipToName := trim_or_null (map_option st_name ship),
     vr_shipToLine1 := trim_or_null (map_option st_line1 ship),
     vr_shipToLine2 := trim_or_null (Option.bind ship st_line2),
     vr_shipToCity := trim_or_null (map_option st_city ship),
     vr_shipToRegion := trim_or_null (Option.bind ship st_region),
     vr_shipToPostal := trim_or_null (map_option st_postal ship),
     vr_shipToCountry := trim_or_null (map_option st_country ship),
     vr_shipToPhone := trim_or_null (map_option st_phone ship)\<rparr>"

definition open_redemption_of :: "nat \<Rightarrow> vault_db \<Rightarrow> vault_redemption option" where
  "open_redemption_of cycleId db =
     find_row (\<lambda>r. vr_vaultCycleId r = cycleId \<and> open_redemption r) (vd_redemptions db)"

definition or_else :: "'a option \<Rightarrow> 'a option \<Rightarrow> 'a option" where
  "or_else a b = (case a of None \<Rightarrow> b | Some x \<Rightarrow> Some x)"

definition requestRedemption ::
  "int \<Rightarrow> string \<Rightarrow> string \<Rightarrow> string option \<Rightarrow> string \<Rightarrow> ship_to option \<Rightarrow> redeem_fees option \<Rightarrow>
   vault_db \<Rightarrow> (vault_redemption \<times> vault_db) result" where
  "requestRedemption now tokenContract tokenId requestingUserId ownerWalletAddress shipTo fees db =
     (if (case fees of None \<Rightarrow> False | Some f \<Rightarrow> fe_paymentTxHash f \<noteq> [])
      then Inl (BadRequestException ''Paid redemptions must use createPaidRedemptionBatch'')
      else case find_token (tokenContract, tokenId) db of
        None \<Rightarrow> Inl (NotFoundException ''No vault cycle linked to token'')
      | Some token \<Rightarrow> (case rt_vaultCycleId token of
          None \<Rightarrow> Inl (NotFoundException ''No vault cycle linked to token'')
        | Some cycleId \<Rightarrow>
            if rt_burnedAt token \<noteq> None
            then Inl (BadRequestException ''Token has already been redeemed'')
            else case find_cycle cycleId db of
              None \<Rightarrow> Inl (ConflictException ''Vault cycle is not in a redeemable state'')
            | Some cycle \<Rightarrow>
                if vc_status cycle \<noteq> minted
                then Inl (ConflictException ''Vault cycle is not in a redeemable state'')
                else case open_redemption_of (vc_id cycle) db of
                  Some existingOpen \<Rightarrow> Inr (existingOpen, db)
                | None \<Rightarrow>
                    let r = (with_ship_to shipTo (blank_redemption (vd_next db) (vc_id cycle) now
                               (js_lower ownerWalletAddress)))
                          \<lparr>vr_requestedByUserId := requestingUserId,
                           vr_status := r_ownership_verified,
                           vr_ownershipVerifiedAt := Some now,
                           vr_feeRetrievalUsd := map_option (\<lambda>f. to_fixed2 (fe_feeRetrievalUsd f)) fees,
                           vr_feeEarlyWithdrawalUsd :=
                             map_option (\<lambda>f. to_fixed2 (fe_feeEarlyWithdrawalUsd f)) fees,
                           vr_feeShippingUsd := map_option (\<lambda>f. to_fixed2 (fe_feeShippingUsd f)) fees,
                           vr_feeTotalUsd := map_option (\<lambda>f. to_fixed2 (fe_feeTotalUsd f)) fees,
                           vr_paymentTxHash := map_option (\<lambda>f. js_lower (fe_paymentTxHash f)) fees,
                           vr_paymentBatchId := map_option fe_paymentBatchId fees,
                           vr_paidAt := map_option fe_paidAt fees,
                           vr_chainId := map_option fe_chainId fees,
                           vr_paymentReceivedUsdcMicros :=
                             map_option fe_paymentReceivedUsdcMicros fees,
                           vr_vaultedAt := or_else (Option.bind fees fe_vaultedAt) (vc_depositedAt cycle),
                           vr_earlyWithdrawal := map_option fe_earlyWithdrawal fees\<rparr>;
                        db1 = save_redemption r (db\<lparr>vd_next := vd_next db + 1\<rparr>)
                    in Inr (r, save_cycle now (cycle\<lparr>vc_status := redemption_requested\<rparr>) db1)))"

section \<open>Paid batches\<close>

record redeem_item =
  it_tokenContract :: string
  it_tokenId :: string
  it_requestingUserId :: "string option"
  it_ownerWalletAddress :: string
  it_shipTo :: ship_to
  it_feeRetrievalUsd :: rat
  it_feeEarlyWithdrawalUsd :: rat
  it_feeShippingUsd :: rat
  it_feeTotalUsd :: rat
  it_vaultedAt :: "int option"
  it_earlyWithdrawal :: bool

text \<open>
  em.save of a claim whose primary key is the transaction hash: like every save it updates the
  row that has the key, and only the index on the batch can refuse it.
\<close>

definition insertPaymentClaimOrConflict :: "payment_claim \<Rightarrow> vault_db \<Rightarrow> vault_db result" where
  "insertPaymentClaimOrConflict claim db =
     (let claims = upsert pc_paymentTxHash claim (vd_claims db) in
      if uq_claims_batch claims then Inr (db\<lparr>vd_claims := claims\<rparr>)
      else Inl (ConflictException ''This payment transaction was already used for a redeem batch''))"

definition save_token_checked :: "rwa_token \<Rightarrow> vault_db \<Rightarrow> vault_db result" where
  "save_token_checked t db =
     (let db' = save_token t db in
      if tokens_unique (vd_tokens db') then Inr db' else Inl unique_violation)"

text \<open>The asset of a certificate; backfill creates it without touching an existing name.\<close>

definition backfill_asset ::
  "(string \<Rightarrow> string) \<Rightarrow> string \<Rightarrow> string option \<Rightarrow> vault_db \<Rightarrow> (vault_asset \<times> vault_db) result" where
  "backfill_asset keccak256 normalized displayName db =
     (case find_asset_by_cert psa_graded normalized db of
        Some asset \<Rightarrow> Inr (asset, db)
      | None \<Rightarrow> find_or_create_asset keccak256 psa_graded normalized displayName db)"

definition backfill_cycle :: "int \<Rightarrow> vault_asset \<Rightarrow> nat \<Rightarrow> vault_db \<Rightarrow> (vault_cycle \<times> vault_db) result" where
  "backfill_cycle now asset chainId db =
     (case open_cycle_of (va_id asset) chainId db of
        Some openCycle \<Rightarrow>
          if vc_status openCycle \<noteq> minted
          then Inl (ConflictException ''Vault cycle is not in a redeemable state'')
          else Inr (openCycle, db)
      | None \<Rightarrow>
          let priorCount = length (cycles_of_asset (va_id asset) db);
              cycle = \<lparr>vc_id = vd_next db, vc_vaultAssetId = va_id asset, vc_chainId = chainId,
                       vc_cycleNumber = priorCount + 1, vc_status = minted, vc_depositedAt = None,
                       vc_depositVerifiedBy = None, vc_depositedByUserId = None,
                       vc_redeemedAt = None, vc_mintAttempt = None, vc_updatedAt = now\<rparr>
          in Inr (cycle, save_cycle now cycle (db\<lparr>vd_next := vd_next db + 1\<rparr>)))"

definition backfillCycleForToken ::
  "(string \<Rightarrow> string) \<Rightarrow> int \<Rightarrow> rwa_token \<Rightarrow> nat \<Rightarrow> vault_db \<Rightarrow> (nat \<times> vault_db) result" where
  "backfillCycleForToken keccak256 now token chainId db =
     (case trim_or_null (rt_certNumber token) of
        None \<Rightarrow> Inl (NotFoundException ''Token has no vault record and no PSA cert number'')
      | Some cert \<Rightarrow>
          let normalized = normalizeCert cert in
          on_ok (backfill_asset keccak256 normalized (rt_displayName token) db) (\<lambda>(asset, db).
          on_ok (backfill_cycle now asset chainId db) (\<lambda>(cycle, db).
          on_ok (if or_empty (rt_vaultRef token) = []
                 then map_sum id Some (computeVaultRef keccak256 normalized)
                 else Inr (rt_vaultRef token)) (\<lambda>vaultRef.
          on_ok (save_token_checked (token\<lparr>rt_vaultCycleId := Some (vc_id cycle),
                   rt_vaultRef := vaultRef\<rparr>) db) (\<lambda>db.
          Inr (vc_id cycle, db))))))"

definition find_token_decimal :: "string \<Rightarrow> string \<Rightarrow> vault_db \<Rightarrow> rwa_token option" where
  "find_token_decimal tokenContract tokenId db =
     find_row (\<lambda>t. js_lower (rt_tokenContract t) = js_lower tokenContract
                 \<and> matches_decimal_ids [tokenId] (rt_tokenId t)) (vd_tokens db)"

text \<open>The second half of insertPaidRedemptionRow, once the cycle of the token is known.\<close>

definition paid_row_for_cycle ::
  "int \<Rightarrow> payment_claim \<Rightarrow> int \<Rightarrow> nat \<Rightarrow> redeem_item \<Rightarrow> nat \<Rightarrow> vault_db \<Rightarrow>
   (vault_redemption \<times> vault_db) result" where
  "paid_row_for_cycle now claim paidAt chainId item cycleId db =
     (case find_cycle cycleId db of
        None \<Rightarrow> Inl (ConflictException ''Vault cycle is not in a redeemable state'')
      | Some cycle \<Rightarrow>
          if vc_status cycle \<noteq> minted
          then Inl (ConflictException ''Vault cycle is not in a redeemable state'')
          else case open_redemption_of (vc_id cycle) db of
            Some existingOpen \<Rightarrow> Inl (ConflictException ''Token already has an open redemption'')
          | None \<Rightarrow>
              let r = (with_ship_to (Some (it_shipTo item)) (blank_redemption (vd_next db)
                         (vc_id cycle) now (js_lower (it_ownerWalletAddress item))))
                    \<lparr>vr_requestedByUserId := it_requestingUserId item,
                     vr_status := r_ownership_verified,
                     vr_ownershipVerifiedAt := Some now,
                     vr_feeRetrievalUsd := Some (to_fixed2 (it_feeRetrievalUsd item)),
                     vr_feeEarlyWithdrawalUsd := Some (to_fixed2 (it_feeEarlyWithdrawalUsd item)),
                     vr_feeShippingUsd := Some (to_fixed2 (it_feeShippingUsd item)),
                     vr_feeTotalUsd := Some (to_fixed2 (it_feeTotalUsd item)),
                     vr_paymentTxHash := Some (pc_paymentTxHash claim),
                     vr_paymentBatchId := Some (pc_paymentBatchId claim),
                     vr_paidAt := Some paidAt,
                     vr_chainId := Some chainId,
                     vr_paymentReceivedUsdcMicros := pc_paymentReceivedUsdcMicros claim,
                     vr_vaultedAt := or_else (it_vaultedAt item) (vc_depositedAt cycle),
                     vr_earlyWithdrawal := Some (it_earlyWithdrawal item)\<rparr>;
                  db1 = save_redemption r (db\<lparr>vd_next := vd_next db + 1\<rparr>)
              in Inr (r, save_cycle now (cycle\<lparr>vc_status := redemption_requested\<rparr>) db1))"

text \<open>An empty IN () list is a syntax error of the database.\<close>

definition insertPaidRedemptionRow ::
  "(string \<Rightarrow> string) \<Rightarrow> int \<Rightarrow> payment_claim \<Rightarrow> int \<Rightarrow> nat \<Rightarrow> redeem_item \<Rightarrow> vault_db \<Rightarrow>
   (vault_redemption \<times> vault_db) result" where
  "insertPaidRedemptionRow keccak256 now claim paidAt chainId item db =
     (if decimalTokenIdLookupKeys (it_tokenId item) = [] then Inl (OtherError ''42601 syntax error'')
      else case find_token_decimal (it_tokenContract item) (it_tokenId item) db of
        None \<Rightarrow> Inl (NotFoundException ''Token is not registered on Tokenable'')
      | Some token \<Rightarrow>
          if rt_burnedAt token \<noteq> None
          then Inl (BadRequestException ''Token has already been redeemed'')
          else on_ok (case rt_vaultCycleId token of
              Some i \<Rightarrow> Inr (i, db)
            | None \<Rightarrow> backfillCycleForToken keccak256 now token chainId db) (\<lambda>(cycleId, db).
          paid_row_for_cycle now claim paidAt chainId item cycleId db))"

text \<open>The loop over the items; any failure is the failure of the batch.\<close>

fun insert_paid_rows ::
  "(string \<Rightarrow> string) \<Rightarrow> int \<Rightarrow> payment_claim \<Rightarrow> int \<Rightarrow> nat \<Rightarrow> redeem_item list \<Rightarrow> vault_db \<Rightarrow>
   ((vault_redemption \<times> string) list \<times> vault_db) result" where
  "insert_paid_rows keccak256 now claim paidAt chainId [] db = Inr ([], db)"
| "insert_paid_rows keccak256 now claim paidAt chainId (item # items) db =
     on_ok (insertPaidRedemptionRow keccak256 now claim paidAt chainId item db) (\<lambda>(r, db).
     on_ok (insert_paid_rows keccak256 now claim paidAt chainId items db) (\<lambda>(out, db).
     Inr ((r, it_tokenId item) # out, db)))"

definition createPaidRedemptionBatch ::
  "(string \<Rightarrow> string) \<Rightarrow> int \<Rightarrow> string \<Rightarrow> string \<Rightarrow> string \<Rightarrow> int \<Rightarrow> nat \<Rightarrow> redeem_item list \<Rightarrow> vault_db \<Rightarrow>
   ((vault_redemption \<times> string) list \<times> vault_db) result" where
  "createPaidRedemptionBatch keccak256 now txHash batchId receivedMicros paidAt chainId items db =
     (let paymentTxHash = js_lower (js_trim txHash); paymentBatchId = js_trim batchId in
      if paymentTxHash = [] \<or> paymentBatchId = []
      then Inl (BadRequestException ''paymentTxHash and paymentBatchId required'')
      else if items = [] then Inl (BadRequestException ''items required'')
      else let claim = \<lparr>pc_paymentTxHash = paymentTxHash, pc_paymentBatchId = paymentBatchId,
                        pc_paymentReceivedUsdcMicros = Some receivedMicros, pc_chainId = Some chainId\<rparr>
           in on_ok (insertPaymentClaimOrConflict claim db) (\<lambda>db.
              insert_paid_rows keccak256 now claim paidAt chainId items db))"

section \<open>Custody, burn and release\<close>

definition markCustodyReceived ::
  "int \<Rightarrow> nat \<Rightarrow> string \<Rightarrow> vault_db \<Rightarrow> (vault_redemption \<times> vault_db) result" where
  "markCustodyReceived now redemptionId custodyTxHash db =
     (case find_redemption redemptionId db of
        None \<Rightarrow> Inl (NotFoundException ''Redemption not found'')
      | Some row \<Rightarrow>
          if vr_status row = r_in_custody \<and> or_empty (vr_custodyTxHash row) \<noteq> [] then Inr (row, db)
          else if vr_status row \<noteq> r_ownership_verified
          then Inl (ConflictException ''Redemption cannot accept custody'')
          else let row' = row\<lparr>vr_custodyTxHash := Some (js_lower (js_trim custodyTxHash)),
                             vr_custodyAt := Some now, vr_status := r_in_custody\<rparr>
               in Inr (row', save_redemption row' db))"

text \<open>The redemption that the burn completes: the latest open one, then the latest that was
  not failed, cancelled or refunded, then a new one.\<close>

definition burn_redemption ::
  "int \<Rightarrow> nat \<Rightarrow> string option \<Rightarrow> vault_db \<Rightarrow> vault_redemption \<times> vault_db" where
  "burn_redemption now cycleId burnedBy db =
     (case latest_by vr_requestedAt
             (filter (\<lambda>r. vr_vaultCycleId r = cycleId \<and> open_redemption r) (vd_redemptions db)) of
        Some r \<Rightarrow> (r, db)
      | None \<Rightarrow> (case latest_by vr_requestedAt
             (filter (\<lambda>r. vr_vaultCycleId r = cycleId \<and> vr_status r \<notin> {r_failed, r_cancelled, r_refunded})
                (vd_redemptions db)) of
          Some r \<Rightarrow> (r, db)
        | None \<Rightarrow> (blank_redemption (vd_next db) cycleId now (js_lower (or_empty burnedBy)),
                   db\<lparr>vd_next := vd_next db + 1\<rparr>)))"

definition completeRedemptionBurn ::
  "int \<Rightarrow> string \<Rightarrow> string \<Rightarrow> string \<Rightarrow> string option \<Rightarrow> vault_db \<Rightarrow> vault_db" where
  "completeRedemptionBurn now tokenContract tokenId burnTxHash burnedBy db =
     (case find_token (tokenContract, tokenId) db of
        None \<Rightarrow> db
      | Some token \<Rightarrow>
          let db1 = save_token (token\<lparr>rt_burnedAt := Some now, rt_burnTxHash := Some burnTxHash,
                                      rt_ownerWallet := None\<rparr>) db in
          case rt_vaultCycleId token of
            None \<Rightarrow> db1
          | Some cycleId \<Rightarrow> (case find_cycle cycleId db1 of
              None \<Rightarrow> db1
            | Some cycle \<Rightarrow>
                let db2 = save_cycle now (cycle\<lparr>vc_status := redeemed, vc_redeemedAt := Some now\<rparr>) db1;
                    (r, db3) = burn_redemption now (vc_id cycle) burnedBy db2;
                    r' = (if vr_status r \<noteq> r_completed then r\<lparr>vr_status := r_burned\<rparr> else r)
                in save_redemption (r'\<lparr>vr_burnTxHash := Some burnTxHash, vr_burnedAt := Some now\<rparr>) db3))"

definition findPendingReleaseByCycleIds :: "nat list \<Rightarrow> vault_db \<Rightarrow> nat \<rightharpoonup> nat" where
  "findPendingReleaseByCycleIds cycleIds db =
     fold (\<lambda>r out. out(vr_vaultCycleId r \<mapsto> vr_id r))
       (filter (\<lambda>r. vr_vaultCycleId r \<in> set cycleIds \<and> vr_status r = r_burned) (vd_redemptions db))
       Map.empty"

definition confirmVaultRelease ::
  "int \<Rightarrow> nat \<Rightarrow> vault_db \<Rightarrow> (vault_redemption \<times> vault_db) result" where
  "confirmVaultRelease now redemptionId db =
     (case find_redemption redemptionId db of
        None \<Rightarrow> Inl (NotFoundException ''Redemption not found'')
      | Some r \<Rightarrow>
          if vr_status r \<noteq> r_burned
          then Inl (ConflictException ''Redemption must be in burned state before release'')
          else let r' = r\<lparr>vr_status := r_completed, vr_vaultReleasedAt := Some now\<rparr>
               in Inr (r', save_redemption r' db))"

definition receipt_row :: "int \<Rightarrow> receipt_via \<Rightarrow> vault_redemption \<Rightarrow> vault_redemption" where
  "receipt_row ts via row =
     (if vr_status row = r_completed
      then row\<lparr>vr_vaultReleasedAt := or_else (vr_vaultReleasedAt row) (Some ts),
               vr_receiptConfirmedVia := or_else (vr_receiptConfirmedVia row) (Some via)\<rparr>
      else row\<lparr>vr_status := r_completed, vr_vaultReleasedAt := Some ts,
               vr_receiptConfirmedVia := Some via\<rparr>)"

definition markUserReceiptConfirmed ::
  "int \<Rightarrow> receipt_via option \<Rightarrow> vault_redemption list \<Rightarrow> vault_db \<Rightarrow> vault_redemption list \<times> vault_db" where
  "markUserReceiptConfirmed ts via rows db =
     (if rows = [] then ([], db)
      else let rows' = map (receipt_row ts (case via of None \<Rightarrow> via_user | Some v \<Rightarrow> v)) rows
           in (rows', fold save_redemption rows' db))"

section \<open>Reads\<close>

definition findRedemptionsByPaymentTx :: "string \<Rightarrow> vault_db \<Rightarrow> vault_redemption list" where
  "findRedemptionsByPaymentTx paymentTxHash db = (let hash = js_lower (js_trim paymentTxHash) in
     if hash = [] then [] else filter (\<lambda>r. vr_paymentTxHash r = Some hash) (vd_redemptions db))"

definition hasPaymentClaim :: "string \<Rightarrow> vault_db \<Rightarrow> bool" where
  "hasPaymentClaim paymentTxHash db = (let hash = js_lower (js_trim paymentTxHash) in
     if hash = [] then False
     else 0 < length (filter (\<lambda>c. pc_paymentTxHash c = hash) (vd_claims db)))"

definition decimal_or_null :: "string option \<Rightarrow> string option" where
  "decimal_or_null x = (case x of None \<Rightarrow> None
     | Some s \<Rightarrow> let t = js_trim s in if is_decimal t then Some t else None)"

definition getPaymentReceivedMicrosForBatch :: "string \<Rightarrow> vault_db \<Rightarrow> string option" where
  "getPaymentReceivedMicrosForBatch paymentBatchId db = (let i = js_trim paymentBatchId in
     if i = [] then None
     else case decimal_or_null (Option.bind
            (find_row (\<lambda>c. pc_paymentBatchId c = i) (vd_claims db)) pc_paymentReceivedUsdcMicros) of
       Some m \<Rightarrow> Some m
     | None \<Rightarrow> decimal_or_null (Option.bind
         (earliest_by vr_requestedAt (filter (\<lambda>r. vr_paymentBatchId r = Some i) (vd_redemptions db)))
         vr_paymentReceivedUsdcMicros))"

definition findRedemptionsByBatchId ::
  "string \<Rightarrow> nat option \<Rightarrow> vault_db \<Rightarrow> vault_redemption list" where
  "findRedemptionsByBatchId paymentBatchId chainId db = (let i = js_trim paymentBatchId in
     if i = [] then []
     else case chainId of
       None \<Rightarrow> order_asc vr_requestedAt
         (filter (\<lambda>r. vr_paymentBatchId r = Some i) (vd_redemptions db))
     | Some ch \<Rightarrow> order_asc vr_requestedAt
         (filter (\<lambda>r. vr_paymentBatchId r = Some i \<and>
            (case find_cycle (vr_vaultCycleId r) db of
               None \<Rightarrow> False
             | Some c \<Rightarrow> or_else (vr_chainId r) (Some (vc_chainId c)) = Some ch))
           (vd_redemptions db)))"

definition findOpenRedemptionForCycle :: "nat \<Rightarrow> vault_db \<Rightarrow> vault_redemption option" where
  "findOpenRedemptionForCycle vaultCycleId db = latest_by vr_requestedAt
     (filter (\<lambda>r. vr_vaultCycleId r = vaultCycleId \<and> open_redemption r) (vd_redemptions db))"

text \<open>TRIM of SQL strips blanks only.\<close>

definition sql_trim :: "string \<Rightarrow> string" where
  "sql_trim s = rev (dropWhile (\<lambda>c. c = CHR '' '') (rev (dropWhile (\<lambda>c. c = CHR '' '') s)))"

definition same_cert :: "rwa_token \<Rightarrow> vault_asset \<Rightarrow> bool" where
  "same_cert t a = (case rt_certNumber t of
      None \<Rightarrow> False
    | Some s \<Rightarrow> js_upper (sql_trim s) = js_upper (sql_trim (va_externalCertNumber a)))"

text \<open>The join condition RWA_TOKEN_ON_CYCLE_CERT_JOIN.\<close>

definition token_on_cycle_cert :: "vault_db \<Rightarrow> vault_cycle \<Rightarrow> vault_asset \<Rightarrow> rwa_token \<Rightarrow> bool" where
  "token_on_cycle_cert db c a t =
     (rt_vaultCycleId t = Some (vc_id c)
      \<and> (same_cert t a
         \<or> sql_trim (or_empty (rt_certNumber t)) = []
           \<and> \<not> list_ex (\<lambda>t2. rt_vaultCycleId t2 = Some (vc_id c)
                   \<and> sql_trim (or_empty (rt_certNumber t2)) \<noteq> [] \<and> same_cert t2 a) (vd_tokens db)))"

definition getTokenIdForRedemption :: "nat \<Rightarrow> vault_db \<Rightarrow> string option" where
  "getTokenIdForRedemption redemptionId db =
     Option.bind (find_redemption redemptionId db) (\<lambda>r.
     Option.bind (find_cycle (vr_vaultCycleId r) db) (\<lambda>c.
     Option.bind (find_asset (vc_vaultAssetId c) db) (\<lambda>a.
     map_option rt_tokenId (find_row (token_on_cycle_cert db c a) (vd_tokens db)))))"

definition assertOwnerMatches :: "string \<Rightarrow> string \<Rightarrow> unit result" where
  "assertOwnerMatches actualOwner expectedOwner =
     (if js_lower (js_trim actualOwner) \<noteq> js_lower (js_trim expectedOwner)
      then Inl (ForbiddenException ''Wallet does not currently own this token'') else Inr ())"

section \<open>The operations keep the invariant\<close>

lemma open_redemption_of_Some:
  "open_redemption_of i db = Some r \<Longrightarrow> r \<in> set (vd_redemptions db) \<and> vr_vaultCycleId r = i \<and> open_redemption r"
  unfolding open_redemption_of_def by (drule find_row_Some) simp

lemma open_redemption_of_None:
  "open_redemption_of i db = None \<longleftrightarrow>
     (\<forall>r \<in> set (vd_redemptions db). open_redemption r \<longrightarrow> vr_vaultCycleId r \<noteq> i)"
  by (auto simp: open_redemption_of_def find_row_None)

lemma blank_redemption_simps [simp]:
  "vr_id (blank_redemption i c now w) = i" "vr_vaultCycleId (blank_redemption i c now w) = c"
  "vr_status (blank_redemption i c now w) = r_pending"
  "vr_id (with_ship_to s r) = vr_id r" "vr_vaultCycleId (with_ship_to s r) = vr_vaultCycleId r"
  "vr_status (with_ship_to s r) = vr_status r"
  by (simp_all add: blank_redemption_def with_ship_to_def)

text \<open>While a cycle is minted no redemption of it is open.\<close>

lemma minted_no_open_redemption:
  assumes wf: "vault_wf db" and c: "find_cycle i db = Some c" "vc_status c = minted"
  shows "open_redemption_of i db = None"
  unfolding open_redemption_of_None
proof (intro ballI impI notI)
  fix r assume r: "r \<in> set (vd_redemptions db)" "open_redemption r" "vr_vaultCycleId r = i"
  then have "in_redemption i db" using open_redemption_in_redemption [OF wf] by blast
  with c show False by (simp add: in_redemption_iff [OF wf])
qed

text \<open>
  The two writes of a request: a new row for a minted cycle, then the cycle itself. The row
  alone would break the link between redemptions and cycles, so they are one lemma.
\<close>

lemma keys_wf_next [simp]: "keys_wf db \<Longrightarrow> keys_wf (db\<lparr>vd_next := Suc (vd_next db)\<rparr>)"
  by (auto simp: keys_wf_def less_Suc_eq)

lemma vault_wf_next: "vault_wf db \<Longrightarrow> vault_wf (db\<lparr>vd_next := vd_next db + 1\<rparr>)"
  by (simp add: vault_wf_def uq_assets_type_cert_def cycles_wf_def redemptions_wf_def tokens_wf_def
      claims_wf_def uq_cycles_one_open_per_asset_chain_def uq_cycles_asset_number_def
      uq_redemptions_one_open_per_cycle_def)

lemma save_commute:
  "save_cycle now c (save_redemption r db) = save_redemption r (save_cycle now c db)"
  "save_cycle now c (db\<lparr>vd_next := n\<rparr>) = (save_cycle now c db)\<lparr>vd_next := n\<rparr>"
  by (simp_all add: save_cycle_def save_redemption_def)

lemma open_request_wf:
  assumes wf: "vault_wf db" and c: "find_cycle i db = Some c" "vc_status c = minted"
    and r: "vr_id r = vd_next db" "vr_vaultCycleId r = vc_id c"
    and db': "db' = save_cycle now (c\<lparr>vc_status := redemption_requested\<rparr>)
      (save_redemption r (db\<lparr>vd_next := vd_next db + 1\<rparr>))"
  shows "vault_wf db' \<and> cycles_advance db db'"
proof -
  let ?db = "save_cycle now (c\<lparr>vc_status := redemption_requested\<rparr>) db"
  have id: "vc_id c = i" using find_cycle_Some [OF c(1)] by simp
  have wf1: "vault_wf ?db" and adv: "cycles_advance db ?db"
    by (rule step_cycle [OF wf c(1)]; use c(2) in \<open>simp add: status_order\<close>)+
  have none: "open_redemption_of i db = None" by (rule minted_no_open_redemption [OF wf c])
  have eq: "db' = save_redemption r (?db\<lparr>vd_next := vd_next ?db + 1\<rparr>)"
    by (simp add: db' save_commute)
  have "vault_wf db'"
    unfolding eq
  proof (rule new_redemption_wf [OF wf1])
    show "vr_id r = vd_next ?db" using r by simp
    show "\<forall>x \<in> set (vd_redemptions ?db). open_redemption x \<longrightarrow> vr_vaultCycleId x \<noteq> vr_vaultCycleId r"
      using none r id by (simp add: open_redemption_of_None)
    show "in_redemption (vr_vaultCycleId r) ?db"
      using r by (simp add: in_redemption_iff [OF wf1] table_simps)
  qed
  then show ?thesis using adv by (simp add: eq cycles_advance_def)
qed

lemma requestRedemption_Inr:
  assumes wf: "vault_wf db"
    and ok: "requestRedemption now tc tid user owner ship fees db = Inr (r, db')"
  obtains t i c where "find_token (tc, tid) db = Some t" "rt_vaultCycleId t = Some i"
    "rt_burnedAt t = None" "find_cycle i db = Some c" "vc_status c = minted" "vr_id r = vd_next db"
    "vr_vaultCycleId r = i" "vr_status r = r_ownership_verified"
    "db' = save_cycle now (c\<lparr>vc_status := redemption_requested\<rparr>)
      (save_redemption r (db\<lparr>vd_next := vd_next db + 1\<rparr>))"
proof -
  from ok obtain t i c where t: "find_token (tc, tid) db = Some t" "rt_vaultCycleId t = Some i"
    "rt_burnedAt t = None" "find_cycle i db = Some c" "vc_status c = minted"
    unfolding requestRedemption_def by (auto split: if_splits option.splits)
  have i: "vc_id c = i" using find_cycle_Some [OF t(4)] by simp
  have none: "open_redemption_of (vc_id c) db = None"
    using minted_no_open_redemption [OF wf t(4,5)] i by simp
  show thesis
    by (rule that [OF t]) (use ok t i none in \<open>auto simp: requestRedemption_def Let_def split: if_splits\<close>)
qed

lemma requestRedemption_wf:
  assumes wf: "vault_wf db"
    and ok: "requestRedemption now tc tid user owner ship fees db = Inr (r, db')"
  shows "vault_wf db' \<and> cycles_advance db db'"
proof -
  from wf ok obtain i c where c: "find_cycle i db = Some c" "vc_status c = minted"
    and r: "vr_id r = vd_next db" "vr_vaultCycleId r = i"
    and db': "db' = save_cycle now (c\<lparr>vc_status := redemption_requested\<rparr>)
      (save_redemption r (db\<lparr>vd_next := vd_next db + 1\<rparr>))"
    by (rule requestRedemption_Inr)
  have "vr_vaultCycleId r = vc_id c" using r(2) find_cycle_Some [OF c(1)] by simp
  then show ?thesis using open_request_wf [OF wf c r(1) _ db'] by blast
qed

lemma insertPaymentClaim_Inr:
  "insertPaymentClaimOrConflict cl db = Inr db' \<Longrightarrow>
     db' = db\<lparr>vd_claims := upsert pc_paymentTxHash cl (vd_claims db)\<rparr>
     \<and> uq_claims_batch (upsert pc_paymentTxHash cl (vd_claims db))"
  by (simp add: insertPaymentClaimOrConflict_def Let_def split: if_splits)

lemma insertPaymentClaim_wf:
  assumes wf: "vault_wf db" and ok: "insertPaymentClaimOrConflict cl db = Inr db'"
  shows "vault_wf db' \<and> cycles_advance db db'"
proof -
  note 1 = insertPaymentClaim_Inr [OF ok]
  have "claims_wf db'" using wf 1 by (simp add: vault_wf_def claims_wf_def)
  then show ?thesis using 1 claims_wf_replace [OF wf] by (auto simp: cycles_advance_def)
qed

lemma backfill_asset_ok:
  assumes wf: "vault_wf db" and ok: "backfill_asset k cert name db = Inr (a, db')"
  shows "vault_wf db' \<and> find_asset_by_cert psa_graded cert db' = Some a \<and> vd_cycles db' = vd_cycles db
     \<and> vd_redemptions db' = vd_redemptions db \<and> vd_tokens db' = vd_tokens db
     \<and> vd_claims db' = vd_claims db"
  using ok wf find_or_create_asset_ok [OF wf] unfolding backfill_asset_def
  by (auto split: option.splits)

lemma backfill_cycle_ok:
  assumes wf: "vault_wf db" and a: "a \<in> set (vd_assets db)"
    and ok: "backfill_cycle now a ch db = Inr (c, db')"
  shows "vault_wf db' \<and> cycles_advance db db' \<and> vd_tokens db' = vd_tokens db
     \<and> vd_redemptions db' = vd_redemptions db \<and> vd_claims db' = vd_claims db
     \<and> (\<exists>c'. find_cycle (vc_id c) db' = Some c' \<and> vc_status c' = minted)"
proof (cases "open_cycle_of (va_id a) ch db")
  case (Some d)
  with ok have "vc_status d = minted" "c = d" "db' = db"
    by (auto simp: backfill_cycle_def split: if_splits)
  then show ?thesis using wf open_cycle_of_Some [OF Some] find_cycle_member [OF wf] by auto
next
  case None
  let ?c = "\<lparr>vc_id = vd_next db, vc_vaultAssetId = va_id a, vc_chainId = ch,
      vc_cycleNumber = length (cycles_of_asset (va_id a) db) + 1, vc_status = minted,
      vc_depositedAt = None, vc_depositVerifiedBy = None, vc_depositedByUserId = None,
      vc_redeemedAt = None, vc_mintAttempt = None, vc_updatedAt = now\<rparr>"
  have c: "c = ?c" and db': "db' = save_cycle now ?c (db\<lparr>vd_next := vd_next db + 1\<rparr>)"
    using ok None by (auto simp: backfill_cycle_def Let_def)
  have "vault_wf db'"
    unfolding db' by (rule new_cycle_wf [OF wf]) (use a None in \<open>auto simp: open_cycle_of_None\<close>)
  moreover have "cycles_advance db db'"
    unfolding db' by (rule new_cycle_advance [OF wf]) simp
  ultimately show ?thesis by (simp add: c) (simp add: db' table_simps)
qed

lemma backfillCycle_ok:
  assumes wf: "vault_wf db" and ok: "backfillCycleForToken k now t ch db = Inr (i, db')"
  shows "vault_wf db' \<and> cycles_advance db db' \<and> vd_redemptions db' = vd_redemptions db
     \<and> vd_claims db' = vd_claims db"
proof -
  from ok obtain cert a db1 c db2 ref where
    1: "backfill_asset k (normalizeCert cert) (rt_displayName t) db = Inr (a, db1)"
    and 2: "backfill_cycle now a ch db1 = Inr (c, db2)"
    and 3: "save_token_checked (t\<lparr>rt_vaultCycleId := Some (vc_id c), rt_vaultRef := ref\<rparr>) db2 = Inr db'"
    unfolding backfillCycleForToken_def Let_def by (auto simp: on_ok_eq_Inr split: option.splits)
  note a = backfill_asset_ok [OF wf 1]
  then have "a \<in> set (vd_assets db1)" using find_asset_by_cert_Some by blast
  note c = backfill_cycle_ok [OF _ this 2]
  from 3 have db': "db' = save_token (t\<lparr>rt_vaultCycleId := Some (vc_id c), rt_vaultRef := ref\<rparr>) db2"
    and uq: "tokens_unique (vd_tokens db')"
    by (auto simp: save_token_checked_def Let_def split: if_splits)
  have "vault_wf db'"
    unfolding db' by (rule save_token_wf) (use a c uq db' in auto)
  moreover have "cycles_advance db db2"
    using a c by (auto simp: cycles_advance_def)
  ultimately show ?thesis using a c by (auto simp: db' cycles_advance_def)
qed

lemma paid_row_Inr:
  assumes ok: "paid_row_for_cycle now cl paidAt ch it i db = Inr (r, db')"
  obtains c where "find_cycle i db = Some c" "vc_status c = minted"
    "open_redemption_of (vc_id c) db = None"
    "vr_id r = vd_next db" "vr_vaultCycleId r = vc_id c" "vr_status r = r_ownership_verified"
    "vr_paymentTxHash r = Some (pc_paymentTxHash cl)" "vr_paymentBatchId r = Some (pc_paymentBatchId cl)"
    "db' = save_cycle now (c\<lparr>vc_status := redemption_requested\<rparr>)
      (save_redemption r (db\<lparr>vd_next := vd_next db + 1\<rparr>))"
proof (cases "find_cycle i db")
  case (Some c)
  then have "vc_status c = minted" "open_redemption_of (vc_id c) db = None"
    using ok by (auto simp: paid_row_for_cycle_def Let_def split: if_splits option.splits)
  with Some ok show thesis
    by (intro that [of c]) (auto simp: paid_row_for_cycle_def Let_def)
qed (use ok in \<open>simp add: paid_row_for_cycle_def\<close>)

lemma insertPaidRow_Inr:
  assumes ok: "insertPaidRedemptionRow k now cl paidAt ch it db = Inr (r, db')"
  obtains t i db1 where "find_token_decimal (it_tokenContract it) (it_tokenId it) db = Some t"
    "rt_burnedAt t = None"
    "(case rt_vaultCycleId t of Some i \<Rightarrow> Inr (i, db) | None \<Rightarrow> backfillCycleForToken k now t ch db) = Inr (i, db1)"
    "paid_row_for_cycle now cl paidAt ch it i db1 = Inr (r, db')"
proof (cases "find_token_decimal (it_tokenContract it) (it_tokenId it) db")
  case (Some t)
  with ok show thesis
    by (auto simp: insertPaidRedemptionRow_def on_ok_eq_Inr split: if_splits intro: that [of t])
qed (use ok in \<open>simp add: insertPaidRedemptionRow_def split: if_splits\<close>)

lemma paid_row_wf:
  assumes wf: "vault_wf db" and ok: "paid_row_for_cycle now cl paidAt ch it i db = Inr (r, db')"
  shows "vault_wf db' \<and> cycles_advance db db' \<and> vd_claims db' = vd_claims db"
proof -
  from ok obtain c where c: "find_cycle i db = Some c" "vc_status c = minted"
    and r: "vr_id r = vd_next db" "vr_vaultCycleId r = vc_id c"
    and db': "db' = save_cycle now (c\<lparr>vc_status := redemption_requested\<rparr>)
      (save_redemption r (db\<lparr>vd_next := vd_next db + 1\<rparr>))"
    by (rule paid_row_Inr)
  show ?thesis using open_request_wf [OF wf c r db'] by (simp add: db')
qed

lemma insertPaidRow_wf:
  assumes wf: "vault_wf db" and ok: "insertPaidRedemptionRow k now cl paidAt ch it db = Inr (r, db')"
  shows "vault_wf db' \<and> cycles_advance db db' \<and> vd_claims db' = vd_claims db"
proof -
  from ok obtain t i db1 where
    b: "(case rt_vaultCycleId t of Some i \<Rightarrow> Inr (i, db) | None \<Rightarrow> backfillCycleForToken k now t ch db) = Inr (i, db1)"
    and p: "paid_row_for_cycle now cl paidAt ch it i db1 = Inr (r, db')"
    by (rule insertPaidRow_Inr)
  have 1: "vault_wf db1 \<and> cycles_advance db db1 \<and> vd_claims db1 = vd_claims db"
    using b wf backfillCycle_ok [OF wf] by (auto split: option.splits)
  with paid_row_wf [OF _ p] show ?thesis by (auto intro: cycles_advance_trans)
qed

lemma insert_paid_rows_wf:
  "vault_wf db \<Longrightarrow> insert_paid_rows k now cl paidAt ch items db = Inr (out, db') \<Longrightarrow>
   vault_wf db' \<and> cycles_advance db db' \<and> vd_claims db' = vd_claims db"
proof (induction items arbitrary: db out)
  case (Cons it items)
  then obtain r db1 out' where 1: "insertPaidRedemptionRow k now cl paidAt ch it db = Inr (r, db1)"
    and 2: "insert_paid_rows k now cl paidAt ch items db1 = Inr (out', db')"
    by (auto simp: on_ok_eq_Inr)
  note a = insertPaidRow_wf [OF Cons.prems(1) 1]
  with Cons.IH [OF _ 2] show ?case by (auto intro: cycles_advance_trans)
qed simp

lemma createPaidBatch_Inr:
  assumes "createPaidRedemptionBatch k now tx b m paidAt ch items db = Inr (out, db')"
  obtains cl db1 where "cl = \<lparr>pc_paymentTxHash = js_lower (js_trim tx), pc_paymentBatchId = js_trim b,
      pc_paymentReceivedUsdcMicros = Some m, pc_chainId = Some ch\<rparr>"
    "js_lower (js_trim tx) \<noteq> []" "js_trim b \<noteq> []" "items \<noteq> []"
    "insertPaymentClaimOrConflict cl db = Inr db1"
    "insert_paid_rows k now cl paidAt ch items db1 = Inr (out, db')"
  using assms unfolding createPaidRedemptionBatch_def Let_def
  by (auto simp: on_ok_eq_Inr split: if_splits)

lemma createPaidBatch_wf:
  assumes wf: "vault_wf db"
    and ok: "createPaidRedemptionBatch k now tx b m paidAt ch items db = Inr (out, db')"
  shows "vault_wf db' \<and> cycles_advance db db'"
  using ok
proof (rule createPaidBatch_Inr)
  fix cl db1
  assume 1: "insertPaymentClaimOrConflict cl db = Inr db1"
    and 2: "insert_paid_rows k now cl paidAt ch items db1 = Inr (out, db')"
  note a = insertPaymentClaim_wf [OF wf 1]
  with insert_paid_rows_wf [OF _ 2] show ?thesis by (auto intro: cycles_advance_trans)
qed

lemma step_redemption:
  assumes "vault_wf db" "find_redemption i db = Some b" "vr_id r = vr_id b"
    "vr_vaultCycleId r = vr_vaultCycleId b" "open_redemption r \<Longrightarrow> open_redemption b"
  shows "vault_wf (save_redemption r db)" "cycles_advance db (save_redemption r db)"
  using assms find_redemption_Some [OF assms(2)]
  by (auto simp: cycles_advance_def intro!: save_redemption_wf [of db r b])

lemma markCustody_wf:
  assumes "vault_wf db" "markCustodyReceived now i tx db = Inr (r, db')"
  shows "vault_wf db' \<and> cycles_advance db db'"
  using assms step_redemption [OF assms(1)]
  by (auto simp: markCustodyReceived_def Let_def open_redemption_def split: option.splits if_splits)

lemma confirmRelease_wf:
  assumes "vault_wf db" "confirmVaultRelease now i db = Inr (r, db')"
  shows "vault_wf db' \<and> cycles_advance db db'"
  using assms step_redemption [OF assms(1)]
  by (auto simp: confirmVaultRelease_def Let_def open_redemption_def split: option.splits if_splits)

lemma find_redemption_member:
  "vault_wf db \<Longrightarrow> r \<in> set (vd_redemptions db) \<Longrightarrow> find_redemption (vr_id r) db = Some r"
  by (simp add: wf_defs find_redemption_def find_key_member)

lemma latest_by_filter:
  "latest_by f (filter p t) = Some r \<Longrightarrow> r \<in> set t \<and> p r"
  by (drule latest_by_Some) simp

text \<open>The row that the burn picks: an existing one that is open or completed, or a new one.\<close>

lemma burn_redemption_cases:
  assumes "burn_redemption now i by db = (r, db')"
  obtains "db' = db" "r \<in> set (vd_redemptions db)" "vr_vaultCycleId r = i" "open_redemption r"
  | "db' = db" "r \<in> set (vd_redemptions db)" "vr_vaultCycleId r = i" "vr_status r = r_completed"
  | "db' = db\<lparr>vd_next := vd_next db + 1\<rparr>"
    "r = blank_redemption (vd_next db) i now (js_lower (or_empty by))"
    "\<forall>x \<in> set (vd_redemptions db). open_redemption x \<longrightarrow> vr_vaultCycleId x \<noteq> i"
proof (cases "latest_by vr_requestedAt
    (filter (\<lambda>r. vr_vaultCycleId r = i \<and> open_redemption r) (vd_redemptions db))")
  case (Some q)
  with assms that(1) show thesis by (auto simp: burn_redemption_def dest: latest_by_filter)
next
  case None
  then have none: "\<forall>x \<in> set (vd_redemptions db). open_redemption x \<longrightarrow> vr_vaultCycleId x \<noteq> i"
    by (auto simp: filter_empty_conv)
  show thesis
  proof (cases "latest_by vr_requestedAt (filter (\<lambda>r. vr_vaultCycleId r = i
      \<and> vr_status r \<notin> {r_failed, r_cancelled, r_refunded}) (vd_redemptions db))")
    case (Some q)
    then have q: "q \<in> set (vd_redemptions db)" "vr_vaultCycleId q = i"
      "vr_status q \<notin> {r_failed, r_cancelled, r_refunded}" by (auto dest: latest_by_filter)
    then have "vr_status q = r_completed" using none by (auto simp: open_redemption_def)
    moreover have "r = q" "db' = db"
      using assms None Some unfolding burn_redemption_def by simp_all
    ultimately show thesis using that(2) q by blast
  next
    case N: None
    then show thesis
      using assms None none that(3) unfolding burn_redemption_def by simp
  qed
qed

lemma same_status [simp]: "vr_status r = s \<Longrightarrow> r\<lparr>vr_status := s\<rparr> = r"
  by simp

lemma completeBurn_cases:
  obtains "find_token (tc, tid) db = None" "completeRedemptionBurn now tc tid tx by db = db"
  | t where "find_token (tc, tid) db = Some t"
    "Option.bind (rt_vaultCycleId t) (\<lambda>i. find_cycle i db) = None"
    "completeRedemptionBurn now tc tid tx by db = save_token (t\<lparr>rt_burnedAt := Some now,
       rt_burnTxHash := Some tx, rt_ownerWallet := None\<rparr>) db"
  | t i c db1 db2 r db3 where "find_token (tc, tid) db = Some t" "rt_vaultCycleId t = Some i"
    "db1 = save_token (t\<lparr>rt_burnedAt := Some now, rt_burnTxHash := Some tx, rt_ownerWallet := None\<rparr>) db"
    "find_cycle i db1 = Some c"
    "db2 = save_cycle now (c\<lparr>vc_status := redeemed, vc_redeemedAt := Some now\<rparr>) db1"
    "burn_redemption now i by db2 = (r, db3)"
    "completeRedemptionBurn now tc tid tx by db =
       save_redemption (r\<lparr>vr_status := (if vr_status r = r_completed then r_completed else r_burned),
         vr_burnTxHash := Some tx, vr_burnedAt := Some now\<rparr>) db3"
proof (cases "find_token (tc, tid) db")
  case None
  with that(1) show thesis by (simp add: completeRedemptionBurn_def)
next
  case t: (Some t)
  show thesis
  proof (cases "Option.bind (rt_vaultCycleId t) (\<lambda>i. find_cycle i db)")
    case None
    show thesis
      by (rule that(2) [OF t None])
         (use None t in \<open>auto simp: completeRedemptionBurn_def Let_def bind_eq_None_conv split: option.splits\<close>)
  next
    case (Some c)
    then obtain i where i: "rt_vaultCycleId t = Some i" "find_cycle i db = Some c"
      by (auto simp: Option.bind_eq_Some_conv)
    then have c: "vc_id c = i" using find_cycle_Some by blast
    show thesis
      by (rule that(3) [OF t i(1) refl _ refl prod.collapse [symmetric]])
         (use i t c in \<open>auto simp: completeRedemptionBurn_def Let_def split: prod.split\<close>)
  qed
qed

lemma completeBurn_wf:
  assumes wf: "vault_wf db"
  shows "vault_wf (completeRedemptionBurn now tc tid tx by db)
     \<and> cycles_advance db (completeRedemptionBurn now tc tid tx by db)"
proof (cases rule: completeBurn_cases [of tc tid db now tx "by"])
  case 1
  with wf show ?thesis by simp
next
  case (2 t)
  have "vault_wf (save_token (t\<lparr>rt_burnedAt := Some now, rt_burnTxHash := Some tx, rt_ownerWallet := None\<rparr>) db)"
    by (rule save_token_update_wf [OF wf, of _ t])
       (use 2(1) find_token_Some [OF 2(1)] in \<open>auto simp: rt_key_def\<close>)
  then show ?thesis by (simp add: 2(3) cycles_advance_same)
next
  case (3 t i c db1 db2 r db3)
  have wf1: "vault_wf db1"
    unfolding 3(3) by (rule save_token_update_wf [OF wf, of _ t])
       (use 3(1) find_token_Some [OF 3(1)] in \<open>auto simp: rt_key_def\<close>)
  have wf2: "vault_wf db2" and adv: "cycles_advance db1 db2"
    unfolding 3(5) by (rule step_cycle [OF wf1 3(4)]; simp)+
  have red: "in_redemption i db2"
    using find_cycle_Some [OF 3(4)] by (simp add: in_redemption_iff [OF wf2]) (simp add: 3(5) table_simps)
  let ?r = "r\<lparr>vr_status := (if vr_status r = r_completed then r_completed else r_burned),
      vr_burnTxHash := Some tx, vr_burnedAt := Some now\<rparr>"
  have adv': "cycles_advance db (save_redemption ?r db3)"
    if "vd_cycles db3 = vd_cycles db2"
    using adv that 3(3) by (simp add: cycles_advance_def)
  show ?thesis
  proof (cases rule: burn_redemption_cases [OF 3(6)])
    case 1
    have "vault_wf (save_redemption ?r db3)"
      unfolding 1(1) by (rule step_redemption [OF wf2 find_redemption_member [OF wf2 1(2)]])
        (use 1 in auto)
    then show ?thesis using adv' 1 3(7) by simp
  next
    case 2
    have "vault_wf (save_redemption ?r db3)"
      unfolding 2(1) by (rule step_redemption [OF wf2 find_redemption_member [OF wf2 2(2)]])
        (use 2 in \<open>auto simp: open_redemption_def\<close>)
    then show ?thesis using adv' 2 3(7) by simp
  next
    case new: 3
    have "vault_wf (save_redemption ?r db3)"
      unfolding new(1) by (rule new_redemption_wf [OF wf2])
        (use new red in auto)
    then show ?thesis using adv' new 3(7) by simp
  qed
qed

lemma receipt_row_simps [simp]:
  "vr_id (receipt_row ts via r) = vr_id r"
  "vr_vaultCycleId (receipt_row ts via r) = vr_vaultCycleId r"
  "vr_status (receipt_row ts via r) = r_completed" "\<not> open_redemption (receipt_row ts via r)"
  by (simp_all add: receipt_row_def open_redemption_def)

text \<open>The rows handed to markUserReceiptConfirmed are rows of the table.\<close>

definition known_rows :: "vault_redemption list \<Rightarrow> vault_db \<Rightarrow> bool" where
  "known_rows rows db = (\<forall>r \<in> set rows. \<exists>b. find_redemption (vr_id r) db = Some b
     \<and> vr_vaultCycleId b = vr_vaultCycleId r)"

lemma fold_receipt_wf:
  "vault_wf db \<Longrightarrow> known_rows rows db \<Longrightarrow> \<forall>r \<in> set rows. \<not> open_redemption r \<Longrightarrow>
   vault_wf (fold save_redemption rows db) \<and> vd_cycles (fold save_redemption rows db) = vd_cycles db"
proof (induction rows arbitrary: db)
  case (Cons r rows)
  from Cons.prems obtain b where b: "find_redemption (vr_id r) db = Some b"
    "vr_vaultCycleId b = vr_vaultCycleId r" by (auto simp: known_rows_def)
  then have "vault_wf (save_redemption r db)"
    using Cons.prems find_redemption_Some [OF b(1)] by (intro step_redemption(1) [of db _ b]) auto
  moreover have "known_rows rows (save_redemption r db)"
    using Cons.prems b by (auto simp: known_rows_def redemption_repo.look_put)
  ultimately show ?case using Cons.IH [of "save_redemption r db"] Cons.prems by simp
qed simp

lemma markReceipt_wf:
  assumes "vault_wf db" "known_rows rows db" "markUserReceiptConfirmed ts via rows db = (rows', db')"
  shows "vault_wf db' \<and> cycles_advance db db'"
proof (cases "rows = []")
  case False
  let ?rows = "map (receipt_row ts (case via of None \<Rightarrow> via_user | Some v \<Rightarrow> v)) rows"
  have db': "db' = fold save_redemption ?rows db"
    using assms(3) False by (auto simp: markUserReceiptConfirmed_def Let_def)
  have "known_rows ?rows db" using assms(2) by (simp add: known_rows_def)
  then have "vault_wf db' \<and> vd_cycles db' = vd_cycles db"
    unfolding db' using assms(1) by (intro fold_receipt_wf) auto
  then show ?thesis by (simp add: cycles_advance_same)
qed (use assms in \<open>simp add: markUserReceiptConfirmed_def\<close>)

end
