(* ===== verification/VaultQueries.thy ===== *)
theory VaultQueries
  imports VaultRedeem
begin

text \<open>
  What vault/vault.service.ts answers to the marketplace and the portfolio: whether a token may
  be listed or redeemed, which settlement policy it has (with the healing of a policy that was
  dropped), the custody rows and labels, the redemptions of a user, the partners that have to
  ship, and the history of a certificate. The locale settlement_registry is what the order book
  relies on: a policy that is set is never overwritten by ensureSettlementPolicy.
\<close>

section \<open>Tokens by decimal id\<close>

definition findRwaTokensByDecimalIds :: "string \<Rightarrow> string list \<Rightarrow> vault_db \<Rightarrow> rwa_token list" where
  "findRwaTokensByDecimalIds tokenContract tokenIds db =
     (let ids = js_unique (filter is_decimal (map js_trim tokenIds)) in
      if ids = [] then []
      else filter (\<lambda>t. js_lower (rt_tokenContract t) = js_lower tokenContract
                     \<and> matches_decimal_ids ids (rt_tokenId t)) (vd_tokens db))"

text \<open>new Map(rows.map(r => [normalize(r.tokenId), r])): the last row of an id wins.\<close>

definition by_norm :: "rwa_token list \<Rightarrow> string \<Rightarrow> rwa_token option" where
  "by_norm rows k = find_row (\<lambda>r. normalizeDecimalTokenId (rt_tokenId r) = k) (rev rows)"

definition hd_opt :: "'a list \<Rightarrow> 'a option" where
  "hd_opt xs = (case xs of [] \<Rightarrow> None | x # _ \<Rightarrow> Some x)"

section \<open>May a token be listed or redeemed\<close>

definition assertTokenRedeemableForListing :: "string \<Rightarrow> string \<Rightarrow> vault_db \<Rightarrow> unit result" where
  "assertTokenRedeemableForListing tokenContract tokenId db =
     (case hd_opt (findRwaTokensByDecimalIds tokenContract [tokenId] db) of
        None \<Rightarrow> Inr ()
      | Some token \<Rightarrow>
          if rt_burnedAt token \<noteq> None
          then Inl (BadRequestException ''Token has been redeemed and cannot be listed'')
          else case rt_vaultCycleId token of
            None \<Rightarrow> Inr ()
          | Some i \<Rightarrow> (case find_cycle i db of
              None \<Rightarrow> Inr ()
            | Some cycle \<Rightarrow>
                if vc_status cycle = redemption_requested \<or> vc_status cycle = redeemed
                then Inl (BadRequestException
                  ''Token has a pending or completed redemption and cannot be listed'')
                else Inr ()))"

definition assertRedeemable1 :: "rwa_token list \<Rightarrow> vault_db \<Rightarrow> string \<Rightarrow> unit result" where
  "assertRedeemable1 rows db tokenId =
     (case by_norm rows (normalizeDecimalTokenId tokenId) of
        None \<Rightarrow> Inl (BadRequestException ''Token is not registered on Tokenable yet'')
      | Some token \<Rightarrow>
          if rt_burnedAt token \<noteq> None
          then Inl (BadRequestException ''Token has already been redeemed'')
          else case rt_vaultCycleId token of
            None \<Rightarrow>
              if trim_or_null (rt_certNumber token) = None
              then Inl (BadRequestException ''Token is missing its vault record'')
              else Inr ()
          | Some i \<Rightarrow> (case find_cycle i db of
              None \<Rightarrow> Inr ()
            | Some cycle \<Rightarrow>
                if vc_status cycle \<noteq> minted
                then let asset = find_asset (vc_vaultAssetId cycle) db;
                         tokenCert = trim_or_null (rt_certNumber token);
                         assetCert = trim_or_null (map_option va_externalCertNumber asset) in
                  case (tokenCert, assetCert) of
                    (Some tc, Some ac) \<Rightarrow>
                      if normalizeCert tc \<noteq> normalizeCert ac then Inr ()
                      else Inl (ConflictException ''Token is not redeemable right now'')
                  | _ \<Rightarrow> Inl (ConflictException ''Token is not redeemable right now'')
                else Inr ()))"

fun for_each_check :: "('a \<Rightarrow> unit result) \<Rightarrow> 'a list \<Rightarrow> unit result" where
  "for_each_check f [] = Inr ()"
| "for_each_check f (x # xs) = on_ok (f x) (\<lambda>_. for_each_check f xs)"

definition assertTokensRedeemable :: "string \<Rightarrow> string list \<Rightarrow> vault_db \<Rightarrow> unit result" where
  "assertTokensRedeemable tokenContract tokenIds db =
     (let ids = filter is_decimal (js_unique (map js_trim tokenIds)) in
      if ids = [] then Inr ()
      else for_each_check (assertRedeemable1 (findRwaTokensByDecimalIds tokenContract ids db) db) ids)"

section \<open>Settlement policy\<close>

text \<open>UPDATE rwa_tokens SET settlement_policy = ... WHERE ... AND settlement_policy IS NULL.\<close>

definition fill_policy :: "string \<Rightarrow> string \<Rightarrow> settlement_policy \<Rightarrow> rwa_token \<Rightarrow> rwa_token" where
  "fill_policy contract tid policy t =
     (if js_lower (rt_tokenContract t) = contract \<and> rt_tokenId t = tid \<and> rt_settlementPolicy t = None
      then t\<lparr>rt_settlementPolicy := Some policy\<rparr> else t)"

definition ensureSettlementPolicy ::
  "string \<Rightarrow> string \<Rightarrow> settlement_policy \<Rightarrow> vault_db \<Rightarrow> vault_db" where
  "ensureSettlementPolicy tokenContract tokenId policy db =
     (let contract = js_lower (js_trim tokenContract); tid = js_trim tokenId in
      if contract = [] \<or> tid = [] then db
      else db\<lparr>vd_tokens := map (fill_policy contract tid policy) (vd_tokens db)\<rparr>)"

definition resolveRowSettlementPolicy ::
  "rwa_token \<Rightarrow> vault_db \<Rightarrow> settlement_policy option \<times> vault_db" where
  "resolveRowSettlementPolicy row db =
     (if rt_settlementPolicy row = Some self_vault_hold then (Some self_vault_hold, db)
      else if rt_settlementPolicy row = Some standard then (Some standard, db)
      else if trim_or_null (rt_vaultPartnerId row) \<noteq> None
      then (Some self_vault_hold,
            ensureSettlementPolicy (rt_tokenContract row) (rt_tokenId row) self_vault_hold db)
      else (None, db))"

definition getSettlementPolicy ::
  "string \<Rightarrow> string \<Rightarrow> vault_db \<Rightarrow> settlement_policy option \<times> vault_db" where
  "getSettlementPolicy tokenContract tokenId db =
     (case hd_opt (findRwaTokensByDecimalIds tokenContract [js_trim tokenId] db) of
        None \<Rightarrow> (None, db)
      | Some token \<Rightarrow> resolveRowSettlementPolicy token db)"

record custody_row =
  cu_tokenId :: string
  cu_settlementPolicy :: "settlement_policy option"
  cu_vaultPartnerId :: "string option"
  cu_known :: bool

definition custody_row1 :: "rwa_token list \<Rightarrow> string \<Rightarrow> vault_db \<Rightarrow> custody_row \<times> vault_db" where
  "custody_row1 rows tokenId db =
     (case by_norm rows (normalizeDecimalTokenId tokenId) of
        None \<Rightarrow> (\<lparr>cu_tokenId = tokenId, cu_settlementPolicy = None, cu_vaultPartnerId = None,
                cu_known = False\<rparr>, db)
      | Some row \<Rightarrow> (case resolveRowSettlementPolicy row db of
          (Some self_vault_hold, db') \<Rightarrow>
            (\<lparr>cu_tokenId = tokenId, cu_settlementPolicy = Some self_vault_hold,
              cu_vaultPartnerId = rt_vaultPartnerId row, cu_known = True\<rparr>, db')
        | (Some standard, db') \<Rightarrow>
            (\<lparr>cu_tokenId = tokenId, cu_settlementPolicy = Some standard,
              cu_vaultPartnerId = None, cu_known = True\<rparr>, db')
        | (None, db') \<Rightarrow>
            (\<lparr>cu_tokenId = tokenId, cu_settlementPolicy = None, cu_vaultPartnerId = None,
              cu_known = False\<rparr>, db')))"

fun custody_rows :: "rwa_token list \<Rightarrow> string list \<Rightarrow> vault_db \<Rightarrow> custody_row list \<times> vault_db" where
  "custody_rows rows [] db = ([], db)"
| "custody_rows rows (i # ids) db =
     (let (r, db1) = custody_row1 rows i db; (rs, db2) = custody_rows rows ids db1 in (r # rs, db2))"

definition getVaultCustodyRows ::
  "string \<Rightarrow> string list \<Rightarrow> vault_db \<Rightarrow> custody_row list \<times> vault_db" where
  "getVaultCustodyRows tokenContract tokenIds db =
     (let ids = take 200 (js_unique (filter is_decimal (map js_trim tokenIds))) in
      if ids = [] then ([], db)
      else custody_rows (findRwaTokensByDecimalIds tokenContract ids db) ids db)"

definition vaultLabelForCustody :: "settlement_policy \<Rightarrow> string option \<Rightarrow> string" where
  "vaultLabelForCustody settlementPolicy partnerDisplayName =
     (if settlementPolicy = self_vault_hold then ''Tokenable Vault'' else ''PSA Vault'')"

definition partner_name :: "vault_db \<Rightarrow> string option \<Rightarrow> string option" where
  "partner_name db i = (case i of None \<Rightarrow> None
     | Some p \<Rightarrow> map_option mp_displayName (find_row (\<lambda>m. mp_id m = p) (vd_partners db)))"

definition getVaultDisplayByTokenIds ::
  "string \<Rightarrow> string list \<Rightarrow> vault_db \<Rightarrow> (string \<rightharpoonup> settlement_policy \<times> string) \<times> vault_db" where
  "getVaultDisplayByTokenIds tokenContract tokenIds db =
     (let (rows, db') = getVaultCustodyRows tokenContract tokenIds db in
      (fold (\<lambda>row out. case (cu_known row, cu_settlementPolicy row) of
          (True, Some p) \<Rightarrow>
            out(cu_tokenId row \<mapsto> (p, vaultLabelForCustody p (partner_name db' (cu_vaultPartnerId row))))
        | _ \<Rightarrow> out) rows Map.empty, db'))"

section \<open>Redemptions of a user\<close>

record open_redemption_row =
  or_redemptionId :: nat
  or_tokenId :: string
  or_tokenContract :: string
  or_status :: vault_redemption_status
  or_vaultCycleStatus :: vault_cycle_status
  or_requestedAt :: int
  or_vaultReleasedAt :: "int option"
  or_paymentBatchId :: "string option"
  or_custodyTxHash :: "string option"
  or_custodyAt :: "int option"
  or_paymentTxHash :: "string option"
  or_trackingNumber :: "string option"
  or_trackingCarrier :: "string option"
  or_carrierDeliveredAt :: "int option"
  or_refundStatus :: refund_status
  or_settlementPolicy :: "settlement_policy option"
  or_vaultPartnerId :: "string option"
  or_feeRetrievalUsd :: "string option"
  or_feeEarlyWithdrawalUsd :: "string option"
  or_feeShippingUsd :: "string option"
  or_feeTotalUsd :: "string option"
  or_paymentReceivedUsdcMicros :: "string option"
  or_earlyWithdrawal :: "bool option"

definition open_row :: "vault_redemption \<Rightarrow> vault_cycle \<Rightarrow> rwa_token \<Rightarrow> open_redemption_row" where
  "open_row r c t = \<lparr>or_redemptionId = vr_id r, or_tokenId = rt_tokenId t,
     or_tokenContract = js_lower (rt_tokenContract t), or_status = vr_status r,
     or_vaultCycleStatus = vc_status c, or_requestedAt = vr_requestedAt r,
     or_vaultReleasedAt = vr_vaultReleasedAt r, or_paymentBatchId = vr_paymentBatchId r,
     or_custodyTxHash = vr_custodyTxHash r, or_custodyAt = vr_custodyAt r,
     or_paymentTxHash = vr_paymentTxHash r, or_trackingNumber = vr_trackingNumber r,
     or_trackingCarrier = vr_trackingCarrier r, or_carrierDeliveredAt = vr_carrierDeliveredAt r,
     or_refundStatus = vr_refundStatus r, or_settlementPolicy = rt_settlementPolicy t,
     or_vaultPartnerId = rt_vaultPartnerId t, or_feeRetrievalUsd = vr_feeRetrievalUsd r,
     or_feeEarlyWithdrawalUsd = vr_feeEarlyWithdrawalUsd r, or_feeShippingUsd = vr_feeShippingUsd r,
     or_feeTotalUsd = vr_feeTotalUsd r,
     or_paymentReceivedUsdcMicros = vr_paymentReceivedUsdcMicros r,
     or_earlyWithdrawal = vr_earlyWithdrawal r\<rparr>"

text \<open>The three inner joins and the WHERE clause, one redemption at a time.\<close>

definition open_rows_of ::
  "string \<Rightarrow> nat \<Rightarrow> string list \<Rightarrow> vault_db \<Rightarrow> vault_redemption \<Rightarrow> open_redemption_row list" where
  "open_rows_of userId chainId tokenIds db r =
     (if vr_requestedByUserId r \<noteq> Some userId \<or> vr_status r = r_failed \<or> vr_status r = r_cancelled
      then []
      else case find_cycle (vr_vaultCycleId r) db of
        None \<Rightarrow> []
      | Some c \<Rightarrow> (case find_asset (vc_vaultAssetId c) db of
          None \<Rightarrow> []
        | Some a \<Rightarrow>
            if or_else (vr_chainId r) (Some (vc_chainId c)) \<noteq> Some chainId then []
            else map (open_row r c) (filter (\<lambda>t. token_on_cycle_cert db c a t
                   \<and> (tokenIds = [] \<or> matches_decimal_ids tokenIds (rt_tokenId t))) (vd_tokens db))))"

definition listOpenRedemptionsForUser ::
  "string \<Rightarrow> nat \<Rightarrow> string list \<Rightarrow> vault_db \<Rightarrow> open_redemption_row list" where
  "listOpenRedemptionsForUser userId chainId tokenIds db =
     concat (map (open_rows_of userId chainId tokenIds db)
       (order_desc vr_requestedAt (vd_redemptions db)))"

section \<open>Partners that ship, history, deposit dates\<close>

definition token_by_cycle :: "vault_db \<Rightarrow> nat \<Rightarrow> rwa_token option" where
  "token_by_cycle db i = find_row (\<lambda>t. rt_vaultCycleId t = Some i) (rev (vd_tokens db))"

definition ship_target :: "vault_db \<Rightarrow> vault_redemption \<Rightarrow> (nat \<times> string \<times> string) option" where
  "ship_target db row = (case token_by_cycle db (vr_vaultCycleId row) of
      None \<Rightarrow> None
    | Some token \<Rightarrow>
        if rt_settlementPolicy token \<noteq> Some self_vault_hold \<or> or_empty (rt_vaultPartnerId token) = []
        then None
        else case find_row (\<lambda>p. Some (mp_id p) = rt_vaultPartnerId token \<and> mp_isActive p) (vd_partners db) of
          None \<Rightarrow> None
        | Some p \<Rightarrow> (let w = js_lower (js_trim (mp_walletAddress p)) in
            if w = [] then None else Some (vr_id row, w, rt_tokenId token)))"

definition resolveSelfVaultPartnerShipTargets ::
  "vault_redemption list \<Rightarrow> vault_db \<Rightarrow> (nat \<times> string \<times> string) list" where
  "resolveSelfVaultPartnerShipTargets rows db = List.map_filter (ship_target db) rows"

record history_entry =
  hi_cycleId :: nat
  hi_cycleNumber :: nat
  hi_chainId :: nat
  hi_status :: vault_cycle_status
  hi_depositedAt :: "int option"
  hi_redeemedAt :: "int option"
  hi_tokenId :: "string option"
  hi_tokenContract :: "string option"
  hi_burnedAt :: "int option"

definition history_row :: "vault_db \<Rightarrow> vault_cycle \<Rightarrow> history_entry" where
  "history_row db c = (let token = token_by_cycle db (vc_id c) in
     \<lparr>hi_cycleId = vc_id c, hi_cycleNumber = vc_cycleNumber c, hi_chainId = vc_chainId c,
      hi_status = vc_status c, hi_depositedAt = vc_depositedAt c, hi_redeemedAt = vc_redeemedAt c,
      hi_tokenId = map_option rt_tokenId token, hi_tokenContract = map_option rt_tokenContract token,
      hi_burnedAt = Option.bind token rt_burnedAt\<rparr>)"

definition getHistoryForCert ::
  "string \<Rightarrow> vault_asset_type \<Rightarrow> vault_db \<Rightarrow> vault_asset option \<times> history_entry list" where
  "getHistoryForCert certNumber assetType db =
     (case find_asset_by_cert assetType (normalizeCert certNumber) db of
        None \<Rightarrow> (None, [])
      | Some asset \<Rightarrow>
          (Some asset, map (history_row db) (order_asc vc_cycleNumber (cycles_of_asset (va_id asset) db))))"

definition getDepositedAtByTokenIds ::
  "string \<Rightarrow> string list \<Rightarrow> vault_db \<Rightarrow> string \<rightharpoonup> int option \<times> nat \<times> vault_cycle_status" where
  "getDepositedAtByTokenIds tokenContract tokenIds db =
     fold (\<lambda>t out. case Option.bind (rt_vaultCycleId t) (\<lambda>i. find_cycle i db) of
         None \<Rightarrow> out
       | Some c \<Rightarrow> out(rt_tokenId t \<mapsto> (vc_depositedAt c, vc_id c, vc_status c)))
       (filter (\<lambda>t. rt_tokenContract t = tokenContract \<and> rt_tokenId t \<in> set tokenIds) (vd_tokens db))
       Map.empty"

section \<open>A policy is written once\<close>

locale settlement_registry =
  fixes stored :: "'k \<Rightarrow> 'db \<Rightarrow> 'p option" and ensure :: "'k \<Rightarrow> 'p \<Rightarrow> 'db \<Rightarrow> 'db"
  assumes ensure_keeps: "stored k db = Some p \<Longrightarrow> stored k (ensure j q db) = Some p"
    and ensure_from: "stored k (ensure j q db) = stored k db \<or> stored k (ensure j q db) = Some q"
begin

lemma ensure_idem: "stored k (ensure k p db) = Some p \<Longrightarrow> stored k (ensure k q (ensure k p db)) = Some p"
  by (rule ensure_keeps)

text \<open>After any number of writers the value is the first that reached the token.\<close>

lemma ensures_keep: "stored k db = Some p \<Longrightarrow> stored k (fold (\<lambda>(j, q). ensure j q) ws db) = Some p"
  by (induction ws arbitrary: db) (auto intro: ensure_keeps)

lemma ensures_from:
  "stored k (fold (\<lambda>(j, q). ensure j q) ws db) = Some p \<Longrightarrow> stored k db = Some p \<or> p \<in> snd ` set ws"
proof (induction ws arbitrary: db)
  case (Cons w ws)
  obtain j q where w: "w = (j, q)" by force
  from Cons w have "stored k (ensure j q db) = Some p \<or> p \<in> snd ` set ws" by auto
  then show ?case using ensure_from [of k j q db] w by auto
qed simp

end

definition stored_policy :: "string \<times> string \<Rightarrow> vault_db \<Rightarrow> settlement_policy option" where
  "stored_policy k db = Option.bind (find_token k db) rt_settlementPolicy"

lemma find_key_map:
  "(\<And>x. key (f x) = key x) \<Longrightarrow> find_key key k (map f t) = map_option f (find_key key k t)"
  by (induction t) (auto simp: find_key_def)

lemma fill_policy_simps [simp]:
  "rt_key (fill_policy c i p t) = rt_key t"
  "rt_vaultCycleId (fill_policy c i p t) = rt_vaultCycleId t"
  "rt_tokenContract (fill_policy c i p t) = rt_tokenContract t"
  "rt_tokenId (fill_policy c i p t) = rt_tokenId t"
  "rt_certNumber (fill_policy c i p t) = rt_certNumber t"
  "rt_burnedAt (fill_policy c i p t) = rt_burnedAt t"
  "rt_vaultPartnerId (fill_policy c i p t) = rt_vaultPartnerId t"
  by (simp_all add: fill_policy_def rt_key_def)

lemma find_token_ensure:
  "find_token k (ensureSettlementPolicy c i p db) = find_token k db \<or>
   find_token k (ensureSettlementPolicy c i p db) =
     map_option (fill_policy (js_lower (js_trim c)) (js_trim i) p) (find_token k db)"
  unfolding ensureSettlementPolicy_def Let_def find_token_def
  by (simp add: find_key_map)

interpretation policy_registry: settlement_registry stored_policy "\<lambda>k. ensureSettlementPolicy (fst k) (snd k)"
proof
  fix k j :: "string \<times> string" and p q db
  let ?db = "ensureSettlementPolicy (fst j) (snd j) q db"
  show "stored_policy k db = Some p \<Longrightarrow> stored_policy k ?db = Some p"
    using find_token_ensure [of k "fst j" "snd j" q db]
    by (auto simp: stored_policy_def fill_policy_def split: Option.bind_splits if_splits)
  show "stored_policy k ?db = stored_policy k db \<or> stored_policy k ?db = Some q"
    using find_token_ensure [of k "fst j" "snd j" q db]
    by (cases "find_token k db") (auto simp: stored_policy_def fill_policy_def split: if_splits)
qed

end
