(* ===== verification/ChainConfig.thy ===== *)
theory ChainConfig
  imports FeeSplit
begin

text \<open>
  blockchain/chain-config.service.ts: which chains the server knows, the chain of a request,
  and the contract addresses of a chain, all read from the configuration.
\<close>

definition SUPPORTED_CHAIN_IDS :: "nat list" where
  "SUPPORTED_CHAIN_IDS = [1, 11155111, 137]"

text \<open>SUPPORTED_CHAIN_IDS.includes(Number(raw)).\<close>

definition supported_chain :: "string option \<Rightarrow> nat option" where
  "supported_chain raw = (case raw of
      None \<Rightarrow> None
    | Some s \<Rightarrow> (case js_Number s of
        None \<Rightarrow> None
      | Some n \<Rightarrow> List.find (\<lambda>i. of_nat i = n) SUPPORTED_CHAIN_IDS))"

definition getDefaultChainId :: "config \<Rightarrow> nat" where
  "getDefaultChainId config =
     (case supported_chain (map_option js_trim (config ''DEFAULT_CHAIN_ID'')) of
        None \<Rightarrow> 1 | Some n \<Rightarrow> n)"

definition resolveChainId :: "config \<Rightarrow> string option \<Rightarrow> nat" where
  "resolveChainId config headerValue =
     (case supported_chain (map_option js_trim headerValue) of
        None \<Rightarrow> getDefaultChainId config | Some n \<Rightarrow> n)"

definition chain_key :: "nat \<Rightarrow> string \<Rightarrow> string" where
  "chain_key chainId suffix = ''CHAIN_'' @ nat_str chainId @ suffix"

text \<open>True when the RPC url and the RWA address of the chain are set.\<close>

definition isChainConfigured :: "config \<Rightarrow> nat \<Rightarrow> bool" where
  "isChainConfigured config chainId =
     (let rpc = trim_or_null (config (chain_key chainId ''_RPC_URL''));
          rwa = map_option js_lower (trim_or_null (config (chain_key chainId ''_RWA_ADDRESS'')))
      in rpc \<noteq> None \<and> (case rwa of None \<Rightarrow> False | Some a \<Rightarrow> is_hex_word_ci 40 a))"

definition listConfiguredChainIds :: "config \<Rightarrow> nat list" where
  "listConfiguredChainIds config =
     (let configured = filter (isChainConfigured config) SUPPORTED_CHAIN_IDS in
      if configured \<noteq> [] then configured else [getDefaultChainId config])"

definition parseOptionalChainIdHeader :: "config \<Rightarrow> string option \<Rightarrow> nat option" where
  "parseOptionalChainIdHeader config headerValue =
     (case trim_or_null headerValue of
        None \<Rightarrow> None
      | Some raw \<Rightarrow> (case supported_chain (Some raw) of
          None \<Rightarrow> None
        | Some n \<Rightarrow> if isChainConfigured config n then Some n else None))"

definition requireChainId :: "config \<Rightarrow> string option \<Rightarrow> nat result" where
  "requireChainId config headerValue =
     (case trim_or_null headerValue of
        None \<Rightarrow> Inl (BadRequestException ''Missing header'')
      | Some raw \<Rightarrow> (case supported_chain (Some raw) of
          None \<Rightarrow> Inl (BadRequestException ''Unsupported chain id'')
        | Some n \<Rightarrow>
            if isChainConfigured config n then Inr n
            else Inl (BadRequestException ''Chain is not configured'')))"

definition contract_address :: "config \<Rightarrow> string \<Rightarrow> string \<Rightarrow> nat \<Rightarrow> string result" where
  "contract_address config suffix message chainId =
     (case map_option js_lower (trim_or_null (config (chain_key chainId suffix))) of
        None \<Rightarrow> Inl (BadRequestException message)
      | Some a \<Rightarrow> if is_hex_word_ci 40 a then Inr a else Inl (BadRequestException message))"

definition getRwaAddress :: "config \<Rightarrow> nat \<Rightarrow> string result" where
  "getRwaAddress config chainId =
     contract_address config ''_RWA_ADDRESS'' ''RWA contract not configured for chain'' chainId"

definition getUsdcAddress :: "config \<Rightarrow> nat \<Rightarrow> string result" where
  "getUsdcAddress config chainId =
     contract_address config ''_USDC_ADDRESS'' ''USDC contract not configured for chain'' chainId"

definition resolveChainIdFromRwaAddress :: "config \<Rightarrow> string option \<Rightarrow> nat option" where
  "resolveChainIdFromRwaAddress config tokenContract =
     (let addr = js_lower (js_trim (or_empty tokenContract)) in
      if \<not> is_hex_word_ci 40 addr then None
      else List.find (\<lambda>i. getRwaAddress config i = Inr addr) (listConfiguredChainIds config))"

section \<open>Facts\<close>

lemma supported_chain_Some: "supported_chain s = Some n \<Longrightarrow> n \<in> set SUPPORTED_CHAIN_IDS"
  by (auto simp: supported_chain_def find_Some_iff split: option.splits)

lemma getDefaultChainId_supported: "getDefaultChainId cfg \<in> set SUPPORTED_CHAIN_IDS"
  by (auto simp: getDefaultChainId_def SUPPORTED_CHAIN_IDS_def
      split: option.split dest: supported_chain_Some)

lemma resolveChainId_supported: "resolveChainId cfg h \<in> set SUPPORTED_CHAIN_IDS"
  by (auto simp: resolveChainId_def getDefaultChainId_supported
      split: option.split dest: supported_chain_Some)

lemma getRwaAddress_form: "getRwaAddress cfg i = Inr a \<Longrightarrow> is_hex_word_ci 40 a \<and> js_lower a = a"
  by (auto simp: getRwaAddress_def contract_address_def split: option.splits if_splits)

lemma find_unique: "List.find p xs = Some x \<Longrightarrow> x \<in> set xs \<and> p x"
  by (auto simp: find_Some_iff)

lemma resolve_is_configured:
  "resolveChainIdFromRwaAddress cfg (Some a) = Some i \<Longrightarrow>
   i \<in> set (listConfiguredChainIds cfg) \<and> getRwaAddress cfg i = Inr (js_lower (js_trim a))"
  by (auto simp: resolveChainIdFromRwaAddress_def Let_def or_empty_def
      split: if_splits dest: find_unique)

lemma requireChainId_configured:
  "requireChainId cfg h = Inr n \<Longrightarrow> isChainConfigured cfg n \<and> n \<in> set SUPPORTED_CHAIN_IDS"
  by (auto simp: requireChainId_def split: option.splits if_splits dest: supported_chain_Some)

end
