(* ===== verification/OwnerIndex.thy ===== *)
theory OwnerIndex
  imports VaultQueries ChainConfig
begin

text \<open>
  The writers of the owner index (blockchain/rwa-token-owner-index.service.ts): the order book
  records the buyer after a settlement, the Transfer poll records transfers and burns. They
  move owner_wallet only; a row that is missing is inserted as a stub without certificate,
  cycle or settlement policy. Reading the chain's logs is left out.
\<close>

definition normalizeWallet :: "string \<Rightarrow> string" where
  "normalizeWallet address = js_lower (js_trim address)"

definition stub_token :: "string \<Rightarrow> string \<Rightarrow> rwa_token" where
  "stub_token contract tid = \<lparr>rt_tokenContract = contract, rt_tokenId = tid, rt_certNumber = None,
     rt_tokenUri = None, rt_metadataCid = None, rt_displayName = None, rt_displayImageUrl = None,
     rt_displayImageBackUrl = None, rt_collectionKey = None, rt_metadataSyncedAt = None,
     rt_vaultCycleId = None, rt_vaultRef = None, rt_burnedAt = None, rt_burnTxHash = None,
     rt_mintTxHash = None, rt_settlementPolicy = None, rt_vaultPartnerId = None,
     rt_ownerWallet = None\<rparr>"

definition put_owner :: "string \<Rightarrow> string \<Rightarrow> string \<Rightarrow> vault_db \<Rightarrow> vault_db" where
  "put_owner contract tid wallet db =
     (let base = (case find_token (contract, tid) db of Some t \<Rightarrow> t | None \<Rightarrow> stub_token contract tid)
      in save_token (base\<lparr>rt_ownerWallet := Some wallet\<rparr>) db)"

definition recordOwner :: "string \<Rightarrow> string \<Rightarrow> string \<Rightarrow> vault_db \<Rightarrow> vault_db" where
  "recordOwner tokenContract tokenId owner db =
     (let contract = normalizeWallet tokenContract; tid = js_trim tokenId;
          wallet = normalizeWallet owner in
      if tid = [] \<or> \<not> is_hex_word_ci 40 wallet then db
      else put_owner contract tid wallet db)"

definition recordBurn :: "int \<Rightarrow> string \<Rightarrow> string \<Rightarrow> vault_db \<Rightarrow> vault_db" where
  "recordBurn now tokenContract tokenId db =
     (let contract = normalizeWallet tokenContract; tid = js_trim tokenId in
      if tid = [] then db
      else case find_token (contract, tid) db of
        None \<Rightarrow> db
      | Some t \<Rightarrow> save_token (t\<lparr>rt_ownerWallet := None,
                               rt_burnedAt := or_else (rt_burnedAt t) (Some now)\<rparr>) db)"

definition ZERO_ADDRESS :: string where
  "ZERO_ADDRESS = ''0x0000000000000000000000000000000000000000''"

definition recordTransfer :: "int \<Rightarrow> string \<Rightarrow> string \<Rightarrow> string \<Rightarrow> vault_db \<Rightarrow> vault_db" where
  "recordTransfer now tokenContract tokenId to db =
     (let recipient = normalizeWallet to in
      if recipient = ZERO_ADDRESS then recordBurn now tokenContract tokenId db
      else recordOwner tokenContract tokenId recipient db)"

text \<open>persistOwnerMap writes the rows of a full ownerOf scan; ids are positive integers.\<close>

definition persistOwnerMap :: "string \<Rightarrow> (nat \<times> string) list \<Rightarrow> vault_db \<Rightarrow> vault_db" where
  "persistOwnerMap tokenContract owners db =
     fold (\<lambda>(i, owner). put_owner (normalizeWallet tokenContract) (nat_str i) (normalizeWallet owner))
       (filter (\<lambda>(i, owner). 0 < i \<and> is_hex_word_ci 40 owner) owners) db"

section \<open>The index never invents custody\<close>

lemma stub_token_key [simp]: "rt_key (stub_token c i) = (c, i)"
  by (simp add: stub_token_def rt_key_def)

lemma put_owner_token:
  "find_token k (put_owner c i w db) =
     (if k = (c, i)
      then Some ((case find_token k db of Some t \<Rightarrow> t | None \<Rightarrow> stub_token c i)\<lparr>rt_ownerWallet := Some w\<rparr>)
      else find_token k db)"
  by (auto simp: put_owner_def Let_def token_repo.look_put rt_key_def stub_token_def
      split: option.splits dest: find_token_Some)

lemma put_owner_policy [simp]: "stored_policy k (put_owner c i w db) = stored_policy k db"
  by (auto simp: stored_policy_def put_owner_token stub_token_def split: option.splits)

lemma recordOwner_policy [simp]: "stored_policy k (recordOwner c i w db) = stored_policy k db"
  by (simp add: recordOwner_def Let_def)

lemma recordBurn_policy [simp]: "stored_policy k (recordBurn now c i db) = stored_policy k db"
proof (cases "find_token (normalizeWallet c, js_trim i) db")
  case (Some t)
  then have "rt_key t = (normalizeWallet c, js_trim i)" using find_token_Some by blast
  with Some show ?thesis
    by (auto simp: recordBurn_def Let_def stored_policy_def token_repo.look_put rt_key_def)
qed (simp add: recordBurn_def Let_def)

lemma recordTransfer_policy: "stored_policy k (recordTransfer now c i w db) = stored_policy k db"
  by (simp add: recordTransfer_def Let_def)

lemma persistOwnerMap_policy: "stored_policy k (persistOwnerMap c os db) = stored_policy k db"
proof -
  have "stored_policy k (fold (\<lambda>(i, owner). put_owner (normalizeWallet c) (nat_str i) (normalizeWallet owner))
      xs db) = stored_policy k db" for xs
    by (induction xs arbitrary: db) auto
  then show ?thesis by (simp add: persistOwnerMap_def)
qed

lemma put_owner_wf:
  assumes wf: "vault_wf db"
  shows "vault_wf (put_owner c i w db)"
proof (cases "find_token (c, i) db")
  case (Some t)
  then have "vault_wf (save_token (t\<lparr>rt_ownerWallet := Some w\<rparr>) db)"
    using find_token_Some [OF Some]
    by (intro save_token_update_wf [OF wf, of _ t]) (auto simp: rt_key_def)
  then show ?thesis by (simp add: put_owner_def Some)
next
  case None
  let ?t = "(stub_token c i)\<lparr>rt_ownerWallet := Some w\<rparr>"
  have t: "rt_vaultCycleId ?t = None" "rt_certNumber ?t = None" by (simp_all add: stub_token_def)
  have uq: "uq_tokens_vault_cycle (vd_tokens db)" "uq_tokens_contract_cert_active (vd_tokens db)"
    using wf by (simp_all add: vault_wf_def tokens_wf_def tokens_unique_def)
  have "tokens_unique (vd_tokens (save_token ?t db))"
    using uq t unfolding tokens_unique_def uq_tokens_vault_cycle_def
      uq_tokens_contract_cert_active_def save_tables
    by (intro conjI unique_index_closed) auto
  then have "vault_wf (save_token ?t db)" by (rule save_token_wf [OF wf]) (simp add: t)
  then show ?thesis by (simp add: put_owner_def None)
qed

lemma recordOwner_wf: "vault_wf db \<Longrightarrow> vault_wf (recordOwner c i w db)"
  by (simp add: recordOwner_def Let_def put_owner_wf)

lemma recordBurn_wf:
  assumes wf: "vault_wf db"
  shows "vault_wf (recordBurn now c i db)"
proof (cases "find_token (normalizeWallet c, js_trim i) db")
  case (Some t)
  then have "vault_wf (save_token (t\<lparr>rt_ownerWallet := None,
      rt_burnedAt := or_else (rt_burnedAt t) (Some now)\<rparr>) db)"
    using find_token_Some [OF Some]
    by (intro save_token_update_wf [OF wf, of _ t]) (auto simp: rt_key_def or_else_def split: option.splits)
  then show ?thesis using wf Some by (simp add: recordBurn_def Let_def)
qed (use wf in \<open>simp add: recordBurn_def Let_def\<close>)

lemma index_cycles [simp]:
  "vd_cycles (put_owner c i w db) = vd_cycles db"
  "vd_cycles (recordOwner c i w db) = vd_cycles db"
  "vd_cycles (recordBurn now c i db) = vd_cycles db"
  by (simp_all add: put_owner_def recordOwner_def recordBurn_def Let_def split: option.splits)

end
