(* ===== verification/SeaportOrder.thy ===== *)
theory SeaportOrder
  imports OwnerIndex
begin

text \<open>
  The order entity and what the sources derive from one (marketplace/entities/order.entity.ts,
  orders/dto/create-order.dto.ts, utils/platform-tape.util.ts, utils/order-list.util.ts,
  orders/seaport-order-hash.util.ts, orders/seaport-order-status.util.ts). The JSON column
  parameters is a record: the signed Seaport parameters and, in a record of its own, the keys
  with an underscore that the server adds after signing.
\<close>

section \<open>Orders\<close>

datatype order_status = ACTIVE | FULFILLED | CANCELLED | EXPIRED

datatype order_side = ASK | BID

record offer_item =
  oi_itemType :: int
  oi_token :: string
  oi_identifierOrCriteria :: string
  oi_startAmount :: string
  oi_endAmount :: string

record cons_item =
  ci_itemType :: int
  ci_token :: string
  ci_identifierOrCriteria :: string
  ci_startAmount :: string
  ci_endAmount :: string
  ci_recipient :: string

record server_keys =
  sk_settlementPolicy :: "string option"
  sk_tapeFillSide :: "string option"
  sk_filledByBuyer :: "string option"
  sk_settlementAmount :: "string option"
  sk_fillTxHash :: "string option"
  sk_matchedBidOrderHash :: "string option"
  sk_matchedAskOrderHash :: "string option"
  sk_unownedAsk :: bool
  sk_onChainOwner :: "string option"
  sk_unownedAskReason :: "string option"
  sk_unownedAskBy :: "string option"
  sk_unownedAskAt :: "int option"
  sk_deadBid :: bool
  sk_deadBidReason :: "string option"
  sk_deadBidBy :: "string option"
  sk_deadBidAt :: "int option"

definition no_server_keys :: server_keys where
  "no_server_keys = \<lparr>sk_settlementPolicy = None, sk_tapeFillSide = None, sk_filledByBuyer = None,
     sk_settlementAmount = None, sk_fillTxHash = None, sk_matchedBidOrderHash = None,
     sk_matchedAskOrderHash = None, sk_unownedAsk = False, sk_onChainOwner = None,
     sk_unownedAskReason = None, sk_unownedAskBy = None, sk_unownedAskAt = None, sk_deadBid = False,
     sk_deadBidReason = None, sk_deadBidBy = None, sk_deadBidAt = None\<rparr>"

record seaport_params =
  sp_offerer :: string
  sp_zone :: string
  sp_zoneHash :: string
  sp_startTime :: string
  sp_endTime :: string
  sp_orderType :: int
  sp_offer :: "offer_item list"
  sp_consideration :: "cons_item list"
  sp_totalOriginalConsiderationItems :: int
  sp_salt :: string
  sp_conduitKey :: string
  sp_counter :: string
  sp_server :: server_keys

record order =
  o_id :: nat
  o_orderHash :: string
  o_offerer :: string
  o_side :: order_side
  o_tokenContract :: string
  o_tokenId :: string
  o_collectionKey :: "string option"
  o_considerationToken :: string
  o_considerationAmount :: string
  o_parameters :: seaport_params
  o_signature :: string
  o_status :: order_status
  o_startTime :: int
  o_endTime :: int
  o_createdAt :: int
  o_updatedAt :: int

record create_order_dto =
  dto_side :: "order_side option"
  dto_parameters :: seaport_params
  dto_signature :: string
  dto_tokenContract :: string
  dto_tokenId :: string
  dto_considerationToken :: string
  dto_considerationAmount :: string
  dto_collectionKey :: "string option"

section \<open>Shapes of orders\<close>

definition offer0 :: "seaport_params \<Rightarrow> offer_item option" where
  "offer0 p = hd_opt (sp_offer p)"

definition cons0 :: "seaport_params \<Rightarrow> cons_item option" where
  "cons0 p = hd_opt (sp_consideration p)"

definition offer_type :: "seaport_params \<Rightarrow> int option" where
  "offer_type p = map_option oi_itemType (offer0 p)"

definition cons_type :: "seaport_params \<Rightarrow> int option" where
  "cons_type p = map_option ci_itemType (cons0 p)"

definition CRITERIA_TOKEN_SENTINEL :: string where
  "CRITERIA_TOKEN_SENTINEL = ''0''"

definition isBidShapedSeaportParameters :: "seaport_params \<Rightarrow> bool" where
  "isBidShapedSeaportParameters p = (offer_type p = Some 1 \<and> cons_type p = Some 4)"

definition isCriteriaCollectionBidOrder :: "order \<Rightarrow> bool" where
  "isCriteriaCollectionBidOrder ord =
     (if o_side ord \<noteq> BID then False else isBidShapedSeaportParameters (o_parameters ord))"

definition isTokenBidOrder :: "order \<Rightarrow> bool" where
  "isTokenBidOrder ord =
     (if o_side ord \<noteq> BID then False
      else offer_type (o_parameters ord) = Some 1 \<and> cons_type (o_parameters ord) = Some 2)"

definition resolveFulfilledAskTokenId :: "order \<Rightarrow> string option" where
  "resolveFulfilledAskTokenId ord =
     (if o_side ord \<noteq> ASK then None
      else let raw = js_trim (o_tokenId ord) in
      if isValidDecimalTokenId (Some raw) then Some raw
      else case offer0 (o_parameters ord) of
        None \<Rightarrow> None
      | Some item \<Rightarrow>
          if oi_itemType item \<noteq> 2 then None
          else let fromOffer = js_trim (oi_identifierOrCriteria item) in
            if isValidDecimalTokenId (Some fromOffer) then Some fromOffer else None)"

text \<open>backfillAskTokenIdFromParameters mutates the order and tells whether it did.\<close>

definition backfillAskTokenIdFromParameters :: "order \<Rightarrow> order \<times> bool" where
  "backfillAskTokenIdFromParameters ord =
     (if o_side ord \<noteq> ASK then (ord, False)
      else if isValidDecimalTokenId (Some (js_trim (o_tokenId ord))) then (ord, False)
      else case resolveFulfilledAskTokenId ord of
        None \<Rightarrow> (ord, False)
      | Some tid \<Rightarrow> (ord\<lparr>o_tokenId := tid\<rparr>, True))"

datatype dead_reason = underfunded | expired

definition isDeadTokenBidFunding :: "int \<Rightarrow> int \<Rightarrow> int \<Rightarrow> rat \<Rightarrow> rat \<Rightarrow> dead_reason option" where
  "isDeadTokenBidFunding balance allowance needed nowSec endTimeSec =
     (if 0 < endTimeSec \<and> endTimeSec \<le> nowSec then Some expired
      else if 0 < needed \<and> (balance < needed \<or> allowance < needed) then Some underfunded
      else None)"

text \<open>The tape shows a collection fill with a dash instead of a token id.\<close>

definition resolvePlatformTapeFill :: "order \<Rightarrow> rat option \<Rightarrow> (string \<times> rat) option" where
  "resolvePlatformTapeFill ord priceUsdc =
     (case priceUsdc of
        None \<Rightarrow> None
      | Some price \<Rightarrow>
          if price \<le> 0 then None
          else if o_side ord = BID \<or> isBidShapedSeaportParameters (o_parameters ord)
          then Some (''-'', price)
          else map_option (\<lambda>tokenId. (tokenId, price)) (resolveFulfilledAskTokenId ord))"

section \<open>List rows\<close>

record order_list_item =
  li_id :: nat
  li_orderHash :: string
  li_tokenId :: string
  li_collectionKey :: "string option"
  li_price :: string
  li_settlementPrice :: "string option"
  li_side :: order_side
  li_status :: order_status
  li_createdAt :: int
  li_endTime :: int
  li_updatedAt :: int
  li_offerer :: string
  li_filledByBuyer :: "string option"
  li_tapeFillSide :: "string option"
  li_fillTxHash :: "string option"
  li_matchedOrderHash :: "string option"
  li_sellerDisplayName :: "string option"
  li_tokenContract :: string
  li_considerationToken :: string
  li_settlementPolicy :: "settlement_policy option"
  li_vaultLabel :: "string option"
  li_considerationRecipients :: "string list"

fun distinct_recipients :: "string list \<Rightarrow> string list \<Rightarrow> string list" where
  "distinct_recipients seen [] = []"
| "distinct_recipients seen (c # cs) =
     (let r = js_trim c; k = js_lower r in
      if r = [] then distinct_recipients seen cs
      else if k \<in> set seen then distinct_recipients seen cs
      else r # distinct_recipients (k # seen) cs)"

definition considerationRecipientsFromParams :: "seaport_params \<Rightarrow> string list" where
  "considerationRecipientsFromParams p = distinct_recipients [] (map ci_recipient (sp_consideration p))"

definition orderToListItem :: "order \<Rightarrow> string option \<Rightarrow> order_list_item" where
  "orderToListItem ord sellerDisplayName =
     (let sk = sp_server (o_parameters ord) in
      \<lparr>li_id = o_id ord, li_orderHash = o_orderHash ord, li_tokenId = o_tokenId ord,
       li_collectionKey = o_collectionKey ord, li_price = o_considerationAmount ord,
       li_settlementPrice = trim_or_null (sk_settlementAmount sk),
       li_side = o_side ord, li_status = o_status ord, li_createdAt = o_createdAt ord,
       li_endTime = o_endTime ord, li_updatedAt = o_updatedAt ord, li_offerer = o_offerer ord,
       li_filledByBuyer = map_option js_lower (trim_or_null (sk_filledByBuyer sk)),
       li_tapeFillSide = (if sk_tapeFillSide sk = Some ''buy'' \<or> sk_tapeFillSide sk = Some ''sell''
                          then sk_tapeFillSide sk else None),
       li_fillTxHash = map_option js_lower (trim_or_null (sk_fillTxHash sk)),
       li_matchedOrderHash = or_else (trim_or_null (sk_matchedBidOrderHash sk))
                               (trim_or_null (sk_matchedAskOrderHash sk)),
       li_sellerDisplayName = sellerDisplayName, li_tokenContract = o_tokenContract ord,
       li_considerationToken = o_considerationToken ord, li_settlementPolicy = None,
       li_vaultLabel = None,
       li_considerationRecipients = considerationRecipientsFromParams (o_parameters ord)\<rparr>)"

section \<open>The hash of an order\<close>

record offer_component =
  oc_itemType :: int
  oc_token :: string
  oc_identifierOrCriteria :: int
  oc_startAmount :: int
  oc_endAmount :: int

record cons_component =
  cc_itemType :: int
  cc_token :: string
  cc_identifierOrCriteria :: int
  cc_startAmount :: int
  cc_endAmount :: int
  cc_recipient :: string

record order_components =
  cp_offerer :: string
  cp_zone :: string
  cp_offer :: "offer_component list"
  cp_consideration :: "cons_component list"
  cp_orderType :: int
  cp_startTime :: int
  cp_endTime :: int
  cp_zoneHash :: string
  cp_salt :: int
  cp_conduitKey :: string
  cp_counter :: int

text \<open>bigIntish throws on text that is not a numeral; getAddress of ethers is a parameter.\<close>

definition bigIntish :: "string \<Rightarrow> int option" where
  "bigIntish v = (let s = js_trim v in if s = [] then Some 0 else js_BigInt s)"

definition ethAddress :: "(string \<Rightarrow> string option) \<Rightarrow> string \<Rightarrow> string option" where
  "ethAddress getAddress v = (let s = js_trim v in
     if s = [] then getAddress ZERO_ADDRESS else getAddress s)"

definition ZERO_BYTES32 :: string where
  "ZERO_BYTES32 = ''0x0000000000000000000000000000000000000000000000000000000000000000''"

definition bytes32 :: "string \<Rightarrow> string" where
  "bytes32 v = (let s = js_trim v in
     if s = [] \<or> \<not> is_hex_word_ci 64 s then ZERO_BYTES32 else s)"

definition seaportHashableParameters :: "seaport_params \<Rightarrow> seaport_params" where
  "seaportHashableParameters p = p\<lparr>sp_server := no_server_keys\<rparr>"

definition offer_component_of :: "(string \<Rightarrow> string option) \<Rightarrow> offer_item \<Rightarrow> offer_component option" where
  "offer_component_of ga it =
     Option.bind (ethAddress ga (oi_token it)) (\<lambda>t.
     Option.bind (bigIntish (oi_identifierOrCriteria it)) (\<lambda>i.
     Option.bind (bigIntish (oi_startAmount it)) (\<lambda>s.
     Option.bind (bigIntish (oi_endAmount it)) (\<lambda>e.
     Some \<lparr>oc_itemType = oi_itemType it, oc_token = t, oc_identifierOrCriteria = i,
           oc_startAmount = s, oc_endAmount = e\<rparr>))))"

definition cons_component_of :: "(string \<Rightarrow> string option) \<Rightarrow> cons_item \<Rightarrow> cons_component option" where
  "cons_component_of ga it =
     Option.bind (ethAddress ga (ci_token it)) (\<lambda>t.
     Option.bind (bigIntish (ci_identifierOrCriteria it)) (\<lambda>i.
     Option.bind (bigIntish (ci_startAmount it)) (\<lambda>s.
     Option.bind (bigIntish (ci_endAmount it)) (\<lambda>e.
     Option.bind (ethAddress ga (ci_recipient it)) (\<lambda>r.
     Some \<lparr>cc_itemType = ci_itemType it, cc_token = t, cc_identifierOrCriteria = i,
           cc_startAmount = s, cc_endAmount = e, cc_recipient = r\<rparr>)))))"

fun map_opt :: "('a \<Rightarrow> 'b option) \<Rightarrow> 'a list \<Rightarrow> 'b list option" where
  "map_opt f [] = Some []"
| "map_opt f (x # xs) = Option.bind (f x) (\<lambda>y. map_option ((#) y) (map_opt f xs))"

definition buildSeaportOrderComponents ::
  "(string \<Rightarrow> string option) \<Rightarrow> seaport_params \<Rightarrow> order_components option" where
  "buildSeaportOrderComponents ga p =
     Option.bind (ethAddress ga (sp_offerer p)) (\<lambda>offerer.
     Option.bind (ethAddress ga (sp_zone p)) (\<lambda>zone.
     Option.bind (map_opt (offer_component_of ga) (sp_offer p)) (\<lambda>offer.
     Option.bind (map_opt (cons_component_of ga) (sp_consideration p)) (\<lambda>consideration.
     Option.bind (bigIntish (sp_startTime p)) (\<lambda>startTime.
     Option.bind (bigIntish (sp_endTime p)) (\<lambda>endTime.
     Option.bind (bigIntish (sp_salt p)) (\<lambda>salt.
     Option.bind (bigIntish (sp_counter p)) (\<lambda>counter.
     Some \<lparr>cp_offerer = offerer, cp_zone = zone, cp_offer = offer,
           cp_consideration = consideration, cp_orderType = sp_orderType p,
           cp_startTime = startTime, cp_endTime = endTime, cp_zoneHash = bytes32 (sp_zoneHash p),
           cp_salt = salt, cp_conduitKey = bytes32 (sp_conduitKey p), cp_counter = counter\<rparr>))))))))"

section \<open>The chain as the server sees it\<close>

text \<open>
  What the server reads from the chain during one request, as functions: the answers of the
  ERC-721, ERC-20 and Seaport contracts and the timestamp of the latest block (the node may
  answer that there is none); None and rpc_error stand for a call that fails. getAddress is the checksum function of ethers.
\<close>

record seaport_fill_status =
  fs_isValidated :: bool
  fs_isCancelled :: bool
  fs_totalFilled :: int
  fs_totalSize :: int

datatype owner_answer = owner_is string | no_such_token | rpc_error

record chain_env =
  ce_getAddress :: "string \<Rightarrow> string option"
  ce_getOrderHash :: "order_components \<Rightarrow> string option"
  ce_getOrderStatus :: "string \<Rightarrow> seaport_fill_status option"
  ce_ownerOf :: "string \<Rightarrow> rat \<Rightarrow> owner_answer"
  ce_balanceOf :: "string \<Rightarrow> int option"
  ce_allowance :: "string \<Rightarrow> int option"
  ce_blockTime :: "int option option"

definition seaportOrderHashFromParameters :: "chain_env \<Rightarrow> seaport_params \<Rightarrow> string option" where
  "seaportOrderHashFromParameters env p =
     Option.bind (buildSeaportOrderComponents (ce_getAddress env) (seaportHashableParameters p))
       (\<lambda>c. map_option js_lower (ce_getOrderHash env c))"

definition readSeaportOrderStatus :: "chain_env \<Rightarrow> string \<Rightarrow> seaport_fill_status option" where
  "readSeaportOrderStatus env h =
     ce_getOrderStatus env (if take 2 h = ''0x'' then h else ''0x'' @ h)"

definition seaportOrderIsFullyFilled :: "seaport_fill_status \<Rightarrow> bool" where
  "seaportOrderIsFullyFilled s =
     (if fs_isCancelled s then False
      else if fs_totalSize s = 0 then False
      else fs_totalSize s \<le> fs_totalFilled s)"

section \<open>The hash does not see the server's keys\<close>

lemma hashable_server [simp]:
  "seaportHashableParameters (p\<lparr>sp_server := sk\<rparr>) = seaportHashableParameters p"
  by (simp add: seaportHashableParameters_def)

lemma order_hash_server [simp]:
  "seaportOrderHashFromParameters env (p\<lparr>sp_server := sk\<rparr>) = seaportOrderHashFromParameters env p"
  by (simp add: seaportOrderHashFromParameters_def)

lemma resolve_backfilled:
  "resolveFulfilledAskTokenId (fst (backfillAskTokenIdFromParameters ord)) = resolveFulfilledAskTokenId ord"
  by (auto simp: backfillAskTokenIdFromParameters_def resolveFulfilledAskTokenId_def
      isValidDecimalTokenId_def or_empty_def Let_def split: option.splits)

lemma resolve_decimal:
  "resolveFulfilledAskTokenId ord = Some t \<Longrightarrow> is_decimal t \<and> js_trim t = t"
  by (auto simp: resolveFulfilledAskTokenId_def isValidDecimalTokenId_def or_empty_def Let_def
      split: if_splits option.splits)

lemma backfill_simps [simp]:
  "o_status (fst (backfillAskTokenIdFromParameters ord)) = o_status ord"
  "o_id (fst (backfillAskTokenIdFromParameters ord)) = o_id ord"
  "o_side (fst (backfillAskTokenIdFromParameters ord)) = o_side ord"
  "o_orderHash (fst (backfillAskTokenIdFromParameters ord)) = o_orderHash ord"
  "o_offerer (fst (backfillAskTokenIdFromParameters ord)) = o_offerer ord"
  "o_tokenContract (fst (backfillAskTokenIdFromParameters ord)) = o_tokenContract ord"
  "o_parameters (fst (backfillAskTokenIdFromParameters ord)) = o_parameters ord"
  by (simp_all add: backfillAskTokenIdFromParameters_def split: option.splits)

lemma dead_funding_iff:
  "isDeadTokenBidFunding bal alw needed now e = None \<longleftrightarrow>
     (e \<le> 0 \<or> now < e) \<and> (needed \<le> 0 \<or> needed \<le> bal \<and> needed \<le> alw)"
  by (auto simp: isDeadTokenBidFunding_def)

lemma fully_filled_iff:
  "seaportOrderIsFullyFilled s \<longleftrightarrow> \<not> fs_isCancelled s \<and> fs_totalSize s \<noteq> 0 \<and> fs_totalSize s \<le> fs_totalFilled s"
  by (simp add: seaportOrderIsFullyFilled_def)

end
