(* ===== verification/Machine.thy ===== *)
theory Machine
  imports Prelude
begin

text \<open>
  The contract of a component whose operations interleave: a step relation on its state, an
  invariant every step keeps, and an order the steps follow. The vault, the settlement ledger
  and the order book interpret these locales on their own step relations.

  The rows of their tables have a status. The abstract specification of such a table is a map
  from keys to statuses that changes by life_step: a row appears with an initial status, and
  its status moves along an edge of a graph. The locale status_refinement is the contract that
  a component implements such a specification.
\<close>

locale invariant_machine =
  fixes step :: "'s \<Rightarrow> 's \<Rightarrow> bool" and inv :: "'s \<Rightarrow> bool"
  assumes step_inv: "inv s \<Longrightarrow> step s t \<Longrightarrow> inv t"
begin

lemma steps_inv: "inv s \<Longrightarrow> step\<^sup>*\<^sup>* s t \<Longrightarrow> inv t"
  by (rotate_tac, induction rule: rtranclp_induct) (auto intro: step_inv)

end

locale monotone_machine = invariant_machine +
  fixes adv :: "'a \<Rightarrow> 'a \<Rightarrow> bool"
  assumes adv_refl: "adv s s" and adv_trans: "adv s t \<Longrightarrow> adv t u \<Longrightarrow> adv s u"
    and step_adv: "inv s \<Longrightarrow> step s t \<Longrightarrow> adv s t"
begin

lemma steps_adv: "inv s \<Longrightarrow> step\<^sup>*\<^sup>* s t \<Longrightarrow> adv s t"
proof (rotate_tac, induction rule: rtranclp_induct)
  case base
  then show ?case by (simp add: adv_refl)
next
  case (step t u)
  have "inv t" using steps_inv step by blast
  with step show ?case using step_adv adv_trans by blast
qed

end

section \<open>Status graphs\<close>

inductive life_step :: "('s \<Rightarrow> bool) \<Rightarrow> ('s \<Rightarrow> 's \<Rightarrow> bool) \<Rightarrow> ('k \<Rightarrow> 's option) \<Rightarrow> ('k \<Rightarrow> 's option) \<Rightarrow> bool"
  for initial edge where
  appear: "f i = None \<Longrightarrow> initial s \<Longrightarrow> life_step initial edge f (f(i \<mapsto> s))"
| move: "f i = Some s \<Longrightarrow> edge s t \<Longrightarrow> life_step initial edge f (f(i \<mapsto> t))"

inductive_cases life_stepE: "life_step initial edge f g"

lemma life_same: "f i = Some s \<Longrightarrow> s = t \<or> edge s t \<Longrightarrow> (life_step initial edge)\<^sup>*\<^sup>* f (f(i \<mapsto> t))"
  by (auto simp: fun_upd_idem intro: r_into_rtranclp life_step.move)

text \<open>Any number of rows that move at once is a sequence of steps.\<close>

lemma life_moves_on:
  "finite A \<Longrightarrow> \<forall>i \<in> A. \<exists>s t. f i = Some s \<and> g i = Some t \<and> (s = t \<or> edge s t) \<Longrightarrow>
   \<forall>i. i \<notin> A \<longrightarrow> g i = f i \<Longrightarrow> (life_step initial edge)\<^sup>*\<^sup>* f g"
proof (induction A arbitrary: g rule: finite_induct)
  case empty
  then have "g = f" by auto
  then show ?case by simp
next
  case (insert a A)
  let ?h = "g(a := f a)"
  from insert.prems(1) obtain s t where st: "f a = Some s" "g a = Some t" "s = t \<or> edge s t" by auto
  have "(life_step initial edge)\<^sup>*\<^sup>* f ?h"
    using insert.prems insert.hyps(2) by (intro insert.IH) auto
  moreover have "(life_step initial edge)\<^sup>*\<^sup>* ?h (?h(a \<mapsto> t))"
    using st by (intro life_same) auto
  moreover have "?h(a \<mapsto> t) = g" using st(2) by auto
  ultimately show ?case by (metis rtranclp_trans)
qed

lemma life_moves:
  assumes "finite (dom f)" "\<And>i. (\<exists>s t. f i = Some s \<and> g i = Some t \<and> (s = t \<or> edge s t)) \<or> f i = None \<and> g i = None"
  shows "(life_step initial edge)\<^sup>*\<^sup>* f g"
proof (rule life_moves_on [OF assms(1)])
  show "\<forall>i \<in> dom f. \<exists>s t. f i = Some s \<and> g i = Some t \<and> (s = t \<or> edge s t)"
    using assms(2) by fastforce
  show "\<forall>i. i \<notin> dom f \<longrightarrow> g i = f i" using assms(2) by (metis domI)
qed

lemma life_path:
  "(life_step initial edge)\<^sup>*\<^sup>* f g \<Longrightarrow> f i = Some s \<Longrightarrow> \<exists>t. g i = Some t \<and> edge\<^sup>*\<^sup>* s t"
proof (induction rule: rtranclp_induct)
  case (step g h)
  then obtain t where t: "g i = Some t" "edge\<^sup>*\<^sup>* s t" by blast
  from step.hyps(2) t show ?case
    by (elim life_stepE) (auto split: if_splits intro: rtranclp.rtrancl_into_rtrancl)
qed auto

lemma life_origin:
  "(life_step initial edge)\<^sup>*\<^sup>* f g \<Longrightarrow> f i = None \<Longrightarrow> g i = Some t \<Longrightarrow> \<exists>s. initial s \<and> edge\<^sup>*\<^sup>* s t"
proof (induction arbitrary: t rule: rtranclp_induct)
  case (step g h)
  show ?case
  proof (cases "g i")
    case None
    with step.hyps(2) step.prems show ?thesis
      by (elim life_stepE) (auto split: if_splits)
  next
    case (Some u)
    then obtain s where s: "initial s" "edge\<^sup>*\<^sup>* s u" using step.IH step.prems(1) by blast
    have "edge\<^sup>*\<^sup>* u t"
      using step.hyps(2) step.prems(2) Some
      by (elim life_stepE) (auto split: if_splits)
    with s show ?thesis by (meson rtranclp_trans)
  qed
qed simp

locale status_refinement = invariant_machine step inv
  for step :: "'a \<Rightarrow> 'a \<Rightarrow> bool" and inv :: "'a \<Rightarrow> bool" +
  fixes abs :: "'a \<Rightarrow> 'k \<Rightarrow> 's option" and initial :: "'s \<Rightarrow> bool" and edge :: "'s \<Rightarrow> 's \<Rightarrow> bool"
  assumes refines: "inv s \<Longrightarrow> step s t \<Longrightarrow> (life_step initial edge)\<^sup>*\<^sup>* (abs s) (abs t)"
begin

lemma refines_steps: "inv s \<Longrightarrow> step\<^sup>*\<^sup>* s t \<Longrightarrow> (life_step initial edge)\<^sup>*\<^sup>* (abs s) (abs t)"
proof (rotate_tac, induction rule: rtranclp_induct)
  case (step t u)
  then show ?case using steps_inv refines by (meson rtranclp_trans)
qed simp

lemma row_path: "inv s \<Longrightarrow> step\<^sup>*\<^sup>* s t \<Longrightarrow> abs s i = Some x \<Longrightarrow> \<exists>y. abs t i = Some y \<and> edge\<^sup>*\<^sup>* x y"
  using refines_steps life_path by metis

lemma row_origin:
  "inv s \<Longrightarrow> step\<^sup>*\<^sup>* s t \<Longrightarrow> abs s i = None \<Longrightarrow> abs t i = Some y \<Longrightarrow> \<exists>x. initial x \<and> edge\<^sup>*\<^sup>* x y"
  using refines_steps life_origin by metis

lemma closed_stays:
  assumes "inv s" "step\<^sup>*\<^sup>* s t" "abs s i = Some x" "\<And>y. \<not> edge x y"
  shows "abs t i = Some x"
proof -
  obtain y where "abs t i = Some y" "edge\<^sup>*\<^sup>* x y" using row_path [OF assms(1-3)] by blast
  moreover have "edge\<^sup>*\<^sup>* x y \<Longrightarrow> y = x" by (erule converse_rtranclpE) (use assms(4) in auto)
  ultimately show ?thesis by blast
qed

end

end
