(* ===== verification/Settlement.thy ===== *)
theory Settlement
  imports SeaportOrder Machine
begin

text \<open>
  The ledger of self-vault settlements (marketplace/settlement/self-vault-settlement.service.ts,
  marketplace/entities/self-vault-settlement.entity.ts) and the fee wallet that pays sellers
  (blockchain/platform-fee-wallet.service.ts).

  An operation with one write at its end returns a result whose Inr carries the new ledger;
  executePayout writes before it sends, so it returns the ledger beside its result. The field
  lg_sent is not a table: it records the transfers that reached the chain, by settlement, so
  that the lemmas can speak of what was paid.
\<close>

section \<open>The table\<close>

datatype settlement_status = pending_confirm | confirmed | paid | rejected

record settlement =
  se_id :: nat
  se_orderHash :: string
  se_tokenContract :: string
  se_tokenId :: string
  se_sellerWallet :: string
  se_buyerWallet :: string
  se_grossUsdc :: string
  se_sellerPayoutUsdc :: string
  se_chainId :: nat
  se_status :: settlement_status
  se_fulfillTxHash :: "string option"
  se_payoutTxHash :: "string option"
  se_confirmedAt :: "int option"
  se_paidAt :: "int option"
  se_createdAt :: int

record ledger =
  lg_rows :: "settlement list"
  lg_next :: nat
  lg_sent :: "(nat \<times> string \<times> int) list"

definition find_settlement :: "nat \<Rightarrow> ledger \<Rightarrow> settlement option" where
  "find_settlement i lg = find_key se_id i (lg_rows lg)"

definition save_settlement :: "settlement \<Rightarrow> ledger \<Rightarrow> ledger" where
  "save_settlement s lg = lg\<lparr>lg_rows := upsert se_id s (lg_rows lg)\<rparr>"

interpretation settlement_repo: repository se_id find_settlement save_settlement
  by unfold_locales (auto simp: find_settlement_def save_settlement_def table_simps dest: find_key_Some)

section \<open>Amounts\<close>

definition SELF_VAULT_AUTO_PAYOUT_DELAY_SECONDS_DEFAULT :: nat where
  "SELF_VAULT_AUTO_PAYOUT_DELAY_SECONDS_DEFAULT = 300"

definition autoPayoutDelaySeconds :: "config \<Rightarrow> int" where
  "autoPayoutDelaySeconds config =
     (case js_Number (case config ''SELF_VAULT_AUTO_PAYOUT_DELAY_SECONDS'' of
          None \<Rightarrow> nat_str SELF_VAULT_AUTO_PAYOUT_DELAY_SECONDS_DEFAULT | Some s \<Rightarrow> s) of
        None \<Rightarrow> int SELF_VAULT_AUTO_PAYOUT_DELAY_SECONDS_DEFAULT
      | Some raw \<Rightarrow> if raw < 0 then int SELF_VAULT_AUTO_PAYOUT_DELAY_SECONDS_DEFAULT else \<lfloor>raw\<rfloor>)"

text \<open>The arithmetic of computeSellerPayoutMicros: what the seller and the platform get.\<close>

definition seller_split :: "config \<Rightarrow> int \<Rightarrow> int \<times> int" where
  "seller_split config gross =
     (let fee = bigint_div (gross * readSelfVaultPlatformFeeBps config) 10000 in (gross - fee, fee))"

definition computeSellerPayoutMicros :: "config \<Rightarrow> string \<Rightarrow> string result" where
  "computeSellerPayoutMicros config grossMicros = (case js_BigInt grossMicros of
      None \<Rightarrow> Inl (OtherError ''SyntaxError'')
    | Some gross \<Rightarrow> Inr (int_str (fst (seller_split config gross))))"

definition isFullPlatformTakeAsk :: "config \<Rightarrow> seaport_params \<Rightarrow> bool" where
  "isFullPlatformTakeAsk config p =
     (let feeRecipient = js_lower (js_trim (or_empty (config ''PLATFORM_FEE_RECIPIENT''))) in
      if feeRecipient = [] then False
      else case sp_consideration p of
        [only] \<Rightarrow> if ci_itemType only \<noteq> 1 then False
                  else js_lower (js_trim (ci_recipient only)) = feeRecipient
      | _ \<Rightarrow> False)"

definition positive_decimal :: "string \<Rightarrow> bool" where
  "positive_decimal s = (is_decimal s \<and> (case js_BigInt s of None \<Rightarrow> False | Some n \<Rightarrow> 0 < n))"

definition resolveGrossMicros :: "order \<Rightarrow> string" where
  "resolveGrossMicros ask =
     (let fromTape = js_trim (or_empty (sk_settlementAmount (sp_server (o_parameters ask))));
          fromRow = js_trim (o_considerationAmount ask);
          fromCons = js_trim (or_empty (map_option ci_startAmount (cons0 (o_parameters ask)))) in
      if positive_decimal fromTape then fromTape
      else if positive_decimal fromRow then fromRow
      else if positive_decimal fromCons then fromCons else ''0'')"

section \<open>Creating and confirming\<close>

definition new_settlement ::
  "nat \<Rightarrow> int \<Rightarrow> order \<Rightarrow> string \<Rightarrow> string \<Rightarrow> nat \<Rightarrow> string option \<Rightarrow> settlement" where
  "new_settlement i now ask buyer payout chainId fulfillTxHash =
     \<lparr>se_id = i, se_orderHash = js_trim (o_orderHash ask),
      se_tokenContract = js_lower (o_tokenContract ask), se_tokenId = js_trim (o_tokenId ask),
      se_sellerWallet = js_lower (o_offerer ask), se_buyerWallet = buyer,
      se_grossUsdc = resolveGrossMicros ask, se_sellerPayoutUsdc = payout, se_chainId = chainId,
      se_status = pending_confirm, se_fulfillTxHash = trim_or_null fulfillTxHash,
      se_payoutTxHash = None, se_confirmedAt = None, se_paidAt = None, se_createdAt = now\<rparr>"

definition createFromFulfilledAsk ::
  "config \<Rightarrow> int \<Rightarrow> order \<Rightarrow> string \<Rightarrow> nat \<Rightarrow> string option \<Rightarrow> ledger \<Rightarrow>
   (settlement option \<times> ledger) result" where
  "createFromFulfilledAsk config now ask buyerWallet chainId fulfillTxHash lg =
     (let orderHash = js_trim (o_orderHash ask) in
      if orderHash = [] then Inr (None, lg)
      else case find_row (\<lambda>s. se_orderHash s = orderHash) (lg_rows lg) of
        Some existing \<Rightarrow> Inr (Some existing, lg)
      | None \<Rightarrow>
          let buyer = js_lower (js_trim buyerWallet) in
          if \<not> is_hex_word 40 buyer then Inr (None, lg)
          else let gross = resolveGrossMicros ask in
          if \<not> positive_decimal gross then Inr (None, lg)
          else on_ok (computeSellerPayoutMicros config gross) (\<lambda>payout.
            let row = new_settlement (lg_next lg) now ask buyer payout chainId fulfillTxHash
            in Inr (Some row, save_settlement row (lg\<lparr>lg_next := lg_next lg + 1\<rparr>))))"

definition listForWallet :: "string \<Rightarrow> ledger \<Rightarrow> settlement list" where
  "listForWallet wallet lg = (let w = js_lower (js_trim wallet) in
     take 100 (order_desc se_createdAt
       (filter (\<lambda>s. se_sellerWallet s = w \<or> se_buyerWallet s = w) (lg_rows lg))))"

text \<open>The status filter: one status, open (Some None), or none at all.\<close>

definition listByStatus :: "settlement_status option option \<Rightarrow> nat option \<Rightarrow> ledger \<Rightarrow> settlement list" where
  "listByStatus status chainId lg = take 200 (order_desc se_createdAt
     (filter (\<lambda>s. (chainId = None \<or> chainId = Some (se_chainId s))
        \<and> (case status of
             None \<Rightarrow> True
           | Some None \<Rightarrow> se_status s = pending_confirm \<or> se_status s = confirmed
           | Some (Some st) \<Rightarrow> se_status s = st)) (lg_rows lg)))"

definition confirmByBuyer :: "int \<Rightarrow> nat \<Rightarrow> string \<Rightarrow> ledger \<Rightarrow> (settlement \<times> ledger) result" where
  "confirmByBuyer now i buyerWallet lg = (case find_settlement i lg of
      None \<Rightarrow> Inl (NotFoundException ''Settlement not found'')
    | Some row \<Rightarrow>
        if se_buyerWallet row \<noteq> js_lower (js_trim buyerWallet)
        then Inl (ForbiddenException ''Only the buyer can confirm this settlement'')
        else if se_status row = paid \<or> se_status row = rejected
        then Inl (BadRequestException ''Settlement is already closed'')
        else if se_status row = confirmed then Inr (row, lg)
        else let row' = row\<lparr>se_status := confirmed, se_confirmedAt := Some now\<rparr>
             in Inr (row', save_settlement row' lg))"

definition adminConfirm :: "int \<Rightarrow> nat \<Rightarrow> ledger \<Rightarrow> (settlement \<times> ledger) result" where
  "adminConfirm now i lg = (case find_settlement i lg of
      None \<Rightarrow> Inl (NotFoundException ''Settlement not found'')
    | Some row \<Rightarrow>
        if se_status row = paid \<or> se_status row = rejected
        then Inl (BadRequestException ''Settlement is already closed'')
        else let row' = (if se_status row \<noteq> confirmed
                         then row\<lparr>se_status := confirmed, se_confirmedAt := Some now\<rparr> else row)
             in Inr (row', save_settlement row' lg))"

definition adminReject :: "nat \<Rightarrow> ledger \<Rightarrow> (settlement \<times> ledger) result" where
  "adminReject i lg = (case find_settlement i lg of
      None \<Rightarrow> Inl (NotFoundException ''Settlement not found'')
    | Some row \<Rightarrow>
        if se_status row = paid then Inl (BadRequestException ''Settlement is already paid'')
        else let row' = row\<lparr>se_status := rejected\<rparr> in Inr (row', save_settlement row' lg))"

definition recordPayout :: "int \<Rightarrow> nat \<Rightarrow> string \<Rightarrow> ledger \<Rightarrow> (settlement \<times> ledger) result" where
  "recordPayout now i payoutTxHash lg = (let tx = js_trim payoutTxHash in
     if \<not> is_hex_word_ci 64 tx
     then Inl (BadRequestException ''payoutTxHash must be a 0x-prefixed tx hash'')
     else case find_settlement i lg of
       None \<Rightarrow> Inl (NotFoundException ''Settlement not found'')
     | Some row \<Rightarrow>
         if se_status row = rejected then Inl (BadRequestException ''Settlement was rejected'')
         else if se_status row = pending_confirm
         then Inl (BadRequestException ''Settlement must be confirmed before payout'')
         else if se_status row = paid then Inr (row, lg)
         else let row' = row\<lparr>se_status := paid, se_payoutTxHash := Some tx, se_paidAt := Some now\<rparr>
              in Inr (row', save_settlement row' lg))"

section \<open>The fee wallet\<close>

text \<open>
  What happens to a transfer: it is never sent, it is mined, or it is broadcast and waiting for
  the receipt fails. signer is the address of the private key, balance the answer of balanceOf.
\<close>

datatype send_outcome = not_sent http_exception | mined string | receipt_lost http_exception

record fee_wallet =
  fw_signer :: string
  fw_balance :: int
  fw_outcome :: send_outcome

definition getConfiguredRecipient :: "config \<Rightarrow> string option" where
  "getConfiguredRecipient config =
     (let raw = js_lower (js_trim (or_empty (config ''PLATFORM_FEE_RECIPIENT''))) in
      if is_hex_word_ci 40 raw then Some raw else None)"

definition wallet_isConfigured :: "config \<Rightarrow> bool" where
  "wallet_isConfigured config =
     (trim_or_null (config ''PLATFORM_FEE_PRIVATE_KEY'') \<noteq> None \<and> getConfiguredRecipient config \<noteq> None)"

text \<open>The result of transferUsdc and the amount that left the wallet, if any.\<close>

definition transferUsdc ::
  "config \<Rightarrow> fee_wallet \<Rightarrow> string \<Rightarrow> string \<Rightarrow> nat \<Rightarrow> string result \<times> (string \<times> int) option" where
  "transferUsdc config fw toAddr amountMicros chainId =
     (let to = js_lower (js_trim toAddr) in
      if \<not> is_hex_word_ci 40 to then (Inl (BadRequestException ''Invalid payout recipient address''), None)
      else if \<not> positive_decimal amountMicros
      then (Inl (BadRequestException ''Invalid USDC payout amount''), None)
      else case getConfiguredRecipient config of
        None \<Rightarrow> (Inl (InternalServerErrorException ''PLATFORM_FEE_RECIPIENT is not configured''), None)
      | Some expected \<Rightarrow>
          if trim_or_null (config ''PLATFORM_FEE_PRIVATE_KEY'') = None
          then (Inl (InternalServerErrorException ''PLATFORM_FEE_PRIVATE_KEY is not configured''), None)
          else if js_lower (fw_signer fw) \<noteq> expected
          then (Inl (InternalServerErrorException ''PLATFORM_FEE_PRIVATE_KEY does not match''), None)
          else if to = js_lower (fw_signer fw) then (Inr (''skipped-self:'' @ js_lower (fw_signer fw)), None)
          else case getUsdcAddress config chainId of
            Inl e \<Rightarrow> (Inl e, None)
          | Inr usdc \<Rightarrow>
              let amount = the (js_BigInt amountMicros) in
              if fw_balance fw < amount
              then (Inl (BadRequestException ''Platform fee wallet USDC balance too low''), None)
              else case fw_outcome fw of
                not_sent e \<Rightarrow> (Inl e, None)
              | mined h \<Rightarrow> (Inr h, Some (to, amount))
              | receipt_lost e \<Rightarrow> (Inl e, Some (to, amount)))"

section \<open>Payout\<close>

text \<open>
  executePayout in two parts, because other requests run while the transfer is on its way: the
  part under the lock up to the transfer, which returns early, throws, or goes on with the
  row it holds; and the transfer with the save of that row.
\<close>

datatype payout_start = returns settlement | throws http_exception | sends settlement

definition payout_begin :: "config \<Rightarrow> int \<Rightarrow> nat \<Rightarrow> ledger \<Rightarrow> ledger \<times> payout_start" where
  "payout_begin config now i lg = (case find_settlement i lg of
      None \<Rightarrow> (lg, throws (NotFoundException ''Settlement not found''))
    | Some row \<Rightarrow>
        if se_status row = paid then (lg, returns row)
        else if se_status row = rejected
        then (lg, throws (BadRequestException ''Settlement was rejected''))
        else if se_status row \<noteq> pending_confirm \<and> se_status row \<noteq> confirmed
        then (lg, throws (BadRequestException ''Settlement cannot be paid''))
        else if \<not> wallet_isConfigured config
        then (lg, throws (BadRequestException ''PLATFORM_FEE_PRIVATE_KEY is not configured''))
        else if se_status row = pending_confirm
        then let row' = row\<lparr>se_status := confirmed, se_confirmedAt := Some now\<rparr>
             in (save_settlement row' lg, sends row')
        else (lg, sends row))"

definition payout_end ::
  "config \<Rightarrow> fee_wallet \<Rightarrow> int \<Rightarrow> settlement \<Rightarrow> ledger \<Rightarrow> ledger \<times> settlement result" where
  "payout_end config fw now row lg =
     (let (res, out) = transferUsdc config fw (se_sellerWallet row) (se_sellerPayoutUsdc row) (se_chainId row);
          lg1 = (case out of None \<Rightarrow> lg
            | Some (to, amount) \<Rightarrow> lg\<lparr>lg_sent := (se_id row, to, amount) # lg_sent lg\<rparr>)
      in case res of
        Inl e \<Rightarrow> (lg1, Inl e)
      | Inr h \<Rightarrow>
          let row' = row\<lparr>se_status := paid, se_payoutTxHash := Some h, se_paidAt := Some now\<rparr>
          in (save_settlement row' lg1, Inr row'))"

definition executePayout ::
  "config \<Rightarrow> fee_wallet \<Rightarrow> int \<Rightarrow> nat \<Rightarrow> ledger \<Rightarrow> ledger \<times> settlement result" where
  "executePayout config fw now i lg = (case payout_begin config now i lg of
      (lg1, returns row) \<Rightarrow> (lg1, Inr row)
    | (lg1, throws e) \<Rightarrow> (lg1, Inl e)
    | (lg1, sends row) \<Rightarrow> payout_end config fw now row lg1)"

text \<open>The settlements the cron pays, and the cron with the wallet of each payout.\<close>

definition due_settlements :: "config \<Rightarrow> int \<Rightarrow> ledger \<Rightarrow> settlement list" where
  "due_settlements config now lg = (let delayMs = autoPayoutDelaySeconds config * 1000 in
     take 20 (order_asc se_createdAt
       (filter (\<lambda>s. (se_status s = pending_confirm \<or> se_status s = confirmed)
                  \<and> se_createdAt s \<le> now - delayMs) (lg_rows lg))))"

definition autoPayoutCron :: "config \<Rightarrow> (nat \<Rightarrow> fee_wallet) \<Rightarrow> int \<Rightarrow> ledger \<Rightarrow> ledger" where
  "autoPayoutCron config fw now lg =
     (if config ''SELF_VAULT_AUTO_PAYOUT_CRON'' = Some ''0'' then lg
      else if \<not> wallet_isConfigured config then lg
      else fold (\<lambda>row lg. fst (executePayout config (fw (se_id row)) now (se_id row) lg))
             (due_settlements config now lg) lg)"

section \<open>Backfill\<close>

record holding =
  ph_walletAddress :: string
  ph_tokenContract :: string
  ph_tokenId :: int
  ph_marketplaceBuy :: bool
  ph_acquiredAt :: int
  ph_updatedAt :: int

definition backfill_buyer :: "holding list \<Rightarrow> order \<Rightarrow> string" where
  "backfill_buyer holdings ask =
     (let fromAsk = js_lower (js_trim (or_empty (sk_filledByBuyer (sp_server (o_parameters ask))))) in
      if is_hex_word 40 fromAsk then fromAsk
      else case js_Number (o_tokenId ask) of
        None \<Rightarrow> []
      | Some n \<Rightarrow>
          if \<lfloor>n\<rfloor> < 0 then []
          else case hd_opt (order_desc ph_acquiredAt (order_desc ph_updatedAt
                 (filter (\<lambda>h. ph_tokenContract h = js_lower (o_tokenContract ask)
                    \<and> ph_tokenId h = \<lfloor>n\<rfloor> \<and> ph_marketplaceBuy h) holdings))) of
            None \<Rightarrow> []
          | Some h \<Rightarrow> js_lower (js_trim (ph_walletAddress h)))"

text \<open>One ask of the loop: the row that was created, or None when it was skipped.\<close>

definition backfill_ask ::
  "config \<Rightarrow> int \<Rightarrow> nat option \<Rightarrow> vault_db \<Rightarrow> holding list \<Rightarrow> order \<Rightarrow> ledger \<Rightarrow>
   (settlement option \<times> ledger) result" where
  "backfill_ask config now onlyChain db holdings ask lg =
     (if find_row (\<lambda>s. se_orderHash s = o_orderHash ask) (lg_rows lg) \<noteq> None then Inr (None, lg)
      else if stored_policy (js_lower (o_tokenContract ask), o_tokenId ask) db \<noteq> Some self_vault_hold
              \<and> \<not> isFullPlatformTakeAsk config (o_parameters ask) then Inr (None, lg)
      else let chainId = (case resolveChainIdFromRwaAddress config (Some (o_tokenContract ask)) of
                 Some i \<Rightarrow> i
               | None \<Rightarrow> (case onlyChain of Some i \<Rightarrow> i | None \<Rightarrow> getDefaultChainId config)) in
      if onlyChain \<noteq> None \<and> onlyChain \<noteq> Some chainId then Inr (None, lg)
      else let buyer = backfill_buyer holdings ask in
      if buyer = [] then Inr (None, lg)
      else createFromFulfilledAsk config now ask buyer chainId None lg)"

fun backfill_asks ::
  "config \<Rightarrow> int \<Rightarrow> nat option \<Rightarrow> vault_db \<Rightarrow> holding list \<Rightarrow> order list \<Rightarrow> ledger \<Rightarrow>
   (settlement list \<times> ledger) result" where
  "backfill_asks config now onlyChain db holdings [] lg = Inr ([], lg)"
| "backfill_asks config now onlyChain db holdings (a # as) lg =
     on_ok (backfill_ask config now onlyChain db holdings a lg) (\<lambda>(row, lg).
     on_ok (backfill_asks config now onlyChain db holdings as lg) (\<lambda>(items, lg).
     Inr (case row of None \<Rightarrow> (items, lg) | Some r \<Rightarrow> (r # items, lg))))"

definition backfillMissingFromFulfilledAsks ::
  "config \<Rightarrow> int \<Rightarrow> nat option \<Rightarrow> vault_db \<Rightarrow> holding list \<Rightarrow> order list \<Rightarrow> ledger \<Rightarrow>
   (settlement list \<times> ledger) result" where
  "backfillMissingFromFulfilledAsks config now onlyChain db holdings orders lg =
     backfill_asks config now onlyChain db holdings
       (take 500 (order_desc o_updatedAt
         (filter (\<lambda>a. o_side a = ASK \<and> o_status a = FULFILLED) orders))) lg"

section \<open>The seller's share\<close>

interpretation seller_fee: fee_split "seller_split cfg" for cfg
proof
  fix g h :: int
  have b: "0 \<le> readSelfVaultPlatformFeeBps cfg" "readSelfVaultPlatformFeeBps cfg \<le> 10000"
    using readSelfVaultPlatformFeeBps_range by auto
  have eq: "0 \<le> x \<Longrightarrow> seller_split cfg x = (x - x * readSelfVaultPlatformFeeBps cfg div 10000,
      x * readSelfVaultPlatformFeeBps cfg div 10000)" for x
    using b by (simp add: seller_split_def Let_def)
  show "fst (seller_split cfg g) + snd (seller_split cfg g) = g"
    by (simp add: seller_split_def Let_def)
  show "0 \<le> g \<Longrightarrow> 0 \<le> snd (seller_split cfg g)"
    using b by (simp add: eq div_int_pos_iff)
  show "0 \<le> g \<Longrightarrow> snd (seller_split cfg g) \<le> g"
    using b by (simp add: eq bps_part_le)
  show "0 \<le> g \<Longrightarrow> g \<le> h \<Longrightarrow> snd (seller_split cfg g) \<le> snd (seller_split cfg h)"
    using b by (simp add: eq bps_part_mono)
  show "0 \<le> g \<Longrightarrow> g \<le> h \<Longrightarrow> fst (seller_split cfg g) \<le> fst (seller_split cfg h)"
    using b by (simp add: eq bps_rest_mono)
qed

lemma seller_split_same:
  "0 \<le> g \<Longrightarrow> seller_split cfg g = splitGrossUsdcMicros g (readSelfVaultPlatformFeeBps cfg)"
proof -
  have "0 \<le> readSelfVaultPlatformFeeBps cfg" "readSelfVaultPlatformFeeBps cfg \<le> 10000"
    using readSelfVaultPlatformFeeBps_range by auto
  moreover assume "0 \<le> g"
  ultimately show ?thesis by (simp add: split_nonneg seller_split_def Let_def)
qed

section \<open>The invariant of the ledger\<close>

definition amounts_ok :: "config \<Rightarrow> settlement \<Rightarrow> bool" where
  "amounts_ok cfg s = (positive_decimal (se_grossUsdc s)
     \<and> computeSellerPayoutMicros cfg (se_grossUsdc s) = Inr (se_sellerPayoutUsdc s))"

definition payments_of :: "nat \<Rightarrow> ledger \<Rightarrow> (string \<times> int) list" where
  "payments_of i lg = map snd (filter (\<lambda>x. fst x = i) (lg_sent lg))"

definition payments_ok :: "settlement \<Rightarrow> ledger \<Rightarrow> bool" where
  "payments_ok s lg = (payments_of (se_id s) lg = [] \<or> se_status s = paid \<and>
     (\<exists>a. js_BigInt (se_sellerPayoutUsdc s) = Some a
        \<and> payments_of (se_id s) lg = [(js_lower (js_trim (se_sellerWallet s)), a)]))"

definition ledger_wf :: "config \<Rightarrow> ledger \<Rightarrow> bool" where
  "ledger_wf cfg lg = (distinct (map se_id (lg_rows lg))
     \<and> (\<forall>s \<in> set (lg_rows lg). se_id s < lg_next lg \<and> amounts_ok cfg s \<and> payments_ok s lg)
     \<and> unique_index se_id se_orderHash (\<lambda>_. True) (lg_rows lg)
     \<and> (\<forall>x \<in> set (lg_sent lg). fst x < lg_next lg))"

definition empty_ledger :: ledger where
  "empty_ledger = \<lparr>lg_rows = [], lg_next = 0, lg_sent = []\<rparr>"

lemma empty_ledger_wf: "ledger_wf cfg empty_ledger"
  by (simp add: ledger_wf_def empty_ledger_def)

text \<open>What every step leaves of a settlement: its terms, and a closed status with its hash.\<close>

definition settlement_terms :: "settlement \<Rightarrow> nat \<times> string \<times> string \<times> string \<times> string \<times> string" where
  "settlement_terms s = (se_id s, se_orderHash s, se_sellerWallet s, se_buyerWallet s,
     se_grossUsdc s, se_sellerPayoutUsdc s)"

definition same_terms :: "settlement \<Rightarrow> settlement \<Rightarrow> bool" where
  "same_terms s t = (settlement_terms t = settlement_terms s)"

definition settlement_le :: "settlement \<Rightarrow> settlement \<Rightarrow> bool" where
  "settlement_le s t = (same_terms s t
     \<and> (se_status s = paid \<longrightarrow> se_status t = paid \<and> se_payoutTxHash t = se_payoutTxHash s)
     \<and> (se_status s = rejected \<longrightarrow> se_status t = rejected)
     \<and> (se_status t = pending_confirm \<longrightarrow> se_status s = pending_confirm))"

definition ledger_adv :: "ledger \<Rightarrow> ledger \<Rightarrow> bool" where
  "ledger_adv lg lg' = (\<forall>s \<in> set (lg_rows lg). \<exists>t \<in> set (lg_rows lg'). settlement_le s t)"

lemma settlement_le_refl [simp]: "settlement_le s s"
  by (simp add: settlement_le_def same_terms_def)

lemma ledger_adv_refl [simp]: "ledger_adv lg lg"
  unfolding ledger_adv_def using settlement_le_refl by blast

lemma settlement_le_trans:
  assumes "settlement_le s t" "settlement_le t u"
  shows "settlement_le s u"
proof -
  have t: "same_terms s t" "same_terms t u"
    and p: "se_status s = paid \<longrightarrow> se_status t = paid \<and> se_payoutTxHash t = se_payoutTxHash s"
      "se_status t = paid \<longrightarrow> se_status u = paid \<and> se_payoutTxHash u = se_payoutTxHash t"
    and r: "se_status s = rejected \<longrightarrow> se_status t = rejected"
      "se_status t = rejected \<longrightarrow> se_status u = rejected"
    and c: "se_status t = pending_confirm \<longrightarrow> se_status s = pending_confirm"
      "se_status u = pending_confirm \<longrightarrow> se_status t = pending_confirm"
    using assms unfolding settlement_le_def by blast+
  have "same_terms s u" using t unfolding same_terms_def by (rule trans [rotated])
  moreover have "se_status s = paid \<longrightarrow> se_status u = paid \<and> se_payoutTxHash u = se_payoutTxHash s"
    using p by metis
  ultimately show ?thesis using r c unfolding settlement_le_def by blast
qed

lemma ledger_adv_trans: "ledger_adv a b \<Longrightarrow> ledger_adv b c \<Longrightarrow> ledger_adv a c"
  unfolding ledger_adv_def by (meson settlement_le_trans)

lemma settlement_le_terms:
  "settlement_le s t \<Longrightarrow> se_id t = se_id s \<and> se_orderHash t = se_orderHash s
     \<and> se_sellerWallet t = se_sellerWallet s \<and> se_buyerWallet t = se_buyerWallet s
     \<and> se_grossUsdc t = se_grossUsdc s \<and> se_sellerPayoutUsdc t = se_sellerPayoutUsdc s"
  by (simp add: settlement_le_def same_terms_def settlement_terms_def)

lemma find_settlement_Some:
  "find_settlement i lg = Some s \<Longrightarrow> s \<in> set (lg_rows lg) \<and> se_id s = i"
  unfolding find_settlement_def by (rule find_key_Some)

lemma find_settlement_member:
  "ledger_wf cfg lg \<Longrightarrow> s \<in> set (lg_rows lg) \<Longrightarrow> find_settlement (se_id s) lg = Some s"
  by (simp add: ledger_wf_def find_settlement_def find_key_member)

text \<open>
  A save of a loaded row that keeps its terms, after payments that concern this row only.
\<close>

lemma step_settlement_sent:
  assumes wf: "ledger_wf cfg lg" and old: "find_settlement i lg = Some s" and le: "settlement_le s t"
    and sent: "\<forall>x \<in> set xs. fst x < lg_next lg"
    and pay: "payments_ok t (lg\<lparr>lg_sent := xs\<rparr>)"
    and others: "\<And>j. j \<noteq> i \<Longrightarrow> payments_of j (lg\<lparr>lg_sent := xs\<rparr>) = payments_of j lg"
  shows "ledger_wf cfg (save_settlement t (lg\<lparr>lg_sent := xs\<rparr>))
     \<and> ledger_adv lg (save_settlement t (lg\<lparr>lg_sent := xs\<rparr>))"
proof -
  let ?lg = "lg\<lparr>lg_sent := xs\<rparr>"
  have s: "s \<in> set (lg_rows lg)" "se_id s = i" using find_settlement_Some [OF old] by auto
  have t: "se_id t = i" "se_orderHash t = se_orderHash s" "se_grossUsdc t = se_grossUsdc s"
    "se_sellerPayoutUsdc t = se_sellerPayoutUsdc s"
    using settlement_le_terms [OF le] s(2) by auto
  have dist: "distinct (map se_id (lg_rows lg))" using wf by (simp add: ledger_wf_def)
  have rows: "set (upsert se_id t (lg_rows lg)) = insert t {x \<in> set (lg_rows lg). se_id x \<noteq> i}"
    using set_upsert [OF dist, of t] t(1) by simp
  have am: "amounts_ok cfg t" "se_id t < lg_next lg"
    using wf s t by (auto simp: ledger_wf_def amounts_ok_def)
  have same: "payments_ok x (save_settlement t ?lg) = payments_ok x ?lg" for x
    by (simp add: payments_ok_def payments_of_def save_settlement_def)
  have other: "se_id x \<noteq> i \<Longrightarrow> payments_ok x ?lg = payments_ok x lg" for x
    by (simp add: payments_ok_def others)
  have 1: "\<forall>x \<in> set (upsert se_id t (lg_rows lg)). se_id x < lg_next lg \<and> amounts_ok cfg x \<and> payments_ok x ?lg"
    using wf am pay other unfolding rows ledger_wf_def by auto
  have 2: "unique_index se_id se_orderHash (\<lambda>_. True) (upsert se_id t (lg_rows lg))"
    by (rule unique_index_update [of _ _ _ _ s]) (use wf s t in \<open>auto simp: ledger_wf_def\<close>)
  have "ledger_wf cfg (save_settlement t ?lg)"
    using dist 1 2 sent unfolding ledger_wf_def same by (simp add: save_settlement_def)
  moreover have "ledger_adv lg (save_settlement t ?lg)"
    unfolding ledger_adv_def
  proof
    fix x assume x: "x \<in> set (lg_rows lg)"
    have "\<exists>y \<in> set (upsert se_id t (lg_rows lg)). settlement_le x y"
    proof (rule bex_upsert [OF dist s(1)])
      show "se_id s = se_id t" by (simp add: s t)
      show "settlement_le x s \<Longrightarrow> settlement_le x t" using le settlement_le_trans by blast
      show "\<exists>y \<in> set (lg_rows lg). settlement_le x y" using x settlement_le_refl by blast
    qed
    then show "\<exists>y \<in> set (lg_rows (save_settlement t ?lg)). settlement_le x y"
      by (simp add: save_settlement_def)
  qed
  ultimately show ?thesis by simp
qed

lemma step_settlement:
  assumes wf: "ledger_wf cfg lg" and old: "find_settlement i lg = Some s" and le: "settlement_le s t"
    and pay: "payments_ok t lg"
  shows "ledger_wf cfg (save_settlement t lg) \<and> ledger_adv lg (save_settlement t lg)"
  using step_settlement_sent [OF wf old le, of "lg_sent lg"] wf pay by (simp add: ledger_wf_def)

text \<open>A row that is not paid has no payment, so an update of it is consistent.\<close>

lemma unpaid_ok:
  assumes wf: "ledger_wf cfg lg" and old: "find_settlement i lg = Some s" and np: "se_status s \<noteq> paid"
  shows "payments_of i lg = []"
  using wf find_settlement_Some [OF old] np by (auto simp: ledger_wf_def payments_ok_def)

lemma step_unpaid:
  assumes wf: "ledger_wf cfg lg" and old: "find_settlement i lg = Some s" and np: "se_status s \<noteq> paid"
    and le: "settlement_le s t"
  shows "ledger_wf cfg (save_settlement t lg) \<and> ledger_adv lg (save_settlement t lg)"
proof (rule step_settlement [OF wf old le])
  have "se_id t = i" using settlement_le_terms [OF le] find_settlement_Some [OF old] by simp
  then show "payments_ok t lg" using unpaid_ok [OF wf old np] by (simp add: payments_ok_def)
qed

lemma settlement_le_update:
  "se_status s = pending_confirm \<or> se_status s = confirmed \<Longrightarrow>
     settlement_le s (s\<lparr>se_status := confirmed, se_confirmedAt := x\<rparr>)"
  "se_status s = pending_confirm \<or> se_status s = confirmed \<Longrightarrow>
     settlement_le s (s\<lparr>se_status := paid, se_payoutTxHash := h, se_paidAt := x\<rparr>)"
  "se_status s \<noteq> paid \<Longrightarrow> settlement_le s (s\<lparr>se_status := rejected\<rparr>)"
  by (auto simp: settlement_le_def same_terms_def settlement_terms_def)

section \<open>The steps of the ledger\<close>

lemma create_cases:
  assumes "createFromFulfilledAsk cfg now ask buyer ch tx lg = Inr (s, lg')"
  obtains "lg' = lg" "s = None \<or> (\<exists>r. s = Some r \<and> r \<in> set (lg_rows lg) \<and> se_orderHash r = js_trim (o_orderHash ask))"
  | row where "s = Some row" "\<forall>x \<in> set (lg_rows lg). se_orderHash x \<noteq> se_orderHash row"
      "se_id row = lg_next lg" "se_orderHash row = js_trim (o_orderHash ask)"
      "positive_decimal (se_grossUsdc row)" "se_grossUsdc row = resolveGrossMicros ask"
      "computeSellerPayoutMicros cfg (se_grossUsdc row) = Inr (se_sellerPayoutUsdc row)"
      "se_status row = pending_confirm" "se_sellerWallet row = js_lower (o_offerer ask)"
      "se_buyerWallet row = js_lower (js_trim buyer)"
      "lg' = save_settlement row (lg\<lparr>lg_next := lg_next lg + 1\<rparr>)"
proof (cases "find_row (\<lambda>s. se_orderHash s = js_trim (o_orderHash ask)) (lg_rows lg)")
  case (Some r)
  then have "r \<in> set (lg_rows lg)" "se_orderHash r = js_trim (o_orderHash ask)"
    by (auto dest: find_row_Some)
  moreover have "lg' = lg \<and> (s = None \<or> s = Some r)"
    using Some assms by (simp add: createFromFulfilledAsk_def Let_def split: if_splits)
  ultimately show thesis using that(1) by blast
next
  case None
  show thesis
  proof (cases "lg' = lg \<and> s = None")
    case True
    with that(1) show thesis by blast
  next
    case False
    let ?buyer = "js_lower (js_trim buyer)" and ?gross = "resolveGrossMicros ask"
    have c: "js_trim (o_orderHash ask) \<noteq> []" "is_hex_word 40 ?buyer" "positive_decimal ?gross"
      using assms None False by (simp_all add: createFromFulfilledAsk_def Let_def split: if_split_asm)
    with assms None obtain payout where p: "computeSellerPayoutMicros cfg ?gross = Inr payout"
      by (auto simp: createFromFulfilledAsk_def Let_def on_ok_eq_Inr)
    have s: "s = Some (new_settlement (lg_next lg) now ask ?buyer payout ch tx)"
      "lg' = save_settlement (new_settlement (lg_next lg) now ask ?buyer payout ch tx)
         (lg\<lparr>lg_next := lg_next lg + 1\<rparr>)"
      using assms None c p by (simp_all add: createFromFulfilledAsk_def Let_def)
    show thesis
      by (rule that(2) [OF s(1)]) (use None c p s(2) in \<open>simp_all add: find_row_None new_settlement_def\<close>)
  qed
qed

lemma create_ok:
  assumes wf: "ledger_wf cfg lg"
    and ok: "createFromFulfilledAsk cfg now ask buyer ch tx lg = Inr (s, lg')"
  shows "ledger_wf cfg lg' \<and> ledger_adv lg lg'"
  using ok
proof (cases rule: create_cases)
  case (2 row)
  note new = 2(2) and row = 2(3,5,7) and lg' = 2(11)
  have fresh: "se_id row \<notin> se_id ` set (lg_rows lg)" using wf row by (auto simp: ledger_wf_def)
  have none: "payments_of (lg_next lg) lg = []"
    using wf by (auto simp: ledger_wf_def payments_of_def filter_empty_conv)
  have pay: "payments_ok x lg' = payments_ok x lg" for x
    by (simp add: payments_ok_def payments_of_def lg' save_settlement_def)
  have "unique_index se_id se_orderHash (\<lambda>_. True) (upsert se_id row (lg_rows lg))"
    by (rule unique_index_upsert) (use wf new in \<open>auto simp: ledger_wf_def\<close>)
  then have "ledger_wf cfg lg'"
    using wf row none fresh unfolding ledger_wf_def pay
    by (auto simp: lg' save_settlement_def upsert_fresh amounts_ok_def payments_ok_def less_Suc_eq)
  moreover have "ledger_adv lg lg'"
  proof -
    have "set (lg_rows lg) \<subseteq> set (lg_rows lg')"
      using fresh by (simp add: lg' save_settlement_def upsert_fresh subset_insertI)
    then show ?thesis unfolding ledger_adv_def using settlement_le_refl by blast
  qed
  ultimately show ?thesis by simp
qed (use wf in simp)

lemma confirmByBuyer_ok:
  assumes wf: "ledger_wf cfg lg" and ok: "confirmByBuyer now i w lg = Inr (s, lg')"
  shows "ledger_wf cfg lg' \<and> ledger_adv lg lg'"
proof (cases "find_settlement i lg")
  case (Some r)
  show ?thesis
  proof (cases "se_status r = pending_confirm")
    case True
    then have "lg' = save_settlement (r\<lparr>se_status := confirmed, se_confirmedAt := Some now\<rparr>) lg"
      using ok Some by (auto simp: confirmByBuyer_def Let_def split: if_splits)
    then show ?thesis
      using step_unpaid [OF wf Some] True settlement_le_update(1) by simp
  next
    case False
    then have "lg' = lg" using ok Some
      by (cases "se_status r") (auto simp: confirmByBuyer_def Let_def split: if_splits)
    then show ?thesis using wf by simp
  qed
qed (use ok in \<open>simp add: confirmByBuyer_def\<close>)

lemma adminConfirm_ok:
  assumes wf: "ledger_wf cfg lg" and ok: "adminConfirm now i lg = Inr (s, lg')"
  shows "ledger_wf cfg lg' \<and> ledger_adv lg lg'"
proof (cases "find_settlement i lg")
  case (Some r)
  then have r: "se_status r = pending_confirm \<or> se_status r = confirmed"
    and lg': "lg' = save_settlement (if se_status r \<noteq> confirmed
      then r\<lparr>se_status := confirmed, se_confirmedAt := Some now\<rparr> else r) lg"
    using ok by (cases "se_status r"; auto simp: adminConfirm_def Let_def split: if_splits)+
  show ?thesis
    unfolding lg' by (rule step_unpaid [OF wf Some]) (use r settlement_le_update(1) in auto)
qed (use ok in \<open>simp add: adminConfirm_def\<close>)

lemma adminReject_ok:
  assumes wf: "ledger_wf cfg lg" and ok: "adminReject i lg = Inr (s, lg')"
  shows "ledger_wf cfg lg' \<and> ledger_adv lg lg'"
proof (cases "find_settlement i lg")
  case (Some r)
  then have r: "se_status r \<noteq> paid" and lg': "lg' = save_settlement (r\<lparr>se_status := rejected\<rparr>) lg"
    using ok by (auto simp: adminReject_def Let_def split: if_splits)
  show ?thesis
    unfolding lg' by (rule step_unpaid [OF wf Some r settlement_le_update(3) [OF r]])
qed (use ok in \<open>simp add: adminReject_def\<close>)

lemma recordPayout_ok:
  assumes wf: "ledger_wf cfg lg" and ok: "recordPayout now i tx lg = Inr (s, lg')"
  shows "ledger_wf cfg lg' \<and> ledger_adv lg lg'"
proof (cases "find_settlement i lg")
  case (Some r)
  show ?thesis
  proof (cases "se_status r = confirmed")
    case True
    then have "lg' = save_settlement (r\<lparr>se_status := paid, se_payoutTxHash := Some (js_trim tx),
        se_paidAt := Some now\<rparr>) lg"
      using ok Some by (auto simp: recordPayout_def Let_def split: if_splits)
    then show ?thesis
      using step_unpaid [OF wf Some] True settlement_le_update(2) by simp
  next
    case False
    then have "lg' = lg" using ok Some
      by (cases "se_status r") (auto simp: recordPayout_def Let_def split: if_splits)
    then show ?thesis using wf by simp
  qed
qed (use ok in \<open>auto simp: recordPayout_def Let_def split: if_splits\<close>)

section \<open>Payments\<close>

text \<open>The receipts of this wallet arrive: a transfer is either not sent or mined.\<close>

definition wallet_reports :: "fee_wallet \<Rightarrow> bool" where
  "wallet_reports fw = (case fw_outcome fw of receipt_lost e \<Rightarrow> False | _ \<Rightarrow> True)"

lemma transferUsdc_out:
  assumes "transferUsdc cfg fw to amt ch = (res, out)"
  shows "out = None \<or> (\<exists>a. js_BigInt amt = Some a \<and> 0 < a \<and> out = Some (js_lower (js_trim to), a))"
proof (cases "positive_decimal amt")
  case True
  then obtain a where a: "js_BigInt amt = Some a" "0 < a"
    by (auto simp: positive_decimal_def split: option.splits)
  show ?thesis
    using assms a True unfolding transferUsdc_def Let_def
    by (auto split: if_split_asm option.split_asm sum.split_asm send_outcome.split_asm)
next
  case False
  then show ?thesis using assms by (auto simp: transferUsdc_def Let_def split: if_split_asm)
qed

lemma transferUsdc_failed:
  assumes "transferUsdc cfg fw to amt ch = (Inl e, out)" "wallet_reports fw"
  shows "out = None"
  using assms unfolding transferUsdc_def Let_def wallet_reports_def
  by (auto split: if_split_asm option.split_asm sum.split_asm send_outcome.split_asm)

lemma payout_begin_cases:
  assumes "payout_begin cfg now i lg = (lg1, st)"
  obtains "lg1 = lg" "\<forall>r. st \<noteq> sends r"
  | r where "find_settlement i lg = Some r" "se_status r = pending_confirm"
      "st = sends (r\<lparr>se_status := confirmed, se_confirmedAt := Some now\<rparr>)"
      "lg1 = save_settlement (r\<lparr>se_status := confirmed, se_confirmedAt := Some now\<rparr>) lg"
  | r where "find_settlement i lg = Some r" "se_status r = confirmed" "st = sends r" "lg1 = lg"
proof (cases "find_settlement i lg")
  case None
  with assms that(1) show thesis by (auto simp: payout_begin_def)
next
  case (Some r)
  show thesis
  proof (cases "wallet_isConfigured cfg \<and> (se_status r = pending_confirm \<or> se_status r = confirmed)")
    case False
    then have "lg1 = lg \<and> (\<forall>r. st \<noteq> sends r)"
      using assms Some by (cases "se_status r") (auto simp: payout_begin_def)
    with that(1) show thesis by blast
  next
    case True
    then consider "se_status r = pending_confirm" | "se_status r = confirmed" by blast
    then show thesis
    proof cases
      case 1
      with assms Some True have "st = sends (r\<lparr>se_status := confirmed, se_confirmedAt := Some now\<rparr>)"
        "lg1 = save_settlement (r\<lparr>se_status := confirmed, se_confirmedAt := Some now\<rparr>) lg"
        by (auto simp: payout_begin_def Let_def)
      with that(2) [OF Some 1] show thesis by blast
    next
      case 2
      with assms Some True have "st = sends r" "lg1 = lg" by (simp_all add: payout_begin_def)
      with that(3) [OF Some 2] show thesis by blast
    qed
  qed
qed

text \<open>The transfer of a row that is held while the ledger has not changed.\<close>

lemma payout_end_ok:
  assumes wf: "ledger_wf cfg lg" and r: "find_settlement i lg = Some r" "se_status r = confirmed"
    and fw: "wallet_reports fw" and e: "payout_end cfg fw now r lg = (lg', res)"
  shows "ledger_wf cfg lg' \<and> ledger_adv lg lg'"
proof -
  obtain tr out where t: "transferUsdc cfg fw (se_sellerWallet r) (se_sellerPayoutUsdc r) (se_chainId r) = (tr, out)"
    by force
  have i: "se_id r = i" using find_settlement_Some [OF r(1)] by simp
  show ?thesis
  proof (cases tr)
    case (Inl er)
    then have "out = None" using transferUsdc_failed t fw by blast
    then have "lg' = lg" using e t Inl by (simp add: payout_end_def)
    then show ?thesis using wf by simp
  next
    case (Inr h)
    let ?r = "r\<lparr>se_status := paid, se_payoutTxHash := Some h, se_paidAt := Some now\<rparr>"
    have le: "settlement_le r ?r" using r(2) settlement_le_update(2) by blast
    have none: "payments_of i lg = []" by (rule unpaid_ok [OF wf r(1)]) (simp add: r(2))
    consider "out = None" | a where "js_BigInt (se_sellerPayoutUsdc r) = Some a"
        "out = Some (js_lower (js_trim (se_sellerWallet r)), a)"
      using transferUsdc_out [OF t] by blast
    then show ?thesis
    proof cases
      case 1
      then have "lg' = save_settlement ?r lg" using e t Inr by (auto simp: payout_end_def Let_def)
      then show ?thesis using step_unpaid [OF wf r(1) _ le] r(2) by simp
    next
      case 2
      let ?xs = "(i, js_lower (js_trim (se_sellerWallet r)), a) # lg_sent lg"
      have lg': "lg' = save_settlement ?r (lg\<lparr>lg_sent := ?xs\<rparr>)"
        using e t Inr 2 i by (auto simp: payout_end_def Let_def)
      show ?thesis
        unfolding lg'
      proof (rule step_settlement_sent [OF wf r(1) le])
        show "\<forall>x \<in> set ?xs. fst x < lg_next lg"
          using wf find_settlement_Some [OF r(1)] by (auto simp: ledger_wf_def)
        show "payments_ok ?r (lg\<lparr>lg_sent := ?xs\<rparr>)"
          using none 2(1) i by (simp add: payments_ok_def payments_of_def)
        show "payments_of j (lg\<lparr>lg_sent := ?xs\<rparr>) = payments_of j lg" if "j \<noteq> i" for j
          using that by (simp add: payments_of_def)
      qed
    qed
  qed
qed

lemma executePayout_ok:
  assumes wf: "ledger_wf cfg lg" and fw: "wallet_reports fw"
    and e: "executePayout cfg fw now i lg = (lg', res)"
  shows "ledger_wf cfg lg' \<and> ledger_adv lg lg'"
proof -
  obtain lg1 st where b: "payout_begin cfg now i lg = (lg1, st)" by force
  from b show ?thesis
  proof (cases rule: payout_begin_cases)
    case 1
    then have "lg' = lg" using e b by (cases st) (auto simp: executePayout_def)
    then show ?thesis using wf by simp
  next
    case (2 r)
    let ?r = "r\<lparr>se_status := confirmed, se_confirmedAt := Some now\<rparr>"
    have 1: "ledger_wf cfg lg1 \<and> ledger_adv lg lg1"
      unfolding 2(4) by (rule step_unpaid [OF wf 2(1)]) (use 2(2) settlement_le_update(1) in auto)
    have f: "find_settlement i lg1 = Some ?r"
      using find_settlement_Some [OF 2(1)] by (simp add: 2(4) settlement_repo.look_put)
    have "ledger_wf cfg lg' \<and> ledger_adv lg1 lg'"
      by (rule payout_end_ok [OF _ f _ fw]) (use 1 e b 2(3) in \<open>auto simp: executePayout_def\<close>)
    then show ?thesis using 1 ledger_adv_trans by blast
  next
    case (3 r)
    show ?thesis
      by (rule payout_end_ok [OF wf 3(1,2) fw]) (use e b 3 in \<open>auto simp: executePayout_def\<close>)
  qed
qed

section \<open>The ledger as a state machine\<close>

inductive ledger_step :: "config \<Rightarrow> ledger \<Rightarrow> ledger \<Rightarrow> bool" for cfg where
  create: "createFromFulfilledAsk cfg now ask buyer ch tx lg = Inr (s, lg') \<Longrightarrow> ledger_step cfg lg lg'"
| buyer_confirms: "confirmByBuyer now i w lg = Inr (s, lg') \<Longrightarrow> ledger_step cfg lg lg'"
| admin_confirms: "adminConfirm now i lg = Inr (s, lg') \<Longrightarrow> ledger_step cfg lg lg'"
| admin_rejects: "adminReject i lg = Inr (s, lg') \<Longrightarrow> ledger_step cfg lg lg'"
| record_payout: "recordPayout now i tx lg = Inr (s, lg') \<Longrightarrow> ledger_step cfg lg lg'"
| execute: "wallet_reports fw \<Longrightarrow> executePayout cfg fw now i lg = (lg', res) \<Longrightarrow> ledger_step cfg lg lg'"

inductive_cases ledger_stepE: "ledger_step cfg lg lg'"

lemma ledger_step_ok:
  "ledger_step cfg lg lg' \<Longrightarrow> ledger_wf cfg lg \<Longrightarrow> ledger_wf cfg lg' \<and> ledger_adv lg lg'"
  by (elim ledger_stepE)
     (auto dest: create_ok confirmByBuyer_ok adminConfirm_ok adminReject_ok recordPayout_ok executePayout_ok)

interpretation ledger_machine: monotone_machine "ledger_step cfg" "ledger_wf cfg" ledger_adv for cfg
  by unfold_locales (auto dest: ledger_step_ok intro: ledger_adv_trans)

text \<open>The cron and the backfill are sequences of these steps.\<close>

lemma fold_steps:
  "(\<And>x lg. (ledger_step cfg)\<^sup>*\<^sup>* lg (f x lg)) \<Longrightarrow> (ledger_step cfg)\<^sup>*\<^sup>* lg (fold f xs lg)"
  by (induction xs arbitrary: lg) (auto intro: rtranclp_trans)

lemma autoPayoutCron_steps:
  assumes "\<And>i. wallet_reports (fw i)"
  shows "(ledger_step cfg)\<^sup>*\<^sup>* lg (autoPayoutCron cfg fw now lg)"
proof -
  have "(ledger_step cfg)\<^sup>*\<^sup>* lg (fst (executePayout cfg (fw (se_id row)) now (se_id row) lg))" for row lg
    by (rule r_into_rtranclp, rule execute [OF assms], rule prod.collapse [symmetric])
  then show ?thesis by (auto simp: autoPayoutCron_def intro: fold_steps)
qed

lemma backfill_ask_steps:
  "backfill_ask cfg now ch db hs a lg = Inr (r, lg') \<Longrightarrow> (ledger_step cfg)\<^sup>*\<^sup>* lg lg'"
  by (auto simp: backfill_ask_def Let_def split: if_split_asm
      intro: r_into_rtranclp ledger_step.create)

lemma backfill_asks_steps:
  "backfill_asks cfg now ch db hs as lg = Inr (items, lg') \<Longrightarrow> (ledger_step cfg)\<^sup>*\<^sup>* lg lg'"
proof (induction as arbitrary: lg items)
  case (Cons a as)
  then obtain r lg1 items' where "backfill_ask cfg now ch db hs a lg = Inr (r, lg1)"
    "backfill_asks cfg now ch db hs as lg1 = Inr (items', lg')"
    by (auto simp: on_ok_eq_Inr split: option.splits)
  with Cons.IH backfill_ask_steps show ?case by (meson rtranclp_trans)
qed simp

end
