(* ===== verification/RedeemFees.thy ===== *)
theory RedeemFees
  imports VaultQueries ChainConfig Settlement "HOL-Library.Multiset"
begin

text \<open>
  What a redemption costs (rwa/redeem-fee.types.ts, psa-vault-fee.schedule.ts,
  redeem-shipping-fee.calculator.ts, shipping/destination-country.ts and the quote of
  shipping/fedex-rate.client.ts): the cards are grouped into shipments, one for the PSA vault
  and one per partner; every card pays retrieval and, when it was deposited recently, early
  withdrawal, and the first card of a shipment pays its shipping. Dollars are exact rationals,
  so roundUsd rounds the number that is written, where JavaScript rounds the nearest double.
  Dates are milliseconds; probing the live FedEx API is left out.
\<close>

section \<open>Money\<close>

definition roundUsd :: "rat \<Rightarrow> rat" where
  "roundUsd n = of_int (js_round (n * 100)) / 100"

definition usdToUsdcMicros :: "rat \<Rightarrow> int" where
  "usdToUsdcMicros usd = js_round (roundUsd usd * 1000000)"

section \<open>The published schedule of the PSA vault\<close>

datatype redeem_country = bucket_us | bucket_ca | bucket_intl

definition bucket_str :: "redeem_country \<Rightarrow> string" where
  "bucket_str c = (case c of bucket_us \<Rightarrow> ''us'' | bucket_ca \<Rightarrow> ''ca'' | bucket_intl \<Rightarrow> ''intl'')"

definition envNum :: "config \<Rightarrow> string \<Rightarrow> rat \<Rightarrow> rat" where
  "envNum config key fallback = (case config key of
      None \<Rightarrow> fallback
    | Some raw \<Rightarrow> if raw = [] then fallback else (case js_Number raw of
        None \<Rightarrow> fallback | Some n \<Rightarrow> if 0 \<le> n then n else fallback))"

record psa_fee_config =
  pf_shippingUs :: rat
  pf_shippingCa :: rat
  pf_shippingIntl :: rat
  pf_retrievalUsd :: rat
  pf_earlyUsd :: rat
  pf_earlyDays :: int
  pf_maxItems :: int

definition loadPsaVaultFeeConfig :: "config \<Rightarrow> psa_fee_config" where
  "loadPsaVaultFeeConfig config =
     (let retrieval =
            (if or_empty (config ''PSA_VAULT_RETRIEVAL_FEE_USD'') \<noteq> []
             then envNum config ''PSA_VAULT_RETRIEVAL_FEE_USD'' (199 / 100)
             else 199 / 100)
      in \<lparr>pf_shippingUs = envNum config ''PSA_VAULT_SHIPPING_US_USD'' (599 / 100),
          pf_shippingCa = envNum config ''PSA_VAULT_SHIPPING_CA_USD'' (2499 / 100),
          pf_shippingIntl = envNum config ''PSA_VAULT_SHIPPING_INTL_USD'' (3199 / 100),
          pf_retrievalUsd = retrieval,
          pf_earlyUsd = envNum config ''PSA_VAULT_EARLY_WITHDRAWAL_FEE_USD'' (499 / 100),
          pf_earlyDays = \<lfloor>envNum config ''PSA_VAULT_EARLY_WITHDRAWAL_DAYS'' 90\<rfloor>,
          pf_maxItems = \<lfloor>envNum config ''PSA_VAULT_MAX_ITEMS_PER_SHIPMENT'' 50\<rfloor>\<rparr>)"

definition isPsaEarlyWithdrawal :: "int option \<Rightarrow> int \<Rightarrow> int \<Rightarrow> bool" where
  "isPsaEarlyWithdrawal depositedAt earlyDays now = (case depositedAt of
      None \<Rightarrow> True | Some d \<Rightarrow> now - d < earlyDays * 24 * 60 * 60 * 1000)"

definition psaShippingUsd :: "psa_fee_config \<Rightarrow> redeem_country \<Rightarrow> rat" where
  "psaShippingUsd cfg country = (case country of
      bucket_us \<Rightarrow> pf_shippingUs cfg | bucket_ca \<Rightarrow> pf_shippingCa cfg
    | bucket_intl \<Rightarrow> pf_shippingIntl cfg)"

record card_fee_line =
  cf_tokenId :: nat
  cf_vaultedAt :: "int option"
  cf_earlyWithdrawal :: bool
  cf_retrievalUsd :: rat
  cf_earlyWithdrawalUsd :: rat
  cf_shippingUsd :: rat
  cf_totalUsd :: rat
  cf_shipmentKey :: string

text \<open>psaCardFees, with the token and the shipment that the callers put around it.\<close>

definition psaCardFees ::
  "int \<Rightarrow> psa_fee_config \<Rightarrow> redeem_country \<Rightarrow> nat \<Rightarrow> int option \<Rightarrow> bool \<Rightarrow> string \<Rightarrow> card_fee_line" where
  "psaCardFees now cfg country tokenId vaultedAt isFirstInShipment key =
     (let early = isPsaEarlyWithdrawal vaultedAt (pf_earlyDays cfg) now;
          retrievalUsd = pf_retrievalUsd cfg;
          earlyWithdrawalUsd = (if early then pf_earlyUsd cfg else 0);
          shippingUsd = (if isFirstInShipment then psaShippingUsd cfg country else 0)
      in \<lparr>cf_tokenId = tokenId, cf_vaultedAt = vaultedAt, cf_earlyWithdrawal = early,
          cf_retrievalUsd = retrievalUsd, cf_earlyWithdrawalUsd = earlyWithdrawalUsd,
          cf_shippingUsd = shippingUsd,
          cf_totalUsd = roundUsd (retrievalUsd + earlyWithdrawalUsd + shippingUsd),
          cf_shipmentKey = key\<rparr>)"

section \<open>Destinations\<close>

definition is_upper :: "char \<Rightarrow> bool" where
  "is_upper c = (let n = char_code c in 65 \<le> n \<and> n \<le> 90)"

definition requireIso2CountryCode :: "string option \<Rightarrow> string result" where
  "requireIso2CountryCode raw = (let c = js_upper (js_trim (or_empty raw)) in
     if \<not> (length c = 2 \<and> list_all is_upper c) \<or> c = ''XX'' \<or> c = ''ZZ''
     then Inl (BadRequestException ''must be a valid ISO-3166 alpha-2 country code'')
     else Inr c)"

definition resolveShipToDestinationIso2 :: "string \<Rightarrow> string option \<Rightarrow> string result" where
  "resolveShipToDestinationIso2 country countryCode =
     (if trim_or_null countryCode \<noteq> None then requireIso2CountryCode countryCode
      else let raw = js_trim country; lower = js_lower raw in
        if lower = ''us'' then Inr ''US''
        else if lower = ''ca'' then Inr ''CA''
        else if lower = ''intl''
        then Inl (BadRequestException ''shipTo.countryCode (ISO-3166 alpha-2) is required'')
        else requireIso2CountryCode (Some raw))"

section \<open>The FedEx quote\<close>

record rate_address =
  ra_companyName :: "string option"
  ra_contactName :: "string option"
  ra_phone :: "string option"
  ra_country :: string
  ra_city :: string
  ra_region :: "string option"
  ra_postal :: string
  ra_line1 :: string
  ra_line2 :: "string option"
  ra_residential :: bool

datatype shipping_source = psa_published | fedex_stub | fedex_rate

definition source_str :: "shipping_source \<Rightarrow> string" where
  "source_str s = (case s of psa_published \<Rightarrow> ''psa_published'' | fedex_stub \<Rightarrow> ''fedex_stub''
     | fedex_rate \<Rightarrow> ''fedex_rate'')"

record shipping_quote =
  sq_shippingUsd :: rat
  sq_serviceType :: "string option"
  sq_rateType :: "string option"
  sq_source :: shipping_source
  sq_expiresAt :: int

definition REDEEM_FLAT_SHIPPING_USD :: rat where
  "REDEEM_FLAT_SHIPPING_USD = 40"

definition quoteExpiresAt :: "config \<Rightarrow> int \<Rightarrow> int" where
  "quoteExpiresAt config now =
     (let mins = envNum config ''FEDEX_RATE_QUOTE_TTL_MINUTES'' 15 in \<lfloor>of_int now + max 1 mins * 60000\<rfloor>)"

definition assertFedExLaneSupported :: "string \<Rightarrow> string \<Rightarrow> unit result" where
  "assertFedExLaneSupported originIso destIso =
     (if originIso = ''KR'' \<and> destIso = ''KR''
      then Inl (BadRequestException ''FEDEX_RATE_UNSUPPORTED_LANE'') else Inr ())"

definition flatShippingQuote :: "config \<Rightarrow> int \<Rightarrow> shipping_quote" where
  "flatShippingQuote config now =
     \<lparr>sq_shippingUsd = REDEEM_FLAT_SHIPPING_USD, sq_serviceType = Some ''FLAT_40'',
      sq_rateType = None, sq_source = fedex_stub, sq_expiresAt = quoteExpiresAt config now\<rparr>"

definition fedex_quote ::
  "config \<Rightarrow> int \<Rightarrow> rate_address \<Rightarrow> rate_address \<Rightarrow> shipping_quote result" where
  "fedex_quote config now origin destination =
     on_ok (requireIso2CountryCode (Some (ra_country origin))) (\<lambda>originIso.
     on_ok (requireIso2CountryCode (Some (ra_country destination))) (\<lambda>destIso.
     on_ok (assertFedExLaneSupported originIso destIso) (\<lambda>_.
     Inr (flatShippingQuote config now))))"

section \<open>Shipments\<close>

datatype shipping_provider = psa_vault | partner

record token_meta =
  tm_tokenId :: nat
  tm_settlementPolicy :: settlement_policy
  tm_vaultPartnerId :: "string option"
  tm_vaultedAt :: "int option"

record shipment_group =
  sg_key :: string
  sg_provider :: shipping_provider
  sg_partnerId :: "string option"
  sg_tokens :: "token_meta list"

definition group_key :: "token_meta \<Rightarrow> string" where
  "group_key m = (if tm_settlementPolicy m = self_vault_hold
     then ''partner:'' @ (case tm_vaultPartnerId m of None \<Rightarrow> ''unknown'' | Some p \<Rightarrow> p)
     else ''psa_vault'')"

definition new_group :: "token_meta \<Rightarrow> shipment_group" where
  "new_group m =
     (let provider = (if tm_settlementPolicy m = self_vault_hold then partner else psa_vault) in
      \<lparr>sg_key = group_key m, sg_provider = provider,
       sg_partnerId = (if provider = partner then tm_vaultPartnerId m else None), sg_tokens = [m]\<rparr>)"

text \<open>The Map of groups keeps the order in which their first cards come.\<close>

fun group_add :: "token_meta \<Rightarrow> shipment_group list \<Rightarrow> shipment_group list" where
  "group_add m [] = [new_group m]"
| "group_add m (g # gs) =
     (if sg_key g = group_key m then g\<lparr>sg_tokens := sg_tokens g @ [m]\<rparr> # gs else g # group_add m gs)"

definition shipment_groups :: "token_meta list \<Rightarrow> shipment_group list" where
  "shipment_groups metas = fold group_add metas []"

record shipment_estimate =
  sh_key :: string
  sh_provider :: shipping_provider
  sh_vaultPartnerId :: "string option"
  sh_vaultLabel :: string
  sh_cardCount :: nat
  sh_shippingUsd :: rat
  sh_retrievalFeeTotalUsd :: rat
  sh_earlyWithdrawalFeeTotalUsd :: rat
  sh_totalUsd :: rat
  sh_shippingSource :: shipping_source
  sh_shippingServiceType :: "string option"
  sh_shippingRateType :: "string option"
  sh_shippingQuoteExpiresAt :: "int option"
  sh_shippingDestinationCountry :: "string option"
  sh_cards :: "card_fee_line list"

definition usd_sum :: "('a \<Rightarrow> rat) \<Rightarrow> 'a list \<Rightarrow> rat" where
  "usd_sum f xs = sum_list (map f xs)"

definition psa_cards ::
  "int \<Rightarrow> psa_fee_config \<Rightarrow> redeem_country \<Rightarrow> string \<Rightarrow> token_meta list \<Rightarrow> card_fee_line list" where
  "psa_cards now cfg country key tokens = (case tokens of [] \<Rightarrow> [] | m # ms \<Rightarrow>
     psaCardFees now cfg country (tm_tokenId m) (tm_vaultedAt m) True key
     # map (\<lambda>m. psaCardFees now cfg country (tm_tokenId m) (tm_vaultedAt m) False key) ms)"

definition psa_shipment ::
  "int \<Rightarrow> psa_fee_config \<Rightarrow> redeem_country \<Rightarrow> shipment_group \<Rightarrow> shipment_estimate" where
  "psa_shipment now cfg country g =
     (let cards = psa_cards now cfg country (sg_key g) (sg_tokens g);
          shippingUsd = usd_sum cf_shippingUsd cards;
          retrievalFeeTotalUsd = roundUsd (usd_sum cf_retrievalUsd cards);
          earlyWithdrawalFeeTotalUsd = roundUsd (usd_sum cf_earlyWithdrawalUsd cards)
      in \<lparr>sh_key = sg_key g, sh_provider = psa_vault, sh_vaultPartnerId = None,
          sh_vaultLabel = ''PSA Vault'', sh_cardCount = length cards,
          sh_shippingUsd = roundUsd shippingUsd, sh_retrievalFeeTotalUsd = retrievalFeeTotalUsd,
          sh_earlyWithdrawalFeeTotalUsd = earlyWithdrawalFeeTotalUsd,
          sh_totalUsd = roundUsd (shippingUsd + retrievalFeeTotalUsd + earlyWithdrawalFeeTotalUsd),
          sh_shippingSource = psa_published, sh_shippingServiceType = None,
          sh_shippingRateType = None, sh_shippingQuoteExpiresAt = None,
          sh_shippingDestinationCountry = None, sh_cards = cards\<rparr>)"

definition partner_line :: "string \<Rightarrow> rat \<Rightarrow> token_meta \<Rightarrow> card_fee_line" where
  "partner_line key shippingUsd m =
     \<lparr>cf_tokenId = tm_tokenId m, cf_vaultedAt = tm_vaultedAt m, cf_earlyWithdrawal = False,
      cf_retrievalUsd = 0, cf_earlyWithdrawalUsd = 0, cf_shippingUsd = shippingUsd,
      cf_totalUsd = roundUsd shippingUsd, cf_shipmentKey = key\<rparr>"

definition partner_cards :: "string \<Rightarrow> rat \<Rightarrow> token_meta list \<Rightarrow> card_fee_line list" where
  "partner_cards key shippingUsd tokens = (case tokens of [] \<Rightarrow> [] | m # ms \<Rightarrow>
     partner_line key shippingUsd m # map (partner_line key 0) ms)"

definition partner_shipment ::
  "config \<Rightarrow> int \<Rightarrow> (string \<Rightarrow> rate_address option) \<Rightarrow> rate_address option \<Rightarrow> shipment_group \<Rightarrow>
   shipment_estimate result" where
  "partner_shipment config now findAddressByPartnerId destination g =
     (let partnerId = or_empty (sg_partnerId g) in
      case findAddressByPartnerId partnerId of
        None \<Rightarrow> Inl (BadRequestException ''COMPANY_ADDRESS_REQUIRED'')
      | Some origin \<Rightarrow> (case destination of
          None \<Rightarrow> Inl (BadRequestException ''shipTo destination country is required'')
        | Some dest \<Rightarrow> on_ok (fedex_quote config now origin dest) (\<lambda>quote.
            let cards = partner_cards (sg_key g) (sq_shippingUsd quote) (sg_tokens g);
                shippingUsd = roundUsd (sq_shippingUsd quote)
            in Inr \<lparr>sh_key = sg_key g, sh_provider = partner, sh_vaultPartnerId = Some partnerId,
                 sh_vaultLabel = ''Tokenable Vault'', sh_cardCount = length cards,
                 sh_shippingUsd = shippingUsd, sh_retrievalFeeTotalUsd = 0,
                 sh_earlyWithdrawalFeeTotalUsd = 0, sh_totalUsd = shippingUsd,
                 sh_shippingSource = sq_source quote, sh_shippingServiceType = sq_serviceType quote,
                 sh_shippingRateType = sq_rateType quote,
                 sh_shippingQuoteExpiresAt = Some (sq_expiresAt quote),
                 sh_shippingDestinationCountry = Some (ra_country dest), sh_cards = cards\<rparr>)))"

section \<open>The estimate\<close>

datatype age_basis = deposited_at | unknown_assume_early

record redeem_estimate =
  re_country :: redeem_country
  re_cardCount :: nat
  re_shippingUsd :: rat
  re_retrievalFeePerCardUsd :: rat
  re_earlyWithdrawalFeePerCardUsd :: rat
  re_earlyWithdrawalDays :: int
  re_earlyWithdrawalCardCount :: nat
  re_retrievalFeeTotalUsd :: rat
  re_earlyWithdrawalFeeTotalUsd :: rat
  re_withdrawFeePerCardUsd :: rat
  re_withdrawFeeTotalUsd :: rat
  re_totalUsd :: rat
  re_totalUsdcMicros :: int
  re_payToAddress :: "string option"
  re_cards :: "card_fee_line list"
  re_shipments :: "shipment_estimate list"
  re_source :: string
  re_ageBasis :: age_basis
  re_shippingQuoteExpiresAt :: "int option"

record fee_ship_to =
  fs_name :: string
  fs_line1 :: string
  fs_line2 :: "string option"
  fs_city :: string
  fs_region :: "string option"
  fs_postal :: string
  fs_phone :: string
  fs_countryCode :: "string option"

text \<open>What the calculator reads: the configuration, the clock and the addresses of partners.\<close>

record fee_env =
  fn_config :: config
  fn_now :: int
  fn_findAddressByPartnerId :: "string \<Rightarrow> rate_address option"

definition positive_ids :: "rat list \<Rightarrow> nat list" where
  "positive_ids ns = map nat (filter (\<lambda>i. 0 < i) (map floor ns))"

definition meta_of_custody ::
  "custody_row list \<Rightarrow> (string \<rightharpoonup> int option \<times> nat \<times> vault_cycle_status) \<Rightarrow> nat \<Rightarrow> token_meta result" where
  "meta_of_custody rows ages tokenId =
     (case find_row (\<lambda>c. cu_tokenId c = nat_str tokenId) rows of
        None \<Rightarrow> Inl (BadRequestException ''RWA token is not indexed for this chain'')
      | Some row \<Rightarrow> (case (cu_known row, cu_settlementPolicy row) of
          (True, Some policy) \<Rightarrow>
            Inr \<lparr>tm_tokenId = tokenId, tm_settlementPolicy = policy,
                 tm_vaultPartnerId = cu_vaultPartnerId row,
                 tm_vaultedAt = Option.bind (ages (nat_str tokenId)) fst\<rparr>
        | _ \<Rightarrow> Inl (BadRequestException ''RWA token is not indexed for this chain'')))"

text \<open>A map over a list that stops at the first error.\<close>

fun map_ok :: "('a \<Rightarrow> 'b result) \<Rightarrow> 'a list \<Rightarrow> 'b list result" where
  "map_ok f [] = Inr []"
| "map_ok f (x # xs) = on_ok (f x) (\<lambda>y. on_ok (map_ok f xs) (\<lambda>ys. Inr (y # ys)))"

definition check_group :: "psa_fee_config \<Rightarrow> shipment_group \<Rightarrow> unit result" where
  "check_group cfg g =
     (if pf_maxItems cfg < int (length (sg_tokens g))
      then Inl (BadRequestException ''Too many cards in one shipment'')
      else if sg_provider g = partner \<and> or_empty (sg_partnerId g) = []
      then Inl (BadRequestException ''Self vault token is missing vault_partner_id'')
      else Inr ())"

text \<open>The address of the buyer, resolved only when a partner has to ship.\<close>

definition quote_destination ::
  "redeem_country \<Rightarrow> fee_ship_to option \<Rightarrow> shipment_group list \<Rightarrow> rate_address option result" where
  "quote_destination country shipTo groups =
     (if \<not> list_ex (\<lambda>g. sg_provider g = partner) groups then Inr None
      else case shipTo of
        None \<Rightarrow> Inl (BadRequestException ''shipTo is required for Partner Self vault shipping quotes'')
      | Some s \<Rightarrow> on_ok (resolveShipToDestinationIso2 (bucket_str country) (fs_countryCode s)) (\<lambda>iso.
          Inr (Some \<lparr>ra_companyName = None, ra_contactName = Some (fs_name s),
            ra_phone = Some (fs_phone s), ra_country = iso, ra_city = fs_city s,
            ra_region = fs_region s, ra_postal = fs_postal s, ra_line1 = fs_line1 s,
            ra_line2 = fs_line2 s, ra_residential = True\<rparr>)))"

definition shipment_of ::
  "fee_env \<Rightarrow> redeem_country \<Rightarrow> rate_address option \<Rightarrow> shipment_group \<Rightarrow> shipment_estimate result" where
  "shipment_of env country destination g =
     (if sg_provider g = psa_vault
      then Inr (psa_shipment (fn_now env) (loadPsaVaultFeeConfig (fn_config env)) country g)
      else partner_shipment (fn_config env) (fn_now env) (fn_findAddressByPartnerId env) destination g)"

definition earliest :: "int option list \<Rightarrow> int option" where
  "earliest ds = fold (\<lambda>d acc. case (d, acc) of
       (None, _) \<Rightarrow> acc | (Some x, None) \<Rightarrow> Some x | (Some x, Some y) \<Rightarrow> Some (if x < y then x else y))
     ds None"

fun join_plus :: "string list \<Rightarrow> string" where
  "join_plus [] = []"
| "join_plus [s] = s"
| "join_plus (s # ss) = s @ ''+'' @ join_plus ss"

definition total_estimate ::
  "config \<Rightarrow> redeem_country \<Rightarrow> shipment_estimate list \<Rightarrow> redeem_estimate" where
  "total_estimate config country shipments =
     (let cfg = loadPsaVaultFeeConfig config;
          allCards = concat (map sh_cards shipments);
          shippingUsd = roundUsd (usd_sum sh_shippingUsd shipments);
          retrievalFeeTotalUsd = roundUsd (usd_sum sh_retrievalFeeTotalUsd shipments);
          earlyWithdrawalFeeTotalUsd = roundUsd (usd_sum sh_earlyWithdrawalFeeTotalUsd shipments);
          withdrawFeeTotalUsd = roundUsd (retrievalFeeTotalUsd + earlyWithdrawalFeeTotalUsd);
          totalUsd = roundUsd (shippingUsd + withdrawFeeTotalUsd)
      in \<lparr>re_country = country, re_cardCount = length allCards, re_shippingUsd = shippingUsd,
          re_retrievalFeePerCardUsd = pf_retrievalUsd cfg,
          re_earlyWithdrawalFeePerCardUsd = pf_earlyUsd cfg,
          re_earlyWithdrawalDays = pf_earlyDays cfg,
          re_earlyWithdrawalCardCount = length (filter cf_earlyWithdrawal allCards),
          re_retrievalFeeTotalUsd = retrievalFeeTotalUsd,
          re_earlyWithdrawalFeeTotalUsd = earlyWithdrawalFeeTotalUsd,
          re_withdrawFeePerCardUsd = roundUsd (withdrawFeeTotalUsd / of_nat (max 1 (length allCards))),
          re_withdrawFeeTotalUsd = withdrawFeeTotalUsd, re_totalUsd = totalUsd,
          re_totalUsdcMicros = usdToUsdcMicros totalUsd,
          re_payToAddress = getConfiguredRecipient config, re_cards = allCards,
          re_shipments = shipments,
          re_source = join_plus (js_unique (map (\<lambda>s. source_str (sh_shippingSource s)) shipments)),
          re_ageBasis = deposited_at,
          re_shippingQuoteExpiresAt = earliest (map sh_shippingQuoteExpiresAt shipments)\<rparr>)"

text \<open>Without token ids the cards are unknown, and all of them are taken as early.\<close>

definition estimatePsaOnlyCardCount :: "fee_env \<Rightarrow> redeem_country \<Rightarrow> rat \<Rightarrow> redeem_estimate" where
  "estimatePsaOnlyCardCount env country cardCount =
     (let cfg = loadPsaVaultFeeConfig (fn_config env);
          count = nat (min (pf_maxItems cfg) (max 1 \<lfloor>cardCount\<rfloor>));
          cards = map (\<lambda>i. psaCardFees (fn_now env) cfg country 0 None (i = 0) ''psa_vault'') [0..<count];
          earlyCount = length (filter cf_earlyWithdrawal cards);
          shippingUsd = usd_sum cf_shippingUsd cards;
          retrievalFeeTotalUsd = roundUsd (pf_retrievalUsd cfg * of_nat count);
          earlyWithdrawalFeeTotalUsd = roundUsd (pf_earlyUsd cfg * of_nat earlyCount);
          withdrawFeeTotalUsd = roundUsd (retrievalFeeTotalUsd + earlyWithdrawalFeeTotalUsd);
          totalUsd = roundUsd (shippingUsd + withdrawFeeTotalUsd);
          shipment = \<lparr>sh_key = ''psa_vault'', sh_provider = psa_vault, sh_vaultPartnerId = None,
            sh_vaultLabel = ''PSA Vault'', sh_cardCount = count, sh_shippingUsd = roundUsd shippingUsd,
            sh_retrievalFeeTotalUsd = retrievalFeeTotalUsd,
            sh_earlyWithdrawalFeeTotalUsd = earlyWithdrawalFeeTotalUsd, sh_totalUsd = totalUsd,
            sh_shippingSource = psa_published, sh_shippingServiceType = None,
            sh_shippingRateType = None, sh_shippingQuoteExpiresAt = None,
            sh_shippingDestinationCountry = None, sh_cards = cards\<rparr>
      in \<lparr>re_country = country, re_cardCount = count, re_shippingUsd = roundUsd shippingUsd,
          re_retrievalFeePerCardUsd = pf_retrievalUsd cfg,
          re_earlyWithdrawalFeePerCardUsd = pf_earlyUsd cfg,
          re_earlyWithdrawalDays = pf_earlyDays cfg, re_earlyWithdrawalCardCount = earlyCount,
          re_retrievalFeeTotalUsd = retrievalFeeTotalUsd,
          re_earlyWithdrawalFeeTotalUsd = earlyWithdrawalFeeTotalUsd,
          re_withdrawFeePerCardUsd = roundUsd (withdrawFeeTotalUsd / of_nat (max 1 count)),
          re_withdrawFeeTotalUsd = withdrawFeeTotalUsd, re_totalUsd = totalUsd,
          re_totalUsdcMicros = usdToUsdcMicros totalUsd,
          re_payToAddress = getConfiguredRecipient (fn_config env), re_cards = cards,
          re_shipments = [shipment], re_source = ''psa_vault_published_schedule'',
          re_ageBasis = unknown_assume_early, re_shippingQuoteExpiresAt = None\<rparr>)"

text \<open>The shipments and their sum, once the cards are known.\<close>

definition price_cards ::
  "fee_env \<Rightarrow> redeem_country \<Rightarrow> fee_ship_to option \<Rightarrow> token_meta list \<Rightarrow> redeem_estimate result" where
  "price_cards env country shipTo metas =
     (let groups = shipment_groups metas in
      on_ok (for_each_check (check_group (loadPsaVaultFeeConfig (fn_config env))) groups) (\<lambda>_.
      on_ok (quote_destination country shipTo groups) (\<lambda>destination.
      on_ok (map_ok (shipment_of env country destination) groups) (\<lambda>shipments.
      Inr (total_estimate (fn_config env) country shipments)))))"

text \<open>Reading the custody of the cards may heal the registry, so the database is returned.\<close>

definition fee_estimate ::
  "fee_env \<Rightarrow> redeem_country \<Rightarrow> rat option \<Rightarrow> rat list \<Rightarrow> nat option \<Rightarrow> fee_ship_to option \<Rightarrow>
   vault_db \<Rightarrow> redeem_estimate result \<times> vault_db" where
  "fee_estimate env country cardCount tokenIds chainId shipTo db =
     (let uniqueIds = js_unique (positive_ids tokenIds) in
      if uniqueIds = []
      then (Inr (estimatePsaOnlyCardCount env country (case cardCount of None \<Rightarrow> 1 | Some n \<Rightarrow> n)), db)
      else case chainId of
        None \<Rightarrow> (Inl (BadRequestException ''chainId header required when estimating with tokenIds''), db)
      | Some ch \<Rightarrow> (case getRwaAddress (fn_config env) ch of
          Inl e \<Rightarrow> (Inl e, db)
        | Inr contract \<Rightarrow>
            let (rows, db') = getVaultCustodyRows contract (map nat_str uniqueIds) db;
                ages = getDepositedAtByTokenIds contract (map nat_str uniqueIds) db'
            in (if list_ex (\<lambda>c. \<not> cu_known c) rows
                then Inl (BadRequestException ''RWA token(s) not indexed for this chain'')
                else on_ok (map_ok (meta_of_custody rows ages) uniqueIds) (\<lambda>metas.
                  price_cards env country shipTo metas), db')))"

section \<open>Whole cents\<close>

text \<open>roundUsd is the identity on whole cents, and sums of whole cents are whole cents.\<close>

definition whole_cents :: "rat \<Rightarrow> bool" where
  "whole_cents x = (of_int \<lfloor>x * 100\<rfloor> = x * 100)"

named_theorems cents \<open>amounts that are whole cents\<close>

lemma whole_cents_iff: "whole_cents x \<longleftrightarrow> x * 100 \<in> \<int>"
  unfolding whole_cents_def by (metis Ints_cases Ints_of_int floor_of_int)

lemma js_round_of_int [simp]: "js_round (of_int i) = i"
  unfolding js_round_def by (rule floor_unique) simp_all

lemma roundUsd_cents [simp]: "whole_cents x \<Longrightarrow> roundUsd x = x"
proof -
  assume "whole_cents x"
  then have "js_round (x * 100) = \<lfloor>x * 100\<rfloor>" unfolding whole_cents_def by (metis js_round_of_int)
  with \<open>whole_cents x\<close> show ?thesis by (simp add: roundUsd_def whole_cents_def)
qed

lemma cents_0 [cents, simp]: "whole_cents 0"
  by (simp add: whole_cents_def)

lemma cents_flat [cents, simp]: "whole_cents REDEEM_FLAT_SHIPPING_USD"
  by (simp add: whole_cents_def REDEEM_FLAT_SHIPPING_USD_def)

lemma cents_add [cents]: "whole_cents x \<Longrightarrow> whole_cents y \<Longrightarrow> whole_cents (x + y)"
  unfolding whole_cents_iff by (metis Ints_add distrib_right)

lemma cents_round [cents, simp]: "whole_cents (roundUsd x)"
  by (simp add: whole_cents_def roundUsd_def)

lemma cents_sum [cents]: "\<forall>x \<in> set xs. whole_cents (f x) \<Longrightarrow> whole_cents (usd_sum f xs)"
  by (induction xs) (simp_all add: usd_sum_def cents_add)

lemma usd_sum_simps [simp]:
  "usd_sum f [] = 0" "usd_sum f (x # xs) = f x + usd_sum f xs"
  "usd_sum f (xs @ ys) = usd_sum f xs + usd_sum f ys"
  by (simp_all add: usd_sum_def)

lemma usd_sum_add: "usd_sum (\<lambda>x. f x + g x) xs = usd_sum f xs + usd_sum g xs"
  by (induction xs) simp_all

lemma usd_sum_cong: "(\<And>x. x \<in> set xs \<Longrightarrow> f x = g x) \<Longrightarrow> usd_sum f xs = usd_sum g xs"
  by (induction xs) simp_all

lemma usd_sum_concat: "usd_sum f (concat xss) = usd_sum (usd_sum f) xss"
  by (induction xss) simp_all

lemma usd_sum_zero: "(\<And>x. x \<in> set xs \<Longrightarrow> f x = 0) \<Longrightarrow> usd_sum f xs = 0"
  by (induction xs) simp_all

lemma micros_of_cents:
  assumes x: "whole_cents x"
  shows "of_int (usdToUsdcMicros x) = x * 1000000"
proof -
  have "of_int \<lfloor>x * 100\<rfloor> = x * 100" using x unfolding whole_cents_def .
  then have "of_int (\<lfloor>x * 100\<rfloor> * 10000) = x * 100 * 10000" by (simp only: of_int_mult of_int_numeral)
  then have e: "x * 1000000 = of_int (\<lfloor>x * 100\<rfloor> * 10000)" by simp
  show ?thesis
    unfolding usdToUsdcMicros_def roundUsd_cents [OF x] unfolding e by (simp only: js_round_of_int)
qed

lemma micros_mono: "x \<le> y \<Longrightarrow> usdToUsdcMicros x \<le> usdToUsdcMicros y"
proof -
  assume "x \<le> y"
  then have "js_round (x * 100) \<le> js_round (y * 100)"
    by (simp add: js_round_def floor_mono)
  then have "roundUsd x \<le> roundUsd y" by (simp add: roundUsd_def divide_right_mono)
  then show ?thesis by (simp add: usdToUsdcMicros_def js_round_def floor_mono)
qed

text \<open>The prices of the configuration are whole cents; the defaults are.\<close>

definition cents_config :: "psa_fee_config \<Rightarrow> bool" where
  "cents_config cfg = (whole_cents (pf_shippingUs cfg) \<and> whole_cents (pf_shippingCa cfg)
     \<and> whole_cents (pf_shippingIntl cfg) \<and> whole_cents (pf_retrievalUsd cfg)
     \<and> whole_cents (pf_earlyUsd cfg))"

lemma default_cents: "cents_config (loadPsaVaultFeeConfig (\<lambda>_. None))"
  by (simp add: cents_config_def loadPsaVaultFeeConfig_def envNum_def or_empty_def whole_cents_def)

section \<open>Every card is in one shipment\<close>

lemma mset_group_add:
  "mset (concat (map sg_tokens (group_add m gs))) = add_mset m (mset (concat (map sg_tokens gs)))"
  by (induction m gs rule: group_add.induct) (auto simp: new_group_def Let_def)

lemma mset_groups: "mset (concat (map sg_tokens (shipment_groups ms))) = mset ms"
proof -
  have "mset (concat (map sg_tokens (fold group_add ms gs))) = mset (concat (map sg_tokens gs)) + mset ms" for gs
    by (induction ms arbitrary: gs) (simp_all add: mset_group_add del: mset_concat)
  from this [of "[]"] show ?thesis by (simp add: shipment_groups_def del: mset_concat)
qed

definition group_ok :: "shipment_group \<Rightarrow> bool" where
  "group_ok g = (sg_tokens g \<noteq> [] \<and> (\<forall>m \<in> set (sg_tokens g). group_key m = sg_key g))"

lemma group_add_keys: "sg_key ` set (group_add m gs) = insert (group_key m) (sg_key ` set gs)"
  by (induction m gs rule: group_add.induct) (auto simp: new_group_def Let_def)

definition groups_wf :: "shipment_group list \<Rightarrow> bool" where
  "groups_wf gs = (list_all group_ok gs \<and> distinct (map sg_key gs))"

lemma group_add_wf: "groups_wf gs \<Longrightarrow> groups_wf (group_add m gs)"
proof (induction m gs rule: group_add.induct)
  case (1 m)
  then show ?case by (simp add: groups_wf_def new_group_def Let_def group_ok_def)
next
  case (2 m g gs)
  then have g: "group_ok g" "sg_key g \<notin> sg_key ` set gs" "groups_wf gs"
    by (simp_all add: groups_wf_def)
  show ?case
  proof (cases "sg_key g = group_key m")
    case True
    then have "group_ok (g\<lparr>sg_tokens := sg_tokens g @ [m]\<rparr>)" using g(1) by (simp add: group_ok_def)
    then show ?thesis using g True by (simp add: groups_wf_def)
  next
    case False
    then have "groups_wf (group_add m gs)" "sg_key g \<notin> sg_key ` set (group_add m gs)"
      using 2 g group_add_keys [of m gs] by auto
    then show ?thesis using g False by (simp add: groups_wf_def)
  qed
qed

lemma groups_ok: "groups_wf (shipment_groups ms)"
proof -
  have "groups_wf gs \<Longrightarrow> groups_wf (fold group_add ms gs)" for gs
    by (induction ms arbitrary: gs) (simp_all add: group_add_wf)
  from this [of "[]"] show ?thesis by (simp add: shipment_groups_def groups_wf_def)
qed

lemma groups_nonempty: "g \<in> set (shipment_groups ms) \<Longrightarrow> sg_tokens g \<noteq> []"
  using groups_ok [of ms] by (auto simp: groups_wf_def list_all_iff group_ok_def)

section \<open>A shipment charges the sum of its cards\<close>

lemma psaCardFees_simps [simp]:
  "cf_tokenId (psaCardFees now cfg country i v b key) = i"
  "cf_shipmentKey (psaCardFees now cfg country i v b key) = key"
  by (simp_all add: psaCardFees_def Let_def)

lemma psa_line_total:
  assumes cfg: "cents_config cfg" and l: "l = psaCardFees now cfg country i v b key"
  shows "cf_totalUsd l = cf_shippingUsd l + cf_retrievalUsd l + cf_earlyWithdrawalUsd l
     \<and> whole_cents (cf_shippingUsd l) \<and> whole_cents (cf_retrievalUsd l)
     \<and> whole_cents (cf_earlyWithdrawalUsd l)"
proof -
  have c: "whole_cents (cf_shippingUsd l)" "whole_cents (cf_retrievalUsd l)"
    "whole_cents (cf_earlyWithdrawalUsd l)"
    using cfg unfolding l psaCardFees_def Let_def psaShippingUsd_def cents_config_def
    by (simp_all split: redeem_country.split)
  have "cf_totalUsd l = roundUsd (cf_retrievalUsd l + cf_earlyWithdrawalUsd l + cf_shippingUsd l)"
    by (simp add: l psaCardFees_def Let_def)
  also have "\<dots> = cf_retrievalUsd l + cf_earlyWithdrawalUsd l + cf_shippingUsd l"
    using c by (intro roundUsd_cents cents_add)
  finally show ?thesis using c by simp
qed

lemma psa_cards_line:
  "l \<in> set (psa_cards now cfg country key ms) \<Longrightarrow> \<exists>i v b. l = psaCardFees now cfg country i v b key"
  by (auto simp: psa_cards_def split: list.splits)

lemma psa_cards_ids: "map cf_tokenId (psa_cards now cfg country key ms) = map tm_tokenId ms"
  by (auto simp: psa_cards_def comp_def split: list.splits)

lemma partner_cards_ids: "map cf_tokenId (partner_cards key x ms) = map tm_tokenId ms"
  by (auto simp: partner_cards_def partner_line_def comp_def split: list.splits)

text \<open>The parts of a shipment add up to its cards, and are whole cents.\<close>

definition shipment_adds_up :: "shipment_estimate \<Rightarrow> bool" where
  "shipment_adds_up s = (whole_cents (sh_shippingUsd s) \<and> whole_cents (sh_retrievalFeeTotalUsd s)
     \<and> whole_cents (sh_earlyWithdrawalFeeTotalUsd s)
     \<and> sh_totalUsd s = sh_shippingUsd s + sh_retrievalFeeTotalUsd s + sh_earlyWithdrawalFeeTotalUsd s
     \<and> sh_totalUsd s = usd_sum cf_totalUsd (sh_cards s))"

lemma psa_shipment_adds_up:
  assumes cfg: "cents_config cfg"
  shows "shipment_adds_up (psa_shipment now cfg country g)"
proof -
  let ?c = "psa_cards now cfg country (sg_key g) (sg_tokens g)"
  have l: "cf_totalUsd l = cf_shippingUsd l + cf_retrievalUsd l + cf_earlyWithdrawalUsd l"
    "whole_cents (cf_shippingUsd l)" "whole_cents (cf_retrievalUsd l)"
    "whole_cents (cf_earlyWithdrawalUsd l)" if "l \<in> set ?c" for l
    using psa_cards_line [OF that] psa_line_total [OF cfg] by blast+
  have "usd_sum cf_totalUsd ?c = usd_sum (\<lambda>l. cf_shippingUsd l + cf_retrievalUsd l + cf_earlyWithdrawalUsd l) ?c"
    by (rule usd_sum_cong) (rule l(1))
  then have "usd_sum cf_totalUsd ?c = usd_sum cf_shippingUsd ?c + usd_sum cf_retrievalUsd ?c
      + usd_sum cf_earlyWithdrawalUsd ?c" by (simp add: usd_sum_add)
  moreover have "whole_cents (usd_sum cf_shippingUsd ?c)" "whole_cents (usd_sum cf_retrievalUsd ?c)"
    "whole_cents (usd_sum cf_earlyWithdrawalUsd ?c)" using l by (auto intro: cents_sum)
  ultimately show ?thesis
    by (simp add: shipment_adds_up_def psa_shipment_def Let_def cents_add)
qed

lemma fedex_quote_flat: "fedex_quote config now a b = Inr q \<Longrightarrow> q = flatShippingQuote config now"
  by (auto simp: fedex_quote_def on_ok_eq_Inr)

lemma partner_shipment_adds_up:
  assumes "partner_shipment config now look dest g = Inr s" "sg_tokens g \<noteq> []"
  shows "shipment_adds_up s \<and> map cf_tokenId (sh_cards s) = map tm_tokenId (sg_tokens g)"
proof -
  from assms(1) obtain a d q where "look (or_empty (sg_partnerId g)) = Some a" "dest = Some d"
    and q: "fedex_quote config now a d = Inr q"
    and s: "sh_shippingUsd s = roundUsd (sq_shippingUsd q)" "sh_totalUsd s = roundUsd (sq_shippingUsd q)"
      "sh_retrievalFeeTotalUsd s = 0" "sh_earlyWithdrawalFeeTotalUsd s = 0"
      "sh_cards s = partner_cards (sg_key g) (sq_shippingUsd q) (sg_tokens g)"
    by (auto simp: partner_shipment_def Let_def on_ok_eq_Inr split: option.splits)
  from fedex_quote_flat [OF q] have x: "sq_shippingUsd q = REDEEM_FLAT_SHIPPING_USD"
    by (simp add: flatShippingQuote_def)
  obtain m ms where ms: "sg_tokens g = m # ms" using assms(2) by (cases "sg_tokens g") auto
  have "usd_sum cf_totalUsd (map (partner_line k 0) ms) = 0" for k
    by (rule usd_sum_zero) (auto simp: partner_line_def)
  then have "usd_sum cf_totalUsd (sh_cards s) = REDEEM_FLAT_SHIPPING_USD"
    by (simp add: s x ms partner_cards_def) (simp add: partner_line_def)
  then show ?thesis by (simp add: shipment_adds_up_def s x partner_cards_ids)
qed

lemma shipment_of_adds_up:
  assumes "cents_config (loadPsaVaultFeeConfig (fn_config env))"
    and "shipment_of env country dest g = Inr s" "sg_tokens g \<noteq> []"
  shows "shipment_adds_up s \<and> map cf_tokenId (sh_cards s) = map tm_tokenId (sg_tokens g)"
  using assms psa_shipment_adds_up partner_shipment_adds_up
  by (auto simp: shipment_of_def psa_shipment_def Let_def psa_cards_ids split: if_splits)

section \<open>The estimate is the sum of its lines\<close>

lemma map_ok_Inr: "map_ok f xs = Inr ys \<Longrightarrow> list_all2 (\<lambda>x y. f x = Inr y) xs ys"
  by (induction xs arbitrary: ys) (auto simp: on_ok_eq_Inr)

lemma map_ok_all: "map_ok f xs = Inr ys \<Longrightarrow> y \<in> set ys \<Longrightarrow> \<exists>x \<in> set xs. f x = Inr y"
  by (induction xs arbitrary: ys) (auto simp: on_ok_eq_Inr)

lemma map_ok_map:
  "map_ok f xs = Inr ys \<Longrightarrow> (\<And>x y. x \<in> set xs \<Longrightarrow> f x = Inr y \<Longrightarrow> g y = h x) \<Longrightarrow> map g ys = map h xs"
  by (induction xs arbitrary: ys) (auto simp: on_ok_eq_Inr)

lemma total_estimate_simps [simp]:
  "re_cards (total_estimate config country ss) = concat (map sh_cards ss)"
  "re_shipments (total_estimate config country ss) = ss"
  "re_cardCount (total_estimate config country ss) = length (concat (map sh_cards ss))"
  "re_totalUsdcMicros (total_estimate config country ss)
     = usdToUsdcMicros (re_totalUsd (total_estimate config country ss))"
  by (simp_all add: total_estimate_def Let_def)

lemma total_cents [simp]: "whole_cents (re_totalUsd (total_estimate config country ss))"
  by (simp add: total_estimate_def Let_def)

lemma total_estimate_sum:
  assumes "\<forall>s \<in> set ss. shipment_adds_up s"
  shows "re_totalUsd (total_estimate config country ss) = usd_sum sh_totalUsd ss
    \<and> usd_sum sh_totalUsd ss = usd_sum cf_totalUsd (concat (map sh_cards ss))"
proof -
  have "usd_sum sh_totalUsd ss = usd_sum (\<lambda>s. sh_shippingUsd s
      + (sh_retrievalFeeTotalUsd s + sh_earlyWithdrawalFeeTotalUsd s)) ss"
    by (rule usd_sum_cong) (use assms in \<open>auto simp: shipment_adds_up_def\<close>)
  then have 1: "usd_sum sh_totalUsd ss = usd_sum sh_shippingUsd ss
      + (usd_sum sh_retrievalFeeTotalUsd ss + usd_sum sh_earlyWithdrawalFeeTotalUsd ss)"
    by (simp add: usd_sum_add)
  have "whole_cents (usd_sum sh_shippingUsd ss)" "whole_cents (usd_sum sh_retrievalFeeTotalUsd ss)"
    "whole_cents (usd_sum sh_earlyWithdrawalFeeTotalUsd ss)"
    using assms by (auto simp: shipment_adds_up_def intro: cents_sum)
  then have 2: "re_totalUsd (total_estimate config country ss) = usd_sum sh_totalUsd ss"
    by (simp add: total_estimate_def Let_def 1 cents_add)
  have "usd_sum sh_totalUsd ss = usd_sum (\<lambda>s. usd_sum cf_totalUsd (sh_cards s)) ss"
    by (rule usd_sum_cong) (use assms shipment_adds_up_def in blast)
  also have "\<dots> = usd_sum (usd_sum cf_totalUsd) (map sh_cards ss)"
    by (simp add: usd_sum_def comp_def)
  finally show ?thesis using 2 by (simp only: usd_sum_concat)
qed

lemma price_cards_Inr:
  assumes ok: "price_cards env country shipTo metas = Inr e"
  obtains dest ss where "e = total_estimate (fn_config env) country ss"
    "map_ok (shipment_of env country dest) (shipment_groups metas) = Inr ss"
    "for_each_check (check_group (loadPsaVaultFeeConfig (fn_config env))) (shipment_groups metas) = Inr ()"
    "quote_destination country shipTo (shipment_groups metas) = Inr dest"
  using ok unfolding price_cards_def Let_def by (auto simp: on_ok_eq_Inr)

lemma price_cards_sum:
  assumes ok: "price_cards env country shipTo metas = Inr e"
    and cfg: "cents_config (loadPsaVaultFeeConfig (fn_config env))"
  shows "re_totalUsd e = usd_sum cf_totalUsd (re_cards e)"
    and "re_totalUsd e = usd_sum sh_totalUsd (re_shipments e)"
    and "mset (map cf_tokenId (re_cards e)) = mset (map tm_tokenId metas)"
    and "of_int (re_totalUsdcMicros e) = re_totalUsd e * 1000000"
proof -
  from ok obtain dest ss where e: "e = total_estimate (fn_config env) country ss"
    and ss: "map_ok (shipment_of env country dest) (shipment_groups metas) = Inr ss"
    by (rule price_cards_Inr)
  have "shipment_adds_up s" if "s \<in> set ss" for s
    using map_ok_all [OF ss that] groups_nonempty shipment_of_adds_up [OF cfg] by blast
  then show "re_totalUsd e = usd_sum cf_totalUsd (re_cards e)"
    and "re_totalUsd e = usd_sum sh_totalUsd (re_shipments e)"
    using total_estimate_sum [of ss "fn_config env" country] by (simp_all add: e)
  have "map (\<lambda>s. map cf_tokenId (sh_cards s)) ss = map (\<lambda>g. map tm_tokenId (sg_tokens g)) (shipment_groups metas)"
    by (rule map_ok_map [OF ss]) (use groups_nonempty shipment_of_adds_up [OF cfg] in blast)
  then have "map cf_tokenId (concat (map sh_cards ss)) = map tm_tokenId (concat (map sg_tokens (shipment_groups metas)))"
    by (simp only: map_concat map_map comp_def)
  then show "mset (map cf_tokenId (re_cards e)) = mset (map tm_tokenId metas)"
    by (simp add: e) (metis mset_groups mset_map mset_concat)
  show "of_int (re_totalUsdcMicros e) = re_totalUsd e * 1000000"
    by (simp add: e micros_of_cents)
qed

lemma positive_ids_pos: "i \<in> set (positive_ids ns) \<Longrightarrow> 0 < i"
  by (auto simp: positive_ids_def)

lemma meta_of_custody_id: "meta_of_custody rows ages i = Inr m \<Longrightarrow> tm_tokenId m = i"
  by (auto simp: meta_of_custody_def split: option.splits bool.splits)

lemma metas_ids: "map_ok (meta_of_custody rows ages) ids = Inr ms \<Longrightarrow> map tm_tokenId ms = ids"
  using map_ok_map [of "meta_of_custody rows ages" ids ms tm_tokenId "\<lambda>i. i"]
  by (simp add: meta_of_custody_id)

lemma fee_estimate_Inr:
  assumes "fee_estimate env country n ids ch shipTo db = (Inr e, db')" "positive_ids ids \<noteq> []"
  obtains metas where "price_cards env country shipTo metas = Inr e"
    "map tm_tokenId metas = js_unique (positive_ids ids)"
proof -
  have "js_unique (positive_ids ids) \<noteq> []"
    using assms(2) set_js_unique [of "positive_ids ids"] by (metis set_empty)
  then show thesis
    using assms(1) that
    by (auto simp: fee_estimate_def Let_def on_ok_eq_Inr metas_ids
        split: option.splits sum.splits prod.splits if_splits)
qed

end
