(* ===== verification/VaultMachine.thy ===== *)
theory VaultMachine
  imports OwnerIndex Machine
begin

text \<open>
  The vault as a state machine: every operation of the service that writes is a step, with any
  arguments and at any time, and an operation that throws after a first write is a step to the
  database it leaves. The invariant of VaultInvariant holds in every reachable database, and no
  step moves a cycle back.
\<close>

inductive vault_step :: "(string \<Rightarrow> string) \<Rightarrow> vault_db \<Rightarrow> vault_db \<Rightarrow> bool" for k where
  reserve: "reserveCycleForDeposit k now cert ch ty name user db = Inr (a, c, db') \<Longrightarrow> vault_step k db db'"
| begin_mint: "beginMintAttempt now i att db = Inr db' \<Longrightarrow> vault_step k db db'"
| note_mint: "noteMintAttemptTx now i tid tx db = db' \<Longrightarrow> vault_step k db db'"
| cancel: "cancelCycle now i db = db' \<Longrightarrow> vault_step k db db'"
| record_mint: "recordMintResult k now p db = (db', res) \<Longrightarrow> vault_step k db db'"
| request: "requestRedemption now tc tid user owner ship fees db = Inr (r, db') \<Longrightarrow> vault_step k db db'"
| paid_batch: "createPaidRedemptionBatch k now tx b m paidAt ch items db = Inr (out, db') \<Longrightarrow>
    vault_step k db db'"
| custody_received: "markCustodyReceived now i tx db = Inr (r, db') \<Longrightarrow> vault_step k db db'"
| burn: "completeRedemptionBurn now tc tid tx by db = db' \<Longrightarrow> vault_step k db db'"
| release: "confirmVaultRelease now i db = Inr (r, db') \<Longrightarrow> vault_step k db db'"
| receipt: "known_rows rows db \<Longrightarrow> markUserReceiptConfirmed now via rows db = (rows', db') \<Longrightarrow>
    vault_step k db db'"
| ensure_policy: "ensureSettlementPolicy tc tid p db = db' \<Longrightarrow> vault_step k db db'"
| transfer: "recordTransfer now tc tid w db = db' \<Longrightarrow> vault_step k db db'"
| own: "recordOwner tc tid w db = db' \<Longrightarrow> vault_step k db db'"

inductive_cases vault_stepE: "vault_step k db db'"

lemma unique_index_map:
  assumes "\<And>x. key (f x) = key x" "\<And>x. g (f x) = g x" "\<And>x. p (f x) = p x"
  shows "unique_index key g p (map f t) = unique_index key g p t"
  using assms by (simp add: unique_index_def)

lemma ensure_policy_wf:
  assumes "vault_wf db"
  shows "vault_wf (ensureSettlementPolicy tc tid p db)"
proof -
  let ?f = "fill_policy (js_lower (js_trim tc)) (js_trim tid) p"
  have 1: "uq_tokens_vault_cycle (map ?f ts) = uq_tokens_vault_cycle ts" for ts
    unfolding uq_tokens_vault_cycle_def by (rule unique_index_map) simp_all
  have 2: "uq_tokens_contract_cert_active (map ?f ts) = uq_tokens_contract_cert_active ts" for ts
    unfolding uq_tokens_contract_cert_active_def by (rule unique_index_map) simp_all
  have 3: "map rt_key (map ?f ts) = map rt_key ts" for ts
    by simp
  have "tokens_wf (db\<lparr>vd_tokens := map ?f (vd_tokens db)\<rparr>)"
    using assms 1 2 3 unfolding vault_wf_def tokens_wf_def tokens_unique_def
    by (simp add: comp_def)
  then have "vault_wf (db\<lparr>vd_tokens := map ?f (vd_tokens db)\<rparr>)"
    using assms by (simp add: vault_wf_def keys_wf_def uq_assets_type_cert_def cycles_wf_def
        uq_cycles_one_open_per_asset_chain_def uq_cycles_asset_number_def redemptions_wf_def
        uq_redemptions_one_open_per_cycle_def cycles_of_asset_def in_redemption_def claims_wf_def)
  then show ?thesis
    using assms by (simp add: ensureSettlementPolicy_def Let_def)
qed

lemma ensure_policy_advance: "cycles_advance db (ensureSettlementPolicy tc tid p db)"
  by (rule cycles_advance_same) (simp add: ensureSettlementPolicy_def Let_def)

lemma recordTransfer_ok:
  "vault_wf db \<Longrightarrow> vault_wf (recordTransfer now c i w db) \<and> cycles_advance db (recordTransfer now c i w db)"
  by (simp add: recordTransfer_def Let_def recordOwner_wf recordBurn_wf cycles_advance_same)

lemma vault_step_ok:
  "vault_step k db db' \<Longrightarrow> vault_wf db \<Longrightarrow> vault_wf db' \<and> cycles_advance db db'"
  by (elim vault_stepE)
     (auto dest: reserve_wf beginMint_wf record_wf requestRedemption_wf createPaidBatch_wf
        markCustody_wf confirmRelease_wf markReceipt_wf
        simp: noteMint_wf cancelCycle_wf completeBurn_wf ensure_policy_wf ensure_policy_advance
          recordTransfer_ok recordOwner_wf cycles_advance_same)

interpretation vault_machine: monotone_machine "vault_step k" vault_wf cycles_advance for k
  by unfold_locales (auto dest: vault_step_ok intro: cycles_advance_trans)

lemma reachable_wf: "(vault_step k)\<^sup>*\<^sup>* empty_db db \<Longrightarrow> vault_wf db"
  using vault_machine.steps_inv empty_db_wf by blast

section \<open>What other services write\<close>

text \<open>
  The order book and the owner index write to the registry in two ways only: they fill a policy
  that is missing and they move the owner of a token. Neither touches cycles, redemptions or
  claims, and neither changes a policy that is set.
\<close>

inductive registry_step :: "vault_db \<Rightarrow> vault_db \<Rightarrow> bool" where
  fill: "ensureSettlementPolicy tc tid p db = db' \<Longrightarrow> registry_step db db'"
| owner: "recordOwner tc tid w db = db' \<Longrightarrow> registry_step db db'"

inductive_cases registry_stepE: "registry_step db db'"

lemma registry_vault: "registry_step db db' \<Longrightarrow> vault_step k db db'"
  by (elim registry_stepE) (auto intro: ensure_policy own)

lemma registry_vault_steps: "registry_step\<^sup>*\<^sup>* db db' \<Longrightarrow> (vault_step k)\<^sup>*\<^sup>* db db'"
  by (induction rule: rtranclp_induct) (auto dest: registry_vault intro: rtranclp.rtrancl_into_rtrancl)

definition registry_le :: "vault_db \<Rightarrow> vault_db \<Rightarrow> bool" where
  "registry_le db db' = (vd_assets db' = vd_assets db \<and> vd_cycles db' = vd_cycles db
     \<and> vd_redemptions db' = vd_redemptions db \<and> vd_claims db' = vd_claims db
     \<and> (\<forall>k p. stored_policy k db = Some p \<longrightarrow> stored_policy k db' = Some p))"

lemma registry_le_refl [simp]: "registry_le db db"
  by (simp add: registry_le_def)

lemma registry_le_trans: "registry_le a b \<Longrightarrow> registry_le b c \<Longrightarrow> registry_le a c"
  unfolding registry_le_def by metis

lemma registry_frames:
  "vd_assets (recordOwner c i w db) = vd_assets db" "vd_cycles (recordOwner c i w db) = vd_cycles db"
  "vd_redemptions (recordOwner c i w db) = vd_redemptions db"
  "vd_claims (recordOwner c i w db) = vd_claims db"
  "vd_assets (ensureSettlementPolicy c i p db) = vd_assets db"
  "vd_cycles (ensureSettlementPolicy c i p db) = vd_cycles db"
  "vd_redemptions (ensureSettlementPolicy c i p db) = vd_redemptions db"
  "vd_claims (ensureSettlementPolicy c i p db) = vd_claims db"
  by (simp_all add: recordOwner_def put_owner_def ensureSettlementPolicy_def Let_def)

lemma registry_step_le: "registry_step db db' \<Longrightarrow> registry_le db db'"
  using policy_registry.ensure_keeps [of _ db _ "(c, i)" for c i]
  by (elim registry_stepE) (auto simp: registry_le_def registry_frames)

lemma registry_step_wf: "registry_step db db' \<Longrightarrow> vault_wf db \<Longrightarrow> vault_wf db'"
  using registry_vault vault_step_ok by blast

interpretation registry_machine: monotone_machine registry_step vault_wf registry_le
  by unfold_locales (auto dest: registry_step_wf registry_step_le intro: registry_le_trans)

section \<open>Reads that heal a policy\<close>

lemma ensure_steps: "registry_step\<^sup>*\<^sup>* db (ensureSettlementPolicy c i p db)"
  by (rule r_into_rtranclp) (rule registry_step.fill [OF refl])

lemma own_steps: "registry_step\<^sup>*\<^sup>* db (recordOwner c i w db)"
  by (rule r_into_rtranclp) (rule registry_step.owner [OF refl])

lemma resolve_steps: "registry_step\<^sup>*\<^sup>* db (snd (resolveRowSettlementPolicy row db))"
  by (simp add: resolveRowSettlementPolicy_def ensure_steps)

lemma getPolicy_steps: "registry_step\<^sup>*\<^sup>* db (snd (getSettlementPolicy c i db))"
  by (simp add: getSettlementPolicy_def resolve_steps split: option.split)

lemma custody_row1_steps: "registry_step\<^sup>*\<^sup>* db (snd (custody_row1 rows i db))"
proof (cases "by_norm rows (normalizeDecimalTokenId i)")
  case (Some row)
  have "snd (custody_row1 rows i db) = snd (resolveRowSettlementPolicy row db)"
    using Some by (simp add: custody_row1_def split: prod.split option.split settlement_policy.split)
  then show ?thesis using resolve_steps by simp
qed (simp add: custody_row1_def)

lemma custody_rows_steps: "registry_step\<^sup>*\<^sup>* db (snd (custody_rows rows ids db))"
proof (induction ids arbitrary: db)
  case (Cons i ids)
  show ?case
    using rtranclp_trans [OF custody_row1_steps Cons.IH] by (simp add: case_prod_beta Let_def)
qed simp

lemma display_steps: "registry_step\<^sup>*\<^sup>* db (snd (getVaultDisplayByTokenIds c ids db))"
  by (simp add: getVaultDisplayByTokenIds_def getVaultCustodyRows_def Let_def case_prod_beta custody_rows_steps)

end
