(* ===== verification/TokenRegistry.thy ===== *)
theory TokenRegistry
  imports VaultMachine
begin

text \<open>
  The writer of the token registry (marketplace/collections/rwa-token-registry.service.ts): the
  rows of rwa_tokens are filled from the metadata that a token points to on chain. Reading the
  chain and IPFS, and deriving certificate, name and collection key from the metadata, are
  answers of the environment. The upsert never touches the settlement policy, the vault cycle
  or the owner of a row.
\<close>

text \<open>What the service derives from a metadata document.\<close>

record chain_meta =
  cm_certNumber :: "string option"
  cm_displayName :: "string option"
  cm_collectionKey :: "string option"

text \<open>None stands for a call that fails; rg_emptyMeta is what an empty document gives.\<close>

record registry_env =
  rg_config :: config
  rg_now :: int
  rg_tokenURI :: "nat \<Rightarrow> nat \<Rightarrow> string option"
  rg_isIpfs :: "string \<Rightarrow> bool"
  rg_metadata :: "string \<Rightarrow> chain_meta option"
  rg_emptyMeta :: chain_meta

definition strip_ipfs_dir :: "string \<Rightarrow> string" where
  "strip_ipfs_dir s = (if take 5 s = ''ipfs/'' then drop 5 s else s)"

definition metadataCidFromTokenUri :: "string \<Rightarrow> string option" where
  "metadataCidFromTokenUri uri = (let u = js_trim uri in
     if take 7 u \<noteq> ''ipfs://'' then None
     else non_empty (js_trim (takeWhile (\<lambda>c. c \<noteq> CHR ''/'') (strip_ipfs_dir (drop 7 u)))))"

definition registryMetadataUri :: "rwa_token \<Rightarrow> string" where
  "registryMetadataUri row = (case trim_or_null (rt_tokenUri row) of
      Some uri \<Rightarrow> uri
    | None \<Rightarrow> (case trim_or_null (rt_metadataCid row) of
        None \<Rightarrow> []
      | Some cid \<Rightarrow> if take 7 (js_lower cid) = ''ipfs://'' then cid else ''ipfs://'' @ cid))"

definition resolveMetadataUriForToken ::
  "registry_env \<Rightarrow> string \<Rightarrow> nat \<Rightarrow> nat \<Rightarrow> vault_db \<Rightarrow> string option" where
  "resolveMetadataUriForToken env contract ch tokenId db =
     (let chainUri = js_trim (or_empty (rg_tokenURI env ch tokenId));
          registryUri = (case find_token (contract, nat_str tokenId) db of
            None \<Rightarrow> [] | Some row \<Rightarrow> registryMetadataUri row)
      in if chainUri \<noteq> [] \<and> rg_isIpfs env chainUri then Some chainUri
         else if registryUri \<noteq> [] \<and> rg_isIpfs env registryUri then Some registryUri
         else let fallback = (if chainUri \<noteq> [] then chainUri else registryUri)
              in if js_trim fallback \<noteq> [] then Some fallback else None)"

text \<open>INSERT ... ON CONFLICT (token_contract, token_id) DO UPDATE of the listed columns.\<close>

definition synced_row ::
  "int \<Rightarrow> chain_meta \<Rightarrow> string option \<Rightarrow> string option \<Rightarrow> rwa_token \<Rightarrow> rwa_token" where
  "synced_row now meta tokenUri collectionKey base =
     (let row = base\<lparr>rt_certNumber := cm_certNumber meta, rt_tokenUri := tokenUri,
                rt_metadataCid := Option.bind tokenUri metadataCidFromTokenUri,
                rt_displayName := cm_displayName meta, rt_metadataSyncedAt := Some now\<rparr>
      in if or_empty collectionKey \<noteq> [] then row\<lparr>rt_collectionKey := collectionKey\<rparr> else row)"

definition token_or_stub :: "string \<Rightarrow> string \<Rightarrow> vault_db \<Rightarrow> rwa_token" where
  "token_or_stub contract tid db =
     (case find_token (contract, tid) db of Some t \<Rightarrow> t | None \<Rightarrow> stub_token contract tid)"

definition upsertFromMetadata ::
  "registry_env \<Rightarrow> string \<Rightarrow> nat \<Rightarrow> chain_meta \<Rightarrow> string option \<Rightarrow> string option \<Rightarrow> vault_db \<Rightarrow> vault_db result" where
  "upsertFromMetadata env contract tokenId meta uri collectionKeyOpt db =
     (let tid = nat_str tokenId; tokenUri = trim_or_null uri;
          collectionKey = (case map_option js_lower (trim_or_null collectionKeyOpt) of
            Some key \<Rightarrow> Some key | None \<Rightarrow> cm_collectionKey meta)
      in save_token_checked
           (synced_row (rg_now env) meta tokenUri collectionKey (token_or_stub contract tid db)) db)"

text \<open>A failure of the sync is logged and the row stays as it is.\<close>

definition syncTokenFromChain ::
  "registry_env \<Rightarrow> string \<Rightarrow> nat \<Rightarrow> nat \<Rightarrow> string option \<Rightarrow> vault_db \<Rightarrow> vault_db" where
  "syncTokenFromChain env contract ch tokenId collectionKey db =
     (case resolveMetadataUriForToken env contract ch tokenId db of
        None \<Rightarrow> db
      | Some uri \<Rightarrow> (case rg_metadata env uri of
          None \<Rightarrow> db
        | Some meta \<Rightarrow> (case upsertFromMetadata env contract tokenId meta (Some uri) collectionKey db of
            Inl e \<Rightarrow> db | Inr db' \<Rightarrow> db')))"

definition ensureFromChain :: "registry_env \<Rightarrow> string \<Rightarrow> nat \<Rightarrow> nat \<Rightarrow> vault_db \<Rightarrow> vault_db" where
  "ensureFromChain env contract ch tokenId db =
     (if tokenId = 0 then db
      else let db1 = syncTokenFromChain env contract ch tokenId None db in
        if find_token (contract, nat_str tokenId) db1 \<noteq> None then db1
        else case rg_tokenURI env ch tokenId of
          None \<Rightarrow> db1
        | Some uri \<Rightarrow> (case upsertFromMetadata env contract tokenId (rg_emptyMeta env) (Some uri) None db1 of
            Inl e \<Rightarrow> db1 | Inr db2 \<Rightarrow> db2))"

section \<open>The registry keeps custody\<close>

lemma synced_row_simps [simp]:
  "rt_key (synced_row now meta u ck base) = rt_key base"
  "rt_vaultCycleId (synced_row now meta u ck base) = rt_vaultCycleId base"
  "rt_settlementPolicy (synced_row now meta u ck base) = rt_settlementPolicy base"
  "rt_ownerWallet (synced_row now meta u ck base) = rt_ownerWallet base"
  "rt_burnedAt (synced_row now meta u ck base) = rt_burnedAt base"
  "rt_vaultPartnerId (synced_row now meta u ck base) = rt_vaultPartnerId base"
  by (simp_all add: synced_row_def Let_def rt_key_def)

text \<open>A write to the registry that keeps every row's cycle, policy and burn date.\<close>

definition registry_keeps :: "vault_db \<Rightarrow> vault_db \<Rightarrow> bool" where
  "registry_keeps db db' = (\<exists>ts. db' = db\<lparr>vd_tokens := ts\<rparr>
     \<and> (\<forall>k t. find_token k db = Some t \<longrightarrow> (\<exists>t'. find_token k db' = Some t'
          \<and> rt_vaultCycleId t' = rt_vaultCycleId t \<and> rt_settlementPolicy t' = rt_settlementPolicy t
          \<and> rt_burnedAt t' = rt_burnedAt t)))"

lemma registry_keeps_refl [simp]: "registry_keeps db db"
  unfolding registry_keeps_def by (intro exI [of _ "vd_tokens db"]) simp

lemma registry_keeps_trans: "registry_keeps a b \<Longrightarrow> registry_keeps b c \<Longrightarrow> registry_keeps a c"
  unfolding registry_keeps_def by (elim exE conjE) (fastforce intro: exI)

lemma upsertFromMetadata_Inr:
  assumes ok: "upsertFromMetadata env contract i meta u ck db = Inr db'"
  obtains base row where "db' = save_token row db" "tokens_unique (vd_tokens db')"
    "rt_key row = (contract, nat_str i)" "rt_vaultCycleId row = rt_vaultCycleId base"
    "rt_settlementPolicy row = rt_settlementPolicy base" "rt_burnedAt row = rt_burnedAt base"
    "find_token (contract, nat_str i) db = Some base
     \<or> find_token (contract, nat_str i) db = None \<and> base = stub_token contract (nat_str i)"
proof -
  let ?base = "token_or_stub contract (nat_str i) db"
  have b: "find_token (contract, nat_str i) db = Some ?base
     \<or> find_token (contract, nat_str i) db = None \<and> ?base = stub_token contract (nat_str i)"
    by (simp add: token_or_stub_def split: option.split)
  then have k: "rt_key ?base = (contract, nat_str i)"
    using find_token_Some stub_token_key by metis
  obtain v key where "save_token_checked (synced_row (rg_now env) meta v key ?base) db = Inr db'"
    using ok unfolding upsertFromMetadata_def Let_def by blast
  then have sv: "db' = save_token (synced_row (rg_now env) meta v key ?base) db"
    and uq: "tokens_unique (vd_tokens db')"
    by (auto simp: save_token_checked_def Let_def split: if_splits)
  show thesis by (rule that [OF sv uq _ _ _ _ b]) (simp_all add: k)
qed

lemma upsertFromMetadata_wf:
  assumes wf: "vault_wf db" and ok: "upsertFromMetadata env contract i meta u ck db = Inr db'"
  shows "vault_wf db'"
  using ok
proof (rule upsertFromMetadata_Inr)
  fix base row
  assume db': "db' = save_token row db" and uq: "tokens_unique (vd_tokens db')"
    and c: "rt_vaultCycleId row = rt_vaultCycleId base"
    and b: "find_token (contract, nat_str i) db = Some base
     \<or> find_token (contract, nat_str i) db = None \<and> base = stub_token contract (nat_str i)"
  have link: "\<exists>c. find_cycle j db = Some c \<and> minted \<le> vc_status c \<and> vc_status c \<noteq> cancelled"
    if "rt_vaultCycleId row = Some j" for j
    using b
  proof
    assume "find_token (contract, nat_str i) db = Some base"
    then have "base \<in> set (vd_tokens db)" using find_token_Some by blast
    then show ?thesis using wf that c find_cycle_member [OF wf]
      unfolding vault_wf_def tokens_wf_def by metis
  qed (use that c in \<open>simp add: stub_token_def\<close>)
  show ?thesis unfolding db' by (rule save_token_wf [OF wf uq [unfolded db'] link])
qed

lemma upsertFromMetadata_keeps:
  assumes ok: "upsertFromMetadata env contract i meta u ck db = Inr db'"
  shows "registry_keeps db db'"
  using ok
proof (rule upsertFromMetadata_Inr)
  fix base row
  assume db': "db' = save_token row db" and k: "rt_key row = (contract, nat_str i)"
    and r: "rt_vaultCycleId row = rt_vaultCycleId base"
      "rt_settlementPolicy row = rt_settlementPolicy base" "rt_burnedAt row = rt_burnedAt base"
    and b: "find_token (contract, nat_str i) db = Some base
     \<or> find_token (contract, nat_str i) db = None \<and> base = stub_token contract (nat_str i)"
  have "\<exists>t'. find_token kk db' = Some t' \<and> rt_vaultCycleId t' = rt_vaultCycleId t
      \<and> rt_settlementPolicy t' = rt_settlementPolicy t \<and> rt_burnedAt t' = rt_burnedAt t"
    if "find_token kk db = Some t" for kk t
    using that b k r by (auto simp: db' token_repo.look_put)
  moreover have "db' = db\<lparr>vd_tokens := vd_tokens db'\<rparr>" by (simp add: db' save_token_def)
  ultimately show ?thesis unfolding registry_keeps_def by blast
qed

lemma sync_ok:
  "vault_wf db \<Longrightarrow> vault_wf (syncTokenFromChain env c ch i ck db)"
  "registry_keeps db (syncTokenFromChain env c ch i ck db)"
  by (auto simp: syncTokenFromChain_def upsertFromMetadata_wf upsertFromMetadata_keeps
      split: option.split sum.split)

lemma ensure_ok:
  "vault_wf db \<Longrightarrow> vault_wf (ensureFromChain env c ch i db)"
  "registry_keeps db (ensureFromChain env c ch i db)"
proof -
  have 1: "vault_wf db \<Longrightarrow> vault_wf (syncTokenFromChain env c ch i None db)"
    and 2: "registry_keeps db (syncTokenFromChain env c ch i None db)" using sync_ok by blast+
  show "vault_wf db \<Longrightarrow> vault_wf (ensureFromChain env c ch i db)"
    using 1 by (auto simp: ensureFromChain_def Let_def upsertFromMetadata_wf split: option.split sum.split)
  show "registry_keeps db (ensureFromChain env c ch i db)"
    using 2 by (auto simp: ensureFromChain_def Let_def dest: upsertFromMetadata_keeps
        intro: registry_keeps_trans split: option.split sum.split)
qed

end
