(* ===== verification/BidRules.thy ===== *)
theory BidRules
  imports SeaportOrder
begin

text \<open>
  The rules for a new bid (marketplace/utils/token-bid-duration.util.ts and
  orders/bid-crosses-ask.util.ts): the window between startTime and endTime, and the live ask
  that a bid would take. A number that did not parse is None, as Number.isFinite tells it.
\<close>

section \<open>The bid window\<close>

definition TOKEN_BID_ALLOWED_DURATION_DAYS :: "nat list" where
  "TOKEN_BID_ALLOWED_DURATION_DAYS = [1, 3, 7, 14, 30, 60, 90, 180]"

definition TOKEN_BID_SECONDS_PER_DAY :: rat where
  "TOKEN_BID_SECONDS_PER_DAY = 86400"

definition TOKEN_BID_DURATION_SKEW_SEC :: rat where
  "TOKEN_BID_DURATION_SKEW_SEC = 120"

definition TOKEN_BID_START_SKEW_SEC :: rat where
  "TOKEN_BID_START_SKEW_SEC = 15 * 60"

definition TOKEN_BID_MAX_DURATION_DAYS :: rat where
  "TOKEN_BID_MAX_DURATION_DAYS = 180"

definition isAllowedTokenBidDurationSec :: "rat \<Rightarrow> bool" where
  "isAllowedTokenBidDurationSec durationSec =
     (if durationSec \<le> 0 then False
      else list_ex (\<lambda>d. \<bar>durationSec - of_nat d * TOKEN_BID_SECONDS_PER_DAY\<bar>
                          \<le> TOKEN_BID_DURATION_SKEW_SEC) TOKEN_BID_ALLOWED_DURATION_DAYS)"

text \<open>The reason of the refusal, or None when the window is valid.\<close>

definition tokenBidWindowIsValid :: "rat option \<Rightarrow> rat option \<Rightarrow> rat option \<Rightarrow> string option" where
  "tokenBidWindowIsValid startTimeSec endTimeSec nowSec =
     (case (startTimeSec, endTimeSec, nowSec) of
        (Some start, Some endT, Some now) \<Rightarrow>
          if endT \<le> start then Some ''Bid endTime must be after startTime''
          else if TOKEN_BID_START_SKEW_SEC < \<bar>start - now\<bar>
          then Some ''Bid startTime is too far from now''
          else if \<not> isAllowedTokenBidDurationSec (endT - start)
          then Some ''Bid duration must be 1, 3, 7, 14, 30, 60, 90, or 180 days''
          else if now + TOKEN_BID_MAX_DURATION_DAYS * TOKEN_BID_SECONDS_PER_DAY
                    + TOKEN_BID_DURATION_SKEW_SEC < endT
          then Some ''Bid endTime exceeds the 180-day maximum''
          else None
      | _ \<Rightarrow> Some ''Bid startTime and endTime must be numbers'')"

lemmas window_consts = TOKEN_BID_SECONDS_PER_DAY_def TOKEN_BID_DURATION_SKEW_SEC_def
  TOKEN_BID_START_SKEW_SEC_def TOKEN_BID_MAX_DURATION_DAYS_def TOKEN_BID_ALLOWED_DURATION_DAYS_def

lemma allowed_duration_bounds:
  "isAllowedTokenBidDurationSec d \<Longrightarrow> 86280 \<le> d \<and> d \<le> 15552120"
  by (auto simp: isAllowedTokenBidDurationSec_def window_consts split: if_splits)

lemma window_valid_iff:
  "tokenBidWindowIsValid s e n = None \<longleftrightarrow> (\<exists>start endT now. s = Some start \<and> e = Some endT \<and> n = Some now
     \<and> start < endT \<and> \<bar>start - now\<bar> \<le> 900 \<and> isAllowedTokenBidDurationSec (endT - start)
     \<and> endT \<le> now + 15552120)"
  by (auto simp: tokenBidWindowIsValid_def window_consts split: option.splits)

section \<open>Crossing asks\<close>

definition parseMicros :: "string \<Rightarrow> int" where
  "parseMicros raw = (let s = js_trim raw in
     if s = [] then 0 else case js_BigInt s of None \<Rightarrow> 0 | Some n \<Rightarrow> n)"

definition windowOpen :: "int \<Rightarrow> order \<Rightarrow> bool" where
  "windowOpen nowMs row =
     (if 0 < o_endTime row \<and> o_endTime row < nowMs then False
      else if nowMs < o_startTime row then False else True)"

definition order_key :: "order \<Rightarrow> string" where
  "order_key r = js_lower (js_trim (o_orderHash r))"

text \<open>The loop over the candidates: duplicates of an order hash are skipped.\<close>

fun live_asks :: "int \<Rightarrow> int \<Rightarrow> string list \<Rightarrow> order list \<Rightarrow> (order \<times> int) list" where
  "live_asks bidMicros nowMs seen [] = []"
| "live_asks bidMicros nowMs seen (row # rows) =
     (let h = order_key row in
      if h \<noteq> [] \<and> h \<in> set seen then live_asks bidMicros nowMs seen rows
      else let seen' = (if h \<noteq> [] then h # seen else seen);
               price = parseMicros (o_considerationAmount row) in
        if o_status row \<noteq> ACTIVE \<or> o_side row = BID \<or> \<not> windowOpen nowMs row
           \<or> price \<le> 0 \<or> bidMicros < price
        then live_asks bidMicros nowMs seen' rows
        else (row, price) # live_asks bidMicros nowMs seen' rows)"

text \<open>
  The comparison of the sort: the price, then the token id. Asks carry decimal token ids, on
  which localeCompare with numeric collation compares the numbers.
\<close>

definition ask_rank :: "order \<times> int \<Rightarrow> int \<times> int" where
  "ask_rank a = (snd a, parseMicros (o_tokenId (fst a)))"

definition rank_le :: "int \<times> int \<Rightarrow> int \<times> int \<Rightarrow> bool" where
  "rank_le a b = (fst a < fst b \<or> fst a = fst b \<and> snd a \<le> snd b)"

fun first_ranked :: "(order \<times> int) list \<Rightarrow> (order \<times> int) option" where
  "first_ranked [] = None"
| "first_ranked (x # xs) = (case first_ranked xs of
      None \<Rightarrow> Some x
    | Some y \<Rightarrow> if rank_le (ask_rank x) (ask_rank y) then Some x else Some y)"

definition pickCrossingAskForBid :: "order list \<Rightarrow> string \<Rightarrow> int \<Rightarrow> int \<Rightarrow> order option" where
  "pickCrossingAskForBid asks bidder bidMicros nowMs =
     (if bidMicros \<le> 0 then None
      else map_option fst (first_ranked (live_asks bidMicros nowMs [] asks)))"

text \<open>What makes an ask live for a bid.\<close>

definition live_ask :: "int \<Rightarrow> int \<Rightarrow> order \<Rightarrow> bool" where
  "live_ask bidMicros nowMs row = (o_status row = ACTIVE \<and> o_side row = ASK \<and> windowOpen nowMs row
     \<and> 0 < parseMicros (o_considerationAmount row) \<and> parseMicros (o_considerationAmount row) \<le> bidMicros)"

lemma first_ranked_None [simp]: "first_ranked xs = None \<longleftrightarrow> xs = []"
  by (cases xs) (auto split: option.splits)

lemma first_ranked_Some:
  "first_ranked xs = Some y \<Longrightarrow> y \<in> set xs \<and> (\<forall>x \<in> set xs. snd y \<le> snd x)"
proof (induction xs arbitrary: y)
  case (Cons x xs)
  show ?case
  proof (cases "first_ranked xs")
    case None
    with Cons.prems show ?thesis by simp
  next
    case (Some z)
    with Cons.IH [OF Some] Cons.prems show ?thesis
      by (fastforce simp: rank_le_def ask_rank_def split: if_splits)
  qed
qed simp

lemma live_asks_sound:
  "(r, pr) \<in> set (live_asks b n seen rows) \<Longrightarrow>
   r \<in> set rows \<and> live_ask b n r \<and> pr = parseMicros (o_considerationAmount r)"
proof (induction b n seen rows rule: live_asks.induct)
  case (2 b n seen row rows)
  then show ?case
    by (auto simp: live_ask_def Let_def split: if_splits intro: order_side.exhaust)
qed simp

text \<open>Orders have unique hashes; then no live ask is missed, however often it is listed.\<close>

lemma live_asks_complete:
  "inj_on order_key (set rows) \<Longrightarrow> order_key r \<notin> set seen \<Longrightarrow> r \<in> set rows \<Longrightarrow> live_ask b n r \<Longrightarrow>
   (r, parseMicros (o_considerationAmount r)) \<in> set (live_asks b n seen rows)"
proof (induction rows arbitrary: seen)
  case (Cons row rows)
  let ?h = "order_key row" and ?seen = "if order_key row \<noteq> [] then order_key row # seen else seen"
  show ?case
  proof (cases "r = row")
    case True
    with Cons.prems show ?thesis by (simp add: Let_def live_ask_def)
  next
    case False
    then have r: "r \<in> set rows" "order_key r \<noteq> ?h"
      using Cons.prems by (auto simp: inj_on_def)
    have inj: "inj_on order_key (set rows)" using Cons.prems(1) by (rule inj_on_subset) auto
    have "(r, parseMicros (o_considerationAmount r)) \<in> set (live_asks b n seen rows)"
      "(r, parseMicros (o_considerationAmount r)) \<in> set (live_asks b n ?seen rows)"
      using Cons.IH [OF inj _ r(1) Cons.prems(4)] Cons.prems(2) r(2) by simp_all
    then show ?thesis by (simp add: Let_def)
  qed
qed simp

lemma pick_crossing_Some:
  assumes "pickCrossingAskForBid asks w b n = Some r"
  shows "r \<in> set asks \<and> live_ask b n r \<and> 0 < b"
proof -
  from assms obtain pr where "first_ranked (live_asks b n [] asks) = Some (r, pr)" and b: "0 < b"
    by (auto simp: pickCrossingAskForBid_def split: if_splits)
  then have "(r, pr) \<in> set (live_asks b n [] asks)" using first_ranked_Some by blast
  then show ?thesis using live_asks_sound b by blast
qed

lemma pick_crossing_least:
  assumes "pickCrossingAskForBid asks w b n = Some r"
    and "inj_on order_key (set asks)"
    and "s \<in> set asks" "live_ask b n s"
  shows "parseMicros (o_considerationAmount r) \<le> parseMicros (o_considerationAmount s)"
proof -
  from assms(1) obtain pr where f: "first_ranked (live_asks b n [] asks) = Some (r, pr)"
    by (auto simp: pickCrossingAskForBid_def split: if_splits)
  have "(s, parseMicros (o_considerationAmount s)) \<in> set (live_asks b n [] asks)"
    by (rule live_asks_complete [OF assms(2)]) (use assms in auto)
  then have "pr \<le> parseMicros (o_considerationAmount s)" using first_ranked_Some [OF f] by force
  moreover have "pr = parseMicros (o_considerationAmount r)"
    using first_ranked_Some [OF f] live_asks_sound by blast
  ultimately show ?thesis by simp
qed

lemma pick_crossing_None:
  assumes "inj_on order_key (set asks)" "0 < b"
  shows "pickCrossingAskForBid asks w b n = None \<longleftrightarrow> (\<forall>r \<in> set asks. \<not> live_ask b n r)"
proof
  assume none: "pickCrossingAskForBid asks w b n = None"
  show "\<forall>r \<in> set asks. \<not> live_ask b n r"
  proof (intro ballI notI)
    fix r assume "r \<in> set asks" "live_ask b n r"
    then have "(r, parseMicros (o_considerationAmount r)) \<in> set (live_asks b n [] asks)"
      by (intro live_asks_complete [OF assms(1)]) auto
    with none assms(2) show False by (auto simp: pickCrossingAskForBid_def)
  qed
next
  assume "\<forall>r \<in> set asks. \<not> live_ask b n r"
  then show "pickCrossingAskForBid asks w b n = None"
    using pick_crossing_Some [of asks w b n] by (cases "pickCrossingAskForBid asks w b n") auto
qed

end
