(* ===== verification/OrderChecks.thy ===== *)
theory OrderChecks
  imports BidRules Settlement
begin

text \<open>
  The guards of marketplace/orders/orders.service.ts that a new or replaced order passes:
  the shape of token bids and criteria bids, the consideration of asks, the settlement policy
  of the token, ownership on chain, the limit on bids and the crossing of live asks; and the
  proofs of settlement on chain that a fulfilment needs. A guard that only reads returns a
  result; assertAskSettlementPolicy may heal the token's policy, so it returns the database too.
\<close>

section \<open>Bids\<close>

text \<open>The checks that assertValidTokenBid and assertValidCriteriaBid have in common.\<close>

definition check_bid_items :: "config \<Rightarrow> int \<Rightarrow> create_order_dto \<Rightarrow> nat \<Rightarrow> cons_item result" where
  "check_bid_items config itemType dto chainId =
     (case (offer0 (dto_parameters dto), cons0 (dto_parameters dto)) of
        (Some offer, Some cons) \<Rightarrow>
          if oi_itemType offer \<noteq> 1
          then Inl (BadRequestException ''Bid offer[0] must be ERC20 (itemType 1)'')
          else if ci_itemType cons \<noteq> itemType
          then Inl (BadRequestException ''Bid consideration[0] has the wrong itemType'')
          else on_ok (getUsdcAddress config chainId) (\<lambda>usdc.
            if js_lower (oi_token offer) \<noteq> js_lower usdc
            then Inl (BadRequestException ''Bid offer token must match USDC for chain'')
            else if js_lower (ci_token cons) \<noteq> js_lower (dto_tokenContract dto)
            then Inl (BadRequestException ''Bid consideration token must match tokenContract'')
            else Inr cons)
      | _ \<Rightarrow> Inl (BadRequestException ''Bid order must include offer and consideration items''))"

definition check_bid_window :: "int \<Rightarrow> create_order_dto \<Rightarrow> unit result" where
  "check_bid_window nowMs dto =
     (case tokenBidWindowIsValid (js_Number (sp_startTime (dto_parameters dto)))
             (js_Number (sp_endTime (dto_parameters dto))) (Some (of_int nowMs / 1000)) of
        Some reason \<Rightarrow> Inl (BadRequestException reason)
      | None \<Rightarrow> Inr ())"

definition assertValidTokenBid :: "config \<Rightarrow> int \<Rightarrow> create_order_dto \<Rightarrow> nat \<Rightarrow> unit result" where
  "assertValidTokenBid config nowMs dto chainId =
     on_ok (check_bid_items config 2 dto chainId) (\<lambda>cons.
       let tid = js_trim (dto_tokenId dto) in
       if \<not> isValidDecimalTokenId (Some tid)
       then Inl (BadRequestException ''Token bids require a valid tokenId'')
       else let consId = js_trim (ci_identifierOrCriteria cons) in
       if \<not> isValidDecimalTokenId (Some consId)
          \<or> normalizeDecimalTokenId consId \<noteq> normalizeDecimalTokenId tid
       then Inl (BadRequestException ''Bid consideration identifierOrCriteria must match tokenId'')
       else check_bid_window nowMs dto)"

definition assertValidCriteriaBid :: "config \<Rightarrow> int \<Rightarrow> create_order_dto \<Rightarrow> nat \<Rightarrow> unit result" where
  "assertValidCriteriaBid config nowMs dto chainId =
     on_ok (check_bid_items config 4 dto chainId) (\<lambda>cons.
       let root = js_trim (ci_identifierOrCriteria cons) in
       if root = [] \<or> root = ''0''
       then Inl (BadRequestException ''Collection bid requires a Merkle root in identifierOrCriteria'')
       else let tid = js_trim (dto_tokenId dto) in
       if \<not> isValidDecimalTokenId (Some tid) \<or> tid \<noteq> CRITERIA_TOKEN_SENTINEL
       then Inl (BadRequestException ''Collection bids must use tokenId 0 (criteria sentinel)'')
       else check_bid_window nowMs dto)"

definition maxActiveCollectionBidsPerOfferer :: "config \<Rightarrow> rat" where
  "maxActiveCollectionBidsPerOfferer config =
     (case Option.bind (config ''marketplace.maxActiveCollectionBidsPerOfferer'') js_Number of
        None \<Rightarrow> 0 | Some n \<Rightarrow> n)"

definition lower_key :: "string option \<Rightarrow> string option" where
  "lower_key k = map_option js_lower k"

definition assertActiveTokenBidLimit ::
  "config \<Rightarrow> string \<Rightarrow> string \<Rightarrow> nat \<Rightarrow> order list \<Rightarrow> unit result" where
  "assertActiveTokenBidLimit config offererAddress collectionKey chainId orders =
     (let maxBids = maxActiveCollectionBidsPerOfferer config;
          addr = js_lower (js_trim offererAddress); key = js_lower (js_trim collectionKey) in
      if maxBids \<le> 0 \<or> addr = [] \<or> key = [] then Inr ()
      else on_ok (getRwaAddress config chainId) (\<lambda>rwa.
        let activeCount = length (filter (\<lambda>ord. js_lower (o_offerer ord) = addr
              \<and> lower_key (o_collectionKey ord) = Some key
              \<and> js_lower (o_tokenContract ord) = js_lower rwa
              \<and> o_side ord = BID \<and> o_status ord = ACTIVE) orders) in
        if maxBids \<le> of_nat activeCount
        then Inl (BadRequestException ''Maximum bids per collection'') else Inr ()))"

definition BID_CROSSES_ASK_MESSAGE :: string where
  "BID_CROSSES_ASK_MESSAGE = ''BID_CROSSES_ASK: This bid meets or exceeds a live ask.''"

text \<open>The asks of the collection, then those of the token.\<close>

definition crossing_candidates :: "create_order_dto \<Rightarrow> string \<Rightarrow> order list \<Rightarrow> order list" where
  "crossing_candidates dto key orders =
     (let tokenId = js_trim (dto_tokenId dto);
          collectionAsks = filter (\<lambda>ord. o_status ord = ACTIVE \<and> o_side ord = ASK
            \<and> lower_key (o_collectionKey ord) = Some key) orders;
          tokenAsks = (if cons_type (dto_parameters dto) = Some 4 then []
            else if tokenId \<noteq> []
            then filter (\<lambda>ord. o_status ord = ACTIVE \<and> o_side ord = ASK \<and> o_tokenId ord = tokenId) orders
            else [])
      in collectionAsks @ tokenAsks)"

definition assertTokenBidDoesNotCrossAsk ::
  "int \<Rightarrow> create_order_dto \<Rightarrow> string \<Rightarrow> order list \<Rightarrow> unit result" where
  "assertTokenBidDoesNotCrossAsk nowMs dto bidCollectionKey orders =
     (case js_BigInt (or_empty (map_option oi_startAmount (offer0 (dto_parameters dto)))) of
        None \<Rightarrow> Inl (BadRequestException ''Bid offer amount is invalid'')
      | Some bidMicros \<Rightarrow>
          if bidMicros \<le> 0 then Inr ()
          else let key = js_lower (js_trim bidCollectionKey) in
          case pickCrossingAskForBid (crossing_candidates dto key orders)
                 (sp_offerer (dto_parameters dto)) bidMicros nowMs of
            Some ask \<Rightarrow> Inl (ConflictException BID_CROSSES_ASK_MESSAGE)
          | None \<Rightarrow> Inr ())"

section \<open>Asks\<close>

fun ask_consideration_sum :: "string \<Rightarrow> cons_item list \<Rightarrow> int result" where
  "ask_consideration_sum usdc [] = Inr 0"
| "ask_consideration_sum usdc (c # cs) =
     (if ci_itemType c \<noteq> 1
      then Inl (BadRequestException ''Ask consideration must be ERC20 (itemType 1)'')
      else if js_lower (ci_token c) \<noteq> js_lower usdc
      then Inl (BadRequestException ''Ask consideration token must match USDC for chain'')
      else case js_BigInt (ci_startAmount c) of
        None \<Rightarrow> Inl (OtherError ''SyntaxError'')
      | Some n \<Rightarrow> on_ok (ask_consideration_sum usdc cs) (\<lambda>s. Inr (n + s)))"

definition assertValidAskListing :: "config \<Rightarrow> create_order_dto \<Rightarrow> nat \<Rightarrow> unit result" where
  "assertValidAskListing config dto chainId =
     (let p = dto_parameters dto in
      if sp_consideration p = []
      then Inl (BadRequestException ''Ask listing must include at least one consideration item'')
      else on_ok (getUsdcAddress config chainId) (\<lambda>usdc.
        on_ok (ask_consideration_sum usdc (sp_consideration p)) (\<lambda>total.
        case js_BigInt (dto_considerationAmount dto) of
          None \<Rightarrow> Inl (OtherError ''SyntaxError'')
        | Some declared \<Rightarrow>
            if total \<noteq> declared
            then Inl (BadRequestException ''Sum of consideration amounts does not equal considerationAmount'')
            else let tid = js_trim (dto_tokenId dto) in
            if \<not> isValidDecimalTokenId (Some tid)
            then Inl (BadRequestException ''Ask listings must include a valid ERC-721 tokenId'')
            else let offerId = js_trim (or_empty (map_option oi_identifierOrCriteria (offer0 p))) in
            if isValidDecimalTokenId (Some offerId)
               \<and> normalizeDecimalTokenId offerId \<noteq> normalizeDecimalTokenId tid
            then Inl (BadRequestException ''Ask offer identifierOrCriteria must match tokenId'')
            else Inr ())))"

text \<open>The consideration that a self-vault token requires: the legacy single line or the split.\<close>

definition check_self_vault_consideration :: "config \<Rightarrow> create_order_dto \<Rightarrow> nat \<Rightarrow> unit result" where
  "check_self_vault_consideration config dto chainId =
     (let feeRecipient = js_lower (js_trim (or_empty (config ''PLATFORM_FEE_RECIPIENT''))) in
      if feeRecipient = []
      then Inl (BadRequestException ''PLATFORM_FEE_RECIPIENT is required for self-vault hold listings'')
      else on_ok (getUsdcAddress config chainId) (\<lambda>usdc.
        case js_BigInt (dto_considerationAmount dto) of
          None \<Rightarrow> Inl (OtherError ''SyntaxError'')
        | Some declared \<Rightarrow>
            (let offerer = js_lower (js_trim (sp_offerer (dto_parameters dto))) in
             case sp_consideration (dto_parameters dto) of
               [only] \<Rightarrow>
                 if ci_itemType only \<noteq> 1
                 then Inl (BadRequestException ''Self-vault hold consideration must be ERC20 USDC'')
                 else if js_lower (ci_recipient only) \<noteq> feeRecipient
                 then Inl (BadRequestException
                   ''Legacy self-vault hold consideration recipient must be the platform fee wallet'')
                 else (case js_BigInt (ci_startAmount only) of
                     None \<Rightarrow> Inl (OtherError ''SyntaxError'')
                   | Some amount \<Rightarrow>
                       if amount \<noteq> declared
                       then Inl (BadRequestException
                         ''Self-vault hold consideration amount must equal considerationAmount'')
                       else Inr ())
             | [sellerLine, feeLine] \<Rightarrow>
                 if ci_itemType sellerLine \<noteq> 1 \<or> ci_itemType feeLine \<noteq> 1
                 then Inl (BadRequestException ''Self-vault hold consideration items must be ERC20 USDC'')
                 else if js_lower (ci_token sellerLine) \<noteq> js_lower usdc
                         \<or> js_lower (ci_token feeLine) \<noteq> js_lower usdc
                 then Inl (BadRequestException ''Self-vault hold consideration must use USDC for chain'')
                 else if js_lower (ci_recipient sellerLine) \<noteq> offerer
                 then Inl (BadRequestException
                   ''Self-vault hold seller consideration must pay the ask offerer'')
                 else if js_lower (ci_recipient feeLine) \<noteq> feeRecipient
                 then Inl (BadRequestException
                   ''Self-vault hold fee consideration must pay the platform fee wallet'')
                 else (let (sellerMicros, feeMicros) =
                         splitGrossUsdcMicros declared (readSelfVaultPlatformFeeBps config) in
                   case (js_BigInt (ci_startAmount sellerLine), js_BigInt (ci_startAmount feeLine)) of
                     (Some s, Some f) \<Rightarrow>
                       if s \<noteq> sellerMicros \<or> f \<noteq> feeMicros
                       then Inl (BadRequestException ''Self-vault hold fee split must be bps platform'')
                       else Inr ()
                   | (Some s, None) \<Rightarrow>
                       if s \<noteq> sellerMicros
                       then Inl (BadRequestException ''Self-vault hold fee split must be bps platform'')
                       else Inl (OtherError ''SyntaxError'')
                   | _ \<Rightarrow> Inl (OtherError ''SyntaxError''))
             | _ \<Rightarrow> Inl (BadRequestException
                 ''Self-vault hold asks must include seller USDC and platform fee consideration items''))))"

definition assertAskSettlementPolicy ::
  "config \<Rightarrow> create_order_dto \<Rightarrow> nat \<Rightarrow> vault_db \<Rightarrow> unit result \<times> vault_db" where
  "assertAskSettlementPolicy config dto chainId db =
     (case getSettlementPolicy (dto_tokenContract dto) (dto_tokenId dto) db of
        (None, db') \<Rightarrow> (Inl (BadRequestException ''Token vault custody is unknown''), db')
      | (Some standard, db') \<Rightarrow> (Inr (), db')
      | (Some self_vault_hold, db') \<Rightarrow> (check_self_vault_consideration config dto chainId, db'))"

section \<open>Reading the chain\<close>

definition readOnChainRwaOwner ::
  "config \<Rightarrow> chain_env \<Rightarrow> string \<Rightarrow> string \<Rightarrow> nat \<Rightarrow> string result" where
  "readOnChainRwaOwner config env tokenContract tokenId chainId =
     (case js_Number (normalizeDecimalTokenId tokenId) of
        None \<Rightarrow> Inl (BadRequestException ''Invalid tokenId'')
      | Some tid \<Rightarrow>
          if tid < 0 then Inl (BadRequestException ''Invalid tokenId'')
          else on_ok (getRwaAddress config chainId) (\<lambda>rwa.
            let expected = js_lower rwa in
            if js_lower tokenContract \<noteq> expected
            then Inl (BadRequestException ''tokenContract must match RWA for chain'')
            else case ce_ownerOf env expected tid of
              owner_is w \<Rightarrow>
                (let owner = js_lower (js_trim w) in
                 if owner = [] \<or> owner = ZERO_ADDRESS
                 then Inl (BadRequestException ''RWA has no on-chain owner'') else Inr owner)
            | no_such_token \<Rightarrow> Inl (BadRequestException ''RWA does not exist on chain'')
            | rpc_error \<Rightarrow> Inl (ServiceUnavailableException
                ''Could not verify on-chain NFT ownership'')))"

definition assertAskOffererOwnsToken ::
  "config \<Rightarrow> chain_env \<Rightarrow> create_order_dto \<Rightarrow> nat \<Rightarrow> unit result" where
  "assertAskOffererOwnsToken config env dto chainId =
     on_ok (readOnChainRwaOwner config env (dto_tokenContract dto) (dto_tokenId dto) chainId) (\<lambda>owner.
       if owner \<noteq> js_lower (js_trim (sp_offerer (dto_parameters dto)))
       then Inl (BadRequestException ''Cannot list token: connected wallet does not own this card on-chain'')
       else Inr ())"

text \<open>None stands for a call that fails.\<close>

definition seaport_status_of :: "chain_env \<Rightarrow> order \<Rightarrow> seaport_fill_status option" where
  "seaport_status_of env ord =
     Option.bind (seaportOrderHashFromParameters env (o_parameters ord)) (readSeaportOrderStatus env)"

definition isSeaportOrderFullyFilledOnChain :: "chain_env \<Rightarrow> order \<Rightarrow> bool" where
  "isSeaportOrderFullyFilledOnChain env ord =
     (case seaport_status_of env ord of None \<Rightarrow> False | Some s \<Rightarrow> seaportOrderIsFullyFilled s)"

definition owner_of_ask :: "config \<Rightarrow> chain_env \<Rightarrow> order \<Rightarrow> nat \<Rightarrow> string option" where
  "owner_of_ask config env ask chainId =
     (let tid = normalizeDecimalTokenId (o_tokenId ask) in
      if tid = [] \<or> tid = ''0'' then None
      else case readOnChainRwaOwner config env (o_tokenContract ask) tid chainId of
        Inl e \<Rightarrow> None | Inr w \<Rightarrow> Some w)"

definition isAskListingConsumedOnChain :: "config \<Rightarrow> chain_env \<Rightarrow> order \<Rightarrow> nat \<Rightarrow> bool" where
  "isAskListingConsumedOnChain config env ask chainId =
     (if isSeaportOrderFullyFilledOnChain env ask then True
      else case owner_of_ask config env ask chainId of
        None \<Rightarrow> False | Some owner \<Rightarrow> owner \<noteq> js_lower (js_trim (o_offerer ask)))"

definition isBidSettledForAsk :: "config \<Rightarrow> chain_env \<Rightarrow> order \<Rightarrow> order \<Rightarrow> nat \<Rightarrow> bool" where
  "isBidSettledForAsk config env bid ask chainId =
     (if isSeaportOrderFullyFilledOnChain env bid then True
      else case owner_of_ask config env ask chainId of
        None \<Rightarrow> False | Some owner \<Rightarrow> owner = js_lower (js_trim (o_offerer bid)))"

definition fill_not_found :: http_exception where
  "fill_not_found = BadRequestException ''On-chain Seaport fill was not found''"

definition assertSeaportOrderFilledOnChain :: "chain_env \<Rightarrow> order \<Rightarrow> unit result" where
  "assertSeaportOrderFilledOnChain env ord =
     (case seaport_status_of env ord of
        None \<Rightarrow> Inl (ServiceUnavailableException ''Could not verify on-chain Seaport fill'')
      | Some s \<Rightarrow> if \<not> seaportOrderIsFullyFilled s then Inl fill_not_found else Inr ())"

definition is_bad_request :: "http_exception \<Rightarrow> bool" where
  "is_bad_request e = (case e of BadRequestException m \<Rightarrow> True | _ \<Rightarrow> False)"

definition assertOrderSettledForFulfill ::
  "config \<Rightarrow> chain_env \<Rightarrow> order \<Rightarrow> string option \<Rightarrow> nat \<Rightarrow> unit result" where
  "assertOrderSettledForFulfill config env ord buyerAddress chainId =
     (case assertSeaportOrderFilledOnChain env ord of
        Inr u \<Rightarrow> Inr ()
      | Inl e \<Rightarrow>
          if \<not> is_bad_request e then Inl e
          else if o_side ord \<noteq> ASK then Inl e
          else let buyer = js_lower (js_trim (or_empty buyerAddress));
                   offerer = js_lower (js_trim (o_offerer ord)) in
          if buyer = [] then Inl e
          else on_ok (readOnChainRwaOwner config env (o_tokenContract ord) (o_tokenId ord) chainId) (\<lambda>owner.
            if owner = buyer \<and> owner \<noteq> offerer then Inr () else Inl e))"

definition assertBidSettledForMatchedPair ::
  "config \<Rightarrow> chain_env \<Rightarrow> order \<Rightarrow> order \<Rightarrow> nat \<Rightarrow> unit result" where
  "assertBidSettledForMatchedPair config env bid ask chainId =
     (case assertSeaportOrderFilledOnChain env bid of
        Inr u \<Rightarrow> Inr ()
      | Inl e \<Rightarrow>
          if \<not> is_bad_request e then Inl e
          else if isBidSettledForAsk config env bid ask chainId then Inr () else Inl fill_not_found)"

end
