(* ===== verification/OrderBook.thy ===== *)
theory OrderBook
  imports OrderChecks VaultMachine
begin

text \<open>
  The order book of marketplace/orders/orders.service.ts: creating, replacing, cancelling,
  invalidating, fulfilling and expiring orders, with their effects on the vault registry (the
  owner of a token, a settlement policy that is healed) and on the settlement ledger.

  An operation returns the market beside its result, because what was written before a throw
  stays; the two replace operations run in a transaction, which rolls the order table back and
  leaves what the vault service wrote through its own repositories. Notifications, charts, cost
  bases and log lines have no effect on this state and are left out. The collections table and
  the listing pipeline that derives a collection from a token's metadata are read through the
  environment.
\<close>

section \<open>State and environment\<close>

record collection_row =
  co_collectionKey :: string
  co_tokenContract :: string
  co_reviewStatus :: string

record market_env =
  me_config :: config
  me_chain :: chain_env
  me_now :: int
  me_collections :: "collection_row list"
  me_ensureCollectionForListing :: "string \<Rightarrow> nat \<Rightarrow> string option"

record market =
  mk_orders :: "order list"
  mk_nextOrder :: nat
  mk_vault :: vault_db
  mk_ledger :: ledger

definition empty_market :: market where
  "empty_market = \<lparr>mk_orders = [], mk_nextOrder = 1, mk_vault = empty_db, mk_ledger = empty_ledger\<rparr>"

definition find_order :: "nat \<Rightarrow> market \<Rightarrow> order option" where
  "find_order i m = find_key o_id i (mk_orders m)"

definition order_by_hash :: "string \<Rightarrow> market \<Rightarrow> order option" where
  "order_by_hash h m = find_row (\<lambda>ord. o_orderHash ord = h) (mk_orders m)"

definition put_order :: "order \<Rightarrow> market \<Rightarrow> market" where
  "put_order ord m = m\<lparr>mk_orders := upsert o_id ord (mk_orders m)\<rparr>"

text \<open>orderRepo.save of a loaded row: the update date is set.\<close>

definition touched :: "int \<Rightarrow> order \<Rightarrow> order" where
  "touched now ord = ord\<lparr>o_updatedAt := now\<rparr>"

definition save_order :: "int \<Rightarrow> order \<Rightarrow> market \<Rightarrow> market" where
  "save_order now ord m = put_order (touched now ord) m"

text \<open>orderRepo.update(where, set status).\<close>

definition update_status :: "int \<Rightarrow> (order \<Rightarrow> bool) \<Rightarrow> order_status \<Rightarrow> market \<Rightarrow> market" where
  "update_status now p st m = m\<lparr>mk_orders :=
     map (\<lambda>ord. if p ord then touched now (ord\<lparr>o_status := st\<rparr>) else ord) (mk_orders m)\<rparr>"

text \<open>A guard that throws without writing, and an operation that writes before the rest.\<close>

definition guarded :: "'a result \<Rightarrow> ('a \<Rightarrow> market \<Rightarrow> market \<times> 'b result) \<Rightarrow> market \<Rightarrow> market \<times> 'b result" where
  "guarded r k m = (case r of Inl e \<Rightarrow> (m, Inl e) | Inr x \<Rightarrow> k x m)"

definition and_then :: "market \<times> 'a result \<Rightarrow> ('a \<Rightarrow> market \<Rightarrow> market \<times> 'b result) \<Rightarrow> market \<times> 'b result" where
  "and_then mr k = (case mr of (m, Inl e) \<Rightarrow> (m, Inl e) | (m, Inr x) \<Rightarrow> k x m)"

definition in_vault :: "(vault_db \<Rightarrow> 'a \<times> vault_db) \<Rightarrow> market \<Rightarrow> 'a \<times> market" where
  "in_vault f m = (let (x, db) = f (mk_vault m) in (x, m\<lparr>mk_vault := db\<rparr>))"

section \<open>Collections and labels\<close>

definition collection_findOne :: "market_env \<Rightarrow> string \<Rightarrow> nat \<Rightarrow> collection_row option" where
  "collection_findOne env key chainId =
     (case getRwaAddress (me_config env) chainId of
        Inl e \<Rightarrow> None
      | Inr rwa \<Rightarrow> find_row (\<lambda>c. js_lower (co_collectionKey c) = js_lower key
          \<and> js_lower (co_tokenContract c) = js_lower rwa) (me_collections env))"

definition getReviewStatus :: "market_env \<Rightarrow> string \<Rightarrow> nat \<Rightarrow> string option" where
  "getReviewStatus env key chainId = map_option co_reviewStatus (collection_findOne env key chainId)"

definition display_name_of :: "string \<Rightarrow> vault_db \<Rightarrow> string option" where
  "display_name_of wallet db = (let addr = js_lower (js_trim wallet) in
     if \<not> is_hex_word_ci 40 addr then None
     else if js_lower wallet \<noteq> addr then None
     else map_option mp_displayName
       (find_row (\<lambda>p. mp_walletAddress p = addr) (rev (vd_partners db))))"

text \<open>What the API adds to an order before it answers.\<close>

record listing_display =
  ld_sellerDisplayName :: "string option"
  ld_settlementPolicy :: "settlement_policy option"
  ld_vaultLabel :: "string option"

definition attachListingDisplay :: "order \<Rightarrow> market \<Rightarrow> listing_display \<times> market" where
  "attachListingDisplay ord m =
     (let name = display_name_of (o_offerer ord) (mk_vault m) in
      if o_side ord = BID
      then (\<lparr>ld_sellerDisplayName = name, ld_settlementPolicy = None, ld_vaultLabel = None\<rparr>, m)
      else let (display, m') = in_vault (getVaultDisplayByTokenIds (o_tokenContract ord) [o_tokenId ord]) m;
               vault = display (o_tokenId ord) in
        (\<lparr>ld_sellerDisplayName = name, ld_settlementPolicy = map_option fst vault,
          ld_vaultLabel = map_option snd vault\<rparr>, m'))"

record order_view =
  ov_order :: order
  ov_display :: "listing_display option"
  ov_reviewStatus :: "string option"

section \<open>New orders\<close>

definition review_status_or_active :: "market_env \<Rightarrow> string \<Rightarrow> string" where
  "review_status_or_active env key =
     (case getReviewStatus env key (getDefaultChainId (me_config env)) of
        None \<Rightarrow> ''active'' | Some s \<Rightarrow> s)"

definition tid_variants :: "string \<Rightarrow> string list" where
  "tid_variants raw = js_unique (filter (\<lambda>s. s \<noteq> []) [raw, normalizeDecimalTokenId raw])"

definition resolveAskCollectionKey :: "market_env \<Rightarrow> create_order_dto \<Rightarrow> nat \<Rightarrow> market \<Rightarrow> string option" where
  "resolveAskCollectionKey env dto chainId m =
     (let tidRaw = dto_tokenId dto in
      case trim_or_null (me_ensureCollectionForListing env tidRaw chainId) of
        Some key \<Rightarrow> Some (js_lower key)
      | None \<Rightarrow>
          (case hd_opt (order_desc o_updatedAt (filter (\<lambda>ord.
               o_tokenContract ord = dto_tokenContract dto \<and> o_side ord = ASK
               \<and> o_tokenId ord \<in> set (tid_variants tidRaw) \<and> o_collectionKey ord \<noteq> None) (mk_orders m))) of
             None \<Rightarrow> None
           | Some prior \<Rightarrow> map_option js_lower (trim_or_null (o_collectionKey prior))))"

text \<open>new Date(Number(s) * 1000): a time value, or an invalid date.\<close>

definition js_date :: "string \<Rightarrow> int option" where
  "js_date s = (case js_Number s of
      None \<Rightarrow> None
    | Some n \<Rightarrow> (let ms = (if 0 \<le> n then \<lfloor>n * 1000\<rfloor> else \<lceil>n * 1000\<rceil>) in
        if \<bar>n * 1000\<bar> \<le> 8640000000000000 then Some ms else None))"

definition dto_order_side :: "create_order_dto \<Rightarrow> order_side" where
  "dto_order_side dto = (if dto_side dto = Some BID then BID else ASK)"

definition policy_text :: "settlement_policy option \<Rightarrow> string option" where
  "policy_text p = (case p of None \<Rightarrow> None
     | Some standard \<Rightarrow> Some ''standard'' | Some self_vault_hold \<Rightarrow> Some ''self_vault_hold'')"

definition stamp_policy :: "settlement_policy option \<Rightarrow> seaport_params \<Rightarrow> seaport_params" where
  "stamp_policy policy p = p\<lparr>sp_server := (sp_server p)\<lparr>sk_settlementPolicy := policy_text policy\<rparr>\<rparr>"

text \<open>orderRepo.create: a row without id and dates yet.\<close>

definition draft_order ::
  "create_order_dto \<Rightarrow> seaport_params \<Rightarrow> string \<Rightarrow> string option \<Rightarrow> order" where
  "draft_order dto params orderHash collectionKey =
     \<lparr>o_id = 0, o_orderHash = orderHash, o_offerer = sp_offerer (dto_parameters dto),
      o_side = dto_order_side dto, o_tokenContract = dto_tokenContract dto,
      o_tokenId = normalizeDecimalTokenId (dto_tokenId dto), o_collectionKey = collectionKey,
      o_considerationToken = dto_considerationToken dto,
      o_considerationAmount = dto_considerationAmount dto, o_parameters = params,
      o_signature = dto_signature dto, o_status = ACTIVE,
      o_startTime = (case js_date (sp_startTime params) of None \<Rightarrow> 0 | Some d \<Rightarrow> d),
      o_endTime = (case js_date (sp_endTime params) of None \<Rightarrow> 0 | Some d \<Rightarrow> d),
      o_createdAt = 0, o_updatedAt = 0\<rparr>"

definition hashed_draft ::
  "market_env \<Rightarrow> create_order_dto \<Rightarrow> seaport_params \<Rightarrow> string option \<Rightarrow> order result" where
  "hashed_draft env dto params collectionKey =
     (case seaportOrderHashFromParameters (me_chain env) params of
        None \<Rightarrow> Inl (OtherError ''order hash'')
      | Some h \<Rightarrow> Inr (draft_order dto params h collectionKey))"

definition materializeOrderFromDto ::
  "market_env \<Rightarrow> create_order_dto \<Rightarrow> nat \<Rightarrow> market \<Rightarrow> market \<times> order result" where
  "materializeOrderFromDto env dto chainId m =
     (if dto_order_side dto = BID
      then case map_option js_lower (trim_or_null (dto_collectionKey dto)) of
          None \<Rightarrow> (m, Inl (BadRequestException ''collectionKey is required for token bids''))
        | Some key \<Rightarrow> (case collection_findOne env key chainId of
            None \<Rightarrow> (m, Inl (NotFoundException ''Collection not found''))
          | Some col \<Rightarrow> (m, hashed_draft env dto (dto_parameters dto) (Some (co_collectionKey col))))
      else let collectionKey = resolveAskCollectionKey env dto chainId m;
               (policy, m') = in_vault (getSettlementPolicy (dto_tokenContract dto)
                  (normalizeDecimalTokenId (dto_tokenId dto))) m
           in (m', hashed_draft env dto (stamp_policy policy (dto_parameters dto)) collectionKey))"

text \<open>The insert: the database refuses an invalid date, then a hash that is already there.\<close>

definition valid_dates :: "order \<Rightarrow> bool" where
  "valid_dates ord = (js_date (sp_startTime (o_parameters ord)) \<noteq> None
     \<and> js_date (sp_endTime (o_parameters ord)) \<noteq> None)"

definition inserted_order :: "int \<Rightarrow> nat \<Rightarrow> order \<Rightarrow> order" where
  "inserted_order now i ord = ord\<lparr>o_id := i, o_createdAt := now, o_updatedAt := now\<rparr>"

definition persistOrder :: "int \<Rightarrow> order \<Rightarrow> market \<Rightarrow> market \<times> order result" where
  "persistOrder now ord m =
     (if \<not> valid_dates ord then (m, Inl (OtherError ''invalid date''))
      else if order_by_hash (o_orderHash ord) m \<noteq> None
      then (m, Inl (ConflictException ''An order with this hash already exists''))
      else let row = inserted_order now (mk_nextOrder m) ord
           in (put_order row (m\<lparr>mk_nextOrder := mk_nextOrder m + 1\<rparr>), Inr row))"

section \<open>Creating an order\<close>

definition unowned_ask :: "int \<Rightarrow> string \<Rightarrow> string option \<Rightarrow> string option \<Rightarrow> order \<Rightarrow> order" where
  "unowned_ask now owner reason by ord =
     ord\<lparr>o_status := CANCELLED, o_parameters := (o_parameters ord)\<lparr>sp_server :=
       (sp_server (o_parameters ord))\<lparr>sk_unownedAsk := True, sk_onChainOwner := Some owner,
          sk_unownedAskReason := or_else reason (sk_unownedAskReason (sp_server (o_parameters ord))),
          sk_unownedAskBy := or_else by (sk_unownedAskBy (sp_server (o_parameters ord))),
          sk_unownedAskAt := Some now\<rparr>\<rparr>\<rparr>"

definition record_owner_of :: "order \<Rightarrow> string \<Rightarrow> market \<Rightarrow> market" where
  "record_owner_of ord owner m =
     m\<lparr>mk_vault := recordOwner (o_tokenContract ord) (o_tokenId ord) owner (mk_vault m)\<rparr>"

definition cancelActiveAskIfOffererUnowned ::
  "market_env \<Rightarrow> string \<Rightarrow> string \<Rightarrow> nat \<Rightarrow> market \<Rightarrow> market \<times> unit result" where
  "cancelActiveAskIfOffererUnowned env tokenContract tokenId chainId m =
     (case find_row (\<lambda>ord. o_tokenContract ord = tokenContract
             \<and> o_tokenId ord \<in> set (tid_variants tokenId)
             \<and> o_status ord = ACTIVE \<and> o_side ord = ASK) (mk_orders m) of
        None \<Rightarrow> (m, Inr ())
      | Some existing \<Rightarrow>
          (let tidNorm = normalizeDecimalTokenId tokenId in
           guarded (readOnChainRwaOwner (me_config env) (me_chain env) tokenContract
                      (if tidNorm = [] then tokenId else tidNorm) chainId)
             (\<lambda>owner m.
               if owner = js_lower (o_offerer existing) then (m, Inr ())
               else (record_owner_of existing owner (save_order (me_now env)
                      (unowned_ask (me_now env) owner (Some ''supersede_by_onchain_owner'') None existing) m),
                     Inr ())) m))"

definition create_bid_checks :: "market_env \<Rightarrow> create_order_dto \<Rightarrow> nat \<Rightarrow> order list \<Rightarrow> unit result" where
  "create_bid_checks env dto chainId orders =
     on_ok (if cons_type (dto_parameters dto) = Some 2
            then assertValidTokenBid (me_config env) (me_now env) dto chainId
            else if cons_type (dto_parameters dto) = Some 4
            then assertValidCriteriaBid (me_config env) (me_now env) dto chainId
            else Inl (BadRequestException ''Token bids require consideration itemType 2 (ERC721)''))
       (\<lambda>_. case map_option js_lower (trim_or_null (dto_collectionKey dto)) of
          None \<Rightarrow> Inl (BadRequestException ''collectionKey is required for bids'')
        | Some key \<Rightarrow>
            on_ok (assertActiveTokenBidLimit (me_config env) (sp_offerer (dto_parameters dto)) key
                     chainId orders)
              (\<lambda>_. assertTokenBidDoesNotCrossAsk (me_now env) dto key orders))"

definition create_ask_checks :: "market_env \<Rightarrow> create_order_dto \<Rightarrow> nat \<Rightarrow> market \<Rightarrow> market \<times> unit result" where
  "create_ask_checks env dto chainId =
     guarded (assertValidAskListing (me_config env) dto chainId) (\<lambda>_ m.
     let (policyOk, m) = in_vault (assertAskSettlementPolicy (me_config env) dto chainId) m in
     guarded policyOk (\<lambda>_ m.
     guarded (assertTokenRedeemableForListing (dto_tokenContract dto) (dto_tokenId dto) (mk_vault m)) (\<lambda>_.
     guarded (assertAskOffererOwnsToken (me_config env) (me_chain env) dto chainId) (\<lambda>_ m.
     and_then (cancelActiveAskIfOffererUnowned env (dto_tokenContract dto) (dto_tokenId dto) chainId m) (\<lambda>_ m.
     case find_row (\<lambda>ord. o_tokenContract ord = dto_tokenContract dto
            \<and> o_tokenId ord = dto_tokenId dto \<and> o_status ord = ACTIVE \<and> o_side ord = ASK) (mk_orders m) of
       Some existing \<Rightarrow> (m, Inl (BadRequestException ''Token already has an active listing''))
     | None \<Rightarrow> (m, Inr ())))) m) m)"

definition create_checks :: "market_env \<Rightarrow> create_order_dto \<Rightarrow> nat \<Rightarrow> market \<Rightarrow> market \<times> unit result" where
  "create_checks env dto chainId =
     guarded (getRwaAddress (me_config env) chainId) (\<lambda>expectedRwa m.
       if js_lower (dto_tokenContract dto) \<noteq> expectedRwa
       then (m, Inl (BadRequestException ''tokenContract must match RWA for chain''))
       else if dto_order_side dto = BID
       then guarded (create_bid_checks env dto chainId (mk_orders m)) (\<lambda>_ m. (m, Inr ())) m
       else create_ask_checks env dto chainId m)"

definition createOrder :: "market_env \<Rightarrow> create_order_dto \<Rightarrow> nat \<Rightarrow> market \<Rightarrow> market \<times> order_view result" where
  "createOrder env dto chainId m =
     and_then (create_checks env dto chainId m) (\<lambda>_ m.
     and_then (materializeOrderFromDto env dto chainId m) (\<lambda>order m.
       if dto_order_side dto = ASK \<and> trim_or_null (o_collectionKey order) = None
       then (m, Inl (BadRequestException ''Could not create a marketplace collection for this token''))
       else and_then (persistOrder (me_now env) order m) (\<lambda>saved m.
         let (display, m) = attachListingDisplay saved m in
         (m, Inr \<lparr>ov_order = saved, ov_display = Some display,
           ov_reviewStatus = (if dto_order_side dto = ASK
             then map_option (review_status_or_active env) (o_collectionKey saved) else None)\<rparr>))))"

section \<open>Replacing an order\<close>

text \<open>
  The body of the transaction after its checks: cancel the old row, insert the new one. The
  rows are read outside the transaction while the new order is built; when building or the
  insert throws, the order table is the old one.
\<close>

definition replace_rows ::
  "market_env \<Rightarrow> create_order_dto \<Rightarrow> nat \<Rightarrow> order \<Rightarrow> (order \<Rightarrow> order result) \<Rightarrow> market \<Rightarrow>
   market \<times> order result" where
  "replace_rows env dto chainId old adjust m =
     and_then (materializeOrderFromDto env dto chainId m) (\<lambda>order m1.
     guarded (adjust order) (\<lambda>order m1.
     case persistOrder (me_now env) order
            (save_order (me_now env) (old\<lparr>o_status := CANCELLED\<rparr>) m1) of
       (m2, Inl e) \<Rightarrow> (m1, Inl e)
     | (m2, Inr saved) \<Rightarrow> (m2, Inr saved)) m1)"

definition check_old_listing :: "string \<Rightarrow> create_order_dto \<Rightarrow> order \<Rightarrow> unit result" where
  "check_old_listing callerAddress dto old =
     (if o_side old \<noteq> ASK then Inl (BadRequestException ''Only ask listings can be replaced'')
      else if o_status old \<noteq> ACTIVE then Inl (BadRequestException ''Order is already closed'')
      else if js_lower (o_offerer old) \<noteq> js_lower callerAddress
      then Inl (BadRequestException ''Only the offerer can replace this listing'')
      else if normalizeDecimalTokenId (o_tokenId old) \<noteq> normalizeDecimalTokenId (dto_tokenId dto)
      then Inl (BadRequestException ''New order tokenId must match the listing being replaced'')
      else if js_lower (o_tokenContract old) \<noteq> js_lower (dto_tokenContract dto)
      then Inl (BadRequestException ''tokenContract must match'')
      else Inr ())"

text \<open>A replacement without a collection takes over the collection of the old listing.\<close>

definition reattach_collection :: "order \<Rightarrow> order \<Rightarrow> order result" where
  "reattach_collection old order =
     (let order' = (if trim_or_null (o_collectionKey order) = None \<and> trim_or_null (o_collectionKey old) \<noteq> None
        then order\<lparr>o_collectionKey := map_option js_lower (trim_or_null (o_collectionKey old))\<rparr> else order) in
      if trim_or_null (o_collectionKey order') = None
      then Inl (BadRequestException ''Could not resolve marketplace collection for this listing replacement.'')
      else Inr order')"

definition replaceSellerListing ::
  "market_env \<Rightarrow> string \<Rightarrow> string \<Rightarrow> create_order_dto \<Rightarrow> nat \<Rightarrow> market \<Rightarrow> market \<times> order_view result" where
  "replaceSellerListing env oldOrderHash callerAddress dto chainId m =
     (if dto_side dto = Some BID
      then (m, Inl (BadRequestException ''replaceSellerListing only accepts ask listings''))
      else guarded (getRwaAddress (me_config env) chainId) (\<lambda>expectedRwa m.
        if js_lower (dto_tokenContract dto) \<noteq> expectedRwa
        then (m, Inl (BadRequestException ''tokenContract must match RWA for chain''))
        else guarded (assertValidAskListing (me_config env) dto chainId) (\<lambda>_ m.
        let (policyOk, m) = in_vault (assertAskSettlementPolicy (me_config env) dto chainId) m in
        guarded policyOk (\<lambda>_.
        guarded (assertAskOffererOwnsToken (me_config env) (me_chain env) dto chainId) (\<lambda>_ m.
        case order_by_hash oldOrderHash m of
          None \<Rightarrow> (m, Inl (NotFoundException ''Order not found''))
        | Some old \<Rightarrow>
            guarded (check_old_listing callerAddress dto old) (\<lambda>_ m.
            and_then (replace_rows env dto chainId old (reattach_collection old) m) (\<lambda>saved m.
              (m, Inr \<lparr>ov_order = saved, ov_display = None,
                ov_reviewStatus = map_option (review_status_or_active env) (o_collectionKey saved)\<rparr>))) m)) m) m) m)"

definition check_old_bid :: "string \<Rightarrow> create_order_dto \<Rightarrow> string \<Rightarrow> order \<Rightarrow> unit result" where
  "check_old_bid callerAddress dto newCollectionKey old =
     (if cons_type (dto_parameters dto) = Some 2 \<and> \<not> isTokenBidOrder old
      then Inl (BadRequestException ''Only token bids can be replaced'')
      else if cons_type (dto_parameters dto) \<noteq> Some 2 \<and> \<not> isCriteriaCollectionBidOrder old
      then Inl (BadRequestException ''Only collection criteria bids can be replaced with a criteria bid'')
      else if o_status old \<noteq> ACTIVE then Inl (BadRequestException ''Order is already closed'')
      else if js_lower (o_offerer old) \<noteq> js_lower callerAddress
      then Inl (BadRequestException ''Only the offerer can replace this bid'')
      else if cons_type (dto_parameters dto) = Some 2
              \<and> normalizeDecimalTokenId (o_tokenId old) \<noteq> normalizeDecimalTokenId (dto_tokenId dto)
      then Inl (BadRequestException ''New bid tokenId must match the bid being replaced'')
      else if map_option js_lower (trim_or_null (o_collectionKey old)) \<noteq> Some newCollectionKey
      then Inl (BadRequestException ''New bid collectionKey must match the bid being replaced'')
      else Inr ())"

definition replace_bid_checks :: "market_env \<Rightarrow> create_order_dto \<Rightarrow> nat \<Rightarrow> order list \<Rightarrow> string result" where
  "replace_bid_checks env dto chainId orders =
     on_ok (if cons_type (dto_parameters dto) = Some 2
            then assertValidTokenBid (me_config env) (me_now env) dto chainId
            else if cons_type (dto_parameters dto) = Some 4
            then assertValidCriteriaBid (me_config env) (me_now env) dto chainId
            else Inl (BadRequestException ''Only token bids or collection criteria bids can be replaced''))
       (\<lambda>_. case map_option js_lower (trim_or_null (dto_collectionKey dto)) of
          None \<Rightarrow> Inl (BadRequestException ''collectionKey is required for bids'')
        | Some key \<Rightarrow> on_ok (assertTokenBidDoesNotCrossAsk (me_now env) dto key orders) (\<lambda>_. Inr key))"

definition replaceBuyerBid ::
  "market_env \<Rightarrow> string \<Rightarrow> string \<Rightarrow> create_order_dto \<Rightarrow> nat \<Rightarrow> market \<Rightarrow> market \<times> order result" where
  "replaceBuyerBid env oldOrderHash callerAddress dto chainId m =
     (if dto_side dto \<noteq> Some BID then (m, Inl (BadRequestException ''replaceBuyerBid only accepts bids''))
      else guarded (getRwaAddress (me_config env) chainId) (\<lambda>expectedRwa m.
        if js_lower (dto_tokenContract dto) \<noteq> expectedRwa
        then (m, Inl (BadRequestException ''tokenContract must match RWA for chain''))
        else guarded (replace_bid_checks env dto chainId (mk_orders m)) (\<lambda>newCollectionKey m.
        case order_by_hash oldOrderHash m of
          None \<Rightarrow> (m, Inl (NotFoundException ''Order not found''))
        | Some old \<Rightarrow>
            guarded (check_old_bid callerAddress dto newCollectionKey old)
              (\<lambda>_. replace_rows env dto chainId old Inr) m) m) m)"

section \<open>Finding, cancelling and invalidating\<close>

definition findByHash :: "string \<Rightarrow> market \<Rightarrow> market \<times> (order \<times> listing_display) result" where
  "findByHash orderHash m = (case order_by_hash orderHash m of
      None \<Rightarrow> (m, Inl (NotFoundException ''Order not found''))
    | Some ord \<Rightarrow> (let (display, m') = attachListingDisplay ord m in (m', Inr (ord, display))))"

definition with_order :: "string \<Rightarrow> (order \<Rightarrow> market \<Rightarrow> market \<times> 'a result) \<Rightarrow> market \<Rightarrow> market \<times> 'a result" where
  "with_order orderHash k m = and_then (findByHash orderHash m) (\<lambda>(ord, display). k ord)"

text \<open>orderRepo.save of a loaded order, and its value afterwards.\<close>

definition saving :: "int \<Rightarrow> order \<Rightarrow> market \<Rightarrow> market \<times> order result" where
  "saving now ord m = (save_order now ord m, Inr (touched now ord))"

definition cancelOrder :: "market_env \<Rightarrow> string \<Rightarrow> string \<Rightarrow> market \<Rightarrow> market \<times> order result" where
  "cancelOrder env orderHash callerAddress = with_order orderHash (\<lambda>ord m.
     if o_status ord \<noteq> ACTIVE then (m, Inl (BadRequestException ''Order is already closed''))
     else if js_lower (o_offerer ord) \<noteq> js_lower callerAddress
     then (m, Inl (BadRequestException ''Only the offerer can cancel this order''))
     else saving (me_now env) (ord\<lparr>o_status := CANCELLED\<rparr>) m)"

definition offer_micros :: "order \<Rightarrow> int" where
  "offer_micros ord = (case js_BigInt (or_empty (map_option oi_startAmount (offer0 (o_parameters ord)))) of
      None \<Rightarrow> 0 | Some n \<Rightarrow> n)"

definition reason_text :: "dead_reason \<Rightarrow> string" where
  "reason_text r = (case r of underfunded \<Rightarrow> ''underfunded'' | expired \<Rightarrow> ''expired'')"

definition dead_bid :: "int \<Rightarrow> dead_reason \<Rightarrow> string \<Rightarrow> order \<Rightarrow> order" where
  "dead_bid now reason caller ord = ord\<lparr>o_status := CANCELLED,
     o_parameters := (o_parameters ord)\<lparr>sp_server := (sp_server (o_parameters ord))\<lparr>
       sk_deadBid := True, sk_deadBidReason := Some (reason_text reason),
       sk_deadBidBy := Some (js_lower caller), sk_deadBidAt := Some now\<rparr>\<rparr>\<rparr>"

text \<open>
  The verdict on a bid, with the three answers of the chain. An end time that is not a number
  compares false with everything, as 0 does here.
\<close>

definition dead_verdict :: "market_env \<Rightarrow> order \<Rightarrow> dead_reason option result" where
  "dead_verdict env ord =
     (case (ce_balanceOf (me_chain env) (o_offerer ord), ce_allowance (me_chain env) (o_offerer ord),
            ce_blockTime (me_chain env)) of
        (Some bal, Some allowance, Some t) \<Rightarrow>
          Inr (isDeadTokenBidFunding bal allowance (offer_micros ord)
                (of_int (case t of None \<Rightarrow> me_now env div 1000 | Some s \<Rightarrow> s))
                (case js_Number (sp_endTime (o_parameters ord)) of None \<Rightarrow> 0 | Some e \<Rightarrow> e))
      | _ \<Rightarrow> Inl (OtherError ''rpc''))"

definition invalidateDeadBid ::
  "market_env \<Rightarrow> string \<Rightarrow> string \<Rightarrow> nat \<Rightarrow> market \<Rightarrow> market \<times> order result" where
  "invalidateDeadBid env orderHash callerAddress chainId = with_order orderHash (\<lambda>ord m.
     if o_status ord \<noteq> ACTIVE then (m, Inr ord)
     else if \<not> isTokenBidOrder ord
     then (m, Inl (BadRequestException ''Only active token bids can be invalidated as dead offers''))
     else guarded (getUsdcAddress (me_config env) chainId) (\<lambda>usdc.
       guarded (dead_verdict env ord) (\<lambda>verdict m. case verdict of
         None \<Rightarrow> (m, Inl (BadRequestException ''Bid still appears fundable on-chain; not invalidating''))
       | Some reason \<Rightarrow>
           saving (me_now env) (dead_bid (me_now env) reason callerAddress ord) m)) m)"

definition invalidateUnownedAsk ::
  "market_env \<Rightarrow> string \<Rightarrow> string \<Rightarrow> nat \<Rightarrow> market \<Rightarrow> market \<times> order result" where
  "invalidateUnownedAsk env orderHash callerAddress chainId = with_order orderHash (\<lambda>ord m.
     if o_status ord \<noteq> ACTIVE then (m, Inr ord)
     else if o_side ord \<noteq> ASK
     then (m, Inl (BadRequestException ''Only ask listings can be invalidated as unowned''))
     else guarded (readOnChainRwaOwner (me_config env) (me_chain env) (o_tokenContract ord)
                     (o_tokenId ord) chainId) (\<lambda>owner m.
       if owner = js_lower (o_offerer ord)
       then (m, Inl (BadRequestException ''Listing wallet still owns this token on-chain''))
       else and_then (saving (me_now env)
              (unowned_ask (me_now env) owner None (Some (js_lower callerAddress)) ord) m)
            (\<lambda>saved m. (record_owner_of ord owner m, Inr saved))) m)"

definition expireOrders :: "int \<Rightarrow> market \<Rightarrow> market" where
  "expireOrders now m =
     (if filter (\<lambda>ord. o_status ord = ACTIVE \<and> o_endTime ord < now) (mk_orders m) = [] then m
      else update_status now (\<lambda>ord. o_status ord = ACTIVE \<and> o_endTime ord < now) EXPIRED m)"

section \<open>Fulfilling\<close>

definition trimmed_lower :: "string option \<Rightarrow> string" where
  "trimmed_lower s = js_lower (js_trim (or_empty s))"

text \<open>The marks that a direct fill and a match leave on an order.\<close>

definition mark_ask_filled :: "string option \<Rightarrow> string option \<Rightarrow> order \<Rightarrow> order" where
  "mark_ask_filled buyerAddress fillTxHash ord =
     (let sk = sp_server (o_parameters ord); buyer = trimmed_lower buyerAddress;
          fillTx = trimmed_lower fillTxHash;
          sk1 = sk\<lparr>sk_tapeFillSide := Some ''buy''\<rparr>;
          sk2 = (if buyer \<noteq> [] then sk1\<lparr>sk_filledByBuyer := Some buyer,
                   sk_settlementAmount := Some (o_considerationAmount ord)\<rparr> else sk1);
          sk3 = (if is_hex_word 64 fillTx then sk2\<lparr>sk_fillTxHash := Some fillTx\<rparr> else sk2)
      in fst (backfillAskTokenIdFromParameters
           (ord\<lparr>o_status := FULFILLED, o_parameters := (o_parameters ord)\<lparr>sp_server := sk3\<rparr>\<rparr>)))"

definition offer_amount_text :: "order \<Rightarrow> string" where
  "offer_amount_text ord = (case offer0 (o_parameters ord) of
      Some it \<Rightarrow> oi_startAmount it | None \<Rightarrow> o_considerationAmount ord)"

definition mark_bid_filled :: "order \<Rightarrow> order" where
  "mark_bid_filled ord = ord\<lparr>o_status := FULFILLED, o_parameters := (o_parameters ord)\<lparr>sp_server :=
     (sp_server (o_parameters ord))\<lparr>sk_tapeFillSide := Some ''sell'',
        sk_settlementAmount := Some (offer_amount_text ord)\<rparr>\<rparr>\<rparr>"

text \<open>A fulfilled self-vault ask gets a ledger row; an error here is only logged.\<close>

definition maybeCreateSelfVaultSettlement ::
  "market_env \<Rightarrow> order \<Rightarrow> string \<Rightarrow> nat option \<Rightarrow> market \<Rightarrow> market" where
  "maybeCreateSelfVaultSettlement env ask buyerWallet chainId m =
     (let stamped = js_trim (or_empty (sk_settlementPolicy (sp_server (o_parameters ask))));
          (policy, m1) = (if isSelfVaultHoldPolicy (Some stamped) then (Some self_vault_hold, m)
            else in_vault (getSettlementPolicy (o_tokenContract ask)
                   (normalizeDecimalTokenId (o_tokenId ask))) m);
          full = isFullPlatformTakeAsk (me_config env) (o_parameters ask);
          policy' = (if policy \<noteq> Some self_vault_hold \<and> full then Some self_vault_hold else policy) in
      if policy' \<noteq> Some self_vault_hold then m1
      else if \<not> full then m1
      else case createFromFulfilledAsk (me_config env) (me_now env) ask buyerWallet
                  (case chainId of None \<Rightarrow> getDefaultChainId (me_config env) | Some i \<Rightarrow> i) None
                  (mk_ledger m1) of
        Inl e \<Rightarrow> m1
      | Inr (row, lg) \<Rightarrow> m1\<lparr>mk_ledger := lg\<rparr>)"

definition recordBuyerOwnershipAfterSettle ::
  "market_env \<Rightarrow> string \<Rightarrow> string option \<Rightarrow> string option \<Rightarrow> order option \<Rightarrow> market \<Rightarrow> market" where
  "recordBuyerOwnershipAfterSettle env tokenContract tokenId buyerWallet ask m =
     (let buyer = trimmed_lower buyerWallet; tid = js_trim (or_empty tokenId);
          contract = js_trim tokenContract in
      if buyer = [] \<or> tid = [] \<or> contract = [] then m
      else let db1 = recordOwner contract tid buyer (mk_vault m);
               stamped = (case ask of None \<Rightarrow> []
                 | Some a \<Rightarrow> js_trim (or_empty (sk_settlementPolicy (sp_server (o_parameters a)))));
               db2 = (if isSelfVaultHoldPolicy (Some stamped)
                      then ensureSettlementPolicy contract tid self_vault_hold db1
                      else if stamped = ''standard'' then ensureSettlementPolicy contract tid standard db1
                      else case ask of
                        None \<Rightarrow> db1
                      | Some a \<Rightarrow>
                          if isFullPlatformTakeAsk (me_config env) (o_parameters a)
                          then ensureSettlementPolicy contract tid self_vault_hold db1 else db1)
           in m\<lparr>mk_vault := db2\<rparr>)"

definition is_active_ask_of :: "string \<Rightarrow> string \<Rightarrow> order \<Rightarrow> bool" where
  "is_active_ask_of contract tid ord =
     (o_tokenContract ord = contract \<and> o_tokenId ord = tid \<and> o_status ord = ACTIVE \<and> o_side ord = ASK)"

text \<open>What a fulfilled ask and a fulfilled token bid do after they are saved.\<close>

definition after_ask_fill :: "market_env \<Rightarrow> order \<Rightarrow> string option \<Rightarrow> nat option \<Rightarrow> market \<Rightarrow> market" where
  "after_ask_fill env saved buyerAddress chainId m =
     (let m1 = (case resolveFulfilledAskTokenId saved of
            None \<Rightarrow> m
          | Some tid \<Rightarrow> update_status (me_now env) (\<lambda>ord. is_active_ask_of (o_tokenContract saved) tid ord
              \<and> o_id ord \<noteq> o_id saved) CANCELLED m) in
      if trimmed_lower buyerAddress = [] then m1
      else recordBuyerOwnershipAfterSettle env (o_tokenContract saved)
             (resolveFulfilledAskTokenId saved) buyerAddress (Some saved)
             (maybeCreateSelfVaultSettlement env saved (or_empty buyerAddress) chainId m1))"

definition after_bid_fill :: "market_env \<Rightarrow> order \<Rightarrow> string option \<Rightarrow> market \<Rightarrow> market" where
  "after_bid_fill env saved buyerAddress m =
     (let tid = normalizeDecimalTokenId (o_tokenId saved);
          m1 = (if tid = [] then m
                else update_status (me_now env) (is_active_ask_of (o_tokenContract saved) tid) CANCELLED m) in
      if trimmed_lower buyerAddress = [] then m1
      else recordBuyerOwnershipAfterSettle env (o_tokenContract saved) (Some (o_tokenId saved))
             buyerAddress None m1)"

text \<open>A token bid must not settle on its own when the token is held in a self-vault.\<close>

definition check_bid_only_fill :: "order \<Rightarrow> market \<Rightarrow> market \<times> unit result" where
  "check_bid_only_fill ord m =
     (if o_side ord = BID \<and> cons_type (o_parameters ord) = Some 2
      then let (policy, m') = in_vault (getSettlementPolicy (o_tokenContract ord) (o_tokenId ord)) m in
        if policy = Some self_vault_hold
        then (m', Inl (BadRequestException ''Self-vault hold tokens cannot settle via bid-only fulfill''))
        else (m', Inr ())
      else (m, Inr ()))"

definition fulfillOrder ::
  "market_env \<Rightarrow> string \<Rightarrow> string option \<Rightarrow> nat option \<Rightarrow> string option \<Rightarrow> market \<Rightarrow> market \<times> order result" where
  "fulfillOrder env orderHash buyerAddress chainId fillTxHash = with_order orderHash (\<lambda>ord m.
     if o_status ord \<noteq> ACTIVE then (m, Inl (BadRequestException ''Order is already closed''))
     else guarded (assertOrderSettledForFulfill (me_config env) (me_chain env) ord buyerAddress
            (case chainId of None \<Rightarrow> getDefaultChainId (me_config env) | Some i \<Rightarrow> i)) (\<lambda>_ m.
       and_then (check_bid_only_fill ord m) (\<lambda>_ m.
       let filled = (if o_side ord = ASK then mark_ask_filled buyerAddress fillTxHash ord
                     else mark_bid_filled ord) in
       and_then (saving (me_now env) filled m) (\<lambda>saved m.
         (if \<not> isCriteriaCollectionBidOrder saved \<and> o_side saved = ASK
          then after_ask_fill env saved buyerAddress chainId m
          else if \<not> isCriteriaCollectionBidOrder saved \<and> o_side saved = BID
                  \<and> cons_type (o_parameters saved) = Some 2
          then after_bid_fill env saved buyerAddress m
          else m, Inr saved)))) m)"

text \<open>A matched pair.\<close>

definition check_pair :: "order \<Rightarrow> order \<Rightarrow> unit result" where
  "check_pair ask bid =
     on_ok (if cons_type (o_parameters bid) = Some 2
            then if normalizeDecimalTokenId (o_tokenId ask) \<noteq> normalizeDecimalTokenId (o_tokenId bid)
              then Inl (BadRequestException ''Token bid must target the same tokenId as the listing'')
              else Inr ()
            else if cons_type (o_parameters bid) = Some 4 then Inr ()
            else Inl (BadRequestException ''bid must be a token bid or legacy criteria bid''))
       (\<lambda>_. let ak = or_empty (o_collectionKey ask); bk = or_empty (o_collectionKey bid) in
         if ak \<noteq> [] \<and> bk \<noteq> [] \<and> js_lower ak \<noteq> js_lower bk
         then Inl (BadRequestException ''Listing and bid must belong to the same collection'')
         else case (js_BigInt (o_considerationAmount ask), js_BigInt (o_considerationAmount bid)) of
           (Some askPrice, Some bidPrice) \<Rightarrow>
             if bidPrice < askPrice
             then Inl (BadRequestException ''Bid USDC amount must be at least the listing price'')
             else Inr ()
         | _ \<Rightarrow> Inl (BadRequestException ''Invalid consideration amounts''))"

definition pair_settlement_amount :: "order \<Rightarrow> string" where
  "pair_settlement_amount bid =
     (let offerAmt = js_trim (or_empty (map_option oi_startAmount (offer0 (o_parameters bid)))) in
      if offerAmt \<noteq> [] then offerAmt else o_considerationAmount bid)"

definition mark_pair_ask :: "order \<Rightarrow> order \<Rightarrow> order" where
  "mark_pair_ask bid ask = fst (backfillAskTokenIdFromParameters (ask\<lparr>o_status := FULFILLED,
     o_parameters := (o_parameters ask)\<lparr>sp_server := (sp_server (o_parameters ask))\<lparr>
       sk_tapeFillSide := Some ''sell'', sk_filledByBuyer := Some (js_lower (js_trim (o_offerer bid))),
       sk_matchedBidOrderHash := Some (o_orderHash bid),
       sk_settlementAmount := Some (pair_settlement_amount bid)\<rparr>\<rparr>\<rparr>))"

definition mark_pair_bid :: "order \<Rightarrow> order \<Rightarrow> order" where
  "mark_pair_bid ask bid = bid\<lparr>o_status := FULFILLED,
     o_parameters := (o_parameters bid)\<lparr>sp_server := (sp_server (o_parameters bid))\<lparr>
       sk_tapeFillSide := Some ''sell'', sk_matchedAskOrderHash := Some (o_orderHash ask),
       sk_settlementAmount := Some (pair_settlement_amount bid)\<rparr>\<rparr>\<rparr>"

definition settle_pair ::
  "market_env \<Rightarrow> nat option \<Rightarrow> order \<Rightarrow> order \<Rightarrow> market \<Rightarrow> market \<times> (order \<times> order) result" where
  "settle_pair env chainId ask bid m =
     (let ask' = touched (me_now env) (mark_pair_ask bid ask);
          bid' = touched (me_now env) (mark_pair_bid ask bid);
          m1 = put_order bid' (put_order ask' m);
          m2 = update_status (me_now env) (\<lambda>ord. is_active_ask_of (o_tokenContract ask') (o_tokenId ask') ord
                 \<and> o_id ord \<noteq> o_id ask') CANCELLED m1;
          m3 = maybeCreateSelfVaultSettlement env ask' (o_offerer bid') chainId m2;
          m4 = recordBuyerOwnershipAfterSettle env (o_tokenContract ask') (Some (o_tokenId ask'))
                 (Some (o_offerer bid')) (Some ask') m3
      in (m4, Inr (ask', bid')))"

definition pair_body ::
  "market_env \<Rightarrow> nat option \<Rightarrow> order \<Rightarrow> order \<Rightarrow> market \<Rightarrow> market \<times> (order \<times> order) result" where
  "pair_body env chainId ask bid m =
     (if o_side ask \<noteq> ASK \<or> o_side bid \<noteq> BID
      then (m, Inl (BadRequestException ''askHash must be a listing and bidHash a buy order''))
      else if o_status ask \<noteq> ACTIVE \<or> o_status bid \<noteq> ACTIVE
      then (m, Inl (BadRequestException ''Both orders must be active''))
      else let fillChain = (case chainId of None \<Rightarrow> getDefaultChainId (me_config env) | Some i \<Rightarrow> i) in
        guarded (assertOrderSettledForFulfill (me_config env) (me_chain env) ask (Some (o_offerer bid)) fillChain) (\<lambda>_.
        guarded (assertBidSettledForMatchedPair (me_config env) (me_chain env) bid ask fillChain) (\<lambda>_.
        guarded (check_pair ask bid) (\<lambda>_. settle_pair env chainId ask bid))) m)"

definition fulfillMatchedPair ::
  "market_env \<Rightarrow> string \<Rightarrow> string \<Rightarrow> nat option \<Rightarrow> market \<Rightarrow> market \<times> (order \<times> order) result" where
  "fulfillMatchedPair env askHash bidHash chainId =
     with_order askHash (\<lambda>ask. with_order bidHash (\<lambda>bid. pair_body env chainId ask bid))"

end
