(* ===== verification/OrderMachine.thy ===== *)
theory OrderMachine
  imports OrderBook
begin

text \<open>
  The order book as a state machine. book_wf is the invariant of the order table; order_le is
  what an operation may do to a row: the signed part never changes and a closed order is frozen.
  Every operation evolves the market: its writes to the vault and to the ledger are steps of
  their machines, and its writes to the order table keep the invariant and follow the order.
\<close>

section \<open>Rows\<close>

text \<open>What the offerer signed and the row was created with.\<close>

definition signed_part :: "order \<Rightarrow> order" where
  "signed_part ord = ord\<lparr>o_status := ACTIVE, o_tokenId := [], o_updatedAt := 0,
     o_parameters := seaportHashableParameters (o_parameters ord)\<rparr>"

definition order_le :: "order \<Rightarrow> order \<Rightarrow> bool" where
  "order_le s t = (signed_part t = signed_part s \<and> (o_status s \<noteq> ACTIVE \<longrightarrow> t = s)
     \<and> (is_decimal (js_trim (o_tokenId s)) \<longrightarrow> o_tokenId t = o_tokenId s))"

definition book_adv :: "order list \<Rightarrow> order list \<Rightarrow> bool" where
  "book_adv t t' = (\<forall>s \<in> set t. \<exists>s' \<in> set t'. order_le s s')"

text \<open>An order appears active and is closed once: fulfilled, cancelled or expired.\<close>

definition order_edge :: "order_status \<Rightarrow> order_status \<Rightarrow> bool" where
  "order_edge s t = (s = ACTIVE \<and> t \<noteq> ACTIVE)"

definition order_statuses :: "market \<Rightarrow> nat \<Rightarrow> order_status option" where
  "order_statuses m i = map_option o_status (find_order i m)"

abbreviation order_life :: "market \<Rightarrow> market \<Rightarrow> bool" where
  "order_life m m' \<equiv> (life_step (\<lambda>s. s = ACTIVE) order_edge)\<^sup>*\<^sup>* (order_statuses m) (order_statuses m')"

definition book_step :: "market \<Rightarrow> market \<Rightarrow> bool" where
  "book_step m m' = (book_adv (mk_orders m) (mk_orders m') \<and> order_life m m')"

definition book_wf :: "market \<Rightarrow> bool" where
  "book_wf m = (distinct (map o_id (mk_orders m)) \<and> (\<forall>ord \<in> set (mk_orders m). o_id ord < mk_nextOrder m)
     \<and> unique_index o_id o_orderHash (\<lambda>_. True) (mk_orders m))"

lemma order_le_refl [simp]: "order_le s s"
  by (simp add: order_le_def)

lemma order_le_trans: "order_le s t \<Longrightarrow> order_le t u \<Longrightarrow> order_le s u"
  unfolding order_le_def by metis

lemma book_adv_refl [simp]: "book_adv t t"
  unfolding book_adv_def using order_le_refl by blast

lemma book_adv_append [simp]: "book_adv t (t @ u)"
  unfolding book_adv_def by (metis UnI1 order_le_refl set_append)

lemma book_adv_map: "(\<And>s. order_le s (f s)) \<Longrightarrow> book_adv t (map f t)"
  unfolding book_adv_def by (metis image_eqI list.set_map)

lemma book_step_refl [simp]: "book_step m m"
  unfolding book_step_def book_adv_def using order_le_refl by blast

lemma book_adv_trans: "book_adv a b \<Longrightarrow> book_adv b c \<Longrightarrow> book_adv a c"
  unfolding book_adv_def by (meson order_le_trans)

lemma book_step_trans: "book_step a b \<Longrightarrow> book_step b c \<Longrightarrow> book_step a c"
  unfolding book_step_def using book_adv_trans rtranclp_trans by (metis (no_types, lifting))

lemma book_step_same: "mk_orders m' = mk_orders m \<Longrightarrow> book_step m m'"
  unfolding book_step_def book_adv_def order_statuses_def [abs_def] find_order_def
  by (simp, blast intro: order_le_refl)

lemma signed_fields:
  assumes "signed_part t = signed_part s"
  shows "o_id t = o_id s" "o_orderHash t = o_orderHash s" "o_offerer t = o_offerer s"
    "o_side t = o_side s" "o_tokenContract t = o_tokenContract s"
    "o_considerationAmount t = o_considerationAmount s" "o_collectionKey t = o_collectionKey s"
    "seaportHashableParameters (o_parameters t) = seaportHashableParameters (o_parameters s)"
  using assms by (cases s; cases t; simp add: signed_part_def)+

lemma order_le_fields:
  assumes "order_le s t"
  shows "o_id t = o_id s" "o_orderHash t = o_orderHash s"
  using assms signed_fields unfolding order_le_def by blast+

lemma order_le_change:
  assumes "o_status s = ACTIVE" "signed_part t = signed_part s"
    "is_decimal (js_trim (o_tokenId s)) \<Longrightarrow> o_tokenId t = o_tokenId s"
  shows "order_le s t"
  using assms by (simp add: order_le_def)

lemma signed_touched [simp]: "signed_part (touched now s) = signed_part s"
  by (simp add: signed_part_def touched_def)

lemma signed_status [simp]: "signed_part (s\<lparr>o_status := st\<rparr>) = signed_part s"
  by (simp add: signed_part_def)

lemma signed_server [simp]:
  "signed_part (s\<lparr>o_status := st, o_parameters := (o_parameters s)\<lparr>sp_server := sk\<rparr>\<rparr>) = signed_part s"
  by (simp add: signed_part_def)

lemma signed_backfill [simp]: "signed_part (fst (backfillAskTokenIdFromParameters s)) = signed_part s"
  by (simp add: backfillAskTokenIdFromParameters_def signed_part_def split: option.split)

lemma signed_marks [simp]:
  "signed_part (unowned_ask now w r b s) = signed_part s"
  "signed_part (dead_bid now v cl s) = signed_part s"
  "signed_part (mark_ask_filled buyer tx s) = signed_part s"
  "signed_part (mark_bid_filled s) = signed_part s"
  "signed_part (mark_pair_ask bid s) = signed_part s"
  "signed_part (mark_pair_bid ask s) = signed_part s"
  by (simp_all only: unowned_ask_def dead_bid_def mark_ask_filled_def mark_bid_filled_def
      mark_pair_ask_def mark_pair_bid_def Let_def signed_backfill signed_server)

lemma backfill_tokenId:
  "is_decimal (js_trim (o_tokenId s)) \<Longrightarrow> fst (backfillAskTokenIdFromParameters s) = s"
  by (simp add: backfillAskTokenIdFromParameters_def isValidDecimalTokenId_def or_empty_def)

lemma tokenId_marks [simp]:
  "o_tokenId (touched now s) = o_tokenId s"
  "o_tokenId (unowned_ask now w r b s) = o_tokenId s"
  "o_tokenId (dead_bid now v cl s) = o_tokenId s"
  "o_tokenId (mark_bid_filled s) = o_tokenId s"
  "o_tokenId (mark_pair_bid ask s) = o_tokenId s"
  "is_decimal (js_trim (o_tokenId s)) \<Longrightarrow> o_tokenId (mark_ask_filled buyer tx s) = o_tokenId s"
  "is_decimal (js_trim (o_tokenId s)) \<Longrightarrow> o_tokenId (mark_pair_ask bid s) = o_tokenId s"
  by (simp_all add: touched_def unowned_ask_def dead_bid_def mark_ask_filled_def mark_bid_filled_def
      mark_pair_ask_def mark_pair_bid_def Let_def backfill_tokenId)

lemma touched_simps [simp]:
  "o_id (touched now s) = o_id s" "o_orderHash (touched now s) = o_orderHash s"
  "o_status (touched now s) = o_status s" "o_side (touched now s) = o_side s"
  "o_offerer (touched now s) = o_offerer s" "o_tokenContract (touched now s) = o_tokenContract s"
  "o_parameters (touched now s) = o_parameters s"
  by (simp_all add: touched_def)

section \<open>The table\<close>

lemma order_by_hash_Some: "order_by_hash h m = Some ord \<Longrightarrow> ord \<in> set (mk_orders m) \<and> o_orderHash ord = h"
  unfolding order_by_hash_def by (rule find_row_Some)

lemma put_order_simps [simp]:
  "mk_vault (put_order s m) = mk_vault m" "mk_ledger (put_order s m) = mk_ledger m"
  "mk_nextOrder (put_order s m) = mk_nextOrder m"
  by (simp_all add: put_order_def)

lemma save_order_simps [simp]:
  "mk_vault (save_order now s m) = mk_vault m" "mk_ledger (save_order now s m) = mk_ledger m"
  "mk_nextOrder (save_order now s m) = mk_nextOrder m"
  by (simp_all add: save_order_def)

interpretation order_repo: repository o_id find_order put_order
  by unfold_locales (auto simp: find_order_def put_order_def table_simps dest: find_key_Some)

lemma put_loaded:
  assumes wf: "book_wf m" and s: "s \<in> set (mk_orders m)" and le: "order_le s t"
  shows "book_wf (put_order t m) \<and> book_step m (put_order t m)"
proof
  have f: "o_id t = o_id s" "o_orderHash t = o_orderHash s" using order_le_fields [OF le] by auto
  have d: "distinct (map o_id (mk_orders m))" and u: "unique_index o_id o_orderHash (\<lambda>_. True) (mk_orders m)"
    using wf by (auto simp: book_wf_def)
  have "unique_index o_id o_orderHash (\<lambda>_. True) (upsert o_id t (mk_orders m))"
    by (rule unique_index_update [OF u s f(1,2)])
  moreover have "\<forall>x \<in> set (upsert o_id t (mk_orders m)). o_id x < mk_nextOrder m"
    by (rule ball_upsert) (use wf s f(1) in \<open>auto simp: book_wf_def\<close>)
  ultimately show "book_wf (put_order t m)"
    using d by (simp add: book_wf_def put_order_def)
  have "order_statuses (put_order t m) = (order_statuses m)(o_id t \<mapsto> o_status t)"
    by (auto simp: order_statuses_def fun_eq_iff order_repo.look_put)
  moreover have "find_order (o_id t) m = Some s"
    using s f(1) d by (simp add: find_order_def find_key_member)
  moreover have "o_status s = o_status t \<or> order_edge (o_status s) (o_status t)"
    using le by (auto simp: order_le_def order_edge_def)
  ultimately have "order_life m (put_order t m)"
    by (simp add: order_statuses_def life_same)
  moreover have "book_adv (mk_orders m) (mk_orders (put_order t m))"
    unfolding book_adv_def
  proof
    fix x
    assume x: "x \<in> set (mk_orders m)"
    show "\<exists>s' \<in> set (mk_orders (put_order t m)). order_le x s'"
    proof (cases "o_id x = o_id t")
      case True
      then have "x = s" using d x s f(1) by (metis find_key_member option.inject)
      then show ?thesis using le by (auto simp: put_order_def)
    next
      case False
      then show ?thesis using x set_upsert [OF d] order_le_refl unfolding put_order_def by auto
    qed
  qed
  ultimately show "book_step m (put_order t m)" by (simp add: book_step_def)
qed

lemma put_fresh:
  assumes wf: "book_wf m" and new: "order_by_hash (o_orderHash t) m = None" and i: "o_id t = mk_nextOrder m"
    and active: "o_status t = ACTIVE"
  shows "book_wf (put_order t (m\<lparr>mk_nextOrder := mk_nextOrder m + 1\<rparr>))
     \<and> book_step m (put_order t (m\<lparr>mk_nextOrder := mk_nextOrder m + 1\<rparr>))"
proof -
  let ?m = "put_order t (m\<lparr>mk_nextOrder := mk_nextOrder m + 1\<rparr>)"
  have fresh: "o_id t \<notin> o_id ` set (mk_orders m)" using wf i by (auto simp: book_wf_def)
  have "unique_index o_id o_orderHash (\<lambda>_. True) (upsert o_id t (mk_orders m))"
    by (rule unique_index_upsert) (use wf new in \<open>auto simp: book_wf_def order_by_hash_def find_row_None\<close>)
  moreover have orders: "mk_orders ?m = mk_orders m @ [t]"
    using fresh by (simp add: put_order_def upsert_fresh)
  moreover have "order_life m ?m"
  proof -
    have "find_order (o_id t) m = None" using fresh by (simp add: find_order_def find_key_None)
    then have "life_step (\<lambda>s. s = ACTIVE) order_edge (order_statuses m)
        ((order_statuses m)(o_id t \<mapsto> o_status t))"
      by (intro life_step.appear) (simp_all add: order_statuses_def active)
    moreover have "order_statuses ?m = (order_statuses m)(o_id t \<mapsto> o_status t)"
      by (auto simp: order_statuses_def fun_eq_iff order_repo.look_put) (simp_all add: find_order_def)
    ultimately show ?thesis by (simp add: r_into_rtranclp)
  qed
  ultimately show ?thesis
    using wf fresh i unfolding book_wf_def book_step_def
    by (auto simp: put_order_def upsert_fresh less_Suc_eq)
qed

lemma update_status_book:
  assumes wf: "book_wf m" and p: "\<And>ord. p ord \<Longrightarrow> o_status ord = ACTIVE"
  shows "book_wf (update_status now p st m) \<and> book_step m (update_status now p st m)"
proof -
  let ?f = "\<lambda>ord. if p ord then touched now (ord\<lparr>o_status := st\<rparr>) else ord"
  have f: "o_id (?f s) = o_id s" "o_orderHash (?f s) = o_orderHash s" for s by simp_all
  have le: "order_le s (?f s)" for s
    using p [of s] by (cases "p s") (simp_all add: order_le_change)
  have ids: "map o_id (map ?f t) = map o_id t" for t by simp
  have "unique_index o_id o_orderHash (\<lambda>_. True) (map ?f (mk_orders m))"
    using wf f(1,2) by (subst unique_index_map) (simp_all add: book_wf_def)
  moreover have "distinct (map o_id (map ?f (mk_orders m)))"
    using wf unfolding ids by (simp add: book_wf_def)
  moreover have "book_adv (mk_orders m) (map ?f (mk_orders m))"
    by (rule book_adv_map) (rule le)
  moreover have "\<forall>ord \<in> set (map ?f (mk_orders m)). o_id ord < mk_nextOrder m"
    using wf unfolding book_wf_def by auto
  moreover have "order_life m (update_status now p st m)"
  proof (rule life_moves)
    have "dom (order_statuses m) \<subseteq> o_id ` set (mk_orders m)"
      by (force simp: order_statuses_def find_order_def dest: find_key_Some)
    then show "finite (dom (order_statuses m))" by (rule finite_subset) simp
    fix i
    have "find_order i (update_status now p st m) = map_option ?f (find_order i m)"
      unfolding find_order_def update_status_def by (simp add: find_key_map)
    then show "(\<exists>s t. order_statuses m i = Some s \<and> order_statuses (update_status now p st m) i = Some t
        \<and> (s = t \<or> order_edge s t))
        \<or> order_statuses m i = None \<and> order_statuses (update_status now p st m) i = None"
      using p by (cases "find_order i m") (auto simp: order_statuses_def order_edge_def)
  qed
  ultimately show ?thesis
    by (simp only: book_wf_def book_step_def update_status_def market.simps) simp
qed

section \<open>Evolution of the market\<close>

definition evolves :: "config \<Rightarrow> market \<Rightarrow> market \<Rightarrow> bool" where
  "evolves cfg m m' = (registry_step\<^sup>*\<^sup>* (mk_vault m) (mk_vault m')
     \<and> (ledger_step cfg)\<^sup>*\<^sup>* (mk_ledger m) (mk_ledger m')
     \<and> (book_wf m \<longrightarrow> book_wf m' \<and> book_step m m'))"

lemma evolves_refl [simp, intro]: "evolves cfg m m"
  by (simp add: evolves_def)

lemma evolves_trans [trans]: "evolves cfg a b \<Longrightarrow> evolves cfg b c \<Longrightarrow> evolves cfg a c"
  unfolding evolves_def using book_step_trans by (meson rtranclp_trans)

lemma evolves_vault:
  "registry_step\<^sup>*\<^sup>* (mk_vault m) db \<Longrightarrow> evolves cfg m (m\<lparr>mk_vault := db\<rparr>)"
  by (simp add: evolves_def book_wf_def book_step_same)

lemma evolves_ledger:
  "(ledger_step cfg)\<^sup>*\<^sup>* (mk_ledger m) lg \<Longrightarrow> evolves cfg m (m\<lparr>mk_ledger := lg\<rparr>)"
  by (simp add: evolves_def book_wf_def book_step_same)

lemma evolves_book:
  assumes "mk_vault m' = mk_vault m" "mk_ledger m' = mk_ledger m"
    and "book_wf m \<Longrightarrow> book_wf m' \<and> book_step m m'"
  shows "evolves cfg m m'"
  using assms by (simp add: evolves_def)

text \<open>The blocks that the operations are made of.\<close>

named_theorems evolving \<open>introduction rules for the blocks of an operation\<close>

lemma evolves_guarded [evolving]:
  "evolves cfg m0 m \<Longrightarrow> (\<And>x. r = Inr x \<Longrightarrow> evolves cfg m0 (fst (f x m))) \<Longrightarrow>
   evolves cfg m0 (fst (guarded r f m))"
  by (cases r) (auto simp: guarded_def)

lemma evolves_stop [evolving]: "evolves cfg m0 m \<Longrightarrow> evolves cfg m0 (fst (m, r))"
  by simp

lemma evolves_if [evolving]:
  "(b \<Longrightarrow> evolves cfg m0 (fst p)) \<Longrightarrow> (\<not> b \<Longrightarrow> evolves cfg m0 (fst q)) \<Longrightarrow>
   evolves cfg m0 (fst (if b then p else q))"
  by simp

lemma evolves_option [evolving]:
  "(v = None \<Longrightarrow> evolves cfg m0 (fst p)) \<Longrightarrow> (\<And>x. v = Some x \<Longrightarrow> evolves cfg m0 (fst (q x))) \<Longrightarrow>
   evolves cfg m0 (fst (case v of None \<Rightarrow> p | Some x \<Rightarrow> q x))"
  by (simp split: option.split)

lemma evolves_and_then [evolving]:
  assumes "evolves cfg m0 (fst mr)"
    and "\<And>x m. mr = (m, Inr x) \<Longrightarrow> evolves cfg m0 m \<Longrightarrow> evolves cfg m0 (fst (f x m))"
  shows "evolves cfg m0 (fst (and_then mr f))"
  using assms by (cases mr; cases "snd mr") (auto simp: and_then_def)

lemma in_vault_orders [simp]:
  "mk_orders (snd (in_vault f m)) = mk_orders m" "mk_nextOrder (snd (in_vault f m)) = mk_nextOrder m"
  "mk_ledger (snd (in_vault f m)) = mk_ledger m"
  by (simp_all add: in_vault_def split: prod.split)

lemma in_vault_evolves:
  "registry_step\<^sup>*\<^sup>* (mk_vault m) (snd (f (mk_vault m))) \<Longrightarrow> evolves cfg m (snd (in_vault f m))"
  by (simp add: in_vault_def case_prod_beta evolves_vault)

lemma policy_evolves: "evolves cfg m (snd (in_vault (getSettlementPolicy c i) m))"
  by (rule in_vault_evolves) (rule getPolicy_steps)

lemma askPolicy_evolves: "evolves cfg m (snd (in_vault (assertAskSettlementPolicy config dto ch) m))"
proof (rule in_vault_evolves)
  have "snd (assertAskSettlementPolicy config dto ch db) =
      snd (getSettlementPolicy (dto_tokenContract dto) (dto_tokenId dto) db)" for db
    by (simp add: assertAskSettlementPolicy_def split: prod.split option.split settlement_policy.split)
  then show "registry_step\<^sup>*\<^sup>* (mk_vault m) (snd (assertAskSettlementPolicy config dto ch (mk_vault m)))"
    using getPolicy_steps by simp
qed

lemma display_evolves: "evolves cfg m (snd (attachListingDisplay ord m))"
proof -
  have "evolves cfg m (snd (in_vault (getVaultDisplayByTokenIds c ids) m))" for c ids
    by (rule in_vault_evolves) (rule display_steps)
  then show ?thesis by (simp add: attachListingDisplay_def Let_def case_prod_beta)
qed

lemma display_orders [simp]: "mk_orders (snd (attachListingDisplay ord m)) = mk_orders m"
  by (simp add: attachListingDisplay_def Let_def case_prod_beta)

text \<open>The save of a loaded order that is active.\<close>

lemma touched_le: "o_status s = ACTIVE \<Longrightarrow> order_le s t \<Longrightarrow> order_le s (touched now t)"
  by (simp add: order_le_def)

lemma save_evolves:
  assumes "s \<in> set (mk_orders m)" "o_status s = ACTIVE" "order_le s t"
  shows "evolves cfg m (save_order now t m)"
proof (rule evolves_book)
  show "book_wf m \<Longrightarrow> book_wf (save_order now t m) \<and> book_step m (save_order now t m)"
    unfolding save_order_def using put_loaded touched_le assms by blast
qed simp_all

lemma update_status_simps [simp]:
  "mk_vault (update_status now p st m) = mk_vault m" "mk_ledger (update_status now p st m) = mk_ledger m"
  by (simp_all add: update_status_def)

lemma update_status_evolves:
  "(\<And>ord. p ord \<Longrightarrow> o_status ord = ACTIVE) \<Longrightarrow> evolves cfg m (update_status now p st m)"
  by (rule evolves_book) (simp_all add: update_status_book)

lemma record_owner_evolves: "evolves cfg m (record_owner_of ord w m)"
  unfolding record_owner_of_def by (rule evolves_vault) (rule own_steps)

lemma persist_evolves:
  assumes "o_status ord = ACTIVE"
  shows "evolves cfg m (fst (persistOrder now ord m))"
proof (cases "valid_dates ord \<and> order_by_hash (o_orderHash ord) m = None")
  case True
  let ?r = "inserted_order now (mk_nextOrder m) ord"
  have r: "o_orderHash ?r = o_orderHash ord" "o_id ?r = mk_nextOrder m" "o_status ?r = ACTIVE"
    using assms by (simp_all add: inserted_order_def)
  have "evolves cfg m (put_order ?r (m\<lparr>mk_nextOrder := mk_nextOrder m + 1\<rparr>))"
    by (rule evolves_book) (use put_fresh [of m ?r] r True in simp_all)
  then show ?thesis using True by (simp add: persistOrder_def Let_def)
qed (auto simp: persistOrder_def)

section \<open>Every operation evolves the market\<close>

lemma evolves_from: "evolves cfg m0 m \<Longrightarrow> evolves cfg m m' \<Longrightarrow> evolves cfg m0 m'"
  by (rule evolves_trans)

lemma materialize_evolves: "evolves cfg m (fst (materializeOrderFromDto env dto ch m))"
  unfolding materializeOrderFromDto_def Let_def case_prod_beta
  by (intro evolving evolves_refl policy_evolves)

lemma materialize_orders [simp]: "mk_orders (fst (materializeOrderFromDto env dto ch m)) = mk_orders m"
  by (auto simp: materializeOrderFromDto_def Let_def case_prod_beta split: option.split)

lemma materialize_active: "materializeOrderFromDto env dto ch m = (m', Inr ord) \<Longrightarrow> o_status ord = ACTIVE"
  by (auto simp: materializeOrderFromDto_def hashed_draft_def draft_order_def Let_def case_prod_beta
      split: option.splits if_splits)

lemma unowned_le: "o_status s = ACTIVE \<Longrightarrow> order_le s (unowned_ask now w r b s)"
  by (rule order_le_change) simp_all

lemma cancelUnowned_evolves: "evolves cfg m (fst (cancelActiveAskIfOffererUnowned env tc tid ch m))"
  unfolding cancelActiveAskIfOffererUnowned_def Let_def
proof (intro evolving evolves_refl)
  fix s w
  assume "find_row (\<lambda>ord. o_tokenContract ord = tc \<and> o_tokenId ord \<in> set (tid_variants tid)
      \<and> o_status ord = ACTIVE \<and> o_side ord = ASK) (mk_orders m) = Some s"
  then have "s \<in> set (mk_orders m)" "o_status s = ACTIVE" by (auto dest: find_row_Some)
  then show "evolves cfg m (record_owner_of s w (save_order (me_now env)
      (unowned_ask (me_now env) w (Some ''supersede_by_onchain_owner'') None s) m))"
    using save_evolves unowned_le record_owner_evolves evolves_trans by meson
qed

lemma create_ask_checks_evolves: "evolves cfg m (fst (create_ask_checks env dto ch m))"
  unfolding create_ask_checks_def Let_def case_prod_beta
  by (intro evolving evolves_refl askPolicy_evolves evolves_from [OF _ cancelUnowned_evolves])

lemma create_checks_evolves: "evolves cfg m (fst (create_checks env dto ch m))"
  unfolding create_checks_def
  by (intro evolving evolves_refl create_ask_checks_evolves)

lemma createOrder_evolves: "evolves cfg m (fst (createOrder env dto ch m))"
  unfolding createOrder_def Let_def case_prod_beta
  by (intro evolving evolves_refl create_checks_evolves evolves_from [OF _ materialize_evolves]
      evolves_from [OF _ persist_evolves [OF materialize_active]] evolves_from [OF _ display_evolves])

lemma cancelled_le: "o_status s = ACTIVE \<Longrightarrow> order_le s (s\<lparr>o_status := st\<rparr>)"
  by (rule order_le_change) simp_all

lemma replace_rows_evolves:
  assumes old: "old \<in> set (mk_orders m)" "o_status old = ACTIVE"
    and adjust: "\<And>x y. adjust x = Inr y \<Longrightarrow> o_status y = o_status x"
  shows "evolves cfg m (fst (replace_rows env dto ch old adjust m))"
  unfolding replace_rows_def
proof (intro evolving evolves_refl materialize_evolves)
  fix order0 m1 order
  assume mat: "materializeOrderFromDto env dto ch m = (m1, Inr order0)" and 1: "evolves cfg m m1"
    and adj: "adjust order0 = Inr order"
  let ?m2 = "save_order (me_now env) (old\<lparr>o_status := CANCELLED\<rparr>) m1"
  have "mk_orders m1 = mk_orders m" using materialize_orders [of env dto ch m] mat by simp
  then have "evolves cfg m1 ?m2" using old cancelled_le by (intro save_evolves) auto
  then have "evolves cfg m (fst (persistOrder (me_now env) order ?m2))"
    using 1 persist_evolves [OF trans [OF adjust [OF adj] materialize_active [OF mat]]] evolves_trans
    by meson
  with 1 show "evolves cfg m (fst (case persistOrder (me_now env) order ?m2 of
       (m2, Inl e) \<Rightarrow> (m1, Inl e) | (m2, Inr saved) \<Rightarrow> (m2, Inr saved)))"
    by (auto split: prod.split sum.split)
qed

lemma check_old_listing_active: "check_old_listing c dto old = Inr u \<Longrightarrow> o_status old = ACTIVE"
  by (simp add: check_old_listing_def split: if_splits)

lemma reattach_status: "reattach_collection old x = Inr y \<Longrightarrow> o_status y = o_status x"
  by (auto simp: reattach_collection_def Let_def split: if_splits)

lemma check_old_bid_active: "check_old_bid c dto key old = Inr u \<Longrightarrow> o_status old = ACTIVE"
  by (simp add: check_old_bid_def split: if_splits)

lemma replaceSellerListing_evolves: "evolves cfg m (fst (replaceSellerListing env h c dto ch m))"
  unfolding replaceSellerListing_def Let_def case_prod_beta
proof (intro evolving evolves_refl askPolicy_evolves)
  fix old and u :: unit
  let ?m1 = "snd (in_vault (assertAskSettlementPolicy (me_config env) dto ch) m)"
  assume o: "order_by_hash h ?m1 = Some old" and "check_old_listing c dto old = Inr u"
  then have "evolves cfg ?m1 (fst (replace_rows env dto ch old (reattach_collection old) ?m1))"
    using order_by_hash_Some [OF o] check_old_listing_active reattach_status by (intro replace_rows_evolves) auto
  then show "evolves cfg m (fst (replace_rows env dto ch old (reattach_collection old) ?m1))"
    using askPolicy_evolves evolves_trans by blast
qed

lemma replaceBuyerBid_evolves: "evolves cfg m (fst (replaceBuyerBid env h c dto ch m))"
  unfolding replaceBuyerBid_def
proof (intro evolving evolves_refl)
  fix old key and u :: unit
  assume o: "order_by_hash h m = Some old" and "check_old_bid c dto key old = Inr u"
  then show "evolves cfg m (fst (replace_rows env dto ch old Inr m))"
    using order_by_hash_Some [OF o] check_old_bid_active by (intro replace_rows_evolves) auto
qed

text \<open>An operation on a loaded order: the vault may be healed before it, the order table not.\<close>

lemma with_order_evolves:
  assumes "\<And>ord m1. ord \<in> set (mk_orders m1) \<Longrightarrow> mk_orders m1 = mk_orders m \<Longrightarrow> evolves cfg m m1 \<Longrightarrow>
     evolves cfg m (fst (f ord m1))"
  shows "evolves cfg m (fst (with_order h f m))"
proof (cases "order_by_hash h m")
  case (Some ord)
  then have "ord \<in> set (mk_orders m)" by (auto dest: order_by_hash_Some)
  then have "evolves cfg m (fst (f ord (snd (attachListingDisplay ord m))))"
    using assms display_evolves by simp
  then show ?thesis
    using Some by (simp add: with_order_def findByHash_def and_then_def case_prod_beta)
qed (simp add: with_order_def findByHash_def and_then_def)

lemma saving_evolves:
  assumes "evolves cfg m0 m" "s \<in> set (mk_orders m)" "o_status s = ACTIVE" "order_le s t"
  shows "evolves cfg m0 (fst (saving now t m))"
  using evolves_trans [OF assms(1) save_evolves [OF assms(2-4)]] by (simp add: saving_def)

lemma dead_le: "o_status s = ACTIVE \<Longrightarrow> order_le s (dead_bid now r c s)"
  by (rule order_le_change) simp_all

lemma cancelOrder_evolves: "evolves cfg m (fst (cancelOrder env h c m))"
  unfolding cancelOrder_def
  by (intro with_order_evolves evolving) (auto intro: saving_evolves cancelled_le)

lemma invalidateDeadBid_evolves: "evolves cfg m (fst (invalidateDeadBid env h c ch m))"
  unfolding invalidateDeadBid_def
  by (intro with_order_evolves evolving) (auto intro: saving_evolves dead_le)

lemma invalidateUnownedAsk_evolves: "evolves cfg m (fst (invalidateUnownedAsk env h c ch m))"
  unfolding invalidateUnownedAsk_def
  by (intro with_order_evolves evolving evolves_from [OF _ record_owner_evolves])
     (auto intro: saving_evolves unowned_le)

lemma expireOrders_evolves: "evolves cfg m (expireOrders now m)"
  by (auto simp: expireOrders_def intro: update_status_evolves)

section \<open>Fulfilling evolves the market\<close>

lemma maybeCreate_evolves: "evolves cfg m (maybeCreateSelfVaultSettlement env ask w ch m)"
  if "me_config env = cfg"
proof -
  have create: "evolves cfg m m1 \<Longrightarrow> evolves cfg m (case createFromFulfilledAsk (me_config env)
      (me_now env) ask w c None (mk_ledger m1) of Inl e \<Rightarrow> m1 | Inr (row, lg) \<Rightarrow> m1\<lparr>mk_ledger := lg\<rparr>)"
    for m1 c
    using that by (auto split: sum.split intro!: evolves_from [OF _ evolves_ledger]
        r_into_rtranclp ledger_step.create)
  have step: "evolves cfg m m1 \<Longrightarrow> evolves cfg m (if b then m1 else if b' then m1 else
      case createFromFulfilledAsk (me_config env) (me_now env) ask w c None (mk_ledger m1) of
        Inl e \<Rightarrow> m1 | Inr (row, lg) \<Rightarrow> m1\<lparr>mk_ledger := lg\<rparr>)" for b b' m1 c
    using create by simp
  show ?thesis
    unfolding maybeCreateSelfVaultSettlement_def Let_def case_prod_beta
    by (intro step [unfolded case_prod_beta]) (simp add: policy_evolves)
qed

lemma recordBuyer_evolves: "evolves cfg m (recordBuyerOwnershipAfterSettle env tc tid w ask m)"
proof -
  have "registry_step\<^sup>*\<^sup>* db (ensureSettlementPolicy c i p (recordOwner c' i' w' db))" for db c i p c' i' w'
    using own_steps ensure_steps by (rule rtranclp_trans)
  then show ?thesis
    unfolding recordBuyerOwnershipAfterSettle_def Let_def
    by (auto intro!: evolves_vault own_steps split: option.split)
qed

lemma after_ask_fill_evolves:
  "me_config env = cfg \<Longrightarrow> evolves cfg m (after_ask_fill env s w ch m)"
proof -
  assume c: "me_config env = cfg"
  let ?m1 = "case resolveFulfilledAskTokenId s of None \<Rightarrow> m
    | Some tid \<Rightarrow> update_status (me_now env)
        (\<lambda>ord. is_active_ask_of (o_tokenContract s) tid ord \<and> o_id ord \<noteq> o_id s) CANCELLED m"
  have 1: "evolves cfg m ?m1"
    by (auto simp: is_active_ask_of_def intro: update_status_evolves split: option.split)
  have "evolves cfg m (recordBuyerOwnershipAfterSettle env tc tid w a
      (maybeCreateSelfVaultSettlement env s w' ch ?m1))" for tc tid w a w'
    using evolves_trans [OF evolves_trans [OF 1 maybeCreate_evolves [OF c]] recordBuyer_evolves] .
  with 1 show ?thesis by (simp add: after_ask_fill_def Let_def)
qed

lemma after_bid_fill_evolves: "evolves cfg m (after_bid_fill env s w m)"
proof -
  have "evolves cfg m (update_status now (is_active_ask_of tc tid) CANCELLED m)" for now tc tid
    by (auto simp: is_active_ask_of_def intro: update_status_evolves)
  then show ?thesis
    using evolves_trans [OF _ recordBuyer_evolves] recordBuyer_evolves
    by (simp add: after_bid_fill_def Let_def)
qed

lemma mark_ask_le: "o_status s = ACTIVE \<Longrightarrow> order_le s (mark_ask_filled w tx s)"
  by (rule order_le_change) simp_all

lemma mark_bid_le: "o_status s = ACTIVE \<Longrightarrow> order_le s (mark_bid_filled s)"
  by (rule order_le_change) simp_all

lemma check_bid_only_evolves: "evolves cfg m (fst (check_bid_only_fill s m))"
  unfolding check_bid_only_fill_def Let_def case_prod_beta
  by (intro evolving evolves_refl policy_evolves)

lemma check_bid_only_orders [simp]: "mk_orders (fst (check_bid_only_fill s m)) = mk_orders m"
  by (simp add: check_bid_only_fill_def Let_def case_prod_beta)

lemma fulfillOrder_evolves:
  assumes c: "me_config env = cfg"
  shows "evolves cfg m (fst (fulfillOrder env h w ch tx m))"
  unfolding fulfillOrder_def Let_def
proof (intro with_order_evolves evolving evolves_from [OF _ check_bid_only_evolves], assumption+)
  fix ord m1 m2 and u v :: unit
  assume o: "ord \<in> set (mk_orders m1)" "\<not> o_status ord \<noteq> ACTIVE"
    and 2: "check_bid_only_fill ord m1 = (m2, Inr v)" "evolves cfg m m2"
  have "mk_orders m2 = mk_orders m1" using check_bid_only_orders [of ord m1] 2(1) by simp
  then show "evolves cfg m (fst (saving (me_now env)
      (if o_side ord = ASK then mark_ask_filled w tx ord else mark_bid_filled ord) m2))"
    using o 2 by (intro saving_evolves) (auto intro: mark_ask_le mark_bid_le)
next
  fix saved m3
  assume 3: "evolves cfg m m3"
  show "evolves cfg m (if \<not> isCriteriaCollectionBidOrder saved \<and> o_side saved = ASK
          then after_ask_fill env saved w ch m3
          else if \<not> isCriteriaCollectionBidOrder saved \<and> o_side saved = BID
                  \<and> cons_type (o_parameters saved) = Some 2
          then after_bid_fill env saved w m3 else m3)"
    using 3 evolves_trans [OF 3 after_ask_fill_evolves [OF c]] evolves_trans [OF 3 after_bid_fill_evolves]
    by simp
qed

lemma mark_pair_le:
  "o_status s = ACTIVE \<Longrightarrow> order_le s (touched now (mark_pair_ask bid s))"
  "o_status s = ACTIVE \<Longrightarrow> order_le s (touched now (mark_pair_bid ask s))"
  by (rule order_le_change; simp)+

lemma put_pair_evolves:
  assumes ab: "a \<in> set (mk_orders m)" "b \<in> set (mk_orders m)" "a \<noteq> b"
    and le: "order_le a a'" "order_le b b'"
  shows "evolves cfg m (put_order b' (put_order a' m))"
proof (rule evolves_book)
  assume wf: "book_wf m"
  then have d: "distinct (map o_id (mk_orders m))" by (simp add: book_wf_def)
  have "o_id b \<noteq> o_id a" using ab d by (metis find_key_member option.inject)
  then have b: "b \<in> set (mk_orders (put_order a' m))"
    using ab(2) order_le_fields(1) [OF le(1)] by (simp add: put_order_def set_upsert [OF d])
  show "book_wf (put_order b' (put_order a' m))
      \<and> book_step m (put_order b' (put_order a' m))"
    using put_loaded [OF wf ab(1) le(1)] put_loaded [OF _ b le(2)] book_step_trans by blast
qed simp_all

lemma settle_pair_evolves:
  assumes c: "me_config env = cfg"
    and ab: "ask \<in> set (mk_orders m)" "bid \<in> set (mk_orders m)" "ask \<noteq> bid"
      "o_status ask = ACTIVE" "o_status bid = ACTIVE"
  shows "evolves cfg m (fst (settle_pair env ch ask bid m))"
proof -
  have 1: "evolves cfg m (put_order (touched now (mark_pair_bid ask bid))
      (put_order (touched now (mark_pair_ask bid ask)) m))" for now
    using put_pair_evolves [OF ab(1-3) mark_pair_le(1) [OF ab(4)] mark_pair_le(2) [OF ab(5)]] .
  have 2: "evolves cfg m1 (update_status now (\<lambda>ord. is_active_ask_of tc tid ord \<and> o_id ord \<noteq> i) CANCELLED m1)"
    for m1 now tc tid i
    by (auto simp: is_active_ask_of_def intro: update_status_evolves)
  show ?thesis
    unfolding settle_pair_def Let_def
    using evolves_trans [OF evolves_trans [OF evolves_trans [OF 1 2] maybeCreate_evolves [OF c]]
        recordBuyer_evolves]
    by simp
qed

lemma pair_body_evolves:
  assumes c: "me_config env = cfg" and m: "evolves cfg m0 m"
    and ab: "ask \<in> set (mk_orders m)" "bid \<in> set (mk_orders m)"
  shows "evolves cfg m0 (fst (pair_body env ch ask bid m))"
  unfolding pair_body_def Let_def
  using m by (intro evolving evolves_from [OF m settle_pair_evolves [OF c]]) (use ab in auto)

lemma fulfillMatchedPair_evolves:
  assumes c: "me_config env = cfg"
  shows "evolves cfg m (fst (fulfillMatchedPair env ah bh ch m))"
  unfolding fulfillMatchedPair_def
proof (rule with_order_evolves)
  fix ask m1
  assume ask: "ask \<in> set (mk_orders m1)" "evolves cfg m m1"
  have "evolves cfg m1 (fst (with_order bh (pair_body env ch ask) m1))"
    by (rule with_order_evolves) (use ask c in \<open>auto intro: pair_body_evolves\<close>)
  then show "evolves cfg m (fst (with_order bh (pair_body env ch ask) m1))"
    using evolves_trans [OF ask(2)] by blast
qed

section \<open>The market as a state machine\<close>

text \<open>
  A step is one operation of the order service with any request and any state of the chain, a
  run of the expiry cron, a step of the vault or a step of the settlement ledger. The
  configuration does not change while the server runs.
\<close>

inductive market_step :: "(string \<Rightarrow> string) \<Rightarrow> config \<Rightarrow> market \<Rightarrow> market \<Rightarrow> bool" for k cfg where
  create: "me_config env = cfg \<Longrightarrow> createOrder env dto ch m = (m', r) \<Longrightarrow> market_step k cfg m m'"
| replace_ask: "me_config env = cfg \<Longrightarrow> replaceSellerListing env h c dto ch m = (m', r) \<Longrightarrow> market_step k cfg m m'"
| replace_bid: "me_config env = cfg \<Longrightarrow> replaceBuyerBid env h c dto ch m = (m', r1) \<Longrightarrow> market_step k cfg m m'"
| cancel_order: "me_config env = cfg \<Longrightarrow> cancelOrder env h c m = (m', r1) \<Longrightarrow> market_step k cfg m m'"
| dead: "me_config env = cfg \<Longrightarrow> invalidateDeadBid env h c ch m = (m', r1) \<Longrightarrow> market_step k cfg m m'"
| unowned: "me_config env = cfg \<Longrightarrow> invalidateUnownedAsk env h c ch m = (m', r1) \<Longrightarrow> market_step k cfg m m'"
| fulfill: "me_config env = cfg \<Longrightarrow> fulfillOrder env h w och tx m = (m', r1) \<Longrightarrow> market_step k cfg m m'"
| pair: "me_config env = cfg \<Longrightarrow> fulfillMatchedPair env ah bh och m = (m', r2) \<Longrightarrow> market_step k cfg m m'"
| expire: "expireOrders now m = m' \<Longrightarrow> market_step k cfg m m'"
| vault: "vault_step k (mk_vault m) db \<Longrightarrow> market_step k cfg m (m\<lparr>mk_vault := db\<rparr>)"
| ledger: "ledger_step cfg (mk_ledger m) lg \<Longrightarrow> market_step k cfg m (m\<lparr>mk_ledger := lg\<rparr>)"

inductive_cases market_stepE: "market_step k cfg m m'"

lemma fst_evolves: "evolves cfg m (fst x) \<Longrightarrow> x = (m', r) \<Longrightarrow> evolves cfg m m'"
  by simp

lemmas operations_evolve =
  createOrder_evolves replaceSellerListing_evolves replaceBuyerBid_evolves cancelOrder_evolves
  invalidateDeadBid_evolves invalidateUnownedAsk_evolves

lemma market_step_evolves:
  "market_step k cfg m m' \<Longrightarrow> evolves cfg m m' \<or> (\<exists>db. vault_step k (mk_vault m) db \<and> m' = m\<lparr>mk_vault := db\<rparr>)"
  by (erule market_stepE)
     (auto simp: evolves_ledger r_into_rtranclp expireOrders_evolves
       fst_evolves [OF operations_evolve(1)] fst_evolves [OF operations_evolve(2)]
       fst_evolves [OF operations_evolve(3)] fst_evolves [OF operations_evolve(4)]
       fst_evolves [OF operations_evolve(5)] fst_evolves [OF operations_evolve(6)]
       fst_evolves [OF fulfillOrder_evolves] fst_evolves [OF fulfillMatchedPair_evolves])

definition market_wf :: "config \<Rightarrow> market \<Rightarrow> bool" where
  "market_wf cfg m = (book_wf m \<and> vault_wf (mk_vault m) \<and> ledger_wf cfg (mk_ledger m))"

definition market_adv :: "market \<Rightarrow> market \<Rightarrow> bool" where
  "market_adv m m' = (book_adv (mk_orders m) (mk_orders m')
     \<and> cycles_advance (mk_vault m) (mk_vault m') \<and> ledger_adv (mk_ledger m) (mk_ledger m'))"

lemma evolves_market:
  assumes e: "evolves cfg m m'" and wf: "market_wf cfg m"
  shows "market_wf cfg m' \<and> market_adv m m'"
proof -
  have v: "registry_step\<^sup>*\<^sup>* (mk_vault m) (mk_vault m')" and l: "(ledger_step cfg)\<^sup>*\<^sup>* (mk_ledger m) (mk_ledger m')"
    and b: "book_wf m' \<and> book_adv (mk_orders m) (mk_orders m')"
    using e wf by (auto simp: evolves_def market_wf_def book_step_def)
  have w: "vault_wf (mk_vault m)" "ledger_wf cfg (mk_ledger m)" using wf by (auto simp: market_wf_def)
  have "cycles_advance (mk_vault m) (mk_vault m')"
    using registry_machine.steps_adv [OF w(1) v] by (simp add: registry_le_def cycles_advance_same)
  then show ?thesis
    using b registry_machine.steps_inv [OF w(1) v] ledger_machine.steps_inv [OF w(2) l]
      ledger_machine.steps_adv [OF w(2) l]
    by (simp add: market_wf_def market_adv_def)
qed

lemma market_step_ok: "market_step k cfg m m' \<Longrightarrow> market_wf cfg m \<Longrightarrow> market_wf cfg m' \<and> market_adv m m'"
  using market_step_evolves [of k cfg m m'] evolves_market [of cfg m m']
  by (auto simp: market_wf_def market_adv_def book_wf_def dest: vault_step_ok)

interpretation market_machine: monotone_machine "market_step k cfg" "market_wf cfg" market_adv for k cfg
proof
  show "market_wf cfg s \<Longrightarrow> market_step k cfg s t \<Longrightarrow> market_wf cfg t" for s t
    using market_step_ok by blast
  show "market_wf cfg s \<Longrightarrow> market_step k cfg s t \<Longrightarrow> market_adv s t" for s t
    using market_step_ok by blast
  show "market_adv s s" for s by (simp add: market_adv_def)
  show "market_adv s t \<Longrightarrow> market_adv t u \<Longrightarrow> market_adv s u" for s t u
    unfolding market_adv_def using book_adv_trans cycles_advance_trans ledger_adv_trans by blast
qed

lemma market_step_life:
  assumes wf: "market_wf cfg m" and s: "market_step k cfg m m'"
  shows "order_life m m'"
proof -
  have "book_step m m'"
    using market_step_evolves [OF s] wf book_step_same
    by (auto simp: evolves_def market_wf_def)
  then show ?thesis by (simp add: book_step_def)
qed

interpretation market_refines: status_refinement "market_step k cfg" "market_wf cfg" order_statuses
  "\<lambda>s. s = ACTIVE" order_edge for k cfg
  by unfold_locales (rule market_step_life)

lemma empty_market_wf: "market_wf cfg empty_market"
  by (simp add: market_wf_def empty_market_def book_wf_def empty_db_wf empty_ledger_wf)

end
