(* ===== verification/RedeemFlow.thy ===== *)
theory RedeemFlow
  imports RedeemFees TokenRegistry OrderMachine
begin

text \<open>
  The redemption of cards (rwa/rwa-redeem.service.ts, with ensureBurnedForRedeem and
  burnTokenOnChain of marketplace/collections/rwa-token-admin.service.ts): quotes that are
  pinned while the user pays, the batch that a USDC payment opens, the intake of the NFTs into
  custody, and the receipt that burns them. An operation returns the state beside its result,
  because what was written before a throw stays. Notifications and portfolio snapshots are
  sent without effect on this state and are left out.
\<close>

section \<open>State and environment\<close>

record quote_pin =
  qp_totalMicros :: int
  qp_expiresAtMs :: int
  qp_estimate :: redeem_estimate

text \<open>
  The pins are a JavaScript Map, which keeps the order in which its keys were inserted.
  rs_refunds is not a table: it records the refunds that reached the chain.
\<close>

record redeem_state =
  rs_market :: market
  rs_pins :: "(string \<times> quote_pin) list"
  rs_refunds :: "(string \<times> string \<times> int) list"

text \<open>A log of a receipt, with what ethers parses from it as an ERC-20 or ERC-721 Transfer.\<close>

record receipt_log =
  rl_address :: string
  rl_erc20 :: "(string \<times> string \<times> int) option"
  rl_erc721 :: "(string \<times> string \<times> nat) option"

record tx_receipt =
  tr_status :: nat
  tr_logs :: "receipt_log list"

record redeem_env =
  rv_fee :: fee_env
  rv_registry :: registry_env
  rv_keccak :: "string \<Rightarrow> string"
  rv_kyc :: "string \<Rightarrow> unit result"
  rv_wallets :: "string \<Rightarrow> string list"
  rv_ownerOf :: "nat \<Rightarrow> nat \<Rightarrow> string result"
  rv_receipt :: "nat \<Rightarrow> string \<Rightarrow> tx_receipt option"
  rv_custodyWallet :: "nat \<Rightarrow> string result"
  rv_batchId :: string
  rv_adminBurn :: "nat \<Rightarrow> nat \<Rightarrow> string \<Rightarrow> string result"

definition rv_config :: "redeem_env \<Rightarrow> config" where
  "rv_config env = fn_config (rv_fee env)"

definition rv_now :: "redeem_env \<Rightarrow> int" where
  "rv_now env = fn_now (rv_fee env)"

definition rs_vault :: "redeem_state \<Rightarrow> vault_db" where
  "rs_vault st = mk_vault (rs_market st)"

definition put_vault :: "vault_db \<Rightarrow> redeem_state \<Rightarrow> redeem_state" where
  "put_vault db st = st\<lparr>rs_market := (rs_market st)\<lparr>mk_vault := db\<rparr>\<rparr>"

text \<open>Go on with the result of a check, and with the state and result of an operation.\<close>

definition need :: "'a result \<Rightarrow> ('a \<Rightarrow> 's \<Rightarrow> 's \<times> 'b result) \<Rightarrow> 's \<Rightarrow> 's \<times> 'b result" where
  "need r k st = (case r of Inl e \<Rightarrow> (st, Inl e) | Inr x \<Rightarrow> k x st)"

definition andThen :: "'s \<times> 'a result \<Rightarrow> ('a \<Rightarrow> 's \<Rightarrow> 's \<times> 'b result) \<Rightarrow> 's \<times> 'b result" where
  "andThen r k = (case r of (st, Inl e) \<Rightarrow> (st, Inl e) | (st, Inr x) \<Rightarrow> k x st)"

text \<open>An operation of the vault service that writes only when it succeeds.\<close>

definition need_vault ::
  "(vault_db \<Rightarrow> ('a \<times> vault_db) result) \<Rightarrow> ('a \<Rightarrow> redeem_state \<Rightarrow> redeem_state \<times> 'b result) \<Rightarrow>
   redeem_state \<Rightarrow> redeem_state \<times> 'b result" where
  "need_vault f k st = (case f (rs_vault st) of
      Inl e \<Rightarrow> (st, Inl e) | Inr (x, db) \<Rightarrow> k x (put_vault db st))"

section \<open>Pinned quotes\<close>

definition QUOTE_PIN_TTL_MS :: int where
  "QUOTE_PIN_TTL_MS = 15 * 60000"

definition QUOTE_PIN_MAX_ENTRIES :: nat where
  "QUOTE_PIN_MAX_ENTRIES = 500"

fun join_comma :: "string list \<Rightarrow> string" where
  "join_comma [] = []"
| "join_comma [s] = s"
| "join_comma (s # ss) = s @ '','' @ join_comma ss"

definition quotePinKey :: "nat list \<Rightarrow> string option \<Rightarrow> string option \<Rightarrow> string option \<Rightarrow> string" where
  "quotePinKey tokenIds country countryCode postal =
     (let ids = join_comma (map nat_str (sort (js_unique tokenIds)));
          code = (if or_empty countryCode \<noteq> [] then or_empty countryCode else or_empty country)
      in ids @ ''|'' @ js_lower (js_trim code) @ ''|'' @ js_lower (js_trim (or_empty postal)))"

definition live_pins :: "int \<Rightarrow> (string \<times> quote_pin) list \<Rightarrow> (string \<times> quote_pin) list" where
  "live_pins now pins = filter (\<lambda>p. now < qp_expiresAtMs (snd p)) pins"

definition evict_first :: "(string \<times> quote_pin) list \<Rightarrow> (string \<times> quote_pin) list" where
  "evict_first pins = (if QUOTE_PIN_MAX_ENTRIES \<le> length pins then drop 1 pins else pins)"

definition find_pin :: "string \<Rightarrow> (string \<times> quote_pin) list \<Rightarrow> quote_pin option" where
  "find_pin key pins = map_option snd (find_row (\<lambda>p. fst p = key) pins)"

definition pinQuote ::
  "int \<Rightarrow> string \<Rightarrow> redeem_estimate \<Rightarrow> int option \<Rightarrow> (string \<times> quote_pin) list \<Rightarrow>
   (string \<times> quote_pin) list" where
  "pinQuote now key est expiresAt pins =
     (let pins1 = evict_first (live_pins now pins);
          expiresAtMs = (case expiresAt of Some d \<Rightarrow> d | None \<Rightarrow> now + QUOTE_PIN_TTL_MS);
          pin = \<lparr>qp_totalMicros = re_totalUsdcMicros est, qp_expiresAtMs = expiresAtMs,
                 qp_estimate = est\<rparr>
      in case find_pin key pins1 of
        Some existing \<Rightarrow>
          if now < qp_expiresAtMs existing \<and> qp_totalMicros existing \<le> re_totalUsdcMicros est
          then pins1 else upsert fst (key, pin) pins1
      | None \<Rightarrow> upsert fst (key, pin) pins1)"

definition pinnedQuote :: "int \<Rightarrow> string \<Rightarrow> (string \<times> quote_pin) list \<Rightarrow> quote_pin option" where
  "pinnedQuote now key pins = (case find_pin key pins of
      None \<Rightarrow> None | Some pin \<Rightarrow> if qp_expiresAtMs pin \<le> now then None else Some pin)"

text \<open>The most expensive candidate that the payment covers; an exact match comes first.\<close>

definition estimateMatchingPayment ::
  "redeem_estimate \<Rightarrow> redeem_estimate option \<Rightarrow> int \<Rightarrow> redeem_estimate" where
  "estimateMatchingPayment fresh pinned paidMicros =
     (let candidates = (case pinned of Some p \<Rightarrow> [p, fresh] | None \<Rightarrow> [fresh]) in
      case find_row (\<lambda>e. re_totalUsdcMicros e = paidMicros) candidates of
        Some e \<Rightarrow> e
      | None \<Rightarrow> (case order_desc re_totalUsdcMicros
                    (filter (\<lambda>e. re_totalUsdcMicros e \<le> paidMicros) candidates) of
          e # _ \<Rightarrow> e | [] \<Rightarrow> fresh))"

section \<open>Healing the registry before the check\<close>

definition not_registered :: http_exception where
  "not_registered = BadRequestException ''Token is not registered on Tokenable yet''"

text \<open>The token that the message of the check names: the first one without a row.\<close>

definition missing_token :: "string \<Rightarrow> nat list \<Rightarrow> vault_db \<Rightarrow> nat option" where
  "missing_token contract ids db =
     find_row (\<lambda>i. by_norm (findRwaTokensByDecimalIds contract (map nat_str ids) db)
                     (normalizeDecimalTokenId (nat_str i)) = None) ids"

fun heal_loop ::
  "registry_env \<Rightarrow> string \<Rightarrow> nat \<Rightarrow> nat list \<Rightarrow> nat list \<Rightarrow> nat \<Rightarrow> vault_db \<Rightarrow> vault_db \<times> unit result" where
  "heal_loop env contract ch ids healed 0 db =
     (db, Inl (BadRequestException ''One or more tokens are not registered on Tokenable yet''))"
| "heal_loop env contract ch ids healed (Suc n) db =
     (case assertTokensRedeemable contract (map nat_str ids) db of
        Inr _ \<Rightarrow> (db, Inr ())
      | Inl e \<Rightarrow>
          if e \<noteq> not_registered then (db, Inl e)
          else case missing_token contract ids db of
            None \<Rightarrow> (db, Inl e)
          | Some i \<Rightarrow>
              if i \<in> set healed then (db, Inl e)
              else heal_loop env contract ch ids (i # healed) n (ensureFromChain env contract ch i db))"

definition assertRedeemableAfterRegistryHeal ::
  "registry_env \<Rightarrow> config \<Rightarrow> nat \<Rightarrow> nat list \<Rightarrow> vault_db \<Rightarrow> vault_db \<times> unit result" where
  "assertRedeemableAfterRegistryHeal env config ch tokenIds =
     need (getRwaAddress config ch) (\<lambda>contract db.
       let ids = js_unique (filter (\<lambda>i. 0 < i) tokenIds) in
       heal_loop env contract ch ids [] (length ids + 1) db)"

text \<open>An operation of the vault inside the state of the flow.\<close>

definition on_vault :: "(vault_db \<Rightarrow> vault_db \<times> 'a) \<Rightarrow> redeem_state \<Rightarrow> redeem_state \<times> 'a" where
  "on_vault f st = (let (db, x) = f (rs_vault st) in (put_vault db st, x))"

definition estimate_in ::
  "redeem_env \<Rightarrow> redeem_country \<Rightarrow> rat option \<Rightarrow> nat list \<Rightarrow> nat option \<Rightarrow> fee_ship_to option \<Rightarrow>
   redeem_state \<Rightarrow> redeem_state \<times> redeem_estimate result" where
  "estimate_in env country cardCount ids ch shipTo =
     on_vault (\<lambda>db. let (r, db') = fee_estimate (rv_fee env) country cardCount (map of_nat ids) ch shipTo db
                    in (db', r))"

text \<open>The token ids are integers, which the request's validation checks.\<close>

definition estimateRedeemCost ::
  "redeem_env \<Rightarrow> redeem_country \<Rightarrow> rat option \<Rightarrow> int list \<Rightarrow> nat option \<Rightarrow> fee_ship_to option \<Rightarrow>
   redeem_state \<Rightarrow> redeem_state \<times> redeem_estimate result" where
  "estimateRedeemCost env country cardCount tokenIds ch shipTo st =
     (let ids = map nat (filter (\<lambda>i. 0 < i) tokenIds) in
      andThen (case ch of
          Some chainId \<Rightarrow>
            if ids \<noteq> []
            then on_vault (assertRedeemableAfterRegistryHeal (rv_registry env) (rv_config env) chainId ids) st
            else (st, Inr ())
        | None \<Rightarrow> (st, Inr ())) (\<lambda>_ st.
      andThen (estimate_in env country cardCount ids ch shipTo st) (\<lambda>est st.
        (if ids = [] then st
         else st\<lparr>rs_pins := pinQuote (rv_now env)
                (quotePinKey ids (Some (bucket_str country)) (Option.bind shipTo fs_countryCode)
                   (map_option fs_postal shipTo))
                est (re_shippingQuoteExpiresAt est) (rs_pins st)\<rparr>, Inr est))))"

section \<open>Paying for a batch\<close>

definition paid_by_log :: "string \<Rightarrow> string \<Rightarrow> string list \<Rightarrow> receipt_log \<Rightarrow> int" where
  "paid_by_log usdc payTo from l =
     (if js_lower (rl_address l) \<noteq> usdc then 0
      else case rl_erc20 l of
        None \<Rightarrow> 0
      | Some (sender, to, value) \<Rightarrow>
          if js_lower to = payTo \<and> js_lower sender \<in> set from then value else 0)"

definition verifyUsdcPaymentToFeeRecipient ::
  "redeem_env \<Rightarrow> string \<Rightarrow> string list \<Rightarrow> int \<Rightarrow> nat \<Rightarrow> int result" where
  "verifyUsdcPaymentToFeeRecipient env txHash fromAddresses expectedMicros ch =
     (case getConfiguredRecipient (rv_config env) of
        None \<Rightarrow> Inl (InternalServerErrorException ''PLATFORM_FEE_RECIPIENT is not configured'')
      | Some payTo \<Rightarrow>
          let from = filter (\<lambda>a. a \<noteq> []) (map js_lower fromAddresses) in
          if from = [] then Inl (BadRequestException ''No payer wallet linked'')
          else case rv_receipt env ch txHash of
            None \<Rightarrow> Inl (BadRequestException ''Payment transaction not found or failed on-chain'')
          | Some receipt \<Rightarrow>
              if tr_status receipt \<noteq> 1
              then Inl (BadRequestException ''Payment transaction not found or failed on-chain'')
              else on_ok (getUsdcAddress (rv_config env) ch) (\<lambda>usdc.
                let paid = sum_list (map (paid_by_log (js_lower usdc) payTo from) (tr_logs receipt)) in
                if paid < expectedMicros then Inl (BadRequestException ''USDC payment insufficient'')
                else Inr paid))"

record redeem_ship_to_dto =
  rd_name :: string
  rd_line1 :: string
  rd_line2 :: "string option"
  rd_city :: string
  rd_region :: "string option"
  rd_postal :: string
  rd_country :: redeem_country
  rd_countryCode :: "string option"
  rd_phone :: string

record redeem_batch_dto =
  rb_tokenIds :: "int list"
  rb_shipTo :: redeem_ship_to_dto
  rb_paymentTxHash :: string

text \<open>One card of the loop that prepares the rows: its fee line and its owner on chain.\<close>

definition prepare_item ::
  "redeem_env \<Rightarrow> string \<Rightarrow> nat \<Rightarrow> string \<Rightarrow> redeem_ship_to_dto \<Rightarrow> string \<Rightarrow> redeem_estimate \<Rightarrow> nat \<Rightarrow>
   redeem_item result" where
  "prepare_item env user ch contract shipTo destinationIso est tokenId =
     (case find_row (\<lambda>c. cf_tokenId c = tokenId) (re_cards est) of
        None \<Rightarrow> Inl (BadRequestException ''Missing fee line for token'')
      | Some line \<Rightarrow> on_ok (rv_ownerOf env ch tokenId) (\<lambda>onChainOwner.
          if onChainOwner \<notin> set (map (\<lambda>w. js_lower (js_trim w)) (rv_wallets env user))
          then Inl (ForbiddenException ''on-chain owner is not a wallet linked to your account'')
          else Inr \<lparr>it_tokenContract = contract, it_tokenId = nat_str tokenId,
                 it_requestingUserId = Some user, it_ownerWalletAddress = onChainOwner,
                 it_shipTo = \<lparr>st_name = rd_name shipTo, st_line1 = rd_line1 shipTo,
                   st_line2 = rd_line2 shipTo, st_city = rd_city shipTo, st_region = rd_region shipTo,
                   st_postal = rd_postal shipTo, st_country = destinationIso,
                   st_phone = rd_phone shipTo\<rparr>,
                 it_feeRetrievalUsd = cf_retrievalUsd line,
                 it_feeEarlyWithdrawalUsd = cf_earlyWithdrawalUsd line,
                 it_feeShippingUsd = cf_shippingUsd line, it_feeTotalUsd = cf_totalUsd line,
                 it_vaultedAt = cf_vaultedAt line,
                 it_earlyWithdrawal = cf_earlyWithdrawal line\<rparr>))"

text \<open>The id as it is and without leading zeros; String(n) has none.\<close>

definition cancelActiveOrdersForTokens :: "int \<Rightarrow> string \<Rightarrow> nat list \<Rightarrow> redeem_state \<Rightarrow> redeem_state" where
  "cancelActiveOrdersForTokens now tokenContract tokenIds st =
     (let contract = js_lower (js_trim tokenContract);
          variants = concat (map (\<lambda>i. [nat_str i, drop (skip_zeros (nat_str i) 0) (nat_str i)]) tokenIds)
      in if variants = [] then st
         else st\<lparr>rs_market := update_status now (\<lambda>ord. js_lower (o_tokenContract ord) = contract
                \<and> o_tokenId ord \<in> set variants \<and> o_status ord = ACTIVE) CANCELLED (rs_market st)\<rparr>)"

record batch_receipt =
  br_paymentBatchId :: string
  br_paymentReceivedUsdcMicros :: string
  br_custodyWalletAddress :: string
  br_estimate :: redeem_estimate
  br_redemptions :: "(vault_redemption \<times> string) list"

definition REDEEM_V1_CHAIN_ID :: nat where
  "REDEEM_V1_CHAIN_ID = 11155111"

text \<open>What a payment has to cover: the cheaper of the fresh quote and a live pinned one.\<close>

definition expected_micros :: "redeem_estimate \<Rightarrow> quote_pin option \<Rightarrow> int" where
  "expected_micros fresh pinned = (case pinned of
      Some pin \<Rightarrow> if qp_totalMicros pin < re_totalUsdcMicros fresh then qp_totalMicros pin
                  else re_totalUsdcMicros fresh
    | None \<Rightarrow> re_totalUsdcMicros fresh)"

text \<open>From the verified payment on: the rows, the batch, and the listings of its cards.\<close>

definition open_paid_batch ::
  "redeem_env \<Rightarrow> string \<Rightarrow> redeem_batch_dto \<Rightarrow> nat \<Rightarrow> nat list \<Rightarrow> string \<Rightarrow> redeem_estimate \<Rightarrow> int \<Rightarrow>
   redeem_state \<Rightarrow> redeem_state \<times> batch_receipt result" where
  "open_paid_batch env user dto ch tokenIds destinationIso est paidMicros =
     need (getRwaAddress (rv_config env) ch) (\<lambda>contract.
     need (map_ok (prepare_item env user ch contract (rb_shipTo dto) destinationIso est) tokenIds)
       (\<lambda>prepared st.
     need (createPaidRedemptionBatch (rv_keccak env) (rv_now env) (js_lower (js_trim (rb_paymentTxHash dto)))
             (rv_batchId env) (int_str paidMicros) (rv_now env) ch prepared (rs_vault st))
       (\<lambda>(results, db) st.
         let st1 = cancelActiveOrdersForTokens (rv_now env) contract tokenIds (put_vault db st) in
         need (rv_custodyWallet env ch) (\<lambda>custodyWallet st.
           (st, Inr \<lparr>br_paymentBatchId = rv_batchId env,
                 br_paymentReceivedUsdcMicros = int_str paidMicros,
                 br_custodyWalletAddress = custodyWallet, br_estimate = est,
                 br_redemptions = results\<rparr>)) st1) st))"

definition destination_code :: "redeem_ship_to_dto \<Rightarrow> string \<Rightarrow> string" where
  "destination_code ship destIso = (case rd_countryCode ship of Some c \<Rightarrow> c | None \<Rightarrow> destIso)"

text \<open>The second estimate, when the payment has been sent.\<close>

definition price_batch ::
  "redeem_env \<Rightarrow> redeem_ship_to_dto \<Rightarrow> nat \<Rightarrow> nat list \<Rightarrow> string \<Rightarrow> redeem_state \<Rightarrow>
   redeem_state \<times> redeem_estimate result" where
  "price_batch env ship ch tokenIds destIso st =
     andThen (on_vault (assertRedeemableAfterRegistryHeal (rv_registry env) (rv_config env) ch tokenIds) st)
       (\<lambda>_ st.
     andThen (estimate_in env (rd_country ship) None tokenIds (Some ch)
         (Some \<lparr>fs_name = rd_name ship, fs_line1 = rd_line1 ship, fs_line2 = rd_line2 ship,
                fs_city = rd_city ship, fs_region = rd_region ship, fs_postal = rd_postal ship,
                fs_phone = rd_phone ship, fs_countryCode = Some (destination_code ship destIso)\<rparr>) st)
       (\<lambda>fresh st.
     (st, check (re_cardCount fresh = length tokenIds)
            (BadRequestException ''Could not resolve fees for all tokens'') (Inr fresh))))"

definition pay_batch ::
  "redeem_env \<Rightarrow> string \<Rightarrow> redeem_batch_dto \<Rightarrow> nat \<Rightarrow> nat list \<Rightarrow> string \<Rightarrow> redeem_estimate \<Rightarrow>
   redeem_state \<Rightarrow> redeem_state \<times> batch_receipt result" where
  "pay_batch env user dto ch tokenIds destIso fresh st =
     (let ship = rb_shipTo dto; paymentTxHash = js_lower (js_trim (rb_paymentTxHash dto));
          wallets = rv_wallets env user;
          pinned = pinnedQuote (rv_now env) (quotePinKey tokenIds (Some (bucket_str (rd_country ship)))
                     (Some (destination_code ship destIso)) (Some (rd_postal ship))) (rs_pins st)
      in if wallets = [] then (st, Inl (BadRequestException ''Link a wallet before redeeming''))
         else if hasPaymentClaim paymentTxHash (rs_vault st)
         then (st, Inl (ConflictException
           ''This payment transaction was already used for a redeem batch''))
         else need (verifyUsdcPaymentToFeeRecipient env paymentTxHash
                      (map (\<lambda>w. js_lower (js_trim w)) wallets) (expected_micros fresh pinned) ch)
           (\<lambda>paidMicros.
             open_paid_batch env user dto ch tokenIds destIso
               (estimateMatchingPayment fresh (map_option qp_estimate pinned) paidMicros) paidMicros) st)"

definition requestRedemptionBatch ::
  "redeem_env \<Rightarrow> string \<Rightarrow> redeem_batch_dto \<Rightarrow> nat \<Rightarrow> redeem_state \<Rightarrow> redeem_state \<times> batch_receipt result" where
  "requestRedemptionBatch env user dto ch st =
     (case rv_kyc env user of
        Inl e \<Rightarrow> (st, Inl e)
      | Inr _ \<Rightarrow>
          if ch \<noteq> REDEEM_V1_CHAIN_ID
          then (st, Inl (BadRequestException ''Redeem payment + custody intake is Sepolia-only in v1''))
          else let tokenIds = js_unique (map nat (filter (\<lambda>n. 0 < n) (rb_tokenIds dto)));
                   ship = rb_shipTo dto in
          if tokenIds = [] then (st, Inl (BadRequestException ''tokenIds required''))
          else case resolveShipToDestinationIso2 (bucket_str (rd_country ship)) (rd_countryCode ship) of
            Inl e \<Rightarrow> (st, Inl e)
          | Inr destIso \<Rightarrow> andThen (price_batch env ship ch tokenIds destIso st)
              (pay_batch env user dto ch tokenIds destIso))"

section \<open>Intake into custody\<close>

definition is_transfer_into :: "string \<Rightarrow> nat \<Rightarrow> string \<Rightarrow> string \<Rightarrow> receipt_log \<Rightarrow> bool" where
  "is_transfer_into rwa tokenId fromWant toWant l =
     (if js_lower (rl_address l) \<noteq> rwa then False
      else case rl_erc721 l of
        None \<Rightarrow> False
      | Some (sender, to, tid) \<Rightarrow> tid = tokenId \<and> js_lower sender = fromWant \<and> js_lower to = toWant)"

definition verifyNftTransferredToCustody ::
  "redeem_env \<Rightarrow> string \<Rightarrow> nat \<Rightarrow> string \<Rightarrow> string \<Rightarrow> string \<Rightarrow> nat \<Rightarrow> unit result" where
  "verifyNftTransferredToCustody env txHash tokenId fromAddress toAddress rwaContract ch =
     (case rv_receipt env ch txHash of
        None \<Rightarrow> Inl (BadRequestException ''NFT transfer tx not found or failed'')
      | Some receipt \<Rightarrow>
          let toWant = js_lower toAddress in
          if tr_status receipt \<noteq> 1 then Inl (BadRequestException ''NFT transfer tx not found or failed'')
          else if \<not> list_ex (is_transfer_into rwaContract tokenId (js_lower fromAddress) toWant)
                     (tr_logs receipt)
          then Inl (BadRequestException ''Tx does not transfer the token to custody'')
          else on_ok (rv_ownerOf env ch tokenId) (\<lambda>owner.
            if owner \<noteq> toWant then Inl (BadRequestException ''After transfer, token owner is not custody'')
            else Inr ()))"

definition decimal_nat :: "string \<Rightarrow> nat option" where
  "decimal_nat s = (if is_decimal (js_trim s) then radix_val 10 (js_trim s) else None)"

text \<open>A failure of recordOwner is logged only.\<close>

definition take_custody ::
  "redeem_env \<Rightarrow> string \<Rightarrow> string \<Rightarrow> string \<Rightarrow> nat \<Rightarrow> string \<Rightarrow> redeem_state \<Rightarrow> redeem_state \<times> unit result" where
  "take_custody env rwa custodyWallet tokenIdText redemptionId txHash =
     need_vault (markCustodyReceived (rv_now env) redemptionId txHash) (\<lambda>_ st.
       (put_vault (recordOwner rwa tokenIdText custodyWallet (rs_vault st)) st, Inr ()))"

definition confirm_row ::
  "redeem_env \<Rightarrow> string \<Rightarrow> string \<Rightarrow> nat \<Rightarrow> (nat \<times> string) list \<Rightarrow> vault_redemption \<Rightarrow>
   redeem_state \<Rightarrow> redeem_state \<times> unit result" where
  "confirm_row env rwa custodyWallet ch transfers row st =
     (case getTokenIdForRedemption (vr_id row) (rs_vault st) of
        None \<Rightarrow> (st, Inl (BadRequestException ''Could not resolve tokenId for redemption''))
      | Some tokenIdStr \<Rightarrow> (case decimal_nat tokenIdStr of
          None \<Rightarrow> (st, Inl (OtherError ''invalid BigNumberish''))
        | Some tokenId \<Rightarrow> need (rv_ownerOf env ch tokenId) (\<lambda>owner st.
            let onChainOwner = js_lower owner;
                transfer = map_option snd (find_row (\<lambda>t. fst t = tokenId) (rev transfers));
                expectedFrom = js_lower (js_trim (vr_ownerWalletAddress row))
            in if onChainOwner = custodyWallet
               then take_custody env rwa custodyWallet (nat_str tokenId) (vr_id row)
                      (case or_else transfer (vr_custodyTxHash row) of
                         Some h \<Rightarrow> h | None \<Rightarrow> ''0x'' @ replicate 64 (CHR ''0'')) st
               else if onChainOwner \<noteq> expectedFrom
               then (st, Inl (BadRequestException ''Token is owned by another wallet''))
               else if or_empty transfer = []
               then (st, Inl (BadRequestException ''Missing custody transfer tx''))
               else need (verifyNftTransferredToCustody env (or_empty transfer) tokenId
                            (vr_ownerWalletAddress row) custodyWallet rwa ch)
                      (\<lambda>_. take_custody env rwa custodyWallet (nat_str tokenId) (vr_id row)
                              (or_empty transfer)) st) st))"

text \<open>The rows one after the other; what was confirmed before a failure stays.\<close>

fun confirm_rows ::
  "redeem_env \<Rightarrow> string \<Rightarrow> string \<Rightarrow> nat \<Rightarrow> (nat \<times> string) list \<Rightarrow> vault_redemption list \<Rightarrow>
   redeem_state \<Rightarrow> redeem_state \<times> unit result" where
  "confirm_rows env rwa custodyWallet ch transfers [] st = (st, Inr ())"
| "confirm_rows env rwa custodyWallet ch transfers (row # rows) st =
     andThen (confirm_row env rwa custodyWallet ch transfers row st)
       (\<lambda>_. confirm_rows env rwa custodyWallet ch transfers rows)"

record custody_answer =
  ca_allInCustody :: bool
  ca_redemptions :: "vault_redemption list"

definition check_batch_rows :: "string \<Rightarrow> vault_redemption list \<Rightarrow> unit result" where
  "check_batch_rows user rows =
     (if rows = [] then Inl (BadRequestException ''Unknown paymentBatchId'')
      else if list_ex (\<lambda>r. vr_requestedByUserId r \<noteq> Some user) rows
      then Inl (ForbiddenException ''Batch does not belong to this user'')
      else if list_ex (\<lambda>r. vr_refundStatus r \<noteq> rf_none \<or> vr_status r = r_refunded) rows
      then Inl (BadRequestException ''This redeem batch was refunded'')
      else Inr ())"

definition confirmCustodyTransfers ::
  "redeem_env \<Rightarrow> string \<Rightarrow> string \<Rightarrow> (nat \<times> string) list \<Rightarrow> nat \<Rightarrow> redeem_state \<Rightarrow>
   redeem_state \<times> custody_answer result" where
  "confirmCustodyTransfers env user batchId transfers ch st =
     (let rows = findRedemptionsByBatchId batchId (Some ch) (rs_vault st);
          pending = filter (\<lambda>r. vr_status r = r_ownership_verified) rows
      in need (rv_kyc env user) (\<lambda>_.
         need (check (ch = REDEEM_V1_CHAIN_ID)
           (BadRequestException ''Redeem custody intake is Sepolia-only in v1'') (Inr ())) (\<lambda>_.
         need (check_batch_rows user rows) (\<lambda>_.
         need (rv_custodyWallet env ch) (\<lambda>wallet.
         need (getRwaAddress (rv_config env) ch) (\<lambda>rwa st.
           if pending = []
           then (st, Inr \<lparr>ca_allInCustody = list_all (\<lambda>r. vr_status r = r_in_custody) rows,
                         ca_redemptions = rows\<rparr>)
           else andThen (confirm_rows env (js_lower rwa) (js_lower wallet) ch
                  (map (\<lambda>(i, h). (i, js_lower (js_trim h))) transfers) pending st) (\<lambda>_ st.
             let updated = findRedemptionsByBatchId batchId (Some ch) (rs_vault st) in
             if \<not> list_all (\<lambda>r. vr_status r = r_in_custody) updated
             then (st, Inl (BadRequestException ''Not all NFTs in this batch are in custody yet''))
             else (st, Inr \<lparr>ca_allInCustody = True, ca_redemptions = updated\<rparr>))))))) st)"

section \<open>Burning and receipts\<close>

text \<open>The orders of a token that the burn cancels, whatever their side.\<close>

definition cancelActiveOrdersForToken :: "int \<Rightarrow> string \<Rightarrow> nat \<Rightarrow> redeem_state \<Rightarrow> redeem_state" where
  "cancelActiveOrdersForToken now tokenContract tokenId st =
     (let raw = nat_str tokenId in
      st\<lparr>rs_market := update_status now (\<lambda>ord. js_lower (o_tokenContract ord) = js_lower tokenContract
           \<and> o_tokenId ord \<in> {raw, drop (skip_zeros raw 0) raw} \<and> o_status ord = ACTIVE)
         CANCELLED (rs_market st)\<rparr>)"

definition check_open_redeem :: "string \<Rightarrow> nat \<Rightarrow> vault_db \<Rightarrow> unit result" where
  "check_open_redeem contract tokenId db =
     (case Option.bind (find_token (contract, nat_str tokenId) db) rt_vaultCycleId of
        None \<Rightarrow> Inr ()
      | Some cycleId \<Rightarrow> (case findOpenRedemptionForCycle cycleId db of
          None \<Rightarrow> Inr ()
        | Some r \<Rightarrow>
            if vr_refundStatus r \<noteq> rf_none
            then Inl (BadRequestException ''redeem refund is in progress, burn is blocked'')
            else if vr_status r \<noteq> r_in_custody \<and> vr_status r \<noteq> r_burned
                    \<and> vr_status r \<noteq> r_vault_release_pending
            then Inl (BadRequestException ''wait until NFT is in custody before burning'')
            else Inr ()))"

definition burned_token :: "string \<Rightarrow> nat \<Rightarrow> vault_db \<Rightarrow> rwa_token option" where
  "burned_token contract tokenId db = (case find_token (contract, nat_str tokenId) db of
      None \<Rightarrow> None | Some t \<Rightarrow> if rt_burnedAt t \<noteq> None then Some t else None)"

text \<open>
  rv_adminBurn is the transaction of adminBurn on chain: its hash, or the exception it ends with.
  Once it is mined adminBurn records the burn in the owner index.
\<close>

definition burnTokenOnChain ::
  "redeem_env \<Rightarrow> nat \<Rightarrow> nat \<Rightarrow> redeem_state \<Rightarrow> redeem_state \<times> string result" where
  "burnTokenOnChain env tokenId ch =
     need (getRwaAddress (rv_config env) ch) (\<lambda>contract st.
       if burned_token contract tokenId (rs_vault st) \<noteq> None
       then (st, Inl (BadRequestException ''Token is already marked burned''))
       else need (check_open_redeem contract tokenId (rs_vault st)) (\<lambda>_ st.
         let st1 = cancelActiveOrdersForToken (rv_now env) contract tokenId st in
         case rv_ownerOf env ch tokenId of
           Inl e \<Rightarrow> (st1, Inl (BadRequestException ''Could not resolve on-chain owner for token''))
         | Inr expectedOwner \<Rightarrow>
             let st2 = put_vault (syncTokenFromChain (rv_registry env) contract ch tokenId None
                                    (rs_vault st1)) st1
             in need (rv_adminBurn env ch tokenId expectedOwner) (\<lambda>txHash st.
                  let db = recordBurn (rv_now env) contract (nat_str tokenId) (rs_vault st)
                  in (put_vault (completeRedemptionBurn (rv_now env) contract (nat_str tokenId) txHash
                        (Some expectedOwner) db) st, Inr txHash)) st2) st)"

text \<open>
  The request waits for the transaction: burn_begin is what it does before, with the owner that
  the transaction expects, and burn_mined what it does when the transaction is mined. Other
  requests can run in between.
\<close>

definition burn_begin ::
  "redeem_env \<Rightarrow> nat \<Rightarrow> nat \<Rightarrow> redeem_state \<Rightarrow> redeem_state \<times> string result" where
  "burn_begin env tokenId ch =
     need (getRwaAddress (rv_config env) ch) (\<lambda>contract st.
       if burned_token contract tokenId (rs_vault st) \<noteq> None
       then (st, Inl (BadRequestException ''Token is already marked burned''))
       else need (check_open_redeem contract tokenId (rs_vault st)) (\<lambda>_ st.
         let st1 = cancelActiveOrdersForToken (rv_now env) contract tokenId st in
         case rv_ownerOf env ch tokenId of
           Inl e \<Rightarrow> (st1, Inl (BadRequestException ''Could not resolve on-chain owner for token''))
         | Inr expectedOwner \<Rightarrow>
             (put_vault (syncTokenFromChain (rv_registry env) contract ch tokenId None (rs_vault st1)) st1,
              Inr expectedOwner)) st)"

definition burn_mined :: "redeem_env \<Rightarrow> string \<Rightarrow> nat \<Rightarrow> string \<Rightarrow> string \<Rightarrow> redeem_state \<Rightarrow> redeem_state" where
  "burn_mined env contract tokenId txHash expectedOwner st =
     put_vault (completeRedemptionBurn (rv_now env) contract (nat_str tokenId) txHash (Some expectedOwner)
       (recordBurn (rv_now env) contract (nat_str tokenId) (rs_vault st))) st"

lemma burnTokenOnChain_parts:
  "burnTokenOnChain env i ch st = andThen (burn_begin env i ch st) (\<lambda>w.
     need (getRwaAddress (rv_config env) ch) (\<lambda>c. need (rv_adminBurn env ch i w) (\<lambda>h st.
       (burn_mined env c i h w st, Inr h))))"
  by (simp add: burnTokenOnChain_def burn_begin_def burn_mined_def need_def andThen_def Let_def
      split: sum.split)

text \<open>The hash and whether the token was burned before.\<close>

definition ensureBurnedForRedeem ::
  "redeem_env \<Rightarrow> nat \<Rightarrow> nat \<Rightarrow> redeem_state \<Rightarrow> redeem_state \<times> (string option \<times> bool) result" where
  "ensureBurnedForRedeem env tokenId ch =
     need (getRwaAddress (rv_config env) ch) (\<lambda>contract st.
       case burned_token contract tokenId (rs_vault st) of
         Some t \<Rightarrow> (st, Inr (rt_burnTxHash t, True))
       | None \<Rightarrow> andThen (burnTokenOnChain env tokenId ch st) (\<lambda>h st. (st, Inr (Some h, False))))"

definition is_bad_request_error :: "http_exception \<Rightarrow> bool" where
  "is_bad_request_error e = (case e of BadRequestException _ \<Rightarrow> True | _ \<Rightarrow> False)"

definition burn_row ::
  "redeem_env \<Rightarrow> nat \<Rightarrow> vault_redemption \<Rightarrow> redeem_state \<Rightarrow> redeem_state \<times> unit result" where
  "burn_row env ch row st =
     (case Option.bind (getTokenIdForRedemption (vr_id row) (rs_vault st))
             (\<lambda>s. if is_decimal s then radix_val 10 s else None) of
        None \<Rightarrow> (st, Inl (BadRequestException ''Cannot resolve NFT tokenId, burn blocked''))
      | Some tokenId \<Rightarrow> (case ensureBurnedForRedeem env tokenId ch st of
          (st', Inr _) \<Rightarrow> (st', Inr ())
        | (st', Inl e) \<Rightarrow>
            (st', Inl (if is_bad_request_error e then e
                       else InternalServerErrorException ''Failed to burn token after redeem receipt''))))"

fun ensureBatchTokensBurned ::
  "redeem_env \<Rightarrow> nat \<Rightarrow> vault_redemption list \<Rightarrow> redeem_state \<Rightarrow> redeem_state \<times> unit result" where
  "ensureBatchTokensBurned env ch [] st = (st, Inr ())"
| "ensureBatchTokensBurned env ch (row # rows) st =
     andThen (burn_row env ch row st) (\<lambda>_. ensureBatchTokensBurned env ch rows)"

definition finalizeReceiptWithBurn ::
  "redeem_env \<Rightarrow> nat \<Rightarrow> receipt_via \<Rightarrow> vault_redemption list \<Rightarrow> redeem_state \<Rightarrow>
   redeem_state \<times> vault_redemption list result" where
  "finalizeReceiptWithBurn env ch via rows st =
     andThen (ensureBatchTokensBurned env ch rows st) (\<lambda>_ st.
       let fresh = (case Option.bind (hd_opt rows) vr_paymentBatchId of
               Some batchId \<Rightarrow> findRedemptionsByBatchId batchId (Some ch) (rs_vault st)
             | None \<Rightarrow> rows);
           incomplete = filter (\<lambda>r. vr_status r \<noteq> r_completed) fresh;
           (saved, db) = markUserReceiptConfirmed (rv_now env) (Some via)
             (if incomplete \<noteq> [] then incomplete else fresh) (rs_vault st)
       in (put_vault db st, Inr saved))"

definition receipt_eligible :: "vault_redemption_status \<Rightarrow> bool" where
  "receipt_eligible s = (s \<in> {r_in_custody, r_burned, r_vault_release_pending, r_completed})"

definition has_tracking :: "vault_redemption \<Rightarrow> bool" where
  "has_tracking r = (trim_or_null (vr_trackingNumber r) \<noteq> None)"

definition confirmReceipt ::
  "redeem_env \<Rightarrow> string \<Rightarrow> string \<Rightarrow> nat \<Rightarrow> redeem_state \<Rightarrow>
   redeem_state \<times> (bool \<times> vault_redemption list) result" where
  "confirmReceipt env user batchId ch st =
     (let rows = findRedemptionsByBatchId batchId (Some ch) (rs_vault st) in
      need (check_batch_rows user rows) (\<lambda>_.
      need (check (list_all (\<lambda>r. receipt_eligible (vr_status r)) rows)
        (BadRequestException ''All cards must be in custody (or further) before confirming receipt'')
        (Inr ())) (\<lambda>_.
      need (check (list_all has_tracking rows)
        (BadRequestException ''Every vault shipment needs a tracking number'') (Inr ())) (\<lambda>_ st.
      let needsNotify = list_ex (\<lambda>r. vr_status r \<noteq> r_completed) rows in
      andThen (finalizeReceiptWithBurn env ch via_user rows st) (\<lambda>saved st.
        (st, Inr (\<not> needsNotify \<and> list_all (\<lambda>r. vr_status r = r_completed) saved, saved)))))) st)"

end
