(* ===== verification/RedeemAdmin.thy ===== *)
theory RedeemAdmin
  imports RedeemFlow
begin

text \<open>
  What operators and partners do to redemptions (marketplace/admin/redeems-admin.service.ts,
  rwa/redeem-shipment-key.util.ts): tracking numbers and memos, refunds of the USDC of a batch
  and of its NFTs, and the wipe of development data. The lock on a batch serialises the refunds
  of one server process. rs_refunds records the refunds that reached the chain.
\<close>

section \<open>Shipment keys\<close>

definition redeemShipmentKey :: "settlement_policy option \<Rightarrow> string option \<Rightarrow> string" where
  "redeemShipmentKey settlementPolicy vaultPartnerId =
     (if settlementPolicy = Some self_vault_hold
      then ''partner:'' @ (case trim_or_null vaultPartnerId of Some p \<Rightarrow> p | None \<Rightarrow> ''unknown'')
      else ''psa_vault'')"

definition norm_field :: "string option \<Rightarrow> string" where
  "norm_field v = js_lower (js_trim (or_empty v))"

fun join_bar :: "string list \<Rightarrow> string" where
  "join_bar [] = []"
| "join_bar [s] = s"
| "join_bar (s # ss) = s @ ''|'' @ join_bar ss"

definition redeemShipToFingerprint :: "vault_redemption \<Rightarrow> string" where
  "redeemShipToFingerprint r = join_bar (map norm_field
     [vr_shipToName r, vr_shipToLine1 r, vr_shipToLine2 r, vr_shipToCity r, vr_shipToRegion r,
      vr_shipToPostal r, vr_shipToCountry r])"

definition redeemTrackingGroupKey :: "string option \<Rightarrow> string \<Rightarrow> vault_redemption \<Rightarrow> string" where
  "redeemTrackingGroupKey paymentBatchId shipmentKey r =
     js_trim (or_empty paymentBatchId) @ ''::'' @ shipmentKey @ ''::'' @ redeemShipToFingerprint r"

definition isActiveRedeemShipmentStatus :: "vault_redemption_status \<Rightarrow> bool" where
  "isActiveRedeemShipmentStatus s = (s \<notin> {r_completed, r_cancelled, r_refunded, r_failed})"

definition isPartnerRedeemShipmentKey :: "string \<Rightarrow> bool" where
  "isPartnerRedeemShipmentKey key = (take 8 key = ''partner:'')"

definition partnerIdFromRedeemShipmentKey :: "string \<Rightarrow> string option" where
  "partnerIdFromRedeemShipmentKey key =
     (if take 8 key \<noteq> ''partner:'' then None
      else let i = js_trim (drop 8 key) in if i \<noteq> [] \<and> i \<noteq> ''unknown'' then Some i else None)"

section \<open>Status of a row for the operator\<close>

datatype admin_payment_status = p_unpaid | p_paid | p_refunded
datatype admin_custody_status = c_pending | c_in_custody | c_returned | c_na
datatype admin_shipping_status = s_pending | s_tracked | s_released

definition computePaymentStatus :: "vault_redemption \<Rightarrow> admin_payment_status" where
  "computePaymentStatus r =
     (if vr_refundStatus r = usdc_refunded \<or> vr_refundStatus r = fully_refunded then p_refunded
      else if or_empty (vr_paymentTxHash r) \<noteq> [] \<or> vr_paidAt r \<noteq> None then p_paid else p_unpaid)"

definition computeCustodyStatus :: "vault_redemption \<Rightarrow> admin_custody_status" where
  "computeCustodyStatus r =
     (if vr_custodyReturnedAt r \<noteq> None \<or> or_empty (vr_custodyReturnTxHash r) \<noteq> [] then c_returned
      else if vr_custodyAt r \<noteq> None \<or> or_empty (vr_custodyTxHash r) \<noteq> [] \<or> vr_status r = r_in_custody
      then c_in_custody
      else if vr_status r = r_burned \<or> vr_status r = r_completed then c_na else c_pending)"

definition computeShippingStatus :: "vault_redemption \<Rightarrow> admin_shipping_status" where
  "computeShippingStatus r =
     (if vr_vaultReleasedAt r \<noteq> None then s_released
      else if has_tracking r then s_tracked else s_pending)"

definition wasEverInCustody :: "vault_redemption \<Rightarrow> bool" where
  "wasEverInCustody r =
     (vr_custodyAt r \<noteq> None \<or> or_empty (vr_custodyTxHash r) \<noteq> [] \<or> vr_status r = r_in_custody)"

definition nftReturned :: "vault_redemption \<Rightarrow> bool" where
  "nftReturned r =
     (vr_custodyReturnedAt r \<noteq> None \<or> or_empty (vr_custodyReturnTxHash r) \<noteq> []
      \<or> vr_refundStatus r = nft_returned \<or> vr_refundStatus r = fully_refunded)"

definition refund_blocked :: "vault_redemption_status \<Rightarrow> bool" where
  "refund_blocked s = (s \<in> {r_burned, r_vault_release_pending, r_completed})"

definition assertRefundable :: "vault_redemption list \<Rightarrow> unit result" where
  "assertRefundable rows =
     (if rows = [] then Inl (BadRequestException ''No redemption rows to refund'')
      else if list_ex has_tracking rows
      then Inl (BadRequestException
        ''Refunds are not allowed after a tracking number has been entered'')
      else if list_ex (\<lambda>r. refund_blocked (vr_status r)) rows
      then Inl (BadRequestException ''Refunds are not allowed after this status'')
      else Inr ())"

section \<open>Memos and tracking numbers\<close>

definition batch_rows :: "string \<Rightarrow> vault_db \<Rightarrow> vault_redemption list" where
  "batch_rows batchId db =
     order_asc vr_requestedAt (filter (\<lambda>r. vr_paymentBatchId r = Some batchId) (vd_redemptions db))"

definition save_rows :: "vault_redemption list \<Rightarrow> vault_db \<Rightarrow> vault_db" where
  "save_rows rows db = fold save_redemption rows db"

definition updateMemo :: "nat \<Rightarrow> string \<Rightarrow> vault_db \<Rightarrow> (vault_redemption \<times> vault_db) result" where
  "updateMemo i memo db = (case find_redemption i db of
      None \<Rightarrow> Inl (NotFoundException ''Redemption not found'')
    | Some row \<Rightarrow> let row' = row\<lparr>vr_adminMemo := non_empty (js_trim memo)\<rparr>
                  in Inr (row', save_redemption row' db))"

definition updateMemoBatch ::
  "string \<Rightarrow> string \<Rightarrow> vault_db \<Rightarrow> (vault_redemption list \<times> vault_db) result" where
  "updateMemoBatch batchId memo db =
     (let rows = map (\<lambda>r. r\<lparr>vr_adminMemo := non_empty (js_trim memo)\<rparr>) (batch_rows batchId db) in
      if rows = [] then Inl (NotFoundException ''No redemptions for batch'')
      else Inr (rows, save_rows rows db))"

text \<open>A new tracking number on a row that has none; a carrier may be filled in later.\<close>

definition track_new :: "int \<Rightarrow> string \<Rightarrow> string option \<Rightarrow> vault_redemption \<Rightarrow> vault_redemption" where
  "track_new now trackingNumber carrier row =
     row\<lparr>vr_trackingNumber := Some trackingNumber, vr_trackingSetAt := Some now,
         vr_trackingCarrier := carrier\<rparr>"

definition track_again :: "string option \<Rightarrow> vault_redemption \<Rightarrow> vault_redemption" where
  "track_again carrier row = (case carrier of None \<Rightarrow> row
     | Some c \<Rightarrow> row\<lparr>vr_trackingCarrier := Some c\<rparr>)"

definition updateTracking ::
  "int \<Rightarrow> nat \<Rightarrow> string \<Rightarrow> string option \<Rightarrow> vault_db \<Rightarrow> (vault_redemption \<times> vault_db) result" where
  "updateTracking now i rawNumber rawCarrier db = (case find_redemption i db of
      None \<Rightarrow> Inl (NotFoundException ''Redemption not found'')
    | Some row \<Rightarrow>
        let trackingNumber = js_trim rawNumber; carrier = trim_or_null rawCarrier in
        if trackingNumber = [] then Inl (BadRequestException ''trackingNumber is required'')
        else case trim_or_null (vr_trackingNumber row) of
          Some existing \<Rightarrow>
            if existing \<noteq> trackingNumber
            then Inl (BadRequestException ''Redemption already has a different tracking number'')
            else let row' = track_again carrier row in Inr (row', save_redemption row' db)
        | None \<Rightarrow> let row' = track_new now trackingNumber carrier row
                  in Inr (row', save_redemption row' db))"

text \<open>The token of a row: the last one that the Map from cycles to tokens keeps.\<close>

definition token_of_cycle :: "nat \<Rightarrow> vault_db \<Rightarrow> rwa_token option" where
  "token_of_cycle cycleId db = find_row (\<lambda>t. rt_vaultCycleId t = Some cycleId) (rev (vd_tokens db))"

definition shipment_key_of :: "vault_db \<Rightarrow> vault_redemption \<Rightarrow> string" where
  "shipment_key_of db r = (case token_of_cycle (vr_vaultCycleId r) db of
      None \<Rightarrow> redeemShipmentKey None None
    | Some t \<Rightarrow> redeemShipmentKey (rt_settlementPolicy t) (rt_vaultPartnerId t))"

definition track_row ::
  "int \<Rightarrow> string \<Rightarrow> string option \<Rightarrow> vault_redemption \<Rightarrow> vault_redemption result" where
  "track_row now trackingNumber carrier row = (case trim_or_null (vr_trackingNumber row) of
      Some existing \<Rightarrow>
        if existing \<noteq> trackingNumber
        then Inl (BadRequestException ''Shipment already has a different tracking number'')
        else Inr (track_again carrier row)
    | None \<Rightarrow> Inr (track_new now trackingNumber carrier row))"

definition tracking_targets ::
  "string \<Rightarrow> string \<Rightarrow> nat list option \<Rightarrow> vault_db \<Rightarrow> vault_redemption list" where
  "tracking_targets batchId shipmentKey redemptionIds db =
     filter (\<lambda>r. shipment_key_of db r = shipmentKey
               \<and> (case redemptionIds of None \<Rightarrow> True | Some ids \<Rightarrow> ids = [] \<or> vr_id r \<in> set ids)
               \<and> isActiveRedeemShipmentStatus (vr_status r))
       (batch_rows batchId db)"

definition mixed_ship_to :: "vault_redemption list \<Rightarrow> bool" where
  "mixed_ship_to targets = (case targets of [] \<Rightarrow> False
     | t # _ \<Rightarrow> list_ex (\<lambda>r. redeemShipToFingerprint r \<noteq> redeemShipToFingerprint t) targets)"

definition updateTrackingBatch ::
  "int \<Rightarrow> bool \<Rightarrow> string \<Rightarrow> string \<Rightarrow> string \<Rightarrow> string option \<Rightarrow> nat list option \<Rightarrow> vault_db \<Rightarrow>
   (vault_redemption list \<times> vault_db) result" where
  "updateTrackingBatch now partnerOnly batchId rawKey rawNumber rawCarrier redemptionIds db =
     (let shipmentKey = js_trim rawKey; trackingNumber = js_trim rawNumber;
          carrier = trim_or_null rawCarrier;
          targets = tracking_targets batchId shipmentKey redemptionIds db
      in if shipmentKey = [] then Inl (BadRequestException ''shipmentKey is required'')
         else if partnerOnly \<and> (case redemptionIds of None \<Rightarrow> True | Some ids \<Rightarrow> ids = [])
         then Inl (BadRequestException ''redemptionIds is required for partner tracking'')
         else if batch_rows batchId db = [] then Inl (NotFoundException ''No redemptions for batch'')
         else if trackingNumber = [] then Inl (BadRequestException ''trackingNumber is required'')
         else if targets = [] then Inl (NotFoundException ''No active cards in batch for shipment'')
         else if partnerOnly \<and> mixed_ship_to targets
         then Inl (BadRequestException
           ''Partner tracking updates must target one ship-to destination per request'')
         else on_ok (map_ok (track_row now trackingNumber carrier) targets) (\<lambda>rows.
           Inr (rows, save_rows rows db)))"

definition updateTrackingBatchForPartner ::
  "int \<Rightarrow> string \<Rightarrow> string \<Rightarrow> string \<Rightarrow> string \<Rightarrow> string option \<Rightarrow> nat list \<Rightarrow> vault_db \<Rightarrow>
   (vault_redemption list \<times> vault_db) result" where
  "updateTrackingBatchForPartner now partnerId batchId shipmentKey trackingNumber carrier ids db =
     (if js_trim shipmentKey \<noteq> ''partner:'' @ js_trim partnerId
      then Inl (ForbiddenException ''Partners may only update tracking for their own shipments'')
      else updateTrackingBatch now True batchId shipmentKey trackingNumber carrier (Some ids) db)"

section \<open>Refunds\<close>

definition resolveRowChainId :: "config \<Rightarrow> vault_redemption \<Rightarrow> nat" where
  "resolveRowChainId config row =
     (let n = (case vr_chainId row of Some i \<Rightarrow> i | None \<Rightarrow> getDefaultChainId config) in
      if n \<in> set SUPPORTED_CHAIN_IDS then n else getDefaultChainId config)"

definition applyUsdcRefundFields :: "string \<Rightarrow> string \<Rightarrow> int \<Rightarrow> vault_redemption \<Rightarrow> vault_redemption" where
  "applyUsdcRefundFields txHash amountMicros ts row =
     (let row1 = row\<lparr>vr_refundTxHash := Some txHash, vr_refundedUsdcMicros := Some amountMicros,
                     vr_refundedAt := Some ts\<rparr>
      in if nftReturned row1 \<or> \<not> wasEverInCustody row1
         then row1\<lparr>vr_refundStatus := fully_refunded, vr_status := r_refunded\<rparr>
         else row1\<lparr>vr_refundStatus := usdc_refunded\<rparr>)"

text \<open>The cycles of the refunded rows go back to minted, if a redemption had been requested.\<close>

definition reset_cycle :: "int \<Rightarrow> nat \<Rightarrow> vault_db \<Rightarrow> vault_db" where
  "reset_cycle now i db = (case find_cycle i db of
      None \<Rightarrow> db
    | Some c \<Rightarrow> if vc_status c = redemption_requested
                then save_cycle now (c\<lparr>vc_status := minted\<rparr>) db else db)"

definition resetCyclesIfRefunded :: "int \<Rightarrow> vault_redemption list \<Rightarrow> vault_db \<Rightarrow> vault_db" where
  "resetCyclesIfRefunded now rows db =
     fold (reset_cycle now)
       (js_unique (map vr_vaultCycleId (filter (\<lambda>r. vr_status r = r_refunded) rows))) db"

definition usdc_is_refunded :: "vault_redemption \<Rightarrow> bool" where
  "usdc_is_refunded r = (vr_refundStatus r = usdc_refunded \<or> vr_refundStatus r = fully_refunded)"

text \<open>What is written when the transfer of a refund has been mined.\<close>

definition settle_refund ::
  "int \<Rightarrow> string \<Rightarrow> string \<Rightarrow> vault_redemption list \<Rightarrow> vault_db \<Rightarrow> vault_db" where
  "settle_refund now txHash amountMicros rows db =
     (let rows' = map (applyUsdcRefundFields txHash amountMicros now) rows in
      resetCyclesIfRefunded now rows' (save_rows rows' db))"

text \<open>The hash of the transfer and whether the batch was refunded before.\<close>

definition refundUsdcBatch ::
  "config \<Rightarrow> fee_wallet \<Rightarrow> int \<Rightarrow> string \<Rightarrow> redeem_state \<Rightarrow>
   redeem_state \<times> (string option \<times> bool) result" where
  "refundUsdcBatch config fw now batchId st =
     (let rows = batch_rows batchId (rs_vault st);
          amountMicros = js_trim (or_empty (getPaymentReceivedMicrosForBatch batchId (rs_vault st)))
      in case rows of
        [] \<Rightarrow> (st, Inl (NotFoundException ''No redemptions for batch''))
      | row0 # _ \<Rightarrow> (case assertRefundable rows of
          Inl e \<Rightarrow> (st, Inl e)
        | Inr _ \<Rightarrow>
            if list_all usdc_is_refunded rows then (st, Inr (vr_refundTxHash row0, True))
            else if \<not> positive_decimal amountMicros
            then (st, Inl (BadRequestException ''payment_received_usdc_micros missing''))
            else if \<not> wallet_isConfigured config
            then (st, Inl (BadRequestException ''PLATFORM_FEE_PRIVATE_KEY is not configured''))
            else let to = vr_ownerWalletAddress row0;
                     (res, out) = transferUsdc config fw to amountMicros (resolveRowChainId config row0);
                     st1 = (case out of None \<Rightarrow> st
                       | Some (w, amount) \<Rightarrow> st\<lparr>rs_refunds := (batchId, w, amount) # rs_refunds st\<rparr>)
                 in case res of
                      Inl e \<Rightarrow> (st1, Inl e)
                    | Inr txHash \<Rightarrow>
                        (put_vault (settle_refund now txHash amountMicros rows (rs_vault st1)) st1,
                         Inr (Some txHash, False))))"

text \<open>What the chain says when an NFT leaves custody.\<close>

record custody_env =
  cy_wallet :: "string result"
  cy_signer :: string
  cy_ownerOf :: "nat \<Rightarrow> owner_answer"
  cy_outcome :: send_outcome

text \<open>The result of the transfer, and whether the NFT moved.\<close>

definition safeTransferFromCustody ::
  "custody_env \<Rightarrow> nat \<Rightarrow> string \<Rightarrow> string result \<times> bool" where
  "safeTransferFromCustody cy tokenId to =
     (let recipient = js_lower (js_trim to) in
      if \<not> is_hex_word_ci 40 recipient
      then (Inl (BadRequestException ''Invalid recipient wallet address''), False)
      else case cy_wallet cy of
        Inl e \<Rightarrow> (Inl e, False)
      | Inr wallet \<Rightarrow>
          if js_lower (cy_signer cy) \<noteq> wallet
          then (Inl (InternalServerErrorException ''Custody signer does not match''), False)
          else case cy_ownerOf cy tokenId of
            no_such_token \<Rightarrow> (Inl (BadRequestException ''Token is not minted on chain''), False)
          | rpc_error \<Rightarrow> (Inl (BadRequestException ''Could not resolve owner for token''), False)
          | owner_is w \<Rightarrow>
              if js_lower (js_trim w) \<noteq> wallet
              then (Inl (BadRequestException ''Token is not held in custody''), False)
              else case cy_outcome cy of
                not_sent e \<Rightarrow> (Inl (InternalServerErrorException ''Transfer transaction reverted''), False)
              | mined h \<Rightarrow> (Inr h, True)
              | receipt_lost e \<Rightarrow> (Inl (InternalServerErrorException ''Transfer transaction reverted''), True))"

definition return_fields :: "string \<Rightarrow> int \<Rightarrow> vault_redemption \<Rightarrow> vault_redemption" where
  "return_fields txHash now row =
     (let row1 = row\<lparr>vr_custodyReturnTxHash := Some txHash, vr_custodyReturnedAt := Some now\<rparr> in
      if usdc_is_refunded row1
      then row1\<lparr>vr_refundStatus := fully_refunded, vr_status := r_refunded\<rparr>
      else row1\<lparr>vr_refundStatus := nft_returned\<rparr>)"

text \<open>
  The token is any row linked to the cycle; the transfer records the new owner in the index
  when it has been mined.
\<close>

definition returnNft ::
  "config \<Rightarrow> custody_env \<Rightarrow> int \<Rightarrow> nat \<Rightarrow> vault_db \<Rightarrow> vault_db \<times> (string option \<times> bool) result" where
  "returnNft config cy now i db = (case find_redemption i db of
      None \<Rightarrow> (db, Inl (NotFoundException ''Redemption not found''))
    | Some row \<Rightarrow> (case assertRefundable [row] of
        Inl e \<Rightarrow> (db, Inl e)
      | Inr _ \<Rightarrow>
          if vr_custodyReturnedAt row \<noteq> None \<and> or_empty (vr_custodyReturnTxHash row) \<noteq> []
          then (db, Inr (vr_custodyReturnTxHash row, True))
          else if \<not> wasEverInCustody row
          then (db, Inl (BadRequestException ''NFT return requires status=in_custody or custody_at set''))
          else case token_by_cycle db (vr_vaultCycleId row) of
            None \<Rightarrow> (db, Inl (BadRequestException ''No rwa_tokens row linked to vault cycle''))
          | Some token \<Rightarrow> (case decimal_nat (rt_tokenId token) of
              None \<Rightarrow> (db, Inl (BadRequestException ''Invalid tokenId''))
            | Some tokenId \<Rightarrow>
                (case safeTransferFromCustody cy tokenId (vr_ownerWalletAddress row) of
                   (Inl e, _) \<Rightarrow> (db, Inl e)
                 | (Inr txHash, _) \<Rightarrow>
                     let db1 = (case getRwaAddress config (resolveRowChainId config row) of
                             Inl _ \<Rightarrow> db
                           | Inr rwa \<Rightarrow> recordOwner rwa (nat_str tokenId)
                               (js_lower (js_trim (vr_ownerWalletAddress row))) db);
                         row' = return_fields txHash now row
                     in (resetCyclesIfRefunded now [row'] (save_redemption row' db1),
                         Inr (Some txHash, False))))))"

datatype nft_return =
    nr_skipped "string option" bool
  | nr_done "string option" bool
  | nr_failed http_exception

text \<open>The NFTs of a batch; a failure is logged and reported, and the loop goes on.\<close>

fun return_rows ::
  "config \<Rightarrow> (nat \<Rightarrow> custody_env) \<Rightarrow> int \<Rightarrow> vault_redemption list \<Rightarrow> vault_db \<Rightarrow> nft_return list \<times> vault_db" where
  "return_rows config cy now [] db = ([], db)"
| "return_rows config cy now (row # rows) db =
     (let (a, db1) =
            (if vr_custodyReturnedAt row = None \<and> wasEverInCustody row
             then (case returnNft config (cy (vr_id row)) now (vr_id row) db of
                 (db', Inr (h, again)) \<Rightarrow> (nr_done h again, db')
               | (db', Inl e) \<Rightarrow> (nr_failed e, db'))
             else (nr_skipped (vr_custodyReturnTxHash row) (vr_custodyReturnedAt row \<noteq> None), db));
          (out, db2) = return_rows config cy now rows db1
      in (a # out, db2))"

definition refundFullBatch ::
  "config \<Rightarrow> fee_wallet \<Rightarrow> (nat \<Rightarrow> custody_env) \<Rightarrow> int \<Rightarrow> string \<Rightarrow> redeem_state \<Rightarrow>
   redeem_state \<times> ((string option \<times> bool) \<times> nft_return list) result" where
  "refundFullBatch config fw cy now batchId st =
     andThen (refundUsdcBatch config fw now batchId st) (\<lambda>usdc st.
       let (out, db) = return_rows config cy now (batch_rows batchId (rs_vault st)) (rs_vault st)
       in (put_vault db st, Inr (usdc, out)))"

section \<open>Wiping development data\<close>

text \<open>The three updates run in a transaction, which a unique index may refuse.\<close>

definition purged :: "int \<Rightarrow> vault_db \<Rightarrow> vault_db" where
  "purged now db = db\<lparr>vd_redemptions := [], vd_claims := [],
     vd_cycles := map (\<lambda>c. if vc_status c = redemption_requested \<or> vc_status c = redeemed
       then c\<lparr>vc_status := minted, vc_redeemedAt := None, vc_updatedAt := now\<rparr> else c) (vd_cycles db),
     vd_tokens := map (\<lambda>t. if rt_burnedAt t \<noteq> None \<or> rt_burnTxHash t \<noteq> None
       then t\<lparr>rt_burnedAt := None, rt_burnTxHash := None\<rparr> else t) (vd_tokens db)\<rparr>"

definition purgeAllDevData :: "int \<Rightarrow> bool \<Rightarrow> vault_db \<Rightarrow> vault_db result" where
  "purgeAllDevData now isProduction db =
     (if isProduction then Inl (ForbiddenException ''Redeem purge is disabled in production'')
      else let db' = purged now db in
        if uq_cycles_one_open_per_asset_chain db' \<and> tokens_unique (vd_tokens db') then Inr db'
        else Inl unique_violation)"

end
