(* ===== verification/RedeemTracking.thy ===== *)
theory RedeemTracking
  imports RedeemAdmin
begin

text \<open>
  The delivery poll (rwa/redeem-delivery-track.service.ts, shipping/fedex-track.util.ts and
  redeem-auto-receipt.util.ts): FedEx answers are read, deliveries are stamped on the rows of a
  tracking number, and a batch that was delivered long enough ago is confirmed, which burns its
  tokens. The text of a FedEx status is ASCII here, so the two Korean phrases that the source
  also looks for never occur; the parser of dates and the transport are of the environment.
\<close>

section \<open>FedEx answers\<close>

datatype json = JNull | JBool bool | JNum rat | JStr string | JArr "json list"
  | JObj "(string \<times> json) list"

definition asRecord :: "json \<Rightarrow> (string \<times> json) list option" where
  "asRecord v = (case v of JObj fs \<Rightarrow> Some fs | _ \<Rightarrow> None)"

definition asArray :: "json \<Rightarrow> json list" where
  "asArray v = (case v of JArr xs \<Rightarrow> xs | _ \<Rightarrow> [])"

text \<open>A field of a record; of several with one name the last counts, an absent one is undefined.\<close>

definition field :: "string \<Rightarrow> (string \<times> json) list option \<Rightarrow> json" where
  "field name r = (case r of None \<Rightarrow> JNull
     | Some fs \<Rightarrow> (case find_row (\<lambda>f. fst f = name) (rev fs) of None \<Rightarrow> JNull | Some f \<Rightarrow> snd f))"

definition json_str :: "json \<Rightarrow> string option" where
  "json_str v = (case v of JStr s \<Rightarrow> non_empty (js_trim s) | _ \<Rightarrow> None)"

definition is_word_char :: "char \<Rightarrow> bool" where
  "is_word_char c = (let n = char_code c in
     (48 \<le> n \<and> n \<le> 57) \<or> (65 \<le> n \<and> n \<le> 90) \<or> n = 95 \<or> (97 \<le> n \<and> n \<le> 122))"

text \<open>The test /\bw\b/ on text, after the characters seen so far.\<close>

fun has_word_after :: "string \<Rightarrow> bool \<Rightarrow> string \<Rightarrow> bool" where
  "has_word_after w prev [] = False"
| "has_word_after w prev (c # cs) =
     ((\<not> prev \<and> take (length w) (c # cs) = w
        \<and> (case drop (length w) (c # cs) of [] \<Rightarrow> True | d # _ \<Rightarrow> \<not> is_word_char d))
      \<or> has_word_after w (is_word_char c) cs)"

definition isDeliveredStatus :: "string option \<Rightarrow> string option \<Rightarrow> bool" where
  "isDeliveredStatus code description =
     (js_upper (or_empty code) = ''DL''
      \<or> has_word_after ''delivered'' False (js_lower (or_empty description)))"

record track_result =
  tk_trackingNumber :: string
  tk_delivered :: bool
  tk_deliveredAt :: "int option"
  tk_statusCode :: "string option"
  tk_statusDescription :: "string option"
  tk_errorCode :: "string option"
  tk_errorMessage :: "string option"

definition actual_delivery :: "json \<Rightarrow> bool" where
  "actual_delivery entry =
     (map_option js_upper (json_str (field ''type'' (asRecord entry))) = Some ''ACTUAL_DELIVERY'')"

definition no_result :: "string \<Rightarrow> string \<Rightarrow> string \<Rightarrow> track_result" where
  "no_result trackingNumber code message =
     \<lparr>tk_trackingNumber = trackingNumber, tk_delivered = False, tk_deliveredAt = None,
      tk_statusCode = None, tk_statusDescription = None, tk_errorCode = Some code,
      tk_errorMessage = Some message\<rparr>"

definition parseFedExTrackResult ::
  "(string option \<Rightarrow> int option) \<Rightarrow> int \<Rightarrow> string \<Rightarrow> json \<Rightarrow> track_result" where
  "parseFedExTrackResult parseDate now trackingNumber trackResult =
     (case asRecord trackResult of
        None \<Rightarrow> no_result trackingNumber ''EMPTY_RESULT'' ''Empty track result''
      | Some obj \<Rightarrow>
          let err = asRecord (field ''error'' (Some obj));
              latest = asRecord (field ''latestStatusDetail'' (Some obj));
              statusCode = or_else (json_str (field ''derivedCode'' latest)) (json_str (field ''code'' latest));
              statusDescription = or_else (json_str (field ''statusByLocale'' latest))
                                          (json_str (field ''description'' latest));
              deliveredAt = (case find_row actual_delivery (asArray (field ''dateAndTimes'' (Some obj))) of
                  None \<Rightarrow> None
                | Some entry \<Rightarrow> parseDate (json_str (field ''dateTime'' (asRecord entry))));
              delivered = (deliveredAt \<noteq> None \<or> isDeliveredStatus statusCode statusDescription)
          in \<lparr>tk_trackingNumber = trackingNumber, tk_delivered = delivered,
              tk_deliveredAt = (if delivered then or_else deliveredAt (Some now) else None),
              tk_statusCode = statusCode, tk_statusDescription = statusDescription,
              tk_errorCode = json_str (field ''code'' err),
              tk_errorMessage = json_str (field ''message'' err)\<rparr>)"

definition parse_track_block ::
  "(string option \<Rightarrow> int option) \<Rightarrow> int \<Rightarrow> json \<Rightarrow> track_result list" where
  "parse_track_block parseDate now block = (case asRecord block of
      None \<Rightarrow> []
    | Some b \<Rightarrow>
        let trackingNumber = or_empty (json_str (field ''trackingNumber'' (Some b))) in
        (case asArray (field ''trackResults'' (Some b)) of
           [] \<Rightarrow> [no_result trackingNumber ''NO_TRACK_RESULTS'' ''No trackResults in response'']
         | r # _ \<Rightarrow> [parseFedExTrackResult parseDate now trackingNumber r]))"

definition parseFedExTrackResponse ::
  "(string option \<Rightarrow> int option) \<Rightarrow> int \<Rightarrow> json \<Rightarrow> track_result list" where
  "parseFedExTrackResponse parseDate now body =
     concat (map (parse_track_block parseDate now)
       (asArray (field ''completeTrackResults'' (asRecord (field ''output'' (asRecord body))))))"

definition isFedExTrackableCarrier :: "string option \<Rightarrow> bool" where
  "isFedExTrackableCarrier carrier =
     (let c = js_lower (js_trim (or_empty carrier)) in c = [] \<or> c = ''fedex'')"

definition strip_ws :: "string \<Rightarrow> string" where
  "strip_ws s = filter (\<lambda>c. \<not> is_ws c) s"

definition isSandboxOnesTrackingNumber :: "string \<Rightarrow> bool" where
  "isSandboxOnesTrackingNumber trackingNumber =
     (let key = strip_ws trackingNumber in
      6 \<le> length key \<and> length key \<le> 15 \<and> list_all (\<lambda>c. c = CHR ''1'') key)"

section \<open>When a batch is due\<close>

definition resolveRedeemAutoReceiptGraceMs :: "string option \<Rightarrow> string option \<Rightarrow> int" where
  "resolveRedeemAutoReceiptGraceMs graceSecondsRaw graceDaysRaw =
     (let byDays = (case js_Number (case graceDaysRaw of None \<Rightarrow> ''3'' | Some s \<Rightarrow> s) of
              Some d \<Rightarrow> if 0 \<le> d then \<lfloor>d\<rfloor> else 3 | None \<Rightarrow> 3) * 24 * 60 * 60 * 1000
      in case trim_or_null graceSecondsRaw of
        None \<Rightarrow> byDays
      | Some s \<Rightarrow> (case js_Number s of
          Some sec \<Rightarrow> if 0 \<le> sec then \<lfloor>sec\<rfloor> * 1000 else byDays
        | None \<Rightarrow> byDays))"

datatype receipt_gate = gate_open | gate_closed string

definition latest_delivery :: "vault_redemption list \<Rightarrow> int" where
  "latest_delivery rows = fold (\<lambda>r m. case vr_carrierDeliveredAt r of
     None \<Rightarrow> m | Some d \<Rightarrow> max d m) rows 0"

text \<open>The dates are positive, so the maximum of the deliveries can start at 0.\<close>

definition batchReadyForAutoReceipt :: "int \<Rightarrow> int \<Rightarrow> vault_redemption list \<Rightarrow> receipt_gate" where
  "batchReadyForAutoReceipt graceMs now rows =
     (if rows = [] then gate_closed ''empty''
      else if list_all (\<lambda>r. vr_status r = r_completed) rows then gate_closed ''already_completed''
      else if list_ex (\<lambda>r. vr_refundStatus r \<noteq> rf_none \<or> vr_status r = r_refunded) rows
      then gate_closed ''refunded''
      else if list_ex (\<lambda>r. \<not> receipt_eligible (vr_status r)) rows then gate_closed ''bad_status''
      else if list_ex (\<lambda>r. \<not> has_tracking r) rows then gate_closed ''missing_tracking''
      else if list_ex (\<lambda>r. \<not> isFedExTrackableCarrier (vr_trackingCarrier r)) rows
      then gate_closed ''non_fedex''
      else if list_ex (\<lambda>r. vr_carrierDeliveredAt r = None) rows then gate_closed ''not_all_delivered''
      else if now < latest_delivery rows + graceMs then gate_closed ''grace_pending''
      else gate_open)"

section \<open>The poll\<close>

definition config_truthy :: "config \<Rightarrow> string \<Rightarrow> bool" where
  "config_truthy config key = (let v = js_lower (js_trim (or_empty (config key))) in
     v = ''1'' \<or> v = ''true'' \<or> v = ''yes'')"

definition track_enabled :: "config \<Rightarrow> bool" where
  "track_enabled config = config_truthy config ''FEDEX_TRACK_ENABLED''"

definition autoReceiptEnabled :: "config \<Rightarrow> bool" where
  "autoReceiptEnabled config =
     (if trim_or_null (config ''REDEEM_AUTO_RECEIPT_ENABLED'') = None then track_enabled config
      else config_truthy config ''REDEEM_AUTO_RECEIPT_ENABLED'')"

fun has_infix :: "string \<Rightarrow> string \<Rightarrow> bool" where
  "has_infix w [] = (w = [])"
| "has_infix w (c # cs) = (take (length w) (c # cs) = w \<or> has_infix w cs)"

definition sandboxOnesAsDelivered :: "config \<Rightarrow> bool" where
  "sandboxOnesAsDelivered config =
     (if trim_or_null (config ''FEDEX_TRACK_SANDBOX_ONES_DELIVERED'') \<noteq> None
      then config_truthy config ''FEDEX_TRACK_SANDBOX_ONES_DELIVERED''
      else has_infix ''sandbox'' (js_lower
        (case trim_or_null (config ''FEDEX_API_BASE_URL'') of
           Some u \<Rightarrow> u | None \<Rightarrow> ''https://apis-sandbox.fedex.com'')))"

definition graceDelayMs :: "config \<Rightarrow> int" where
  "graceDelayMs config = resolveRedeemAutoReceiptGraceMs
     (config ''REDEEM_AUTO_RECEIPT_GRACE_SECONDS'') (config ''REDEEM_AUTO_RECEIPT_GRACE_DAYS'')"

definition track_eligible :: "vault_redemption_status \<Rightarrow> bool" where
  "track_eligible s = (s \<in> {r_in_custody, r_burned, r_vault_release_pending})"

definition tracking_key :: "vault_redemption \<Rightarrow> string" where
  "tracking_key r = js_upper (strip_ws (or_empty (vr_trackingNumber r)))"

text \<open>ORDER BY tracking_set_at ASC puts a row without the date last.\<close>

definition rows_to_track :: "vault_db \<Rightarrow> vault_redemption list" where
  "rows_to_track db =
     (let rows = filter (\<lambda>r. track_eligible (vr_status r) \<and> vr_trackingNumber r \<noteq> None
                \<and> vr_carrierDeliveredAt r = None \<and> vr_refundStatus r = rf_none) (vd_redemptions db);
          dated = order_asc (\<lambda>r. case vr_trackingSetAt r of None \<Rightarrow> 0 | Some d \<Rightarrow> d)
                    (filter (\<lambda>r. vr_trackingSetAt r \<noteq> None) rows)
      in filter (\<lambda>r. has_tracking r \<and> isFedExTrackableCarrier (vr_trackingCarrier r))
           (take 400 (dated @ filter (\<lambda>r. vr_trackingSetAt r = None) rows)))"

definition stampCarrierDelivered ::
  "vault_redemption list \<Rightarrow> string \<Rightarrow> int \<Rightarrow> vault_db \<Rightarrow> vault_db" where
  "stampCarrierDelivered polled key deliveredAt db =
     (let ids = map vr_id (filter (\<lambda>r. tracking_key r = key) polled);
          pending = filter (\<lambda>r. vr_id r \<in> set ids \<and> vr_carrierDeliveredAt r = None) (vd_redemptions db)
      in save_rows (map (\<lambda>r. r\<lparr>vr_carrierDeliveredAt := Some deliveredAt\<rparr>) pending) db)"

text \<open>trackByNumbers is the call to FedEx; a call that fails gives no results.\<close>

definition pollDeliveries ::
  "config \<Rightarrow> (string list \<Rightarrow> track_result list option) \<Rightarrow> int \<Rightarrow> vault_db \<Rightarrow> vault_db" where
  "pollDeliveries config trackByNumbers now db =
     (let polled = rows_to_track db;
          numbers = take 90 (js_unique (map tracking_key polled));
          results = (case trackByNumbers numbers of None \<Rightarrow> [] | Some rs \<Rightarrow> rs);
          stamp = (\<lambda>result db. case (tk_delivered result, tk_deliveredAt result) of
              (True, Some d) \<Rightarrow>
                stampCarrierDelivered polled (js_upper (strip_ws (tk_trackingNumber result))) d db
            | _ \<Rightarrow> db)
      in if numbers = [] then db
         else let db1 = fold stamp results db in
           if sandboxOnesAsDelivered config
           then fold (\<lambda>key db. stampCarrierDelivered polled key now db)
                  (filter isSandboxOnesTrackingNumber numbers) db1
           else db1)"

definition due_candidates :: "config \<Rightarrow> int \<Rightarrow> vault_db \<Rightarrow> vault_redemption list" where
  "due_candidates config now db = take 200 (order_asc (\<lambda>r. case vr_carrierDeliveredAt r of
        None \<Rightarrow> 0 | Some d \<Rightarrow> d)
     (filter (\<lambda>r. vr_paymentBatchId r \<noteq> None \<and> vr_refundStatus r = rf_none
        \<and> (track_eligible (vr_status r) \<or> vr_status r = r_completed)
        \<and> vr_trackingNumber r \<noteq> None \<and> sql_trim (or_empty (vr_trackingNumber r)) \<noteq> []
        \<and> (case vr_carrierDeliveredAt r of None \<Rightarrow> False | Some d \<Rightarrow> d \<le> now - graceDelayMs config))
      (vd_redemptions db)))"

definition confirm_batch ::
  "redeem_env \<Rightarrow> vault_redemption list \<Rightarrow> string \<Rightarrow> redeem_state \<Rightarrow> redeem_state" where
  "confirm_batch env candidates batchId st =
     (case Option.bind (find_row (\<lambda>r. vr_paymentBatchId r = Some batchId) candidates) vr_chainId of
        None \<Rightarrow> st
      | Some ch \<Rightarrow>
          let allRows = findRedemptionsByBatchId batchId (Some ch) (rs_vault st) in
          if batchReadyForAutoReceipt (graceDelayMs (rv_config env)) (rv_now env) allRows \<noteq> gate_open
          then st
          else let incomplete = filter (\<lambda>r. vr_status r \<noteq> r_completed) allRows in
            fst (finalizeReceiptWithBurn env ch via_auto
                   (if incomplete \<noteq> [] then incomplete else allRows) st))"

definition autoConfirmDueBatches :: "redeem_env \<Rightarrow> redeem_state \<Rightarrow> redeem_state" where
  "autoConfirmDueBatches env st =
     (let candidates = due_candidates (rv_config env) (rv_now env) (rs_vault st);
          batchIds = take 40 (js_unique (map (\<lambda>r. or_empty (vr_paymentBatchId r)) candidates))
      in fold (confirm_batch env candidates) batchIds st)"

definition pollOnce ::
  "redeem_env \<Rightarrow> (string list \<Rightarrow> track_result list option) \<Rightarrow> redeem_state \<Rightarrow> redeem_state" where
  "pollOnce env trackByNumbers st =
     (let st1 = put_vault (pollDeliveries (rv_config env) trackByNumbers (rv_now env) (rs_vault st)) st in
      if autoReceiptEnabled (rv_config env) then autoConfirmDueBatches env st1 else st1)"

end
