(* ===== verification/VaultLifecycle.thy ===== *)
theory VaultLifecycle
  imports VaultMachine
begin

text \<open>
  The custody of a card as an abstract specification: a vault cycle appears with a verified
  deposit (or minted, when a paid redemption repairs a token whose cycle was lost) and follows
  the graph cycle_edge. The tables and operations of the vault service refine it.
\<close>

inductive cycle_edge :: "vault_cycle_status \<Rightarrow> vault_cycle_status \<Rightarrow> bool" where
  "cycle_edge deposit_verified minting"
| "cycle_edge deposit_verified minted"
| "cycle_edge minting minted"
| "cycle_edge deposit_verified cancelled"
| "cycle_edge minting cancelled"
| "cycle_edge minted redemption_requested"
| "cycle_edge minted redeemed"
| "cycle_edge redemption_requested redeemed"

inductive_cases cycle_edgeE: "cycle_edge s t"

inductive_simps cycle_edge_simps [simp]:
  "cycle_edge cancelled t" "cycle_edge redeemed t" "cycle_edge minted t"
  "cycle_edge redemption_requested t" "cycle_edge s minting" "cycle_edge s deposit_verified"

definition initial_cycle :: "vault_cycle_status \<Rightarrow> bool" where
  "initial_cycle s = (s = deposit_verified \<or> s = minted)"

text \<open>The abstraction: the status of every cycle.\<close>

definition cycle_statuses :: "vault_db \<Rightarrow> nat \<Rightarrow> vault_cycle_status option" where
  "cycle_statuses db i = map_option vc_status (find_cycle i db)"

abbreviation cycle_life :: "vault_db \<Rightarrow> vault_db \<Rightarrow> bool" where
  "cycle_life db db' \<equiv> (life_step initial_cycle cycle_edge)\<^sup>*\<^sup>* (cycle_statuses db) (cycle_statuses db')"

lemma life_same_cycles: "vd_cycles db' = vd_cycles db \<Longrightarrow> cycle_life db db'"
  by (simp add: cycle_statuses_def [abs_def] find_cycle_def)

lemma statuses_save:
  "cycle_statuses (save_cycle now c db) = (cycle_statuses db)(vc_id c \<mapsto> vc_status c)"
  by (auto simp: cycle_statuses_def fun_eq_iff table_simps)

lemma statuses_next [simp]: "cycle_statuses (db\<lparr>vd_next := n\<rparr>) = cycle_statuses db"
  by (simp add: cycle_statuses_def [abs_def] find_cycle_def)

lemma statuses_other [simp]:
  "cycle_statuses (save_redemption r db) = cycle_statuses db"
  "cycle_statuses (save_token t db) = cycle_statuses db"
  "cycle_statuses (save_asset a db) = cycle_statuses db"
  by (simp_all add: cycle_statuses_def [abs_def])

lemma life_save:
  assumes "find_cycle i db = Some b" "vc_id c = vc_id b" "vc_status b = vc_status c \<or> cycle_edge (vc_status b) (vc_status c)"
  shows "cycle_life db (save_cycle now c db)"
  unfolding statuses_save
  by (rule life_same [of _ _ "vc_status b"]) (use assms find_cycle_Some [OF assms(1)] in \<open>auto simp: cycle_statuses_def\<close>)

lemma life_new:
  assumes "vault_wf db" "vc_id c = vd_next db" "initial_cycle (vc_status c)"
  shows "cycle_life db (save_cycle now c (db\<lparr>vd_next := n\<rparr>))"
proof -
  have "find_cycle (vc_id c) db = None"
    using assms(1,2) by (auto simp: find_cycle_def find_key_None wf_defs)
  then have "life_step initial_cycle cycle_edge (cycle_statuses db)
      ((cycle_statuses db)(vc_id c \<mapsto> vc_status c))"
    by (intro life_step.appear assms(3)) (simp add: cycle_statuses_def)
  then show ?thesis by (simp add: statuses_save r_into_rtranclp)
qed

section \<open>The operations follow the graph\<close>

lemma reserve_life:
  assumes wf: "vault_wf db"
    and ok: "reserveCycleForDeposit k now cert ch ty name user db = Inr (a, c, db')"
  shows "cycle_life db db'"
proof -
  from ok obtain db1 where 1: "find_or_create_asset k ty (normalizeCert cert) name db = Inr (a, db1)"
    and c: "vc_id c = vd_next db1" "vc_status c = deposit_verified"
    and db': "db' = save_cycle now c (db1\<lparr>vd_next := vd_next db1 + 1\<rparr>)"
    by (rule reserve_Inr) auto
  note a = find_or_create_asset_ok [OF wf 1]
  have "cycle_life db1 db'"
    unfolding db' by (rule life_new) (use a c in \<open>auto simp: initial_cycle_def\<close>)
  with life_same_cycles [of db1 db] a show ?thesis by (meson rtranclp_trans)
qed

lemma beginMint_life:
  assumes "beginMintAttempt now i att db = Inr db'"
  shows "cycle_life db db'"
  using assms by (rule beginMint_Inr) (auto intro!: life_save simp: cycle_edge.intros)

lemma noteMint_life: "cycle_life db (noteMintAttemptTx now i tid tx db)"
  by (cases rule: noteMint_cases [of now i tid tx db]) (auto intro!: life_save)

lemma cancel_life: "cycle_life db (cancelCycle now i db)"
  by (cases rule: cancelCycle_cases [of now i db]) (auto intro!: life_save simp: cycle_edge.intros)

lemma record_cycles:
  assumes r: "recordMintResult k now p db = (db', res)"
  obtains "vd_cycles db' = vd_cycles db"
  | c where "find_cycle (mr_cycleId p) db = Some c"
    "vc_status c = deposit_verified \<or> vc_status c = minting \<or> vc_status c = minted"
    "vd_cycles db' = vd_cycles (save_cycle now (c\<lparr>vc_status := minted, vc_mintAttempt := None\<rparr>) db)"
proof (cases "find_cycle (mr_cycleId p) db")
  case None
  with r that(1) show thesis by (simp add: recordMintResult_def)
next
  case (Some c)
  show thesis
  proof (cases "vc_status c = deposit_verified \<or> vc_status c = minting \<or> vc_status c = minted")
    case True
    show thesis
      by (rule that(2) [OF Some True])
         (use r Some True in \<open>auto simp: recordMintResult_def Let_def split: sum.splits if_splits\<close>)
  next
    case False
    with r Some that(1) show thesis by (simp add: recordMintResult_def)
  qed
qed

lemma life_cycles: "cycle_life db db1 \<Longrightarrow> vd_cycles db' = vd_cycles db1 \<Longrightarrow> cycle_life db db'"
  by (simp add: cycle_statuses_def [abs_def] find_cycle_def)

lemma record_life:
  assumes "recordMintResult k now p db = (db', res)"
  shows "cycle_life db db'"
  using assms
proof (cases rule: record_cycles)
  case 1
  then show ?thesis by (rule life_same_cycles)
next
  case (2 c)
  show ?thesis
    by (rule life_cycles [OF life_save [OF 2(1)] 2(3)]) (use 2(2) in \<open>auto simp: cycle_edge.intros\<close>)
qed

lemma request_life:
  assumes "find_cycle i db = Some c" "vc_status c = minted"
  shows "cycle_life db (save_cycle now (c\<lparr>vc_status := redemption_requested\<rparr>)
    (save_redemption r (db\<lparr>vd_next := n\<rparr>)))"
proof -
  have "cycle_life db (save_cycle now (c\<lparr>vc_status := redemption_requested\<rparr>) db)"
    by (rule life_save [OF assms(1)]) (use assms(2) in \<open>auto simp: cycle_edge.intros\<close>)
  then show ?thesis by (simp add: statuses_save)
qed

lemma requestRedemption_life:
  assumes "vault_wf db" "requestRedemption now tc tid user owner ship fees db = Inr (r, db')"
  shows "cycle_life db db'"
  using assms by (rule requestRedemption_Inr) (simp only: request_life)

lemma backfill_life:
  assumes wf: "vault_wf db" and ok: "backfillCycleForToken k now t ch db = Inr (i, db')"
  shows "cycle_life db db'"
proof -
  from ok obtain cert a db1 c db2 ref where
    1: "backfill_asset k (normalizeCert cert) (rt_displayName t) db = Inr (a, db1)"
    and 2: "backfill_cycle now a ch db1 = Inr (c, db2)"
    and 3: "save_token_checked (t\<lparr>rt_vaultCycleId := Some (vc_id c), rt_vaultRef := ref\<rparr>) db2 = Inr db'"
    unfolding backfillCycleForToken_def Let_def by (auto simp: on_ok_eq_Inr split: option.splits)
  note a = backfill_asset_ok [OF wf 1]
  have "cycle_life db1 db2"
  proof (cases "open_cycle_of (va_id a) ch db1")
    case (Some d)
    with 2 show ?thesis by (auto simp: backfill_cycle_def split: if_splits)
  next
    case None
    with 2 have "db2 = save_cycle now c (db1\<lparr>vd_next := vd_next db1 + 1\<rparr>)" "vc_id c = vd_next db1"
      "vc_status c = minted" by (auto simp: backfill_cycle_def Let_def)
    then show ?thesis using a by (auto intro!: life_new simp: initial_cycle_def)
  qed
  moreover have "vd_cycles db' = vd_cycles db2"
    using 3 by (auto simp: save_token_checked_def Let_def split: if_splits)
  ultimately show ?thesis
    using life_same_cycles [of db1 db] a life_cycles by (meson rtranclp_trans)
qed

lemma insertPaidRow_life:
  assumes wf: "vault_wf db" and ok: "insertPaidRedemptionRow k now cl paidAt ch it db = Inr (r, db')"
  shows "cycle_life db db'"
proof -
  from ok obtain t i db1 where
    b: "(case rt_vaultCycleId t of Some i \<Rightarrow> Inr (i, db) | None \<Rightarrow> backfillCycleForToken k now t ch db) = Inr (i, db1)"
    and p: "paid_row_for_cycle now cl paidAt ch it i db1 = Inr (r, db')"
    by (rule insertPaidRow_Inr)
  have "cycle_life db db1" using b backfill_life [OF wf] by (auto split: option.splits)
  moreover have "cycle_life db1 db'" using p by (rule paid_row_Inr) (simp only: request_life)
  ultimately show ?thesis by (rule rtranclp_trans)
qed

lemma insert_paid_rows_life:
  "vault_wf db \<Longrightarrow> insert_paid_rows k now cl paidAt ch items db = Inr (out, db') \<Longrightarrow> cycle_life db db'"
proof (induction items arbitrary: db out)
  case (Cons it items)
  then obtain r db1 out' where 1: "insertPaidRedemptionRow k now cl paidAt ch it db = Inr (r, db1)"
    and 2: "insert_paid_rows k now cl paidAt ch items db1 = Inr (out', db')"
    by (auto simp: on_ok_eq_Inr)
  have "cycle_life db1 db'" using Cons.IH [OF _ 2] insertPaidRow_wf [OF Cons.prems(1) 1] by blast
  with insertPaidRow_life [OF Cons.prems(1) 1] show ?case by (rule rtranclp_trans)
qed simp

lemma createPaidBatch_life:
  assumes wf: "vault_wf db"
    and ok: "createPaidRedemptionBatch k now tx b m paidAt ch items db = Inr (out, db')"
  shows "cycle_life db db'"
  using ok
proof (rule createPaidBatch_Inr)
  fix cl db1
  assume 1: "insertPaymentClaimOrConflict cl db = Inr db1"
    and 2: "insert_paid_rows k now cl paidAt ch items db1 = Inr (out, db')"
  have "cycle_life db db1" using insertPaymentClaim_Inr [OF 1] by (simp add: life_same_cycles)
  with insert_paid_rows_life [OF _ 2] insertPaymentClaim_wf [OF wf 1] show ?thesis
    by (meson rtranclp_trans)
qed

lemma burn_redemption_statuses:
  "burn_redemption now i by db = (r, db') \<Longrightarrow> cycle_statuses db' = cycle_statuses db"
  by (auto simp: burn_redemption_def split: option.splits)

lemma burn_life:
  assumes wf: "vault_wf db"
  shows "cycle_life db (completeRedemptionBurn now tc tid tx by db)"
proof (cases rule: completeBurn_cases [of tc tid db now tx "by"])
  case (3 t i c db1 db2 r db3)
  have t: "t \<in> set (vd_tokens db)" using find_token_Some [OF 3(1)] by simp
  have c: "find_cycle i db = Some c" using 3(3,4) by simp
  then have "minted \<le> vc_status c" "vc_status c \<noteq> cancelled" using token_cycle [OF wf t 3(2)] by auto
  then have "cycle_life db (save_cycle now (c\<lparr>vc_status := redeemed, vc_redeemedAt := Some now\<rparr>) db)"
    by (intro life_save [OF c]) (auto simp: cycle_edge.intros)
  then show ?thesis
    using burn_redemption_statuses [OF 3(6)] by (simp add: 3(3,5,7) statuses_save)
qed (simp_all add: life_same_cycles)

lemma fold_save_redemption_cycles [simp]: "vd_cycles (fold save_redemption rows db) = vd_cycles db"
  by (induction rows arbitrary: db) simp_all

lemma other_life:
  "markCustodyReceived now i tx db = Inr (r, db') \<Longrightarrow> cycle_life db db'"
  "confirmVaultRelease now i db = Inr (r, db') \<Longrightarrow> cycle_life db db'"
  "markUserReceiptConfirmed now via rows db = (rows', db') \<Longrightarrow> cycle_life db db'"
  "cycle_life db (ensureSettlementPolicy tc tid p db)"
  "cycle_life db (recordTransfer now tc tid w db)"
  "cycle_life db (recordOwner tc tid w db)"
  by (auto intro!: life_same_cycles simp: markCustodyReceived_def confirmVaultRelease_def
      markUserReceiptConfirmed_def ensureSettlementPolicy_def recordTransfer_def Let_def
      split: option.splits if_splits)

lemma vault_step_life: "vault_wf db \<Longrightarrow> vault_step k db db' \<Longrightarrow> cycle_life db db'"
  by (elim vault_stepE)
     (auto dest: reserve_life beginMint_life record_life requestRedemption_life createPaidBatch_life
        other_life(1-3) simp: noteMint_life cancel_life burn_life other_life(4-6))

interpretation vault_refines: status_refinement "vault_step k" vault_wf cycle_statuses initial_cycle cycle_edge for k
  by unfold_locales (auto dest: vault_step_life)

end
