(* ===== verification/RedeemMachine.thy ===== *)
theory RedeemMachine
  imports RedeemTracking VaultLifecycle
begin

text \<open>
  The redemptions as a state machine. A row has a status and a refund status; the pairs that
  occur form the graph row_edge, in which a refunded row is never burned, a burned one never
  refunded, and completed and refunded rows are final. The operations of the redeem flow, of
  its administration and of the delivery poll refine this graph, and the graph of custody with
  one more edge: a refund puts the cycle of the card back to minted. rows_ok is the invariant
  of the rows that makes this true.
\<close>

section \<open>Saving rows is mapping over the table\<close>

lemma upsert_map:
  "distinct (map key t) \<Longrightarrow> r \<in> set t \<Longrightarrow> key x = key r \<Longrightarrow>
   upsert key x t = map (\<lambda>y. if y = r then x else y) t"
proof (induction t)
  case (Cons a t)
  show ?case
  proof (cases "a = r")
    case True
    then have "\<forall>y \<in> set t. y \<noteq> r" using Cons.prems by auto
    then have "map (\<lambda>y. if y = r then x else y) t = t" by (simp add: map_idI)
    then show ?thesis using True Cons.prems by simp
  next
    case False
    then have "key a \<noteq> key r" using Cons.prems by (auto simp: rev_image_eqI)
    then show ?thesis using False Cons by simp
  qed
qed simp

lemma fold_upsert_map:
  assumes key: "\<And>r. key (f r) = key r"
  shows "distinct (map key t) \<Longrightarrow> distinct rs \<Longrightarrow> set rs \<subseteq> set t \<Longrightarrow>
    fold (upsert key) (map f rs) t = map (\<lambda>y. if y \<in> set rs then f y else y) t"
proof (induction rs arbitrary: t)
  case (Cons r rs)
  let ?t = "map (\<lambda>y. if y = r then f r else y) t"
  have r: "r \<in> set t" using Cons.prems by simp
  have up: "upsert key (f r) t = ?t" by (rule upsert_map [OF Cons.prems(1) r key])
  have ks: "map key ?t = map key t" by (simp add: key)
  have "set rs \<subseteq> set ?t"
  proof
    fix x assume x: "x \<in> set rs"
    then have "x \<in> set t" "x \<noteq> r" using Cons.prems by auto
    then show "x \<in> set ?t" by (auto simp: rev_image_eqI)
  qed
  then have IH: "fold (upsert key) (map f rs) ?t = map (\<lambda>y. if y \<in> set rs then f y else y) ?t"
    using Cons.prems ks by (intro Cons.IH) (simp_all only: distinct.simps)
  have new: "f r \<notin> set rs"
  proof
    assume "f r \<in> set rs"
    moreover from this have "f r \<in> set t" using Cons.prems by auto
    then have "f r = r" using r Cons.prems(1) key by (metis find_key_member option.inject)
    ultimately show False using Cons.prems by simp
  qed
  have "map (\<lambda>y. if y \<in> set rs then f y else y) ?t = map (\<lambda>y. if y \<in> set (r # rs) then f y else y) t"
    using new Cons.prems(2) by (auto simp: comp_def)
  then show ?case using up IH by simp
qed simp

lemma save_rows_upsert:
  "save_rows rows db = db\<lparr>vd_redemptions := fold (upsert vr_id) rows (vd_redemptions db)\<rparr>"
  unfolding save_rows_def by (induction rows arbitrary: db) (simp_all add: save_redemption_def)

lemma redemption_ids: "vault_wf db \<Longrightarrow> distinct (map vr_id (vd_redemptions db))"
  by (simp add: wf_defs)

lemma redemption_rows: "vault_wf db \<Longrightarrow> distinct (vd_redemptions db)"
  using redemption_ids by (simp add: distinct_map)

lemma save_rows_map:
  assumes "vault_wf db" "distinct rs" "set rs \<subseteq> set (vd_redemptions db)" "\<And>r. vr_id (f r) = vr_id r"
  shows "save_rows (map f rs) db = db\<lparr>vd_redemptions :=
    map (\<lambda>y. if y \<in> set rs then f y else y) (vd_redemptions db)\<rparr>"
  unfolding save_rows_upsert using fold_upsert_map [OF assms(4) redemption_ids [OF assms(1)] assms(2,3)]
  by simp

lemma save_one_map:
  assumes "vault_wf db" "find_redemption i db = Some r" "vr_id x = vr_id r"
  shows "save_redemption x db = db\<lparr>vd_redemptions :=
    map (\<lambda>y. if y = r then x else y) (vd_redemptions db)\<rparr>"
proof -
  have "upsert vr_id x (vd_redemptions db) = map (\<lambda>y. if y = r then x else y) (vd_redemptions db)"
    by (rule upsert_map [OF redemption_ids [OF assms(1)]]) (use assms find_redemption_Some in blast)+
  then show ?thesis by (simp add: save_redemption_def)
qed

lemma save_rows_frames [simp]:
  "vd_cycles (save_rows rows db) = vd_cycles db" "vd_tokens (save_rows rows db) = vd_tokens db"
  "vd_claims (save_rows rows db) = vd_claims db" "vd_assets (save_rows rows db) = vd_assets db"
  "vd_partners (save_rows rows db) = vd_partners db" "vd_next (save_rows rows db) = vd_next db"
  by (simp_all add: save_rows_upsert)

text \<open>A change of redemption rows that keeps their places and opens none.\<close>

lemma redemptions_map_wf:
  assumes wf: "vault_wf db" and db': "db' = db\<lparr>vd_redemptions := map g (vd_redemptions db)\<rparr>"
    and g: "\<And>r. r \<in> set (vd_redemptions db) \<Longrightarrow> vr_id (g r) = vr_id r
      \<and> vr_vaultCycleId (g r) = vr_vaultCycleId r \<and> (open_redemption (g r) \<longrightarrow> open_redemption r)"
  shows "vault_wf db'"
proof -
  have "distinct (map vr_id (map g (vd_redemptions db)))"
    using g redemption_ids [OF wf] by (metis (no_types, lifting) map_eq_conv map_map comp_apply)
  moreover have "\<forall>x \<in> set (map g (vd_redemptions db)). vr_id x < vd_next db"
    using wf g by (auto simp: wf_defs)
  ultimately have keys: "keys_wf db'"
    using wf by (simp add: db' vault_wf_def keys_wf_def del: map_map)
  have "unique_index vr_id vr_vaultCycleId open_redemption (map g (vd_redemptions db))"
    unfolding unique_index_def using g one_open_redemption [OF wf] by simp metis
  moreover have "\<forall>r \<in> set (map g (vd_redemptions db)). open_redemption r \<longrightarrow>
      in_redemption (vr_vaultCycleId r) db'"
    using g open_redemption_in_redemption [OF wf] by (auto simp: db' in_redemption_def)
  ultimately have "redemptions_wf db'"
    by (simp add: db' redemptions_wf_def uq_redemptions_one_open_per_cycle_def)
  then show ?thesis
    using wf keys by (simp add: db' vault_wf_def uq_assets_type_cert_def claims_wf_def tokens_wf_def
        cycles_wf_def uq_cycles_one_open_per_asset_chain_def uq_cycles_asset_number_def cycles_of_asset_def)
qed

section \<open>The life of a redemption\<close>

definition row_state :: "vault_redemption \<Rightarrow> vault_redemption_status \<times> refund_status" where
  "row_state r = (vr_status r, vr_refundStatus r)"

inductive row_edge ::
  "vault_redemption_status \<times> refund_status \<Rightarrow> vault_redemption_status \<times> refund_status \<Rightarrow> bool" where
  "row_edge (r_ownership_verified, rf_none) (r_in_custody, rf_none)"
| "row_edge (r_in_custody, rf_none) (r_burned, rf_none)"
| "row_edge (r_in_custody, rf_none) (r_completed, rf_none)"
| "row_edge (r_burned, rf_none) (r_completed, rf_none)"
| "row_edge (r_ownership_verified, rf_none) (r_refunded, fully_refunded)"
| "row_edge (r_in_custody, rf_none) (r_in_custody, usdc_refunded)"
| "row_edge (r_in_custody, usdc_refunded) (r_refunded, fully_refunded)"
| "row_edge (r_in_custody, rf_none) (r_in_custody, nft_returned)"
| "row_edge (r_in_custody, nft_returned) (r_refunded, fully_refunded)"

inductive_cases row_edgeE: "row_edge s t"

inductive_simps row_edge_simps [simp]:
  "row_edge (r_completed, rf) t" "row_edge (r_refunded, rf) t" "row_edge (r_in_custody, rf) t"
  "row_edge (r_ownership_verified, rf) t" "row_edge (r_burned, rf) t"

text \<open>A paid redemption starts verified; a burn without one records a burned row.\<close>

definition row_initial :: "vault_redemption_status \<times> refund_status \<Rightarrow> bool" where
  "row_initial s = (s = (r_ownership_verified, rf_none) \<or> s = (r_burned, rf_none))"

definition never_in_custody :: "vault_redemption \<Rightarrow> bool" where
  "never_in_custody r = (vr_custodyAt r = None \<and> vr_custodyTxHash r = None)"

definition not_returned :: "vault_redemption \<Rightarrow> bool" where
  "not_returned r = (vr_custodyReturnedAt r = None \<and> vr_custodyReturnTxHash r = None)"

definition sent_back :: "vault_redemption \<Rightarrow> bool" where
  "sent_back r = (vr_custodyReturnedAt r \<noteq> None \<and> or_empty (vr_custodyReturnTxHash r) \<noteq> [])"

text \<open>The rows that occur: their pair of statuses and what it says of custody.\<close>

definition row_ok :: "vault_redemption \<Rightarrow> bool" where
  "row_ok r = (case row_state r of
      (r_ownership_verified, rf_none) \<Rightarrow> never_in_custody r \<and> not_returned r
    | (r_in_custody, rf_none) \<Rightarrow> vr_custodyAt r \<noteq> None \<and> not_returned r
    | (r_in_custody, usdc_refunded) \<Rightarrow> vr_custodyAt r \<noteq> None \<and> not_returned r
    | (r_in_custody, nft_returned) \<Rightarrow> vr_custodyAt r \<noteq> None \<and> sent_back r
    | (r_burned, rf_none) \<Rightarrow> not_returned r
    | (r_completed, rf_none) \<Rightarrow> not_returned r
    | (r_refunded, fully_refunded) \<Rightarrow> (never_in_custody r \<and> not_returned r) \<or> sent_back r
    | _ \<Rightarrow> False)"

definition batches_agree :: "vault_redemption list \<Rightarrow> bool" where
  "batches_agree rs = (\<forall>r \<in> set rs. \<forall>q \<in> set rs. vr_paymentBatchId r = vr_paymentBatchId q \<longrightarrow>
     vr_paymentBatchId r \<noteq> None \<longrightarrow> usdc_is_refunded r = usdc_is_refunded q)"

definition rows_ok :: "vault_redemption list \<Rightarrow> bool" where
  "rows_ok rs = ((\<forall>r \<in> set rs. row_ok r) \<and> batches_agree rs)"

definition row_states :: "vault_redemption list \<Rightarrow> nat \<Rightarrow> (vault_redemption_status \<times> refund_status) option" where
  "row_states rs i = map_option row_state (find_key vr_id i rs)"

abbreviation rows_life :: "vault_redemption list \<Rightarrow> vault_redemption list \<Rightarrow> bool" where
  "rows_life rs rs' \<equiv> (life_step row_initial row_edge)\<^sup>*\<^sup>* (row_states rs) (row_states rs')"

text \<open>What a step may do to one row.\<close>

definition row_move :: "vault_redemption \<Rightarrow> vault_redemption \<Rightarrow> bool" where
  "row_move r r' = (vr_id r' = vr_id r \<and> vr_vaultCycleId r' = vr_vaultCycleId r
     \<and> vr_paymentBatchId r' = vr_paymentBatchId r \<and> row_ok r'
     \<and> (row_state r' = row_state r \<or> row_edge (row_state r) (row_state r')))"

lemma row_move_refl: "row_ok r \<Longrightarrow> row_move r r"
  by (simp add: row_move_def)

lemma row_ok_cases:
  assumes "row_ok r"
  obtains "vr_status r = r_ownership_verified" "vr_refundStatus r = rf_none" "never_in_custody r" "not_returned r"
  | "vr_status r = r_in_custody" "vr_refundStatus r = rf_none" "vr_custodyAt r \<noteq> None" "not_returned r"
  | "vr_status r = r_in_custody" "vr_refundStatus r = usdc_refunded" "vr_custodyAt r \<noteq> None" "not_returned r"
  | "vr_status r = r_in_custody" "vr_refundStatus r = nft_returned" "vr_custodyAt r \<noteq> None" "sent_back r"
  | "vr_status r = r_burned" "vr_refundStatus r = rf_none" "not_returned r"
  | "vr_status r = r_completed" "vr_refundStatus r = rf_none" "not_returned r"
  | "vr_status r = r_refunded" "vr_refundStatus r = fully_refunded"
    "never_in_custody r \<and> not_returned r \<or> sent_back r"
  using assms unfolding row_ok_def row_state_def
  by (cases "vr_status r"; cases "vr_refundStatus r"; simp)

lemma row_edge_open: "row_edge (row_state r) t \<Longrightarrow> open_redemption r"
  by (cases "vr_status r") (auto simp: row_state_def open_redemption_def elim: row_edgeE)

lemma row_move_open: "row_move r r' \<Longrightarrow> open_redemption r' \<Longrightarrow> open_redemption r"
  unfolding row_move_def using row_edge_open [of r] by (auto simp: row_state_def open_redemption_def)

lemma find_key_map_same:
  "(\<And>r. r \<in> set rs \<Longrightarrow> key (g r) = key r) \<Longrightarrow> find_key key i (map g rs) = map_option g (find_key key i rs)"
  by (induction rs) (auto simp: find_key_def)

lemma finite_row_states: "finite (dom (row_states rs))"
proof -
  have "dom (row_states rs) \<subseteq> vr_id ` set rs"
    by (force simp: row_states_def dest: find_key_Some)
  then show ?thesis by (rule finite_subset) simp
qed

lemma rows_map_ok:
  assumes ok: "rows_ok rs" and g: "\<And>r. r \<in> set rs \<Longrightarrow> row_move r (g r)"
    and agree: "\<And>r q. r \<in> set rs \<Longrightarrow> q \<in> set rs \<Longrightarrow> vr_paymentBatchId r = vr_paymentBatchId q \<Longrightarrow>
      vr_paymentBatchId r \<noteq> None \<Longrightarrow> usdc_is_refunded (g r) = usdc_is_refunded (g q)"
  shows "rows_ok (map g rs)" "rows_life rs (map g rs)"
proof -
  have same: "vr_id (g r) = vr_id r" "vr_paymentBatchId (g r) = vr_paymentBatchId r" "row_ok (g r)"
    if "r \<in> set rs" for r using g [OF that] by (simp_all add: row_move_def)
  have "batches_agree (map g rs)"
    unfolding batches_agree_def set_map ball_simps using same(2) agree by metis
  then show "rows_ok (map g rs)" using same(3) by (simp add: rows_ok_def)
  show "rows_life rs (map g rs)"
  proof (rule life_moves [OF finite_row_states])
    fix i
    have f: "find_key vr_id i (map g rs) = map_option g (find_key vr_id i rs)"
      by (rule find_key_map_same) (rule same(1))
    show "(\<exists>s t. row_states rs i = Some s \<and> row_states (map g rs) i = Some t \<and> (s = t \<or> row_edge s t))
      \<or> row_states rs i = None \<and> row_states (map g rs) i = None"
    proof (cases "find_key vr_id i rs")
      case (Some r)
      then have "row_move r (g r)" using find_key_Some g by metis
      then have "row_state r = row_state (g r) \<or> row_edge (row_state r) (row_state (g r))"
        unfolding row_move_def by metis
      then show ?thesis using Some f by (simp add: row_states_def)
    qed (simp add: row_states_def f)
  qed
qed

lemma rows_append_ok:
  assumes ok: "rows_ok rs" and new: "vr_id r \<notin> vr_id ` set rs" and r: "row_ok r" "row_initial (row_state r)"
    and batch: "\<And>q. q \<in> set rs \<Longrightarrow> vr_paymentBatchId q = vr_paymentBatchId r \<Longrightarrow>
      vr_paymentBatchId r \<noteq> None \<Longrightarrow> \<not> usdc_is_refunded q"
  shows "rows_ok (rs @ [r])" "rows_life rs (rs @ [r])"
proof -
  have "\<not> usdc_is_refunded r" using r(2) by (auto simp: row_initial_def row_state_def usdc_is_refunded_def)
  then have "batches_agree (rs @ [r])"
    using ok batch unfolding rows_ok_def batches_agree_def by (metis Un_iff empty_iff insert_iff list.set set_append)
  then show "rows_ok (rs @ [r])" using ok r(1) by (simp add: rows_ok_def)
  have "row_states (rs @ [r]) = (row_states rs)(vr_id r \<mapsto> row_state r)"
    using upsert_fresh [OF new] find_key_upsert [of vr_id _ r rs] by (auto simp: row_states_def fun_eq_iff)
  moreover have "row_states rs (vr_id r) = None" using new by (simp add: row_states_def find_key_None)
  ultimately show "rows_life rs (rs @ [r])"
    using r(2) by (metis life_step.appear r_into_rtranclp)
qed

section \<open>Cycles go back to minted on a refund only\<close>

definition custody_edge :: "vault_cycle_status \<Rightarrow> vault_cycle_status \<Rightarrow> bool" where
  "custody_edge s t = (cycle_edge s t \<or> s = redemption_requested \<and> t = minted)"

abbreviation custody_life :: "vault_db \<Rightarrow> vault_db \<Rightarrow> bool" where
  "custody_life db db' \<equiv> (life_step initial_cycle custody_edge)\<^sup>*\<^sup>* (cycle_statuses db) (cycle_statuses db')"

lemma life_step_mono:
  "life_step init edge f g \<Longrightarrow> (\<And>s t. edge s t \<Longrightarrow> edge' s t) \<Longrightarrow> life_step init edge' f g"
  by (elim life_stepE) (auto intro: life_step.intros)

lemma cycle_custody_life: "cycle_life db db' \<Longrightarrow> custody_life db db'"
  by (induction rule: rtranclp_induct)
     (auto intro: rtranclp.rtrancl_into_rtrancl life_step_mono simp: custody_edge_def)

lemma reset_cycle_redemptions [simp]:
  "vd_redemptions (reset_cycle now i db) = vd_redemptions db"
  "vd_redemptions (fold (reset_cycle now) ids db) = vd_redemptions db"
proof -
  show 1: "vd_redemptions (reset_cycle now i db) = vd_redemptions db" for i db
    by (simp add: reset_cycle_def split: option.split)
  show "vd_redemptions (fold (reset_cycle now) ids db) = vd_redemptions db"
    by (induction ids arbitrary: db) (simp_all add: 1)
qed

lemma reset_cycle_wf:
  assumes wf: "vault_wf db" and closed: "\<forall>r \<in> set (vd_redemptions db). open_redemption r \<longrightarrow> vr_vaultCycleId r \<noteq> i"
  shows "vault_wf (reset_cycle now i db)"
proof (cases "find_cycle i db")
  case (Some c)
  show ?thesis
  proof (cases "vc_status c = redemption_requested")
    case True
    have "vault_wf (save_cycle now (c\<lparr>vc_status := minted\<rparr>) db)"
      by (rule save_cycle_wf_gen [OF wf, of _ c])
         (use Some True closed find_cycle_Some [OF Some] in \<open>auto simp: open_cycle_def\<close>)
    then show ?thesis using Some True by (simp add: reset_cycle_def)
  qed (use wf Some in \<open>simp add: reset_cycle_def\<close>)
qed (use wf in \<open>simp add: reset_cycle_def\<close>)

lemma reset_cycle_life: "custody_life db (reset_cycle now i db)"
proof (cases "find_cycle i db")
  case (Some c)
  show ?thesis
  proof (cases "vc_status c = redemption_requested")
    case True
    have "cycle_statuses db i = Some redemption_requested" using Some True by (simp add: cycle_statuses_def)
    then have "custody_life db (save_cycle now (c\<lparr>vc_status := minted\<rparr>) db)"
      unfolding statuses_save using find_cycle_Some [OF Some]
      by (intro life_same [of _ _ redemption_requested]) (auto simp: custody_edge_def)
    then show ?thesis using Some True by (simp add: reset_cycle_def)
  qed (use Some in \<open>simp add: reset_cycle_def\<close>)
qed (simp add: reset_cycle_def)

lemma reset_cycles_ok:
  "vault_wf db \<Longrightarrow> \<forall>i \<in> set ids. \<forall>r \<in> set (vd_redemptions db). open_redemption r \<longrightarrow> vr_vaultCycleId r \<noteq> i \<Longrightarrow>
   vault_wf (fold (reset_cycle now) ids db) \<and> custody_life db (fold (reset_cycle now) ids db)"
proof (induction ids arbitrary: db)
  case (Cons i ids)
  have "vault_wf (reset_cycle now i db)" using Cons.prems by (intro reset_cycle_wf) auto
  then show ?case
    using Cons.IH [of "reset_cycle now i db"] Cons.prems(2) reset_cycle_life by (auto intro: rtranclp_trans)
qed simp

text \<open>
  A refund of cycle j happened between two tables: a redemption of j is refunded in the second
  one that was not in the first. A cycle of which no redemption was refunded keeps to the graph
  of custody, which has no way back from requested to minted; and a refund is never undone.
\<close>

definition refund_between :: "nat \<Rightarrow> vault_redemption list \<Rightarrow> vault_redemption list \<Rightarrow> bool" where
  "refund_between j rs rs' = (\<exists>r' \<in> set rs'. vr_vaultCycleId r' = j \<and> vr_status r' = r_refunded
     \<and> (\<forall>r \<in> set rs. vr_id r = vr_id r' \<longrightarrow> vr_status r \<noteq> r_refunded))"

definition refunds_kept :: "vault_redemption list \<Rightarrow> vault_redemption list \<Rightarrow> bool" where
  "refunds_kept rs rs' = (\<forall>r \<in> set rs. vr_status r = r_refunded \<longrightarrow> (\<exists>r' \<in> set rs'.
     vr_id r' = vr_id r \<and> vr_vaultCycleId r' = vr_vaultCycleId r \<and> vr_status r' = r_refunded))"

definition custody_forward :: "vault_db \<Rightarrow> vault_db \<Rightarrow> bool" where
  "custody_forward db db' = (refunds_kept (vd_redemptions db) (vd_redemptions db')
     \<and> (\<forall>j s. cycle_statuses db j = Some s \<longrightarrow> \<not> refund_between j (vd_redemptions db) (vd_redemptions db') \<longrightarrow>
          (\<exists>t. cycle_statuses db' j = Some t \<and> cycle_edge\<^sup>*\<^sup>* s t)))"

lemma refund_between_first:
  "refunds_kept b c \<Longrightarrow> refund_between j a b \<Longrightarrow> refund_between j a c"
  unfolding refund_between_def refunds_kept_def by (elim bexE) (metis (no_types, lifting))

lemma refund_between_second:
  "refunds_kept a b \<Longrightarrow> refund_between j b c \<Longrightarrow> refund_between j a c"
  unfolding refund_between_def refunds_kept_def by (elim bexE) (metis (no_types, lifting))

lemma custody_forward_trans:
  assumes 1: "custody_forward a b" and 2: "custody_forward b c"
  shows "custody_forward a c"
  unfolding custody_forward_def
proof (intro conjI allI impI)
  have k: "refunds_kept (vd_redemptions a) (vd_redemptions b)" "refunds_kept (vd_redemptions b) (vd_redemptions c)"
    using 1 2 by (simp_all add: custody_forward_def)
  from k show "refunds_kept (vd_redemptions a) (vd_redemptions c)"
    unfolding refunds_kept_def by (metis (no_types, lifting))
  fix j s
  assume s: "cycle_statuses a j = Some s" and n: "\<not> refund_between j (vd_redemptions a) (vd_redemptions c)"
  have "\<not> refund_between j (vd_redemptions a) (vd_redemptions b)" "\<not> refund_between j (vd_redemptions b) (vd_redemptions c)"
    using n refund_between_first [OF k(2)] refund_between_second [OF k(1)] by blast+
  then show "\<exists>t. cycle_statuses c j = Some t \<and> cycle_edge\<^sup>*\<^sup>* s t"
    using 1 2 s unfolding custody_forward_def by (meson rtranclp_trans)
qed

lemma life_forward:
  assumes "cycle_life db db'" "refunds_kept (vd_redemptions db) (vd_redemptions db')"
  shows "custody_forward db db'"
  using assms life_path [OF assms(1)] by (simp add: custody_forward_def)

lemma refunds_kept_same [simp]: "refunds_kept rs rs"
  by (auto simp: refunds_kept_def)

lemma custody_forward_refl: "custody_forward db db"
  by (simp add: custody_forward_def)

lemma refunds_kept_append [simp]: "refunds_kept rs (rs @ [r])"
  by (auto simp: refunds_kept_def)

lemma refunds_kept_moves:
  assumes "\<And>r. r \<in> set rs \<Longrightarrow> row_move r (g r)"
  shows "refunds_kept rs (map g rs)"
  unfolding refunds_kept_def
proof (intro ballI impI)
  fix r assume r: "r \<in> set rs" "vr_status r = r_refunded"
  then have "vr_id (g r) = vr_id r \<and> vr_vaultCycleId (g r) = vr_vaultCycleId r \<and> vr_status (g r) = r_refunded"
    using assms [OF r(1)] by (auto simp: row_move_def row_state_def)
  with r(1) show "\<exists>r' \<in> set (map g rs). vr_id r' = vr_id r \<and> vr_vaultCycleId r' = vr_vaultCycleId r \<and> vr_status r' = r_refunded"
    by auto
qed

lemma reset_cycle_others:
  "j \<noteq> i \<Longrightarrow> cycle_statuses (reset_cycle now i db) j = cycle_statuses db j"
  "j \<notin> set ids \<Longrightarrow> cycle_statuses (fold (reset_cycle now) ids db) j = cycle_statuses db j"
proof -
  show 1: "cycle_statuses (reset_cycle now i db) j = cycle_statuses db j" if "j \<noteq> i" for i db
    using that find_cycle_Some [of i db] by (auto simp: reset_cycle_def statuses_save split: option.split)
  show "j \<notin> set ids \<Longrightarrow> cycle_statuses (fold (reset_cycle now) ids db) j = cycle_statuses db j"
    by (induction ids arbitrary: db) (simp_all add: 1)
qed

section \<open>What a step of the flow keeps\<close>

definition redeem_inv :: "vault_db \<Rightarrow> bool" where
  "redeem_inv db = (vault_wf db \<and> rows_ok (vd_redemptions db))"

text \<open>
  No batch disappears or loses its refund, and a new row does not join a batch that was there,
  except one of B.
\<close>

definition batches_kept :: "string set \<Rightarrow> vault_redemption list \<Rightarrow> vault_redemption list \<Rightarrow> bool" where
  "batches_kept B rs rs' = ((\<forall>r \<in> set rs. \<exists>r' \<in> set rs'. vr_paymentBatchId r' = vr_paymentBatchId r)
     \<and> (\<forall>r' \<in> set rs'.
          (\<exists>r \<in> set rs. vr_paymentBatchId r = vr_paymentBatchId r' \<and> (usdc_is_refunded r \<longrightarrow> usdc_is_refunded r'))
          \<or> vr_paymentBatchId r' = None \<or> vr_paymentBatchId r' \<in> Some ` B
          \<or> (\<forall>r \<in> set rs. vr_paymentBatchId r \<noteq> vr_paymentBatchId r')))"

lemma batches_kept_refl [simp]: "batches_kept B rs rs"
  by (auto simp: batches_kept_def)

lemma batches_kept_trans:
  assumes 1: "batches_kept B a b" and 2: "batches_kept B b c"
  shows "batches_kept B a c"
  unfolding batches_kept_def
proof (intro conjI ballI)
  fix r assume "r \<in> set a"
  then obtain y where "y \<in> set b" "vr_paymentBatchId y = vr_paymentBatchId r"
    using bspec [OF conjunct1 [OF 1 [unfolded batches_kept_def]]] by blast
  then show "\<exists>r' \<in> set c. vr_paymentBatchId r' = vr_paymentBatchId r"
    using bspec [OF conjunct1 [OF 2 [unfolded batches_kept_def]]] by fastforce
next
  fix z assume z: "z \<in> set c"
  consider y where "y \<in> set b" "vr_paymentBatchId y = vr_paymentBatchId z" "usdc_is_refunded y \<longrightarrow> usdc_is_refunded z"
    | "vr_paymentBatchId z = None" | "vr_paymentBatchId z \<in> Some ` B"
    | "\<forall>r \<in> set b. vr_paymentBatchId r \<noteq> vr_paymentBatchId z"
    using bspec [OF conjunct2 [OF 2 [unfolded batches_kept_def]] z] by (elim disjE bexE conjE)
  then show "(\<exists>r \<in> set a. vr_paymentBatchId r = vr_paymentBatchId z \<and> (usdc_is_refunded r \<longrightarrow> usdc_is_refunded z))
      \<or> vr_paymentBatchId z = None \<or> vr_paymentBatchId z \<in> Some ` B
      \<or> (\<forall>r \<in> set a. vr_paymentBatchId r \<noteq> vr_paymentBatchId z)"
  proof cases
    case (1 y)
    note q = bspec [OF conjunct2 [OF assms(1) [unfolded batches_kept_def]] 1(1)]
    from q [unfolded 1(2)] 1(3) show ?thesis by blast
  next
    case 4
    have "vr_paymentBatchId r \<noteq> vr_paymentBatchId z" if r: "r \<in> set a" for r
    proof -
      obtain y where "y \<in> set b" "vr_paymentBatchId y = vr_paymentBatchId r"
        using bspec [OF conjunct1 [OF assms(1) [unfolded batches_kept_def]] r] by blast
      with 4 show ?thesis by fastforce
    qed
    then show ?thesis by blast
  qed simp_all
qed

lemma row_move_usdc: "row_move r r' \<Longrightarrow> usdc_is_refunded r \<Longrightarrow> usdc_is_refunded r'"
  unfolding row_move_def row_state_def usdc_is_refunded_def by (auto elim: row_edgeE)

lemma moves_kept:
  assumes "\<And>r. r \<in> set rs \<Longrightarrow> row_move r (g r)"
  shows "batches_kept B rs (map g rs)"
proof -
  have "vr_paymentBatchId r = vr_paymentBatchId (g r) \<and> (usdc_is_refunded r \<longrightarrow> usdc_is_refunded (g r))"
    if "r \<in> set rs" for r
    using row_move_usdc [OF assms [OF that]] assms [OF that] by (simp add: row_move_def)
  then show ?thesis unfolding batches_kept_def by (simp, blast)
qed

lemma append_kept:
  "vr_paymentBatchId r = None \<or> vr_paymentBatchId r \<in> Some ` B \<Longrightarrow> batches_kept B rs (rs @ [r])"
  unfolding batches_kept_def by auto

definition flow_ok :: "string set \<Rightarrow> vault_db \<Rightarrow> vault_db \<Rightarrow> bool" where
  "flow_ok B db db' = (redeem_inv db' \<and> rows_life (vd_redemptions db) (vd_redemptions db')
     \<and> batches_kept B (vd_redemptions db) (vd_redemptions db') \<and> custody_life db db' \<and> custody_forward db db')"

lemma flow_ok_same:
  "redeem_inv db \<Longrightarrow> vault_wf db' \<Longrightarrow> vd_redemptions db' = vd_redemptions db \<Longrightarrow> cycle_life db db' \<Longrightarrow> flow_ok B db db'"
  by (simp add: flow_ok_def redeem_inv_def cycle_custody_life life_forward)

lemma flow_ok_refl: "redeem_inv db \<Longrightarrow> flow_ok B db db"
  by (simp add: flow_ok_same redeem_inv_def)

lemma flow_ok_trans: "flow_ok B a b \<Longrightarrow> flow_ok B b c \<Longrightarrow> flow_ok B a c"
  unfolding flow_ok_def by (meson rtranclp_trans batches_kept_trans custody_forward_trans)

text \<open>Rows move and the other tables stay.\<close>

lemma moves_ok:
  assumes inv: "redeem_inv db" and db': "db' = db\<lparr>vd_redemptions := map g (vd_redemptions db)\<rparr>"
    and g: "\<And>r. r \<in> set (vd_redemptions db) \<Longrightarrow> row_move r (g r)"
    and agree: "\<And>r q. r \<in> set (vd_redemptions db) \<Longrightarrow> q \<in> set (vd_redemptions db) \<Longrightarrow>
      vr_paymentBatchId r = vr_paymentBatchId q \<Longrightarrow> vr_paymentBatchId r \<noteq> None \<Longrightarrow>
      usdc_is_refunded (g r) = usdc_is_refunded (g q)"
  shows "flow_ok B db db'"
proof -
  have wf: "vault_wf db" and ok: "rows_ok (vd_redemptions db)" using inv by (simp_all add: redeem_inv_def)
  have "vault_wf db'"
  proof (rule redemptions_map_wf [OF wf db'])
    fix r assume "r \<in> set (vd_redemptions db)"
    then have m: "row_move r (g r)" by (rule g)
    have "open_redemption (g r) \<longrightarrow> open_redemption r" by (intro impI row_move_open [OF m])
    then show "vr_id (g r) = vr_id r \<and> vr_vaultCycleId (g r) = vr_vaultCycleId r
      \<and> (open_redemption (g r) \<longrightarrow> open_redemption r)"
      using m by (simp add: row_move_def)
  qed
  moreover have "rows_ok (map g (vd_redemptions db))"
    by (rule rows_map_ok(1) [OF ok g agree])
  moreover have "rows_life (vd_redemptions db) (map g (vd_redemptions db))"
    by (rule rows_map_ok(2) [OF ok g agree])
  moreover have life: "cycle_life db db'"
    by (simp add: life_same_cycles db')
  moreover have "custody_forward db db'"
    by (rule life_forward [OF life]) (use refunds_kept_moves [OF g] in \<open>simp add: db'\<close>)
  moreover have "batches_kept B (vd_redemptions db) (map g (vd_redemptions db))"
    by (rule moves_kept [OF g])
  ultimately show ?thesis using cycle_custody_life unfolding flow_ok_def redeem_inv_def by (simp add: db')
qed

lemma one_move_ok:
  assumes inv: "redeem_inv db" and r: "find_redemption i db = Some r"
    and x: "row_move r x" "usdc_is_refunded x = usdc_is_refunded r"
  shows "flow_ok B db (save_redemption x db)"
proof (rule moves_ok [OF inv])
  have wf: "vault_wf db" and ok: "rows_ok (vd_redemptions db)" using inv by (simp_all add: redeem_inv_def)
  show "save_redemption x db = db\<lparr>vd_redemptions := map (\<lambda>y. if y = r then x else y) (vd_redemptions db)\<rparr>"
    by (rule save_one_map [OF wf r]) (use x in \<open>simp add: row_move_def\<close>)
  show "row_move y (if y = r then x else y)" if "y \<in> set (vd_redemptions db)" for y
    using that x ok by (simp add: rows_ok_def row_move_refl)
  show "usdc_is_refunded (if y = r then x else y) = usdc_is_refunded (if z = r then x else z)"
    if "y \<in> set (vd_redemptions db)" "z \<in> set (vd_redemptions db)"
      "vr_paymentBatchId y = vr_paymentBatchId z" "vr_paymentBatchId y \<noteq> None" for y z
  proof -
    have "usdc_is_refunded y = usdc_is_refunded z"
      using that ok unfolding rows_ok_def batches_agree_def by blast
    then show ?thesis using x(2) by (cases "y = r"; cases "z = r") simp_all
  qed
qed

lemma some_move_ok:
  assumes inv: "redeem_inv db" and rs: "distinct rs" "set rs \<subseteq> set (vd_redemptions db)"
    and f: "\<And>r. vr_id (f r) = vr_id r" "\<And>r. r \<in> set rs \<Longrightarrow> row_move r (f r)"
      "\<And>r. r \<in> set rs \<Longrightarrow> usdc_is_refunded (f r) = usdc_is_refunded r"
  shows "flow_ok B db (save_rows (map f rs) db)"
proof (rule moves_ok [OF inv])
  have wf: "vault_wf db" and ok: "rows_ok (vd_redemptions db)" using inv by (simp_all add: redeem_inv_def)
  show "save_rows (map f rs) db = db\<lparr>vd_redemptions := map (\<lambda>y. if y \<in> set rs then f y else y) (vd_redemptions db)\<rparr>"
    by (rule save_rows_map [OF wf rs f(1)])
  show "row_move y (if y \<in> set rs then f y else y)" if "y \<in> set (vd_redemptions db)" for y
    using that f(2) ok by (simp add: rows_ok_def row_move_refl)
  show "usdc_is_refunded (if y \<in> set rs then f y else y) = usdc_is_refunded (if z \<in> set rs then f z else z)"
    if "y \<in> set (vd_redemptions db)" "z \<in> set (vd_redemptions db)"
      "vr_paymentBatchId y = vr_paymentBatchId z" "vr_paymentBatchId y \<noteq> None" for y z
  proof -
    have "usdc_is_refunded y = usdc_is_refunded z"
      using that ok unfolding rows_ok_def batches_agree_def by blast
    then show ?thesis using f(3) by (cases "y \<in> set rs"; cases "z \<in> set rs") simp_all
  qed
qed

section \<open>Custody, release and receipt\<close>

lemmas row_defs = row_move_def row_ok_def row_state_def never_in_custody_def not_returned_def sent_back_def

lemma found_row_ok:
  assumes "redeem_inv db" "find_redemption i db = Some r"
  shows "row_ok r" "r \<in> set (vd_redemptions db)"
  using assms find_redemption_Some by (auto simp: redeem_inv_def rows_ok_def)

lemma take_flow:
  assumes inv: "redeem_inv db" and op: "markCustodyReceived now i tx db = Inr (r', db')"
  shows "flow_ok B db db'"
proof -
  from op obtain r where r: "find_redemption i db = Some r"
    by (auto simp: markCustodyReceived_def split: option.splits)
  note ok = found_row_ok(1) [OF inv r]
  let ?x = "r\<lparr>vr_custodyTxHash := Some (js_lower (js_trim tx)), vr_custodyAt := Some now, vr_status := r_in_custody\<rparr>"
  consider "db' = db" | "vr_status r = r_ownership_verified" "db' = save_redemption ?x db"
    using op r by (auto simp: markCustodyReceived_def Let_def split: if_splits)
  then show ?thesis
  proof cases
    case 2
    have "row_move r ?x" using ok 2(1) by (elim row_ok_cases) (simp_all add: row_defs)
    then show ?thesis unfolding 2(2) by (rule one_move_ok [OF inv r]) (simp add: usdc_is_refunded_def)
  qed (use flow_ok_refl inv in simp)
qed

lemma release_flow:
  assumes inv: "redeem_inv db" and op: "confirmVaultRelease now i db = Inr (r', db')"
  shows "flow_ok B db db'"
proof -
  from op obtain r where r: "find_redemption i db = Some r" "vr_status r = r_burned"
    "db' = save_redemption (r\<lparr>vr_status := r_completed, vr_vaultReleasedAt := Some now\<rparr>) db"
    by (auto simp: confirmVaultRelease_def Let_def split: option.splits if_splits)
  have "row_move r (r\<lparr>vr_status := r_completed, vr_vaultReleasedAt := Some now\<rparr>)"
    using found_row_ok(1) [OF inv r(1)] r(2) by (elim row_ok_cases) (simp_all add: row_defs)
  then show ?thesis unfolding r(3) by (rule one_move_ok [OF inv r(1)]) (simp add: usdc_is_refunded_def)
qed

lemma receipt_row_fields [simp]:
  "vr_paymentBatchId (receipt_row ts via r) = vr_paymentBatchId r"
  "vr_refundStatus (receipt_row ts via r) = vr_refundStatus r"
  "vr_custodyReturnedAt (receipt_row ts via r) = vr_custodyReturnedAt r"
  "vr_custodyReturnTxHash (receipt_row ts via r) = vr_custodyReturnTxHash r"
  "usdc_is_refunded (receipt_row ts via r) = usdc_is_refunded r"
  by (simp_all add: receipt_row_def usdc_is_refunded_def)

lemma receipt_row_move:
  assumes "row_ok r" "vr_refundStatus r = rf_none" "receipt_eligible (vr_status r)"
  shows "row_move r (receipt_row ts via r)"
  using assms by (elim row_ok_cases) (simp_all add: row_defs receipt_eligible_def)

lemma receipt_flow:
  assumes inv: "redeem_inv db" and rs: "distinct rows" "set rows \<subseteq> set (vd_redemptions db)"
    and q: "\<forall>r \<in> set rows. vr_refundStatus r = rf_none \<and> receipt_eligible (vr_status r)"
    and op: "markUserReceiptConfirmed ts via rows db = (rows', db')"
  shows "flow_ok B db db'"
proof (cases "rows = []")
  case False
  let ?f = "receipt_row ts (case via of None \<Rightarrow> via_user | Some v \<Rightarrow> v)"
  have db': "db' = save_rows (map ?f rows) db"
    using op False by (auto simp: markUserReceiptConfirmed_def Let_def save_rows_def)
  have "row_move r (?f r)" if "r \<in> set rows" for r
  proof (rule receipt_row_move)
    show "row_ok r" using inv rs(2) that by (auto simp: redeem_inv_def rows_ok_def)
  qed (use q that in auto)
  then show ?thesis unfolding db' by (intro some_move_ok [OF inv rs]) simp_all
qed (use op flow_ok_refl [OF inv] in \<open>simp add: markUserReceiptConfirmed_def\<close>)

text \<open>Edits: what they write is not read by the life of a redemption.\<close>

definition same_place :: "vault_redemption \<Rightarrow> vault_redemption \<Rightarrow> bool" where
  "same_place r r' = (vr_id r' = vr_id r \<and> vr_vaultCycleId r' = vr_vaultCycleId r
     \<and> vr_paymentBatchId r' = vr_paymentBatchId r \<and> row_state r' = row_state r
     \<and> vr_custodyAt r' = vr_custodyAt r \<and> vr_custodyTxHash r' = vr_custodyTxHash r
     \<and> vr_custodyReturnedAt r' = vr_custodyReturnedAt r
     \<and> vr_custodyReturnTxHash r' = vr_custodyReturnTxHash r)"

lemma same_place_ok:
  assumes "same_place r r'"
  shows "row_ok r' = row_ok r"
proof -
  have eqs: "row_state r' = row_state r" "never_in_custody r' = never_in_custody r"
    "not_returned r' = not_returned r" "sent_back r' = sent_back r" "vr_custodyAt r' = vr_custodyAt r"
    using assms by (simp_all add: same_place_def never_in_custody_def not_returned_def sent_back_def)
  show ?thesis unfolding row_ok_def eqs ..
qed

lemma same_place_usdc: "same_place r r' \<Longrightarrow> usdc_is_refunded r' = usdc_is_refunded r"
  by (simp add: same_place_def row_state_def usdc_is_refunded_def)

lemma same_place_move: "same_place r r' \<Longrightarrow> row_ok r \<Longrightarrow> row_move r r'"
  by (simp add: row_move_def same_place_ok) (simp add: same_place_def)

lemma edit_flow:
  assumes inv: "redeem_inv db" and rs: "distinct rs" "set rs \<subseteq> set (vd_redemptions db)"
    and f: "\<And>r. same_place r (f r)"
  shows "flow_ok B db (save_rows (map f rs) db)"
proof (rule some_move_ok [OF inv rs])
  show "vr_id (f r) = vr_id r" for r using f [of r] by (simp add: same_place_def)
  show "row_move r (f r)" if "r \<in> set rs" for r
    using same_place_move [OF f] inv rs(2) that by (auto simp: redeem_inv_def rows_ok_def)
  show "usdc_is_refunded (f r) = usdc_is_refunded r" for r by (rule same_place_usdc [OF f])
qed

section \<open>Burns\<close>

lemma open_of_cycle:
  assumes wf: "vault_wf db" and r: "r \<in> set (vd_redemptions db)" "open_redemption r" "vr_vaultCycleId r = i"
  shows "findOpenRedemptionForCycle i db = Some r"
proof -
  have "filter (\<lambda>r. vr_vaultCycleId r = i \<and> open_redemption r) (vd_redemptions db) \<noteq> []"
    using r by (auto simp: filter_empty_conv)
  then obtain q where q: "findOpenRedemptionForCycle i db = Some q"
    unfolding findOpenRedemptionForCycle_def by (metis latest_by_None not_Some_eq)
  then have "q \<in> set (vd_redemptions db)" "open_redemption q" "vr_vaultCycleId q = i"
    unfolding findOpenRedemptionForCycle_def by (auto dest: latest_by_filter)
  then have "q = r" using one_open_redemption [OF wf] r by metis
  with q show ?thesis by simp
qed

lemma burn_flow:
  assumes inv: "redeem_inv db" and chk: "check_open_redeem c i db = Inr ()"
  shows "flow_ok B db (completeRedemptionBurn now c (nat_str i) tx by db)"
proof (cases rule: completeBurn_cases [of c "nat_str i" db now tx "by"])
  case 1
  then show ?thesis using flow_ok_refl [OF inv] by simp
next
  case (2 t)
  have wf: "vault_wf (completeRedemptionBurn now c (nat_str i) tx by db)"
    using inv completeBurn_wf by (simp add: redeem_inv_def)
  show ?thesis
    by (rule flow_ok_same [OF inv wf]) (simp_all add: 2(3) life_same_cycles)
next
  case (3 t j cy db1 db2 r db3)
  let ?db = "completeRedemptionBurn now c (nat_str i) tx by db"
  let ?r = "r\<lparr>vr_status := (if vr_status r = r_completed then r_completed else r_burned),
      vr_burnTxHash := Some tx, vr_burnedAt := Some now\<rparr>"
  have wf: "vault_wf db" and ok: "rows_ok (vd_redemptions db)" using inv by (simp_all add: redeem_inv_def)
  have same: "vd_redemptions db2 = vd_redemptions db" "vd_next db2 = vd_next db" by (simp_all add: 3(3,5))
  have life: "cycle_life db ?db" by (rule burn_life [OF wf])
  have fin: "flow_ok B db ?db" if "vd_redemptions ?db = rs" "rows_ok rs \<and> rows_life (vd_redemptions db) rs"
      "batches_kept B (vd_redemptions db) rs" "refunds_kept (vd_redemptions db) rs" for rs
    using that life cycle_custody_life [OF life] life_forward [OF life] completeBurn_wf [OF wf]
    by (simp add: flow_ok_def redeem_inv_def)
  have move: "flow_ok B db ?db" if r: "r \<in> set (vd_redemptions db)" "row_move r ?r" "db3 = db2"
  proof -
    have f: "find_redemption (vr_id r) db = Some r" by (rule find_redemption_member [OF wf r(1)])
    have "flow_ok B db (save_redemption ?r db)"
      by (rule one_move_ok [OF inv f r(2)]) (simp add: usdc_is_refunded_def)
    moreover have "vd_redemptions ?db = vd_redemptions (save_redemption ?r db)"
      unfolding 3(7) r(3) save_tables same ..
    ultimately show ?thesis using fin by (simp add: flow_ok_def redeem_inv_def custody_forward_def)
  qed
  show ?thesis
  proof (cases rule: burn_redemption_cases [OF 3(6)])
    case b: 1
    have r: "r \<in> set (vd_redemptions db)" using b same by simp
    have "findOpenRedemptionForCycle j db = Some r" using b open_of_cycle [OF wf r] by blast
    moreover have "row_ok r" using ok r by (simp add: rows_ok_def)
    ultimately have "row_move r ?r"
      using chk 3(1,2) by (elim row_ok_cases) (auto simp: check_open_redeem_def row_defs split: if_splits)
    then show ?thesis by (rule move [OF r _ b(1)])
  next
    case b: 2
    have r: "r \<in> set (vd_redemptions db)" using b same by simp
    have "row_ok r" using ok r by (simp add: rows_ok_def)
    then have "row_move r ?r" using b(4) by (elim row_ok_cases) (simp_all add: row_defs)
    then show ?thesis by (rule move [OF r _ b(1)])
  next
    case b: 3
    have new: "vr_id ?r \<notin> vr_id ` set (vd_redemptions db)"
      using wf b same by (auto simp: wf_defs blank_redemption_def)
    have "row_ok ?r" "row_initial (row_state ?r)" "vr_paymentBatchId ?r = None"
      unfolding b(2) by (simp_all add: row_defs row_initial_def blank_redemption_def)
    then have "rows_ok (vd_redemptions db @ [?r]) \<and> rows_life (vd_redemptions db) (vd_redemptions db @ [?r])"
      using rows_append_ok [OF ok new] by simp
    moreover have "batches_kept B (vd_redemptions db) (vd_redemptions db @ [?r])"
      by (rule append_kept) (simp add: b(2) blank_redemption_def)
    moreover have "vd_redemptions ?db = vd_redemptions db @ [?r]"
      using upsert_fresh [OF new] by (simp add: 3(7) b(1) save_tables same)
    ultimately show ?thesis using fin by simp
  qed
qed

section \<open>Refunds and returns\<close>

lemma set_batch_rows: "set (batch_rows b db) = {r \<in> set (vd_redemptions db). vr_paymentBatchId r = Some b}"
  by (auto simp: batch_rows_def order_asc_def)

lemma distinct_batch_rows: "vault_wf db \<Longrightarrow> distinct (batch_rows b db)"
  using redemption_rows by (simp add: batch_rows_def order_asc_def)

lemma assertRefundable_Inr:
  "assertRefundable rows = Inr () \<longleftrightarrow> rows \<noteq> [] \<and> (\<forall>r \<in> set rows. \<not> has_tracking r \<and> \<not> refund_blocked (vr_status r))"
  by (auto simp: assertRefundable_def list_ex_iff)

lemma applyUsdc_fields [simp]:
  "vr_id (applyUsdcRefundFields tx m ts r) = vr_id r"
  "vr_vaultCycleId (applyUsdcRefundFields tx m ts r) = vr_vaultCycleId r"
  "vr_paymentBatchId (applyUsdcRefundFields tx m ts r) = vr_paymentBatchId r"
  "usdc_is_refunded (applyUsdcRefundFields tx m ts r)"
  by (simp_all add: applyUsdcRefundFields_def Let_def usdc_is_refunded_def)

lemma applyUsdc_move:
  assumes "row_ok r" "\<not> usdc_is_refunded r" "\<not> refund_blocked (vr_status r)"
  shows "row_move r (applyUsdcRefundFields tx m ts r)"
  using assms
  by (elim row_ok_cases)
     (auto simp: row_defs applyUsdcRefundFields_def Let_def usdc_is_refunded_def refund_blocked_def
        nftReturned_def wasEverInCustody_def or_empty_def)

text \<open>A row that a step closes was the open one of its cycle.\<close>

lemma closed_cycle_ok:
  assumes wf: "vault_wf db" and wf': "vault_wf db'"
    and rows: "vd_redemptions db' = map g (vd_redemptions db)"
    and g: "\<And>r. r \<in> set (vd_redemptions db) \<Longrightarrow> row_move r (g r)"
    and r: "r \<in> set (vd_redemptions db)" "open_redemption r" "\<not> open_redemption (g r)"
  shows "\<forall>q \<in> set (vd_redemptions db'). open_redemption q \<longrightarrow> vr_vaultCycleId q \<noteq> vr_vaultCycleId (g r)"
proof (intro ballI impI notI)
  fix q' assume q': "q' \<in> set (vd_redemptions db')" "open_redemption q'" "vr_vaultCycleId q' = vr_vaultCycleId (g r)"
  then obtain q where q: "q \<in> set (vd_redemptions db)" "q' = g q" using rows by auto
  have "open_redemption q" using row_move_open [OF g [OF q(1)]] q' q(2) by simp
  moreover have "vr_vaultCycleId q = vr_vaultCycleId r"
    using g [OF q(1)] g [OF r(1)] q' q(2) by (simp add: row_move_def)
  ultimately have "q = r" by (intro one_open_redemption [OF wf q(1) r(1)] r(2)) simp_all
  then show False using q' q(2) r(3) by simp
qed

text \<open>A row that a move refunds is a refund of its cycle.\<close>

lemma refunded_now:
  assumes wf: "vault_wf db" and rows: "vd_redemptions db1 = map g (vd_redemptions db)"
    and g: "\<And>r. r \<in> set (vd_redemptions db) \<Longrightarrow> row_move r (g r)"
    and new: "\<And>r. r \<in> set rs \<Longrightarrow> \<exists>b \<in> set (vd_redemptions db). r = g b \<and> open_redemption b"
    and r: "r \<in> set rs" "vr_status r = r_refunded"
  shows "refund_between (vr_vaultCycleId r) (vd_redemptions db) (vd_redemptions db1)"
proof -
  obtain b where b: "b \<in> set (vd_redemptions db)" "r = g b" "open_redemption b" using new [OF r(1)] by blast
  have "vr_id r = vr_id b" using g [OF b(1)] by (simp add: b(2) row_move_def)
  moreover have "q = b" if "q \<in> set (vd_redemptions db)" "vr_id q = vr_id b" for q
    using redemption_ids [OF wf] that b(1) by (metis find_key_member option.inject)
  ultimately have "\<forall>q \<in> set (vd_redemptions db). vr_id q = vr_id r \<longrightarrow> vr_status q \<noteq> r_refunded"
    using b(3) by (auto simp: open_redemption_def)
  then show ?thesis using b r(2) unfolding refund_between_def rows by auto
qed

text \<open>Moves, and then the reset of the cycles of the rows that they refund.\<close>

lemma moves_reset_ok:
  assumes inv: "redeem_inv db" and ok: "flow_ok B db db1"
    and rows: "vd_redemptions db1 = map g (vd_redemptions db)"
    and g: "\<And>r. r \<in> set (vd_redemptions db) \<Longrightarrow> row_move r (g r)"
    and new: "\<And>r. r \<in> set rs \<Longrightarrow> \<exists>b \<in> set (vd_redemptions db). r = g b \<and> open_redemption b"
  shows "flow_ok B db (resetCyclesIfRefunded now rs db1)"
proof -
  have wf: "vault_wf db" "vault_wf db1" using inv ok by (simp_all add: redeem_inv_def flow_ok_def)
  have "\<forall>q \<in> set (vd_redemptions db1). open_redemption q \<longrightarrow> vr_vaultCycleId q \<noteq> i"
    if i: "i \<in> set (js_unique (map vr_vaultCycleId (filter (\<lambda>r. vr_status r = r_refunded) rs)))" for i
  proof -
    obtain r where r: "r \<in> set rs" "vr_status r = r_refunded" "vr_vaultCycleId r = i"
      using i by (auto simp: set_js_unique)
    then obtain b where b: "b \<in> set (vd_redemptions db)" "r = g b" "open_redemption b" using new by blast
    have "\<not> open_redemption (g b)" using r(2) b(2) by (simp add: open_redemption_def)
    from closed_cycle_ok [OF wf rows g b(1,3) this] show ?thesis using r(3) b(2) by simp
  qed
  then have w: "vault_wf (resetCyclesIfRefunded now rs db1) \<and> custody_life db1 (resetCyclesIfRefunded now rs db1)"
    unfolding resetCyclesIfRefunded_def by (intro reset_cycles_ok [OF wf(2)]) blast
  have same: "vd_redemptions (resetCyclesIfRefunded now rs db1) = vd_redemptions db1"
    by (simp add: resetCyclesIfRefunded_def)
  have fwd: "custody_forward db db1" using ok by (simp add: flow_ok_def)
  have "cycle_statuses (resetCyclesIfRefunded now rs db1) j = cycle_statuses db1 j"
    if "\<not> refund_between j (vd_redemptions db) (vd_redemptions db1)" for j
    unfolding resetCyclesIfRefunded_def
  proof (rule reset_cycle_others(2))
    show "j \<notin> set (js_unique (map vr_vaultCycleId (filter (\<lambda>r. vr_status r = r_refunded) rs)))"
      using that refunded_now [OF wf(1) rows g new] by (auto simp: set_js_unique)
  qed
  with fwd have "custody_forward db (resetCyclesIfRefunded now rs db1)"
    unfolding custody_forward_def same by metis
  then show ?thesis
    using ok w same unfolding flow_ok_def redeem_inv_def by (metis rtranclp_trans)
qed

lemma none_refunded:
  assumes inv: "redeem_inv db" and n: "\<not> list_all usdc_is_refunded (batch_rows b db)"
    and r: "r \<in> set (batch_rows b db)"
  shows "\<not> usdc_is_refunded r"
proof -
  obtain q where "q \<in> set (batch_rows b db)" "\<not> usdc_is_refunded q" using n by (auto simp: list_all_iff)
  then show ?thesis
    using inv r unfolding redeem_inv_def rows_ok_def batches_agree_def set_batch_rows by fastforce
qed

lemma refund_flow:
  assumes inv: "redeem_inv db" and chk: "assertRefundable (batch_rows b db) = Inr ()"
    and n: "\<not> list_all usdc_is_refunded (batch_rows b db)"
  shows "flow_ok B db (settle_refund now tx m (batch_rows b db) db)"
proof -
  let ?f = "applyUsdcRefundFields tx m now"
  let ?rs = "batch_rows b db"
  let ?g = "\<lambda>y. if y \<in> set ?rs then ?f y else y"
  have wf: "vault_wf db" and ok: "rows_ok (vd_redemptions db)" using inv by (simp_all add: redeem_inv_def)
  have eq: "save_rows (map ?f ?rs) db = db\<lparr>vd_redemptions := map ?g (vd_redemptions db)\<rparr>"
    by (rule save_rows_map [OF wf distinct_batch_rows [OF wf]]) (auto simp: set_batch_rows)
  have mv: "row_move r (?f r)" if r: "r \<in> set ?rs" for r
    by (rule applyUsdc_move)
       (use r chk none_refunded [OF inv n r] ok in \<open>auto simp: assertRefundable_Inr rows_ok_def set_batch_rows\<close>)
  have g: "row_move y (?g y)" if "y \<in> set (vd_redemptions db)" for y
    using mv ok that by (simp add: rows_ok_def row_move_refl)
  have fl: "flow_ok B db (save_rows (map ?f ?rs) db)"
  proof (rule moves_ok [OF inv eq g])
    fix y z assume yz: "y \<in> set (vd_redemptions db)" "z \<in> set (vd_redemptions db)"
      "vr_paymentBatchId y = vr_paymentBatchId z" "vr_paymentBatchId y \<noteq> None"
    then have "usdc_is_refunded y = usdc_is_refunded z"
      using ok unfolding rows_ok_def batches_agree_def by blast
    moreover have "y \<in> set ?rs \<longleftrightarrow> z \<in> set ?rs" using yz by (auto simp: set_batch_rows)
    ultimately show "usdc_is_refunded (?g y) = usdc_is_refunded (?g z)" by simp
  qed
  have "\<exists>c \<in> set (vd_redemptions db). r = ?g c \<and> open_redemption c" if r: "r \<in> set (map ?f ?rs)" for r
  proof -
    obtain c where c: "c \<in> set ?rs" "r = ?f c" using r by auto
    have "row_state (?f c) \<noteq> row_state c"
      using none_refunded [OF inv n c(1)] applyUsdc_fields(4) [of tx m now c]
      unfolding row_state_def usdc_is_refunded_def by (metis prod.inject)
    then have "open_redemption c" using mv [OF c(1)] row_edge_open unfolding row_move_def by blast
    then show ?thesis using c by (auto simp: set_batch_rows)
  qed
  then show ?thesis
    unfolding settle_refund_def Let_def by (intro moves_reset_ok [OF inv fl _ g]) (simp_all add: eq)
qed

lemma return_fields_simps [simp]:
  "vr_id (return_fields h now r) = vr_id r" "vr_vaultCycleId (return_fields h now r) = vr_vaultCycleId r"
  "vr_paymentBatchId (return_fields h now r) = vr_paymentBatchId r"
  "usdc_is_refunded (return_fields h now r) = usdc_is_refunded r"
  by (auto simp: return_fields_def Let_def usdc_is_refunded_def)

lemma return_open:
  assumes "row_ok r" "wasEverInCustody r" "\<not> sent_back r" "\<not> refund_blocked (vr_status r)"
  shows "vr_status r = r_in_custody" "not_returned r" "vr_refundStatus r = rf_none \<or> vr_refundStatus r = usdc_refunded"
  using assms
  by (elim row_ok_cases; auto simp: wasEverInCustody_def never_in_custody_def refund_blocked_def or_empty_def)+

lemma return_move:
  assumes "row_ok r" "wasEverInCustody r" "\<not> sent_back r" "\<not> refund_blocked (vr_status r)" "h \<noteq> []"
  shows "row_move r (return_fields h now r)" "open_redemption r"
  using assms return_open [OF assms(1-4)]
  by (auto simp: row_defs return_fields_def Let_def usdc_is_refunded_def or_empty_def open_redemption_def
      elim!: row_ok_cases)

lemma return_flow:
  assumes inv: "redeem_inv db" and r: "find_redemption i db = Some r"
    and q: "assertRefundable [r] = Inr ()" "\<not> sent_back r" "wasEverInCustody r" "h \<noteq> []"
  shows "flow_ok B db (resetCyclesIfRefunded now [return_fields h now r] (save_redemption (return_fields h now r) db))"
proof -
  let ?x = "return_fields h now r"
  let ?g = "\<lambda>y. if y = r then ?x else y"
  have wf: "vault_wf db" and ok: "rows_ok (vd_redemptions db)" using inv by (simp_all add: redeem_inv_def)
  note f = found_row_ok [OF inv r]
  have mv: "row_move r ?x" and op: "open_redemption r"
    using return_move [OF f(1) q(3,2) _ q(4)] q(1) by (simp_all add: assertRefundable_Inr)
  have g: "row_move y (?g y)" if "y \<in> set (vd_redemptions db)" for y
    using mv ok that by (simp add: rows_ok_def row_move_refl)
  have fl: "flow_ok B db (save_redemption ?x db)" by (rule one_move_ok [OF inv r mv]) simp
  show ?thesis
    by (rule moves_reset_ok [OF inv fl _ g])
       (use f(2) op save_one_map [OF wf r, of ?x] in auto)
qed

section \<open>Paid batches\<close>

lemma with_ship_to_fields [simp]:
  "vr_refundStatus (with_ship_to s r) = vr_refundStatus r" "vr_custodyAt (with_ship_to s r) = vr_custodyAt r"
  "vr_custodyTxHash (with_ship_to s r) = vr_custodyTxHash r"
  "vr_custodyReturnedAt (with_ship_to s r) = vr_custodyReturnedAt r"
  "vr_custodyReturnTxHash (with_ship_to s r) = vr_custodyReturnTxHash r"
  by (simp_all add: with_ship_to_def)

lemma blank_fields [simp]:
  "vr_refundStatus (blank_redemption i c now w) = rf_none" "vr_custodyAt (blank_redemption i c now w) = None"
  "vr_custodyTxHash (blank_redemption i c now w) = None"
  "vr_custodyReturnedAt (blank_redemption i c now w) = None"
  "vr_custodyReturnTxHash (blank_redemption i c now w) = None"
  by (simp_all add: blank_redemption_def)

lemma paid_row_new:
  assumes "paid_row_for_cycle now cl paidAt ch it i db = Inr (r, db')"
  shows "row_ok r" "row_state r = (r_ownership_verified, rf_none)"
  using assms unfolding paid_row_for_cycle_def Let_def
  by (auto simp: row_defs split: option.splits if_splits)

definition batch_unrefunded :: "string \<Rightarrow> vault_db \<Rightarrow> bool" where
  "batch_unrefunded b db = (\<forall>q \<in> set (vd_redemptions db). vr_paymentBatchId q = Some b \<longrightarrow> \<not> usdc_is_refunded q)"

lemma paid_row_flow:
  assumes inv: "redeem_inv db" and b: "batch_unrefunded (pc_paymentBatchId cl) db"
    and op: "paid_row_for_cycle now cl paidAt ch it i db = Inr (r, db')"
  shows "flow_ok {pc_paymentBatchId cl} db db' \<and> batch_unrefunded (pc_paymentBatchId cl) db'"
proof -
  have wf: "vault_wf db" and ok: "rows_ok (vd_redemptions db)" using inv by (simp_all add: redeem_inv_def)
  note new = paid_row_new [OF op]
  from op obtain c where c: "find_cycle i db = Some c" "vc_status c = minted"
    and r: "vr_id r = vd_next db" "vr_paymentBatchId r = Some (pc_paymentBatchId cl)"
    and db': "db' = save_cycle now (c\<lparr>vc_status := redemption_requested\<rparr>)
      (save_redemption r (db\<lparr>vd_next := vd_next db + 1\<rparr>))"
    by (rule paid_row_Inr)
  have fresh: "vr_id r \<notin> vr_id ` set (vd_redemptions db)" using wf r(1) by (auto simp: wf_defs)
  have rows: "vd_redemptions db' = vd_redemptions db @ [r]"
    using upsert_fresh [OF fresh] by (simp add: db' save_tables)
  have init: "row_initial (row_state r)" by (simp add: new(2) row_initial_def)
  have "rows_ok (vd_redemptions db @ [r]) \<and> rows_life (vd_redemptions db) (vd_redemptions db @ [r])"
    using rows_append_ok [OF ok fresh new(1) init] b r(2) by (simp add: batch_unrefunded_def)
  moreover have life: "cycle_life db db'"
    unfolding db' by (rule request_life [OF c])
  moreover have "custody_forward db db'" by (rule life_forward [OF life]) (simp add: rows)
  moreover have "vault_wf db'" using paid_row_wf [OF wf op] by simp
  moreover have "\<not> usdc_is_refunded r" using new(2) by (simp add: row_state_def usdc_is_refunded_def)
  then have "batch_unrefunded (pc_paymentBatchId cl) db'" using b by (simp add: batch_unrefunded_def rows)
  moreover have "batches_kept {pc_paymentBatchId cl} (vd_redemptions db) (vd_redemptions db @ [r])"
    by (rule append_kept) (simp add: r(2))
  ultimately show ?thesis using cycle_custody_life by (simp add: flow_ok_def redeem_inv_def rows)
qed

lemma insertPaidRow_flow:
  assumes inv: "redeem_inv db" and b: "batch_unrefunded (pc_paymentBatchId cl) db"
    and op: "insertPaidRedemptionRow k now cl paidAt ch it db = Inr (r, db')"
  shows "flow_ok {pc_paymentBatchId cl} db db' \<and> batch_unrefunded (pc_paymentBatchId cl) db'"
proof -
  have wf: "vault_wf db" using inv by (simp add: redeem_inv_def)
  from op obtain t i db1 where
    1: "(case rt_vaultCycleId t of Some i \<Rightarrow> Inr (i, db) | None \<Rightarrow> backfillCycleForToken k now t ch db) = Inr (i, db1)"
    and p: "paid_row_for_cycle now cl paidAt ch it i db1 = Inr (r, db')"
    by (rule insertPaidRow_Inr)
  have "flow_ok {pc_paymentBatchId cl} db db1 \<and> vd_redemptions db1 = vd_redemptions db"
  proof (cases "rt_vaultCycleId t")
    case None
    then have f: "backfillCycleForToken k now t ch db = Inr (i, db1)" using 1 by simp
    note w = backfillCycle_ok [OF wf f]
    then show ?thesis
      using flow_ok_same [OF inv] backfill_life [OF wf f] by simp
  qed (use 1 flow_ok_refl [OF inv] in simp)
  then have fl: "flow_ok {pc_paymentBatchId cl} db db1" and b1: "batch_unrefunded (pc_paymentBatchId cl) db1"
    using b by (simp_all add: batch_unrefunded_def)
  have "redeem_inv db1" using fl by (simp add: flow_ok_def)
  from paid_row_flow [OF this b1 p] show ?thesis using flow_ok_trans [OF fl] by blast
qed

lemma insert_paid_rows_flow:
  "redeem_inv db \<Longrightarrow> batch_unrefunded (pc_paymentBatchId cl) db \<Longrightarrow>
   insert_paid_rows k now cl paidAt ch items db = Inr (out, db') \<Longrightarrow>
   flow_ok {pc_paymentBatchId cl} db db' \<and> batch_unrefunded (pc_paymentBatchId cl) db'"
proof (induction items arbitrary: db out)
  case Nil
  then show ?case using flow_ok_refl by simp
next
  case (Cons it items)
  then obtain r db1 out' where 1: "insertPaidRedemptionRow k now cl paidAt ch it db = Inr (r, db1)"
    and 2: "insert_paid_rows k now cl paidAt ch items db1 = Inr (out', db')"
    by (auto simp: on_ok_eq_Inr)
  note a = insertPaidRow_flow [OF Cons.prems(1,2) 1]
  then have "redeem_inv db1" by (simp add: flow_ok_def)
  with Cons.IH [OF _ _ 2] a show ?case using flow_ok_trans by blast
qed

lemma flow_ok_fresh:
  assumes "flow_ok {pc_paymentBatchId cl} db db'"
    and "\<forall>r \<in> set (vd_redemptions db). vr_paymentBatchId r \<noteq> Some b" and "pc_paymentBatchId cl = b"
  shows "flow_ok B db db'"
  using assms unfolding flow_ok_def batches_kept_def by (simp, metis)

lemma paid_flow:
  assumes inv: "redeem_inv db" and fresh: "\<forall>r \<in> set (vd_redemptions db). vr_paymentBatchId r \<noteq> Some (js_trim b)"
    and op: "createPaidRedemptionBatch k now tx b m paidAt ch items db = Inr (out, db')"
  shows "flow_ok B db db'"
  using op
proof (rule createPaidBatch_Inr)
  fix cl db1
  assume cl: "cl = \<lparr>pc_paymentTxHash = js_lower (js_trim tx), pc_paymentBatchId = js_trim b,
      pc_paymentReceivedUsdcMicros = Some m, pc_chainId = Some ch\<rparr>"
    and 1: "insertPaymentClaimOrConflict cl db = Inr db1"
    and 2: "insert_paid_rows k now cl paidAt ch items db1 = Inr (out, db')"
  have bi: "pc_paymentBatchId cl = js_trim b" by (simp add: cl)
  have wf: "vault_wf db" using inv by (simp add: redeem_inv_def)
  have rows: "vd_redemptions db1 = vd_redemptions db" "vd_cycles db1 = vd_cycles db"
    using insertPaymentClaim_Inr [OF 1] by simp_all
  have fl: "flow_ok {pc_paymentBatchId cl} db db1"
    using flow_ok_same [OF inv] insertPaymentClaim_wf [OF wf 1] rows
      life_same_cycles [OF rows(2)] by blast
  have "batch_unrefunded (pc_paymentBatchId cl) db1" using fresh by (simp add: batch_unrefunded_def rows cl)
  moreover have "redeem_inv db1" using fl by (simp add: flow_ok_def)
  ultimately have "flow_ok {pc_paymentBatchId cl} db1 db'" using insert_paid_rows_flow [OF _ _ 2] by blast
  then have "flow_ok {pc_paymentBatchId cl} db db'" by (rule flow_ok_trans [OF fl])
  then show ?thesis using fresh by (rule flow_ok_fresh [OF _ _ bi])
qed

section \<open>The machine of the redemptions\<close>

text \<open>
  Steps of the database. The vault's other operations leave the redemptions alone; the token
  registry writes tokens; a paid batch has an id of its own (randomUUID); a burn passed
  check_open_redeem; a receipt is of rows of the table that passed the checks of the flow; an
  edit keeps the place of its rows; a refund and a return passed assertRefundable.
\<close>

inductive redeem_vault_step :: "(string \<Rightarrow> string) \<Rightarrow> vault_db \<Rightarrow> vault_db \<Rightarrow> bool" for k where
  other: "vault_step k db db' \<Longrightarrow> vd_redemptions db' = vd_redemptions db \<Longrightarrow> redeem_vault_step k db db'"
| sync: "redeem_vault_step k db (syncTokenFromChain env c ch i ck db)"
| heal: "redeem_vault_step k db (ensureFromChain env c ch i db)"
| paid_rows: "\<forall>r \<in> set (vd_redemptions db). vr_paymentBatchId r \<noteq> Some (js_trim b) \<Longrightarrow>
    createPaidRedemptionBatch k' now tx b m paidAt ch items db = Inr (out, db') \<Longrightarrow> redeem_vault_step k db db'"
| take_in: "markCustodyReceived now i tx db = Inr (r, db') \<Longrightarrow> redeem_vault_step k db db'"
| burned_now: "check_open_redeem c i db = Inr () \<Longrightarrow>
    redeem_vault_step k db (completeRedemptionBurn now c (nat_str i) tx by db)"
| released: "confirmVaultRelease now i db = Inr (r, db') \<Longrightarrow> redeem_vault_step k db db'"
| received: "distinct rows \<Longrightarrow> set rows \<subseteq> set (vd_redemptions db) \<Longrightarrow>
    \<forall>r \<in> set rows. vr_refundStatus r = rf_none \<and> receipt_eligible (vr_status r) \<Longrightarrow>
    markUserReceiptConfirmed ts via rows db = (rows', db') \<Longrightarrow> redeem_vault_step k db db'"
| edited: "distinct rs \<Longrightarrow> set rs \<subseteq> set (vd_redemptions db) \<Longrightarrow> \<forall>r. same_place r (f r) \<Longrightarrow>
    redeem_vault_step k db (save_rows (map f rs) db)"
| refunded: "assertRefundable (batch_rows b db) = Inr () \<Longrightarrow> \<not> list_all usdc_is_refunded (batch_rows b db) \<Longrightarrow>
    redeem_vault_step k db (settle_refund now tx m (batch_rows b db) db)"
| returned: "find_redemption i db = Some r \<Longrightarrow> assertRefundable [r] = Inr () \<Longrightarrow> \<not> sent_back r \<Longrightarrow>
    wasEverInCustody r \<Longrightarrow> h \<noteq> [] \<Longrightarrow> redeem_vault_step k db
      (resetCyclesIfRefunded now [return_fields h now r] (save_redemption (return_fields h now r) db))"

inductive_cases redeem_vault_stepE: "redeem_vault_step k db db'"

lemma registry_keeps_same: "registry_keeps db db' \<Longrightarrow> vd_redemptions db' = vd_redemptions db \<and> vd_cycles db' = vd_cycles db"
  by (auto simp: registry_keeps_def)

lemma registry_flow:
  assumes "redeem_inv db" "vault_wf db'" "registry_keeps db db'"
  shows "flow_ok B db db'"
  using assms registry_keeps_same [OF assms(3)] flow_ok_same life_same_cycles by metis

lemma redeem_vault_step_flow:
  assumes inv: "redeem_inv db" and step: "redeem_vault_step k db db'"
  shows "flow_ok B db db'"
proof -
  have wf: "vault_wf db" using inv by (simp add: redeem_inv_def)
  show ?thesis
    using step
  proof cases
    case other
    then show ?thesis
      using flow_ok_same [OF inv] vault_step_ok [OF other(1) wf] vault_step_life [OF wf other(1)]
      by blast
  next
    case sync
    then show ?thesis using registry_flow [OF inv] sync_ok wf by metis
  next
    case heal
    then show ?thesis using registry_flow [OF inv] ensure_ok wf by metis
  next
    case edited
    then show ?thesis using edit_flow [OF inv] by blast
  qed (use inv paid_flow take_flow burn_flow release_flow receipt_flow refund_flow return_flow in metis)+
qed

interpretation redeem_machine: invariant_machine "redeem_vault_step k" redeem_inv for k
  by unfold_locales (use redeem_vault_step_flow [where B = "{}"] in \<open>simp add: flow_ok_def\<close>)

interpretation redeem_rows: status_refinement "redeem_vault_step k" redeem_inv
  "\<lambda>db. row_states (vd_redemptions db)" row_initial row_edge for k
  by unfold_locales (use redeem_vault_step_flow [where B = "{}"] in \<open>simp add: flow_ok_def\<close>)

interpretation redeem_cycles: status_refinement "redeem_vault_step k" redeem_inv
  cycle_statuses initial_cycle custody_edge for k
  by unfold_locales (use redeem_vault_step_flow [where B = "{}"] in \<open>simp add: flow_ok_def\<close>)

lemma empty_redeem_inv: "redeem_inv empty_db"
  by (simp add: redeem_inv_def empty_db_wf) (simp add: empty_db_def rows_ok_def batches_agree_def)

end
