(* ===== verification/RedeemTrace.thy ===== *)
theory RedeemTrace
  imports RedeemMachine
begin

text \<open>
  The operations of the redeem flow on the whole state. Each one is a sequence of steps of the
  machine of RedeemMachine on the database, keeps the order book well formed, only closes
  orders, keeps the pins bounded, and, refunds apart, sends no money. redeem_step is the
  machine of all of them together with the order book, with the requests in any order.
\<close>

named_theorems flowing \<open>parts of an operation of the flow\<close>

section \<open>Flows\<close>

abbreviation vault_flow :: "(string \<Rightarrow> string) \<Rightarrow> vault_db \<Rightarrow> vault_db \<Rightarrow> bool" where
  "vault_flow k \<equiv> (redeem_vault_step k)\<^sup>*\<^sup>*"

text \<open>The pins are bounded, and each is the total of the estimate that it holds.\<close>

definition honest_pin :: "string \<times> quote_pin \<Rightarrow> bool" where
  "honest_pin p = (qp_totalMicros (snd p) = re_totalUsdcMicros (qp_estimate (snd p)))"

definition pins_ok :: "redeem_state \<Rightarrow> bool" where
  "pins_ok st = (length (rs_pins st) \<le> QUOTE_PIN_MAX_ENTRIES \<and> (\<forall>p \<in> set (rs_pins st). honest_pin p))"

definition flows :: "(string \<Rightarrow> string) \<Rightarrow> redeem_state \<Rightarrow> redeem_state \<Rightarrow> bool" where
  "flows k st st' = (vault_flow k (rs_vault st) (rs_vault st')
     \<and> mk_ledger (rs_market st') = mk_ledger (rs_market st)
     \<and> (book_wf (rs_market st) \<longrightarrow> book_wf (rs_market st') \<and> book_step (rs_market st) (rs_market st'))
     \<and> (pins_ok st \<longrightarrow> pins_ok st') \<and> rs_refunds st' = rs_refunds st)"

lemma flows_refl [simp, intro]: "flows k st st"
  by (simp add: flows_def)

lemma flows_trans: "flows k a b \<Longrightarrow> flows k b c \<Longrightarrow> flows k a c"
  unfolding flows_def using book_step_trans by (metis rtranclp_trans)

lemma rs_vault_put [simp]: "rs_vault (put_vault db st) = db" "rs_pins (put_vault db st) = rs_pins st"
  "rs_refunds (put_vault db st) = rs_refunds st" "put_vault db (put_vault db' st) = put_vault db st"
  by (simp_all add: rs_vault_def put_vault_def)

lemma flows_vault [flowing]:
  assumes "flows k st0 st" "vault_flow k (rs_vault st) db"
  shows "flows k st0 (put_vault db st)"
proof -
  have "flows k st (put_vault db st)"
    using assms(2) by (simp add: flows_def pins_ok_def) (simp add: put_vault_def book_wf_def book_step_same)
  then show ?thesis using assms(1) flows_trans by blast
qed

lemma flows_orders [flowing]:
  assumes "flows k st0 st" "\<And>ord. p ord \<Longrightarrow> o_status ord = ACTIVE"
  shows "flows k st0 (st\<lparr>rs_market := update_status now p CANCELLED (rs_market st)\<rparr>)"
proof -
  have "flows k st (st\<lparr>rs_market := update_status now p CANCELLED (rs_market st)\<rparr>)"
    using update_status_book assms(2) by (simp add: flows_def pins_ok_def rs_vault_def)
  then show ?thesis using assms(1) flows_trans by blast
qed

lemma flows_stop [flowing]: "flows k st0 st \<Longrightarrow> flows k st0 (fst (st, r))"
  by simp

lemma flows_need [flowing]:
  "flows k st0 st \<Longrightarrow> (\<And>x. r = Inr x \<Longrightarrow> flows k st0 (fst (f x st))) \<Longrightarrow> flows k st0 (fst (need r f st))"
  by (simp add: need_def split: sum.split)

lemma flows_andThen [flowing]:
  "flows k st0 (fst p) \<Longrightarrow> (\<And>x s. p = (s, Inr x) \<Longrightarrow> flows k st0 s \<Longrightarrow> flows k st0 (fst (f x s))) \<Longrightarrow>
   flows k st0 (fst (andThen p f))"
  by (cases p) (auto simp: andThen_def split: sum.split)

lemma flows_need_vault [flowing]:
  assumes "flows k st0 st"
    and "\<And>x db. f (rs_vault st) = Inr (x, db) \<Longrightarrow> flows k st0 (fst (g x (put_vault db st)))"
  shows "flows k st0 (fst (need_vault f g st))"
  using assms by (simp add: need_vault_def split: sum.split prod.split)

lemma flows_if [flowing]:
  "(b \<Longrightarrow> flows k st0 (fst p)) \<Longrightarrow> (\<not> b \<Longrightarrow> flows k st0 (fst q)) \<Longrightarrow> flows k st0 (fst (if b then p else q))"
  by simp

lemma flows_option [flowing]:
  "(v = None \<Longrightarrow> flows k st0 (fst p)) \<Longrightarrow> (\<And>x. v = Some x \<Longrightarrow> flows k st0 (fst (q x))) \<Longrightarrow>
   flows k st0 (fst (case v of None \<Rightarrow> p | Some x \<Rightarrow> q x))"
  by (cases v) simp_all

lemma flows_on_vault [flowing]:
  "flows k st0 st \<Longrightarrow> vault_flow k (rs_vault st) (fst (f (rs_vault st))) \<Longrightarrow> flows k st0 (fst (on_vault f st))"
  by (simp add: on_vault_def case_prod_beta flows_vault)

section \<open>Steps of the database that leave the redemptions alone\<close>

definition looks :: "(string \<Rightarrow> string) \<Rightarrow> vault_db \<Rightarrow> vault_db \<Rightarrow> bool" where
  "looks k db db' = (vault_flow k db db' \<and> vd_redemptions db' = vd_redemptions db)"

lemma looks_refl [simp]: "looks k db db"
  by (simp add: looks_def)

lemma looks_trans: "looks k a b \<Longrightarrow> looks k b c \<Longrightarrow> looks k a c"
  unfolding looks_def by (metis rtranclp_trans)

lemma looks_flow: "looks k db db' \<Longrightarrow> vault_flow k db db'"
  by (simp add: looks_def)

lemma registry_looks: "registry_step\<^sup>*\<^sup>* db db' \<Longrightarrow> looks k db db'"
proof (induction rule: rtranclp_induct)
  case (step a b)
  have same: "vd_redemptions b = vd_redemptions a" using registry_step_le [OF step.hyps(2)] by (simp add: registry_le_def)
  have "redeem_vault_step k a b"
    by (rule redeem_vault_step.other [OF registry_vault [OF step.hyps(2)] same])
  then show ?case using step.IH same unfolding looks_def by (metis rtranclp.rtrancl_into_rtrancl)
qed simp

lemma sync_looks: "looks k db (syncTokenFromChain env c ch i ck db)"
  unfolding looks_def using redeem_vault_step.sync registry_keeps_same [OF sync_ok(2)] by blast

lemma heal_looks: "looks k db (ensureFromChain env c ch i db)"
  unfolding looks_def using redeem_vault_step.heal registry_keeps_same [OF ensure_ok(2)] by blast

lemma burn_looks: "looks k db (recordBurn now c i db)"
proof -
  have "normalizeWallet ZERO_ADDRESS = ZERO_ADDRESS" by code_simp
  then have "vault_step k db (recordBurn now c i db)"
    by (intro vault_step.transfer [of now c i ZERO_ADDRESS]) (simp add: recordTransfer_def)
  moreover have same: "vd_redemptions (recordBurn now c i db) = vd_redemptions db"
    by (simp add: recordBurn_def Let_def split: option.split)
  ultimately show ?thesis
    unfolding looks_def using redeem_vault_step.other r_into_rtranclp by metis
qed

lemma heal_loop_looks: "looks k db (fst (heal_loop env c ch ids healed n db))"
proof (induction env c ch ids healed n db rule: heal_loop.induct)
  case (2 env c ch ids healed n db)
  then show ?case
    using heal_looks looks_trans by (fastforce split: sum.split option.split)
qed simp

lemma assertRedeemable_looks: "looks k db (fst (assertRedeemableAfterRegistryHeal env config ch ids db))"
  by (simp add: assertRedeemableAfterRegistryHeal_def need_def Let_def heal_loop_looks
      del: heal_loop.simps split: sum.split)

lemma fee_estimate_looks: "looks k db (snd (fee_estimate env country n ids ch ship db))"
proof -
  have "looks k db (snd (getVaultCustodyRows c is db))" for c "is"
    by (rule registry_looks) (simp add: getVaultCustodyRows_def Let_def custody_rows_steps split: prod.split)
  then show ?thesis
    by (simp add: fee_estimate_def Let_def case_prod_beta split: option.split sum.split)
qed

lemma estimate_in_vault:
  "rs_vault (fst (estimate_in env country n ids ch ship st))
    = snd (fee_estimate (rv_fee env) country n (map of_nat ids) ch ship (rs_vault st))"
  by (simp add: estimate_in_def on_vault_def case_prod_beta Let_def)

lemma estimate_in_flows [flowing]:
  "flows k st0 st \<Longrightarrow> flows k st0 (fst (estimate_in env country n ids ch ship st))"
  unfolding estimate_in_def
  by (rule flows_on_vault) (simp_all add: case_prod_beta looks_flow fee_estimate_looks)

lemma heal_flows [flowing]:
  "flows k st0 st \<Longrightarrow> flows k st0 (fst (on_vault (assertRedeemableAfterRegistryHeal env config ch ids) st))"
  by (rule flows_on_vault) (simp_all add: looks_flow assertRedeemable_looks)

section \<open>Quotes\<close>

lemma find_pin_None: "find_pin key pins = None \<longleftrightarrow> key \<notin> fst ` set pins"
  by (auto simp: find_pin_def find_row_None)

lemma pinQuote_length:
  assumes "length pins \<le> QUOTE_PIN_MAX_ENTRIES"
  shows "length (pinQuote now key est ex pins) \<le> QUOTE_PIN_MAX_ENTRIES"
proof -
  let ?p = "evict_first (live_pins now pins)"
  have "length (live_pins now pins) \<le> QUOTE_PIN_MAX_ENTRIES"
    using assms length_filter_le order_trans unfolding live_pins_def by blast
  then have "Suc (length ?p) \<le> QUOTE_PIN_MAX_ENTRIES"
    by (simp add: evict_first_def QUOTE_PIN_MAX_ENTRIES_def)
  moreover have "length (upsert fst x ?p) \<le> Suc (length ?p)" for x
    by (simp add: length_upsert)
  ultimately show ?thesis
    unfolding pinQuote_def Let_def by (auto split: option.split intro: order_trans Suc_leD)
qed

lemma set_pinQuote:
  "set (pinQuote now key est ex pins) \<subseteq> set pins \<union> {p. fst p = key \<and> honest_pin p}"
proof -
  let ?p = "evict_first (live_pins now pins)"
  have p: "set ?p \<subseteq> set pins"
    by (auto simp: evict_first_def live_pins_def dest: in_set_dropD)
  define pin where "pin = \<lparr>qp_totalMicros = re_totalUsdcMicros est,
    qp_expiresAtMs = (case ex of Some d \<Rightarrow> d | None \<Rightarrow> now + QUOTE_PIN_TTL_MS), qp_estimate = est\<rparr>"
  have "pinQuote now key est ex pins = ?p \<or> pinQuote now key est ex pins = upsert fst (key, pin) ?p"
    unfolding pinQuote_def Let_def pin_def [symmetric] by (simp split: option.split)
  moreover have "set (upsert fst (key, pin) ?p) \<subseteq> insert (key, pin) (set pins)"
    using set_upsert_subset [of fst "(key, pin)" ?p] p by blast
  moreover have "honest_pin (key, pin)" by (simp add: honest_pin_def pin_def)
  ultimately show ?thesis using p by auto
qed

lemma flows_pin [flowing]:
  assumes "flows k st0 st"
  shows "flows k st0 (st\<lparr>rs_pins := pinQuote now key est ex (rs_pins st)\<rparr>)"
proof -
  have "flows k st (st\<lparr>rs_pins := pinQuote now key est ex (rs_pins st)\<rparr>)"
    using set_pinQuote [of now key est ex "rs_pins st"]
    by (auto simp: flows_def pins_ok_def pinQuote_length rs_vault_def)
  then show ?thesis using assms flows_trans by blast
qed

lemma estimate_flows: "flows k st (fst (estimateRedeemCost env country n ids ch ship st))"
  unfolding estimateRedeemCost_def Let_def
  by (intro flowing flows_refl) (simp_all add: flows_pin)

section \<open>Paying\<close>

lemma cancel_tokens_flows [flowing]:
  "flows k st0 st \<Longrightarrow> flows k st0 (cancelActiveOrdersForTokens now c ids st)"
  unfolding cancelActiveOrdersForTokens_def Let_def by (auto intro: flows_orders)

lemma cancel_token_flows [flowing]:
  "flows k st0 st \<Longrightarrow> flows k st0 (cancelActiveOrdersForToken now c i st)"
  unfolding cancelActiveOrdersForToken_def Let_def by (auto intro: flows_orders)

definition fresh_batch :: "string \<Rightarrow> vault_db \<Rightarrow> bool" where
  "fresh_batch b db = (\<forall>r \<in> set (vd_redemptions db). vr_paymentBatchId r \<noteq> Some (js_trim b))"

lemma paid_flow_step:
  "fresh_batch b db \<Longrightarrow> createPaidRedemptionBatch k' now tx b m paidAt ch items db = Inr (out, db') \<Longrightarrow>
   vault_flow k db db'"
  unfolding fresh_batch_def by (rule r_into_rtranclp) (rule redeem_vault_step.paid_rows)

lemma open_paid_flows:
  assumes st: "flows k st0 st" and fresh: "fresh_batch (rv_batchId env) (rs_vault st)"
  shows "flows k st0 (fst (open_paid_batch env user dto ch ids destIso est paidMicros st))"
  unfolding open_paid_batch_def
proof (rule flows_need [OF st], rule flows_need [OF st], rule flows_need [OF st])
  fix c prepared x
  assume "createPaidRedemptionBatch (rv_keccak env) (rv_now env) (js_lower (js_trim (rb_paymentTxHash dto)))
      (rv_batchId env) (int_str paidMicros) (rv_now env) ch prepared (rs_vault st) = Inr x"
  then have "flows k st0 (put_vault (snd x) st)"
    using paid_flow_step [OF fresh] by (cases x) (auto intro: flows_vault [OF st])
  then have "flows k st0 (cancelActiveOrdersForTokens (rv_now env) c ids (put_vault (snd x) st))"
    by (rule cancel_tokens_flows)
  then show "flows k st0 (fst ((case x of (results, db) \<Rightarrow> \<lambda>st.
      let st1 = cancelActiveOrdersForTokens (rv_now env) c ids (put_vault db st)
      in need (rv_custodyWallet env ch) (\<lambda>custodyWallet st. (st, Inr \<lparr>br_paymentBatchId = rv_batchId env,
           br_paymentReceivedUsdcMicros = int_str paidMicros, br_custodyWalletAddress = custodyWallet,
           br_estimate = est, br_redemptions = results\<rparr>)) st1) st))"
    by (cases x) (simp add: Let_def flows_need)
qed

lemma pay_batch_flows:
  assumes st: "flows k st0 st" and fresh: "fresh_batch (rv_batchId env) (rs_vault st)"
  shows "flows k st0 (fst (pay_batch env user dto ch ids destIso est st))"
  unfolding pay_batch_def Let_def
  by (intro flows_if flows_stop flows_need st open_paid_flows fresh)

lemma looks_andThen:
  "looks k db (rs_vault (fst p)) \<Longrightarrow> (\<And>x s. p = (s, Inr x) \<Longrightarrow> looks k db (rs_vault s) \<Longrightarrow> looks k db (rs_vault (fst (f x s)))) \<Longrightarrow>
   looks k db (rs_vault (fst (andThen p f)))"
  by (cases p) (auto simp: andThen_def split: sum.split)

lemma estimate_in_looks:
  "looks k db (rs_vault st) \<Longrightarrow> looks k db (rs_vault (fst (estimate_in env country n ids ch ship st)))"
  unfolding estimate_in_vault using looks_trans fee_estimate_looks by blast

lemma price_batch_looks: "looks k (rs_vault st) (rs_vault (fst (price_batch env ship ch ids destIso st)))"
  unfolding price_batch_def
proof (rule looks_andThen)
  let ?h = "on_vault (assertRedeemableAfterRegistryHeal (rv_registry env) (rv_config env) ch ids) st"
  show h: "looks k (rs_vault st) (rs_vault (fst ?h))"
    using assertRedeemable_looks by (simp add: on_vault_def case_prod_beta Let_def)
qed (rule looks_andThen, erule estimate_in_looks, simp)

lemma price_batch_flows [flowing]:
  "flows k st0 st \<Longrightarrow> flows k st0 (fst (price_batch env ship ch ids destIso st))"
  unfolding price_batch_def by (intro flowing)

lemma request_flows:
  assumes fresh: "fresh_batch (rv_batchId env) (rs_vault st)"
  shows "flows k st (fst (requestRedemptionBatch env user dto ch st))"
proof -
  have pay: "flows k st (fst (andThen (price_batch env ship ch ids destIso st) (pay_batch env user dto ch ids destIso)))"
    for ship ids destIso ch
  proof (rule flows_andThen [OF price_batch_flows [OF flows_refl]])
    fix x s assume p: "price_batch env ship ch ids destIso st = (s, Inr x)" and s: "flows k st s"
    have "fresh_batch (rv_batchId env) (rs_vault s)"
      using price_batch_looks [of k st env ship ch ids destIso] fresh by (simp add: p looks_def fresh_batch_def)
    then show "flows k st (fst (pay_batch env user dto ch ids destIso x s))" by (rule pay_batch_flows [OF s])
  qed
  show ?thesis
    unfolding requestRedemptionBatch_def Let_def by (auto simp: pay split: sum.split)
qed

section \<open>Intake\<close>

lemma take_flow_step:
  "markCustodyReceived now i tx db = Inr (r, db') \<Longrightarrow> vault_flow k db db'"
  by (rule r_into_rtranclp) (rule redeem_vault_step.take_in)

lemma own_flow: "vault_flow k db (recordOwner c i w db)"
  using registry_looks [OF own_steps] looks_flow by blast

lemma take_custody_flows [flowing]:
  assumes "flows k st0 st"
  shows "flows k st0 (fst (take_custody env rwa w t i tx st))"
  unfolding take_custody_def
proof (rule flows_need_vault [OF assms])
  fix x db assume "markCustodyReceived (rv_now env) i tx (rs_vault st) = Inr (x, db)"
  then have "vault_flow k (rs_vault st) (recordOwner rwa t w db)"
    using take_flow_step own_flow rtranclp_trans by metis
  then show "flows k st0 (fst (put_vault (recordOwner rwa t w (rs_vault (put_vault db st))) (put_vault db st), Inr ()))"
    using assms by (simp add: flows_vault)
qed

lemma confirm_row_flows:
  assumes st: "flows k st0 st"
  shows "flows k st0 (fst (confirm_row env rwa w ch ts row st))"
  unfolding confirm_row_def Let_def
  by (intro flowing st)

lemma confirm_rows_flows [flowing]:
  "flows k st0 st \<Longrightarrow> flows k st0 (fst (confirm_rows env rwa w ch ts rows st))"
proof (induction rows arbitrary: st)
  case (Cons row rows)
  show ?case
    unfolding confirm_rows.simps
    by (rule flows_andThen [OF confirm_row_flows [OF Cons.prems]]) (rule Cons.IH)
qed simp

lemma confirmCustody_flows: "flows k st (fst (confirmCustodyTransfers env user b ts ch st))"
  unfolding confirmCustodyTransfers_def Let_def by (intro flowing flows_refl) simp_all

section \<open>Burns and receipts\<close>

lemma upsert_cycle_of:
  assumes "upsertFromMetadata env c i meta u ck db = Inr db'"
  shows "Option.bind (find_token (c, nat_str i) db') rt_vaultCycleId = Option.bind (find_token (c, nat_str i) db) rt_vaultCycleId"
  using assms
proof (rule upsertFromMetadata_Inr)
  fix base row
  assume db': "db' = save_token row db" and k: "rt_key row = (c, nat_str i)"
    and r: "rt_vaultCycleId row = rt_vaultCycleId base"
    and b: "find_token (c, nat_str i) db = Some base
     \<or> find_token (c, nat_str i) db = None \<and> base = stub_token c (nat_str i)"
  have "find_token (c, nat_str i) db' = Some row" using k by (simp add: db' token_repo.look_put)
  then show ?thesis using b r by (auto simp: stub_token_def)
qed

lemma sync_cycle_of:
  "Option.bind (find_token (c, nat_str i) (syncTokenFromChain env c ch i ck db)) rt_vaultCycleId
    = Option.bind (find_token (c, nat_str i) db) rt_vaultCycleId"
  by (auto simp: syncTokenFromChain_def upsert_cycle_of split: option.split sum.split)

lemma index_cycle_of:
  "Option.bind (find_token k (recordBurn now c i db)) rt_vaultCycleId = Option.bind (find_token k db) rt_vaultCycleId"
proof (cases "js_trim i = [] \<or> find_token (normalizeWallet c, js_trim i) db = None")
  case False
  then obtain t where t: "find_token (normalizeWallet c, js_trim i) db = Some t" by blast
  then have "rt_key t = (normalizeWallet c, js_trim i)" using find_token_Some by blast
  with t False show ?thesis by (auto simp: recordBurn_def Let_def token_repo.look_put rt_key_def)
qed (auto simp: recordBurn_def Let_def)

lemma sync_check:
  assumes "check_open_redeem c i db = Inr ()"
  shows "check_open_redeem c i (syncTokenFromChain env c ch i ck db) = Inr ()"
proof -
  let ?db = "syncTokenFromChain env c ch i ck db"
  note 1 = sync_cycle_of [of c i env ch ck db]
  have "vd_redemptions ?db = vd_redemptions db" using sync_looks looks_def by blast
  then have 2: "findOpenRedemptionForCycle j ?db = findOpenRedemptionForCycle j db" for j
    by (simp add: findOpenRedemptionForCycle_def)
  show ?thesis using assms unfolding check_open_redeem_def 1 2 .
qed

lemma burn_index_check:
  assumes "check_open_redeem c i db = Inr ()"
  shows "check_open_redeem c i (recordBurn now c' i' db) = Inr ()"
proof -
  let ?db = "recordBurn now c' i' db"
  note 1 = index_cycle_of [of "(c, nat_str i)" now c' i' db]
  have "vd_redemptions ?db = vd_redemptions db" using burn_looks looks_def by blast
  then have 2: "findOpenRedemptionForCycle j ?db = findOpenRedemptionForCycle j db" for j
    by (simp add: findOpenRedemptionForCycle_def)
  show ?thesis using assms unfolding check_open_redeem_def 1 2 .
qed

text \<open>The rows of a batch that a receipt may complete.\<close>

definition receivable :: "string \<Rightarrow> nat \<Rightarrow> vault_db \<Rightarrow> bool" where
  "receivable b ch db = (\<forall>r \<in> set (findRedemptionsByBatchId b (Some ch) db).
     vr_refundStatus r = rf_none \<and> receipt_eligible (vr_status r))"

lemma set_find_batch:
  "set (findRedemptionsByBatchId b (Some ch) db) = (if js_trim b = [] then {} else
     {r \<in> set (vd_redemptions db). vr_paymentBatchId r = Some (js_trim b)
        \<and> (\<exists>c. map_option vc_chainId (find_cycle (vr_vaultCycleId r) db) = Some c
             \<and> or_else (vr_chainId r) (Some c) = Some ch)})"
  by (auto simp: findRedemptionsByBatchId_def Let_def order_asc_def split: option.splits)

lemma find_batch_distinct: "vault_wf db \<Longrightarrow> distinct (findRedemptionsByBatchId b (Some ch) db)"
  using redemption_rows by (simp add: findRedemptionsByBatchId_def Let_def order_asc_def)

lemma receivable_mono:
  assumes "receivable b ch db"
    and chains: "\<And>j. map_option vc_chainId (find_cycle j db') = map_option vc_chainId (find_cycle j db)"
    and rows: "\<And>r'. r' \<in> set (vd_redemptions db') \<Longrightarrow> vr_paymentBatchId r' = None
      \<or> (\<exists>r \<in> set (vd_redemptions db). vr_paymentBatchId r = vr_paymentBatchId r'
           \<and> vr_vaultCycleId r = vr_vaultCycleId r' \<and> vr_chainId r = vr_chainId r'
           \<and> vr_refundStatus r = vr_refundStatus r'
           \<and> (receipt_eligible (vr_status r) \<longrightarrow> receipt_eligible (vr_status r')))"
  shows "receivable b ch db'"
  unfolding receivable_def
proof
  fix r' assume "r' \<in> set (findRedemptionsByBatchId b (Some ch) db')"
  then have r': "js_trim b \<noteq> []" "r' \<in> set (vd_redemptions db')" "vr_paymentBatchId r' = Some (js_trim b)"
    "\<exists>c. map_option vc_chainId (find_cycle (vr_vaultCycleId r') db) = Some c \<and> or_else (vr_chainId r') (Some c) = Some ch"
    by (auto simp: set_find_batch chains split: if_splits)
  obtain r where r: "r \<in> set (vd_redemptions db)" "vr_paymentBatchId r = vr_paymentBatchId r'"
    "vr_vaultCycleId r = vr_vaultCycleId r'" "vr_chainId r = vr_chainId r'" "vr_refundStatus r = vr_refundStatus r'"
    "receipt_eligible (vr_status r) \<longrightarrow> receipt_eligible (vr_status r')"
    using rows [OF r'(2)] r'(3) by auto
  have "r \<in> set (findRedemptionsByBatchId b (Some ch) db)" using r r' by (simp add: set_find_batch)
  then show "vr_refundStatus r' = rf_none \<and> receipt_eligible (vr_status r')"
    using assms(1) r(5,6) unfolding receivable_def by metis
qed

lemma receivable_same:
  "receivable b ch db \<Longrightarrow> vd_redemptions db' = vd_redemptions db \<Longrightarrow> vd_cycles db' = vd_cycles db \<Longrightarrow> receivable b ch db'"
  by (rule receivable_mono) (auto simp: find_cycle_def)

lemma receivable_sync: "receivable b ch db \<Longrightarrow> receivable b ch (syncTokenFromChain env c ch' i ck db)"
  using receivable_same registry_keeps_same [OF sync_ok(2)] by blast

lemma receivable_index: "receivable b ch db \<Longrightarrow> receivable b ch (recordBurn now c i db)"
  using receivable_same index_cycles(3) burn_looks looks_def by metis

lemma receivable_burn:
  assumes rec: "receivable b ch db"
  shows "receivable b ch (completeRedemptionBurn now c i tx by db)"
proof (cases rule: completeBurn_cases [of c i db now tx "by"])
  case 1
  with rec show ?thesis by simp
next
  case (2 t)
  show ?thesis unfolding 2(3) by (rule receivable_same [OF rec]) simp_all
next
  case (3 t j cy db1 db2 r db3)
  let ?r = "r\<lparr>vr_status := (if vr_status r = r_completed then r_completed else r_burned),
      vr_burnTxHash := Some tx, vr_burnedAt := Some now\<rparr>"
  let ?db = "completeRedemptionBurn now c i tx by db"
  have same: "vd_redemptions db2 = vd_redemptions db" by (simp add: 3(3,5))
  have c3: "vd_cycles db3 = vd_cycles db2" by (cases rule: burn_redemption_cases [OF 3(6)]) simp_all
  have cy: "find_cycle j db = Some cy" "vc_id cy = j" using 3(4) find_cycle_Some by (auto simp: 3(3))
  have "find_cycle l ?db = find_cycle l db2" for l using c3 by (simp add: 3(7) find_cycle_def)
  then have chains: "map_option vc_chainId (find_cycle l ?db) = map_option vc_chainId (find_cycle l db)" for l
    using cy by (cases "j = l") (simp_all add: 3(3,5) table_simps)
  have elig: "receipt_eligible (vr_status ?r)" by (simp add: receipt_eligible_def)
  have rows: "set (vd_redemptions ?db) \<subseteq> insert ?r (set (vd_redemptions db))"
    using set_upsert_subset [of vr_id ?r "vd_redemptions db"] same
    by (cases rule: burn_redemption_cases [OF 3(6)]) (simp_all add: 3(7) save_tables)
  have "vr_paymentBatchId r = None \<or> r \<in> set (vd_redemptions db)"
    using same by (cases rule: burn_redemption_cases [OF 3(6)]) (simp_all add: blank_redemption_def)
  then show ?thesis
    by (intro receivable_mono [OF rec chains]) (use rows elig in fastforce)
qed

text \<open>Burning tokens is a flow that keeps the rows of a batch receivable.\<close>

definition burning :: "(string \<Rightarrow> string) \<Rightarrow> string \<Rightarrow> nat \<Rightarrow> redeem_state \<Rightarrow> redeem_state \<Rightarrow> bool" where
  "burning k b ch st st' = (flows k st st' \<and> (receivable b ch (rs_vault st) \<longrightarrow> receivable b ch (rs_vault st')))"

lemma burning_refl [simp]: "burning k b ch st st"
  by (simp add: burning_def)

lemma burning_trans: "burning k b ch x y \<Longrightarrow> burning k b ch y z \<Longrightarrow> burning k b ch x z"
  unfolding burning_def using flows_trans by blast

lemma cancel_vault [simp]: "rs_vault (cancelActiveOrdersForToken now c i st) = rs_vault st"
  "rs_vault (cancelActiveOrdersForTokens now c ids st) = rs_vault st"
  by (simp_all add: cancelActiveOrdersForToken_def cancelActiveOrdersForTokens_def rs_vault_def Let_def)

lemma burnTokenOnChain_burning: "burning k b ch' st (fst (burnTokenOnChain env i ch st))"
proof (cases "getRwaAddress (rv_config env) ch")
  case (Inr c)
  let ?s1 = "cancelActiveOrdersForToken (rv_now env) c i st"
  let ?s2 = "put_vault (syncTokenFromChain (rv_registry env) c ch i None (rs_vault ?s1)) ?s1"
  have 1: "burning k b ch' st ?s1" by (simp add: burning_def cancel_token_flows)
  have 2: "burning k b ch' st ?s2"
    using 1 flows_vault looks_flow [OF sync_looks] receivable_sync by (simp add: burning_def)
  have 3: "burning k b ch' st (put_vault (completeRedemptionBurn (rv_now env) c (nat_str i) h
      (Some w) (recordBurn (rv_now env) c (nat_str i) (rs_vault ?s2))) ?s2)" (is "burning _ _ _ _ (put_vault ?burnt _)")
    if "check_open_redeem c i (rs_vault st) = Inr ()" for h w
  proof -
    have "vault_flow k (recordBurn (rv_now env) c (nat_str i) (rs_vault ?s2)) ?burnt"
      by (rule r_into_rtranclp)
         (rule redeem_vault_step.burned_now, rule burn_index_check, use sync_check [OF that] in simp)
    then have "vault_flow k (rs_vault ?s2) ?burnt"
      using looks_flow [OF burn_looks] rtranclp_trans by metis
    with 2 show ?thesis
      unfolding burning_def using flows_vault receivable_index receivable_burn by (metis rs_vault_put(1))
  qed
  show ?thesis
    using 1 2 3 by (simp add: burnTokenOnChain_def need_def Inr Let_def split: sum.split)
qed (simp add: burnTokenOnChain_def need_def)

lemma ensureBurned_burning: "burning k b ch' st (fst (ensureBurnedForRedeem env i ch st))"
  using burnTokenOnChain_burning [of k b ch' st env i ch]
  by (cases "burnTokenOnChain env i ch st")
     (auto simp: ensureBurnedForRedeem_def need_def andThen_def split: sum.split option.split)

lemma burn_row_burning: "burning k b ch' st (fst (burn_row env ch row st))"
proof -
  have "burning k b ch' st s" if "ensureBurnedForRedeem env i ch st = (s, r)" for i s r
    using ensureBurned_burning [of k b ch' st env i ch] by (simp add: that)
  then show ?thesis by (auto simp: burn_row_def split: option.split prod.split sum.split)
qed

lemma ensureBatch_burning: "burning k b ch' st (fst (ensureBatchTokensBurned env ch rows st))"
proof (induction rows arbitrary: st)
  case (Cons row rows)
  then show ?case
    using burn_row_burning [of k b ch' st env ch row] burning_trans
    by (cases "burn_row env ch row st") (auto simp: andThen_def split: sum.split)
qed simp

lemma finalize_flows:
  assumes inv: "redeem_inv (rs_vault st)"
    and b: "rows = [] \<or> Option.bind (hd_opt rows) vr_paymentBatchId = Some b" and rec: "receivable b ch (rs_vault st)"
  shows "flows k st (fst (finalizeReceiptWithBurn env ch via rows st))"
  unfolding finalizeReceiptWithBurn_def
proof (rule flows_andThen)
  have bu: "burning k b ch st (fst (ensureBatchTokensBurned env ch rows st))" by (rule ensureBatch_burning)
  then show "flows k st (fst (ensureBatchTokensBurned env ch rows st))" by (simp add: burning_def)
  fix x s assume e: "ensureBatchTokensBurned env ch rows st = (s, Inr x)" and s: "flows k st s"
  define fresh where "fresh = (case Option.bind (hd_opt rows) vr_paymentBatchId of
      Some batchId \<Rightarrow> findRedemptionsByBatchId batchId (Some ch) (rs_vault s) | None \<Rightarrow> rows)"
  let ?inc = "filter (\<lambda>r. vr_status r \<noteq> r_completed) fresh"
  let ?rows = "if ?inc \<noteq> [] then ?inc else fresh"
  have rec': "receivable b ch (rs_vault s)" using bu rec by (simp add: burning_def e)
  have "vault_wf (rs_vault s)"
    using s inv redeem_machine.steps_inv unfolding flows_def redeem_inv_def by metis
  moreover have fr: "fresh = [] \<or> fresh = findRedemptionsByBatchId b (Some ch) (rs_vault s)"
    using b by (auto simp: fresh_def hd_opt_def)
  ultimately have "distinct fresh" using find_batch_distinct by auto
  then have d: "distinct ?rows" by simp
  have "set fresh \<subseteq> set (vd_redemptions (rs_vault s))
      \<and> (\<forall>r \<in> set fresh. vr_refundStatus r = rf_none \<and> receipt_eligible (vr_status r))"
    using fr rec' by (auto simp: receivable_def set_find_batch split: if_splits)
  then have sub: "set ?rows \<subseteq> set (vd_redemptions (rs_vault s))"
      "\<forall>r \<in> set ?rows. vr_refundStatus r = rf_none \<and> receipt_eligible (vr_status r)"
    by auto
  have "vault_flow k (rs_vault s) (snd (markUserReceiptConfirmed (rv_now env) (Some via) ?rows (rs_vault s)))"
    by (rule r_into_rtranclp, rule redeem_vault_step.received [OF d sub prod.collapse [symmetric]])
  then have "flows k st (put_vault (snd (markUserReceiptConfirmed (rv_now env) (Some via) ?rows (rs_vault s))) s)"
    by (rule flows_vault [OF s])
  then show "flows k st (fst (let fresh = (case Option.bind (hd_opt rows) vr_paymentBatchId of
          Some batchId \<Rightarrow> findRedemptionsByBatchId batchId (Some ch) (rs_vault s) | None \<Rightarrow> rows);
      incomplete = filter (\<lambda>r. vr_status r \<noteq> r_completed) fresh;
      (saved, db) = markUserReceiptConfirmed (rv_now env) (Some via)
         (if incomplete \<noteq> [] then incomplete else fresh) (rs_vault s)
      in (put_vault db s, Inr saved)))"
    unfolding fresh_def [symmetric] by (simp only: Let_def case_prod_beta fst_conv)
qed

lemma check_batch_rows_Inr:
  "check_batch_rows user rows = Inr x \<Longrightarrow> rows \<noteq> [] \<and> (\<forall>r \<in> set rows. vr_refundStatus r = rf_none)"
  by (auto simp: check_batch_rows_def list_ex_iff split: if_splits)

lemma first_of_batch:
  assumes "rows \<noteq> []" "set rows \<subseteq> set (findRedemptionsByBatchId b (Some ch) db)"
  shows "Option.bind (hd_opt rows) vr_paymentBatchId = Some (js_trim b)"
proof -
  obtain a as where rows: "rows = a # as" using assms(1) by (cases rows) auto
  then have "a \<in> set (findRedemptionsByBatchId b (Some ch) db)" using assms(2) by auto
  then have "vr_paymentBatchId a = Some (js_trim b)" by (auto simp: set_find_batch split: if_splits)
  then show ?thesis by (simp add: hd_opt_def rows)
qed

lemma receivable_trim: "receivable (js_trim b) ch db = receivable b ch db"
  by (simp add: receivable_def findRedemptionsByBatchId_def js_simps)

lemma confirmReceipt_flows:
  assumes inv: "redeem_inv (rs_vault st)"
  shows "flows k st (fst (confirmReceipt env user b ch st))"
  unfolding confirmReceipt_def Let_def
proof (rule flows_need [OF flows_refl], rule flows_need [OF flows_refl], rule flows_need [OF flows_refl],
    rule flows_andThen)
  let ?rows = "findRedemptionsByBatchId b (Some ch) (rs_vault st)"
  fix x y z
  assume 1: "check_batch_rows user ?rows = Inr x"
    and 2: "check (list_all (\<lambda>r. receipt_eligible (vr_status r)) ?rows) (BadRequestException
      ''All cards must be in custody (or further) before confirming receipt'') (Inr ()) = Inr y"
  have "receivable b ch (rs_vault st)"
    using check_batch_rows_Inr [OF 1] 2 by (auto simp: receivable_def check_def list_all_iff split: if_splits)
  then have "receivable (js_trim b) ch (rs_vault st)" by (simp add: receivable_trim)
  moreover have "Option.bind (hd_opt ?rows) vr_paymentBatchId = Some (js_trim b)"
    by (rule first_of_batch [OF _ order_refl]) (use check_batch_rows_Inr [OF 1] in simp)
  ultimately show "flows k st (fst (finalizeReceiptWithBurn env ch via_user ?rows st))"
    by (intro finalize_flows [OF inv]) blast+
qed simp

lemma gate_open_rows:
  "batchReadyForAutoReceipt g now rows = gate_open \<Longrightarrow>
   rows \<noteq> [] \<and> (\<forall>r \<in> set rows. vr_refundStatus r = rf_none \<and> receipt_eligible (vr_status r))"
  by (auto simp: batchReadyForAutoReceipt_def list_ex_iff split: if_splits)

lemma confirm_batch_flows:
  assumes inv: "redeem_inv (rs_vault st)"
  shows "flows k st (confirm_batch env cands b st)"
proof -
  have "flows k st (fst (finalizeReceiptWithBurn env ch via_auto rows st))"
    if g: "batchReadyForAutoReceipt g now (findRedemptionsByBatchId b (Some ch) (rs_vault st)) = gate_open"
      and rows: "rows = (if filter p (findRedemptionsByBatchId b (Some ch) (rs_vault st)) \<noteq> []
        then filter p (findRedemptionsByBatchId b (Some ch) (rs_vault st))
        else findRedemptionsByBatchId b (Some ch) (rs_vault st))" for ch g now rows p
  proof (rule finalize_flows [OF inv])
    let ?all = "findRedemptionsByBatchId b (Some ch) (rs_vault st)"
    note o = gate_open_rows [OF g]
    then show "receivable (js_trim b) ch (rs_vault st)" unfolding receivable_trim by (simp add: receivable_def)
    have "rows \<noteq> []" "set rows \<subseteq> set ?all" using o rows by auto
    then show "rows = [] \<or> Option.bind (hd_opt rows) vr_paymentBatchId = Some (js_trim b)"
      using first_of_batch by blast
  qed
  then show ?thesis by (auto simp: confirm_batch_def Let_def split: option.split)
qed

lemma flows_inv: "redeem_inv (rs_vault st) \<Longrightarrow> flows k st st' \<Longrightarrow> redeem_inv (rs_vault st')"
  unfolding flows_def using redeem_machine.steps_inv by blast

lemma fold_confirm_flows:
  "redeem_inv (rs_vault st) \<Longrightarrow> flows k st (fold (confirm_batch env cands) bs st)"
proof (induction bs arbitrary: st)
  case (Cons b bs)
  have 1: "flows k st (confirm_batch env cands b st)" by (rule confirm_batch_flows [OF Cons.prems])
  from Cons.IH [OF flows_inv [OF Cons.prems 1]] show ?case using flows_trans [OF 1] by simp
qed simp

section \<open>Edits\<close>

lemma edit_step:
  "redeem_inv db \<Longrightarrow> rs = filter p (vd_redemptions db) \<or> rs = batch_rows b db \<or> rs = filter p (batch_rows b db) \<Longrightarrow>
   \<forall>r. same_place r (f r) \<Longrightarrow> vault_flow k db (save_rows (map f rs) db)"
  using redemption_rows [of db] distinct_batch_rows [of db b]
  by (intro r_into_rtranclp redeem_vault_step.edited) (auto simp: redeem_inv_def set_batch_rows)

lemma edit_one_step:
  assumes "find_redemption i db = Some r" "\<forall>r. same_place r (f r)"
  shows "vault_flow k db (save_redemption (f r) db)"
proof -
  have "redeem_vault_step k db (save_rows (map f [r]) db)"
    using find_redemption_Some [OF assms(1)] by (intro redeem_vault_step.edited assms(2)) simp_all
  then show ?thesis by (simp add: save_rows_def r_into_rtranclp)
qed

lemma track_same_place: "same_place r (track_new now t c r)" "same_place r (track_again c r)"
  by (auto simp: track_new_def track_again_def same_place_def row_state_def split: option.split)

lemma memo_flow: "updateMemo i memo db = Inr (r, db') \<Longrightarrow> vault_flow k db db'"
  using edit_one_step [of i db _ "\<lambda>r. r\<lparr>vr_adminMemo := non_empty (js_trim memo)\<rparr>"]
  by (auto simp: updateMemo_def Let_def same_place_def row_state_def split: option.splits)

lemma memo_batch_flow:
  assumes "redeem_inv db" "updateMemoBatch b memo db = Inr (rows, db')"
  shows "vault_flow k db db'"
proof -
  have "db' = save_rows (map (\<lambda>r. r\<lparr>vr_adminMemo := non_empty (js_trim memo)\<rparr>) (batch_rows b db)) db"
    using assms(2) by (auto simp: updateMemoBatch_def Let_def split: if_splits)
  then show ?thesis by (simp only:) (rule edit_step [OF assms(1)], auto simp: same_place_def row_state_def)
qed

lemma tracking_flow:
  "updateTracking now i t c db = Inr (r, db') \<Longrightarrow> vault_flow k db db'"
  using edit_one_step [of i db _ "track_again (trim_or_null c)"]
    edit_one_step [of i db _ "track_new now (js_trim t) (trim_or_null c)"] track_same_place
  by (auto simp: updateTracking_def Let_def split: option.splits if_splits)

definition or_keep :: "('a \<Rightarrow> 'a result) \<Rightarrow> 'a \<Rightarrow> 'a" where
  "or_keep f x = (case f x of Inl e \<Rightarrow> x | Inr y \<Rightarrow> y)"

lemma map_ok_or_keep: "map_ok f xs = Inr ys \<Longrightarrow> ys = map (or_keep f) xs"
  by (induction xs arbitrary: ys) (auto simp: on_ok_eq_Inr or_keep_def)

lemma tracking_batch_flow:
  assumes inv: "redeem_inv db" and ok: "updateTrackingBatch now po b key t c ids db = Inr (rows, db')"
  shows "vault_flow k db db'"
proof -
  let ?f = "or_keep (track_row now (js_trim t) (trim_or_null c))"
  from ok have "db' = save_rows (map ?f (tracking_targets b (js_trim key) ids db)) db"
    by (auto simp: updateTrackingBatch_def Let_def on_ok_eq_Inr split: if_splits dest: map_ok_or_keep)
  moreover have "\<forall>r. same_place r (?f r)"
    using track_same_place
    by (auto simp: or_keep_def track_row_def same_place_def split: sum.split option.split)
  ultimately show ?thesis
    by (simp only: tracking_targets_def) (rule edit_step [OF inv], blast+)
qed

lemma stamp_flow: "redeem_inv db \<Longrightarrow> vault_flow k db (stampCarrierDelivered polled key d db)"
  unfolding stampCarrierDelivered_def Let_def
  by (rule edit_step) (auto simp: same_place_def row_state_def)

lemma vault_flow_inv: "redeem_inv db \<Longrightarrow> vault_flow k db db' \<Longrightarrow> redeem_inv db'"
  by (rule redeem_machine.steps_inv)

lemma fold_flow:
  assumes "\<And>x db. redeem_inv db \<Longrightarrow> vault_flow k db (f x db)"
  shows "redeem_inv db \<Longrightarrow> vault_flow k db (fold f xs db)"
proof (induction xs arbitrary: db)
  case (Cons x xs)
  have 1: "vault_flow k db (f x db)" by (rule assms [OF Cons.prems])
  from Cons.IH [OF vault_flow_inv [OF Cons.prems 1]] 1 show ?case by (simp add: rtranclp_trans)
qed simp

lemma poll_flow:
  assumes inv: "redeem_inv db"
  shows "vault_flow k db (pollDeliveries config track now db)"
proof -
  let ?stamp = "\<lambda>result d1. case (tk_delivered result, tk_deliveredAt result) of
      (True, Some d) \<Rightarrow> stampCarrierDelivered (rows_to_track db) (js_upper (strip_ws (tk_trackingNumber result))) d d1
    | _ \<Rightarrow> d1"
  have st: "vault_flow k d1 (?stamp x d1)" if "redeem_inv d1" for x d1
    using stamp_flow [OF that] by (auto split: bool.split option.split)
  have 1: "vault_flow k db (fold ?stamp xs db)" for xs by (rule fold_flow [OF st inv])
  have 2: "vault_flow k db (fold (\<lambda>key d1. stampCarrierDelivered (rows_to_track db) key now d1) ys (fold ?stamp xs db))" for xs ys
    by (rule rtranclp_trans [OF 1 fold_flow [OF stamp_flow vault_flow_inv [OF inv 1]]])
  have "vault_flow k db (if sandboxOnesAsDelivered config
      then fold (\<lambda>key d1. stampCarrierDelivered (rows_to_track db) key now d1) ys (fold ?stamp xs db)
      else fold ?stamp xs db)" for xs ys
    by (split if_split, intro conjI impI 1 2)
  then show ?thesis
    unfolding pollDeliveries_def Let_def by (subst if_split) (intro conjI impI rtranclp.rtrancl_refl)
qed

lemma pollOnce_flows:
  assumes inv: "redeem_inv (rs_vault st)"
  shows "flows k st (pollOnce env track st)"
proof -
  let ?s = "put_vault (pollDeliveries (rv_config env) track (rv_now env) (rs_vault st)) st"
  have 1: "flows k st ?s" by (rule flows_vault [OF flows_refl poll_flow [OF inv]])
  have "flows k ?s (autoConfirmDueBatches env ?s)"
    unfolding autoConfirmDueBatches_def Let_def by (rule fold_confirm_flows [OF flows_inv [OF inv 1]])
  then show ?thesis using 1 flows_trans by (auto simp: pollOnce_def Let_def)
qed

section \<open>Refunds and returns\<close>

text \<open>A wallet that reports what it did, and a custody transfer whose hash is not empty.\<close>

definition reports :: "fee_wallet \<Rightarrow> bool" where
  "reports fw = (case fw_outcome fw of receipt_lost e \<Rightarrow> False | _ \<Rightarrow> True)"

definition hash_known :: "custody_env \<Rightarrow> bool" where
  "hash_known cy = (cy_outcome cy \<noteq> mined [])"

lemma rs_vault_refunds [simp]: "rs_vault (st\<lparr>rs_refunds := x\<rparr>) = rs_vault st"
  by (simp add: rs_vault_def)

lemma transfer_reports:
  assumes "reports fw" "transferUsdc config fw to m ch = (res, out)"
  shows "out = None \<or> (\<exists>h. res = Inr h)"
  using assms unfolding transferUsdc_def Let_def reports_def
  by (auto split: if_splits option.splits sum.splits send_outcome.splits)

lemma refundUsdc_cases:
  assumes rep: "reports fw" and op: "refundUsdcBatch config fw now b st = (st', r)"
  obtains "st' = st"
  | h m new where "assertRefundable (batch_rows b (rs_vault st)) = Inr ()"
    "\<not> list_all usdc_is_refunded (batch_rows b (rs_vault st))"
    "st' = put_vault (settle_refund now h m (batch_rows b (rs_vault st)) (rs_vault st))
       (st\<lparr>rs_refunds := new @ rs_refunds st\<rparr>)" "r = Inr (Some h, False)"
    "new = [] \<or> (\<exists>w a. new = [(b, w, a)])"
proof (cases "batch_rows b (rs_vault st)")
  case Nil
  then show thesis using op that(1) by (simp add: refundUsdcBatch_def Let_def)
next
  case (Cons row0 rest)
  let ?rows = "batch_rows b (rs_vault st)"
  let ?m = "js_trim (or_empty (getPaymentReceivedMicrosForBatch b (rs_vault st)))"
  obtain res out where t: "transferUsdc config fw (vr_ownerWalletAddress row0) ?m (resolveRowChainId config row0) = (res, out)"
    by fastforce
  show thesis
  proof (cases "assertRefundable ?rows = Inr () \<and> \<not> list_all usdc_is_refunded ?rows \<and> positive_decimal ?m
      \<and> wallet_isConfigured config \<and> (\<exists>h. res = Inr h)")
    case True
    then obtain h where h: "res = Inr h" by blast
    let ?new = "case out of None \<Rightarrow> [] | Some (w, a) \<Rightarrow> [(b, w, a)]"
    have st1: "(case out of None \<Rightarrow> st | Some (w, amount) \<Rightarrow> st\<lparr>rs_refunds := (b, w, amount) # rs_refunds st\<rparr>)
        = st\<lparr>rs_refunds := ?new @ rs_refunds st\<rparr>" by (simp split: option.split)
    have "(st', r) = (put_vault (settle_refund now h ?m ?rows (rs_vault st))
       (st\<lparr>rs_refunds := ?new @ rs_refunds st\<rparr>), Inr (Some h, False))"
      using op True t h by (auto simp: refundUsdcBatch_def Let_def Cons st1 split: if_splits)
    then show thesis using True by (intro that(2)) (auto split: option.splits)
  next
    case False
    then have "st' = st"
      using op t transfer_reports [OF rep t]
      by (auto simp: refundUsdcBatch_def Let_def Cons split: sum.splits if_splits)
    then show thesis by (rule that(1))
  qed
qed

lemma safeTransfer_hash:
  "safeTransferFromCustody cy i to = (Inr h, moved) \<Longrightarrow> hash_known cy \<Longrightarrow> h \<noteq> [] \<and> moved"
  unfolding safeTransferFromCustody_def Let_def hash_known_def
  by (auto split: if_splits sum.splits owner_answer.splits send_outcome.splits)

lemma returnNft_cases:
  assumes cy: "hash_known cy" and op: "returnNft config cy now i db = (db', r)"
  obtains "db' = db"
  | row h db1 where "find_redemption i db = Some row" "assertRefundable [row] = Inr ()" "\<not> sent_back row"
    "wasEverInCustody row" "h \<noteq> []" "registry_step\<^sup>*\<^sup>* db db1" "r = Inr (Some h, False)"
    "db' = resetCyclesIfRefunded now [return_fields h now row] (save_redemption (return_fields h now row) db1)"
proof (cases "find_redemption i db")
  case None
  then show thesis using op that(1) by (simp add: returnNft_def)
next
  case (Some row)
  show thesis
  proof (cases "db' = db")
    case False
    with op Some obtain token tid h moved where t: "assertRefundable [row] = Inr ()" "\<not> sent_back row"
      "wasEverInCustody row" "safeTransferFromCustody cy tid (vr_ownerWalletAddress row) = (Inr h, moved)"
      and db': "db' = resetCyclesIfRefunded now [return_fields h now row] (save_redemption (return_fields h now row)
        (case getRwaAddress config (resolveRowChainId config row) of Inl e \<Rightarrow> db
         | Inr rwa \<Rightarrow> recordOwner rwa (nat_str tid) (js_lower (js_trim (vr_ownerWalletAddress row))) db))"
      and r: "r = Inr (Some h, False)"
      by (auto simp: returnNft_def sent_back_def Let_def split: sum.splits if_splits option.splits prod.splits)
    show thesis
      by (rule that(2) [OF Some t(1-3) conjunct1 [OF safeTransfer_hash [OF t(4) cy]] _ r db'])
         (auto simp: own_steps split: sum.split)
  qed (rule that(1))
qed

lemma registry_find_redemption: "registry_step\<^sup>*\<^sup>* db db' \<Longrightarrow> find_redemption i db' = find_redemption i db"
  using registry_looks [of db db'] by (simp add: looks_def find_redemption_def)

lemma returnNft_flow:
  assumes "hash_known cy" "returnNft config cy now i db = (db', r)"
  shows "vault_flow k db db'"
  using assms
proof (cases rule: returnNft_cases)
  case (2 row h db1)
  have "redeem_vault_step k db1 db'"
    unfolding 2(8) by (rule redeem_vault_step.returned [OF _ 2(2-5)])
       (use 2(1) registry_find_redemption [OF 2(6)] in simp)
  with looks_flow [OF registry_looks [OF 2(6)]] show ?thesis by (rule rtranclp.rtrancl_into_rtrancl)
qed simp

lemma return_rows_flow:
  assumes "\<And>i. hash_known (cy i)"
  shows "vault_flow k db (snd (return_rows config cy now rows db))"
proof (induction rows arbitrary: db)
  case (Cons row rows)
  let ?d = "if vr_custodyReturnedAt row = None \<and> wasEverInCustody row
    then fst (returnNft config (cy (vr_id row)) now (vr_id row) db) else db"
  have 1: "vault_flow k db ?d"
    using returnNft_flow [OF assms prod.collapse [symmetric]] by simp
  have "snd (return_rows config cy now (row # rows) db) = snd (return_rows config cy now rows ?d)"
    by (auto simp: Let_def case_prod_beta split: sum.split)
  then show ?case using rtranclp_trans [OF 1 Cons.IH] by simp
qed simp

section \<open>The machine\<close>

text \<open>
  The requests of users, operators and crons, in any order. The id of a new batch is one that
  no row has; a wallet says what it did; transaction hashes are not empty; what the order book
  and the rest of the vault do leaves the redemptions alone.
\<close>

inductive redeem_step :: "(string \<Rightarrow> string) \<Rightarrow> config \<Rightarrow> redeem_state \<Rightarrow> redeem_state \<Rightarrow> bool" for k cfg where
  quote: "estimateRedeemCost env country n ids ch ship st = (st', r1) \<Longrightarrow> redeem_step k cfg st st'"
| request: "fresh_batch (rv_batchId env) (rs_vault st) \<Longrightarrow> requestRedemptionBatch env user dto ch st = (st', r2) \<Longrightarrow>
    redeem_step k cfg st st'"
| intake: "confirmCustodyTransfers env user b ts ch st = (st', r3) \<Longrightarrow> redeem_step k cfg st st'"
| receipt: "confirmReceipt env user b ch st = (st', r4) \<Longrightarrow> redeem_step k cfg st st'"
| poll: "pollOnce env track st = st' \<Longrightarrow> redeem_step k cfg st st'"
| admin_burn: "burnTokenOnChain env i ch st = (st', r5) \<Longrightarrow> redeem_step k cfg st st'"
| release: "confirmVaultRelease now i (rs_vault st) = Inr (x, db) \<Longrightarrow> redeem_step k cfg st (put_vault db st)"
| memo: "updateMemo i text (rs_vault st) = Inr (x, db) \<Longrightarrow> redeem_step k cfg st (put_vault db st)"
| memo_batch: "updateMemoBatch b text (rs_vault st) = Inr (xs, db) \<Longrightarrow> redeem_step k cfg st (put_vault db st)"
| tracking: "updateTracking now i t c (rs_vault st) = Inr (x, db) \<Longrightarrow> redeem_step k cfg st (put_vault db st)"
| tracking_batch: "updateTrackingBatch now po b key t c ids (rs_vault st) = Inr (xs, db) \<Longrightarrow>
    redeem_step k cfg st (put_vault db st)"
| tracking_partner: "updateTrackingBatchForPartner now p b key t c is (rs_vault st) = Inr (xs, db) \<Longrightarrow>
    redeem_step k cfg st (put_vault db st)"
| refund: "reports fw \<Longrightarrow> refundUsdcBatch config fw now b st = (st', r6) \<Longrightarrow> redeem_step k cfg st st'"
| send_back: "hash_known cy \<Longrightarrow> returnNft config cy now i (rs_vault st) = (db, r7) \<Longrightarrow>
    redeem_step k cfg st (put_vault db st)"
| refund_full: "reports fw \<Longrightarrow> \<forall>i. hash_known (cys i) \<Longrightarrow> refundFullBatch config fw cys now b st = (st', r8) \<Longrightarrow>
    redeem_step k cfg st st'"
| other: "market_step k cfg (rs_market st) m \<Longrightarrow> vd_redemptions (mk_vault m) = vd_redemptions (rs_vault st) \<Longrightarrow>
    redeem_step k cfg st (st\<lparr>rs_market := m\<rparr>)"

inductive_cases redeem_stepE: "redeem_step k cfg st st'"

text \<open>A batch of which every row is refunded.\<close>

definition settled_batch :: "string \<Rightarrow> vault_db \<Rightarrow> bool" where
  "settled_batch b db = (batch_rows b db \<noteq> [] \<and> list_all usdc_is_refunded (batch_rows b db))"

definition refunds_ok :: "redeem_state \<Rightarrow> bool" where
  "refunds_ok st = (distinct (map fst (rs_refunds st)) \<and> (\<forall>x \<in> set (rs_refunds st). settled_batch (fst x) (rs_vault st)))"

definition redeem_wf :: "config \<Rightarrow> redeem_state \<Rightarrow> bool" where
  "redeem_wf cfg st = (market_wf cfg (rs_market st) \<and> rows_ok (vd_redemptions (rs_vault st)) \<and> pins_ok st \<and> refunds_ok st)"

lemma redeem_wf_inv: "redeem_wf cfg st \<Longrightarrow> redeem_inv (rs_vault st)"
  by (simp add: redeem_wf_def redeem_inv_def market_wf_def rs_vault_def)

lemma vault_flow_ok: "redeem_inv db \<Longrightarrow> vault_flow k db db' \<Longrightarrow> flow_ok B db db'"
proof (rotate_tac, induction rule: rtranclp_induct)
  case base
  then show ?case by (rule flow_ok_refl)
next
  case (step x y)
  then have 1: "flow_ok B db x" by blast
  then have "redeem_inv x" by (simp add: flow_ok_def)
  from redeem_vault_step_flow [OF this step.hyps(2)] 1 show ?case by (rule flow_ok_trans [rotated])
qed

lemma settled_alt:
  "settled_batch b db \<longleftrightarrow> (\<exists>r \<in> set (vd_redemptions db). vr_paymentBatchId r = Some b)
     \<and> (\<forall>r \<in> set (vd_redemptions db). vr_paymentBatchId r = Some b \<longrightarrow> usdc_is_refunded r)"
proof -
  have "batch_rows b db \<noteq> [] \<longleftrightarrow> (\<exists>r. r \<in> set (batch_rows b db))" by (cases "batch_rows b db") auto
  then show ?thesis by (auto simp: settled_batch_def list_all_iff set_batch_rows)
qed

lemma settled_kept:
  assumes "batches_kept {} (vd_redemptions db) (vd_redemptions db')" "settled_batch b db"
  shows "settled_batch b db'"
  unfolding settled_alt
proof (intro conjI ballI impI)
  obtain r where r: "r \<in> set (vd_redemptions db)" "vr_paymentBatchId r = Some b"
    using assms(2) unfolding settled_alt by blast
  then obtain r' where "r' \<in> set (vd_redemptions db')" "vr_paymentBatchId r' = vr_paymentBatchId r"
    using bspec [OF conjunct1 [OF assms(1) [unfolded batches_kept_def]] r(1)] by blast
  then show "\<exists>r \<in> set (vd_redemptions db'). vr_paymentBatchId r = Some b" using r(2) by auto
  fix r' assume r': "r' \<in> set (vd_redemptions db')" "vr_paymentBatchId r' = Some b"
  note q = bspec [OF conjunct2 [OF assms(1) [unfolded batches_kept_def]] r'(1)]
  from q r'(2) r obtain x where "x \<in> set (vd_redemptions db)" "vr_paymentBatchId x = Some b"
    "usdc_is_refunded x \<longrightarrow> usdc_is_refunded r'" by auto
  then show "usdc_is_refunded r'" using assms(2) unfolding settled_alt by blast
qed

lemma flows_wf:
  assumes wf: "redeem_wf cfg st" and fl: "flows k st st'"
  shows "redeem_wf cfg st'"
proof -
  have v: "vault_flow k (rs_vault st) (rs_vault st')" using fl by (simp add: flows_def)
  have ok: "flow_ok {} (rs_vault st) (rs_vault st')" by (rule vault_flow_ok [OF redeem_wf_inv [OF wf] v])
  then have "refunds_ok st'"
    using wf fl settled_kept unfolding redeem_wf_def refunds_ok_def flow_ok_def flows_def by metis
  moreover have "market_wf cfg (rs_market st')"
    using wf fl ok by (auto simp: redeem_wf_def flows_def market_wf_def flow_ok_def redeem_inv_def rs_vault_def)
  ultimately show ?thesis
    using wf fl ok by (simp add: redeem_wf_def flows_def flow_ok_def redeem_inv_def)
qed

lemma settle_settles:
  assumes "vault_wf db" "batch_rows b db \<noteq> []"
  shows "settled_batch b (settle_refund now h m (batch_rows b db) db)"
proof -
  let ?rs = "batch_rows b db" and ?f = "applyUsdcRefundFields h m now"
  have "save_rows (map ?f ?rs) db = db\<lparr>vd_redemptions :=
      map (\<lambda>y. if y \<in> set ?rs then ?f y else y) (vd_redemptions db)\<rparr>"
    by (rule save_rows_map [OF assms(1) distinct_batch_rows [OF assms(1)]]) (auto simp: set_batch_rows)
  then have rows: "vd_redemptions (settle_refund now h m ?rs db)
      = map (\<lambda>y. if y \<in> set ?rs then ?f y else y) (vd_redemptions db)"
    by (simp add: settle_refund_def Let_def resetCyclesIfRefunded_def)
  obtain r where "r \<in> set ?rs" using assms(2) by (cases ?rs) auto
  then have "r \<in> set (vd_redemptions db)" "vr_paymentBatchId r = Some b" by (simp_all add: set_batch_rows)
  then have 1: "?f r \<in> set (map (\<lambda>y. if y \<in> set ?rs then ?f y else y) (vd_redemptions db))"
      "vr_paymentBatchId (?f r) = Some b" by (auto simp: set_batch_rows rev_image_eqI)
  show ?thesis
    unfolding settled_alt rows
  proof
    show "\<exists>r \<in> set (map (\<lambda>y. if y \<in> set ?rs then ?f y else y) (vd_redemptions db)). vr_paymentBatchId r = Some b"
      using 1 by (rule bexI [rotated])
  qed (auto simp: set_batch_rows)
qed

lemma refundUsdc_wf:
  assumes wf: "redeem_wf cfg st" and rep: "reports fw" and op: "refundUsdcBatch config fw now b st = (st', r)"
  shows "redeem_wf cfg st'" "custody_life (rs_vault st) (rs_vault st')"
    "rows_life (vd_redemptions (rs_vault st)) (vd_redemptions (rs_vault st'))"
    "custody_forward (rs_vault st) (rs_vault st')"
proof -
  note inv = redeem_wf_inv [OF wf]
  have "redeem_wf cfg st' \<and> custody_life (rs_vault st) (rs_vault st')
     \<and> rows_life (vd_redemptions (rs_vault st)) (vd_redemptions (rs_vault st'))
     \<and> custody_forward (rs_vault st) (rs_vault st')"
    using rep op
  proof (cases rule: refundUsdc_cases)
    case 1
    with wf show ?thesis using custody_forward_refl by simp
  next
    case (2 h m new)
    let ?db = "settle_refund now h m (batch_rows b (rs_vault st)) (rs_vault st)"
    have fl: "flow_ok {} (rs_vault st) ?db" by (rule refund_flow [OF inv 2(1,2)])
    have ne: "batch_rows b (rs_vault st) \<noteq> []" using 2(1) by (simp add: assertRefundable_Inr)
    have old: "x \<in> set (rs_refunds st) \<Longrightarrow> settled_batch (fst x) (rs_vault st)" for x
      using wf by (simp add: redeem_wf_def refunds_ok_def)
    have kept: "batches_kept {} (vd_redemptions (rs_vault st)) (vd_redemptions ?db)"
      using fl by (simp add: flow_ok_def)
    have "b \<notin> fst ` set (rs_refunds st)"
      using old 2(2) by (auto simp: settled_batch_def)
    moreover have "settled_batch b ?db"
      by (rule settle_settles [OF _ ne]) (use inv in \<open>simp add: redeem_inv_def\<close>)
    moreover have "settled_batch (fst x) ?db" if "x \<in> set (rs_refunds st)" for x
      by (rule settled_kept [OF kept old [OF that]])
    ultimately have "refunds_ok st'"
      using wf 2(5) by (auto simp: 2(3) refunds_ok_def redeem_wf_def image_iff)
    moreover have "flows k st (put_vault ?db st)"
      by (rule flows_vault [OF flows_refl]) (rule r_into_rtranclp, rule redeem_vault_step.refunded [OF 2(1,2)])
    from flows_wf [OF wf this] have "redeem_wf cfg (put_vault ?db st)" .
    ultimately show ?thesis
      using fl by (simp add: 2(3) redeem_wf_def pins_ok_def flow_ok_def) (simp add: put_vault_def)
  qed
  then show "redeem_wf cfg st'" "custody_life (rs_vault st) (rs_vault st')"
    "rows_life (vd_redemptions (rs_vault st)) (vd_redemptions (rs_vault st'))"
    "custody_forward (rs_vault st) (rs_vault st')" by simp_all
qed

section \<open>Every step is safe\<close>

text \<open>
  What every step of the machine does: the invariant again, and the two graphs, with the way
  back from requested to minted for the cycles of refunded redemptions only.
\<close>

definition safe_to :: "config \<Rightarrow> redeem_state \<Rightarrow> redeem_state \<Rightarrow> bool" where
  "safe_to cfg st st' = (redeem_wf cfg st' \<and> custody_life (rs_vault st) (rs_vault st')
     \<and> rows_life (vd_redemptions (rs_vault st)) (vd_redemptions (rs_vault st'))
     \<and> custody_forward (rs_vault st) (rs_vault st'))"

lemma safe_trans: "safe_to cfg a b \<Longrightarrow> safe_to cfg b c \<Longrightarrow> safe_to cfg a c"
  unfolding safe_to_def by (metis rtranclp_trans custody_forward_trans)

lemma flows_safe:
  assumes wf: "redeem_wf cfg st" and fl: "flows k st st'"
  shows "safe_to cfg st st'"
proof -
  have "vault_flow k (rs_vault st) (rs_vault st')" using fl by (simp add: flows_def)
  from vault_flow_ok [OF redeem_wf_inv [OF wf] this, of "{}"] flows_wf [OF wf fl]
  show ?thesis by (simp add: safe_to_def flow_ok_def)
qed

lemma vault_safe: "redeem_wf cfg st \<Longrightarrow> vault_flow k (rs_vault st) db \<Longrightarrow> safe_to cfg st (put_vault db st)"
  by (rule flows_safe [OF _ flows_vault [OF flows_refl]])

lemma vault_step_safe: "redeem_wf cfg st \<Longrightarrow> redeem_vault_step k (rs_vault st) db \<Longrightarrow> safe_to cfg st (put_vault db st)"
  by (rule vault_safe [OF _ r_into_rtranclp])

lemma refundUsdc_safe:
  "redeem_wf cfg st \<Longrightarrow> reports fw \<Longrightarrow> refundUsdcBatch config fw now b st = (st', r) \<Longrightarrow> safe_to cfg st st'"
  unfolding safe_to_def by (intro conjI) (rule refundUsdc_wf; assumption)+

lemma refundFull_safe:
  assumes wf: "redeem_wf cfg st" and rep: "reports fw" and cys: "\<forall>i. hash_known (cys i)"
    and op: "refundFullBatch config fw cys now b st = (st', r)"
  shows "safe_to cfg st st'"
proof -
  obtain s p where p: "refundUsdcBatch config fw now b st = (s, p)" by fastforce
  have 1: "safe_to cfg st s" by (rule refundUsdc_safe [OF wf rep p])
  show ?thesis
  proof (cases p)
    case (Inl e)
    with op p have "st' = s" by (simp add: refundFullBatch_def andThen_def)
    then show ?thesis using 1 by simp
  next
    case (Inr x)
    let ?db = "snd (return_rows config cys now (batch_rows b (rs_vault s)) (rs_vault s))"
    have "st' = put_vault ?db s" using op p Inr by (auto simp: refundFullBatch_def andThen_def case_prod_beta Let_def)
    moreover have "vault_flow k (rs_vault s) ?db" for k using return_rows_flow cys by blast
    then have "safe_to cfg s (put_vault ?db s)" using 1 vault_safe by (auto simp: safe_to_def)
    ultimately show ?thesis using safe_trans [OF 1] by simp
  qed
qed

lemma partner_flow:
  assumes inv: "redeem_inv db" and op: "updateTrackingBatchForPartner now p b key t c is db = Inr (rows, db')"
  shows "vault_flow k db db'"
  using op tracking_batch_flow [OF inv]
  by (auto simp: updateTrackingBatchForPartner_def Let_def on_ok_eq_Inr split: option.splits if_splits sum.splits)

text \<open>The order book and the rest of the vault.\<close>

lemma market_step_vault_wf: "redeem_wf cfg st \<Longrightarrow> market_step k cfg (rs_market st) m \<Longrightarrow> market_wf cfg m"
  using market_step_ok by (auto simp: redeem_wf_def)

lemma market_step_custody:
  assumes wf: "market_wf cfg m" and s: "market_step k cfg m m'"
  shows "cycle_life (mk_vault m) (mk_vault m')"
  using market_step_evolves [OF s]
proof
  assume "evolves cfg m m'"
  then have "registry_step\<^sup>*\<^sup>* (mk_vault m) (mk_vault m')" by (simp add: evolves_def)
  moreover have v: "vault_wf (mk_vault m)" using wf by (simp add: market_wf_def)
  ultimately have "registry_le (mk_vault m) (mk_vault m')" by (rule registry_machine.steps_adv [rotated])
  then show ?thesis by (intro life_same_cycles) (simp add: registry_le_def)
next
  assume "\<exists>db. vault_step k (mk_vault m) db \<and> m' = m\<lparr>mk_vault := db\<rparr>"
  then show ?thesis using wf vault_step_life by (auto simp: market_wf_def)
qed

lemma other_safe:
  assumes wf: "redeem_wf cfg st" and s: "market_step k cfg (rs_market st) m"
    and same: "vd_redemptions (mk_vault m) = vd_redemptions (rs_vault st)"
  shows "safe_to cfg st (st\<lparr>rs_market := m\<rparr>)"
proof -
  have "market_wf cfg m" by (rule market_step_vault_wf [OF wf s])
  moreover have "market_wf cfg (rs_market st)" using wf by (simp add: redeem_wf_def)
  then have life: "cycle_life (rs_vault st) (mk_vault m)"
    using market_step_custody [OF _ s] by (simp add: rs_vault_def)
  moreover have "custody_forward (rs_vault st) (mk_vault m)" by (rule life_forward [OF life]) (simp add: same)
  moreover have "settled_batch b (mk_vault m) = settled_batch b (rs_vault st)" for b
    by (simp add: settled_alt same)
  ultimately show ?thesis
    using wf same cycle_custody_life by (simp add: safe_to_def redeem_wf_def refunds_ok_def pins_ok_def rs_vault_def)
qed

lemma redeem_step_safe:
  assumes wf: "redeem_wf cfg st" and step: "redeem_step k cfg st st'"
  shows "safe_to cfg st st'"
  using step
proof cases
  note inv = redeem_wf_inv [OF wf]
  have fst_safe: "safe_to cfg st s" if "flows k st (fst p)" "p = (s, r)" for p s and r :: "'x"
    using flows_safe [OF wf] that by fastforce
  { case quote then show ?thesis by (intro fst_safe [OF estimate_flows]) }
  { case request then show ?thesis by (intro fst_safe [OF request_flows]) }
  { case intake then show ?thesis by (intro fst_safe [OF confirmCustody_flows]) }
  { case receipt then show ?thesis by (intro fst_safe [OF confirmReceipt_flows [OF inv]]) }
  { case poll show ?thesis unfolding poll [symmetric] by (rule flows_safe [OF wf pollOnce_flows [OF inv]]) }
  { case admin_burn then show ?thesis
      using burnTokenOnChain_burning [of k] fst_safe by (metis burning_def) }
  { case release then show ?thesis using vault_step_safe [OF wf redeem_vault_step.released] by simp }
  { case memo then show ?thesis using vault_safe [OF wf memo_flow] by simp }
  { case memo_batch then show ?thesis using vault_safe [OF wf memo_batch_flow [OF inv]] by simp }
  { case tracking then show ?thesis using vault_safe [OF wf tracking_flow] by simp }
  { case tracking_batch then show ?thesis using vault_safe [OF wf tracking_batch_flow [OF inv]] by simp }
  { case tracking_partner then show ?thesis using vault_safe [OF wf partner_flow [OF inv]] by simp }
  { case refund then show ?thesis using refundUsdc_safe [OF wf] by blast }
  { case send_back then show ?thesis using vault_safe [OF wf returnNft_flow] by simp }
  { case refund_full then show ?thesis using refundFull_safe [OF wf] by blast }
  { case other then show ?thesis using other_safe [OF wf] by simp }
qed

interpretation redeem_flow: invariant_machine "redeem_step k cfg" "redeem_wf cfg" for k cfg
  by unfold_locales (use redeem_step_safe in \<open>auto simp: safe_to_def\<close>)

interpretation flow_rows: status_refinement "redeem_step k cfg" "redeem_wf cfg"
  "\<lambda>st. row_states (vd_redemptions (rs_vault st))" row_initial row_edge for k cfg
  by unfold_locales (use redeem_step_safe in \<open>auto simp: safe_to_def\<close>)

interpretation flow_cycles: status_refinement "redeem_step k cfg" "redeem_wf cfg"
  "\<lambda>st. cycle_statuses (rs_vault st)" initial_cycle custody_edge for k cfg
  by unfold_locales (use redeem_step_safe in \<open>auto simp: safe_to_def\<close>)

interpretation flow_forward: monotone_machine "redeem_step k cfg" "redeem_wf cfg"
  "\<lambda>st st'. custody_forward (rs_vault st) (rs_vault st')" for k cfg
  by unfold_locales
     (use redeem_step_safe custody_forward_refl custody_forward_trans in \<open>auto simp: safe_to_def\<close>)

definition no_redeems :: redeem_state where
  "no_redeems = \<lparr>rs_market = empty_market, rs_pins = [], rs_refunds = []\<rparr>"

lemma no_redeems_wf: "redeem_wf cfg no_redeems"
  using empty_redeem_inv empty_market_wf [of cfg]
  by (simp add: redeem_wf_def no_redeems_def pins_ok_def refunds_ok_def rs_vault_def redeem_inv_def empty_market_def)

end
