(* ===== verification/VaultProperties.thy ===== *)
theory VaultProperties
  imports VaultLifecycle "HOL-Library.Code_Target_Nat"
begin

text \<open>
  The properties of the vault, each with a witness on a small database: one card, certificate
  A1 on chain 1, deposited and then minted as token 40.
\<close>

section \<open>The example\<close>

definition sample_mint :: mint_result where
  "sample_mint = \<lparr>mr_cycleId = 1, mr_tokenContract = ''0xaa'', mr_tokenId = ''40'', mr_tokenURI = ''ipfs://m'',
     mr_txHash = ''t'', mr_certNumber = '' a1 '', mr_displayName = Some ''Card'', mr_displayImageUrl = None,
     mr_displayImageBackUrl = None, mr_settlementPolicy = None, mr_vaultPartnerId = None,
     mr_ownerWallet = Some ''0xBB'', mr_collectionKey = None\<rparr>"

definition deposited :: vault_db where
  "deposited = (case reserveCycleForDeposit id 5 '' a1 '' 1 psa_graded None None empty_db of
     Inl e \<Rightarrow> empty_db | Inr (a, c, db) \<Rightarrow> db)"

definition sample_vault :: vault_db where
  "sample_vault = fst (recordMintResult id 7 sample_mint deposited)"

lemma reserve_sample:
  "(case reserveCycleForDeposit id 5 '' a1 '' 1 psa_graded None None empty_db of Inl _ \<Rightarrow> False | Inr _ \<Rightarrow> True)"
  by code_simp

lemma deposited_step: "vault_step id empty_db deposited"
proof -
  obtain x where "reserveCycleForDeposit id 5 '' a1 '' 1 psa_graded None None empty_db = Inr x"
    using reserve_sample by (cases "reserveCycleForDeposit id 5 '' a1 '' 1 psa_graded None None empty_db") simp_all
  then show ?thesis by (cases x) (auto simp only: deposited_def sum.case prod.case intro: vault_step.reserve)
qed

lemma deposited_reachable: "(vault_step id)\<^sup>*\<^sup>* empty_db deposited"
  by (rule r_into_rtranclp) (rule deposited_step)

lemma minted_step: "vault_step id deposited sample_vault"
  unfolding sample_vault_def by (rule vault_step.record_mint [OF prod.collapse [symmetric]])

lemma minted_steps: "(vault_step id)\<^sup>*\<^sup>* deposited sample_vault"
  by (rule r_into_rtranclp) (rule minted_step)

lemma sample_reachable: "(vault_step id)\<^sup>*\<^sup>* empty_db sample_vault"
  by (rule rtranclp_trans [OF deposited_reachable minted_steps])

lemma deposited_wf: "vault_wf deposited"
  by (rule reachable_wf [OF deposited_reachable])

lemma sample_wf: "vault_wf sample_vault"
  by (rule reachable_wf [OF sample_reachable])

section \<open>Invariants and the life of a cycle\<close>

lemma one_cycle_number:
  assumes "vault_wf db" "c \<in> set (vd_cycles db)" "d \<in> set (vd_cycles db)"
    "vc_vaultAssetId c = vc_vaultAssetId d" "vc_cycleNumber c = vc_cycleNumber d"
  shows "c = d"
proof -
  have "vc_id c = vc_id d"
    by (rule unique_indexD [of vc_id "\<lambda>c. (vc_vaultAssetId c, vc_cycleNumber c)" "\<lambda>_. True" "vd_cycles db"])
       (use assms in \<open>simp_all add: wf_defs\<close>)
  then show ?thesis by (rule cycle_by_id [OF assms(1-3)])
qed

text \<open>C1 In every database the vault can reach, a card has at most one open cycle on a chain,
  no two cycles of a card have the same number, a cycle has at most one open redemption and is
  then requested or redeemed, and a token that is linked to a cycle has been minted in it.\<close>
theorem vault_custody_invariant:
  assumes "(vault_step k)\<^sup>*\<^sup>* empty_db db"
  shows "(\<forall>c \<in> set (vd_cycles db). \<forall>d \<in> set (vd_cycles db). vc_vaultAssetId c = vc_vaultAssetId d \<longrightarrow>
      (open_cycle c \<and> open_cycle d \<and> vc_chainId c = vc_chainId d \<or> vc_cycleNumber c = vc_cycleNumber d) \<longrightarrow> c = d)
    \<and> (\<forall>r \<in> set (vd_redemptions db). open_redemption r \<longrightarrow> (\<exists>c. find_cycle (vr_vaultCycleId r) db = Some c
      \<and> (vc_status c = redemption_requested \<or> vc_status c = redeemed)
      \<and> (\<forall>q \<in> set (vd_redemptions db). open_redemption q \<and> vr_vaultCycleId q = vr_vaultCycleId r \<longrightarrow> q = r)))
    \<and> (\<forall>t \<in> set (vd_tokens db). \<forall>i. rt_vaultCycleId t = Some i \<longrightarrow>
      (\<exists>c. find_cycle i db = Some c \<and> vc_status c \<in> {minted, redemption_requested, redeemed}))"
proof (intro conjI)
  have wf: "vault_wf db" by (rule reachable_wf [OF assms])
  show "\<forall>c \<in> set (vd_cycles db). \<forall>d \<in> set (vd_cycles db). vc_vaultAssetId c = vc_vaultAssetId d \<longrightarrow>
      (open_cycle c \<and> open_cycle d \<and> vc_chainId c = vc_chainId d \<or> vc_cycleNumber c = vc_cycleNumber d) \<longrightarrow> c = d"
    using one_open_cycle [OF wf] one_cycle_number [OF wf] by blast
  show "\<forall>r \<in> set (vd_redemptions db). open_redemption r \<longrightarrow> (\<exists>c. find_cycle (vr_vaultCycleId r) db = Some c
      \<and> (vc_status c = redemption_requested \<or> vc_status c = redeemed)
      \<and> (\<forall>q \<in> set (vd_redemptions db). open_redemption q \<and> vr_vaultCycleId q = vr_vaultCycleId r \<longrightarrow> q = r))"
    using open_redemption_in_redemption [OF wf] one_open_redemption [OF wf]
    unfolding in_redemption_iff [OF wf] by metis
  show "\<forall>t \<in> set (vd_tokens db). \<forall>i. rt_vaultCycleId t = Some i \<longrightarrow>
      (\<exists>c. find_cycle i db = Some c \<and> vc_status c \<in> {minted, redemption_requested, redeemed})"
    using token_cycle [OF wf] by fastforce
qed

theorem vault_custody_invariant_witness:
  "\<exists>c. find_cycle 1 sample_vault = Some c \<and> vc_status c \<in> {minted, redemption_requested, redeemed}"
proof -
  let ?t = "hd (vd_tokens sample_vault)"
  have t: "?t \<in> set (vd_tokens sample_vault)" "rt_vaultCycleId ?t = Some 1" by code_simp+
  then show ?thesis using vault_custody_invariant [OF sample_reachable] by blast
qed

text \<open>C2 The vault refines the custody graph: between two reachable databases the map of cycle
  statuses changes only by new cycles with a verified deposit (or, for a repaired token, minted)
  and by moves along the edges deposit, mint, request, redeem, or cancel before the mint.\<close>
theorem vault_refines_custody_graph:
  assumes "(vault_step k)\<^sup>*\<^sup>* empty_db db" "(vault_step k)\<^sup>*\<^sup>* db db'"
  shows "(life_step initial_cycle cycle_edge)\<^sup>*\<^sup>* (cycle_statuses db) (cycle_statuses db')"
  by (rule vault_refines.refines_steps [OF reachable_wf [OF assms(1)] assms(2)])

theorem vault_refines_custody_graph_witness:
  "(life_step initial_cycle cycle_edge)\<^sup>*\<^sup>* (cycle_statuses deposited) (cycle_statuses sample_vault)
   \<and> cycle_statuses deposited 1 = Some deposit_verified \<and> cycle_statuses sample_vault 1 = Some minted"
proof (intro conjI)
  show "(life_step initial_cycle cycle_edge)\<^sup>*\<^sup>* (cycle_statuses deposited) (cycle_statuses sample_vault)"
    by (rule vault_refines_custody_graph [OF deposited_reachable minted_steps])
qed code_simp+

text \<open>A cycle that is redeemed or cancelled stays so for ever: the card can only come back in
  a new cycle with another number.\<close>
theorem closed_cycle_is_final:
  assumes "(vault_step k)\<^sup>*\<^sup>* empty_db db" "(vault_step k)\<^sup>*\<^sup>* db db'"
    and "find_cycle i db = Some c" "\<not> open_cycle c"
  shows "\<exists>d. find_cycle i db' = Some d \<and> vc_status d = vc_status c \<and> vc_cycleNumber d = vc_cycleNumber c"
proof -
  have wf: "vault_wf db" "vault_wf db'"
    using assms(1,2) reachable_wf vault_machine.steps_inv by blast+
  have "\<not> cycle_edge (vc_status c) y" for y using assms(4) by (auto simp: open_cycle_def)
  then have "cycle_statuses db' i = Some (vc_status c)"
    using assms(3) by (intro vault_refines.closed_stays [OF wf(1) assms(2)]) (auto simp: cycle_statuses_def)
  moreover have "cycles_advance db db'" by (rule vault_machine.steps_adv [OF wf(1) assms(2)])
  then obtain d where "d \<in> set (vd_cycles db')" "vc_id d = i" "vc_cycleNumber d = vc_cycleNumber c"
    using find_cycle_Some [OF assms(3)] unfolding cycles_advance_def by blast
  ultimately show ?thesis using find_cycle_member [OF wf(2)] by (auto simp: cycle_statuses_def)
qed

theorem closed_cycle_is_final_witness:
  "\<exists>d. find_cycle 1 (completeRedemptionBurn 9 ''0xaa'' ''40'' ''tx'' None sample_vault) = Some d
     \<and> vc_status d = redeemed \<and> vc_cycleNumber d = 1"
proof -
  let ?db = "completeRedemptionBurn 9 ''0xaa'' ''40'' ''tx'' None sample_vault"
  have "(vault_step id)\<^sup>*\<^sup>* empty_db ?db"
    using sample_reachable vault_step.burn [OF refl] by (meson rtranclp.rtrancl_into_rtrancl)
  moreover have c: "find_cycle 1 ?db = Some (the (find_cycle 1 ?db))" by code_simp
  moreover have "\<not> open_cycle (the (find_cycle 1 ?db))" by code_simp
  moreover have "vc_status (the (find_cycle 1 ?db)) = redeemed" "vc_cycleNumber (the (find_cycle 1 ?db)) = 1"
    by code_simp+
  ultimately show ?thesis using closed_cycle_is_final [of id ?db ?db 1 "the (find_cycle 1 ?db)"] by auto
qed

section \<open>The anchor of a card\<close>

text \<open>The certificate of a card is normalised, and its vaultRef is the hash of the certificate.\<close>

definition anchored :: "(string \<Rightarrow> string) \<Rightarrow> vault_db \<Rightarrow> bool" where
  "anchored k db = (\<forall>a \<in> set (vd_assets db). normalizeCert (va_externalCertNumber a) = va_externalCertNumber a
     \<and> va_externalCertNumber a \<noteq> [] \<and> va_vaultRef a = k (va_externalCertNumber a))"

lemma anchored_same: "vd_assets db' = vd_assets db \<Longrightarrow> anchored k db \<Longrightarrow> anchored k db'"
  by (simp add: anchored_def)

lemma anchored_save:
  "anchored k db \<Longrightarrow> normalizeCert (va_externalCertNumber a) = va_externalCertNumber a \<Longrightarrow>
   va_externalCertNumber a \<noteq> [] \<Longrightarrow> va_vaultRef a = k (va_externalCertNumber a) \<Longrightarrow> anchored k (save_asset a db)"
  unfolding anchored_def save_asset_def by simp (rule ball_upsert, simp_all)

lemma anchored_fields [simp]:
  "anchored k (db\<lparr>vd_next := n\<rparr>) = anchored k db" "anchored k (save_cycle now c db) = anchored k db"
  "anchored k (save_redemption r db) = anchored k db" "anchored k (save_token t db) = anchored k db"
  "anchored k (db\<lparr>vd_claims := cs\<rparr>) = anchored k db" "anchored k (db\<lparr>vd_tokens := ts\<rparr>) = anchored k db"
  by (simp_all add: anchored_def)

lemma find_or_create_anchored:
  assumes "anchored k db" "find_or_create_asset k ty (normalizeCert cert) name db = Inr (a, db')"
  shows "anchored k db'"
proof (cases "find_asset_by_cert ty (normalizeCert cert) db")
  case None
  with assms show ?thesis
    by (auto simp: find_or_create_asset_def on_ok_eq_Inr computeVaultRef_def Let_def intro!: anchored_save split: if_splits)
next
  case (Some b)
  then have "b \<in> set (vd_assets db)" using find_asset_by_cert_Some by blast
  then have b: "normalizeCert (va_externalCertNumber b) = va_externalCertNumber b
      \<and> va_externalCertNumber b \<noteq> [] \<and> va_vaultRef b = k (va_externalCertNumber b)"
    using assms(1) unfolding anchored_def by blast
  have "db' = db \<or> db' = save_asset (b\<lparr>va_displayName := trim_or_null name\<rparr>) db"
    using assms(2) Some by (auto simp: find_or_create_asset_def Let_def split: if_splits)
  moreover have "anchored k (save_asset (b\<lparr>va_displayName := trim_or_null name\<rparr>) db)"
    by (rule anchored_save [OF assms(1)]) (use b in simp_all)
  ultimately show ?thesis using assms(1) by blast
qed

lemma name_asset_anchored: "anchored k db \<Longrightarrow> anchored k (name_asset_once i name db)"
  by (auto simp: name_asset_once_def anchored_def [of k db] intro!: anchored_save
      dest!: find_asset_Some split: option.splits)

lemma record_anchored: "anchored k db \<Longrightarrow> recordMintResult k now p db = (db', res) \<Longrightarrow> anchored k db'"
  by (auto simp: recordMintResult_def Let_def name_asset_anchored split: option.splits sum.splits if_splits)

lemma backfill_anchored:
  assumes "anchored k db" and ok: "backfillCycleForToken k now t ch db = Inr (i, db')"
  shows "anchored k db'"
proof -
  from ok obtain cert a db1 c db2 ref where
    1: "backfill_asset k (normalizeCert cert) (rt_displayName t) db = Inr (a, db1)"
    and 2: "backfill_cycle now a ch db1 = Inr (c, db2)"
    and 3: "save_token_checked (t\<lparr>rt_vaultCycleId := Some (vc_id c), rt_vaultRef := ref\<rparr>) db2 = Inr db'"
    unfolding backfillCycleForToken_def Let_def by (auto simp: on_ok_eq_Inr split: option.splits)
  have "anchored k db1"
    using 1 assms(1) find_or_create_anchored unfolding backfill_asset_def by (auto split: option.splits)
  moreover have "anchored k db2 = anchored k db1"
    using 2 by (auto simp: backfill_cycle_def Let_def split: option.splits if_splits)
  moreover have "anchored k db' = anchored k db2"
    using 3 by (auto simp: save_token_checked_def Let_def split: if_splits)
  ultimately show ?thesis by simp
qed

lemma paid_rows_anchored:
  "anchored k db \<Longrightarrow> insert_paid_rows k now cl paidAt ch items db = Inr (out, db') \<Longrightarrow> anchored k db'"
proof (induction items arbitrary: db out)
  case (Cons it items)
  then obtain r db1 out' where 1: "insertPaidRedemptionRow k now cl paidAt ch it db = Inr (r, db1)"
    and 2: "insert_paid_rows k now cl paidAt ch items db1 = Inr (out', db')"
    by (auto simp: on_ok_eq_Inr)
  from 1 obtain t i db2 where
    b: "(case rt_vaultCycleId t of Some i \<Rightarrow> Inr (i, db) | None \<Rightarrow> backfillCycleForToken k now t ch db) = Inr (i, db2)"
    and p: "paid_row_for_cycle now cl paidAt ch it i db2 = Inr (r, db1)"
    by (rule insertPaidRow_Inr)
  have "anchored k db2" using b Cons.prems(1) by (auto dest: backfill_anchored split: option.splits)
  with p have "anchored k db1" by (elim paid_row_Inr) simp
  then show ?case by (rule Cons.IH [OF _ 2])
qed simp

lemma burn_assets: "vd_assets (completeRedemptionBurn now tc tid tx by db) = vd_assets db"
  by (cases rule: completeBurn_cases [of tc tid db now tx "by"])
     (auto elim!: burn_redemption_cases)

lemma receipt_assets: "vd_assets (fold save_redemption rs db) = vd_assets db"
  by (induction rs arbitrary: db) simp_all

lemma transfer_assets:
  "vd_assets (recordTransfer now c i w db) = vd_assets db" "vd_assets (recordBurn now c i db) = vd_assets db"
  by (simp_all add: recordTransfer_def recordOwner_def put_owner_def recordBurn_def Let_def split: option.split)

lemma vault_step_anchored: "vault_step k db db' \<Longrightarrow> vault_wf db \<Longrightarrow> anchored k db \<Longrightarrow> anchored k db'"
proof (elim vault_stepE)
  fix now cert ch ty name user a c
  assume "reserveCycleForDeposit k now cert ch ty name user db = Inr (a, c, db')" "anchored k db"
  then show "anchored k db'" by (elim reserve_Inr) (auto dest: find_or_create_anchored)
next
  fix now tc tid user owner ship fees r
  assume "requestRedemption now tc tid user owner ship fees db = Inr (r, db')" "anchored k db" "vault_wf db"
  then obtain c where "db' = save_cycle now (c\<lparr>vc_status := redemption_requested\<rparr>)
      (save_redemption r (db\<lparr>vd_next := vd_next db + 1\<rparr>))"
    using requestRedemption_Inr by metis
  then show "anchored k db'" using \<open>anchored k db\<close> by simp
next
  fix now tx b m paidAt ch items out
  assume "createPaidRedemptionBatch k now tx b m paidAt ch items db = Inr (out, db')" "anchored k db"
  then show "anchored k db'"
    by (elim createPaidBatch_Inr) (drule insertPaymentClaim_Inr, rule paid_rows_anchored, simp_all)
next
  fix ts via rows rows'
  assume "markUserReceiptConfirmed ts via rows db = (rows', db')" "anchored k db"
  then show "anchored k db'"
    by (auto simp: markUserReceiptConfirmed_def Let_def anchored_def receipt_assets split: if_splits)
qed (auto simp: beginMintAttempt_def noteMintAttemptTx_def cancelCycle_def markCustodyReceived_def
    confirmVaultRelease_def anchored_same [OF burn_assets] anchored_same [OF transfer_assets(1)]
    anchored_same [OF registry_frames(1)] anchored_same [OF registry_frames(5)] Let_def dest: record_anchored
    split: option.splits if_splits)

lemma reachable_anchored: "(vault_step k)\<^sup>*\<^sup>* empty_db db \<Longrightarrow> anchored k db"
proof (induction rule: rtranclp_induct)
  case base
  show ?case by (simp add: anchored_def empty_db_def)
next
  case (step db db')
  then show ?case using vault_step_anchored reachable_wf by blast
qed

section \<open>Deposits\<close>

lemma find_or_create_total:
  assumes "normalizeCert cert \<noteq> []"
  shows "\<exists>a db'. find_or_create_asset k ty (normalizeCert cert) name db = Inr (a, db')"
  using assms by (auto simp: find_or_create_asset_def computeVaultRef_def Let_def split: option.split)

text \<open>A new card has no cycle, so the check on the card and the check on its row agree.\<close>

lemma open_cycle_of_asset:
  assumes wf: "vault_wf db" and a: "find_or_create_asset k ty cert name db = Inr (a, db1)"
  shows "open_cycle_of (va_id a) ch db1 =
    (case find_asset_by_cert ty cert db of None \<Rightarrow> None | Some b \<Rightarrow> open_cycle_of (va_id b) ch db)"
proof (cases "find_asset_by_cert ty cert db")
  case None
  then have "va_id a = vd_next db" "vd_cycles db1 = vd_cycles db"
    using a by (auto simp: find_or_create_asset_def on_ok_eq_Inr Let_def)
  moreover have "\<forall>c \<in> set (vd_cycles db). vc_vaultAssetId c < vd_next db"
    using wf by (auto simp: wf_defs) metis
  ultimately have "open_cycle_of (va_id a) ch db1 = None"
    by (auto simp: open_cycle_of_None)
  with None show ?thesis by simp
next
  case (Some b)
  then have "va_id a = va_id b" "vd_cycles db1 = vd_cycles db"
    using a by (auto simp: find_or_create_asset_def Let_def split: if_splits)
  with Some show ?thesis by (simp add: open_cycle_of_def)
qed

lemma findOpen_None_iff:
  "findOpenCycleForCert cert ch ty db = None \<longleftrightarrow> normalizeCert cert = [] \<or>
     (case find_asset_by_cert ty (normalizeCert cert) db of None \<Rightarrow> True
      | Some b \<Rightarrow> open_cycle_of (va_id b) ch db = None)"
  by (auto simp: findOpenCycleForCert_def Let_def split: option.splits)

text \<open>A deposit is accepted exactly when the pre-flight check of the API says that the card is
  available on the chain (and the certificate is not blank).\<close>
theorem reserve_iff_available:
  assumes "(vault_step k)\<^sup>*\<^sup>* empty_db db"
  shows "(\<exists>a c db'. reserveCycleForDeposit k now cert ch ty name user db = Inr (a, c, db')) \<longleftrightarrow>
    normalizeCert cert \<noteq> [] \<and> fst (checkAvailableForNewCycle cert ch ty db)"
proof (cases "normalizeCert cert = []")
  case False
  have wf: "vault_wf db" by (rule reachable_wf [OF assms])
  obtain a db1 where f: "find_or_create_asset k ty (normalizeCert cert) name db = Inr (a, db1)"
    using find_or_create_total [OF False] by blast
  have "(\<exists>a c db'. reserveCycleForDeposit k now cert ch ty name user db = Inr (a, c, db')) \<longleftrightarrow>
      open_cycle_of (va_id a) ch db1 = None"
    using False f by (auto simp: reserveCycleForDeposit_def Let_def on_ok_def split: option.splits)
  also have "\<dots> \<longleftrightarrow> findOpenCycleForCert cert ch ty db = None"
    unfolding open_cycle_of_asset [OF wf f] findOpen_None_iff using False by (simp split: option.split)
  finally show ?thesis
    using False by (auto simp: checkAvailableForNewCycle_def split: option.splits)
qed (simp add: reserveCycleForDeposit_def)

theorem reserve_iff_available_witness:
  "(\<exists>a c db'. reserveCycleForDeposit id 9 ''A1'' 137 psa_graded None None sample_vault = Inr (a, c, db'))
   \<and> \<not> (\<exists>a c db'. reserveCycleForDeposit id 9 ''A1'' 1 psa_graded None None sample_vault = Inr (a, c, db'))"
  unfolding reserve_iff_available [OF sample_reachable] by code_simp

text \<open>An accepted deposit opens a cycle with a verified deposit and the next number of the card,
  the card is then taken on this chain, and no other cycle has changed.\<close>
theorem reserve_opens_cycle:
  assumes "(vault_step k)\<^sup>*\<^sup>* empty_db db"
    and ok: "reserveCycleForDeposit k now cert ch ty name user db = Inr (a, c, db')"
  shows "vc_status c = deposit_verified \<and> vc_chainId c = ch
    \<and> vc_cycleNumber c = length (cycles_of_asset (va_id a) db) + 1
    \<and> findOpenCycleForCert cert ch ty db' = Some (normalizeCert cert, vc_cycleNumber c, deposit_verified)
    \<and> reserveCycleForDeposit k now2 cert ch ty name2 user2 db' =
        Inl (ConflictException ''PSA cert already has an active vault cycle on chain'')
    \<and> set (vd_cycles db') = insert c (set (vd_cycles db))"
proof -
  have wf: "vault_wf db" by (rule reachable_wf [OF assms(1)])
  from ok obtain db1 where ne: "normalizeCert cert \<noteq> []"
    and r: "find_or_create_asset k ty (normalizeCert cert) name db = Inr (a, db1)"
    and c: "c = \<lparr>vc_id = vd_next db1, vc_vaultAssetId = va_id a, vc_chainId = ch,
        vc_cycleNumber = length (cycles_of_asset (va_id a) db1) + 1, vc_status = deposit_verified,
        vc_depositedAt = Some now, vc_depositVerifiedBy = None, vc_depositedByUserId = user,
        vc_redeemedAt = None, vc_mintAttempt = None, vc_updatedAt = now\<rparr>"
    and db': "db' = save_cycle now c (db1\<lparr>vd_next := vd_next db1 + 1\<rparr>)"
    by (rule reserve_Inr)
  note 1 = find_or_create_asset_ok [OF wf r]
  have wf': "vault_wf db'" using reserve_wf [OF wf ok] by simp
  have fresh: "vc_id c \<notin> vc_id ` set (vd_cycles db1)" using 1 c by (auto simp: wf_defs)
  have cyc: "set (vd_cycles db') = insert c (set (vd_cycles db))"
    using 1 fresh c by (auto simp: db' save_cycle_def upsert_fresh)
  have "vd_assets db' = vd_assets db1" by (simp add: db' save_cycle_def)
  then have asset: "find_asset_by_cert ty (normalizeCert cert) db' = Some a"
    using 1 by (simp add: find_asset_by_cert_def)
  have "open_cycle_of (vc_vaultAssetId c) (vc_chainId c) db' = Some c"
    by (rule open_cycle_of_member [OF wf']) (use cyc c in \<open>auto simp: open_cycle_def\<close>)
  then have "open_cycle_of (va_id a) ch db' = Some c" using c by simp
  then have open_c: "findOpenCycleForCert cert ch ty db' = Some (normalizeCert cert, vc_cycleNumber c, deposit_verified)"
    using ne asset c by (simp add: findOpenCycleForCert_def)
  obtain a2 db2 where f2: "find_or_create_asset k ty (normalizeCert cert) name2 db' = Inr (a2, db2)"
    using find_or_create_total [OF ne] by blast
  have "open_cycle_of (va_id a2) ch db2 \<noteq> None"
    unfolding open_cycle_of_asset [OF wf' f2] using asset \<open>open_cycle_of (va_id a) ch db' = Some c\<close> by simp
  then have "reserveCycleForDeposit k now2 cert ch ty name2 user2 db' =
      Inl (ConflictException ''PSA cert already has an active vault cycle on chain'')"
    using ne f2 by (auto simp: reserveCycleForDeposit_def Let_def on_ok_def)
  with open_c cyc c 1 show ?thesis by (simp add: cycles_of_asset_def)
qed

theorem reserve_opens_cycle_witness:
  "findOpenCycleForCert '' a1 '' 1 psa_graded deposited = Some (''A1'', 1, deposit_verified)"
proof -
  obtain x where "reserveCycleForDeposit id 5 '' a1 '' 1 psa_graded None None empty_db = Inr x"
    using reserve_sample by (cases "reserveCycleForDeposit id 5 '' a1 '' 1 psa_graded None None empty_db") simp_all
  then obtain a c db where r: "reserveCycleForDeposit id 5 '' a1 '' 1 psa_graded None None empty_db = Inr (a, c, db)"
    by (cases x) simp
  have "findOpenCycleForCert '' a1 '' 1 psa_graded db = Some (normalizeCert '' a1 '', vc_cycleNumber c, deposit_verified)"
    "vc_cycleNumber c = length (cycles_of_asset (va_id a) empty_db) + 1"
    using reserve_opens_cycle [OF rtranclp.rtrancl_refl r] by blast+
  moreover have "normalizeCert '' a1 '' = ''A1''" by code_simp
  moreover have "db = deposited" by (simp only: deposited_def r sum.case prod.case)
  ultimately show ?thesis by (simp add: cycles_of_asset_def empty_db_def)
qed

section \<open>Mints\<close>

lemma token_on_cycle:
  assumes wf: "vault_wf db" and t: "t \<in> set (vd_tokens db)" "rt_vaultCycleId t = Some i"
  shows "find_row (\<lambda>t. rt_vaultCycleId t = Some i) (vd_tokens db) = Some t"
proof (rule find_row_unique)
  have uq: "unique_index rt_key rt_vaultCycleId (\<lambda>t. rt_vaultCycleId t \<noteq> None) (vd_tokens db)"
    and dist: "distinct (map rt_key (vd_tokens db))"
    using wf by (auto simp: vault_wf_def tokens_wf_def tokens_unique_def uq_tokens_vault_cycle_def)
  show "\<forall>x \<in> set (vd_tokens db). rt_vaultCycleId x = Some i \<longrightarrow> x = t"
  proof (intro ballI impI)
    fix x assume x: "x \<in> set (vd_tokens db)" "rt_vaultCycleId x = Some i"
    then have "rt_key x = rt_key t" using unique_indexD [OF uq x(1) t(1)] t(2) by simp
    then show "x = t" using find_key_member [OF dist] x(1) t(1) by (metis option.inject)
  qed
qed (use t in auto)

lemma record_Inr:
  assumes "recordMintResult k now p db = (db', Inr u)"
  obtains c ref where "find_cycle (mr_cycleId p) db = Some c"
    "vc_status c \<in> {deposit_verified, minting, minted}"
    "computeVaultRef k (mr_certNumber p) = Inr ref"
    "db' = save_token (minted_row now (vc_id c) ref p (find_token (mr_tokenContract p, mr_tokenId p) db))
       (name_asset_once (vc_vaultAssetId c) (trim_or_null (mr_displayName p))
         (save_cycle now (c\<lparr>vc_status := minted, vc_mintAttempt := None\<rparr>) db))"
proof -
  have frame: "find_token x (name_asset_once i n (save_cycle now c db)) = find_token x db" for x i n c
    by (simp add: find_token_def)
  from assms obtain c where c: "find_cycle (mr_cycleId p) db = Some c"
    by (cases "find_cycle (mr_cycleId p) db") (auto simp: recordMintResult_def)
  with assms have s: "vc_status c \<in> {deposit_verified, minting, minted}"
    by (auto simp: recordMintResult_def split: if_splits)
  with assms c obtain ref where ref: "computeVaultRef k (mr_certNumber p) = Inr ref"
    by (cases "computeVaultRef k (mr_certNumber p)") (auto simp: recordMintResult_def Let_def)
  show thesis
    by (rule that [OF c s ref])
       (use assms c s ref in \<open>auto simp: recordMintResult_def Let_def frame split: if_splits\<close>)
qed

lemma minted_row_simps [simp]:
  "rt_vaultCycleId (minted_row now i ref p old) = Some i"
  "rt_certNumber (minted_row now i ref p old) = Some (normalizeCert (mr_certNumber p))"
  "rt_burnedAt (minted_row now i ref p old) = Option.bind old rt_burnedAt"
  "rt_settlementPolicy (minted_row now i ref p old) \<noteq> None"
  by (cases old; simp add: minted_row_def Let_def)+

lemma minted_row_key:
  assumes "\<And>t. old = Some t \<Longrightarrow> rt_key t = (mr_tokenContract p, mr_tokenId p)"
  shows "rt_key (minted_row now i ref p old) = (mr_tokenContract p, mr_tokenId p)"
  using assms by (cases old) (simp_all add: minted_row_def Let_def rt_key_def)

lemma name_asset_once_cert:
  "find_asset i db = Some a \<Longrightarrow> vault_wf db \<Longrightarrow>
   \<exists>b. find_asset_by_cert (va_assetType a) (va_externalCertNumber a) (name_asset_once j n db) = Some b \<and> va_id b = i"
proof -
  assume a: "find_asset i db = Some a" and wf: "vault_wf db"
  let ?db = "name_asset_once j n db"
  have wf': "vault_wf ?db" by (rule name_asset_once_wf [OF wf])
  have "\<exists>b. find_asset i ?db = Some b \<and> va_assetType b = va_assetType a
      \<and> va_externalCertNumber b = va_externalCertNumber a"
  proof (cases "find_asset j db")
    case (Some x)
    then have "va_id x = j" by (rule find_asset_Some [THEN conjunct2])
    with Some a show ?thesis
      by (cases "j = i") (auto simp: name_asset_once_def asset_repo.look_put split: option.split)
  qed (use a in \<open>auto simp: name_asset_once_def split: option.split\<close>)
  then obtain b where b: "b \<in> set (vd_assets ?db)" "va_id b = i"
    "va_assetType b = va_assetType a" "va_externalCertNumber b = va_externalCertNumber a"
    using find_asset_Some by blast
  then show ?thesis using find_asset_by_cert_member [OF wf' b(1)] by auto
qed

text \<open>What the three reads of findOpenMintedTokenForCert see after a recorded mint.\<close>

lemma record_lookup:
  assumes wf: "vault_wf db" and ok: "recordMintResult k now p db = (db', Inr ())"
    and c: "find_cycle (mr_cycleId p) db = Some c" and a: "find_asset (vc_vaultAssetId c) db = Some a"
  obtains ref b c' t where "normalizeCert (mr_certNumber p) \<noteq> []"
    "t = minted_row now (vc_id c) ref p (find_token (mr_tokenContract p, mr_tokenId p) db)"
    "c' = c\<lparr>vc_status := minted, vc_mintAttempt := None, vc_updatedAt := now\<rparr>"
    "find_asset_by_cert (va_assetType a) (va_externalCertNumber a) db' = Some b" "va_id b = vc_vaultAssetId c"
    "open_cycle_of (vc_vaultAssetId c) (vc_chainId c) db' = Some c'"
    "find_row (\<lambda>t. rt_vaultCycleId t = Some (vc_id c)) (vd_tokens db') = Some t"
    "rt_key t = (mr_tokenContract p, mr_tokenId p)"
proof -
  from ok obtain ref where s: "vc_status c \<in> {deposit_verified, minting, minted}"
    and ref: "computeVaultRef k (mr_certNumber p) = Inr ref"
    and db': "db' = save_token (minted_row now (vc_id c) ref p (find_token (mr_tokenContract p, mr_tokenId p) db))
       (name_asset_once (vc_vaultAssetId c) (trim_or_null (mr_displayName p))
         (save_cycle now (c\<lparr>vc_status := minted, vc_mintAttempt := None\<rparr>) db))"
    by (rule record_Inr) (use c in auto)
  let ?t = "minted_row now (vc_id c) ref p (find_token (mr_tokenContract p, mr_tokenId p) db)"
  let ?c = "c\<lparr>vc_status := minted, vc_mintAttempt := None, vc_updatedAt := now\<rparr>"
  let ?db1 = "save_cycle now (c\<lparr>vc_status := minted, vc_mintAttempt := None\<rparr>) db"
  have wf': "vault_wf db'" and wf1: "vault_wf ?db1"
    using record_wf [OF wf ok] step_cycle(1) [OF wf c, of "c\<lparr>vc_status := minted, vc_mintAttempt := None\<rparr>" now] s
    by (auto simp: status_order)
  obtain b where "find_asset_by_cert (va_assetType a) (va_externalCertNumber a)
      (name_asset_once (vc_vaultAssetId c) (trim_or_null (mr_displayName p)) ?db1) = Some b"
    and b: "va_id b = vc_vaultAssetId c"
    using name_asset_once_cert [OF _ wf1, of "vc_vaultAssetId c" a] a by auto
  then have fb: "find_asset_by_cert (va_assetType a) (va_externalCertNumber a) db' = Some b"
    by (simp add: db' find_asset_by_cert_def save_token_def)
  have "?c \<in> set (vd_cycles db')" by (simp add: db' save_tables)
  then have oc: "open_cycle_of (vc_vaultAssetId c) (vc_chainId c) db' = Some ?c"
    using open_cycle_of_member [OF wf', of ?c] by (simp add: open_cycle_def)
  have tm: "?t \<in> set (vd_tokens db')" by (simp add: db' save_tables)
  show thesis
  proof (rule that [OF _ refl refl fb b oc])
    show "normalizeCert (mr_certNumber p) \<noteq> []"
      using ref by (auto simp: computeVaultRef_def Let_def split: if_splits)
    show "find_row (\<lambda>t. rt_vaultCycleId t = Some (vc_id c)) (vd_tokens db') = Some ?t"
      by (rule token_on_cycle [OF wf' tm]) simp
    show "rt_key ?t = (mr_tokenContract p, mr_tokenId p)"
      by (rule minted_row_key) (auto dest: find_token_Some)
  qed
qed

text \<open>A recorded mint can be found again: for the certificate and the chain of the cycle,
  findOpenMintedTokenForCert returns this cycle and this token, so that a repeated request adopts
  the token instead of minting a second one.\<close>
theorem mint_roundtrip:
  assumes "(vault_step k)\<^sup>*\<^sup>* empty_db db"
    and ok: "recordMintResult k now p db = (db', Inr ())"
    and c: "find_cycle (mr_cycleId p) db = Some c" and a: "find_asset (vc_vaultAssetId c) db = Some a"
    and cert: "va_externalCertNumber a = normalizeCert (mr_certNumber p)"
    and tid: "is_decimal (mr_tokenId p)"
    and unburned: "Option.bind (find_token (mr_tokenContract p, mr_tokenId p) db) rt_burnedAt = None"
  shows "\<exists>c' t n ref. findOpenMintedTokenForCert (mr_certNumber p) (vc_chainId c) (va_assetType a) db' = Some (c', t, n, ref)
    \<and> vc_id c' = mr_cycleId p \<and> vc_status c' = minted \<and> rt_key t = (mr_tokenContract p, mr_tokenId p)
    \<and> rt_certNumber t = Some (normalizeCert (mr_certNumber p)) \<and> js_Number (mr_tokenId p) = Some n"
proof -
  obtain n where n: "radix_val 10 (mr_tokenId p) = Some n" using radix_val_decimal [OF tid] by blast
  have num: "js_Number (mr_tokenId p) = Some (of_nat n)" using js_Number_decimal [OF tid] n by simp
  have "mr_tokenId p \<noteq> []" using tid by (auto simp: is_decimal_def)
  moreover have "vc_id c = mr_cycleId p" using find_cycle_Some [OF c] by simp
  moreover obtain ref b c' t where "normalizeCert (mr_certNumber p) \<noteq> []"
    "t = minted_row now (vc_id c) ref p (find_token (mr_tokenContract p, mr_tokenId p) db)"
    "c' = c\<lparr>vc_status := minted, vc_mintAttempt := None, vc_updatedAt := now\<rparr>"
    "find_asset_by_cert (va_assetType a) (va_externalCertNumber a) db' = Some b" "va_id b = vc_vaultAssetId c"
    "open_cycle_of (vc_vaultAssetId c) (vc_chainId c) db' = Some c'"
    "find_row (\<lambda>t. rt_vaultCycleId t = Some (vc_id c)) (vd_tokens db') = Some t"
    "rt_key t = (mr_tokenContract p, mr_tokenId p)"
    by (rule record_lookup [OF reachable_wf [OF assms(1)] ok c a])
  moreover have "rt_tokenId t = mr_tokenId p" using calculation by (simp add: rt_key_def)
  ultimately show ?thesis
    using cert num unburned by (simp add: findOpenMintedTokenForCert_def)
qed

theorem mint_roundtrip_witness:
  "\<exists>c t n ref. findOpenMintedTokenForCert '' a1 '' 1 psa_graded sample_vault = Some (c, t, n, ref)
     \<and> vc_id c = 1 \<and> rt_key t = (''0xaa'', ''40'')"
proof -
  have ok: "recordMintResult id 7 sample_mint deposited = (sample_vault, Inr ())"
  proof -
    have "snd (recordMintResult id 7 sample_mint deposited) = Inr ()" by code_simp
    then show ?thesis unfolding sample_vault_def by (cases "recordMintResult id 7 sample_mint deposited") simp
  qed
  let ?c = "the (find_cycle 1 deposited)" and ?a = "the (find_asset 0 deposited)"
  have c: "find_cycle (mr_cycleId sample_mint) deposited = Some ?c" by code_simp
  moreover have "find_asset (vc_vaultAssetId ?c) deposited = Some ?a" by code_simp
  moreover have "va_externalCertNumber ?a = normalizeCert (mr_certNumber sample_mint)" by code_simp
  moreover have "is_decimal (mr_tokenId sample_mint)" by code_simp
  moreover have "Option.bind (find_token (mr_tokenContract sample_mint, mr_tokenId sample_mint) deposited) rt_burnedAt = None"
    by code_simp
  ultimately have "\<exists>c' t n ref. findOpenMintedTokenForCert (mr_certNumber sample_mint) (vc_chainId ?c) (va_assetType ?a) sample_vault
      = Some (c', t, n, ref) \<and> vc_id c' = mr_cycleId sample_mint
      \<and> rt_key t = (mr_tokenContract sample_mint, mr_tokenId sample_mint)"
    using mint_roundtrip [OF deposited_reachable ok] by blast
  moreover have "mr_certNumber sample_mint = '' a1 ''" "vc_chainId ?c = 1" "va_assetType ?a = psa_graded"
    "mr_cycleId sample_mint = 1" "mr_tokenContract sample_mint = ''0xaa''" "mr_tokenId sample_mint = ''40''"
    by code_simp+
  ultimately show ?thesis by simp
qed

lemma recovery_rows:
  assumes "x \<in> set (listMintingCyclesForRecovery n db)"
  shows "fst x \<in> set (vd_cycles db) \<and> vc_status (fst x) = minting"
proof -
  have "x \<in> set (List.map_filter (recoverable db) cs) \<Longrightarrow> fst x \<in> set cs" for cs
    by (induction cs) (auto simp: map_filter_simps recoverable_def split: option.splits if_splits)
  then have "fst x \<in> set (order_asc vc_updatedAt (filter (\<lambda>c. vc_status c = minting) (vd_cycles db)))"
    using assms unfolding listMintingCyclesForRecovery_def by (meson in_set_takeD)
  then show ?thesis by (simp add: order_asc_def)
qed

text \<open>C33 recordMintResult is not atomic: when the insert of the token is refused by a unique index,
  the cycle stays minted without a token, the mint attempt is lost, and the recovery job no longer
  lists the cycle, although the token exists on chain.\<close>
theorem mint_record_failure_strands_cycle:
  assumes "(vault_step k)\<^sup>*\<^sup>* empty_db db" and ok: "recordMintResult k now p db = (db', Inl e)"
    and c: "find_cycle (mr_cycleId p) db = Some c" "vc_status c \<in> {deposit_verified, minting, minted}"
  shows "find_cycle (mr_cycleId p) db' = Some (c\<lparr>vc_status := minted, vc_mintAttempt := None, vc_updatedAt := now\<rparr>)
    \<and> vd_tokens db' = vd_tokens db
    \<and> (\<forall>n. \<nexists>x. x \<in> set (listMintingCyclesForRecovery n db') \<and> vc_id (fst x) = mr_cycleId p)"
proof -
  let ?c = "c\<lparr>vc_status := minted, vc_mintAttempt := None, vc_updatedAt := now\<rparr>"
  let ?db1 = "save_cycle now (c\<lparr>vc_status := minted, vc_mintAttempt := None\<rparr>) db"
  have wf: "vault_wf db'" by (rule record_wf [OF reachable_wf [OF assms(1)] ok, THEN conjunct1])
  have "db' = ?db1 \<or> db' = name_asset_once (vc_vaultAssetId c) (trim_or_null (mr_displayName p)) ?db1"
    using ok c by (auto simp: recordMintResult_def Let_def split: sum.splits if_splits)
  then have f: "find_cycle (mr_cycleId p) db' = Some ?c" and t: "vd_tokens db' = vd_tokens db"
    using find_cycle_Some [OF c(1)] by (auto simp: table_simps)
  have "vc_id (fst x) \<noteq> mr_cycleId p" if "x \<in> set (listMintingCyclesForRecovery n db')" for n x
  proof
    assume "vc_id (fst x) = mr_cycleId p"
    then have "find_cycle (mr_cycleId p) db' = Some (fst x)"
      using recovery_rows [OF that] find_cycle_member [OF wf, of "fst x"] by simp
    with f have "fst x = ?c" by simp
    then have "vc_status (fst x) = minted" by simp
    then show False using recovery_rows [OF that] by simp
  qed
  with f t show ?thesis by blast
qed

definition second_chain :: vault_db where
  "second_chain = (case reserveCycleForDeposit id 9 ''A1'' 137 psa_graded None None sample_vault of
     Inl e \<Rightarrow> sample_vault | Inr (a, c, db) \<Rightarrow> db)"

definition second_mint :: mint_result where
  "second_mint = sample_mint\<lparr>mr_cycleId := 2, mr_tokenId := ''41''\<rparr>"

lemma second_chain_reachable: "(vault_step id)\<^sup>*\<^sup>* empty_db second_chain"
proof -
  have "(vault_step id)\<^sup>*\<^sup>* sample_vault second_chain"
    unfolding second_chain_def
    by (auto split: sum.split intro: r_into_rtranclp [of "vault_step id"] vault_step.reserve)
  then show ?thesis by (rule rtranclp_trans [OF sample_reachable])
qed

theorem mint_record_failure_strands_cycle_witness:
  "let db' = fst (recordMintResult id 9 second_mint second_chain) in
     snd (recordMintResult id 9 second_mint second_chain) = Inl unique_violation
     \<and> map_option vc_status (find_cycle 2 db') = Some minted \<and> vd_tokens db' = vd_tokens second_chain"
proof -
  let ?c = "the (find_cycle 2 second_chain)" and ?db = "fst (recordMintResult id 9 second_mint second_chain)"
  have v: "snd (recordMintResult id 9 second_mint second_chain) = Inl unique_violation" by code_simp
  then have ok: "recordMintResult id 9 second_mint second_chain = (?db, Inl unique_violation)"
    by (cases "recordMintResult id 9 second_mint second_chain") simp
  have i: "mr_cycleId second_mint = 2" by code_simp
  have c: "find_cycle 2 second_chain = Some ?c" "vc_status ?c \<in> {deposit_verified, minting, minted}" by code_simp+
  show ?thesis
    using mint_record_failure_strands_cycle [OF second_chain_reachable ok, unfolded i, OF c] v
    by (simp add: Let_def)
qed

end
