(* ===== verification/OrderSample.thy ===== *)
theory OrderSample
  imports OrderMachine VaultProperties "HOL-Library.Code_Target_Nat"
begin

text \<open>
  A small market for the witnesses of the order book: the card of the vault example minted as
  token 40 of the RWA contract of chain 1, a listing of it for 1 USDC, a bid for it, and the
  answers of a chain on which the seller still owns the token, or the listing is filled.
\<close>

definition rwa_addr :: string where "rwa_addr = ''0x'' @ replicate 40 CHR ''1''"
definition usdc_addr :: string where "usdc_addr = ''0x'' @ replicate 40 CHR ''2''"
definition seller :: string where "seller = ''0x'' @ replicate 40 CHR ''5''"
definition buyer :: string where "buyer = ''0x'' @ replicate 40 CHR ''b''"
definition platform :: string where "platform = ''0x'' @ replicate 40 CHR ''f''"

definition shop_config :: config where
  "shop_config = (\<lambda>k. if k = ''CHAIN_1_RPC_URL'' then Some ''http://node''
     else if k = ''CHAIN_1_RWA_ADDRESS'' then Some rwa_addr
     else if k = ''CHAIN_1_USDC_ADDRESS'' then Some usdc_addr
     else if k = ''PLATFORM_FEE_RECIPIENT'' then Some platform else None)"

text \<open>The chain: the hash of an order is its salt, the owner of every token is w.\<close>

definition chain_of :: "string \<Rightarrow> string list \<Rightarrow> chain_env" where
  "chain_of w filled = \<lparr>ce_getAddress = Some, ce_getOrderHash = (\<lambda>c. Some (''0x'' @ int_str (cp_salt c))),
     ce_getOrderStatus = (\<lambda>h. Some \<lparr>fs_isValidated = True, fs_isCancelled = False,
        fs_totalFilled = (if h \<in> set filled then 1 else 0), fs_totalSize = 1\<rparr>),
     ce_ownerOf = (\<lambda>a i. owner_is w), ce_balanceOf = (\<lambda>w. Some 5000000), ce_allowance = (\<lambda>w. Some 5000000),
     ce_blockTime = Some (Some 5)\<rparr>"

definition shop_env :: "int \<Rightarrow> string \<Rightarrow> string list \<Rightarrow> market_env" where
  "shop_env now w filled = \<lparr>me_config = shop_config, me_chain = chain_of w filled, me_now = now,
     me_collections = [\<lparr>co_collectionKey = ''cards'', co_tokenContract = rwa_addr, co_reviewStatus = ''active''\<rparr>],
     me_ensureCollectionForListing = (\<lambda>t c. Some ''cards'')\<rparr>"

lemma shop_env_config [simp]: "me_config (shop_env now w f) = shop_config"
  by (simp add: shop_env_def)

definition usdc_line :: "string \<Rightarrow> string \<Rightarrow> cons_item" where
  "usdc_line w amount = \<lparr>ci_itemType = 1, ci_token = usdc_addr, ci_identifierOrCriteria = ''0'',
     ci_startAmount = amount, ci_endAmount = amount, ci_recipient = w\<rparr>"

definition signed_params :: "string \<Rightarrow> offer_item \<Rightarrow> cons_item list \<Rightarrow> string \<Rightarrow> seaport_params" where
  "signed_params w offer cons salt = \<lparr>sp_offerer = w, sp_zone = [], sp_zoneHash = [], sp_startTime = ''0'',
     sp_endTime = ''86400'', sp_orderType = 0, sp_offer = [offer], sp_consideration = cons,
     sp_totalOriginalConsiderationItems = int (length cons), sp_salt = salt, sp_conduitKey = [],
     sp_counter = ''0'', sp_server = no_server_keys\<rparr>"

definition ask_dto :: "string \<Rightarrow> cons_item list \<Rightarrow> string \<Rightarrow> string \<Rightarrow> create_order_dto" where
  "ask_dto tid cons amount salt = \<lparr>dto_side = Some ASK,
     dto_parameters = signed_params seller \<lparr>oi_itemType = 2, oi_token = rwa_addr,
        oi_identifierOrCriteria = tid, oi_startAmount = ''1'', oi_endAmount = ''1''\<rparr> cons salt,
     dto_signature = ''sig'', dto_tokenContract = rwa_addr, dto_tokenId = tid,
     dto_considerationToken = usdc_addr, dto_considerationAmount = amount, dto_collectionKey = None\<rparr>"

definition bid_dto :: "string \<Rightarrow> string \<Rightarrow> string \<Rightarrow> create_order_dto" where
  "bid_dto tid amount salt = \<lparr>dto_side = Some BID,
     dto_parameters = signed_params buyer \<lparr>oi_itemType = 1, oi_token = usdc_addr,
        oi_identifierOrCriteria = ''0'', oi_startAmount = amount, oi_endAmount = amount\<rparr>
        [\<lparr>ci_itemType = 2, ci_token = rwa_addr, ci_identifierOrCriteria = tid, ci_startAmount = ''1'',
          ci_endAmount = ''1'', ci_recipient = buyer\<rparr>] salt,
     dto_signature = ''sig'', dto_tokenContract = rwa_addr, dto_tokenId = tid,
     dto_considerationToken = usdc_addr, dto_considerationAmount = amount, dto_collectionKey = Some ''cards''\<rparr>"

definition shop_mint :: mint_result where
  "shop_mint = sample_mint\<lparr>mr_tokenContract := rwa_addr\<rparr>"

definition stocked :: market where
  "stocked = empty_market\<lparr>mk_vault := fst (recordMintResult id 7 shop_mint deposited)\<rparr>"

text \<open>The row of an order that the API accepted, and the markets after each operation.\<close>

definition row_of :: "nat \<Rightarrow> string \<Rightarrow> string option \<Rightarrow> seaport_params \<Rightarrow> create_order_dto \<Rightarrow> order" where
  "row_of i h key params dto = \<lparr>o_id = i, o_orderHash = h, o_offerer = sp_offerer (dto_parameters dto),
     o_side = dto_order_side dto, o_tokenContract = rwa_addr, o_tokenId = ''40'', o_collectionKey = key,
     o_considerationToken = usdc_addr, o_considerationAmount = dto_considerationAmount dto, o_parameters = params,
     o_signature = ''sig'', o_status = ACTIVE, o_startTime = 0, o_endTime = 86400000, o_createdAt = 5000,
     o_updatedAt = 5000\<rparr>"

definition ask17 :: create_order_dto where
  "ask17 = ask_dto ''40'' [usdc_line seller ''1000000''] ''1000000'' ''17''"

definition bid18 :: create_order_dto where
  "bid18 = bid_dto ''40'' ''900000'' ''18''"

definition row17 :: order where
  "row17 = row_of 1 ''0x17'' (Some ''cards'') (stamp_policy (Some standard) (dto_parameters ask17)) ask17"

definition row18 :: order where
  "row18 = row_of 2 ''0x18'' (Some ''cards'') (dto_parameters bid18) bid18"

definition listed :: market where
  "listed = stocked\<lparr>mk_orders := [row17], mk_nextOrder := 2\<rparr>"

definition with_bid :: market where
  "with_bid = stocked\<lparr>mk_orders := [row17, row18], mk_nextOrder := 3\<rparr>"

definition filled17 :: order where
  "filled17 = touched 6000 (mark_ask_filled (Some buyer) None row17)"

definition sold :: market where
  "sold = stocked\<lparr>mk_orders := [filled17, row18], mk_nextOrder := 3,
     mk_vault := recordOwner rwa_addr ''40'' buyer (mk_vault stocked)\<rparr>"

lemma listed_result:
  obtains v where "createOrder (shop_env 5000 seller []) ask17 1 stocked = (listed, Inr v)" "ov_order v = row17"
proof -
  have "(case createOrder (shop_env 5000 seller []) ask17 1 stocked of (m, Inr v) \<Rightarrow> m = listed \<and> ov_order v = row17 | _ \<Rightarrow> False)"
    by code_simp
  then show thesis using that by (auto split: prod.splits sum.splits)
qed

lemma with_bid_result:
  obtains v where "createOrder (shop_env 5000 seller []) bid18 1 listed = (with_bid, Inr v)" "ov_order v = row18"
proof -
  have "(case createOrder (shop_env 5000 seller []) bid18 1 listed of (m, Inr v) \<Rightarrow> m = with_bid \<and> ov_order v = row18 | _ \<Rightarrow> False)"
    by code_simp
  then show thesis using that by (auto split: prod.splits sum.splits)
qed

lemma sold_result:
  "fulfillOrder (shop_env 6000 buyer [''0x17'']) ''0x17'' (Some buyer) (Some 1) None with_bid = (sold, Inr filled17)"
proof -
  have "(case fulfillOrder (shop_env 6000 buyer [''0x17'']) ''0x17'' (Some buyer) (Some 1) None with_bid of
      (m, Inr s) \<Rightarrow> m = sold \<and> s = filled17 | _ \<Rightarrow> False)" by code_simp
  then show ?thesis by (auto split: prod.splits sum.splits)
qed

lemma stocked_steps: "(market_step id shop_config)\<^sup>*\<^sup>* empty_market stocked"
proof -
  have d: "vault_step id (mk_vault empty_market) deposited"
    using deposited_step by (simp add: empty_market_def)
  let ?m = "empty_market\<lparr>mk_vault := deposited\<rparr>"
  have "vault_step id (mk_vault ?m) (fst (recordMintResult id 7 shop_mint deposited))"
    using vault_step.record_mint [OF prod.collapse [symmetric]] by simp
  from market_step.vault [OF this, of shop_config]
  have "market_step id shop_config ?m stocked" by (simp add: stocked_def)
  with market_step.vault [OF d, of shop_config] show ?thesis
    by (meson r_into_rtranclp rtranclp.rtrancl_into_rtrancl)
qed

lemma create_reach:
  assumes "(market_step id shop_config)\<^sup>*\<^sup>* empty_market m" "createOrder (shop_env now w f) dto ch m = (m', r)"
  shows "(market_step id shop_config)\<^sup>*\<^sup>* empty_market m'"
  using assms(1) market_step.create [OF shop_env_config assms(2)] by (rule rtranclp.rtrancl_into_rtrancl)

lemma listed_reach: "(market_step id shop_config)\<^sup>*\<^sup>* empty_market listed"
  by (rule listed_result, rule create_reach [OF stocked_steps])

lemma with_bid_reach: "(market_step id shop_config)\<^sup>*\<^sup>* empty_market with_bid"
  by (rule with_bid_result, rule create_reach [OF listed_reach])

lemma sold_steps: "(market_step id shop_config)\<^sup>*\<^sup>* with_bid sold"
proof -
  have "market_step id shop_config with_bid sold"
    by (rule market_step.fulfill [OF shop_env_config sold_result])
  then show ?thesis by (rule r_into_rtranclp [of "market_step id shop_config"])
qed

lemma sold_reach: "(market_step id shop_config)\<^sup>*\<^sup>* empty_market sold"
  by (rule rtranclp_trans [OF with_bid_reach sold_steps])

end
