(* ===== verification/RedeemSample.thy ===== *)
theory RedeemSample
  imports RedeemTrace OrderSample
begin

text \<open>
  A small shop on Sepolia for the witnesses of the redeem flow: one card, deposited, minted as
  token 40 and paid for with 12.97 USDC (shipping 5.99, retrieval 1.99, early withdrawal 4.99);
  then it is taken into custody, tracked and received, or refunded before the intake.
\<close>

definition sepolia :: nat where "sepolia = 11155111"
definition vault_wallet :: string where "vault_wallet = ''0x'' @ replicate 40 CHR ''9''"

definition redeem_config :: config where
  "redeem_config = (\<lambda>k. if k = ''CHAIN_11155111_RPC_URL'' then Some ''http://node''
     else if k = ''CHAIN_11155111_RWA_ADDRESS'' then Some rwa_addr
     else if k = ''CHAIN_11155111_USDC_ADDRESS'' then Some usdc_addr
     else if k = ''PLATFORM_FEE_PRIVATE_KEY'' then Some ''k''
     else if k = ''PLATFORM_FEE_RECIPIENT'' then Some platform else None)"

definition paid_log :: receipt_log where
  "paid_log = \<lparr>rl_address = usdc_addr, rl_erc20 = Some (buyer, platform, 13000000), rl_erc721 = None\<rparr>"

definition moved_log :: receipt_log where
  "moved_log = \<lparr>rl_address = rwa_addr, rl_erc20 = None, rl_erc721 = Some (buyer, vault_wallet, 40)\<rparr>"

text \<open>The environment at time now, when the token has this owner.\<close>

definition redeem_env_at :: "int \<Rightarrow> string \<Rightarrow> redeem_env" where
  "redeem_env_at now w = \<lparr>
     rv_fee = \<lparr>fn_config = redeem_config, fn_now = now, fn_findAddressByPartnerId = (\<lambda>p. None)\<rparr>,
     rv_registry = \<lparr>rg_config = redeem_config, rg_now = now, rg_tokenURI = (\<lambda>c i. None), rg_isIpfs = (\<lambda>s. False),
       rg_metadata = (\<lambda>s. None), rg_emptyMeta = \<lparr>cm_certNumber = None, cm_displayName = None, cm_collectionKey = None\<rparr>\<rparr>,
     rv_keccak = id, rv_kyc = (\<lambda>u. Inr ()), rv_wallets = (\<lambda>u. [buyer]), rv_ownerOf = (\<lambda>c i. Inr w),
     rv_receipt = (\<lambda>c tx. Some \<lparr>tr_status = 1, tr_logs = (if tx = ''0xp'' then [paid_log] else [moved_log])\<rparr>),
     rv_custodyWallet = (\<lambda>c. Inr vault_wallet), rv_batchId = ''b1'', rv_adminBurn = (\<lambda>c i w. Inr ''0xburn'')\<rparr>"

definition ship_to_dto :: redeem_ship_to_dto where
  "ship_to_dto = \<lparr>rd_name = ''N'', rd_line1 = ''L'', rd_line2 = None, rd_city = ''C'', rd_region = None,
     rd_postal = ''1'', rd_country = bucket_us, rd_countryCode = None, rd_phone = ''5''\<rparr>"

definition batch_dto :: redeem_batch_dto where
  "batch_dto = \<lparr>rb_tokenIds = [40], rb_shipTo = ship_to_dto, rb_paymentTxHash = ''0xP''\<rparr>"

text \<open>The rows of the tables.\<close>

definition card :: vault_asset where
  "card = \<lparr>va_id = 0, va_assetType = psa_graded, va_externalCertNumber = ''A1'', va_vaultRef = ''A1'',
     va_displayName = Some ''Card''\<rparr>"

definition card_cycle :: "vault_cycle_status \<Rightarrow> int option \<Rightarrow> int \<Rightarrow> vault_cycle" where
  "card_cycle s burned now = \<lparr>vc_id = 1, vc_vaultAssetId = 0, vc_chainId = sepolia, vc_cycleNumber = 1, vc_status = s,
     vc_depositedAt = Some 5, vc_depositVerifiedBy = None, vc_depositedByUserId = None, vc_redeemedAt = burned,
     vc_mintAttempt = None, vc_updatedAt = now\<rparr>"

definition card_token :: "string \<Rightarrow> int option \<Rightarrow> string option \<Rightarrow> rwa_token" where
  "card_token w burned tx = \<lparr>rt_tokenContract = rwa_addr, rt_tokenId = ''40'', rt_certNumber = Some ''A1'',
     rt_tokenUri = Some ''ipfs://m'', rt_metadataCid = None, rt_displayName = Some ''Card'', rt_displayImageUrl = None,
     rt_displayImageBackUrl = None, rt_collectionKey = None, rt_metadataSyncedAt = Some 7, rt_vaultCycleId = Some 1,
     rt_vaultRef = Some ''A1'', rt_burnedAt = burned, rt_burnTxHash = tx, rt_mintTxHash = None,
     rt_settlementPolicy = Some standard, rt_vaultPartnerId = None, rt_ownerWallet = Some w\<rparr>"

definition paid_row :: vault_redemption where
  "paid_row = \<lparr>vr_id = 2, vr_vaultCycleId = 1, vr_requestedByUserId = Some ''u'', vr_requestedAt = 9,
     vr_ownerWalletAddress = buyer, vr_status = r_ownership_verified, vr_ownershipVerifiedAt = Some 9,
     vr_burnTxHash = None, vr_burnedAt = None, vr_vaultReleasedAt = None, vr_failureReason = None,
     vr_shipToName = Some ''N'', vr_shipToLine1 = Some ''L'', vr_shipToLine2 = None, vr_shipToCity = Some ''C'',
     vr_shipToRegion = None, vr_shipToPostal = Some ''1'', vr_shipToCountry = Some ''US'', vr_shipToPhone = Some ''5'',
     vr_feeRetrievalUsd = Some ''1.99'', vr_feeEarlyWithdrawalUsd = Some ''4.99'', vr_feeShippingUsd = Some ''5.99'',
     vr_feeTotalUsd = Some ''12.97'', vr_paymentTxHash = Some ''0xp'', vr_paymentBatchId = Some ''b1'',
     vr_paidAt = Some 9, vr_chainId = Some sepolia, vr_paymentReceivedUsdcMicros = Some ''13000000'',
     vr_custodyTxHash = None, vr_custodyAt = None, vr_custodyReturnTxHash = None, vr_custodyReturnedAt = None,
     vr_refundStatus = rf_none, vr_refundTxHash = None, vr_refundedUsdcMicros = None, vr_refundedAt = None,
     vr_trackingNumber = None, vr_trackingCarrier = None, vr_trackingSetAt = None, vr_carrierDeliveredAt = None,
     vr_receiptConfirmedVia = None, vr_adminMemo = None, vr_vaultedAt = Some 5, vr_earlyWithdrawal = Some True\<rparr>"

definition taken_row :: vault_redemption where
  "taken_row = paid_row\<lparr>vr_status := r_in_custody, vr_custodyTxHash := Some ''0xm'', vr_custodyAt := Some 10\<rparr>"

definition tracked_row :: vault_redemption where
  "tracked_row = taken_row\<lparr>vr_trackingNumber := Some ''111111111111'', vr_trackingCarrier := Some ''FedEx'',
     vr_trackingSetAt := Some 11\<rparr>"

definition received_row :: vault_redemption where
  "received_row = tracked_row\<lparr>vr_status := r_completed, vr_burnTxHash := Some ''0xburn'', vr_burnedAt := Some 12,
     vr_vaultReleasedAt := Some 12, vr_receiptConfirmedVia := Some via_user\<rparr>"

text \<open>The states: the redemption if there is one, the cycle and the token of the card, the refunds.\<close>

definition shop :: "vault_redemption option \<Rightarrow> vault_cycle \<Rightarrow> rwa_token \<Rightarrow> (string \<times> string \<times> int) list \<Rightarrow> redeem_state" where
  "shop row cyc t refunds = \<lparr>rs_market = empty_market\<lparr>mk_vault := \<lparr>vd_assets = [card], vd_cycles = [cyc],
     vd_redemptions = (case row of None \<Rightarrow> [] | Some r \<Rightarrow> [r]),
     vd_claims = (case row of None \<Rightarrow> [] | Some r \<Rightarrow> [\<lparr>pc_paymentTxHash = ''0xp'', pc_paymentBatchId = ''b1'',
          pc_paymentReceivedUsdcMicros = Some ''13000000'', pc_chainId = Some sepolia\<rparr>]),
     vd_tokens = [t], vd_partners = [], vd_next = (case row of None \<Rightarrow> 2 | Some r \<Rightarrow> 3)\<rparr>\<rparr>, rs_pins = [], rs_refunds = refunds\<rparr>"

definition in_stock :: redeem_state where
  "in_stock = shop None (card_cycle minted None 7) (card_token ''0xbb'' None None) []"

definition ordered :: redeem_state where
  "ordered = shop (Some paid_row) (card_cycle redemption_requested None 9) (card_token ''0xbb'' None None) []"

definition in_vault_wallet :: redeem_state where
  "in_vault_wallet = shop (Some taken_row) (card_cycle redemption_requested None 9) (card_token vault_wallet None None) []"

definition shipped :: redeem_state where
  "shipped = shop (Some tracked_row) (card_cycle redemption_requested None 9) (card_token vault_wallet None None) []"

definition received_state :: redeem_state where
  "received_state = shop (Some received_row) (card_cycle redeemed (Some 12) 12)
     ((card_token vault_wallet (Some 12) (Some ''0xburn''))\<lparr>rt_ownerWallet := None\<rparr>) []"

definition fee_signer :: fee_wallet where
  "fee_signer = \<lparr>fw_signer = platform, fw_balance = 100000000, fw_outcome = mined ''0xr''\<rparr>"

definition repaid :: redeem_state where
  "repaid = shop (Some (paid_row\<lparr>vr_status := r_refunded, vr_refundStatus := fully_refunded, vr_refundTxHash := Some ''0xr'',
     vr_refundedUsdcMicros := Some ''13000000'', vr_refundedAt := Some 13\<rparr>)) (card_cycle minted None 13)
     (card_token ''0xbb'' None None) [(''b1'', buyer, 13000000)]"

abbreviation env9 :: redeem_env where
  "env9 \<equiv> redeem_env_at 9 buyer"

lemma sample_heal: "assertRedeemableAfterRegistryHeal (rv_registry env9) (rv_config env9) sepolia [40] (rs_vault in_stock)
    = (rs_vault in_stock, Inr ())"
proof -
  have 1: "getRwaAddress (rv_config env9) sepolia = Inr rwa_addr" by code_simp
  have 2: "assertTokensRedeemable rwa_addr (map nat_str [40]) (rs_vault in_stock) = Inr ()" by code_simp
  have 3: "js_unique (filter (\<lambda>i. 0 < i) [40]) = [40::nat]" by code_simp
  show ?thesis using 1 2 3 by (simp add: assertRedeemableAfterRegistryHeal_def need_def)
qed

definition meta_40 :: token_meta where
  "meta_40 = \<lparr>tm_tokenId = 40, tm_settlementPolicy = standard, tm_vaultPartnerId = None, tm_vaultedAt = Some 5\<rparr>"
definition quote_40 :: redeem_estimate where
  "quote_40 = total_estimate redeem_config bucket_us [psa_shipment 9 (loadPsaVaultFeeConfig redeem_config) bucket_us
     (new_group meta_40)]"
lemma sample_custody: "snd (getVaultCustodyRows rwa_addr [''40''] (rs_vault in_stock)) = (rs_vault in_stock)"
  by code_simp

lemma sample_metas: "(let (rows,db') = getVaultCustodyRows rwa_addr [''40''] (rs_vault in_stock) in map_ok (meta_of_custody rows (getDepositedAtByTokenIds rwa_addr [''40''] db')) [40]) = Inr [meta_40]" by code_simp


lemma sample_price: "price_cards (rv_fee env9) bucket_us s [meta_40] = Inr quote_40"
proof -
  have g: "shipment_groups [meta_40] = [new_group meta_40]" "sg_provider (new_group meta_40) = psa_vault" by code_simp+
  have c: "check_group (loadPsaVaultFeeConfig redeem_config) (new_group meta_40) = Inr ()" by code_simp
  have e: "fn_config (rv_fee env9) = redeem_config" "fn_now (rv_fee env9) = 9" by (simp_all add: redeem_env_at_def)
  show ?thesis by (simp add: price_cards_def g c e quote_destination_def shipment_of_def quote_40_def Let_def)
qed

lemma sample_fee: "fee_estimate (rv_fee env9) bucket_us None (map of_nat [40]) (Some sepolia) s (rs_vault in_stock)
    = (Inr quote_40, rs_vault in_stock)"
proof -
  let ?db = "rs_vault in_stock"
  have 1: "js_unique (positive_ids (map of_nat [40])) = [40]" by code_simp
  have 2: "getRwaAddress (fn_config (rv_fee env9)) sepolia = Inr rwa_addr" by code_simp
  have 3: "nat_str 40 = ''40''" by code_simp
  obtain rows where rows: "getVaultCustodyRows rwa_addr [''40''] ?db = (rows, ?db)"
    using sample_custody by (cases "getVaultCustodyRows rwa_addr [''40''] ?db") simp
  have 4: "map_ok (meta_of_custody rows (getDepositedAtByTokenIds rwa_addr [''40''] ?db)) [40] = Inr [meta_40]"
    using sample_metas by (simp add: rows)
  have "list_all cu_known (fst (getVaultCustodyRows rwa_addr [''40''] ?db))" by code_simp
  then have 5: "\<not> list_ex (\<lambda>c. \<not> cu_known c) rows" by (simp add: rows list_all_iff list_ex_iff)
  show ?thesis
    unfolding fee_estimate_def Let_def 1 using 5 by (simp add: 2 3 rows 4 sample_price del: map_ok.simps)
qed

lemma sample_estimate: "estimate_in env9 bucket_us None [40] (Some sepolia) s in_stock = (in_stock, Inr quote_40)"
  using sample_fee [of s] by (simp add: estimate_in_def on_vault_def rs_vault_def put_vault_def)

lemma sample_payment:
  obtains br where "pay_batch env9 ''u'' batch_dto sepolia [40] ''US'' quote_40 in_stock = (ordered, Inr br)"
proof -
  have "(case pay_batch env9 ''u'' batch_dto sepolia [40] ''US'' quote_40 in_stock of
      (st, Inr br) \<Rightarrow> st = ordered | _ \<Rightarrow> False)" by code_simp
  then show thesis using that by (auto split: prod.splits sum.splits)
qed

lemma ordered_result:
  obtains br where "requestRedemptionBatch env9 ''u'' batch_dto sepolia in_stock = (ordered, Inr br)"
proof -
  have ids: "js_unique (map nat (filter (\<lambda>n. 0 < n) [40])) = [40::nat]" by code_simp
  have iso: "resolveShipToDestinationIso2 (bucket_str (rd_country ship_to_dto)) (rd_countryCode ship_to_dto) = Inr ''US''" by code_simp
  have h: "on_vault (assertRedeemableAfterRegistryHeal (rv_registry env9) (rv_config env9) sepolia [40]) in_stock = (in_stock, Inr ())"
    using sample_heal by (simp add: on_vault_def rs_vault_def put_vault_def)
  have n: "re_cardCount quote_40 = 1" by code_simp
  have p: "price_batch env9 ship_to_dto sepolia [40] ''US'' in_stock = (in_stock, Inr quote_40)"
    using sample_estimate n by (simp add: price_batch_def h andThen_def ship_to_dto_def check_def)
  have e: "rv_kyc env9 ''u'' = Inr ()" "rb_tokenIds batch_dto = [40]" "rb_shipTo batch_dto = ship_to_dto"
    "sepolia = REDEEM_V1_CHAIN_ID"
    by (simp_all add: redeem_env_at_def batch_dto_def sepolia_def REDEEM_V1_CHAIN_ID_def)
  have "requestRedemptionBatch env9 ''u'' batch_dto sepolia in_stock = pay_batch env9 ''u'' batch_dto sepolia [40] ''US'' quote_40 in_stock"
    unfolding requestRedemptionBatch_def Let_def e(1-3) ids iso using p e(4) by (simp add: andThen_def)
  then show thesis using that sample_payment by metis
qed

section \<open>Every state is reachable\<close>

abbreviation redeem_reach :: "redeem_state \<Rightarrow> bool" where
  "redeem_reach \<equiv> (redeem_step id redeem_config)\<^sup>*\<^sup>* no_redeems"

lemma reach_more: "redeem_reach st \<Longrightarrow> redeem_step id redeem_config st st' \<Longrightarrow> redeem_reach st'"
  by (rule rtranclp.rtrancl_into_rtrancl)

lemma vault_more:
  "redeem_reach st \<Longrightarrow> vault_step id (rs_vault st) db \<Longrightarrow> vd_redemptions db = vd_redemptions (rs_vault st) \<Longrightarrow>
   redeem_reach (put_vault db st)"
  unfolding put_vault_def
  by (erule reach_more, rule redeem_step.other, rule market_step.vault) (simp_all add: rs_vault_def)

definition deposit_made :: vault_db where
  "deposit_made = \<lparr>vd_assets = [card\<lparr>va_displayName := None\<rparr>], vd_cycles = [card_cycle deposit_verified None 5],
     vd_redemptions = [], vd_claims = [], vd_tokens = [], vd_partners = [], vd_next = 2\<rparr>"

lemma deposit_made_step: "vault_step id (rs_vault no_redeems) deposit_made"
proof -
  have "(case reserveCycleForDeposit id 5 '' a1 '' sepolia psa_graded None None (rs_vault no_redeems) of
      Inl e \<Rightarrow> False | Inr (a, c, db) \<Rightarrow> db = deposit_made)" by code_simp
  then show ?thesis by (auto split: sum.splits prod.splits intro: vault_step.reserve)
qed

lemma in_stock_step: "vault_step id deposit_made (rs_vault in_stock)"
proof -
  have "fst (recordMintResult id 7 shop_mint deposit_made) = rs_vault in_stock" by code_simp
  then show ?thesis using vault_step.record_mint [OF prod.collapse [symmetric]] by metis
qed

lemma in_stock_reach: "redeem_reach in_stock"
proof -
  have 1: "redeem_reach (put_vault deposit_made no_redeems)"
    by (rule vault_more [OF rtranclp.rtrancl_refl deposit_made_step]) code_simp
  have "redeem_reach (put_vault (rs_vault in_stock) (put_vault deposit_made no_redeems))"
    by (rule vault_more [OF 1]) (simp add: in_stock_step, code_simp)
  moreover have "put_vault (rs_vault in_stock) (put_vault deposit_made no_redeems) = in_stock"
    by (simp add: put_vault_def in_stock_def shop_def rs_vault_def no_redeems_def)
  ultimately show ?thesis by simp
qed

lemma ordered_reach: "redeem_reach ordered"
proof -
  obtain br where r: "requestRedemptionBatch env9 ''u'' batch_dto sepolia in_stock = (ordered, Inr br)"
    by (rule ordered_result)
  have "fresh_batch (rv_batchId env9) (rs_vault in_stock)"
    by (simp add: fresh_batch_def in_stock_def shop_def rs_vault_def)
  from reach_more [OF in_stock_reach redeem_step.request [OF this r]] show ?thesis .
qed

lemma taken_result:
  "fst (confirmCustodyTransfers (redeem_env_at 10 vault_wallet) ''u'' ''b1'' [(40, ''0xm'')] sepolia ordered) = in_vault_wallet"
  by code_simp

lemma taken_reach: "redeem_reach in_vault_wallet"
  using reach_more [OF ordered_reach redeem_step.intake [OF prod.collapse [symmetric]]] taken_result by metis

lemma shipped_result:
  obtains x where "updateTracking 11 2 ''111111111111'' (Some ''FedEx'') (rs_vault in_vault_wallet) = Inr (x, rs_vault shipped)"
proof -
  have "(case updateTracking 11 2 ''111111111111'' (Some ''FedEx'') (rs_vault in_vault_wallet) of
     Inl e \<Rightarrow> False | Inr (x, db) \<Rightarrow> db = rs_vault shipped)" by code_simp
  then show thesis using that by (auto split: sum.splits prod.splits)
qed

lemma shipped_reach: "redeem_reach shipped"
proof (rule shipped_result)
  fix x assume "updateTracking 11 2 ''111111111111'' (Some ''FedEx'') (rs_vault in_vault_wallet) = Inr (x, rs_vault shipped)"
  from reach_more [OF taken_reach redeem_step.tracking [OF this]]
  show ?thesis by (simp add: put_vault_def shipped_def in_vault_wallet_def shop_def rs_vault_def)
qed

lemma received_result:
  obtains again saved where
    "confirmReceipt (redeem_env_at 12 vault_wallet) ''u'' ''b1'' sepolia shipped = (received_state, Inr (again, saved))"
proof -
  have "(case confirmReceipt (redeem_env_at 12 vault_wallet) ''u'' ''b1'' sepolia shipped of
      (st, Inr x) \<Rightarrow> st = received_state | _ \<Rightarrow> False)" by code_simp
  then show thesis using that by (auto split: prod.splits sum.splits)
qed

lemma received_reach: "redeem_reach received_state"
  by (rule received_result) (rule reach_more [OF shipped_reach redeem_step.receipt])

lemma repaid_result: "fst (refundUsdcBatch redeem_config fee_signer 13 ''b1'' ordered) = repaid"
  by code_simp

lemma fee_signer_reports: "reports fee_signer"
  by (simp add: reports_def fee_signer_def)

lemma repaid_reach: "redeem_reach repaid"
  using reach_more [OF ordered_reach redeem_step.refund [OF fee_signer_reports prod.collapse [symmetric]]] repaid_result by metis

end
