(* ===== verification/RedeemProperties.thy ===== *)
theory RedeemProperties
  imports VaultProperties
begin

text \<open>
  The properties of redemptions: requests, paid batches and their payment claims, the burn and
  the release, receipts; and what the other services may change in the registry of tokens. The
  examples continue those of VaultProperties.
\<close>

lemma upsert_found: "find_key key (key r) t = Some r \<Longrightarrow> upsert key r t = t"
  by (induction t) (auto simp: find_key_def split: if_splits)

lemma save_found: "find_redemption (vr_id r) db = Some r \<Longrightarrow> save_redemption r db = db"
  by (simp add: save_redemption_def find_redemption_def upsert_found)

lemma fold_save_again:
  assumes "distinct (map vr_id rs)"
  shows "fold save_redemption rs (fold save_redemption rs db) = fold save_redemption rs db"
proof -
  let ?db = "fold save_redemption rs db"
  have "set qs \<subseteq> set rs \<Longrightarrow> fold save_redemption qs ?db = ?db" for qs
  proof (induction qs)
    case (Cons q qs)
    then have "save_redemption q ?db = ?db"
      using save_found redemption_repo.look_fold_member [OF assms] by simp
    with Cons show ?case by simp
  qed simp
  then show ?thesis by blast
qed

section \<open>Requests\<close>

text \<open>An accepted request opens a new redemption and moves the cycle out of minted, so no second
  request for the token succeeds: it is refused with an error, and the branch of requestRedemption
  that would return the redemption that is already open is never taken.\<close>
theorem request_once:
  assumes "(vault_step k)\<^sup>*\<^sup>* empty_db db"
    and ok: "requestRedemption now tc tid user owner ship fees db = Inr (r, db')"
  shows "r \<notin> set (vd_redemptions db) \<and> vr_status r = r_ownership_verified
    \<and> find_redemption (vr_id r) db' = Some r
    \<and> (\<exists>c. find_cycle (vr_vaultCycleId r) db' = Some c \<and> vc_status c = redemption_requested)
    \<and> (\<exists>e. requestRedemption now2 tc tid user2 owner2 ship2 fees2 db' = Inl e)"
proof -
  have wf: "vault_wf db" by (rule reachable_wf [OF assms(1)])
  from wf ok obtain t i c where t: "find_token (tc, tid) db = Some t" "rt_vaultCycleId t = Some i"
    and c: "find_cycle i db = Some c" "vc_status c = minted"
    and r: "vr_id r = vd_next db" "vr_vaultCycleId r = i" "vr_status r = r_ownership_verified"
    and db': "db' = save_cycle now (c\<lparr>vc_status := redemption_requested\<rparr>)
      (save_redemption r (db\<lparr>vd_next := vd_next db + 1\<rparr>))"
    by (rule requestRedemption_Inr)
  have i: "vc_id c = i" using find_cycle_Some [OF c(1)] by simp
  have new: "r \<notin> set (vd_redemptions db)" using wf r by (auto simp: wf_defs)
  have fc: "find_cycle i db' = Some (c\<lparr>vc_status := redemption_requested, vc_updatedAt := now\<rparr>)"
    using i by (simp add: db' table_simps)
  have ft: "find_token (tc, tid) db' = Some t"
    using t(1) by (simp add: db' find_token_def save_redemption_def save_cycle_def)
  have fr: "find_redemption (vr_id r) db' = Some r"
    by (simp add: db' redemption_repo.look_put)
  have "\<exists>e. requestRedemption now2 tc tid user2 owner2 ship2 fees2 db' = Inl e"
    using ft t(2) fc by (auto simp: requestRedemption_def)
  with new fc fr r show ?thesis by simp
qed

definition requested :: vault_db where
  "requested = (case requestRedemption 8 ''0xaa'' ''40'' (Some ''u'') ''0xBB'' None None sample_vault of
     Inl e \<Rightarrow> sample_vault | Inr (r, db) \<Rightarrow> db)"

lemma requested_ok:
  obtains r where "requestRedemption 8 ''0xaa'' ''40'' (Some ''u'') ''0xBB'' None None sample_vault = Inr (r, requested)"
proof -
  have "(case requestRedemption 8 ''0xaa'' ''40'' (Some ''u'') ''0xBB'' None None sample_vault of
    Inl e \<Rightarrow> False | Inr x \<Rightarrow> True)" by code_simp
  then show thesis using that
    by (cases "requestRedemption 8 ''0xaa'' ''40'' (Some ''u'') ''0xBB'' None None sample_vault")
       (auto simp only: requested_def sum.case prod.case split: prod.splits)
qed

theorem request_once_witness:
  "\<exists>e. requestRedemption 9 ''0xaa'' ''40'' (Some ''u'') ''0xBB'' None None requested = Inl e"
proof -
  obtain r where "requestRedemption 8 ''0xaa'' ''40'' (Some ''u'') ''0xBB'' None None sample_vault = Inr (r, requested)"
    by (rule requested_ok)
  from request_once [OF sample_reachable this] show ?thesis by blast
qed

section \<open>Paid batches\<close>

text \<open>What one paid item adds: a new open redemption with the payment of the batch.\<close>

definition paid_with :: "payment_claim \<Rightarrow> vault_redemption \<Rightarrow> bool" where
  "paid_with cl r = (vr_status r = r_ownership_verified \<and> vr_paymentTxHash r = Some (pc_paymentTxHash cl)
     \<and> vr_paymentBatchId r = Some (pc_paymentBatchId cl))"

lemma insertPaidRow_adds:
  assumes wf: "vault_wf db" and ok: "insertPaidRedemptionRow k now cl paidAt ch it db = Inr (r, db')"
  shows "set (vd_redemptions db') = insert r (set (vd_redemptions db)) \<and> r \<notin> set (vd_redemptions db)
    \<and> paid_with cl r"
proof -
  from ok obtain t i db1 where
    b: "(case rt_vaultCycleId t of Some i \<Rightarrow> Inr (i, db) | None \<Rightarrow> backfillCycleForToken k now t ch db) = Inr (i, db1)"
    and p: "paid_row_for_cycle now cl paidAt ch it i db1 = Inr (r, db')"
    by (rule insertPaidRow_Inr)
  have 1: "vault_wf db1" "vd_redemptions db1 = vd_redemptions db"
    using b wf backfillCycle_ok [OF wf] by (auto split: option.splits)
  from p obtain c where r: "vr_id r = vd_next db1" and s: "vr_status r = r_ownership_verified"
    "vr_paymentTxHash r = Some (pc_paymentTxHash cl)" "vr_paymentBatchId r = Some (pc_paymentBatchId cl)"
    and db': "db' = save_cycle now (c\<lparr>vc_status := redemption_requested\<rparr>)
      (save_redemption r (db1\<lparr>vd_next := vd_next db1 + 1\<rparr>))"
    by (rule paid_row_Inr)
  have fresh: "vr_id r \<notin> vr_id ` set (vd_redemptions db1)" using 1(1) r by (auto simp: wf_defs)
  then have "set (vd_redemptions db') = insert r (set (vd_redemptions db1))"
    by (simp add: db' save_redemption_def upsert_fresh)
  with 1 fresh s show ?thesis by (auto simp: paid_with_def)
qed

lemma insert_paid_rows_adds:
  "vault_wf db \<Longrightarrow> insert_paid_rows k now cl paidAt ch items db = Inr (out, db') \<Longrightarrow>
   map snd out = map it_tokenId items \<and> set (vd_redemptions db') = fst ` set out \<union> set (vd_redemptions db)
   \<and> distinct (map fst out) \<and> (\<forall>r \<in> fst ` set out. paid_with cl r \<and> r \<notin> set (vd_redemptions db))"
proof (induction items arbitrary: db out)
  case (Cons it items)
  then obtain r db1 out' where 1: "insertPaidRedemptionRow k now cl paidAt ch it db = Inr (r, db1)"
    and 2: "insert_paid_rows k now cl paidAt ch items db1 = Inr (out', db')"
    and out: "out = (r, it_tokenId it) # out'"
    by (auto simp: on_ok_eq_Inr)
  note a = insertPaidRow_adds [OF Cons.prems(1) 1]
  have "vault_wf db1" using insertPaidRow_wf [OF Cons.prems(1) 1] by simp
  from Cons.IH [OF this 2] a show ?case by (auto simp: out)
qed simp

lemma paid_batch_adds:
  assumes wf: "vault_wf db"
    and ok: "createPaidRedemptionBatch k now tx b m paidAt ch items db = Inr (out, db')"
  shows "map snd out = map it_tokenId items
    \<and> set (vd_redemptions db') = fst ` set out \<union> set (vd_redemptions db)
    \<and> fst ` set out \<inter> set (vd_redemptions db) = {}
    \<and> distinct (map (\<lambda>x. vr_vaultCycleId (fst x)) out)
    \<and> list_all (\<lambda>x. vr_status (fst x) = r_ownership_verified
          \<and> vr_paymentTxHash (fst x) = Some (js_lower (js_trim tx))) out
    \<and> hasPaymentClaim tx db'"
proof -
  from ok obtain cl db1 where cl: "cl = \<lparr>pc_paymentTxHash = js_lower (js_trim tx), pc_paymentBatchId = js_trim b,
      pc_paymentReceivedUsdcMicros = Some m, pc_chainId = Some ch\<rparr>"
    and tx: "js_lower (js_trim tx) \<noteq> []"
    and 1: "insertPaymentClaimOrConflict cl db = Inr db1"
    and 2: "insert_paid_rows k now cl paidAt ch items db1 = Inr (out, db')"
    by (rule createPaidBatch_Inr)
  have wf1: "vault_wf db1" using insertPaymentClaim_wf [OF wf 1] by simp
  have r1: "vd_redemptions db1 = vd_redemptions db" using insertPaymentClaim_Inr [OF 1] by simp
  note a = insert_paid_rows_adds [OF wf1 2, unfolded r1]
  have wf': "vault_wf db'" and claims: "vd_claims db' = vd_claims db1"
    using insert_paid_rows_wf [OF wf1 2] by simp_all
  have op: "open_redemption r" if "r \<in> fst ` set out" for r
    using a that by (auto simp: paid_with_def open_redemption_def)
  have inj: "inj_on vr_vaultCycleId (fst ` set out)"
    using one_open_redemption [OF wf'] op a by (intro inj_onI) blast
  have "distinct (map fst out)" using a by blast
  then have "distinct (map vr_vaultCycleId (map fst out))"
    by (rule distinct_map [THEN iffD2, OF conjI]) (simp only: set_map inj)
  then have dist: "distinct (map (\<lambda>x. vr_vaultCycleId (fst x)) out)" by (simp add: comp_def)
  have "cl \<in> set (vd_claims db')"
    using insertPaymentClaim_Inr [OF 1] by (simp add: claims)
  then have "\<exists>x \<in> set (vd_claims db'). pc_paymentTxHash x = js_lower (js_trim tx)"
    by (rule bexI [rotated]) (simp add: cl)
  then have has: "hasPaymentClaim tx db'"
    using tx by (auto simp: hasPaymentClaim_def filter_empty_conv)
  have "list_all (\<lambda>x. vr_status (fst x) = r_ownership_verified
      \<and> vr_paymentTxHash (fst x) = Some (js_lower (js_trim tx))) out"
    using a unfolding list_all_iff paid_with_def cl by simp
  moreover have "fst ` set out \<inter> set (vd_redemptions db) = {}" using a by blast
  ultimately show ?thesis using a dist has by blast
qed

text \<open>A paid batch is all or nothing: when it succeeds every item has its own new redemption with
  the batch's payment, no two of them on the same cycle, nothing else is added, and the payment
  is on record. (When it fails the transaction leaves the database as it was.)\<close>
theorem paid_batch_all_rows:
  assumes "(vault_step k)\<^sup>*\<^sup>* empty_db db"
    and ok: "createPaidRedemptionBatch k now tx b m paidAt ch items db = Inr (out, db')"
  shows "map snd out = map it_tokenId items
    \<and> set (vd_redemptions db') = fst ` set out \<union> set (vd_redemptions db)
    \<and> fst ` set out \<inter> set (vd_redemptions db) = {}
    \<and> distinct (map (\<lambda>x. vr_vaultCycleId (fst x)) out)
    \<and> list_all (\<lambda>x. vr_status (fst x) = r_ownership_verified
          \<and> vr_paymentTxHash (fst x) = Some (js_lower (js_trim tx))) out
    \<and> hasPaymentClaim tx db'"
  by (rule paid_batch_adds [OF reachable_wf [OF assms(1)] ok])

definition sample_item :: redeem_item where
  "sample_item = \<lparr>it_tokenContract = ''0xAA'', it_tokenId = ''040'', it_requestingUserId = Some ''u'',
     it_ownerWalletAddress = ''0xBB'', it_shipTo = \<lparr>st_name = ''n'', st_line1 = ''l'', st_line2 = None,
       st_city = ''c'', st_region = None, st_postal = ''p'', st_country = ''US'', st_phone = ''1''\<rparr>,
     it_feeRetrievalUsd = 5, it_feeEarlyWithdrawalUsd = 0, it_feeShippingUsd = 12, it_feeTotalUsd = 17,
     it_vaultedAt = None, it_earlyWithdrawal = False\<rparr>"

definition paid_vault :: vault_db where
  "paid_vault = (case createPaidRedemptionBatch id 8 ''0xT'' ''b1'' ''17000000'' 8 1 [sample_item] sample_vault of
     Inl e \<Rightarrow> sample_vault | Inr (out, db) \<Rightarrow> db)"

lemma paid_ok:
  obtains out where
    "createPaidRedemptionBatch id 8 ''0xT'' ''b1'' ''17000000'' 8 1 [sample_item] sample_vault = Inr (out, paid_vault)"
proof -
  have "(case createPaidRedemptionBatch id 8 ''0xT'' ''b1'' ''17000000'' 8 1 [sample_item] sample_vault of
    Inl e \<Rightarrow> False | Inr x \<Rightarrow> True)" by code_simp
  then show thesis using that
    by (cases "createPaidRedemptionBatch id 8 ''0xT'' ''b1'' ''17000000'' 8 1 [sample_item] sample_vault")
       (auto simp only: paid_vault_def sum.case prod.case split: prod.splits)
qed

theorem paid_batch_all_rows_witness:
  "\<exists>out. map snd out = [''040''] \<and> set (vd_redemptions paid_vault) = fst ` set out \<union> set (vd_redemptions sample_vault)
     \<and> hasPaymentClaim ''0xT'' paid_vault"
proof -
  obtain out where ok:
    "createPaidRedemptionBatch id 8 ''0xT'' ''b1'' ''17000000'' 8 1 [sample_item] sample_vault = Inr (out, paid_vault)"
    by (rule paid_ok)
  from paid_batch_all_rows [OF sample_reachable ok] show ?thesis
    by (intro exI [of _ out]) (simp add: sample_item_def)
qed

text \<open>C32 A payment claim is refused only for its batch id: a transaction that already paid for one
  batch is accepted again for a new batch, because the save of the claim replaces the row that has
  the transaction hash instead of conflicting with it.\<close>
theorem payment_claim_accepted_iff:
  assumes "(vault_step k)\<^sup>*\<^sup>* empty_db db"
  shows "(\<exists>db'. insertPaymentClaimOrConflict cl db = Inr db') \<longleftrightarrow>
    list_all (\<lambda>c. pc_paymentBatchId c \<noteq> pc_paymentBatchId cl \<or> pc_paymentTxHash c = pc_paymentTxHash cl) (vd_claims db)"
proof -
  have wf: "distinct (map pc_paymentTxHash (vd_claims db))" "uq_claims_batch (vd_claims db)"
    using reachable_wf [OF assms] by (auto simp: vault_wf_def claims_wf_def)
  have "(\<exists>db'. insertPaymentClaimOrConflict cl db = Inr db') \<longleftrightarrow>
      uq_claims_batch (upsert pc_paymentTxHash cl (vd_claims db))"
    by (simp add: insertPaymentClaimOrConflict_def Let_def)
  also have "\<dots> \<longleftrightarrow> (\<forall>c \<in> set (vd_claims db).
      pc_paymentBatchId c = pc_paymentBatchId cl \<longrightarrow> pc_paymentTxHash c = pc_paymentTxHash cl)"
  proof
    assume uq: "uq_claims_batch (upsert pc_paymentTxHash cl (vd_claims db))"
    show "\<forall>c \<in> set (vd_claims db). pc_paymentBatchId c = pc_paymentBatchId cl \<longrightarrow> pc_paymentTxHash c = pc_paymentTxHash cl"
    proof (intro ballI impI)
      fix c assume c: "c \<in> set (vd_claims db)" "pc_paymentBatchId c = pc_paymentBatchId cl"
      show "pc_paymentTxHash c = pc_paymentTxHash cl"
      proof (rule ccontr)
        assume "pc_paymentTxHash c \<noteq> pc_paymentTxHash cl"
        then have "c \<in> set (upsert pc_paymentTxHash cl (vd_claims db))"
          using c(1) by (simp add: set_upsert [OF wf(1)])
        then show False
          using unique_indexD [OF uq [unfolded uq_claims_batch_def], of c cl] c(2)
            \<open>pc_paymentTxHash c \<noteq> pc_paymentTxHash cl\<close> by simp
      qed
    qed
  next
    assume "\<forall>c \<in> set (vd_claims db). pc_paymentBatchId c = pc_paymentBatchId cl \<longrightarrow> pc_paymentTxHash c = pc_paymentTxHash cl"
    then show "uq_claims_batch (upsert pc_paymentTxHash cl (vd_claims db))"
      unfolding uq_claims_batch_def
      by (intro unique_index_upsert) (use wf(2) in \<open>auto simp: uq_claims_batch_def\<close>)
  qed
  finally show ?thesis by (auto simp: list_all_iff)
qed

lemma paid_reachable: "(vault_step id)\<^sup>*\<^sup>* empty_db paid_vault"
proof -
  obtain out where
    "createPaidRedemptionBatch id 8 ''0xT'' ''b1'' ''17000000'' 8 1 [sample_item] sample_vault = Inr (out, paid_vault)"
    by (rule paid_ok)
  then have "vault_step id sample_vault paid_vault" by (rule vault_step.paid_batch)
  with sample_reachable show ?thesis by (rule rtranclp.rtrancl_into_rtrancl)
qed

theorem payment_claim_accepted_iff_witness:
  "hasPaymentClaim ''0xt'' paid_vault \<and> (\<exists>db'. insertPaymentClaimOrConflict \<lparr>pc_paymentTxHash = ''0xt'',
     pc_paymentBatchId = ''b2'', pc_paymentReceivedUsdcMicros = None, pc_chainId = Some 1\<rparr> paid_vault = Inr db')"
  unfolding payment_claim_accepted_iff [OF paid_reachable] by code_simp

section \<open>Burn and release\<close>

lemma latest_open_redemption:
  assumes wf: "vault_wf db" and r: "r \<in> set (vd_redemptions db)" "open_redemption r"
  shows "latest_by vr_requestedAt
    (filter (\<lambda>q. vr_vaultCycleId q = vr_vaultCycleId r \<and> open_redemption q) (vd_redemptions db)) = Some r"
proof -
  let ?rs = "filter (\<lambda>q. vr_vaultCycleId q = vr_vaultCycleId r \<and> open_redemption q) (vd_redemptions db)"
  have "r \<in> set ?rs" using r by simp
  then have "?rs \<noteq> []" by (metis empty_iff list.set(1))
  then obtain q where q: "latest_by vr_requestedAt ?rs = Some q" by fastforce
  then have "q \<in> set (vd_redemptions db)" "vr_vaultCycleId q = vr_vaultCycleId r" "open_redemption q"
    by (auto dest: latest_by_filter)
  then have "q = r" using one_open_redemption [OF wf _ r(1)] r(2) by blast
  with q show ?thesis by simp
qed

lemma burn_effect:
  assumes wf: "vault_wf db" and t: "find_token (tc, tid) db = Some t" "rt_vaultCycleId t = Some i"
    and c: "find_cycle i db = Some c" and r: "r \<in> set (vd_redemptions db)" "open_redemption r" "vr_vaultCycleId r = i"
  shows "completeRedemptionBurn now tc tid tx by db =
    save_redemption (r\<lparr>vr_status := r_burned, vr_burnTxHash := Some tx, vr_burnedAt := Some now\<rparr>)
      (save_cycle now (c\<lparr>vc_status := redeemed, vc_redeemedAt := Some now\<rparr>)
        (save_token (t\<lparr>rt_burnedAt := Some now, rt_burnTxHash := Some tx, rt_ownerWallet := None\<rparr>) db))"
proof -
  have i: "vc_id c = i" using find_cycle_Some [OF c] by simp
  have "burn_redemption now i by (save_cycle now (c\<lparr>vc_status := redeemed, vc_redeemedAt := Some now\<rparr>)
      (save_token (t\<lparr>rt_burnedAt := Some now, rt_burnTxHash := Some tx, rt_ownerWallet := None\<rparr>) db)) =
    (r, save_cycle now (c\<lparr>vc_status := redeemed, vc_redeemedAt := Some now\<rparr>)
      (save_token (t\<lparr>rt_burnedAt := Some now, rt_burnTxHash := Some tx, rt_ownerWallet := None\<rparr>) db))"
    using latest_open_redemption [OF wf r(1,2)] r(3) by (simp add: burn_redemption_def)
  moreover have "vr_status r \<noteq> r_completed" using r(2) by (auto simp: open_redemption_def)
  ultimately show ?thesis
    using t c i by (simp add: completeRedemptionBurn_def Let_def)
qed

text \<open>The way back: after an accepted request the burn closes the cycle, marks the token burned and
  moves exactly this redemption to burned; then the release completes it, and the card may be
  deposited again on its chain.\<close>
theorem redemption_lifecycle:
  assumes "(vault_step k)\<^sup>*\<^sup>* empty_db db"
    and ok: "requestRedemption now tc tid user owner ship fees db = Inr (r, db1)"
    and db2: "db2 = completeRedemptionBurn now2 tc tid tx by db1"
  shows "\<exists>c a t r3 db3. find_cycle (vr_vaultCycleId r) db2 = Some c \<and> vc_status c = redeemed \<and> vc_redeemedAt c = Some now2
    \<and> find_token (tc, tid) db2 = Some t \<and> rt_burnedAt t = Some now2
    \<and> confirmVaultRelease now3 (vr_id r) db2 = Inr (r3, db3) \<and> vr_status r3 = r_completed
    \<and> vr_burnTxHash r3 = Some tx \<and> vr_vaultReleasedAt r3 = Some now3
    \<and> find_asset (vc_vaultAssetId c) db3 = Some a
    \<and> fst (checkAvailableForNewCycle (va_externalCertNumber a) (vc_chainId c) (va_assetType a) db3)"
proof -
  have wf: "vault_wf db" by (rule reachable_wf [OF assms(1)])
  have reach1: "(vault_step k)\<^sup>*\<^sup>* empty_db db1"
    using assms(1) vault_step.request [OF ok] by (rule rtranclp.rtrancl_into_rtrancl)
  then have wf1: "vault_wf db1" by (rule reachable_wf)
  from wf ok obtain t i c where t: "find_token (tc, tid) db = Some t" "rt_vaultCycleId t = Some i"
    and c: "find_cycle i db = Some c" "vc_status c = minted"
    and r: "vr_vaultCycleId r = i" "vr_status r = r_ownership_verified"
    and db1: "db1 = save_cycle now (c\<lparr>vc_status := redemption_requested\<rparr>)
      (save_redemption r (db\<lparr>vd_next := vd_next db + 1\<rparr>))"
    by (rule requestRedemption_Inr)
  let ?c1 = "c\<lparr>vc_status := redemption_requested, vc_updatedAt := now\<rparr>"
  let ?c2 = "?c1\<lparr>vc_status := redeemed, vc_redeemedAt := Some now2, vc_updatedAt := now2\<rparr>"
  let ?r2 = "r\<lparr>vr_status := r_burned, vr_burnTxHash := Some tx, vr_burnedAt := Some now2\<rparr>"
  let ?t2 = "t\<lparr>rt_burnedAt := Some now2, rt_burnTxHash := Some tx, rt_ownerWallet := None\<rparr>"
  have i: "vc_id c = i" using find_cycle_Some [OF c(1)] by simp
  have c1: "find_cycle i db1 = Some ?c1" using i by (simp add: db1 table_simps)
  have t1: "find_token (tc, tid) db1 = Some t"
    using t(1) by (simp add: db1 find_token_def save_redemption_def save_cycle_def)
  have r1: "r \<in> set (vd_redemptions db1)" "open_redemption r"
    using r by (simp_all add: db1 save_tables open_redemption_def)
  have e: "db2 = save_redemption ?r2 (save_cycle now2 (?c1\<lparr>vc_status := redeemed, vc_redeemedAt := Some now2\<rparr>)
      (save_token ?t2 db1))"
    unfolding db2 by (rule burn_effect [OF wf1 t1 t(2) c1 r1 r(1)])
  have key: "rt_key ?t2 = (tc, tid)" using find_token_Some [OF t(1)] by (simp add: rt_key_def)
  have c2: "find_cycle i db2 = Some ?c2" using i by (simp add: e table_simps)
  have t2: "find_token (tc, tid) db2 = Some ?t2" using key by (simp add: e token_repo.look_put)
  have f2: "find_redemption (vr_id r) db2 = Some ?r2" by (simp add: e redemption_repo.look_put)
  define r3 where "r3 = ?r2\<lparr>vr_status := r_completed, vr_vaultReleasedAt := Some now3\<rparr>"
  define db3 where "db3 = save_redemption r3 db2"
  have rel: "confirmVaultRelease now3 (vr_id r) db2 = Inr (r3, db3)"
    using f2 by (simp add: confirmVaultRelease_def r3_def db3_def Let_def)
  have "?c1 \<in> set (vd_cycles db1)" using find_cycle_Some [OF c1] by simp
  then obtain a where a: "a \<in> set (vd_assets db1)" "va_id a = vc_vaultAssetId c"
    using wf1 by (auto simp: wf_defs)
  have assets: "vd_assets db3 = vd_assets db1" by (simp add: db3_def e)
  have fa: "find_asset (vc_vaultAssetId ?c2) db3 = Some a"
    using a wf1 by (simp add: find_asset_def assets wf_defs find_key_member flip: a(2))
  have cert: "find_asset_by_cert (va_assetType a) (va_externalCertNumber a) db3 = Some a"
    using find_asset_by_cert_member [OF wf1 a(1)] by (simp add: find_asset_by_cert_def assets)
  have dist: "distinct (map vc_id (vd_cycles db1))" using wf1 by (simp add: wf_defs)
  have cycles: "set (vd_cycles db3) = insert ?c2 {x \<in> set (vd_cycles db1). vc_id x \<noteq> i}"
    using set_upsert [OF dist, of ?c2] i by (simp add: db3_def e save_tables)
  have "open_cycle_of (va_id a) (vc_chainId c) db3 = None"
    unfolding open_cycle_of_None cycles
  proof (intro ballI impI notI)
    fix x assume x: "x \<in> insert ?c2 {x \<in> set (vd_cycles db1). vc_id x \<noteq> i}" "open_cycle x"
      "vc_vaultAssetId x = va_id a" "vc_chainId x = vc_chainId c"
    from x(1,2) have m: "x \<in> set (vd_cycles db1)" "vc_id x \<noteq> i" by (auto simp: open_cycle_def)
    have "?c1 \<in> set (vd_cycles db1)" using find_cycle_Some [OF c1] by blast
    moreover have "open_cycle ?c1" by (simp add: open_cycle_def)
    ultimately have "x = ?c1"
      by (rule one_open_cycle [OF wf1 m(1) _ x(2)]) (simp_all add: x(3,4) a(2))
    then have "vc_id x = i" using i by simp
    with m(2) show False by simp
  qed
  moreover have "normalizeCert (va_externalCertNumber a) = va_externalCertNumber a"
    using a(1) reachable_anchored [OF reach1] by (simp add: anchored_def)
  ultimately have "findOpenCycleForCert (va_externalCertNumber a) (vc_chainId c) (va_assetType a) db3 = None"
    using cert by (simp add: findOpen_None_iff)
  then have av: "fst (checkAvailableForNewCycle (va_externalCertNumber a) (vc_chainId c) (va_assetType a) db3)"
    by (simp add: checkAvailableForNewCycle_def)
  show ?thesis
    by (intro exI [of _ ?c2] exI [of _ a] exI [of _ ?t2] exI [of _ r3] exI [of _ db3])
       (use c2 t2 rel fa av r in \<open>simp add: r3_def\<close>)
qed

theorem redemption_lifecycle_witness:
  "\<exists>c. find_cycle 1 (completeRedemptionBurn 9 ''0xaa'' ''40'' ''tx'' None requested) = Some c \<and> vc_status c = redeemed"
proof -
  obtain r where ok: "requestRedemption 8 ''0xaa'' ''40'' (Some ''u'') ''0xBB'' None None sample_vault = Inr (r, requested)"
    by (rule requested_ok)
  have "vr_vaultCycleId r = 1"
  proof -
    have "(case requestRedemption 8 ''0xaa'' ''40'' (Some ''u'') ''0xBB'' None None sample_vault of
      Inl e \<Rightarrow> False | Inr (r, db) \<Rightarrow> vr_vaultCycleId r = 1)" by code_simp
    with ok show ?thesis by simp
  qed
  with redemption_lifecycle [OF sample_reachable ok refl] show ?thesis by metis
qed

text \<open>Confirming a receipt is idempotent: a second confirmation of the returned rows changes
  neither the rows nor the table, so the date and the way of the first confirmation stay.\<close>
theorem receipt_idempotent:
  assumes "distinct (map vr_id rows)"
    and "markUserReceiptConfirmed ts via rows db = (rows', db')"
  shows "markUserReceiptConfirmed ts2 via2 rows' db' = (rows', db')
    \<and> list_all (\<lambda>r. vr_status r = r_completed \<and> vr_vaultReleasedAt r \<noteq> None \<and> vr_receiptConfirmedVia r \<noteq> None) rows'"
proof -
  let ?v = "case via of None \<Rightarrow> via_user | Some v \<Rightarrow> v" and ?v2 = "case via2 of None \<Rightarrow> via_user | Some v \<Rightarrow> v"
  have rows': "rows' = map (receipt_row ts ?v) rows" and db': "db' = fold save_redemption rows' db"
    using assms(2) by (auto simp: markUserReceiptConfirmed_def Let_def split: if_splits)
  have again: "receipt_row ts2 w (receipt_row ts v r) = receipt_row ts v r" for w v r
    by (auto simp: receipt_row_def or_else_def split: option.split)
  have set: "list_all (\<lambda>r. vr_status r = r_completed \<and> vr_vaultReleasedAt r \<noteq> None \<and> vr_receiptConfirmedVia r \<noteq> None) rows'"
    by (auto simp: rows' list_all_iff receipt_row_def or_else_def split: option.split)
  have same: "map (receipt_row ts2 ?v2) rows' = rows'"
    by (simp add: rows' again comp_def)
  have dist: "distinct (map vr_id rows')" using assms(1) by (simp add: rows' comp_def)
  have "fold save_redemption rows' (fold save_redemption rows' db) = fold save_redemption rows' db"
    by (rule fold_save_again [OF dist])
  then show ?thesis using set same by (simp add: markUserReceiptConfirmed_def db' Let_def)
qed

theorem receipt_idempotent_witness:
  "let (rows, db) = markUserReceiptConfirmed 9 None (vd_redemptions requested) requested
   in markUserReceiptConfirmed 10 (Some via_auto) rows db = (rows, db)"
proof -
  have "distinct (map vr_id (vd_redemptions requested))" by code_simp
  from receipt_idempotent [OF this prod.collapse [symmetric]] show ?thesis
    by (simp add: case_prod_beta)
qed

text \<open>Custody is recorded once: after markCustodyReceived has accepted a transfer, a repeated
  call, with whatever hash, answers with the recorded row and changes nothing.\<close>
theorem custody_recorded_once:
  assumes "markCustodyReceived now i tx db = Inr (r, db')" "js_trim tx \<noteq> []"
  shows "vr_status r = r_in_custody \<and> find_redemption i db' = Some r
    \<and> markCustodyReceived now2 i tx2 db' = Inr (r, db')"
proof -
  from assms(1) obtain row where row: "find_redemption i db = Some row"
    by (cases "find_redemption i db") (auto simp: markCustodyReceived_def)
  have i: "vr_id row = i" using find_redemption_Some [OF row] by simp
  show ?thesis
  proof (cases "vr_status row = r_in_custody \<and> or_empty (vr_custodyTxHash row) \<noteq> []")
    case True
    with row assms show ?thesis by (auto simp: markCustodyReceived_def)
  next
    case False
    then have "vr_status row = r_ownership_verified"
      using assms(1) row by (auto simp: markCustodyReceived_def split: if_splits)
    then have "r = row\<lparr>vr_custodyTxHash := Some (js_lower (js_trim tx)), vr_custodyAt := Some now, vr_status := r_in_custody\<rparr>"
      "db' = save_redemption r db"
      using assms(1) row by (auto simp: markCustodyReceived_def Let_def)
    moreover from this have "find_redemption i db' = Some r" using i by (simp add: redemption_repo.look_put)
    ultimately show ?thesis using assms(2) by (simp add: markCustodyReceived_def or_empty_def)
  qed
qed

theorem custody_recorded_once_witness:
  "let r = hd (vd_redemptions requested) in
     (case markCustodyReceived 9 (vr_id r) ''0xC'' requested of
        Inl e \<Rightarrow> False
      | Inr (q, db) \<Rightarrow> markCustodyReceived 11 (vr_id r) ''0xD'' db = Inr (q, db))"
proof -
  let ?i = "vr_id (hd (vd_redemptions requested))"
  have "(case markCustodyReceived 9 ?i ''0xC'' requested of Inl e \<Rightarrow> False | Inr x \<Rightarrow> True)" by code_simp
  then obtain q db where m: "markCustodyReceived 9 ?i ''0xC'' requested = Inr (q, db)"
    by (cases "markCustodyReceived 9 ?i ''0xC'' requested") auto
  have "js_trim ''0xC'' \<noteq> []" by code_simp
  from custody_recorded_once [OF m this] m show ?thesis by (simp add: Let_def)
qed

section \<open>What other services may change\<close>

text \<open>Whatever sequence of owner updates and policy writes the order book and the owner index
  make, cycles, redemptions and payment claims stay, and a settlement policy that is set for a
  token is never changed.\<close>
theorem registry_keeps_custody:
  assumes "(vault_step k)\<^sup>*\<^sup>* empty_db db" "registry_step\<^sup>*\<^sup>* db db'"
  shows "vd_cycles db' = vd_cycles db \<and> vd_redemptions db' = vd_redemptions db \<and> vd_claims db' = vd_claims db
    \<and> (\<forall>key p. stored_policy key db = Some p \<longrightarrow> stored_policy key db' = Some p)"
  using registry_machine.steps_adv [OF reachable_wf [OF assms(1)] assms(2)] by (simp add: registry_le_def)

theorem registry_keeps_custody_witness:
  "stored_policy (''0xaa'', ''40'') (ensureSettlementPolicy ''0xAA'' ''40'' self_vault_hold sample_vault) = Some standard"
proof -
  have "registry_step\<^sup>*\<^sup>* sample_vault (ensureSettlementPolicy ''0xAA'' ''40'' self_vault_hold sample_vault)"
    by (rule ensure_steps)
  moreover have "stored_policy (''0xaa'', ''40'') sample_vault = Some standard" by code_simp
  ultimately show ?thesis using registry_keeps_custody [OF sample_reachable] by blast
qed

end
