(* ===== verification/RedeemFlowProperties.thy ===== *)
theory RedeemFlowProperties
  imports RedeemSample RedeemProperties
begin

text \<open>
  The properties of the redeem flow: what the machine of RedeemTrace keeps in every reachable
  state, quotes and payments, receipts, and what goes wrong when operations interleave with the
  chain. The witnesses run the shop of RedeemSample.
\<close>

section \<open>Reachable states\<close>

lemma redeem_reach_wf: "(redeem_step k cfg)\<^sup>*\<^sup>* no_redeems st \<Longrightarrow> redeem_wf cfg st"
  by (rule redeem_flow.steps_inv [OF no_redeems_wf])

lemma reach_row_ok:
  "(redeem_step k cfg)\<^sup>*\<^sup>* no_redeems st \<Longrightarrow> r \<in> set (vd_redemptions (rs_vault st)) \<Longrightarrow> row_ok r"
  using redeem_reach_wf by (auto simp: redeem_wf_def rows_ok_def)

lemma custody_shown:
  "sent_back r \<Longrightarrow> computeCustodyStatus r = c_returned"
  "not_returned r \<Longrightarrow> vr_custodyAt r \<noteq> None \<Longrightarrow> computeCustodyStatus r = c_in_custody"
  "not_returned r \<Longrightarrow> never_in_custody r \<Longrightarrow> vr_status r = r_ownership_verified \<or> vr_status r = r_refunded \<Longrightarrow>
   computeCustodyStatus r = c_pending"
  by (auto simp: computeCustodyStatus_def sent_back_def not_returned_def never_in_custody_def or_empty_def)

text \<open>C17 The columns of a redemption have a type, as long as requests run one after another (none comes
  between the check and the entry of another) and the wallets of the platform report what they did:
  of the statuses and refund statuses only seven pairs occur in a state that such requests reach
  (a refund between the check and the entry of a burn makes an eighth, see below among what can go
  wrong), and what the admin page computes from the other columns agrees with them. A verified
  row is not in custody yet; a row in custody that is not returned shows its NFT in custody; a row
  whose NFT went back, or whose refund is complete after the intake, shows it returned; a
  row that is refunded without intake never had it.\<close>
theorem redemption_rows_typed:
  assumes "(redeem_step k cfg)\<^sup>*\<^sup>* no_redeems st" "r \<in> set (vd_redemptions (rs_vault st))"
  shows "case (vr_status r, vr_refundStatus r) of
      (r_ownership_verified, rf_none) \<Rightarrow> computeCustodyStatus r = c_pending
    | (r_in_custody, rf_none) \<Rightarrow> computeCustodyStatus r = c_in_custody
    | (r_in_custody, usdc_refunded) \<Rightarrow> computeCustodyStatus r = c_in_custody
    | (r_in_custody, nft_returned) \<Rightarrow> computeCustodyStatus r = c_returned
    | (r_burned, rf_none) \<Rightarrow> computeCustodyStatus r \<noteq> c_returned
    | (r_completed, rf_none) \<Rightarrow> computeCustodyStatus r \<noteq> c_returned
    | (r_refunded, fully_refunded) \<Rightarrow> computePaymentStatus r = p_refunded
        \<and> (computeCustodyStatus r = c_returned \<or> computeCustodyStatus r = c_pending \<and> \<not> wasEverInCustody r)
    | _ \<Rightarrow> False"
  using reach_row_ok [OF assms]
  by (elim row_ok_cases)
     (auto simp: custody_shown computePaymentStatus_def wasEverInCustody_def never_in_custody_def or_empty_def
       computeCustodyStatus_def not_returned_def sent_back_def)

lemma shop_rows [simp]: "vd_redemptions (rs_vault (shop (Some r) c t x)) = [r]"
  by (simp add: shop_def rs_vault_def)

theorem redemption_rows_typed_witness:
  "\<exists>r. r \<in> set (vd_redemptions (rs_vault repaid)) \<and> computePaymentStatus r = p_refunded \<and> computeCustodyStatus r = c_pending"
proof -
  obtain r where r: "vd_redemptions (rs_vault repaid) = [r]" "vr_status r = r_refunded" "vr_refundStatus r = fully_refunded"
    "vr_custodyReturnedAt r = None" "vr_custodyReturnTxHash r = None"
    by (simp add: repaid_def paid_row_def)
  then have m: "r \<in> set (vd_redemptions (rs_vault repaid))" by simp
  have "computeCustodyStatus r \<noteq> c_returned" using r(4,5) by (simp add: computeCustodyStatus_def or_empty_def)
  with redemption_rows_typed [OF repaid_reach m] r(2,3)
  have "computePaymentStatus r = p_refunded \<and> computeCustodyStatus r = c_pending" by simp
  with m show ?thesis by blast
qed

text \<open>C4 A batch is refunded once, and then its cards are not burned, as long as requests run one after
  another (none comes between the check and the entry of another) and the wallets of the platform
  report what they did: in every state that such requests reach no batch has two refunds on chain,
  every row of a refunded batch says so, and a batch with a refunded row has no row that is burned
  or completed. A refund between the check and the entry of a burn breaks the last part,
  see below among what can go wrong.\<close>
theorem batch_refunded_once:
  assumes "(redeem_step k cfg)\<^sup>*\<^sup>* no_redeems st"
  shows "distinct (map fst (rs_refunds st))
    \<and> list_all (\<lambda>x. batch_rows (fst x) (rs_vault st) \<noteq> [] \<and> list_all usdc_is_refunded (batch_rows (fst x) (rs_vault st)))
        (rs_refunds st)
    \<and> list_all (\<lambda>q. list_all (\<lambda>r. vr_paymentBatchId r = vr_paymentBatchId q \<and> vr_paymentBatchId q \<noteq> None
          \<and> usdc_is_refunded r \<longrightarrow> \<not> refund_blocked (vr_status q)) (vd_redemptions (rs_vault st))) (vd_redemptions (rs_vault st))"
proof -
  have wf: "refunds_ok st" "rows_ok (vd_redemptions (rs_vault st))"
    using redeem_reach_wf [OF assms] by (simp_all add: redeem_wf_def)
  have "\<not> refund_blocked (vr_status q)"
    if rq: "r \<in> set (vd_redemptions (rs_vault st))" "q \<in> set (vd_redemptions (rs_vault st))"
      "vr_paymentBatchId r = vr_paymentBatchId q" "vr_paymentBatchId q \<noteq> None" "usdc_is_refunded r" for r q
  proof -
    have rows: "\<forall>r \<in> set (vd_redemptions (rs_vault st)). row_ok r" "batches_agree (vd_redemptions (rs_vault st))"
      using wf(2) by (simp_all add: rows_ok_def)
    have "usdc_is_refunded r = usdc_is_refunded q"
      using bspec [OF bspec [OF rows(2) [unfolded batches_agree_def] rq(1)] rq(2)] rq(3,4) by simp
    then have "row_ok q" "usdc_is_refunded q" using rows(1) rq(2,5) by simp_all
    then show ?thesis by (elim row_ok_cases) (simp_all add: usdc_is_refunded_def refund_blocked_def)
  qed
  then show ?thesis
    using wf(1) unfolding refunds_ok_def settled_batch_def list_all_iff by blast
qed

theorem batch_refunded_once_witness:
  "map fst (rs_refunds repaid) = [''b1''] \<and> list_all usdc_is_refunded (batch_rows ''b1'' (rs_vault repaid))"
proof -
  have "rs_refunds repaid = [(''b1'', buyer, 13000000)]" by (simp add: repaid_def shop_def)
  with batch_refunded_once [OF repaid_reach] show ?thesis by simp
qed

text \<open>C5 The redeem flow refines two life cycles, as long as requests run one after another and the
  wallets report what they did. Between two states that such requests reach a redemption appears
  verified (or burned, for a token that was burned without a request), moves into custody, is
  burned and completed, or is refunded: at once before the intake, afterwards in two steps, the USDC
  and the NFT in either order. The cycle of a card follows the graph of custody with the way back
  from requested to minted. That way back is taken by a refund only: a cycle of which no redemption
  became refunded between the two states is still there and went forward along the graph of
  custody, which leads from requested to redeemed alone.\<close>
theorem redeem_flow_refines_life:
  assumes "(redeem_step k cfg)\<^sup>*\<^sup>* no_redeems st" "(redeem_step k cfg)\<^sup>*\<^sup>* st st'"
  shows "(life_step row_initial row_edge)\<^sup>*\<^sup>* (row_states (vd_redemptions (rs_vault st))) (row_states (vd_redemptions (rs_vault st')))
    \<and> (life_step initial_cycle custody_edge)\<^sup>*\<^sup>* (cycle_statuses (rs_vault st)) (cycle_statuses (rs_vault st'))
    \<and> (\<forall>j s. cycle_statuses (rs_vault st) j = Some s \<longrightarrow>
          \<not> refund_between j (vd_redemptions (rs_vault st)) (vd_redemptions (rs_vault st')) \<longrightarrow>
          (\<exists>t. cycle_statuses (rs_vault st') j = Some t \<and> cycle_edge\<^sup>*\<^sup>* s t))"
proof -
  have wf: "redeem_wf cfg st" by (rule redeem_reach_wf [OF assms(1)])
  have "custody_forward (rs_vault st) (rs_vault st')" by (rule flow_forward.steps_adv [OF wf assms(2)])
  then show ?thesis
    using flow_rows.refines_steps [OF wf assms(2)] flow_cycles.refines_steps [OF wf assms(2)]
    by (simp add: custody_forward_def)
qed

lemma repaid_steps: "(redeem_step id redeem_config)\<^sup>*\<^sup>* ordered repaid"
  using redeem_step.refund [OF fee_signer_reports prod.collapse [symmetric]] repaid_result r_into_rtranclp by metis

lemma requested_forward: "cycle_edge\<^sup>*\<^sup>* redemption_requested t \<Longrightarrow> t \<noteq> minted"
proof -
  have "cycle_edge\<^sup>*\<^sup>* s t \<Longrightarrow> s = redemption_requested \<or> s = redeemed \<Longrightarrow> t = redemption_requested \<or> t = redeemed" for s
    by (induction rule: rtranclp_induct) auto
  then show "cycle_edge\<^sup>*\<^sup>* redemption_requested t \<Longrightarrow> t \<noteq> minted" by auto
qed

theorem redeem_flow_refines_life_witness:
  "(life_step row_initial row_edge)\<^sup>*\<^sup>* (row_states (vd_redemptions (rs_vault ordered))) (row_states (vd_redemptions (rs_vault repaid)))
   \<and> cycle_statuses (rs_vault ordered) 1 = Some redemption_requested \<and> cycle_statuses (rs_vault repaid) 1 = Some minted
   \<and> refund_between 1 (vd_redemptions (rs_vault ordered)) (vd_redemptions (rs_vault repaid))"
proof -
  have "cycle_statuses (rs_vault ordered) 1 = Some redemption_requested" "cycle_statuses (rs_vault repaid) 1 = Some minted"
    by code_simp+
  with redeem_flow_refines_life [OF ordered_reach repaid_steps] requested_forward show ?thesis by fastforce
qed

text \<open>A redemption that is completed or fully refunded stays as it is for ever, and no redemption is
  ever deleted.\<close>
theorem closed_redemption_is_final:
  assumes "(redeem_step k cfg)\<^sup>*\<^sup>* no_redeems st" "(redeem_step k cfg)\<^sup>*\<^sup>* st st'"
    and "find_redemption i (rs_vault st) = Some r"
  shows "\<exists>r'. find_redemption i (rs_vault st') = Some r'
    \<and> (vr_status r = r_completed \<or> vr_status r = r_refunded \<longrightarrow>
        vr_status r' = vr_status r \<and> vr_refundStatus r' = vr_refundStatus r)"
proof -
  have abs: "row_states (vd_redemptions (rs_vault s)) i = map_option row_state (find_redemption i (rs_vault s))" for s
    by (simp add: row_states_def find_redemption_def)
  have wf: "redeem_wf cfg st" by (rule redeem_reach_wf [OF assms(1)])
  from flow_rows.row_path [OF wf assms(2), of i "row_state r"] assms(3)
  obtain r' where r': "find_redemption i (rs_vault st') = Some r'" by (auto simp: abs)
  have "row_state r' = row_state r" if "vr_status r = r_completed \<or> vr_status r = r_refunded"
    using flow_rows.closed_stays [OF wf assms(2), of i "row_state r"] that r' assms(3)
    by (auto simp: abs row_state_def)
  then show ?thesis using r' by (auto simp: row_state_def)
qed

theorem closed_redemption_is_final_witness:
  "\<exists>r'. find_redemption 2 (rs_vault repaid) = Some r' \<and> vr_status r' = r_refunded"
proof -
  obtain r where r: "find_redemption 2 (rs_vault repaid) = Some r" "vr_status r = r_refunded"
  proof -
    have "(case find_redemption 2 (rs_vault repaid) of None \<Rightarrow> False | Some r \<Rightarrow> vr_status r = r_refunded)" by code_simp
    then show thesis using that by (auto split: option.splits)
  qed
  from closed_redemption_is_final [OF repaid_reach rtranclp.rtrancl_refl r(1)] r(2) show ?thesis by auto
qed

section \<open>Quotes\<close>

text \<open>C19 The estimate is the sum of its lines: with fees in whole cents, the total of an estimate for
  token ids is the sum of the lines of its cards and the sum of its shipments, every card of the
  request has exactly one line, and the USDC amount is that total to the micro.\<close>
theorem estimate_is_sum_of_lines:
  assumes "fee_estimate env country n ids chain shipTo db = (Inr e, db')" "positive_ids ids \<noteq> []"
    and "cents_config (loadPsaVaultFeeConfig (fn_config env))"
  shows "re_totalUsd e = usd_sum cf_totalUsd (re_cards e) \<and> re_totalUsd e = usd_sum sh_totalUsd (re_shipments e)
    \<and> mset (map cf_tokenId (re_cards e)) = mset (js_unique (positive_ids ids))
    \<and> of_int (re_totalUsdcMicros e) = re_totalUsd e * 1000000"
proof -
  obtain metas where "price_cards env country shipTo metas = Inr e" "map tm_tokenId metas = js_unique (positive_ids ids)"
    using assms(1,2) by (rule fee_estimate_Inr)
  from price_cards_sum [OF this(1) assms(3)] this(2) show ?thesis by simp
qed

theorem estimate_is_sum_of_lines_witness:
  "re_totalUsd quote_40 = 1297 / 100 \<and> usd_sum cf_totalUsd (re_cards quote_40) = 1297 / 100
   \<and> re_totalUsdcMicros quote_40 = 12970000"
proof -
  have 1: "positive_ids (map of_nat [40]) \<noteq> []" "cents_config (loadPsaVaultFeeConfig (fn_config (rv_fee env9)))"
    "re_totalUsd quote_40 = 1297 / 100" by code_simp+
  from estimate_is_sum_of_lines [OF sample_fee 1(1,2)] 1(3) show ?thesis by simp
qed



section \<open>Healing\<close>

lemma heal_loop_fuel:
  "distinct healed \<Longrightarrow> set healed \<subseteq> set ids \<Longrightarrow> length ids < m + length healed \<Longrightarrow>
   heal_loop env c ch ids healed (m + n) db = heal_loop env c ch ids healed m db"
proof (induction m arbitrary: healed db)
  case 0
  have "length healed \<le> length ids"
    using card_mono [OF finite_set 0(2)] card_length [of ids] distinct_card [OF 0(1)] by simp
  with 0(3) show ?case by simp
next
  case (Suc m)
  have "i \<in> set ids" if "missing_token c ids d = Some i" for i d
    using that find_row_Some by (fastforce simp: missing_token_def)
  then have "heal_loop env c ch ids (i # healed) (m + n) d = heal_loop env c ch ids (i # healed) m d"
    if "missing_token c ids db = Some i" "i \<notin> set healed" for i d
    using that Suc.prems by (intro Suc.IH) auto
  then show ?case by (auto split: sum.split option.split)
qed

lemma heal_loop_check:
  "distinct healed \<Longrightarrow> set healed \<subseteq> set ids \<Longrightarrow> length ids < m + length healed \<Longrightarrow>
   snd (heal_loop env c ch ids healed m db) = assertTokensRedeemable c (map nat_str ids) (fst (heal_loop env c ch ids healed m db))"
proof (induction m arbitrary: healed db)
  case 0
  have "length healed \<le> length ids"
    using card_mono [OF finite_set 0(2)] card_length [of ids] distinct_card [OF 0(1)] by simp
  with 0(3) show ?case by simp
next
  case (Suc m)
  have mem: "i \<in> set ids" if "missing_token c ids d = Some i" for i d
    using that find_row_Some by (fastforce simp: missing_token_def)
  show ?case
  proof (cases "assertTokensRedeemable c (map nat_str ids) db")
    case (Inl e)
    show ?thesis
    proof (cases "missing_token c ids db")
      case (Some i)
      then show ?thesis
        using Inl mem [OF Some] Suc.prems Suc.IH [of "i # healed"] by auto
    qed (use Inl in auto)
  qed auto
qed

text \<open>C39 The loop that heals the registry ends: it heals every token at most once, so one round more than
  there are tokens is enough, more rounds change nothing, and the fallback error after the loop is
  never reached; the verdict is that of the check on the registry it leaves.\<close>
theorem heal_loop_ends:
  "heal_loop env c ch ids [] (length ids + 1 + n) db = heal_loop env c ch ids [] (length ids + 1) db
   \<and> snd (heal_loop env c ch ids [] (length ids + 1) db)
     = assertTokensRedeemable c (map nat_str ids) (fst (heal_loop env c ch ids [] (length ids + 1) db))"
  by (rule conjI [OF heal_loop_fuel heal_loop_check]) (simp_all only: distinct.simps list.set list.size, simp_all)

section \<open>Payments\<close>

lemma need_Inr: "need r f st = (st', Inr y) \<longleftrightarrow> (\<exists>x. r = Inr x \<and> f x st = (st', Inr y))"
  by (cases r) (simp_all add: need_def)

lemma andThen_Inr: "andThen p f = (st', Inr y) \<longleftrightarrow> (\<exists>s x. p = (s, Inr x) \<and> f x s = (st', Inr y))"
  by (cases p; cases "snd p") (auto simp: andThen_def)

lemma verify_paid:
  "verifyUsdcPaymentToFeeRecipient env tx from m ch = Inr got \<Longrightarrow> m \<le> got"
  by (auto simp: verifyUsdcPaymentToFeeRecipient_def Let_def on_ok_eq_Inr split: option.splits if_splits)

text \<open>A payment that covers the cheaper candidate covers the one that is chosen.\<close>

lemma matching_covered:
  assumes "re_totalUsdcMicros fresh \<le> got \<or> (\<exists>p. pinned = Some p \<and> re_totalUsdcMicros p \<le> got)"
  shows "re_totalUsdcMicros (estimateMatchingPayment fresh pinned got) \<le> got"
proof -
  let ?c = "case pinned of Some p \<Rightarrow> [p, fresh] | None \<Rightarrow> [fresh]"
  let ?f = "filter (\<lambda>e. re_totalUsdcMicros e \<le> got) ?c"
  show ?thesis
  proof (cases "find_row (\<lambda>e. re_totalUsdcMicros e = got) ?c")
    case (Some e)
    then show ?thesis using find_row_Some [OF Some] by (simp add: estimateMatchingPayment_def Let_def)
  next
    case None
    have "?f \<noteq> []" using assms by (auto split: option.splits)
    then obtain e es where e: "order_desc re_totalUsdcMicros ?f = e # es"
      by (cases "order_desc re_totalUsdcMicros ?f") (auto simp: order_desc_def dest: arg_cong [of _ _ set])
    then have "e \<in> set (order_desc re_totalUsdcMicros ?f)" by simp
    then have "re_totalUsdcMicros e \<le> got" by (simp add: order_desc_def)
    with None e show ?thesis by (simp add: estimateMatchingPayment_def Let_def)
  qed
qed

lemma pinnedQuote_member: "pinnedQuote now key pins = Some p \<Longrightarrow> (\<exists>x \<in> set pins. p = snd x)"
  by (auto simp: pinnedQuote_def find_pin_def split: option.splits if_splits dest!: find_row_Some)

lemma paid_for_estimate:
  assumes "pins_ok st" "expected_micros fresh (pinnedQuote now key (rs_pins st)) \<le> got"
  shows "re_totalUsdcMicros (estimateMatchingPayment fresh (map_option qp_estimate (pinnedQuote now key (rs_pins st))) got) \<le> got"
proof (rule matching_covered)
  show "re_totalUsdcMicros fresh \<le> got \<or>
    (\<exists>p. map_option qp_estimate (pinnedQuote now key (rs_pins st)) = Some p \<and> re_totalUsdcMicros p \<le> got)"
  proof (cases "pinnedQuote now key (rs_pins st)")
    case (Some p)
    then have "qp_totalMicros p = re_totalUsdcMicros (qp_estimate p)"
      using pinnedQuote_member [OF Some] assms(1) by (auto simp: pins_ok_def honest_pin_def)
    with assms(2) Some show ?thesis by (auto simp: expected_micros_def split: if_splits)
  qed (use assms(2) in \<open>simp add: expected_micros_def\<close>)
qed

lemma request_Inr:
  assumes "requestRedemptionBatch env user dto ch st = (st', Inr br)"
    and "ids = js_unique (map nat (filter (\<lambda>n. 0 < n) (rb_tokenIds dto)))"
  obtains destIso s fresh key got contract prepared db where
    "price_batch env (rb_shipTo dto) ch ids destIso st = (s, Inr fresh)"
    "expected_micros fresh (pinnedQuote (rv_now env) key (rs_pins s)) \<le> got"
    "getRwaAddress (rv_config env) ch = Inr contract"
    "map_ok (prepare_item env user ch contract (rb_shipTo dto) destIso (br_estimate br)) ids = Inr prepared"
    "createPaidRedemptionBatch (rv_keccak env) (rv_now env) (js_lower (js_trim (rb_paymentTxHash dto)))
       (rv_batchId env) (int_str got) (rv_now env) ch prepared (rs_vault s) = Inr (br_redemptions br, db)"
    "st' = cancelActiveOrdersForTokens (rv_now env) contract ids (put_vault db s)"
    "br_paymentReceivedUsdcMicros br = int_str got"
    "br_estimate br = estimateMatchingPayment fresh (map_option qp_estimate (pinnedQuote (rv_now env) key (rs_pins s))) got"
proof -
  from assms(1) obtain destIso s fresh where p: "price_batch env (rb_shipTo dto) ch ids destIso st = (s, Inr fresh)"
    and b: "pay_batch env user dto ch ids destIso fresh s = (st', Inr br)"
    by (auto simp: requestRedemptionBatch_def Let_def assms(2) andThen_Inr split: sum.splits if_splits)
  define key where "key = quotePinKey ids (Some (bucket_str (rd_country (rb_shipTo dto))))
    (Some (destination_code (rb_shipTo dto) destIso)) (Some (rd_postal (rb_shipTo dto)))"
  define est where "est = estimateMatchingPayment fresh (map_option qp_estimate (pinnedQuote (rv_now env) key (rs_pins s)))"
  from b obtain got where 1: "expected_micros fresh (pinnedQuote (rv_now env) key (rs_pins s)) \<le> got"
    and 2: "open_paid_batch env user dto ch ids destIso (est got) got s = (st', Inr br)"
    by (auto simp: pay_batch_def Let_def need_Inr key_def [symmetric] est_def [symmetric] split: if_splits dest: verify_paid)
  from 2 obtain contract prepared db where c: "getRwaAddress (rv_config env) ch = Inr contract"
    "map_ok (prepare_item env user ch contract (rb_shipTo dto) destIso (est got)) ids = Inr prepared"
    "createPaidRedemptionBatch (rv_keccak env) (rv_now env) (js_lower (js_trim (rb_paymentTxHash dto)))
       (rv_batchId env) (int_str got) (rv_now env) ch prepared (rs_vault s) = Inr (br_redemptions br, db)"
    "st' = cancelActiveOrdersForTokens (rv_now env) contract ids (put_vault db s)"
    "br_paymentReceivedUsdcMicros br = int_str got" "br_estimate br = est got"
    by (auto simp: open_paid_batch_def need_Inr Let_def split: prod.splits)
  show thesis
  proof (rule that [OF p 1 c(1) _ c(3-5)])
    show "map_ok (prepare_item env user ch contract (rb_shipTo dto) destIso (br_estimate br)) ids = Inr prepared"
      using c(2,6) by simp
  qed (simp add: c(6) est_def)
qed


lemma prepared_ids:
  "map_ok (prepare_item env user ch contract ship dest est) ids = Inr items \<Longrightarrow> map it_tokenId items = map nat_str ids"
  by (erule map_ok_map) (auto simp: prepare_item_def on_ok_eq_Inr split: option.splits if_splits)

lemma listings_closed:
  assumes "i \<in> set ids" "ord \<in> set (mk_orders (rs_market (cancelActiveOrdersForTokens now c ids st)))"
    "js_lower (o_tokenContract ord) = js_lower (js_trim c)" "o_tokenId ord = nat_str i"
  shows "o_status ord \<noteq> ACTIVE"
proof -
  define variants where "variants = concat (map (\<lambda>i. [nat_str i, drop (skip_zeros (nat_str i) 0) (nat_str i)]) ids)"
  have v: "nat_str i \<in> set variants" using assms(1) by (auto simp: variants_def)
  then have "variants \<noteq> []" by auto
  then have "ord \<in> set (mk_orders (update_status now (\<lambda>ord. js_lower (o_tokenContract ord) = js_lower (js_trim c)
      \<and> o_tokenId ord \<in> set variants \<and> o_status ord = ACTIVE) CANCELLED (rs_market st)))"
    using assms(2) unfolding cancelActiveOrdersForTokens_def Let_def variants_def [symmetric] by simp
  then show ?thesis using v assms(3,4) by (auto simp: update_status_def)
qed

text \<open>C6 An accepted payment opens a batch. The payment covers the total of the estimate that is stored
  with the batch, whichever of the fresh and the pinned quote that is; every requested token has
  its own new redemption, verified and with the payment's hash, no two of them on the same cycle;
  no other redemption changes; the payment is on record; and no active listing of one of the
  tokens is left.\<close>
theorem payment_opens_batch:
  assumes "(redeem_step k cfg)\<^sup>*\<^sup>* no_redeems st"
    and ok: "requestRedemptionBatch env user dto ch st = (st', Inr br)"
    and ids: "ids = js_unique (map nat (filter (\<lambda>n. 0 < n) (rb_tokenIds dto)))"
  shows "(\<exists>got. br_paymentReceivedUsdcMicros br = int_str got \<and> re_totalUsdcMicros (br_estimate br) \<le> got)
    \<and> map snd (br_redemptions br) = map nat_str ids
    \<and> list_all (\<lambda>x. vr_status (fst x) = r_ownership_verified
          \<and> vr_paymentTxHash (fst x) = Some (js_lower (js_trim (rb_paymentTxHash dto)))) (br_redemptions br)
    \<and> distinct (map (\<lambda>x. vr_vaultCycleId (fst x)) (br_redemptions br))
    \<and> set (vd_redemptions (rs_vault st')) = fst ` set (br_redemptions br) \<union> set (vd_redemptions (rs_vault st))
    \<and> hasPaymentClaim (rb_paymentTxHash dto) (rs_vault st')
    \<and> (\<exists>c. getRwaAddress (rv_config env) ch = Inr c \<and> list_all (\<lambda>ord. js_lower (o_tokenContract ord) = js_lower (js_trim c)
          \<and> o_tokenId ord \<in> nat_str ` set ids \<longrightarrow> o_status ord \<noteq> ACTIVE) (mk_orders (rs_market st')))"
proof -
  obtain destIso s fresh key got contract prepared db where
    p: "price_batch env (rb_shipTo dto) ch ids destIso st = (s, Inr fresh)"
    and e: "expected_micros fresh (pinnedQuote (rv_now env) key (rs_pins s)) \<le> got"
    and c: "getRwaAddress (rv_config env) ch = Inr contract"
    and i: "map_ok (prepare_item env user ch contract (rb_shipTo dto) destIso (br_estimate br)) ids = Inr prepared"
    and b: "createPaidRedemptionBatch (rv_keccak env) (rv_now env) (js_lower (js_trim (rb_paymentTxHash dto)))
       (rv_batchId env) (int_str got) (rv_now env) ch prepared (rs_vault s) = Inr (br_redemptions br, db)"
    and st': "st' = cancelActiveOrdersForTokens (rv_now env) contract ids (put_vault db s)"
    and br: "br_paymentReceivedUsdcMicros br = int_str got"
      "br_estimate br = estimateMatchingPayment fresh (map_option qp_estimate (pinnedQuote (rv_now env) key (rs_pins s))) got"
    by (rule request_Inr [OF ok ids])
  have wf: "redeem_wf cfg s"
    using flows_wf [OF redeem_reach_wf [OF assms(1)] price_batch_flows [OF flows_refl]] p by (metis fst_conv)
  then have pins: "pins_ok s" and v: "vault_wf (rs_vault s)"
    using redeem_wf_inv [OF wf] by (simp_all add: redeem_wf_def redeem_inv_def)
  have same: "vd_redemptions (rs_vault s) = vd_redemptions (rs_vault st)"
    using price_batch_looks [of k st env "rb_shipTo dto" ch ids destIso] by (simp add: p looks_def)
  have "rs_vault st' = db" by (simp add: st')
  note facts = paid_batch_adds [OF v b] prepared_ids [OF i] paid_for_estimate [OF pins e] this
  have "list_all (\<lambda>ord. js_lower (o_tokenContract ord) = js_lower (js_trim contract)
      \<and> o_tokenId ord \<in> nat_str ` set ids \<longrightarrow> o_status ord \<noteq> ACTIVE) (mk_orders (rs_market st'))"
    unfolding list_all_iff st' using listings_closed by blast
  moreover have "hasPaymentClaim (js_lower (js_trim (rb_paymentTxHash dto))) db = hasPaymentClaim (rb_paymentTxHash dto) db"
    by (simp add: hasPaymentClaim_def js_simps)
  moreover have "\<exists>got. br_paymentReceivedUsdcMicros br = int_str got \<and> re_totalUsdcMicros (br_estimate br) \<le> got"
    unfolding br using facts(3) by blast
  moreover have "js_lower (js_trim (js_lower (js_trim x))) = js_lower (js_trim x)" for x by (simp add: js_simps)
  ultimately show ?thesis
    using facts same c by simp
qed

theorem payment_opens_batch_witness:
  "\<exists>br. requestRedemptionBatch env9 ''u'' batch_dto sepolia in_stock = (ordered, Inr br)
     \<and> map snd (br_redemptions br) = map nat_str [40] \<and> hasPaymentClaim ''0xP'' (rs_vault ordered)"
proof -
  obtain br where br: "requestRedemptionBatch env9 ''u'' batch_dto sepolia in_stock = (ordered, Inr br)"
    by (rule ordered_result)
  have ids: "[40] = js_unique (map nat (filter (\<lambda>n. 0 < n) (rb_tokenIds batch_dto)))" by code_simp
  from payment_opens_batch [OF in_stock_reach br ids] br show ?thesis
    by (intro exI [of _ br]) (simp add: batch_dto_def)
qed


section \<open>Receipts\<close>

text \<open>The rows that markUserReceiptConfirmed saves, and the whole batch after it.\<close>

definition to_mark :: "string \<Rightarrow> nat \<Rightarrow> vault_db \<Rightarrow> vault_redemption list" where
  "to_mark b ch db = (let fresh = findRedemptionsByBatchId b (Some ch) db;
     incomplete = filter (\<lambda>r. vr_status r \<noteq> r_completed) fresh in if incomplete \<noteq> [] then incomplete else fresh)"

lemma marked_batch:
  assumes wf: "vault_wf db" and m: "markUserReceiptConfirmed now via (to_mark b ch db) db = (saved, db')"
  shows "list_all (\<lambda>r. vr_status r = r_completed) (findRedemptionsByBatchId b (Some ch) db')"
    "list_all (\<lambda>r. vr_status r = r_completed) saved"
proof -
  define rows where "rows = to_mark b ch db"
  let ?f = "receipt_row now (case via of None \<Rightarrow> via_user | Some v \<Rightarrow> v)"
  let ?g = "\<lambda>y. if y \<in> set rows then ?f y else y"
  have d: "distinct rows" using find_batch_distinct [OF wf, of b ch] by (simp add: rows_def to_mark_def Let_def)
  have sub: "set rows \<subseteq> set (findRedemptionsByBatchId b (Some ch) db)" by (auto simp: rows_def to_mark_def Let_def)
  have all: "r \<in> set (findRedemptionsByBatchId b (Some ch) db) \<Longrightarrow> r \<in> set rows \<or> vr_status r = r_completed" for r
    by (auto simp: rows_def to_mark_def Let_def filter_empty_conv)
  have in_db: "set rows \<subseteq> set (vd_redemptions db)"
    using sub by (auto simp: set_find_batch split: if_splits)
  have saved: "saved = map ?f rows" "db' = save_rows (map ?f rows) db"
    using m unfolding rows_def [symmetric] markUserReceiptConfirmed_def by (auto simp: Let_def save_rows_def split: if_splits)
  have rows': "vd_redemptions db' = map ?g (vd_redemptions db)"
    unfolding saved(2) by (subst save_rows_map [OF wf d in_db]) simp_all
  have cyc: "find_cycle j db' = find_cycle j db" for j
    by (simp add: saved(2) find_cycle_def)
  have keep: "vr_vaultCycleId (?f y) = vr_vaultCycleId y" "vr_chainId (?f y) = vr_chainId y" "vr_status (?f y) = r_completed" for y
    by (simp_all add: receipt_row_def)
  show "list_all (\<lambda>r. vr_status r = r_completed) saved" by (simp add: saved(1) list_all_iff keep)
  show "list_all (\<lambda>r. vr_status r = r_completed) (findRedemptionsByBatchId b (Some ch) db')"
    unfolding list_all_iff
  proof
    fix r assume "r \<in> set (findRedemptionsByBatchId b (Some ch) db')"
    then obtain y where y: "y \<in> set (vd_redemptions db)" "r = ?g y" "js_trim b \<noteq> []"
      "vr_paymentBatchId r = Some (js_trim b)"
      "\<exists>c. map_option vc_chainId (find_cycle (vr_vaultCycleId r) db) = Some c \<and> or_else (vr_chainId r) (Some c) = Some ch"
      by (auto simp: set_find_batch rows' cyc split: if_splits)
    show "vr_status r = r_completed"
    proof (cases "y \<in> set rows")
      case False
      then have "y \<in> set (findRedemptionsByBatchId b (Some ch) db)" using y by (auto simp: set_find_batch)
      then show ?thesis using all False y(2) by auto
    qed (simp add: y(2) keep)
  qed
qed

text \<open>C18 A receipt closes a batch that was ready for it: when the confirmation succeeds, every card of
  the batch was the caller's, was in custody or further, had a tracking number and was not
  refunded; and afterwards every card of the batch is completed.\<close>
theorem receipt_completes_batch:
  assumes "(redeem_step k cfg)\<^sup>*\<^sup>* no_redeems st"
    and ok: "confirmReceipt env user b ch st = (st', Inr (again, saved))"
  shows "findRedemptionsByBatchId b (Some ch) (rs_vault st) \<noteq> []
    \<and> list_all (\<lambda>r. vr_requestedByUserId r = Some user \<and> vr_refundStatus r = rf_none \<and> receipt_eligible (vr_status r)
          \<and> has_tracking r) (findRedemptionsByBatchId b (Some ch) (rs_vault st))
    \<and> list_all (\<lambda>r. vr_status r = r_completed) (findRedemptionsByBatchId b (Some ch) (rs_vault st'))
    \<and> list_all (\<lambda>r. vr_status r = r_completed) saved"
proof -
  let ?rows = "findRedemptionsByBatchId b (Some ch) (rs_vault st)"
  from ok obtain s where c: "check_batch_rows user ?rows = Inr ()"
      "list_all (\<lambda>r. receipt_eligible (vr_status r)) ?rows" "list_all has_tracking ?rows"
    and f: "finalizeReceiptWithBurn env ch via_user ?rows st = (st', Inr saved)"
    by (auto simp: confirmReceipt_def Let_def need_Inr andThen_Inr)
  have ne: "?rows \<noteq> []" using c(1) by (auto simp: check_batch_rows_def)
  have b: "Option.bind (hd_opt ?rows) vr_paymentBatchId = Some (js_trim b)" by (rule first_of_batch [OF ne subset_refl])
  have same: "findRedemptionsByBatchId (js_trim b) (Some ch) = findRedemptionsByBatchId b (Some ch)"
    by (simp add: fun_eq_iff findRedemptionsByBatchId_def js_simps)
  from f obtain s1 x where e: "ensureBatchTokensBurned env ch ?rows st = (s1, Inr x)"
    and m: "st' = put_vault (snd (markUserReceiptConfirmed (rv_now env) (Some via_user) (to_mark b ch (rs_vault s1)) (rs_vault s1))) s1"
      "saved = fst (markUserReceiptConfirmed (rv_now env) (Some via_user) (to_mark b ch (rs_vault s1)) (rs_vault s1))"
    by (auto simp: finalizeReceiptWithBurn_def andThen_Inr Let_def b same case_prod_beta to_mark_def)
  have "flows k st s1"
    using ensureBatch_burning [of k "js_trim b" ch st env ch ?rows] by (simp add: e burning_def)
  then have "vault_wf (rs_vault s1)"
    using redeem_wf_inv [OF flows_wf [OF redeem_reach_wf [OF assms(1)]]] by (simp add: redeem_inv_def)
  from marked_batch [OF this prod.collapse [symmetric]] c ne show ?thesis
    by (auto simp: m check_batch_rows_def list_all_iff list_ex_iff split: if_splits)
qed

theorem receipt_completes_batch_witness:
  "list_all (\<lambda>r. vr_status r = r_completed) (findRedemptionsByBatchId ''b1'' (Some sepolia) (rs_vault received_state))"
proof -
  obtain again saved where "confirmReceipt (redeem_env_at 12 vault_wallet) ''u'' ''b1'' sepolia shipped = (received_state, Inr (again, saved))"
    by (rule received_result)
  from receipt_completes_batch [OF shipped_reach this] show ?thesis by blast
qed

section \<open>What can go wrong\<close>

lemma burn_begin_Inr:
  assumes "burn_begin env i ch st = (st0, Inr w)" "getRwaAddress (rv_config env) ch = Inr c"
  shows "st0 = put_vault (syncTokenFromChain (rv_registry env) c ch i None (rs_vault st)) (cancelActiveOrdersForToken (rv_now env) c i st)"
    "check_open_redeem c i (rs_vault st) = Inr ()"
  using assms by (auto simp: burn_begin_def need_def Let_def split: if_splits sum.splits)

text \<open>The first half of a burn is a step of the machine: it is a burn whose transaction fails.\<close>

lemma burn_begin_step:
  assumes "burn_begin env i ch st = (st0, Inr w)"
  shows "redeem_step k cfg st st0"
proof (rule redeem_step.admin_burn)
  let ?env = "env\<lparr>rv_adminBurn := \<lambda>c i w. Inl (BadRequestException [])\<rparr>"
  have e: "rv_config ?env = rv_config env" "rv_now ?env = rv_now env" "rv_ownerOf ?env = rv_ownerOf env"
    "rv_registry ?env = rv_registry env" by (simp_all add: rv_config_def rv_now_def)
  have "burn_begin ?env i ch = burn_begin env i ch" unfolding burn_begin_def e ..
  moreover obtain c where "getRwaAddress (rv_config ?env) ch = Inr c"
    using assms by (auto simp: burn_begin_def need_def rv_config_def split: sum.splits)
  ultimately show "burnTokenOnChain ?env i ch st = (st0, Inl (BadRequestException []))"
    using assms by (simp add: burnTokenOnChain_parts andThen_def need_def)
qed

text \<open>What a refund leaves of a row in custody that was not refunded.\<close>

lemma refundUsdc_Inr:
  assumes "refundUsdcBatch config fw now b st = (st', Inr (h, again))"
    and "r \<in> set (batch_rows b (rs_vault st))" "\<not> usdc_is_refunded r"
  obtains tx m where "h = Some tx" "assertRefundable (batch_rows b (rs_vault st)) = Inr ()"
    "rs_vault st' = settle_refund now tx m (batch_rows b (rs_vault st)) (rs_vault st)"
proof -
  let ?rows = "batch_rows b (rs_vault st)"
  obtain row0 rest where rows: "?rows = row0 # rest" using assms(2) by (cases ?rows) auto
  have n: "\<not> list_all usdc_is_refunded ?rows" using assms(2,3) by (auto simp: list_all_iff)
  have v: "rs_vault (st\<lparr>rs_refunds := x\<rparr>) = rs_vault st" for x by (simp add: rs_vault_def)
  obtain res out where t: "transferUsdc config fw (vr_ownerWalletAddress row0)
      (js_trim (or_empty (getPaymentReceivedMicrosForBatch b (rs_vault st)))) (resolveRowChainId config row0) = (res, out)"
    by fastforce
  show thesis
    using assms(1) n t unfolding refundUsdcBatch_def Let_def
    by (intro that [of "the h"]) (auto simp: rows v split: if_splits sum.splits option.splits)
qed

lemma refunded_in_custody:
  assumes inv: "redeem_inv (rs_vault st)" and op: "refundUsdcBatch config fw now b st = (st', Inr (h, again))"
    and r: "r \<in> set (vd_redemptions (rs_vault st))" "vr_paymentBatchId r = Some b"
      "vr_status r = r_in_custody" "vr_refundStatus r = rf_none"
  obtains r' where "r' \<in> set (vd_redemptions (rs_vault st'))" "vr_id r' = vr_id r" "vr_vaultCycleId r' = vr_vaultCycleId r"
    "row_state r' = (r_in_custody, usdc_refunded)" "vr_refundTxHash r' = h"
    "redeem_inv (rs_vault st')" "vd_tokens (rs_vault st') = vd_tokens (rs_vault st)"
proof -
  let ?rows = "batch_rows b (rs_vault st)"
  have m: "r \<in> set ?rows" and n: "\<not> usdc_is_refunded r" using r by (auto simp: set_batch_rows usdc_is_refunded_def)
  obtain tx amount where x: "h = Some tx" "assertRefundable ?rows = Inr ()"
    "rs_vault st' = settle_refund now tx amount ?rows (rs_vault st)"
    using refundUsdc_Inr [OF op m n] by blast
  let ?x = "applyUsdcRefundFields tx amount now r"
  have wf: "vault_wf (rs_vault st)" and ok: "row_ok r" using inv r(1) by (simp_all add: redeem_inv_def rows_ok_def)
  have "vd_redemptions (rs_vault st') = map (\<lambda>y. if y \<in> set ?rows then applyUsdcRefundFields tx amount now y else y) (vd_redemptions (rs_vault st))"
    using save_rows_map [OF wf distinct_batch_rows [OF wf], of b "applyUsdcRefundFields tx amount now"]
    by (simp add: x(3) settle_refund_def Let_def resetCyclesIfRefunded_def set_batch_rows)
  then have "?x \<in> set (vd_redemptions (rs_vault st'))" using m r(1) by (auto simp: rev_image_eqI)
  moreover have "row_state ?x = (r_in_custody, usdc_refunded)" "vr_refundTxHash ?x = h"
    using ok r(3,4) by (auto simp: row_ok_def row_state_def applyUsdcRefundFields_def Let_def nftReturned_def
        wasEverInCustody_def not_returned_def or_empty_def x(1))
  moreover have "redeem_inv (rs_vault st')"
  proof -
    have "flow_ok {} (rs_vault st) (settle_refund now tx amount ?rows (rs_vault st))"
      by (rule refund_flow [OF inv x(2)]) (use m n in \<open>auto simp: list_all_iff\<close>)
    then show ?thesis by (simp add: x(3) flow_ok_def)
  qed
  moreover have "vd_tokens (reset_cycle now j db) = vd_tokens db" for j db
    by (simp add: reset_cycle_def split: option.split)
  then have "vd_tokens (fold (reset_cycle now) is db) = vd_tokens db" for "is" db
    by (induction "is" arbitrary: db) simp_all
  then have "vd_tokens (rs_vault st') = vd_tokens (rs_vault st)"
    by (simp add: x(3) settle_refund_def Let_def resetCyclesIfRefunded_def)
  ultimately show thesis by (intro that [of ?x]) simp_all
qed

text \<open>The entry of a burn takes the open row of the cycle, whatever its refund says.\<close>

lemma burn_takes_open_row:
  assumes wf: "vault_wf db" and r: "r \<in> set (vd_redemptions db)" "open_redemption r"
    and t: "Option.bind (find_token k db) rt_vaultCycleId = Some (vr_vaultCycleId r)" and k: "k = (c, i)"
  shows "find_redemption (vr_id r) (completeRedemptionBurn now c i tx w db)
      = Some (r\<lparr>vr_status := r_burned, vr_burnTxHash := Some tx, vr_burnedAt := Some now\<rparr>)"
    "cycle_statuses (completeRedemptionBurn now c i tx w db) (vr_vaultCycleId r) = Some redeemed"
proof -
  obtain t where t: "find_token (c, i) db = Some t" "rt_vaultCycleId t = Some (vr_vaultCycleId r)"
    using t by (auto simp: k bind_eq_Some_conv)
  have "find_cycle (vr_vaultCycleId r) db \<noteq> None"
    using open_redemption_in_redemption [OF wf r] by (auto simp: in_redemption_def find_cycle_def find_key_None rev_image_eqI)
  then obtain cy where cy: "find_cycle (vr_vaultCycleId r) db = Some cy" "vc_id cy = vr_vaultCycleId r"
    using find_cycle_Some by blast
  have st: "vr_status r \<noteq> r_completed" using r(2) by (auto simp: open_redemption_def)
  let ?db1 = "save_token (t\<lparr>rt_burnedAt := Some now, rt_burnTxHash := Some tx, rt_ownerWallet := None\<rparr>) db"
  let ?db2 = "save_cycle now (cy\<lparr>vc_status := redeemed, vc_redeemedAt := Some now\<rparr>) ?db1"
  have "burn_redemption now (vr_vaultCycleId r) w ?db2 = (r, ?db2)"
    using open_of_cycle [OF wf r refl] by (simp add: burn_redemption_def findOpenRedemptionForCycle_def)
  then have e: "completeRedemptionBurn now c i tx w db
      = save_redemption (r\<lparr>vr_status := r_burned, vr_burnTxHash := Some tx, vr_burnedAt := Some now\<rparr>) ?db2"
    using t cy st by (simp add: completeRedemptionBurn_def Let_def)
  show "find_redemption (vr_id r) (completeRedemptionBurn now c i tx w db)
      = Some (r\<lparr>vr_status := r_burned, vr_burnTxHash := Some tx, vr_burnedAt := Some now\<rparr>)"
    unfolding e by (simp add: redemption_repo.look_put)
  show "cycle_statuses (completeRedemptionBurn now c i tx w db) (vr_vaultCycleId r) = Some redeemed"
    unfolding e by (simp add: statuses_save cy(2))
qed

text \<open>C40 A burn does not look again: the check for an open refund and the burn's entry in the database are
  separated by the transaction on chain. From every reachable state: when a card in custody passes
  the check of a burn and, while the transaction is mined, the payment of its batch is sent back
  (the card has no tracking number yet, so the refund is accepted), the entry of the burn leaves a
  redemption that is burned and whose payment was refunded, and a cycle that is redeemed.\<close>
theorem refund_during_burn:
  assumes "(redeem_step k cfg)\<^sup>*\<^sup>* no_redeems st"
    and "burn_begin env i ch st = (st0, Inr owner)" "getRwaAddress (rv_config env) ch = Inr c"
    and "find_token (c, nat_str i) (rs_vault st) = Some t" "rt_vaultCycleId t = Some (vr_vaultCycleId r)"
    and "r \<in> set (vd_redemptions (rs_vault st))" "vr_status r = r_in_custody" "vr_paymentBatchId r = Some b"
    and "refundUsdcBatch config fw now b st0 = (st1, Inr (h, again))"
  shows "\<exists>r'. find_redemption (vr_id r) (rs_vault (burn_mined env c i tx owner st1)) = Some r'
    \<and> row_state r' = (r_burned, usdc_refunded) \<and> vr_burnTxHash r' = Some tx \<and> vr_refundTxHash r' = h
    \<and> cycle_statuses (rs_vault (burn_mined env c i tx owner st1)) (vr_vaultCycleId r) = Some redeemed"
proof -
  let ?j = "vr_vaultCycleId r"
  note b = burn_begin_Inr [OF assms(2,3)]
  have inv: "redeem_inv (rs_vault st)" "redeem_inv (rs_vault st0)"
    using redeem_wf_inv [OF redeem_reach_wf] assms(1) rtranclp.rtrancl_into_rtrancl [OF assms(1) burn_begin_step [OF assms(2)]]
    by blast+
  have v0: "rs_vault st0 = syncTokenFromChain (rv_registry env) c ch i None (rs_vault st)" by (simp add: b(1))
  have "findOpenRedemptionForCycle ?j (rs_vault st) = Some r"
    using inv(1) assms(6,7) by (intro open_of_cycle) (simp_all add: redeem_inv_def open_redemption_def)
  then have "vr_refundStatus r = rf_none"
    using b(2) assms(4,5) by (simp add: check_open_redeem_def split: if_splits)
  moreover have "r \<in> set (vd_redemptions (rs_vault st0))"
    using assms(6) sync_looks by (simp add: v0 looks_def)
  ultimately obtain r' where r': "r' \<in> set (vd_redemptions (rs_vault st1))" "vr_id r' = vr_id r" "vr_vaultCycleId r' = ?j"
    "row_state r' = (r_in_custody, usdc_refunded)" "vr_refundTxHash r' = h"
    "redeem_inv (rs_vault st1)" "vd_tokens (rs_vault st1) = vd_tokens (rs_vault st0)"
    using refunded_in_custody [OF inv(2) assms(9) _ assms(8,7)] by blast
  let ?db = "recordBurn (rv_now env) c (nat_str i) (rs_vault st1)"
  have t: "Option.bind (find_token (c, nat_str i) ?db) rt_vaultCycleId = Some (vr_vaultCycleId r')"
  proof -
    have "find_token (c, nat_str i) (rs_vault st1) = find_token (c, nat_str i) (rs_vault st0)"
      by (simp add: find_token_def r'(7))
    then show ?thesis using assms(4,5) by (simp add: index_cycle_of v0 sync_cycle_of r'(3))
  qed
  have "vault_wf ?db" using r'(6) recordBurn_wf by (simp add: redeem_inv_def)
  moreover have "r' \<in> set (vd_redemptions ?db)" using r'(1) burn_looks by (simp add: looks_def)
  moreover have "open_redemption r'" using r'(4) by (simp add: open_redemption_def row_state_def)
  ultimately show ?thesis
    using burn_takes_open_row [OF _ _ _ t refl, of "rv_now env" tx "Some owner"] r'
    by (simp add: burn_mined_def row_state_def)
qed

text \<open>The shop while the burn of its card waits for the transaction.\<close>

definition during_burn :: redeem_state where
  "during_burn = fst (burn_begin (redeem_env_at 13 vault_wallet) 40 sepolia in_vault_wallet)"

theorem refund_during_burn_witness:
  "\<exists>r'. find_redemption 2 (rs_vault (burn_mined (redeem_env_at 13 vault_wallet) rwa_addr 40 ''0xburn'' vault_wallet
      (fst (refundUsdcBatch redeem_config fee_signer 14 ''b1'' during_burn)))) = Some r'
    \<and> row_state r' = (r_burned, usdc_refunded) \<and> vr_refundTxHash r' = Some ''0xr''"
proof -
  have 1: "burn_begin (redeem_env_at 13 vault_wallet) 40 sepolia in_vault_wallet = (during_burn, Inr vault_wallet)"
  proof -
    have "snd (burn_begin (redeem_env_at 13 vault_wallet) 40 sepolia in_vault_wallet) = Inr vault_wallet" by code_simp
    then show ?thesis by (simp add: during_burn_def prod_eq_iff)
  qed
  have 2: "getRwaAddress (rv_config (redeem_env_at 13 vault_wallet)) sepolia = Inr rwa_addr" by code_simp
  have 3: "find_token (rwa_addr, nat_str 40) (rs_vault in_vault_wallet) = Some (card_token vault_wallet None None)" by code_simp
  have 4: "snd (refundUsdcBatch redeem_config fee_signer 14 ''b1'' during_burn) = Inr (Some ''0xr'', False)" by code_simp
  have 5: "refundUsdcBatch redeem_config fee_signer 14 ''b1'' during_burn
      = (fst (refundUsdcBatch redeem_config fee_signer 14 ''b1'' during_burn), Inr (Some ''0xr'', False))"
    using 4 by (simp add: prod_eq_iff)
  have r: "taken_row \<in> set (vd_redemptions (rs_vault in_vault_wallet))" "vr_status taken_row = r_in_custody"
    "vr_paymentBatchId taken_row = Some ''b1''" "vr_id taken_row = 2"
    "rt_vaultCycleId (card_token vault_wallet None None) = Some (vr_vaultCycleId taken_row)"
    by (simp_all add: in_vault_wallet_def taken_row_def paid_row_def card_token_def)
  show ?thesis
    using refund_during_burn [OF taken_reach 1 2 3 r(5,1,2,3) 5, where tx = "''0xburn''"] r(4) by auto
qed

text \<open>The refund trusts the answer of the wallet: when the receipt of the transfer is lost, nothing is
  written, and the next attempt sends the payment back a second time.\<close>
theorem lost_refund_receipt_repays:
  "rs_refunds (fst (refundUsdcBatch redeem_config fee_signer 14 ''b1'' (fst (refundUsdcBatch redeem_config
      (fee_signer\<lparr>fw_outcome := receipt_lost (OtherError ''timeout'')\<rparr>) 13 ''b1'' ordered))))
    = [(''b1'', buyer, 13000000), (''b1'', buyer, 13000000)]"
  by code_simp

end
