(* ===== verification/SettlementLifecycle.thy ===== *)
theory SettlementLifecycle
  imports Settlement
begin

text \<open>
  The life of a settlement as an abstract specification: it appears waiting for the buyer's
  confirmation, and is confirmed, then paid, or rejected before it is paid. The ledger and its
  operations refine it.
\<close>

inductive settlement_edge :: "settlement_status \<Rightarrow> settlement_status \<Rightarrow> bool" where
  "settlement_edge pending_confirm confirmed"
| "settlement_edge confirmed paid"
| "settlement_edge pending_confirm rejected"
| "settlement_edge confirmed rejected"

inductive_simps settlement_edge_simps [simp]:
  "settlement_edge paid t" "settlement_edge rejected t" "settlement_edge s pending_confirm"

lemma settlement_edge_iff [simp]:
  "settlement_edge pending_confirm t \<longleftrightarrow> t = confirmed \<or> t = rejected"
  "settlement_edge confirmed t \<longleftrightarrow> t = paid \<or> t = rejected"
  by (auto elim: settlement_edge.cases intro: settlement_edge.intros)

definition settlement_statuses :: "ledger \<Rightarrow> nat \<Rightarrow> settlement_status option" where
  "settlement_statuses lg i = map_option se_status (find_settlement i lg)"

abbreviation settlement_life :: "ledger \<Rightarrow> ledger \<Rightarrow> bool" where
  "settlement_life lg lg' \<equiv>
     (life_step (\<lambda>s. s = pending_confirm) settlement_edge)\<^sup>*\<^sup>* (settlement_statuses lg) (settlement_statuses lg')"

lemma statuses_save_settlement:
  "settlement_statuses (save_settlement s lg) = (settlement_statuses lg)(se_id s \<mapsto> se_status s)"
  by (auto simp: settlement_statuses_def fun_eq_iff settlement_repo.look_put)

lemma statuses_ledger_fields [simp]:
  "settlement_statuses (lg\<lparr>lg_sent := x\<rparr>) = settlement_statuses lg"
  "settlement_statuses (lg\<lparr>lg_next := n\<rparr>) = settlement_statuses lg"
  by (simp_all add: settlement_statuses_def [abs_def] find_settlement_def)

lemma life_save_settlement:
  assumes "find_settlement i lg = Some r" "se_id s = se_id r"
    "se_status r = se_status s \<or> settlement_edge (se_status r) (se_status s)"
  shows "settlement_life lg (save_settlement s lg)"
  unfolding statuses_save_settlement
  by (rule life_same [of _ _ "se_status r"])
     (use assms find_settlement_Some [OF assms(1)] in \<open>auto simp: settlement_statuses_def\<close>)

lemma create_life:
  assumes wf: "ledger_wf cfg lg"
    and ok: "createFromFulfilledAsk cfg now ask buyer ch tx lg = Inr (s, lg')"
  shows "settlement_life lg lg'"
  using ok
proof (cases rule: create_cases)
  case (2 row)
  have "find_settlement (se_id row) lg = None"
    using wf 2(3) by (auto simp: find_settlement_def find_key_None ledger_wf_def)
  then have "life_step (\<lambda>s. s = pending_confirm) settlement_edge (settlement_statuses lg)
      ((settlement_statuses lg)(se_id row \<mapsto> se_status row))"
    by (intro life_step.appear) (simp_all add: settlement_statuses_def 2(8))
  then show ?thesis by (simp add: 2(11) statuses_save_settlement r_into_rtranclp)
qed simp

lemma confirmByBuyer_life:
  "confirmByBuyer now i w lg = Inr (s, lg') \<Longrightarrow> settlement_life lg lg'"
  by (cases "se_status (the (find_settlement i lg))")
     (auto simp: confirmByBuyer_def Let_def split: option.splits if_splits intro!: life_save_settlement)

lemma adminConfirm_life: "adminConfirm now i lg = Inr (s, lg') \<Longrightarrow> settlement_life lg lg'"
  by (cases "se_status (the (find_settlement i lg))")
     (auto simp: adminConfirm_def Let_def split: option.splits if_splits intro!: life_save_settlement)

lemma adminReject_life: "adminReject i lg = Inr (s, lg') \<Longrightarrow> settlement_life lg lg'"
  by (cases "se_status (the (find_settlement i lg))")
     (auto simp: adminReject_def Let_def split: option.splits if_splits intro!: life_save_settlement)

lemma recordPayout_life: "recordPayout now i tx lg = Inr (s, lg') \<Longrightarrow> settlement_life lg lg'"
  by (cases "se_status (the (find_settlement i lg))")
     (auto simp: recordPayout_def Let_def split: option.splits if_splits intro!: life_save_settlement)

text \<open>This holds whatever becomes of the transfer.\<close>

lemma payout_end_life:
  assumes r: "find_settlement i lg = Some r" "se_status r = confirmed"
    and e: "payout_end cfg fw now r lg = (lg', res)"
  shows "settlement_life lg lg'"
proof -
  have "settlement_life lg (save_settlement (r\<lparr>se_status := paid, se_payoutTxHash := h, se_paidAt := t\<rparr>) lg)" for h t
    by (rule life_save_settlement [OF r(1)]) (use r(2) in simp_all)
  then show ?thesis
    using e by (auto simp: payout_end_def Let_def statuses_save_settlement
        split: prod.splits sum.splits option.splits)
qed

lemma executePayout_life:
  assumes e: "executePayout cfg fw now i lg = (lg', res)"
  shows "settlement_life lg lg'"
proof -
  obtain lg1 st where b: "payout_begin cfg now i lg = (lg1, st)" by force
  from b show ?thesis
  proof (cases rule: payout_begin_cases)
    case 1
    then have "lg' = lg" using e b by (cases st) (auto simp: executePayout_def)
    then show ?thesis by simp
  next
    case (2 r)
    let ?r = "r\<lparr>se_status := confirmed, se_confirmedAt := Some now\<rparr>"
    have "settlement_life lg lg1"
      unfolding 2(4) by (rule life_save_settlement [OF 2(1)]) (use 2(2) in simp_all)
    moreover have "find_settlement i lg1 = Some ?r"
      using find_settlement_Some [OF 2(1)] by (simp add: 2(4) settlement_repo.look_put)
    then have "settlement_life lg1 lg'"
      by (rule payout_end_life) (use e b 2(3) in \<open>auto simp: executePayout_def\<close>)
    ultimately show ?thesis by (rule rtranclp_trans)
  next
    case (3 r)
    show ?thesis
      by (rule payout_end_life [OF 3(1,2)]) (use e b 3 in \<open>auto simp: executePayout_def\<close>)
  qed
qed

lemma ledger_step_life: "ledger_wf cfg lg \<Longrightarrow> ledger_step cfg lg lg' \<Longrightarrow> settlement_life lg lg'"
  by (elim ledger_stepE)
     (auto dest: create_life confirmByBuyer_life adminConfirm_life adminReject_life recordPayout_life
        executePayout_life)

interpretation ledger_refines: status_refinement "ledger_step cfg" "ledger_wf cfg" settlement_statuses
  "\<lambda>s. s = pending_confirm" settlement_edge for cfg
  by unfold_locales (auto dest: ledger_step_life)

end
