(* ===== verification/SettlementProperties.thy ===== *)
theory SettlementProperties
  imports SettlementLifecycle "HOL-Library.Code_Target_Nat"
begin

text \<open>
  The properties of the settlement ledger and of the platform fee, each with a witness on a
  ledger with one sale of 1 USDC.
\<close>

section \<open>The example\<close>

definition fee_config :: config where
  "fee_config = (\<lambda>k. if k = ''PLATFORM_FEE_RECIPIENT'' then Some (''0x'' @ replicate 40 CHR ''a'')
     else if k = ''PLATFORM_FEE_PRIVATE_KEY'' then Some ''k''
     else if k = ''CHAIN_1_USDC_ADDRESS'' then Some (''0x'' @ replicate 40 CHR ''c'') else None)"

definition blank_params :: seaport_params where
  "blank_params = \<lparr>sp_offerer = ''s'', sp_zone = [], sp_zoneHash = [], sp_startTime = ''0'', sp_endTime = ''9'',
     sp_orderType = 0, sp_offer = [], sp_consideration = [], sp_totalOriginalConsiderationItems = 0,
     sp_salt = [], sp_conduitKey = [], sp_counter = [], sp_server = no_server_keys\<rparr>"

definition sold_ask :: order where
  "sold_ask = \<lparr>o_id = 1, o_orderHash = ''0xh'', o_offerer = ''0x'' @ replicate 40 CHR ''5'', o_side = ASK,
     o_tokenContract = ''0xaa'', o_tokenId = ''40'', o_collectionKey = None, o_considerationToken = [],
     o_considerationAmount = ''1000000'', o_parameters = blank_params, o_signature = [],
     o_status = FULFILLED, o_startTime = 0, o_endTime = 9, o_createdAt = 0, o_updatedAt = 0\<rparr>"

definition buyer_wallet :: string where
  "buyer_wallet = ''0x'' @ replicate 40 CHR ''b''"

definition sold_row :: settlement where
  "sold_row = \<lparr>se_id = 0, se_orderHash = ''0xh'', se_tokenContract = ''0xaa'', se_tokenId = ''40'',
     se_sellerWallet = ''0x'' @ replicate 40 CHR ''5'', se_buyerWallet = buyer_wallet, se_grossUsdc = ''1000000'',
     se_sellerPayoutUsdc = ''950000'', se_chainId = 1, se_status = pending_confirm, se_fulfillTxHash = None,
     se_payoutTxHash = None, se_confirmedAt = None, se_paidAt = None, se_createdAt = 3\<rparr>"

definition sold_ledger :: ledger where
  "sold_ledger = \<lparr>lg_rows = [sold_row], lg_next = 1, lg_sent = []\<rparr>"

definition paid_row :: settlement where
  "paid_row = sold_row\<lparr>se_status := paid, se_payoutTxHash := Some ''0xpaid'', se_confirmedAt := Some 9, se_paidAt := Some 9\<rparr>"

definition good_wallet :: fee_wallet where
  "good_wallet = \<lparr>fw_signer = ''0x'' @ replicate 40 CHR ''a'', fw_balance = 5000000, fw_outcome = mined ''0xpaid''\<rparr>"

definition paid_ledger :: ledger where
  "paid_ledger = \<lparr>lg_rows = [paid_row], lg_next = 1, lg_sent = [(0, ''0x'' @ replicate 40 CHR ''5'', 950000)]\<rparr>"

lemma sold_ok: "createFromFulfilledAsk fee_config 3 sold_ask buyer_wallet 1 None empty_ledger = Inr (Some sold_row, sold_ledger)"
  by code_simp

lemma payout_ok: "executePayout fee_config good_wallet 9 0 sold_ledger = (paid_ledger, Inr paid_row)"
  by code_simp

lemma sold_reachable: "(ledger_step fee_config)\<^sup>*\<^sup>* empty_ledger sold_ledger"
  using ledger_step.create [OF sold_ok] by (rule r_into_rtranclp [of "ledger_step fee_config"])

lemma paid_steps: "(ledger_step fee_config)\<^sup>*\<^sup>* sold_ledger paid_ledger"
proof -
  have "wallet_reports good_wallet" by (simp add: wallet_reports_def good_wallet_def)
  from ledger_step.execute [OF this payout_ok] show ?thesis by (rule r_into_rtranclp [of "ledger_step fee_config"])
qed

lemma sold_found: "find_settlement 0 sold_ledger = Some sold_row"
  by (simp add: find_settlement_def sold_ledger_def sold_row_def find_key_def find_row_def)

lemma paid_found: "find_settlement 0 paid_ledger = Some paid_row"
  by (simp add: find_settlement_def paid_ledger_def paid_row_def sold_row_def find_key_def find_row_def)

lemma sold_amounts: "js_BigInt (se_grossUsdc sold_row) = Some 1000000 \<and> js_BigInt (se_sellerPayoutUsdc sold_row) = Some 950000"
  by code_simp

lemma payout_reachable: "(ledger_step fee_config)\<^sup>*\<^sup>* empty_ledger paid_ledger"
  by (rule rtranclp_trans [OF sold_reachable paid_steps])

lemma reachable_ledger: "(ledger_step cfg)\<^sup>*\<^sup>* empty_ledger lg \<Longrightarrow> ledger_wf cfg lg"
  using ledger_machine.steps_inv empty_ledger_wf by blast

section \<open>Payments\<close>

text \<open>The amounts of a row of a reachable ledger.\<close>

lemma amounts_of_row:
  assumes "amounts_ok cfg s"
  obtains g where "js_BigInt (se_grossUsdc s) = Some g" "0 < g"
    "js_BigInt (se_sellerPayoutUsdc s) = Some (fst (seller_split cfg g))"
    "0 \<le> fst (seller_split cfg g)" "fst (seller_split cfg g) \<le> g"
proof -
  from assms obtain g where g: "js_BigInt (se_grossUsdc s) = Some g" "0 < g"
    by (auto simp: amounts_ok_def positive_decimal_def split: option.splits)
  with assms have "se_sellerPayoutUsdc s = int_str (fst (seller_split cfg g))"
    by (simp add: amounts_ok_def computeSellerPayoutMicros_def)
  moreover have "0 \<le> fst (seller_split cfg g) \<and> fst (seller_split cfg g) \<le> g"
    using seller_fee.seller_bounds g(2) by simp
  ultimately show thesis using that g js_BigInt_int_str_nonneg by simp
qed

text \<open>C3 While the receipts of the fee wallet arrive, a settlement is paid at most once: the only
  payment that the chain saw for it went to the seller and was the gross amount less the fee, and
  then the settlement is marked paid.\<close>
theorem seller_paid_exactly_once:
  assumes "(ledger_step cfg)\<^sup>*\<^sup>* empty_ledger lg" "find_settlement i lg = Some s"
  shows "payments_of i lg = [] \<or> se_status s = paid \<and> (\<exists>g. js_BigInt (se_grossUsdc s) = Some g
    \<and> payments_of i lg = [(js_lower (js_trim (se_sellerWallet s)), fst (seller_split cfg g))]
    \<and> 0 \<le> fst (seller_split cfg g) \<and> fst (seller_split cfg g) \<le> g)"
proof -
  have wf: "ledger_wf cfg lg" by (rule reachable_ledger [OF assms(1)])
  have s: "s \<in> set (lg_rows lg)" "se_id s = i" using find_settlement_Some [OF assms(2)] by auto
  then have "amounts_ok cfg s" "payments_ok s lg" using wf by (auto simp: ledger_wf_def)
  from this(1) obtain g where "js_BigInt (se_grossUsdc s) = Some g"
    "js_BigInt (se_sellerPayoutUsdc s) = Some (fst (seller_split cfg g))"
    "0 \<le> fst (seller_split cfg g)" "fst (seller_split cfg g) \<le> g"
    by (rule amounts_of_row)
  with \<open>payments_ok s lg\<close> s(2) show ?thesis by (auto simp: payments_ok_def)
qed

theorem seller_paid_exactly_once_witness:
  "payments_of 0 paid_ledger = [(''0x'' @ replicate 40 CHR ''5'', 950000)] \<and> se_status paid_row = paid"
proof -
  have "payments_of 0 paid_ledger = [(''0x'' @ replicate 40 CHR ''5'', 950000)]"
    by (simp add: payments_of_def paid_ledger_def)
  with seller_paid_exactly_once [OF payout_reachable paid_found] show ?thesis by simp
qed

text \<open>C29 The ledger refines the life of a settlement, as long as its operations run one after another (none
  comes between the start of a payout and its end) and the receipts of the fee wallet arrive:
  pending_confirm, then confirmed, then paid, or rejected before it is paid; in the runs of such
  operations nothing else happens to the statuses.\<close>
theorem ledger_refines_settlement_life:
  assumes "(ledger_step cfg)\<^sup>*\<^sup>* empty_ledger lg" "(ledger_step cfg)\<^sup>*\<^sup>* lg lg'"
  shows "settlement_life lg lg'"
  by (rule ledger_refines.refines_steps [OF reachable_ledger [OF assms(1)] assms(2)])

theorem ledger_refines_settlement_life_witness: "settlement_life sold_ledger paid_ledger"
  by (rule ledger_refines_settlement_life [OF sold_reachable paid_steps])

text \<open>
  A payout waits for its transfer, and a rejection does not take the payout's lock. A settlement that
  is rejected while the transfer is under way is paid all the same: the row that the payout holds is
  saved over the rejection.
\<close>
theorem reject_during_payout:
  assumes "payout_begin cfg now i lg = (lg1, sends row)" "adminReject i lg1 = Inr (row', lg2)"
    and "transferUsdc cfg fw (se_sellerWallet row) (se_sellerPayoutUsdc row) (se_chainId row) = (Inr h, out)"
  shows "settlement_statuses lg2 i = Some rejected
    \<and> settlement_statuses (fst (payout_end cfg fw now' row lg2)) i = Some paid"
proof -
  have row: "se_id row = i"
    using assms(1) find_settlement_Some [of i lg] by (auto simp: payout_begin_def Let_def split: option.splits if_splits)
  obtain x where x: "find_settlement i lg1 = Some x" "lg2 = save_settlement (x\<lparr>se_status := rejected\<rparr>) lg1"
    using assms(2) by (auto simp: adminReject_def Let_def split: option.splits if_splits)
  have "settlement_statuses lg2 i = Some rejected"
    using find_settlement_Some [OF x(1)] by (simp add: x(2) statuses_save_settlement)
  then show ?thesis using row by (simp add: payout_end_def assms(3) Let_def statuses_save_settlement)
qed

text \<open>A settlement that is paid keeps its status and its payout transaction for ever, a rejected
  one stays rejected, and the parties and amounts of a settlement never change.\<close>
theorem closed_settlement_is_final:
  assumes "(ledger_step cfg)\<^sup>*\<^sup>* empty_ledger lg" "(ledger_step cfg)\<^sup>*\<^sup>* lg lg'" "find_settlement i lg = Some s"
  shows "\<exists>t. find_settlement i lg' = Some t \<and> se_orderHash t = se_orderHash s
    \<and> se_sellerWallet t = se_sellerWallet s \<and> se_buyerWallet t = se_buyerWallet s
    \<and> se_grossUsdc t = se_grossUsdc s \<and> se_sellerPayoutUsdc t = se_sellerPayoutUsdc s
    \<and> (se_status s = paid \<longrightarrow> se_status t = paid \<and> se_payoutTxHash t = se_payoutTxHash s)
    \<and> (se_status s = rejected \<longrightarrow> se_status t = rejected)"
proof -
  have wf: "ledger_wf cfg lg" by (rule reachable_ledger [OF assms(1)])
  have wf': "ledger_wf cfg lg'" by (rule ledger_machine.steps_inv [OF wf assms(2)])
  have s: "s \<in> set (lg_rows lg)" "se_id s = i" using find_settlement_Some [OF assms(3)] by auto
  have "ledger_adv lg lg'" by (rule ledger_machine.steps_adv [OF wf assms(2)])
  then obtain t where t: "t \<in> set (lg_rows lg')" "settlement_le s t" using s(1) by (auto simp: ledger_adv_def)
  have f: "find_settlement (se_id t) lg' = Some t" by (rule find_settlement_member [OF wf' t(1)])
  have eq: "settlement_terms t = settlement_terms s"
    and closed: "se_status s = paid \<longrightarrow> se_status t = paid \<and> se_payoutTxHash t = se_payoutTxHash s"
      "se_status s = rejected \<longrightarrow> se_status t = rejected"
    using t(2) unfolding settlement_le_def same_terms_def by blast+
  then have terms: "se_id t = se_id s" "se_orderHash t = se_orderHash s \<and> se_sellerWallet t = se_sellerWallet s
    \<and> se_buyerWallet t = se_buyerWallet s \<and> se_grossUsdc t = se_grossUsdc s
    \<and> se_sellerPayoutUsdc t = se_sellerPayoutUsdc s"
    by (simp_all only: settlement_terms_def prod.inject)
  have "find_settlement i lg' = Some t" using f terms(1) s(2) by simp
  with terms(2) closed show ?thesis by blast
qed

theorem closed_settlement_is_final_witness:
  "\<exists>t. find_settlement 0 (fst (executePayout fee_config good_wallet 11 0 paid_ledger)) = Some t
     \<and> se_status t = paid \<and> se_payoutTxHash t = Some ''0xpaid''"
proof -
  have "wallet_reports good_wallet" by code_simp
  then have "ledger_step fee_config paid_ledger (fst (executePayout fee_config good_wallet 11 0 paid_ledger))"
    by (rule ledger_step.execute [OF _ prod.collapse [symmetric]])
  then have st: "(ledger_step fee_config)\<^sup>*\<^sup>* paid_ledger (fst (executePayout fee_config good_wallet 11 0 paid_ledger))"
    by (rule r_into_rtranclp [of "ledger_step fee_config"])
  have "se_status paid_row = paid" "se_payoutTxHash paid_row = Some ''0xpaid''" by (simp_all add: paid_row_def)
  with closed_settlement_is_final [OF payout_reachable st paid_found] show ?thesis by auto
qed

text \<open>C31 When the receipt of a transfer is lost the settlement stays confirmed, and the next attempt
  (the cron runs every minute) pays the seller a second time.\<close>
theorem lost_receipt_pays_twice:
  assumes "find_settlement i lg = Some s" "se_status s = pending_confirm \<or> se_status s = confirmed"
    and "wallet_isConfigured cfg"
    and "transferUsdc cfg fw1 (se_sellerWallet s) (se_sellerPayoutUsdc s) (se_chainId s) = (Inl e, Some (to, a))"
    and "transferUsdc cfg fw2 (se_sellerWallet s) (se_sellerPayoutUsdc s) (se_chainId s) = (Inr h, Some (to, a))"
    and lg1: "executePayout cfg fw1 now i lg = (lg1, r1)" and lg2: "executePayout cfg fw2 now2 i lg1 = (lg2, r2)"
  shows "r1 = Inl e \<and> (\<exists>t. find_settlement i lg1 = Some t \<and> se_status t = confirmed)
    \<and> payments_of i lg2 = (to, a) # (to, a) # payments_of i lg"
proof -
  let ?s = "if se_status s = confirmed then s else s\<lparr>se_status := confirmed, se_confirmedAt := Some now\<rparr>"
  let ?lg = "if se_status s = confirmed then lg else save_settlement ?s lg"
  have i: "se_id s = i" using find_settlement_Some [OF assms(1)] by simp
  have start: "payout_begin cfg now i lg = (?lg, sends ?s)"
    using assms(1-3) by (auto simp: payout_begin_def Let_def)
  have terms: "se_sellerWallet ?s = se_sellerWallet s" "se_sellerPayoutUsdc ?s = se_sellerPayoutUsdc s"
    "se_chainId ?s = se_chainId s" "se_id ?s = i" using i by simp_all
  have "executePayout cfg fw1 now i lg = (?lg\<lparr>lg_sent := (i, to, a) # lg_sent ?lg\<rparr>, Inl e)"
    unfolding executePayout_def start prod.case payout_start.case payout_end_def terms assms(4)
    by (simp add: Let_def)
  then have r1: "r1 = Inl e" and eq1: "lg1 = ?lg\<lparr>lg_sent := (i, to, a) # lg_sent ?lg\<rparr>"
    using lg1 by simp_all
  have "find_settlement i ?lg = Some ?s"
    using assms(1) i by (simp add: settlement_repo.look_put)
  then have f1: "find_settlement i lg1 = Some ?s" by (simp add: eq1 find_settlement_def)
  have sent1: "lg_sent lg1 = (i, to, a) # lg_sent lg" by (simp add: eq1 save_settlement_def)
  have conf: "se_status ?s = confirmed" by simp
  have start2: "payout_begin cfg now2 i lg1 = (lg1, sends ?s)"
    using f1 assms(3) conf by (simp only: payout_begin_def option.case) simp
  have "lg_sent (fst (executePayout cfg fw2 now2 i lg1)) = (i, to, a) # lg_sent lg1"
    unfolding executePayout_def start2 prod.case payout_start.case payout_end_def terms assms(5)
    by (simp add: Let_def save_settlement_def)
  then have "lg_sent lg2 = (i, to, a) # (i, to, a) # lg_sent lg" using lg2 sent1 by simp
  then show ?thesis using r1 f1 conf by (auto simp only: payments_of_def filter.simps fst_conv snd_conv list.map simp_thms if_True)
qed

definition silent_wallet :: fee_wallet where
  "silent_wallet = good_wallet\<lparr>fw_outcome := receipt_lost (OtherError ''timeout'')\<rparr>"

theorem lost_receipt_pays_twice_witness:
  "payments_of 0 (fst (executePayout fee_config good_wallet 10 0 (fst (executePayout fee_config silent_wallet 9 0 sold_ledger))))
     = [(''0x'' @ replicate 40 CHR ''5'', 950000), (''0x'' @ replicate 40 CHR ''5'', 950000)]"
proof -
  let ?to = "''0x'' @ replicate 40 CHR ''5''"
  have "se_status sold_row = pending_confirm \<and> wallet_isConfigured fee_config
    \<and> transferUsdc fee_config silent_wallet (se_sellerWallet sold_row) (se_sellerPayoutUsdc sold_row) (se_chainId sold_row)
        = (Inl (OtherError ''timeout''), Some (?to, 950000))
    \<and> transferUsdc fee_config good_wallet (se_sellerWallet sold_row) (se_sellerPayoutUsdc sold_row) (se_chainId sold_row)
        = (Inr ''0xpaid'', Some (?to, 950000))
    \<and> payments_of 0 sold_ledger = []" by code_simp
  then show ?thesis
    using lost_receipt_pays_twice [OF sold_found _ _ _ _ prod.collapse [symmetric] prod.collapse [symmetric]]
    by simp
qed


section \<open>Creating and paying\<close>

lemma hash_row:
  assumes wf: "ledger_wf cfg lg" and s: "s \<in> set (lg_rows lg) \<and> se_orderHash s = h"
  shows "find_row (\<lambda>x. se_orderHash x = h) (lg_rows lg) = Some s"
proof (rule find_row_unique)
  have "x = s" if "x \<in> set (lg_rows lg)" "se_orderHash x = h" for x
  proof -
    have "se_id x = se_id s"
      using wf that s unfolding ledger_wf_def by (metis (no_types, lifting) unique_indexD)
    then show ?thesis using wf that s unfolding ledger_wf_def by (metis find_key_member option.inject)
  qed
  then show "\<forall>x \<in> set (lg_rows lg). se_orderHash x = h \<longrightarrow> x = s" by blast
qed (use s in simp_all)

text \<open>A fulfilled ask gets one settlement: once it has one, creating again with the same order
  hash returns that row and leaves the ledger as it is, whatever else the second call says.\<close>
theorem one_settlement_per_order:
  assumes "(ledger_step cfg)\<^sup>*\<^sup>* empty_ledger lg"
    and "createFromFulfilledAsk cfg now ask buyer ch tx lg = Inr (Some s, lg')"
    and "js_trim (o_orderHash ask') = js_trim (o_orderHash ask)"
  shows "createFromFulfilledAsk cfg now' ask' buyer' ch' tx' lg' = Inr (Some s, lg')"
proof -
  have wf: "ledger_wf cfg lg'"
    using create_ok [OF reachable_ledger [OF assms(1)] assms(2)] by blast
  have ne: "js_trim (o_orderHash ask) \<noteq> []"
    using assms(2) by (auto simp: createFromFulfilledAsk_def Let_def split: if_splits)
  have "s \<in> set (lg_rows lg') \<and> se_orderHash s = js_trim (o_orderHash ask)"
    using assms(2)
  proof (cases rule: create_cases)
    case (2 row)
    then show ?thesis by (simp add: save_settlement_def)
  qed auto
  then have "find_row (\<lambda>x. se_orderHash x = js_trim (o_orderHash ask)) (lg_rows lg') = Some s"
    by (rule hash_row [OF wf])
  then show ?thesis using ne assms(3) by (simp add: createFromFulfilledAsk_def Let_def)
qed

theorem one_settlement_per_order_witness:
  "createFromFulfilledAsk fee_config 8 sold_ask (''0x'' @ replicate 40 CHR ''d'') 137 (Some ''0xother'') sold_ledger
     = Inr (Some sold_row, sold_ledger)"
  by (rule one_settlement_per_order [OF rtranclp.rtrancl_refl sold_ok refl])

text \<open>The amounts of every settlement agree with the split that self-vault asks are signed with
  on chain: what the seller is owed is the seller part of splitGrossUsdcMicros, the rest is the
  fee, and the fee is the exact share rounded down to a micro.\<close>
theorem payout_is_the_signed_split:
  assumes "(ledger_step cfg)\<^sup>*\<^sup>* empty_ledger lg" "find_settlement i lg = Some s"
  shows "\<exists>g seller fee. js_BigInt (se_grossUsdc s) = Some g \<and> js_BigInt (se_sellerPayoutUsdc s) = Some seller
    \<and> splitGrossUsdcMicros g (readSelfVaultPlatformFeeBps cfg) = (seller, fee) \<and> seller + fee = g
    \<and> 0 \<le> fee \<and> fee * 10000 \<le> g * readSelfVaultPlatformFeeBps cfg
    \<and> g * readSelfVaultPlatformFeeBps cfg < (fee + 1) * 10000"
proof -
  have "amounts_ok cfg s"
    using reachable_ledger [OF assms(1)] find_settlement_Some [OF assms(2)] by (auto simp: ledger_wf_def)
  then obtain g where g: "js_BigInt (se_grossUsdc s) = Some g" "0 < g"
    "js_BigInt (se_sellerPayoutUsdc s) = Some (fst (seller_split cfg g))"
    by (rule amounts_of_row)
  let ?bps = "readSelfVaultPlatformFeeBps cfg"
  let ?x = "splitGrossUsdcMicros g ?bps"
  have same: "seller_split cfg g = ?x" using g(2) seller_split_same by simp
  have b: "0 \<le> ?bps" "?bps \<le> 10000" using readSelfVaultPlatformFeeBps_range by auto
  have "fst ?x + snd ?x = g" by (rule gross_split.conserves)
  moreover have "0 \<le> snd ?x" using gross_split.fee_nonneg g(2) by simp
  moreover have "snd ?x * 10000 \<le> g * ?bps" "g * ?bps < (snd ?x + 1) * 10000"
    using split_fee_rounding [OF _ b] g(2) by simp_all
  ultimately show ?thesis
    using g(1,3) same by (intro exI [of _ g] exI [of _ "fst ?x"] exI [of _ "snd ?x"]) simp
qed

theorem payout_is_the_signed_split_witness:
  "\<exists>fee. splitGrossUsdcMicros 1000000 (readSelfVaultPlatformFeeBps fee_config) = (950000, fee) \<and> 950000 + fee = 1000000"
proof -
  show ?thesis using payout_is_the_signed_split [OF sold_reachable sold_found] sold_amounts by auto
qed

text \<open>A payout touches its own row only.\<close>

lemma payout_begin_other:
  assumes "payout_begin cfg now i lg = (lg1, st)" "j \<noteq> i"
  shows "find_settlement j lg1 = find_settlement j lg \<and> (\<forall>r. st = sends r \<longrightarrow> se_id r = i)"
  using assms(1)
proof (cases rule: payout_begin_cases)
  case (2 r)
  then show ?thesis using find_settlement_Some [OF 2(1)] assms(2)
    by (simp add: settlement_repo.look_put)
next
  case (3 r)
  then show ?thesis using find_settlement_Some [OF 3(1)] by simp
qed auto

lemma find_sent [simp]: "find_settlement j (lg\<lparr>lg_sent := x\<rparr>) = find_settlement j lg"
  by (simp add: find_settlement_def)

lemma payout_end_other:
  "se_id r \<noteq> j \<Longrightarrow> find_settlement j (fst (payout_end cfg fw now r lg)) = find_settlement j lg"
  by (auto simp: payout_end_def Let_def settlement_repo.look_put split: prod.split sum.split option.split)

lemma executePayout_other:
  assumes "j \<noteq> i"
  shows "find_settlement j (fst (executePayout cfg fw now i lg)) = find_settlement j lg"
proof -
  obtain lg1 st where b: "payout_begin cfg now i lg = (lg1, st)" by force
  show ?thesis
    using payout_begin_other [OF b assms] payout_end_other [of _ j cfg fw now lg1] assms b
    by (cases st) (auto simp: executePayout_def)
qed

lemma fold_payouts_other:
  "i \<notin> se_id ` set rows \<Longrightarrow>
   find_settlement i (fold (\<lambda>row lg. fst (executePayout cfg (fw (se_id row)) now (se_id row) lg)) rows lg)
     = find_settlement i lg"
  by (induction rows arbitrary: lg) (auto simp: executePayout_other)

lemma executePayout_pays:
  assumes "find_settlement i lg = Some s" "se_status s = pending_confirm \<or> se_status s = confirmed"
    and "wallet_isConfigured cfg"
    and "transferUsdc cfg fw (se_sellerWallet s) (se_sellerPayoutUsdc s) (se_chainId s) = (Inr h, out)"
  shows "\<exists>t. find_settlement i (fst (executePayout cfg fw now i lg)) = Some t \<and> se_status t = paid
    \<and> se_payoutTxHash t = Some h"
proof -
  let ?s = "if se_status s = confirmed then s else s\<lparr>se_status := confirmed, se_confirmedAt := Some now\<rparr>"
  have i: "se_id s = i" using find_settlement_Some [OF assms(1)] by simp
  obtain lg1 where start: "payout_begin cfg now i lg = (lg1, sends ?s)"
    using assms(1-3) by (auto simp: payout_begin_def Let_def)
  have terms: "se_sellerWallet ?s = se_sellerWallet s" "se_sellerPayoutUsdc ?s = se_sellerPayoutUsdc s"
    "se_chainId ?s = se_chainId s" "se_id ?s = i" using i by simp_all
  show ?thesis
    unfolding executePayout_def start prod.case payout_start.case payout_end_def terms assms(4)
    using i by (simp add: Let_def settlement_repo.look_put)
qed

lemma due_distinct:
  assumes "ledger_wf cfg lg"
  shows "distinct (map se_id (due_settlements cfg now lg))"
    and "s \<in> set (due_settlements cfg now lg) \<Longrightarrow> find_settlement (se_id s) lg = Some s
      \<and> (se_status s = pending_confirm \<or> se_status s = confirmed)"
proof -
  have d: "distinct (map se_id (lg_rows lg))" using assms by (simp add: ledger_wf_def)
  have "set (due_settlements cfg now lg) \<subseteq> set (lg_rows lg)"
    by (auto simp: due_settlements_def Let_def order_asc_def dest: in_set_takeD)
  with d have "inj_on se_id (set (due_settlements cfg now lg))"
    by (auto simp: distinct_map intro: inj_on_subset)
  moreover have "distinct (due_settlements cfg now lg)"
    using d by (simp add: due_settlements_def Let_def order_asc_def distinct_map)
  ultimately show "distinct (map se_id (due_settlements cfg now lg))" by (simp add: distinct_map)
  assume s: "s \<in> set (due_settlements cfg now lg)"
  have "s \<in> set (lg_rows lg) \<and> (se_status s = pending_confirm \<or> se_status s = confirmed)"
    using s by (auto simp: due_settlements_def Let_def order_asc_def dest!: in_set_takeD)
  then show "find_settlement (se_id s) lg = Some s
      \<and> (se_status s = pending_confirm \<or> se_status s = confirmed)"
    using find_settlement_member [OF assms] by blast
qed

text \<open>C30 The payout cron pays: a settlement among the due ones of a run, whose transfer the fee
  wallet completes, is paid with the hash of that transfer when the run is over, whatever became of
  the other payouts of the run.\<close>
theorem cron_pays_due_settlement:
  assumes "(ledger_step cfg)\<^sup>*\<^sup>* empty_ledger lg"
    and "cfg ''SELF_VAULT_AUTO_PAYOUT_CRON'' \<noteq> Some ''0''" and "wallet_isConfigured cfg"
    and "s \<in> set (due_settlements cfg now lg)"
    and "transferUsdc cfg (fw (se_id s)) (se_sellerWallet s) (se_sellerPayoutUsdc s) (se_chainId s) = (Inr h, out)"
  shows "\<exists>t. find_settlement (se_id s) (autoPayoutCron cfg fw now lg) = Some t \<and> se_status t = paid
    \<and> se_payoutTxHash t = Some h"
proof -
  have wf: "ledger_wf cfg lg" by (rule reachable_ledger [OF assms(1)])
  let ?f = "\<lambda>row lg. fst (executePayout cfg (fw (se_id row)) now (se_id row) lg)"
  from assms(4) obtain ys zs where split: "due_settlements cfg now lg = ys @ s # zs" by (meson split_list)
  have fresh: "se_id s \<notin> se_id ` set ys" "se_id s \<notin> se_id ` set zs"
    using due_distinct(1) [OF wf, of now] by (auto simp: split)
  have s: "find_settlement (se_id s) (fold ?f ys lg) = Some s"
    "se_status s = pending_confirm \<or> se_status s = confirmed"
    using due_distinct(2) [OF wf assms(4)] fold_payouts_other [OF fresh(1)] by auto
  have "autoPayoutCron cfg fw now lg = fold ?f zs (?f s (fold ?f ys lg))"
    using assms(2,3) by (simp add: autoPayoutCron_def split)
  then show ?thesis
    using executePayout_pays [OF s assms(3,5)] fold_payouts_other [OF fresh(2)] by simp
qed

theorem cron_pays_due_settlement_witness:
  "\<exists>t. find_settlement 0 (autoPayoutCron fee_config (\<lambda>i. good_wallet) 400000 sold_ledger) = Some t \<and> se_status t = paid"
proof -
  have c: "fee_config ''SELF_VAULT_AUTO_PAYOUT_CRON'' \<noteq> Some ''0'' \<and> wallet_isConfigured fee_config
    \<and> due_settlements fee_config 400000 sold_ledger = [sold_row]
    \<and> transferUsdc fee_config good_wallet (se_sellerWallet sold_row) (se_sellerPayoutUsdc sold_row) (se_chainId sold_row)
        = (Inr ''0xpaid'', Some (''0x'' @ replicate 40 CHR ''5'', 950000)) \<and> se_id sold_row = 0" by code_simp
  then have "sold_row \<in> set (due_settlements fee_config 400000 sold_ledger)" by simp
  with c show ?thesis
    using cron_pays_due_settlement [OF sold_reachable, of sold_row 400000 "\<lambda>i. good_wallet"] by auto
qed

end
