(* ===== verification/RuleProperties.thy ===== *)
theory RuleProperties
  imports OrderMachine "HOL-Library.Code_Target_Nat"
begin

text \<open>
  The properties of the rules that the services share: token ids and their SQL match, chain
  headers, order hashes, the window of a bid and the ask a bid would cross.
\<close>

section \<open>Token ids\<close>

lemma matches_decimal_list:
  assumes "list_all is_decimal ids" "is_decimal b"
  shows "matches_decimal_ids ids b \<longleftrightarrow> list_ex (\<lambda>a. matches_decimal_ids [a] b) ids"
  using assms(1) by (induction ids) (auto simp: matches_decimal_ids_def)

text \<open>The SQL clause of applyDecimalTokenIdMatch finds a stored decimal id exactly when one of the
  requested ids is the same number, however the two are padded.\<close>
theorem sql_match_is_numeric:
  assumes "list_all is_decimal ids" "is_decimal stored"
  shows "matches_decimal_ids ids stored \<longleftrightarrow> js_BigInt stored \<in> js_BigInt ` set ids"
proof -
  have "matches_decimal_ids ids stored \<longleftrightarrow> list_ex (\<lambda>a. matches_decimal_ids [a] stored) ids"
    by (rule matches_decimal_list [OF assms])
  also have "\<dots> \<longleftrightarrow> list_ex (\<lambda>a. js_BigInt a = js_BigInt stored) ids"
    using assms(1) by (induction ids) (auto simp: matches_decimal_iff [OF _ assms(2)])
  also have "\<dots> \<longleftrightarrow> js_BigInt stored \<in> js_BigInt ` set ids" by (induction ids) auto
  finally show ?thesis .
qed

theorem sql_match_is_numeric_witness:
  "matches_decimal_ids [''7'', ''0040''] ''00040'' \<and> \<not> matches_decimal_ids [''7'', ''0040''] ''400''"
proof -
  have "list_all is_decimal [''7'', ''0040'']" "is_decimal ''00040''" "is_decimal ''400''"
    "js_BigInt ''00040'' = Some 40" "js_BigInt ''400'' = Some 400" "js_BigInt ''0040'' = Some 40" "js_BigInt ''7'' = Some 7"
    by code_simp+
  then show ?thesis
    using sql_match_is_numeric [of "[''7'', ''0040'']" "''00040''"]
      sql_match_is_numeric [of "[''7'', ''0040'']" "''400''"] by simp
qed

lemma strip_padding: "sql_strip_zeros (replicate k (CHR ''0'') @ s) = sql_strip_zeros s"
  by (induction k) (simp_all add: sql_strip_zeros_def)

lemma js_trim_blanks:
  assumes "is_decimal s"
  shows "js_trim (CHR '' '' # s @ '' '') = s"
proof -
  have ws: "is_ws (CHR '' '')" by code_simp
  have n: "list_all (\<lambda>c. \<not> is_ws c) s" "s \<noteq> []"
    using assms by (auto simp: is_decimal_def list_all_iff digit_not_ws)
  have "dropWhile is_ws (s @ '' '') = s @ '' ''" using n by (cases s) auto
  moreover have "dropWhile is_ws (rev s) = rev s" using n by (intro dropWhile_none) (simp add: list_all_iff)
  ultimately show ?thesis using ws by (simp add: js_trim_def)
qed

text \<open>Padding and normalising an id gives the shortest numeral back: the loop of
  normalizeDecimalTokenId undoes any number of leading zeros and surrounding blanks, and its
  result is what the SQL expression computes.\<close>
theorem normalize_undoes_padding:
  "normalizeDecimalTokenId (replicate k (CHR ''0'') @ nat_str n) = nat_str n
   \<and> normalizeDecimalTokenId (CHR '' '' # nat_str n @ '' '') = nat_str n
   \<and> sql_strip_zeros (replicate k (CHR ''0'') @ nat_str n) = nat_str n"
proof (intro conjI)
  have d: "is_decimal (nat_str n)" "radix_val 10 (nat_str n) = Some n" by simp_all
  then have s: "sql_strip_zeros (nat_str n) = nat_str n" using sql_strip_nat_str by blast
  then show "sql_strip_zeros (replicate k (CHR ''0'') @ nat_str n) = nat_str n" by (simp add: strip_padding)
  have "is_decimal (replicate k (CHR ''0'') @ nat_str n)"
    using d(1) by (auto simp: is_decimal_def list_all_iff is_digit_def char_code_def)
  then show "normalizeDecimalTokenId (replicate k (CHR ''0'') @ nat_str n) = nat_str n"
    using s by (simp add: normalize_decimal strip_padding)
  have "js_trim (CHR '' '' # nat_str n @ '' '') = nat_str n" using d(1) by (rule js_trim_blanks)
  then show "normalizeDecimalTokenId (CHR '' '' # nat_str n @ '' '') = nat_str n"
    using s d(1) by (metis normalize_trim normalize_decimal)
qed

text \<open>The loop over leading zeros ends inside the string: it passes only zeros and stops at the
  first other character or at the last one.\<close>
theorem skip_zeros_stops:
  assumes "s \<noteq> []"
  shows "skip_zeros s 0 < length s \<and> list_all (\<lambda>c. c = CHR ''0'') (take (skip_zeros s 0) s)
    \<and> (s ! skip_zeros s 0 \<noteq> CHR ''0'' \<or> skip_zeros s 0 + 1 = length s)"
proof -
  have passed: "i \<le> length s \<Longrightarrow> list_all (\<lambda>c. c = CHR ''0'') (take i s) \<Longrightarrow>
    list_all (\<lambda>c. c = CHR ''0'') (take (skip_zeros s i) s)
    \<and> (s ! skip_zeros s i \<noteq> CHR ''0'' \<or> length s \<le> skip_zeros s i + 1)" for i
  proof (induction s i rule: skip_zeros.induct)
    case (1 s i)
    show ?case
    proof (cases "i + 1 < length s \<and> s ! i = CHR ''0''")
      case True
      then have "list_all (\<lambda>c. c = CHR ''0'') (take (i + 1) s)"
        using 1 by (simp add: take_Suc_conv_app_nth)
      with 1 True show ?thesis by (subst (1 2 3) skip_zeros.simps) simp
    next
      case False
      with 1 show ?thesis by (subst (1 2 3) skip_zeros.simps) auto
    qed
  qed
  show ?thesis using passed [of 0] skip_zeros_bound [of 0 s] assms by auto
qed

theorem skip_zeros_stops_witness: "skip_zeros ''0007'' 0 < 4 \<and> skip_zeros ''000'' 0 < 3"
  using skip_zeros_stops [of "''0007''"] skip_zeros_stops [of "''000''"] by simp

section \<open>Chain headers\<close>

text \<open>The two readers of the chain header agree: requireChainId accepts exactly the headers that
  parseOptionalChainIdHeader recognises, with the same chain; that chain is configured, is one of
  the supported ones, and is what the lenient resolveChainId returns.\<close>
theorem chain_header_readers_agree:
  "(requireChainId cfg h = Inr n \<longleftrightarrow> parseOptionalChainIdHeader cfg h = Some n)
   \<and> (parseOptionalChainIdHeader cfg h = None \<or> parseOptionalChainIdHeader cfg h = Some (resolveChainId cfg h)
        \<and> isChainConfigured cfg (resolveChainId cfg h))
   \<and> resolveChainId cfg h \<in> set SUPPORTED_CHAIN_IDS"
proof (intro conjI)
  show "requireChainId cfg h = Inr n \<longleftrightarrow> parseOptionalChainIdHeader cfg h = Some n"
    by (auto simp: requireChainId_def parseOptionalChainIdHeader_def split: option.splits)
  show "resolveChainId cfg h \<in> set SUPPORTED_CHAIN_IDS" by (rule resolveChainId_supported)
  show "parseOptionalChainIdHeader cfg h = None \<or> parseOptionalChainIdHeader cfg h = Some (resolveChainId cfg h)
        \<and> isChainConfigured cfg (resolveChainId cfg h)"
  proof (cases h)
    case (Some raw)
    then show ?thesis
      by (auto simp: parseOptionalChainIdHeader_def resolveChainId_def trim_or_null_def non_empty_def
          split: option.splits if_splits)
  qed (simp add: parseOptionalChainIdHeader_def trim_or_null_def)
qed

section \<open>Order hashes\<close>

text \<open>No mark that the server leaves on an order changes the hash under which the chain knows
  it: the policy stamp, the cancellation of a dead bid or an unowned ask, and the marks of a fill
  or a match all keep the order hash that is recomputed from the parameters.\<close>
theorem hash_survives_marks:
  "seaportOrderHashFromParameters env (stamp_policy p (o_parameters ord)) = seaportOrderHashFromParameters env (o_parameters ord)
   \<and> list_all (\<lambda>s. seaportOrderHashFromParameters env (o_parameters s) = seaportOrderHashFromParameters env (o_parameters ord)
        \<and> o_orderHash s = o_orderHash ord)
      [unowned_ask now w r b ord, dead_bid now v c ord, mark_ask_filled buyer tx ord, mark_bid_filled ord,
       mark_pair_ask other ord, mark_pair_bid other ord]"
proof -
  have hash: "seaportOrderHashFromParameters env (o_parameters s) = seaportOrderHashFromParameters env (o_parameters ord)
      \<and> o_orderHash s = o_orderHash ord" if "signed_part s = signed_part ord" for s
    using signed_fields(2,8) [OF that] by (simp add: seaportOrderHashFromParameters_def)
  have "seaportOrderHashFromParameters env (stamp_policy p (o_parameters ord))
      = seaportOrderHashFromParameters env (o_parameters ord)" by (simp add: stamp_policy_def)
  then show ?thesis
    unfolding list.pred_inject(2) using list.pred_inject(1) hash [OF signed_marks(1)] hash [OF signed_marks(2)] hash [OF signed_marks(3)]
      hash [OF signed_marks(4)] hash [OF signed_marks(5)] hash [OF signed_marks(6)] by blast
qed

section \<open>The window of a bid\<close>

text \<open>The window of a bid that is accepted at time n (in seconds): it lasts one of the offered
  numbers of days up to two minutes, so that the bid is still open 23 hours later, and it ends at
  most 180 days and two minutes from now.\<close>
theorem bid_window_bounds:
  assumes "tokenBidWindowIsValid (Some s) (Some e) (Some n) = None"
  shows "n + 85380 \<le> e \<and> e \<le> n + 15552120
    \<and> list_ex (\<lambda>d. \<bar>(e - s) - of_nat d * 86400\<bar> \<le> 120) TOKEN_BID_ALLOWED_DURATION_DAYS"
proof -
  have w: "\<bar>s - n\<bar> \<le> 900" "isAllowedTokenBidDurationSec (e - s)" "e \<le> n + 15552120"
    using assms by (simp_all add: window_valid_iff)
  then have "list_ex (\<lambda>d. \<bar>(e - s) - of_nat d * 86400\<bar> \<le> 120) TOKEN_BID_ALLOWED_DURATION_DAYS"
    by (simp add: isAllowedTokenBidDurationSec_def TOKEN_BID_SECONDS_PER_DAY_def TOKEN_BID_DURATION_SKEW_SEC_def
        split: if_splits)
  moreover have "n + 85380 \<le> e" using w(1) allowed_duration_bounds [OF w(2)] by linarith
  ultimately show ?thesis using w(3) by blast
qed

theorem bid_window_bounds_witness:
  "list_ex (\<lambda>d. \<bar>(604850 - 0 :: rat) - of_nat d * 86400\<bar> \<le> 120) TOKEN_BID_ALLOWED_DURATION_DAYS"
proof -
  have "tokenBidWindowIsValid (Some 0) (Some 604850) (Some 60) = None"
    by (simp add: tokenBidWindowIsValid_def isAllowedTokenBidDurationSec_def window_consts)
  from bid_window_bounds [OF this] show ?thesis by blast
qed

section \<open>The ask that a bid crosses\<close>

text \<open>pickCrossingAskForBid finds a live ask exactly when there is one, and then the cheapest: an
  active ask in its time window that asks for no more than the bid offers, and every other such ask
  asks for at least as much.\<close>
theorem pick_is_cheapest_live_ask:
  assumes "inj_on order_key (set asks)" "0 < bid"
  shows "(pickCrossingAskForBid asks w bid now = None) = list_all (\<lambda>s. \<not> live_ask bid now s) asks
    \<and> (case pickCrossingAskForBid asks w bid now of None \<Rightarrow> True
       | Some r \<Rightarrow> r \<in> set asks \<and> live_ask bid now r
           \<and> list_all (\<lambda>s. live_ask bid now s \<longrightarrow>
                parseMicros (o_considerationAmount r) \<le> parseMicros (o_considerationAmount s)) asks)"
  using pick_crossing_None [OF assms] pick_crossing_Some [of asks w bid now] pick_crossing_least [OF _ assms(1)]
  by (auto simp: list_all_iff split: option.splits)

definition cheap_ask :: order where
  "cheap_ask = \<lparr>o_id = 1, o_orderHash = ''0xh1'', o_offerer = ''0xs'', o_side = ASK, o_tokenContract = ''0xaa'',
     o_tokenId = ''40'', o_collectionKey = Some ''k'', o_considerationToken = [], o_considerationAmount = ''900'',
     o_parameters = \<lparr>sp_offerer = ''0xs'', sp_zone = [], sp_zoneHash = [], sp_startTime = ''0'', sp_endTime = ''9'',
       sp_orderType = 0, sp_offer = [], sp_consideration = [], sp_totalOriginalConsiderationItems = 0,
       sp_salt = [], sp_conduitKey = [], sp_counter = [], sp_server = no_server_keys\<rparr>,
     o_signature = [], o_status = ACTIVE, o_startTime = 0, o_endTime = 9000, o_createdAt = 0, o_updatedAt = 0\<rparr>"

definition dear_ask :: order where
  "dear_ask = cheap_ask\<lparr>o_id := 2, o_orderHash := ''0xh2'', o_considerationAmount := ''1200''\<rparr>"

theorem pick_is_cheapest_live_ask_witness:
  "map_option o_id (pickCrossingAskForBid [dear_ask, cheap_ask] ''0xb'' 1500 5000) = Some 1"
proof -
  have "order_key dear_ask \<noteq> order_key cheap_ask" by code_simp
  then have 1: "inj_on order_key (set [dear_ask, cheap_ask])" by (auto simp: inj_on_def)
  have "\<not> list_all (\<lambda>s. \<not> live_ask 1500 5000 s) [dear_ask, cheap_ask]" by code_simp
  with pick_is_cheapest_live_ask [OF 1, of 1500 "''0xb''" 5000] obtain r
    where r: "pickCrossingAskForBid [dear_ask, cheap_ask] ''0xb'' 1500 5000 = Some r" "r \<in> set [dear_ask, cheap_ask]"
      "list_all (\<lambda>s. live_ask 1500 5000 s \<longrightarrow>
        parseMicros (o_considerationAmount r) \<le> parseMicros (o_considerationAmount s)) [dear_ask, cheap_ask]"
    by (auto split: option.splits)
  have "live_ask 1500 5000 cheap_ask" "parseMicros (o_considerationAmount dear_ask) = 1200"
    "parseMicros (o_considerationAmount cheap_ask) = 900" "o_id cheap_ask = 1" by code_simp+
  with r show ?thesis by auto
qed

end
