(* ===== verification/OrderProperties.thy ===== *)
theory OrderProperties
  imports OrderSample
begin

text \<open>
  The properties of the order book: its invariant and its refinement of the life of an order,
  and the effects of its operations on every branch. Each has a witness on the market of
  OrderSample.
\<close>

section \<open>Results of the blocks\<close>

lemma guarded_Inr: "guarded r k m = (m', Inr x) \<longleftrightarrow> (\<exists>y. r = Inr y \<and> k y m = (m', Inr x))"
  by (cases r) (simp_all add: guarded_def)

lemma and_then_Inr: "and_then mr k = (m', Inr x) \<longleftrightarrow> (\<exists>m1 y. mr = (m1, Inr y) \<and> k y m1 = (m', Inr x))"
  by (cases mr; cases "snd mr") (auto simp: and_then_def)

lemma with_order_eq:
  "with_order h f m = (case order_by_hash h m of
      None \<Rightarrow> (m, Inl (NotFoundException ''Order not found''))
    | Some ord \<Rightarrow> f ord (snd (attachListingDisplay ord m)))"
  by (cases "order_by_hash h m") (simp_all add: with_order_def findByHash_def and_then_def case_prod_beta)

lemma reachable_market: "(market_step k cfg)\<^sup>*\<^sup>* empty_market m \<Longrightarrow> market_wf cfg m"
  using market_machine.steps_inv empty_market_wf by blast

lemma order_by_hash_member:
  assumes "book_wf m" "s \<in> set (mk_orders m)"
  shows "order_by_hash (o_orderHash s) m = Some s"
  unfolding order_by_hash_def
proof (rule find_row_unique [OF assms(2) refl], intro ballI impI)
  fix x assume x: "x \<in> set (mk_orders m)" "o_orderHash x = o_orderHash s"
  have "o_id x = o_id s"
    using unique_indexD [of o_id o_orderHash "\<lambda>_. True" "mk_orders m" x s] assms x by (simp add: book_wf_def)
  moreover have d: "distinct (map o_id (mk_orders m))" using assms(1) by (simp add: book_wf_def)
  ultimately show "x = s" using find_key_member [OF d x(1)] find_key_member [OF d assms(2)]
    by (metis option.inject)
qed

lemma distinct_hashes:
  assumes "book_wf m"
  shows "distinct (map o_orderHash (mk_orders m))"
proof -
  have "inj_on o_orderHash (set (mk_orders m))"
    using order_by_hash_member [OF assms] by (metis inj_onI option.inject)
  moreover have "distinct (mk_orders m)" using assms by (simp add: book_wf_def distinct_map)
  ultimately show ?thesis by (simp add: distinct_map)
qed

section \<open>The machine\<close>





text \<open>Once an order is closed no operation touches its row again, and of an open order no operation
  ever changes what was signed or the terms it was created with: hash, offerer, side, contract,
  amount, collection and the signed parameters.\<close>
theorem closed_order_is_final:
  assumes "(market_step k cfg)\<^sup>*\<^sup>* empty_market m" "(market_step k cfg)\<^sup>*\<^sup>* m m'" "find_order i m = Some s"
  shows "\<exists>t. find_order i m' = Some t \<and> (o_status s \<noteq> ACTIVE \<longrightarrow> t = s)
    \<and> o_orderHash t = o_orderHash s \<and> o_offerer t = o_offerer s \<and> o_side t = o_side s
    \<and> o_tokenContract t = o_tokenContract s \<and> o_considerationAmount t = o_considerationAmount s
    \<and> o_collectionKey t = o_collectionKey s
    \<and> seaportHashableParameters (o_parameters t) = seaportHashableParameters (o_parameters s)"
proof -
  have wf: "market_wf cfg m" by (rule reachable_market [OF assms(1)])
  have "market_wf cfg m'" by (rule market_machine.steps_inv [OF wf assms(2)])
  then have d: "distinct (map o_id (mk_orders m'))" by (simp add: market_wf_def book_wf_def)
  have s: "s \<in> set (mk_orders m)" "o_id s = i"
    using find_key_Some [OF assms(3) [unfolded find_order_def]] by auto
  have "market_adv m m'" by (rule market_machine.steps_adv [OF wf assms(2)])
  then obtain t where t: "t \<in> set (mk_orders m')" "order_le s t"
    using s(1) by (auto simp: market_adv_def book_adv_def)
  have "find_order i m' = Some t"
    using find_key_member [OF d t(1)] order_le_fields(1) [OF t(2)] s(2) by (simp add: find_order_def)
  moreover have "signed_part t = signed_part s" "o_status s \<noteq> ACTIVE \<longrightarrow> t = s"
    using t(2) by (simp_all add: order_le_def)
  ultimately show ?thesis using signed_fields [of t s] by blast
qed

theorem closed_order_is_final_witness:
  "find_order 1 (expireOrders 99000000 sold) = find_order 1 sold \<and> find_order 1 sold \<noteq> None"
proof -
  have "market_step id shop_config sold (expireOrders 99000000 sold)" by (rule market_step.expire [OF refl])
  then have st: "(market_step id shop_config)\<^sup>*\<^sup>* sold (expireOrders 99000000 sold)"
    by (rule r_into_rtranclp [of "market_step id shop_config"])
  have "map_option o_status (find_order 1 sold) = Some FULFILLED" by code_simp
  then obtain s where "find_order 1 sold = Some s" "o_status s \<noteq> ACTIVE" by auto
  with closed_order_is_final [OF sold_reach st this(1)] show ?thesis by auto
qed

end
