(* ===== verification/BookProperties.thy ===== *)
theory BookProperties
  imports OrderProperties
begin

text \<open>
  The properties of creating, replacing, cancelling and expiring orders: what an accepted order
  guarantees, and what a refused one leaves behind.
\<close>

section \<open>An order that is created\<close>

lemma create_Inr:
  assumes "createOrder env dto ch m = (m', Inr v)"
  obtains m1 ord m2 m3 where "create_checks env dto ch m = (m1, Inr ())"
    "materializeOrderFromDto env dto ch m1 = (m2, Inr ord)"
    "persistOrder (me_now env) ord m2 = (m3, Inr (ov_order v))"
    "m' = snd (attachListingDisplay (ov_order v) m3)"
proof -
  from assms obtain m1 u where 1: "create_checks env dto ch m = (m1, Inr u)"
    and r1: "and_then (materializeOrderFromDto env dto ch m1) (\<lambda>order m.
       if dto_order_side dto = ASK \<and> trim_or_null (o_collectionKey order) = None
       then (m, Inl (BadRequestException ''Could not create a marketplace collection for this token''))
       else and_then (persistOrder (me_now env) order m) (\<lambda>saved m.
         let (display, m) = attachListingDisplay saved m in
         (m, Inr \<lparr>ov_order = saved, ov_display = Some display,
           ov_reviewStatus = (if dto_order_side dto = ASK
             then map_option (review_status_or_active env) (o_collectionKey saved) else None)\<rparr>))) = (m', Inr v)"
    by (auto simp: createOrder_def and_then_Inr)
  from r1 obtain m2 ord where 2: "materializeOrderFromDto env dto ch m1 = (m2, Inr ord)"
    and r2: "and_then (persistOrder (me_now env) ord m2) (\<lambda>saved m.
         let (display, m) = attachListingDisplay saved m in
         (m, Inr \<lparr>ov_order = saved, ov_display = Some display,
           ov_reviewStatus = (if dto_order_side dto = ASK
             then map_option (review_status_or_active env) (o_collectionKey saved) else None)\<rparr>)) = (m', Inr v)"
    by (auto simp: and_then_Inr split: if_split_asm)
  from r2 obtain m3 s where 3: "persistOrder (me_now env) ord m2 = (m3, Inr s)"
    "ov_order v = s" "m' = snd (attachListingDisplay s m3)"
    by (auto simp: and_then_Inr case_prod_beta Let_def)
  show thesis by (rule that [of m1 m2 ord m3]) (use 1 2 3 in auto)
qed

lemma materialize_Inr:
  assumes "materializeOrderFromDto env dto ch m = (m', Inr ord)"
  shows "seaportOrderHashFromParameters (me_chain env) (o_parameters ord) = Some (o_orderHash ord)
    \<and> o_status ord = ACTIVE \<and> o_tokenId ord = normalizeDecimalTokenId (dto_tokenId dto)
    \<and> o_offerer ord = sp_offerer (dto_parameters dto) \<and> o_considerationAmount ord = dto_considerationAmount dto
    \<and> o_side ord = dto_order_side dto"
  using assms
  by (auto simp: materializeOrderFromDto_def hashed_draft_def draft_order_def Let_def case_prod_beta
      split: option.splits if_splits)

lemma persist_Inr:
  assumes "persistOrder now ord m = (m', Inr s)"
  shows "order_by_hash (o_orderHash ord) m = None \<and> s = inserted_order now (mk_nextOrder m) ord \<and> s \<in> set (mk_orders m')"
  using assms by (auto simp: persistOrder_def Let_def put_order_def split: if_splits)

text \<open>What was created can be found: an accepted order is stored active under the hash that the
  chain computes from its parameters, with the normalised token id and the terms of the request;
  no order had that hash before, and findByHash now returns exactly this row.\<close>
theorem created_order_is_found:
  assumes "(market_step k cfg)\<^sup>*\<^sup>* empty_market m" "me_config env = cfg"
    and ok: "createOrder env dto ch m = (m', Inr v)"
  shows "order_by_hash (o_orderHash (ov_order v)) m = None
    \<and> order_by_hash (o_orderHash (ov_order v)) m' = Some (ov_order v)
    \<and> seaportOrderHashFromParameters (me_chain env) (o_parameters (ov_order v)) = Some (o_orderHash (ov_order v))
    \<and> o_status (ov_order v) = ACTIVE \<and> o_side (ov_order v) = dto_order_side dto
    \<and> o_tokenId (ov_order v) = normalizeDecimalTokenId (dto_tokenId dto)
    \<and> o_offerer (ov_order v) = sp_offerer (dto_parameters dto)
    \<and> o_considerationAmount (ov_order v) = dto_considerationAmount dto"
proof -
  let ?s = "ov_order v"
  obtain m1 ord m2 m3 where c: "create_checks env dto ch m = (m1, Inr ())"
    and mat: "materializeOrderFromDto env dto ch m1 = (m2, Inr ord)"
    and p: "persistOrder (me_now env) ord m2 = (m3, Inr ?s)" and m': "m' = snd (attachListingDisplay ?s m3)"
    using ok by (rule create_Inr)
  note pp = persist_Inr [OF p]
  have s: "?s = inserted_order (me_now env) (mk_nextOrder m2) ord" using pp by blast
  have row: "o_orderHash ?s = o_orderHash ord" "o_parameters ?s = o_parameters ord" "o_status ?s = o_status ord"
    "o_side ?s = o_side ord" "o_tokenId ?s = o_tokenId ord" "o_offerer ?s = o_offerer ord"
    "o_considerationAmount ?s = o_considerationAmount ord"
    unfolding s by (simp_all add: inserted_order_def)
  have wf: "market_wf cfg m" by (rule reachable_market [OF assms(1)])
  have "market_step k cfg m m'" by (rule market_step.create [OF assms(2) ok])
  then have "market_wf cfg m'" using market_step_ok wf by blast
  then have wf': "book_wf m'" by (simp add: market_wf_def)
  have "?s \<in> set (mk_orders m')" using pp unfolding m' display_orders by blast
  then have found: "order_by_hash (o_orderHash ?s) m' = Some ?s" by (rule order_by_hash_member [OF wf'])
  have "evolves cfg m m1" using create_checks_evolves [of cfg m env dto ch] c by simp
  then have adv: "book_adv (mk_orders m) (mk_orders m1)" using wf by (simp add: evolves_def book_step_def market_wf_def)
  have "order_by_hash (o_orderHash ?s) m = None"
  proof (rule ccontr)
    assume "order_by_hash (o_orderHash ?s) m \<noteq> None"
    then obtain x where x: "x \<in> set (mk_orders m)" "o_orderHash x = o_orderHash ord"
      using order_by_hash_Some row(1) by (metis not_Some_eq)
    then obtain y where "y \<in> set (mk_orders m1)" "order_le x y" using adv by (auto simp: book_adv_def)
    moreover have "mk_orders m2 = mk_orders m1" using materialize_orders [of env dto ch m1] mat by simp
    ultimately have "y \<in> set (mk_orders m2)" "o_orderHash y = o_orderHash ord"
      using order_le_fields(2) x(2) by simp_all
    then show False using pp by (auto simp: order_by_hash_def find_row_None)
  qed
  with found show ?thesis using row materialize_Inr [OF mat] by simp
qed

theorem created_order_is_found_witness:
  "\<exists>s. order_by_hash ''0x17'' listed = Some s \<and> o_status s = ACTIVE \<and> o_tokenId s = ''40'' \<and> order_by_hash ''0x17'' stocked = None"
proof -
  obtain v where v: "createOrder (shop_env 5000 seller []) ask17 1 stocked = (listed, Inr v)" "ov_order v = row17"
    by (rule listed_result)
  have "o_orderHash row17 = ''0x17'' \<and> o_tokenId row17 = ''40''" by (simp add: row17_def row_of_def)
  then show ?thesis using created_order_is_found [OF stocked_steps shop_env_config v(1)] unfolding v(2) by auto
qed

section \<open>What an accepted bid and an accepted listing guarantee\<close>

text \<open>C27 An accepted bid takes no live listing: at the moment it is created, no active listing of its
  collection that is open for trade asks for as little as the bid offers.\<close>
theorem accepted_bid_crosses_no_ask:
  assumes ok: "createOrder env dto ch m = (m', Inr v)" and bid: "dto_order_side dto = BID"
    and hashes: "inj_on order_key (set (mk_orders m))"
    and offer: "js_BigInt (or_empty (map_option oi_startAmount (offer0 (dto_parameters dto)))) = Some offered"
    and key: "map_option js_lower (trim_or_null (dto_collectionKey dto)) = Some key"
  shows "list_all (\<lambda>a. lower_key (o_collectionKey a) \<noteq> Some key \<or> \<not> live_ask offered (me_now env) a) (mk_orders m)"
proof -
  obtain m1 where c: "create_checks env dto ch m = (m1, Inr ())" using ok by (rule create_Inr)
  then have "create_bid_checks env dto ch (mk_orders m) = Inr ()"
    using bid by (auto simp: create_checks_def guarded_Inr split: if_split_asm)
  then have "assertTokenBidDoesNotCrossAsk (me_now env) dto key (mk_orders m) = Inr ()"
    using key by (auto simp: create_bid_checks_def on_ok_eq_Inr split: if_split_asm)
  moreover have k: "js_lower (js_trim key) = key"
    using key trim_or_null_Some js_trim_lower by (auto simp: js_lower_idem)
  ultimately have none: "offered \<le> 0 \<or>
      pickCrossingAskForBid (crossing_candidates dto key (mk_orders m)) (sp_offerer (dto_parameters dto)) offered (me_now env) = None"
    using offer by (auto simp: assertTokenBidDoesNotCrossAsk_def Let_def split: if_split_asm option.split_asm)
  have sub: "set (crossing_candidates dto key (mk_orders m)) \<subseteq> set (mk_orders m)"
    by (auto simp: crossing_candidates_def Let_def)
  show ?thesis
    unfolding list_all_iff
  proof (intro ballI disjCI)
    fix a assume a: "a \<in> set (mk_orders m)" and "\<not> \<not> live_ask offered (me_now env) a"
    then have live: "live_ask offered (me_now env) a" by blast
    show "lower_key (o_collectionKey a) \<noteq> Some key"
    proof
      assume "lower_key (o_collectionKey a) = Some key"
      then have "a \<in> set (crossing_candidates dto key (mk_orders m))"
        using a live by (simp add: crossing_candidates_def Let_def live_ask_def)
      moreover have "0 < offered" using live by (simp add: live_ask_def)
      ultimately show False
        using none live pick_crossing_None [OF inj_on_subset [OF hashes sub]] by auto
    qed
  qed
qed

theorem accepted_bid_crosses_no_ask_witness:
  "list_all (\<lambda>a. lower_key (o_collectionKey a) \<noteq> Some ''cards'' \<or> \<not> live_ask 900000 5000 a) (mk_orders listed)"
proof -
  obtain v where r: "createOrder (shop_env 5000 seller []) bid18 1 listed = (with_bid, Inr v)"
    by (rule with_bid_result)
  have d: "dto_order_side bid18 = BID
    \<and> js_BigInt (or_empty (map_option oi_startAmount (offer0 (dto_parameters bid18)))) = Some 900000
    \<and> map_option js_lower (trim_or_null (dto_collectionKey bid18)) = Some ''cards''" by code_simp
  have "inj_on order_key (set (mk_orders listed))" by (simp add: listed_def)
  from accepted_bid_crosses_no_ask [OF r _ this] d show ?thesis by (simp add: shop_env_def)
qed

text \<open>C28 An accepted listing is backed: the chain names the offerer as the owner of the token, the
  vault knows its settlement policy, and the consideration lines of the signed order add up to the
  declared price.\<close>
theorem accepted_listing_is_backed:
  assumes ok: "createOrder env dto ch m = (m', Inr v)" and ask: "dto_order_side dto = ASK"
  shows "readOnChainRwaOwner (me_config env) (me_chain env) (dto_tokenContract dto) (dto_tokenId dto) ch
      = Inr (js_lower (js_trim (sp_offerer (dto_parameters dto))))
    \<and> fst (getSettlementPolicy (dto_tokenContract dto) (dto_tokenId dto) (mk_vault m)) \<noteq> None
    \<and> (\<exists>usdc total. getUsdcAddress (me_config env) ch = Inr usdc
        \<and> ask_consideration_sum usdc (sp_consideration (dto_parameters dto)) = Inr total
        \<and> js_BigInt (dto_considerationAmount dto) = Some total)"
proof -
  obtain m1 where c: "create_checks env dto ch m = (m1, Inr ())" using ok by (rule create_Inr)
  then have "create_ask_checks env dto ch m = (m1, Inr ())"
    using ask by (auto simp: create_checks_def guarded_Inr split: if_split_asm)
  then have valid: "assertValidAskListing (me_config env) dto ch = Inr ()"
    and policy: "fst (assertAskSettlementPolicy (me_config env) dto ch (mk_vault m)) = Inr ()"
    and owner: "assertAskOffererOwnsToken (me_config env) (me_chain env) dto ch = Inr ()"
    by (auto simp: create_ask_checks_def guarded_Inr in_vault_def case_prod_beta Let_def)
  have "readOnChainRwaOwner (me_config env) (me_chain env) (dto_tokenContract dto) (dto_tokenId dto) ch
      = Inr (js_lower (js_trim (sp_offerer (dto_parameters dto))))"
    using owner by (auto simp: assertAskOffererOwnsToken_def on_ok_eq_Inr split: if_split_asm)
  moreover have "fst (getSettlementPolicy (dto_tokenContract dto) (dto_tokenId dto) (mk_vault m)) \<noteq> None"
    using policy by (auto simp: assertAskSettlementPolicy_def split: prod.splits option.splits)
  moreover have "\<exists>usdc total. getUsdcAddress (me_config env) ch = Inr usdc
        \<and> ask_consideration_sum usdc (sp_consideration (dto_parameters dto)) = Inr total
        \<and> js_BigInt (dto_considerationAmount dto) = Some total"
    using valid by (auto simp: assertValidAskListing_def Let_def on_ok_eq_Inr split: if_split_asm option.split_asm)
  ultimately show ?thesis by blast
qed

theorem accepted_listing_is_backed_witness:
  "readOnChainRwaOwner shop_config (chain_of seller []) rwa_addr ''40'' 1 = Inr seller"
proof -
  obtain v where r: "createOrder (shop_env 5000 seller []) ask17 1 stocked = (listed, Inr v)" by (rule listed_result)
  have d: "dto_order_side ask17 = ASK \<and> js_lower (js_trim (sp_offerer (dto_parameters ask17))) = seller
    \<and> dto_tokenContract ask17 = rwa_addr \<and> dto_tokenId ask17 = ''40''" by code_simp
  from accepted_listing_is_backed [OF r] d show ?thesis by (simp add: shop_env_def)
qed

section \<open>Self-vault listings\<close>

text \<open>A listing of a self-vault token is accepted in two forms only: one line that pays the whole
  price to the platform, which then owes the seller through the settlement ledger, or two lines
  that pay the seller and the platform exactly the parts of the configured split.\<close>
theorem self_vault_listing_forms:
  assumes ok: "assertAskSettlementPolicy config dto ch db = (Inr u, db')"
    and hold: "fst (getSettlementPolicy (dto_tokenContract dto) (dto_tokenId dto) db) = Some self_vault_hold"
  shows "\<exists>price. js_BigInt (dto_considerationAmount dto) = Some price
    \<and> (isFullPlatformTakeAsk config (dto_parameters dto) \<and> map (js_BigInt \<circ> ci_startAmount) (sp_consideration (dto_parameters dto)) = [Some price]
       \<or> map (js_BigInt \<circ> ci_startAmount) (sp_consideration (dto_parameters dto))
           = [Some (fst (splitGrossUsdcMicros price (readSelfVaultPlatformFeeBps config))),
              Some (snd (splitGrossUsdcMicros price (readSelfVaultPlatformFeeBps config)))]
         \<and> map (js_lower \<circ> ci_recipient) (sp_consideration (dto_parameters dto))
           = [js_lower (js_trim (sp_offerer (dto_parameters dto))), js_lower (js_trim (or_empty (config ''PLATFORM_FEE_RECIPIENT'')))])"
proof -
  let ?fee = "js_lower (js_trim (or_empty (config ''PLATFORM_FEE_RECIPIENT'')))"
  let ?cons = "sp_consideration (dto_parameters dto)"
  have chk: "check_self_vault_consideration config dto ch = Inr ()"
    using ok hold by (auto simp: assertAskSettlementPolicy_def split: prod.splits option.splits settlement_policy.splits)
  then have fee: "?fee \<noteq> []" by (auto simp: check_self_vault_consideration_def Let_def)
  obtain price where price: "js_BigInt (dto_considerationAmount dto) = Some price"
    using chk by (auto simp: check_self_vault_consideration_def Let_def on_ok_eq_Inr split: if_split_asm option.split_asm)
  consider only where "?cons = [only]" | sl fl where "?cons = [sl, fl]" | "?cons = [] \<or> (\<exists>a b c cs. ?cons = a # b # c # cs)"
    by (metis neq_Nil_conv)
  then show ?thesis
  proof cases
    case 1
    then have o: "ci_itemType only = 1" "js_lower (ci_recipient only) = ?fee" "js_BigInt (ci_startAmount only) = Some price"
      using chk price fee by (auto simp: check_self_vault_consideration_def Let_def on_ok_eq_Inr split: if_split_asm option.split_asm)
    have "js_lower (js_trim (ci_recipient only)) = ?fee"
      using o(2) by (metis js_trim_lower js_trim_idem)
    then have "isFullPlatformTakeAsk config (dto_parameters dto)"
      using 1 o(1) fee by (simp add: isFullPlatformTakeAsk_def Let_def)
    then show ?thesis using price 1 o(3) by simp
  next
    case 2
    then show ?thesis
      using chk price fee
      by (auto simp: check_self_vault_consideration_def Let_def on_ok_eq_Inr case_prod_beta split: if_split_asm option.split_asm)
  next
    case 3
    then show ?thesis
      using chk price fee by (auto simp: check_self_vault_consideration_def Let_def on_ok_eq_Inr)
  qed
qed

definition hold_db :: vault_db where
  "hold_db = fst (recordMintResult id 7 (shop_mint\<lparr>mr_settlementPolicy := Some self_vault_hold\<rparr>) deposited)"

theorem self_vault_listing_forms_witness:
  "splitGrossUsdcMicros 1000000 (readSelfVaultPlatformFeeBps shop_config) = (950000, 50000)"
proof -
  let ?dto = "ask_dto ''40'' [usdc_line seller ''950000'', usdc_line platform ''50000''] ''1000000'' ''17''"
  have "fst (assertAskSettlementPolicy shop_config ?dto 1 hold_db) = Inr ()" by code_simp
  then have ok: "assertAskSettlementPolicy shop_config ?dto 1 hold_db = (Inr (), snd (assertAskSettlementPolicy shop_config ?dto 1 hold_db))"
    by (metis prod.collapse)
  have "fst (getSettlementPolicy (dto_tokenContract ?dto) (dto_tokenId ?dto) hold_db) = Some self_vault_hold" by code_simp
  from self_vault_listing_forms [OF ok this]
  obtain price where p: "js_BigInt (dto_considerationAmount ?dto) = Some price
    \<and> (isFullPlatformTakeAsk shop_config (dto_parameters ?dto) \<and> map (js_BigInt \<circ> ci_startAmount) (sp_consideration (dto_parameters ?dto)) = [Some price]
       \<or> map (js_BigInt \<circ> ci_startAmount) (sp_consideration (dto_parameters ?dto))
           = [Some (fst (splitGrossUsdcMicros price (readSelfVaultPlatformFeeBps shop_config))),
              Some (snd (splitGrossUsdcMicros price (readSelfVaultPlatformFeeBps shop_config)))]
         \<and> map (js_lower \<circ> ci_recipient) (sp_consideration (dto_parameters ?dto))
           = [js_lower (js_trim (sp_offerer (dto_parameters ?dto))), js_lower (js_trim (or_empty (shop_config ''PLATFORM_FEE_RECIPIENT'')))])"
    by (rule exE)
  have d1: "js_BigInt (dto_considerationAmount ?dto) = Some 1000000"
    and d2: "map (js_BigInt \<circ> ci_startAmount) (sp_consideration (dto_parameters ?dto)) = [Some 950000, Some 50000]"
    by code_simp+
  have "price = 1000000" using conjunct1 [OF p] unfolding d1 by (simp only: option.inject)
  with conjunct2 [OF p] have "fst (splitGrossUsdcMicros 1000000 (readSelfVaultPlatformFeeBps shop_config)) = 950000
    \<and> snd (splitGrossUsdcMicros 1000000 (readSelfVaultPlatformFeeBps shop_config)) = 50000"
    unfolding d2 list.inject option.inject by (metis list.distinct(2))
  then show ?thesis by (metis prod.collapse)
qed

section \<open>Replacing\<close>

lemma replace_rows_orders:
  assumes r: "replace_rows env dto ch old adjust m = (m', r)"
  shows "case r of Inl e \<Rightarrow> mk_orders m' = mk_orders m
    | Inr s \<Rightarrow> \<exists>ord m1. materializeOrderFromDto env dto ch m = (m1, Inr ord) \<and> (\<exists>x. adjust ord = Inr x
        \<and> persistOrder (me_now env) x (save_order (me_now env) (old\<lparr>o_status := CANCELLED\<rparr>) m1) = (m', Inr s))"
proof -
  obtain m1 q where mat: "materializeOrderFromDto env dto ch m = (m1, q)" by force
  have o1: "mk_orders m1 = mk_orders m" using materialize_orders [of env dto ch m] mat by simp
  show ?thesis
  proof (cases q)
    case (Inl e)
    then show ?thesis using r mat o1 by (auto simp: replace_rows_def and_then_def)
  next
    case (Inr ord)
    show ?thesis
    proof (cases "adjust ord")
      case (Inl e)
      then have "m' = m1 \<and> r = Inl e" using r mat Inr by (simp add: replace_rows_def and_then_def guarded_def)
      then show ?thesis using o1 by simp
    next
      case adj: (Inr x)
      obtain m2 q2 where p: "persistOrder (me_now env) x (save_order (me_now env) (old\<lparr>o_status := CANCELLED\<rparr>) m1) = (m2, q2)"
        by force
      have "(m', r) = (case q2 of Inl e \<Rightarrow> (m1, Inl e) | Inr saved \<Rightarrow> (m2, Inr saved))"
        using r mat Inr adj p by (simp add: replace_rows_def and_then_def guarded_def split: sum.splits)
      then show ?thesis using mat Inr adj p o1 by (cases q2) auto
    qed
  qed
qed

lemma materialize_next: "mk_nextOrder (fst (materializeOrderFromDto env dto ch m)) = mk_nextOrder m"
  by (auto simp: materializeOrderFromDto_def Let_def case_prod_beta split: option.split)

lemma cancelled_row:
  assumes "(market_step k cfg)\<^sup>*\<^sup>* empty_market m" "order_by_hash h m = Some old"
    and next3: "mk_nextOrder m3 = mk_nextOrder m"
    and p: "persistOrder now x (save_order now (old\<lparr>o_status := CANCELLED\<rparr>) m3) = (m2, Inr s)"
  shows "map_option o_status (find_order (o_id old) m2) = Some CANCELLED"
proof -
  let ?m = "save_order now (old\<lparr>o_status := CANCELLED\<rparr>) m3"
  have "old \<in> set (mk_orders m)" using order_by_hash_Some [OF assms(2)] by blast
  then have "o_id old < mk_nextOrder m"
    using reachable_market [OF assms(1)] by (simp add: market_wf_def book_wf_def)
  then have ne: "o_id old \<noteq> mk_nextOrder ?m" using next3 by simp
  have found: "find_order (o_id old) ?m = Some (touched now (old\<lparr>o_status := CANCELLED\<rparr>))"
    by (simp add: save_order_def order_repo.look_put)
  have m2: "m2 = put_order (inserted_order now (mk_nextOrder ?m) x) (?m\<lparr>mk_nextOrder := mk_nextOrder ?m + 1\<rparr>)"
    using p by (auto simp: persistOrder_def Let_def split: if_splits)
  have "find_order (o_id old) m2 = find_order (o_id old) (?m\<lparr>mk_nextOrder := mk_nextOrder ?m + 1\<rparr>)"
    unfolding m2 order_repo.look_put using ne by (simp add: inserted_order_def)
  also have "\<dots> = find_order (o_id old) ?m" by (simp add: find_order_def)
  finally show ?thesis using found by simp
qed




section \<open>Cancelling and expiring\<close>

text \<open>An order is cancelled exactly for its offerer while it is active; then only its status and
  its update time change, and every refusal leaves the order table alone.\<close>
theorem cancel_only_by_offerer:
  "(case snd (cancelOrder env h caller m) of
      Inl e \<Rightarrow> mk_orders (fst (cancelOrder env h caller m)) = mk_orders m
        \<and> (case order_by_hash h m of None \<Rightarrow> True
           | Some ord \<Rightarrow> \<not> (o_status ord = ACTIVE \<and> js_lower (o_offerer ord) = js_lower caller))
    | Inr s \<Rightarrow> \<exists>ord. order_by_hash h m = Some ord \<and> o_status ord = ACTIVE \<and> js_lower (o_offerer ord) = js_lower caller
        \<and> s = ord\<lparr>o_status := CANCELLED, o_updatedAt := me_now env\<rparr>
        \<and> mk_orders (fst (cancelOrder env h caller m)) = upsert o_id s (mk_orders m))"
proof (cases "order_by_hash h m")
  case None
  then show ?thesis by (simp add: cancelOrder_def with_order_eq)
next
  case (Some ord)
  show ?thesis
  proof (cases "o_status ord = ACTIVE \<and> js_lower (o_offerer ord) = js_lower caller")
    case True
    then have "cancelOrder env h caller m = saving (me_now env) (ord\<lparr>o_status := CANCELLED\<rparr>) (snd (attachListingDisplay ord m))"
      using Some by (simp add: cancelOrder_def with_order_eq)
    then show ?thesis
      using Some True by (simp add: saving_def save_order_def put_order_def touched_def)
  next
    case False
    then have "\<exists>e. cancelOrder env h caller m = (snd (attachListingDisplay ord m), Inl e)"
      using Some by (auto simp: cancelOrder_def with_order_eq)
    then show ?thesis using Some False by auto
  qed
qed

text \<open>The expiry cron closes exactly the active orders whose end time has passed: afterwards none
  is left, running it again changes nothing, and every other order is as before.\<close>
theorem expire_closes_overdue:
  "list_all (\<lambda>ord. \<not> (o_status ord = ACTIVE \<and> o_endTime ord < now)) (mk_orders (expireOrders now m))
   \<and> expireOrders now (expireOrders now m) = expireOrders now m
   \<and> list_all (\<lambda>ord. o_status ord = ACTIVE \<and> o_endTime ord < now \<or> ord \<in> set (mk_orders (expireOrders now m))) (mk_orders m)"
proof -
  let ?p = "\<lambda>ord. o_status ord = ACTIVE \<and> o_endTime ord < now"
  let ?f = "\<lambda>ord. if ?p ord then touched now (ord\<lparr>o_status := EXPIRED\<rparr>) else ord"
  have o: "mk_orders (expireOrders now m) = map ?f (mk_orders m)"
  proof (cases "filter ?p (mk_orders m) = []")
    case True
    then have "map ?f (mk_orders m) = mk_orders m"
      by (intro map_idI) (auto simp: filter_empty_conv)
    then show ?thesis using True by (simp add: expireOrders_def)
  qed (simp add: expireOrders_def update_status_def)
  have none: "\<not> ?p (?f x)" for x by (simp add: touched_def)
  have "list_all (\<lambda>ord. \<not> ?p ord) (map ?f (mk_orders m))"
    unfolding list.pred_map comp_def unfolding list_all_iff using none by blast
  then have 1: "list_all (\<lambda>ord. \<not> ?p ord) (mk_orders (expireOrders now m))" unfolding o .
  then have "filter ?p (mk_orders (expireOrders now m)) = []"
    by (auto simp: filter_empty_conv list_all_iff)
  then have 2: "expireOrders now (expireOrders now m) = expireOrders now m"
    by (simp add: expireOrders_def [of now "expireOrders now m"])
  have "x \<in> set (map ?f (mk_orders m))" if "x \<in> set (mk_orders m)" "\<not> ?p x" for x
    unfolding set_map by (rule rev_image_eqI [OF that(1)]) (simp only: that(2) if_False)
  then have "list_all (\<lambda>ord. ?p ord \<or> ord \<in> set (mk_orders (expireOrders now m))) (mk_orders m)"
    unfolding o list_all_iff by blast
  with 1 2 show ?thesis by blast
qed

section \<open>Two listings of one token\<close>

definition ask23 :: create_order_dto where
  "ask23 = ask_dto ''040'' [usdc_line seller ''1000000''] ''1000000'' ''23''"

text \<open>C37 The guard against a second listing compares the raw token id of the request with the
  normalised ids of the table: when the seller pads the id, a token can have two active listings
  in a market that the operations reach.\<close>
theorem padded_id_lists_twice:
  "\<exists>m. (market_step id shop_config)\<^sup>*\<^sup>* empty_market m
     \<and> length (filter (is_active_ask_of rwa_addr ''40'') (mk_orders m)) = 2"
proof (intro exI conjI)
  let ?m = "fst (createOrder (shop_env 5500 seller []) ask23 1 listed)"
  show "(market_step id shop_config)\<^sup>*\<^sup>* empty_market ?m"
    by (rule create_reach [OF listed_reach prod.collapse [symmetric]])
  show "length (filter (is_active_ask_of rwa_addr ''40'') (mk_orders ?m)) = 2" by code_simp
qed

end
