(* ===== verification/FillProperties.thy ===== *)
theory FillProperties
  imports OrderProperties
begin

text \<open>
  The properties of fulfilment: what the chain must say before an order is fulfilled, and what a
  fulfilled listing or a matched pair does to the other orders, to the owner index and to the
  settlement ledger.
\<close>

section \<open>The effects on the tables\<close>

lemma maybeCreate_orders [simp]:
  "mk_orders (maybeCreateSelfVaultSettlement env a w ch m) = mk_orders m"
  unfolding maybeCreateSelfVaultSettlement_def Let_def case_prod_beta
  by (auto split: sum.split)

lemma recordBuyer_tables [simp]:
  "mk_orders (recordBuyerOwnershipAfterSettle env tc tid w a m) = mk_orders m"
  "mk_ledger (recordBuyerOwnershipAfterSettle env tc tid w a m) = mk_ledger m"
  by (simp_all add: recordBuyerOwnershipAfterSettle_def Let_def)

lemma display_vault_only [simp]:
  "mk_ledger (snd (attachListingDisplay ord m)) = mk_ledger m"
  by (simp add: attachListingDisplay_def Let_def case_prod_beta)

lemma after_ask_orders:
  "mk_orders (after_ask_fill env s w ch m) = (case resolveFulfilledAskTokenId s of
      None \<Rightarrow> mk_orders m
    | Some tid \<Rightarrow> mk_orders (update_status (me_now env)
        (\<lambda>ord. is_active_ask_of (o_tokenContract s) tid ord \<and> o_id ord \<noteq> o_id s) CANCELLED m))"
  by (simp add: after_ask_fill_def Let_def split: option.split)

lemma save_order_orders: "mk_orders (save_order now s m) = upsert o_id (touched now s) (mk_orders m)"
  by (simp add: save_order_def put_order_def)

text \<open>After the siblings are cancelled, no ask of the token is active, the order that caused it is
  there, and orders that are not siblings are untouched.\<close>

lemma siblings_cancelled:
  assumes "s \<in> set (mk_orders m)" "o_status s \<noteq> ACTIVE" "distinct (map o_id (mk_orders m))"
    and "m' = update_status now (\<lambda>ord. is_active_ask_of tc tid ord \<and> o_id ord \<noteq> o_id s) CANCELLED m"
  shows "s \<in> set (mk_orders m') \<and> list_all (\<lambda>ord. \<not> is_active_ask_of tc tid ord) (mk_orders m')
    \<and> list_all (\<lambda>ord. is_active_ask_of tc tid ord \<or> ord \<in> set (mk_orders m')) (mk_orders m)"
proof -
  let ?p = "\<lambda>ord. is_active_ask_of tc tid ord \<and> o_id ord \<noteq> o_id s"
  let ?f = "\<lambda>ord. if ?p ord then touched now (ord\<lparr>o_status := CANCELLED\<rparr>) else ord"
  have o: "mk_orders m' = map ?f (mk_orders m)" by (simp add: assms(4) update_status_def)
  have same: "x \<in> set (mk_orders m')" if "x \<in> set (mk_orders m)" "\<not> ?p x" for x
    unfolding o set_map by (rule rev_image_eqI [OF that(1)]) (simp only: that(2) if_False)
  have none: "\<not> is_active_ask_of tc tid (?f x)" if "x \<in> set (mk_orders m)" for x
  proof (cases "?p x")
    case True
    then show ?thesis by (simp add: is_active_ask_of_def touched_def)
  next
    case False
    have "\<not> is_active_ask_of tc tid x"
    proof
      assume a: "is_active_ask_of tc tid x"
      then have "o_id x = o_id s" using False by blast
      then have "x = s" using assms(1,3) that by (metis find_key_member option.inject)
      then show False using a assms(2) by (simp add: is_active_ask_of_def)
    qed
    then show ?thesis by simp
  qed
  have "s \<in> set (mk_orders m')" by (rule same [OF assms(1)]) simp
  moreover have "list_all (\<lambda>ord. \<not> is_active_ask_of tc tid ord) (mk_orders m')"
    unfolding o list.pred_map comp_def unfolding list_all_iff using none by blast
  moreover have "list_all (\<lambda>ord. is_active_ask_of tc tid ord \<or> ord \<in> set (mk_orders m')) (mk_orders m)"
    unfolding list_all_iff using same by blast
  ultimately show ?thesis by blast
qed

section \<open>A fulfilment that is accepted\<close>

lemma fulfill_Inr:
  assumes "fulfillOrder env h w ch tx m = (m', Inr s)"
  obtains ord m1 where "order_by_hash h m = Some ord" "o_status ord = ACTIVE"
    "assertOrderSettledForFulfill (me_config env) (me_chain env) ord w
       (case ch of None \<Rightarrow> getDefaultChainId (me_config env) | Some i \<Rightarrow> i) = Inr ()"
    "check_bid_only_fill ord (snd (attachListingDisplay ord m)) = (m1, Inr ())"
    "s = touched (me_now env) (if o_side ord = ASK then mark_ask_filled w tx ord else mark_bid_filled ord)"
    "m' = (if \<not> isCriteriaCollectionBidOrder s \<and> o_side s = ASK
           then after_ask_fill env s w ch (save_order (me_now env) (mark_ask_filled w tx ord) m1)
           else if \<not> isCriteriaCollectionBidOrder s \<and> o_side s = BID \<and> cons_type (o_parameters s) = Some 2
           then after_bid_fill env s w (save_order (me_now env) (mark_bid_filled ord) m1)
           else save_order (me_now env) (if o_side ord = ASK then mark_ask_filled w tx ord else mark_bid_filled ord) m1)"
proof -
  from assms obtain ord where ord: "order_by_hash h m = Some ord"
    by (cases "order_by_hash h m") (simp_all add: fulfillOrder_def with_order_eq)
  let ?filled = "if o_side ord = ASK then mark_ask_filled w tx ord else mark_bid_filled ord"
  have act: "o_status ord = ACTIVE"
    using assms ord by (simp add: fulfillOrder_def with_order_eq split: if_splits)
  have run: "guarded (assertOrderSettledForFulfill (me_config env) (me_chain env) ord w
      (case ch of None \<Rightarrow> getDefaultChainId (me_config env) | Some i \<Rightarrow> i)) (\<lambda>_ m.
       and_then (check_bid_only_fill ord m) (\<lambda>_ m.
       and_then (saving (me_now env) ?filled m) (\<lambda>saved m.
         (if \<not> isCriteriaCollectionBidOrder saved \<and> o_side saved = ASK
          then after_ask_fill env saved w ch m
          else if \<not> isCriteriaCollectionBidOrder saved \<and> o_side saved = BID
                  \<and> cons_type (o_parameters saved) = Some 2
          then after_bid_fill env saved w m
          else m, Inr saved)))) (snd (attachListingDisplay ord m)) = (m', Inr s)"
    using assms ord act by (simp only: fulfillOrder_def with_order_eq option.case Let_def) simp
  then obtain u m1 v where settled: "assertOrderSettledForFulfill (me_config env) (me_chain env) ord w
      (case ch of None \<Rightarrow> getDefaultChainId (me_config env) | Some i \<Rightarrow> i) = Inr u"
    and chk: "check_bid_only_fill ord (snd (attachListingDisplay ord m)) = (m1, Inr v)"
    and rest: "and_then (saving (me_now env) ?filled m1) (\<lambda>saved m.
         (if \<not> isCriteriaCollectionBidOrder saved \<and> o_side saved = ASK
          then after_ask_fill env saved w ch m
          else if \<not> isCriteriaCollectionBidOrder saved \<and> o_side saved = BID
                  \<and> cons_type (o_parameters saved) = Some 2
          then after_bid_fill env saved w m
          else m, Inr saved)) = (m', Inr s)"
    unfolding guarded_Inr and_then_Inr by blast
  have s: "s = touched (me_now env) ?filled" using rest by (simp add: saving_def and_then_def)
  have side: "o_side s = o_side ord"
    unfolding s touched_simps using signed_fields(4) [OF signed_marks(3)] signed_fields(4) [OF signed_marks(4)] by simp
  show thesis
    by (rule that [OF ord act _ _ s])
       (use settled chk rest s side in \<open>auto simp: saving_def and_then_def\<close>)
qed

section \<open>What the chain must say\<close>

lemma filled_on_chain:
  "assertSeaportOrderFilledOnChain env ord = Inr u \<longleftrightarrow> isSeaportOrderFullyFilledOnChain env ord"
  by (auto simp: assertSeaportOrderFilledOnChain_def isSeaportOrderFullyFilledOnChain_def split: option.split)

lemma settled_evidence:
  assumes "assertOrderSettledForFulfill cfg env ord w ch = Inr u"
  shows "isSeaportOrderFullyFilledOnChain env ord
    \<or> o_side ord = ASK \<and> readOnChainRwaOwner cfg env (o_tokenContract ord) (o_tokenId ord) ch = Inr (trimmed_lower w)
      \<and> trimmed_lower w \<noteq> js_lower (js_trim (o_offerer ord))"
proof (cases "assertSeaportOrderFilledOnChain env ord")
  case (Inr v)
  then show ?thesis using filled_on_chain by blast
next
  case (Inl e)
  let ?w = "js_lower (js_trim (or_empty w))"
  have c: "is_bad_request e" "o_side ord = ASK" "?w \<noteq> []"
    using assms Inl by (simp_all add: assertOrderSettledForFulfill_def Let_def split: if_split_asm)
  then obtain owner where "readOnChainRwaOwner cfg env (o_tokenContract ord) (o_tokenId ord) ch = Inr owner"
    "owner = ?w \<and> owner \<noteq> js_lower (js_trim (o_offerer ord))"
    using assms Inl by (auto simp: assertOrderSettledForFulfill_def Let_def on_ok_eq_Inr split: if_split_asm)
  then show ?thesis unfolding trimmed_lower_def using c(2) by metis
qed

text \<open>C12 The fulfil request (fulfillOrder) fulfils an order only when the chain shows that it settled: the
  order was active, and either Seaport reports it completely filled, or it is a listing whose token is
  now owned by the named buyer, who is not the seller. The request for a matched pair
  (fulfillMatchedPair) and the reconciliation (reconcileOnChainFilledActiveOrders) go by evidence of
  their own and are not meant here.\<close>
theorem fulfilled_only_when_settled:
  assumes "fulfillOrder env h w ch tx m = (m', Inr s)"
  shows "\<exists>ord. order_by_hash h m = Some ord \<and> o_status ord = ACTIVE \<and> o_id s = o_id ord \<and> o_status s = FULFILLED
    \<and> (isSeaportOrderFullyFilledOnChain (me_chain env) ord
       \<or> o_side ord = ASK \<and> trimmed_lower w \<noteq> js_lower (js_trim (o_offerer ord))
         \<and> readOnChainRwaOwner (me_config env) (me_chain env) (o_tokenContract ord) (o_tokenId ord)
             (case ch of None \<Rightarrow> getDefaultChainId (me_config env) | Some i \<Rightarrow> i) = Inr (trimmed_lower w))"
proof -
  obtain ord m1 where f: "order_by_hash h m = Some ord" "o_status ord = ACTIVE"
    "assertOrderSettledForFulfill (me_config env) (me_chain env) ord w
       (case ch of None \<Rightarrow> getDefaultChainId (me_config env) | Some i \<Rightarrow> i) = Inr ()"
    "s = touched (me_now env) (if o_side ord = ASK then mark_ask_filled w tx ord else mark_bid_filled ord)"
    using assms by (rule fulfill_Inr)
  have "o_id s = o_id ord"
    unfolding f(4) touched_simps using signed_fields(1) [OF signed_marks(3)] signed_fields(1) [OF signed_marks(4)] by simp
  moreover have "o_status s = FULFILLED"
    unfolding f(4) by (simp add: mark_ask_filled_def mark_bid_filled_def Let_def)
  ultimately show ?thesis using f(1,2) settled_evidence [OF f(3)] by blast
qed

theorem fulfilled_only_when_settled_witness:
  "\<exists>s. snd (fulfillOrder (shop_env 6000 buyer [''0x17'']) ''0x17'' (Some buyer) (Some 1) None with_bid) = Inr s
     \<and> o_status s = FULFILLED"
  using fulfilled_only_when_settled [OF sold_result] unfolding sold_result snd_conv by blast

section \<open>A fulfilled listing\<close>

lemma mark_ask_side:
  assumes "s = touched now (mark_ask_filled w tx ord)"
  shows "o_side s = o_side ord" "o_id s = o_id ord" "o_status s = FULFILLED"
    "o_tokenContract s = o_tokenContract ord"
  using signed_fields(1,4,5) [OF signed_marks(3), of w tx ord]
  unfolding assms touched_simps by (auto simp: mark_ask_filled_def Let_def)

lemma check_bid_only_ledger [simp]: "mk_ledger (fst (check_bid_only_fill s m)) = mk_ledger m"
  by (simp add: check_bid_only_fill_def Let_def case_prod_beta)

text \<open>C15 Fulfilling a listing closes the token as its texts go: the order is stored as fulfilled, no
  listing stays active whose contract is the contract of the order, letter for letter, and whose token
  id is the id that the order resolves to (resolveFulfilledAskTokenId), digit for digit, and no other
  order changes. createOrder takes a contract in any casing and an id with leading zeros, so a listing
  of the token that is spelled in another way is not among them.\<close>
theorem fulfilled_listing_closes_token:
  assumes "(market_step k cfg)\<^sup>*\<^sup>* empty_market m"
    and ok: "fulfillOrder env h w ch tx m = (m', Inr s)" and ask: "o_side s = ASK"
    and tid: "resolveFulfilledAskTokenId s = Some tid"
  shows "s \<in> set (mk_orders m') \<and> o_status s = FULFILLED
    \<and> list_all (\<lambda>ord. \<not> is_active_ask_of (o_tokenContract s) tid ord) (mk_orders m')
    \<and> list_all (\<lambda>ord. o_orderHash ord = h \<or> is_active_ask_of (o_tokenContract s) tid ord
        \<or> ord \<in> set (mk_orders m')) (mk_orders m)"
proof -
  have wf: "book_wf m" using reachable_market [OF assms(1)] by (simp add: market_wf_def)
  obtain ord m1 where ord: "order_by_hash h m = Some ord"
    and m1: "check_bid_only_fill ord (snd (attachListingDisplay ord m)) = (m1, Inr ())"
    and s: "s = touched (me_now env) (if o_side ord = ASK then mark_ask_filled w tx ord else mark_bid_filled ord)"
    and m': "m' = (if \<not> isCriteriaCollectionBidOrder s \<and> o_side s = ASK
           then after_ask_fill env s w ch (save_order (me_now env) (mark_ask_filled w tx ord) m1)
           else if \<not> isCriteriaCollectionBidOrder s \<and> o_side s = BID \<and> cons_type (o_parameters s) = Some 2
           then after_bid_fill env s w (save_order (me_now env) (mark_bid_filled ord) m1)
           else save_order (me_now env) (if o_side ord = ASK then mark_ask_filled w tx ord else mark_bid_filled ord) m1)"
    using ok by (rule fulfill_Inr)
  have "o_side ord = ASK"
    using ask unfolding s touched_simps using signed_fields(4) [OF signed_marks(4), of ord] by (simp split: if_splits)
  then have s: "s = touched (me_now env) (mark_ask_filled w tx ord)" using s by simp
  note sf = mark_ask_side [OF s]
  let ?m2 = "save_order (me_now env) (mark_ask_filled w tx ord) m1"
  have o1: "mk_orders m1 = mk_orders m" using check_bid_only_orders [of ord "snd (attachListingDisplay ord m)"] m1 by simp
  have o2: "mk_orders ?m2 = upsert o_id s (mk_orders m)" unfolding save_order_orders o1 s ..
  have d: "distinct (map o_id (mk_orders m))" using wf by (simp add: book_wf_def)
  then have d2: "distinct (map o_id (mk_orders ?m2))" unfolding o2 by (rule distinct_upsert)
  have in2: "s \<in> set (mk_orders ?m2)" unfolding o2 by (rule upsert_member)
  have "m' = after_ask_fill env s w ch ?m2"
    using m' ask by (simp add: isCriteriaCollectionBidOrder_def)
  then have "mk_orders m' = mk_orders (update_status (me_now env)
      (\<lambda>ord. is_active_ask_of (o_tokenContract s) tid ord \<and> o_id ord \<noteq> o_id s) CANCELLED ?m2)"
    by (simp add: after_ask_orders tid)
  with siblings_cancelled [OF in2 _ d2 refl, of "me_now env" "o_tokenContract s" tid] sf(3)
  have r: "s \<in> set (mk_orders m')" "list_all (\<lambda>ord. \<not> is_active_ask_of (o_tokenContract s) tid ord) (mk_orders m')"
    "list_all (\<lambda>ord. is_active_ask_of (o_tokenContract s) tid ord \<or> ord \<in> set (mk_orders m')) (mk_orders ?m2)"
    by simp_all
  have "x \<in> set (mk_orders ?m2)" if "x \<in> set (mk_orders m)" "o_orderHash x \<noteq> h" for x
  proof -
    have "o_id x \<noteq> o_id s"
      using that order_by_hash_Some [OF ord] sf(2) d by (metis find_key_member option.inject)
    then show ?thesis unfolding o2 set_upsert [OF d] using that(1) by blast
  qed
  then show ?thesis using r sf(3) unfolding list_all_iff by blast
qed

theorem fulfilled_listing_closes_token_witness:
  "list_all (\<lambda>ord. \<not> is_active_ask_of rwa_addr ''40'' ord) (mk_orders sold)"
proof -
  have "o_side filled17 = ASK \<and> resolveFulfilledAskTokenId filled17 = Some ''40'' \<and> o_tokenContract filled17 = rwa_addr"
    by code_simp
  then show ?thesis using fulfilled_listing_closes_token [OF with_bid_reach sold_result] by simp
qed


section \<open>A sale that pays the platform in full\<close>

lemma maybeCreate_full:
  assumes "isFullPlatformTakeAsk (me_config env) (o_parameters a)"
  shows "mk_ledger (maybeCreateSelfVaultSettlement env a w ch m) =
    (case createFromFulfilledAsk (me_config env) (me_now env) a w
        (case ch of None \<Rightarrow> getDefaultChainId (me_config env) | Some i \<Rightarrow> i) None (mk_ledger m) of
      Inl e \<Rightarrow> mk_ledger m | Inr (row, lg) \<Rightarrow> lg)"
  using assms unfolding maybeCreateSelfVaultSettlement_def Let_def case_prod_beta
  by (auto split: sum.split)

lemma maybeCreate_split:
  assumes "\<not> isFullPlatformTakeAsk (me_config env) (o_parameters a)"
  shows "mk_ledger (maybeCreateSelfVaultSettlement env a w ch m) = mk_ledger m"
  using assms unfolding maybeCreateSelfVaultSettlement_def Let_def case_prod_beta by simp

lemma create_succeeds:
  assumes "js_trim (o_orderHash a) \<noteq> []" "is_hex_word 40 (js_lower (js_trim w))" "positive_decimal (resolveGrossMicros a)"
  obtains r lg' where "createFromFulfilledAsk cfg now a w ch tx lg = Inr (Some r, lg')" "r \<in> set (lg_rows lg')"
    "se_orderHash r = js_trim (o_orderHash a)"
    "r \<in> set (lg_rows lg) \<or> se_status r = pending_confirm \<and> se_sellerWallet r = js_lower (o_offerer a)
       \<and> se_buyerWallet r = js_lower (js_trim w) \<and> se_grossUsdc r = resolveGrossMicros a"
proof (cases "find_row (\<lambda>s. se_orderHash s = js_trim (o_orderHash a)) (lg_rows lg)")
  case (Some r)
  then have "createFromFulfilledAsk cfg now a w ch tx lg = Inr (Some r, lg)" using assms(1)
    by (simp add: createFromFulfilledAsk_def Let_def)
  then show thesis using that find_row_Some [OF Some] by blast
next
  case None
  obtain payout where p: "computeSellerPayoutMicros cfg (resolveGrossMicros a) = Inr payout"
    using assms(3) by (auto simp: computeSellerPayoutMicros_def positive_decimal_def split: option.splits)
  let ?r = "new_settlement (lg_next lg) now a (js_lower (js_trim w)) payout ch tx"
  have "createFromFulfilledAsk cfg now a w ch tx lg =
      Inr (Some ?r, save_settlement ?r (lg\<lparr>lg_next := lg_next lg + 1\<rparr>))"
    using assms None p by (simp add: createFromFulfilledAsk_def Let_def)
  then show thesis by (rule that) (simp_all add: save_settlement_def new_settlement_def)
qed

lemma after_ask_ledger:
  assumes "trimmed_lower w \<noteq> []"
  shows "\<exists>m1. mk_ledger m1 = mk_ledger m
    \<and> mk_ledger (after_ask_fill env s w ch m) = mk_ledger (maybeCreateSelfVaultSettlement env s (or_empty w) ch m1)"
proof -
  let ?m1 = "case resolveFulfilledAskTokenId s of None \<Rightarrow> m
    | Some tid \<Rightarrow> update_status (me_now env)
        (\<lambda>ord. is_active_ask_of (o_tokenContract s) tid ord \<and> o_id ord \<noteq> o_id s) CANCELLED m"
  have "mk_ledger ?m1 = mk_ledger m" by (simp split: option.split)
  moreover have "mk_ledger (after_ask_fill env s w ch m) = mk_ledger (maybeCreateSelfVaultSettlement env s (or_empty w) ch ?m1)"
    using assms by (simp add: after_ask_fill_def Let_def)
  ultimately show ?thesis by blast
qed

text \<open>C26 A sale whose signed consideration pays the platform in full is never forgotten: when it is
  fulfilled for a named buyer, the ledger has a settlement for its order hash, and unless there
  was one already it waits for the buyer's confirmation, owed to the seller by the sale's amount.\<close>
theorem platform_take_sale_is_owed:
  assumes ok: "fulfillOrder env h w ch tx m = (m', Inr s)" and ask: "o_side s = ASK"
    and full: "isFullPlatformTakeAsk (me_config env) (o_parameters s)"
    and buyer: "is_hex_word 40 (trimmed_lower w)"
    and gross: "positive_decimal (resolveGrossMicros s)" and hash: "js_trim (o_orderHash s) \<noteq> []"
  shows "\<exists>r. r \<in> set (lg_rows (mk_ledger m')) \<and> se_orderHash r = js_trim (o_orderHash s)
    \<and> (r \<in> set (lg_rows (mk_ledger m)) \<or> se_status r = pending_confirm \<and> se_sellerWallet r = js_lower (o_offerer s)
        \<and> se_buyerWallet r = trimmed_lower w \<and> se_grossUsdc r = resolveGrossMicros s)"
proof -
  obtain ord m1 where m1: "check_bid_only_fill ord (snd (attachListingDisplay ord m)) = (m1, Inr ())"
    and m': "m' = (if \<not> isCriteriaCollectionBidOrder s \<and> o_side s = ASK
           then after_ask_fill env s w ch (save_order (me_now env) (mark_ask_filled w tx ord) m1)
           else if \<not> isCriteriaCollectionBidOrder s \<and> o_side s = BID \<and> cons_type (o_parameters s) = Some 2
           then after_bid_fill env s w (save_order (me_now env) (mark_bid_filled ord) m1)
           else save_order (me_now env) (if o_side ord = ASK then mark_ask_filled w tx ord else mark_bid_filled ord) m1)"
    using ok by (rule fulfill_Inr)
  let ?m2 = "save_order (me_now env) (mark_ask_filled w tx ord) m1"
  have l2: "mk_ledger ?m2 = mk_ledger m"
    using check_bid_only_ledger [of ord "snd (attachListingDisplay ord m)"] m1 by simp
  have "m' = after_ask_fill env s w ch ?m2" using m' ask by (simp add: isCriteriaCollectionBidOrder_def)
  moreover have "trimmed_lower w \<noteq> []" using buyer by (auto simp: is_hex_word_def)
  ultimately obtain m3 where m3: "mk_ledger m3 = mk_ledger m"
    "mk_ledger m' = mk_ledger (maybeCreateSelfVaultSettlement env s (or_empty w) ch m3)"
    using after_ask_ledger [of w ?m2 env s ch] l2 by metis
  let ?ch = "case ch of None \<Rightarrow> getDefaultChainId (me_config env) | Some i \<Rightarrow> i"
  obtain r lg' where "createFromFulfilledAsk (me_config env) (me_now env) s (or_empty w) ?ch None (mk_ledger m) = Inr (Some r, lg')"
    and r: "r \<in> set (lg_rows lg')" "se_orderHash r = js_trim (o_orderHash s)"
    "r \<in> set (lg_rows (mk_ledger m)) \<or> se_status r = pending_confirm \<and> se_sellerWallet r = js_lower (o_offerer s)
       \<and> se_buyerWallet r = js_lower (js_trim (or_empty w)) \<and> se_grossUsdc r = resolveGrossMicros s"
    using create_succeeds [OF hash buyer [unfolded trimmed_lower_def] gross] by blast
  then have "mk_ledger m' = lg'" by (simp add: m3 maybeCreate_full [OF full])
  then show ?thesis using r unfolding trimmed_lower_def by blast
qed

definition ask21 :: create_order_dto where
  "ask21 = ask_dto ''40'' [usdc_line platform ''1000000''] ''1000000'' ''21''"

definition row21 :: order where
  "row21 = row_of 1 ''0x21'' (Some ''cards'') (stamp_policy (Some standard) (dto_parameters ask21)) ask21"

definition hold_listed :: market where
  "hold_listed = stocked\<lparr>mk_orders := [row21], mk_nextOrder := 2\<rparr>"

theorem platform_take_sale_is_owed_witness:
  "\<exists>r. r \<in> set (lg_rows (mk_ledger (fst (fulfillOrder (shop_env 6000 buyer [''0x21'']) ''0x21'' (Some buyer) (Some 1) None hold_listed))))
     \<and> se_status r = pending_confirm \<and> se_sellerWallet r = seller \<and> se_grossUsdc r = ''1000000''"
proof -
  let ?r = "fulfillOrder (shop_env 6000 buyer [''0x21'']) ''0x21'' (Some buyer) (Some 1) None hold_listed"
  have e: "(case snd ?r of Inl e \<Rightarrow> False | Inr s \<Rightarrow> o_side s = ASK \<and> isFullPlatformTakeAsk shop_config (o_parameters s)
      \<and> resolveGrossMicros s = ''1000000'' \<and> js_trim (o_orderHash s) \<noteq> [] \<and> js_lower (o_offerer s) = seller)
      \<and> is_hex_word 40 (trimmed_lower (Some buyer)) \<and> positive_decimal ''1000000'' \<and> lg_rows (mk_ledger hold_listed) = []"
    by code_simp
  then obtain s where s: "snd ?r = Inr s" "o_side s = ASK" "isFullPlatformTakeAsk shop_config (o_parameters s)"
    "resolveGrossMicros s = ''1000000''" "js_trim (o_orderHash s) \<noteq> []" "js_lower (o_offerer s) = seller"
    by (cases "snd ?r") auto
  have r: "?r = (fst ?r, Inr s)" using s(1) by (metis prod.collapse)
  from platform_take_sale_is_owed [OF r s(2)] s(3-6) e show ?thesis by auto
qed

text \<open>C36 A self-vault sale that was split on chain is owed a second time by the backfill: the sale
  itself creates no settlement, because the seller was paid by the signed consideration, but the
  backfill takes every fulfilled ask of a self-vault token and owes the seller the payout again.\<close>
theorem backfill_owes_split_sale_again:
  assumes "\<not> isFullPlatformTakeAsk (me_config env) (o_parameters a)"
    and "stored_policy (js_lower (o_tokenContract a), o_tokenId a) db = Some self_vault_hold"
    and "o_orderHash a \<noteq> []" "js_trim (o_orderHash a) = o_orderHash a" "positive_decimal (resolveGrossMicros a)"
    and b: "is_hex_word 40 (js_trim (or_empty (sk_filledByBuyer (sp_server (o_parameters a)))))"
      "js_lower (js_trim (or_empty (sk_filledByBuyer (sp_server (o_parameters a)))))
         = js_trim (or_empty (sk_filledByBuyer (sp_server (o_parameters a))))"
    and none: "find_row (\<lambda>s. se_orderHash s = o_orderHash a) (lg_rows (mk_ledger m)) = None"
  shows "mk_ledger (maybeCreateSelfVaultSettlement env a w ch m) = mk_ledger m
    \<and> (\<exists>r lg'. backfill_ask (me_config env) now None db holdings a (mk_ledger m) = Inr (Some r, lg')
        \<and> se_status r = pending_confirm \<and> se_sellerWallet r = js_lower (o_offerer a)
        \<and> se_grossUsdc r = resolveGrossMicros a \<and> r \<in> set (lg_rows lg'))"
proof -
  let ?lg = "mk_ledger m" and ?b = "js_trim (or_empty (sk_filledByBuyer (sp_server (o_parameters a))))"
  let ?ch = "case resolveChainIdFromRwaAddress (me_config env) (Some (o_tokenContract a)) of
      Some i \<Rightarrow> i | None \<Rightarrow> getDefaultChainId (me_config env)"
  have "?b \<noteq> []" using b(1) by (auto simp: is_hex_word_def)
  moreover have buyer: "backfill_buyer holdings a = ?b" using b by (simp add: backfill_buyer_def Let_def)
  moreover have "js_trim ?b = ?b" by simp
  ultimately have run: "backfill_ask (me_config env) now None db holdings a ?lg
      = createFromFulfilledAsk (me_config env) now a ?b ?ch None ?lg"
    using assms(2) none by (simp add: backfill_ask_def Let_def cong: option.case_cong)
  have hb: "is_hex_word 40 (js_lower (js_trim ?b))" using b by simp
  obtain r lg' where r: "createFromFulfilledAsk (me_config env) now a ?b ?ch None ?lg = Inr (Some r, lg')"
    "r \<in> set (lg_rows lg')" "se_orderHash r = js_trim (o_orderHash a)"
    "r \<in> set (lg_rows ?lg) \<or> se_status r = pending_confirm \<and> se_sellerWallet r = js_lower (o_offerer a)
       \<and> se_buyerWallet r = js_lower (js_trim ?b) \<and> se_grossUsdc r = resolveGrossMicros a"
    by (rule create_succeeds [OF _ hb assms(5)]) (use assms(3,4) in auto)
  have "r \<notin> set (lg_rows ?lg)" using none r(3) assms(4) by (auto simp: find_row_None)
  then show ?thesis using r run maybeCreate_split [OF assms(1)] by auto
qed

definition split_ask :: order where
  "split_ask = \<lparr>o_id = 1, o_orderHash = ''0x31'', o_offerer = seller, o_side = ASK, o_tokenContract = rwa_addr,
     o_tokenId = ''40'', o_collectionKey = Some ''cards'', o_considerationToken = usdc_addr,
     o_considerationAmount = ''1000000'',
     o_parameters = (dto_parameters (ask_dto ''40'' [usdc_line seller ''950000'', usdc_line platform ''50000''] ''1000000'' ''31''))
       \<lparr>sp_server := no_server_keys\<lparr>sk_filledByBuyer := Some buyer\<rparr>\<rparr>,
     o_signature = [], o_status = FULFILLED, o_startTime = 0, o_endTime = 86400000, o_createdAt = 0, o_updatedAt = 0\<rparr>"

definition hold_vault :: vault_db where
  "hold_vault = fst (recordMintResult id 7 (shop_mint\<lparr>mr_settlementPolicy := Some self_vault_hold\<rparr>) deposited)"

theorem backfill_owes_split_sale_again_witness:
  "\<exists>r lg'. backfill_ask shop_config 9 None hold_vault [] split_ask empty_ledger = Inr (Some r, lg')
     \<and> se_sellerWallet r = seller \<and> se_grossUsdc r = ''1000000''"
proof -
  let ?e = "shop_env 6000 buyer []"
  have c: "\<not> isFullPlatformTakeAsk (me_config ?e) (o_parameters split_ask)
    \<and> stored_policy (js_lower (o_tokenContract split_ask), o_tokenId split_ask) hold_vault = Some self_vault_hold
    \<and> o_orderHash split_ask \<noteq> [] \<and> js_trim (o_orderHash split_ask) = o_orderHash split_ask
    \<and> positive_decimal (resolveGrossMicros split_ask)
    \<and> is_hex_word 40 (js_trim (or_empty (sk_filledByBuyer (sp_server (o_parameters split_ask)))))
    \<and> js_lower (js_trim (or_empty (sk_filledByBuyer (sp_server (o_parameters split_ask)))))
         = js_trim (or_empty (sk_filledByBuyer (sp_server (o_parameters split_ask))))
    \<and> find_row (\<lambda>s. se_orderHash s = o_orderHash split_ask) (lg_rows (mk_ledger empty_market)) = None
    \<and> js_lower (o_offerer split_ask) = seller \<and> resolveGrossMicros split_ask = ''1000000''"
    by code_simp
  then obtain r lg' where "backfill_ask (me_config ?e) 9 None hold_vault [] split_ask (mk_ledger empty_market) = Inr (Some r, lg')"
    "se_sellerWallet r = js_lower (o_offerer split_ask)" "se_grossUsdc r = resolveGrossMicros split_ask"
    using backfill_owes_split_sale_again [of ?e split_ask hold_vault empty_market _ _ 9 "[]"] by blast
  moreover have "js_lower (o_offerer split_ask) = seller" "resolveGrossMicros split_ask = ''1000000''" using c by blast+
  ultimately show ?thesis by (simp add: empty_market_def)
qed


section \<open>A matched pair\<close>

lemma pair_Inr:
  assumes "fulfillMatchedPair env ah bh ch m = (m', Inr (a', b'))"
  obtains a b m1 where "order_by_hash ah m = Some a" "order_by_hash bh m = Some b" "mk_orders m1 = mk_orders m"
    "o_side a = ASK" "o_side b = BID" "o_status a = ACTIVE" "o_status b = ACTIVE" "check_pair a b = Inr ()"
    "settle_pair env ch a b m1 = (m', Inr (a', b'))"
proof -
  from assms obtain a where a: "order_by_hash ah m = Some a"
    by (cases "order_by_hash ah m") (simp_all add: fulfillMatchedPair_def with_order_eq)
  let ?m1 = "snd (attachListingDisplay a m)"
  have by_hash: "order_by_hash bh ?m1 = order_by_hash bh m" by (simp add: order_by_hash_def)
  from assms a obtain b where b: "order_by_hash bh m = Some b"
    by (cases "order_by_hash bh m") (simp_all add: fulfillMatchedPair_def with_order_eq by_hash)
  let ?m2 = "snd (attachListingDisplay b ?m1)"
  have run: "pair_body env ch a b ?m2 = (m', Inr (a', b'))"
    using assms a b by (simp add: fulfillMatchedPair_def with_order_eq by_hash)
  then have c: "o_side a = ASK" "o_side b = BID" "o_status a = ACTIVE" "o_status b = ACTIVE"
    by (simp_all add: pair_body_def split: if_split_asm)
  with run have p: "check_pair a b = Inr ()" "settle_pair env ch a b ?m2 = (m', Inr (a', b'))"
    by (auto simp: pair_body_def Let_def guarded_Inr)
  show thesis by (rule that [OF a b _ c p]) simp
qed

lemma check_pair_Inr:
  assumes "check_pair a b = Inr u"
  shows "\<exists>p q. js_BigInt (o_considerationAmount a) = Some p \<and> js_BigInt (o_considerationAmount b) = Some q \<and> p \<le> q"
    and "cons_type (o_parameters b) = Some 2 \<Longrightarrow> normalizeDecimalTokenId (o_tokenId a) = normalizeDecimalTokenId (o_tokenId b)"
  using assms by (auto simp: check_pair_def Let_def on_ok_eq_Inr split: if_split_asm option.split_asm)

lemma mark_pair_rows:
  "o_id (mark_pair_ask b a) = o_id a" "o_status (mark_pair_ask b a) = FULFILLED"
  "o_side (mark_pair_ask b a) = o_side a" "o_id (mark_pair_bid a b) = o_id b"
  "o_status (mark_pair_bid a b) = FULFILLED" "o_side (mark_pair_bid a b) = o_side b"
  "sk_filledByBuyer (sp_server (o_parameters (mark_pair_ask b a))) = Some (js_lower (js_trim (o_offerer b)))"
  by (simp_all add: mark_pair_ask_def mark_pair_bid_def)

lemma settle_pair_orders:
  assumes "settle_pair env ch a b m = (m', Inr (a', b'))"
  shows "a' = touched (me_now env) (mark_pair_ask b a) \<and> b' = touched (me_now env) (mark_pair_bid a b)
    \<and> mk_orders m' = mk_orders (update_status (me_now env)
        (\<lambda>ord. is_active_ask_of (o_tokenContract a') (o_tokenId a') ord \<and> o_id ord \<noteq> o_id a') CANCELLED
        (put_order b' (put_order a' m)))"
  using assms by (auto simp: settle_pair_def Let_def)

text \<open>C16 A matched pair closes both sides, and the token as its texts go: the listing and the bid were
  active, the bid offered at least the price of the listing and, when it names a token, that token;
  both are stored as fulfilled, the listing with the bidder as its buyer, and no listing stays active
  whose contract and token id are those of the filled one, character for character.\<close>
theorem matched_pair_closes_both:
  assumes "(market_step k cfg)\<^sup>*\<^sup>* empty_market m"
    and ok: "fulfillMatchedPair env ah bh ch m = (m', Inr (a', b'))"
  shows "\<exists>a b p q. order_by_hash ah m = Some a \<and> order_by_hash bh m = Some b
    \<and> o_side a = ASK \<and> o_side b = BID \<and> o_status a = ACTIVE \<and> o_status b = ACTIVE
    \<and> js_BigInt (o_considerationAmount a) = Some p \<and> js_BigInt (o_considerationAmount b) = Some q \<and> p \<le> q
    \<and> (cons_type (o_parameters b) \<noteq> Some 2 \<or> normalizeDecimalTokenId (o_tokenId a) = normalizeDecimalTokenId (o_tokenId b))
    \<and> {a', b'} \<subseteq> set (mk_orders m') \<and> o_status a' = FULFILLED \<and> o_status b' = FULFILLED
    \<and> sk_filledByBuyer (sp_server (o_parameters a')) = Some (js_lower (js_trim (o_offerer b)))
    \<and> list_all (\<lambda>ord. \<not> is_active_ask_of (o_tokenContract a') (o_tokenId a') ord) (mk_orders m')"
proof -
  have d: "distinct (map o_id (mk_orders m))"
    using reachable_market [OF assms(1)] by (simp add: market_wf_def book_wf_def)
  obtain a b m1 where ab: "order_by_hash ah m = Some a" "order_by_hash bh m = Some b" and o1: "mk_orders m1 = mk_orders m"
    and c: "o_side a = ASK" "o_side b = BID" "o_status a = ACTIVE" "o_status b = ACTIVE" and chk: "check_pair a b = Inr ()"
    and st: "settle_pair env ch a b m1 = (m', Inr (a', b'))"
    using ok by (rule pair_Inr)
  note e = settle_pair_orders [OF st]
  let ?m2 = "put_order b' (put_order a' m1)"
  have ids: "o_id a' = o_id a" "o_id b' = o_id b" "o_status a' = FULFILLED" "o_status b' = FULFILLED" "o_side b' = BID"
    "sk_filledByBuyer (sp_server (o_parameters a')) = Some (js_lower (js_trim (o_offerer b)))"
    using e c(2) mark_pair_rows by auto
  have "a \<in> set (mk_orders m)" "b \<in> set (mk_orders m)" "a \<noteq> b"
    using order_by_hash_Some [OF ab(1)] order_by_hash_Some [OF ab(2)] c by auto
  then have ne: "o_id a \<noteq> o_id b" using d by (metis find_key_member option.inject)
  have d1: "distinct (map o_id (mk_orders (put_order a' m1)))" and d2: "distinct (map o_id (mk_orders ?m2))"
    using d o1 by (simp_all add: put_order_def)
  have "a' \<in> set (mk_orders (put_order a' m1))" by (simp add: put_order_def)
  then have in2: "a' \<in> set (mk_orders ?m2)" "b' \<in> set (mk_orders ?m2)"
    using ne ids(1,2) set_upsert [OF d1] by (auto simp: put_order_def)
  have "\<not> is_active_ask_of (o_tokenContract a') (o_tokenId a') b'" using ids(4) by (simp add: is_active_ask_of_def)
  with siblings_cancelled [OF in2(1) _ d2 refl, of "me_now env" "o_tokenContract a'" "o_tokenId a'"] in2(2) ids(3) e
  have "a' \<in> set (mk_orders m')" "b' \<in> set (mk_orders m')"
    "list_all (\<lambda>ord. \<not> is_active_ask_of (o_tokenContract a') (o_tokenId a') ord) (mk_orders m')"
    by (simp_all add: list_all_iff) blast
  then show ?thesis using ab c ids(3,4,6) check_pair_Inr [OF chk] by blast
qed

definition ask19 :: create_order_dto where
  "ask19 = ask_dto ''40'' [usdc_line seller ''900000''] ''900000'' ''19''"

definition bid_first :: market where
  "bid_first = stocked\<lparr>mk_orders := [row_of 1 ''0x18'' (Some ''cards'') (dto_parameters bid18) bid18], mk_nextOrder := 2\<rparr>"

definition ask_after_bid :: market where
  "ask_after_bid = stocked\<lparr>mk_orders := [row_of 1 ''0x18'' (Some ''cards'') (dto_parameters bid18) bid18,
     row_of 2 ''0x19'' (Some ''cards'') (stamp_policy (Some standard) (dto_parameters ask19)) ask19], mk_nextOrder := 3\<rparr>"

lemma ask_after_bid_reach: "(market_step id shop_config)\<^sup>*\<^sup>* empty_market ask_after_bid"
proof -
  have "fst (createOrder (shop_env 5000 seller []) bid18 1 stocked) = bid_first" by code_simp
  then have 1: "(market_step id shop_config)\<^sup>*\<^sup>* empty_market bid_first"
    using create_reach [OF stocked_steps prod.collapse [symmetric]] by metis
  have "fst (createOrder (shop_env 5000 seller []) ask19 1 bid_first) = ask_after_bid" by code_simp
  then show ?thesis using create_reach [OF 1 prod.collapse [symmetric]] by metis
qed

theorem matched_pair_closes_both_witness:
  "list_all (\<lambda>ord. \<not> is_active_ask_of rwa_addr ''40'' ord)
     (mk_orders (fst (fulfillMatchedPair (shop_env 6000 buyer [''0x19'', ''0x18'']) ''0x19'' ''0x18'' (Some 1) ask_after_bid)))"
proof -
  let ?r = "fulfillMatchedPair (shop_env 6000 buyer [''0x19'', ''0x18'']) ''0x19'' ''0x18'' (Some 1) ask_after_bid"
  have "(case snd ?r of Inl e \<Rightarrow> False | Inr (a, b) \<Rightarrow> o_tokenContract a = rwa_addr \<and> o_tokenId a = ''40'')" by code_simp
  then obtain a b where r: "snd ?r = Inr (a, b)" "o_tokenContract a = rwa_addr" "o_tokenId a = ''40''"
    by (cases "snd ?r") (auto split: prod.splits)
  then have "?r = (fst ?r, Inr (a, b))" by (metis prod.collapse)
  from matched_pair_closes_both [OF ask_after_bid_reach this] r(2,3) show ?thesis by auto
qed

end
