(* ===== verification/MintRecovery.thy ===== *)
theory MintRecovery
  imports VaultProperties
begin

text \<open>
  vault/vault-mint-recovery.service.ts and getMintedTokenIdFromTx of
  blockchain/blockchain.service.ts: the job that finishes a mint whose process died between the
  confirmation on the chain and the write to the registry, and the reconciliation of a blocking
  cycle that a new mint of the same card asks for.

  The chain is an environment: the receipt of a transaction as the list of its parsed logs
  (None for a log that does not parse), and the two reads of a token. A call that throws is Inl.
\<close>

section \<open>String(n) of a JavaScript number\<close>

text \<open>
  The integral part and the digits of the fraction; a double has at most seventeen significant
  digits. Numbers of 10^21 and above, which print with an exponent, do not occur as token ids.
\<close>

fun frac_digits :: "nat \<Rightarrow> rat \<Rightarrow> string" where
  "frac_digits 0 x = []"
| "frac_digits (Suc n) x =
     (if x = 0 then [] else digit_char (nat \<lfloor>10 * x\<rfloor>) # frac_digits n (10 * x - of_int \<lfloor>10 * x\<rfloor>))"

definition number_str :: "rat \<Rightarrow> string" where
  "number_str x = (let a = \<bar>x\<bar>; f = a - of_int \<lfloor>a\<rfloor> in
     (if x < 0 then ''-'' else []) @ nat_str (nat \<lfloor>a\<rfloor>)
       @ (if f = 0 then [] else CHR ''.'' # frac_digits 17 f))"

lemma number_str_nat [simp]: "number_str (of_nat n) = nat_str n"
  by (simp add: number_str_def)

text \<open>Number(x) of a text that may be absent: Number(null) is 0 and Number(undefined) is NaN.\<close>

definition js_Number_null :: "string option \<Rightarrow> rat option" where
  "js_Number_null x = (case x of None \<Rightarrow> Some 0 | Some s \<Rightarrow> js_Number s)"

section \<open>The token a transaction minted\<close>

record mint_log =
  ml_name :: string
  ml_from :: string
  ml_tokenId :: nat

record recovery_env =
  re_config :: config
  re_keccak256 :: "string \<Rightarrow> string"
  re_now :: int
  re_receipt :: "string \<Rightarrow> nat \<Rightarrow> (mint_log option list) option result"
  re_tokenURI :: "rat \<Rightarrow> nat \<Rightarrow> string result"
  re_tokenOwner :: "rat \<Rightarrow> nat \<Rightarrow> string result"

definition zero_address :: string where
  "zero_address = ''0x0000000000000000000000000000000000000000''"

fun first_minted :: "mint_log option list \<Rightarrow> nat" where
  "first_minted [] = 0"
| "first_minted (None # ls) = first_minted ls"
| "first_minted (Some l # ls) =
     (if ml_name l = ''Transfer'' \<and> js_lower (ml_from l) = zero_address then ml_tokenId l
      else first_minted ls)"

definition getMintedTokenIdFromTx :: "recovery_env \<Rightarrow> string \<Rightarrow> nat \<Rightarrow> nat result" where
  "getMintedTokenIdFromTx env txHash chain =
     (let hash = js_trim txHash in
      if hash = [] \<or> \<not> is_hex_word_ci 64 hash then Inr 0
      else on_ok (re_receipt env hash chain) (\<lambda>receipt. case receipt of
          None \<Rightarrow> Inr 0
        | Some logs \<Rightarrow> Inr (first_minted logs)))"

section \<open>One cycle\<close>

definition STALE_NO_CHAIN_MS :: int where
  "STALE_NO_CHAIN_MS = 30 * 60000"

definition INTERACTIVE_MINTING_STALE_MS :: int where
  "INTERACTIVE_MINTING_STALE_MS = 90000"

definition INTERACTIVE_DEPOSIT_STALE_MS :: int where
  "INTERACTIVE_DEPOSIT_STALE_MS = 2 * 60000"

datatype heal_outcome = healed | heal_cancelled | heal_skip

text \<open>The token id: the recorded one, or else the one the recorded transaction minted; 0 is none.\<close>

definition heal_token_id :: "recovery_env \<Rightarrow> nat \<Rightarrow> vault_mint_attempt \<Rightarrow> rat result" where
  "heal_token_id env chain attempt =
     (let tokenIdNum = (case js_Number_null (ma_tokenId attempt) of
            None \<Rightarrow> 0
          | Some n \<Rightarrow> if n < 0 then 0 else n) in
      if tokenIdNum = 0 \<and> or_empty (ma_txHash attempt) \<noteq> []
      then on_ok (getMintedTokenIdFromTx env (or_empty (ma_txHash attempt)) chain) (\<lambda>n. Inr (of_nat n))
      else Inr tokenIdNum)"

definition heal_result ::
  "nat \<Rightarrow> vault_mint_attempt \<Rightarrow> string \<Rightarrow> rat \<Rightarrow> string \<Rightarrow> string \<Rightarrow> mint_result" where
  "heal_result cycleId attempt contract tokenIdNum tokenURI ownerWallet =
     \<lparr>mr_cycleId = cycleId, mr_tokenContract = contract, mr_tokenId = number_str tokenIdNum,
      mr_tokenURI = tokenURI,
      mr_txHash = (case trim_or_null (ma_txHash attempt) of
          None \<Rightarrow> ''recovery:'' @ nat_str cycleId | Some h \<Rightarrow> h),
      mr_certNumber = ma_certNumber attempt, mr_displayName = ma_displayName attempt,
      mr_displayImageUrl = ma_displayImageUrl attempt,
      mr_displayImageBackUrl = ma_displayImageBackUrl attempt,
      mr_settlementPolicy = Some (ma_settlementPolicy attempt),
      mr_vaultPartnerId = ma_vaultPartnerId attempt,
      mr_ownerWallet = Some ownerWallet, mr_collectionKey = None\<rparr>"

text \<open>The record the registry gets: the fallbacks to the chain, then the contract address.\<close>

definition heal_params ::
  "recovery_env \<Rightarrow> nat \<Rightarrow> nat \<Rightarrow> vault_mint_attempt \<Rightarrow> rat \<Rightarrow> mint_result result" where
  "heal_params env cycleId chain attempt tokenIdNum =
     (let uri = js_trim (ma_tokenURI attempt); own = js_lower (js_trim (ma_ownerWallet attempt)) in
      on_ok (if uri = [] then re_tokenURI env tokenIdNum chain else Inr uri) (\<lambda>tokenURI.
      on_ok (if own = [] then re_tokenOwner env tokenIdNum chain else Inr own) (\<lambda>ownerWallet.
      on_ok (getRwaAddress (re_config env) chain) (\<lambda>contract.
      Inr (heal_result cycleId attempt contract tokenIdNum tokenURI ownerWallet)))))"

definition healOne ::
  "recovery_env \<Rightarrow> nat \<Rightarrow> nat \<Rightarrow> vault_mint_attempt \<Rightarrow> int \<Rightarrow> vault_db \<Rightarrow>
   vault_db \<times> heal_outcome result" where
  "healOne env cycleId chainId attempt updatedAt db =
     (if chainId \<notin> set (listConfiguredChainIds (re_config env)) then (db, Inr heal_skip)
      else case heal_token_id env chainId attempt of
        Inl e \<Rightarrow> (db, Inl e)
      | Inr tokenIdNum \<Rightarrow>
          if tokenIdNum = 0
          then if re_now env - updatedAt \<ge> STALE_NO_CHAIN_MS
               then (cancelCycle (re_now env) cycleId db, Inr heal_cancelled)
               else (db, Inr heal_skip)
          else case heal_params env cycleId chainId attempt tokenIdNum of
            Inl e \<Rightarrow> (db, Inl e)
          | Inr p \<Rightarrow>
              let (db', r) = recordMintResult (re_keccak256 env) (re_now env) p db
              in (db', on_ok r (\<lambda>_. Inr healed)))"

section \<open>A blocking cycle, when a new mint of the card is asked for\<close>

definition reconcile_minting ::
  "recovery_env \<Rightarrow> vault_cycle \<Rightarrow> vault_db \<Rightarrow> vault_db \<times> bool result" where
  "reconcile_minting env cycle db =
     (let attempt = vc_mintAttempt cycle; age = re_now env - vc_updatedAt cycle;
          (db1, outcome) = (case attempt of
              Some a \<Rightarrow>
                if ma_tokenURI a \<noteq> [] \<and> ma_certNumber a \<noteq> []
                then healOne env (vc_id cycle) (vc_chainId cycle) a (vc_updatedAt cycle) db
                else (db, Inr heal_skip)
            | None \<Rightarrow> (db, Inr heal_skip));
          hasTx = trim_or_null (Option.bind attempt ma_txHash) \<noteq> None;
          hasTokenHint = trim_or_null (Option.bind attempt ma_tokenId) \<noteq> None
      in case outcome of
           Inl e \<Rightarrow> (db1, Inl e)
         | Inr healed \<Rightarrow> (db1, Inr True)
         | Inr heal_cancelled \<Rightarrow> (db1, Inr True)
         | Inr heal_skip \<Rightarrow>
             if \<not> hasTx \<and> \<not> hasTokenHint \<and> age \<ge> INTERACTIVE_MINTING_STALE_MS
             then (cancelCycle (re_now env) (vc_id cycle) db1, Inr True)
             else (db1, Inr False))"

definition reconcileBlockingOpenCycle ::
  "recovery_env \<Rightarrow> string \<Rightarrow> nat \<Rightarrow> vault_db \<Rightarrow> vault_db \<times> bool result" where
  "reconcileBlockingOpenCycle env certNumber chainId db =
     (case findOpenVaultCycleWithAsset certNumber chainId psa_graded db of
        None \<Rightarrow> (db, Inr False)
      | Some (cycle, asset) \<Rightarrow>
          if vc_status cycle = deposit_verified
          then if re_now env - vc_updatedAt cycle < INTERACTIVE_DEPOSIT_STALE_MS then (db, Inr False)
               else (cancelCycle (re_now env) (vc_id cycle) db, Inr True)
          else if vc_status cycle \<noteq> minting then (db, Inr False)
          else reconcile_minting env cycle db)"

section \<open>The pass over every minting cycle\<close>

text \<open>A row that throws is logged and the pass goes on; a pass that finds another running does nothing.\<close>

fun recover_rows ::
  "recovery_env \<Rightarrow> (vault_cycle \<times> vault_asset \<times> vault_mint_attempt) list \<Rightarrow> nat \<times> nat \<Rightarrow> vault_db \<Rightarrow>
   vault_db \<times> nat \<times> nat" where
  "recover_rows env [] counts db = (db, counts)"
| "recover_rows env ((cycle, asset, attempt) # rows) (h, c) db =
     (let (db', outcome) =
            healOne env (vc_id cycle) (vc_chainId cycle) attempt (vc_updatedAt cycle) db
      in recover_rows env rows
           (if outcome = Inr healed then h + 1 else h,
            if outcome = Inr heal_cancelled then c + 1 else c) db')"

definition recoverPass :: "recovery_env \<Rightarrow> bool \<Rightarrow> vault_db \<Rightarrow> vault_db \<times> nat \<times> nat" where
  "recoverPass env running db =
     (if running then (db, 0, 0)
      else recover_rows env (listMintingCyclesForRecovery 50 db) (0, 0) db)"

text \<open>onModuleInit: None when the job is switched off, else its interval in milliseconds.\<close>

definition recovery_interval :: "config \<Rightarrow> rat option" where
  "recovery_interval config =
     (let enabled = config ''VAULT_MINT_RECOVERY_ENABLED'' in
      if enabled = Some ''0'' \<or> enabled = Some ''false'' then None
      else case (case config ''VAULT_MINT_RECOVERY_POLL_MS'' of
          None \<Rightarrow> Some 60000 | Some s \<Rightarrow> js_Number s) of
        None \<Rightarrow> Some 60000
      | Some pollMs \<Rightarrow> Some (if 10000 \<le> pollMs then pollMs else 60000))"

section \<open>A pass is a sequence of operations of the vault\<close>

text \<open>healOne writes by cancelCycle or by recordMintResult, on the cycle it is given, or not at all.\<close>

lemma healOne_writes:
  obtains "fst (healOne env i ch a u db) = db"
  | "fst (healOne env i ch a u db) = cancelCycle (re_now env) i db"
  | p where "mr_cycleId p = i"
      "fst (healOne env i ch a u db) = fst (recordMintResult (re_keccak256 env) (re_now env) p db)"
proof -
  consider "ch \<notin> set (listConfiguredChainIds (re_config env))"
    | e where "heal_token_id env ch a = Inl e"
    | "heal_token_id env ch a = Inr 0"
    | n where "heal_token_id env ch a = Inr n" "n \<noteq> 0" "ch \<in> set (listConfiguredChainIds (re_config env))"
    by (cases "heal_token_id env ch a") auto
  then show thesis
  proof cases
    case (4 n)
    then show thesis
    proof (cases "heal_params env i ch a n")
      case (Inr p)
      then have "mr_cycleId p = i"
        by (auto simp: heal_params_def heal_result_def Let_def on_ok_eq_Inr split: if_splits)
      with 4 Inr that(3) show thesis by (simp add: healOne_def split_beta)
    qed (use that(1) in \<open>simp add: healOne_def\<close>)
  next
    case 3
    then have "fst (healOne env i ch a u db) = db
        \<or> fst (healOne env i ch a u db) = cancelCycle (re_now env) i db"
      by (simp add: healOne_def)
    then show thesis using that(1,2) by blast
  qed (use that(1) in \<open>simp_all add: healOne_def\<close>)
qed

lemma healOne_steps: "(vault_step (re_keccak256 env))\<^sup>*\<^sup>* db (fst (healOne env i ch a u db))"
proof (cases rule: healOne_writes [of env i ch a u db])
  case 2
  show ?thesis unfolding 2 by (rule r_into_rtranclp) (rule vault_step.cancel [OF refl])
next
  case (3 p)
  show ?thesis unfolding 3(2)
    by (rule r_into_rtranclp) (rule vault_step.record_mint [OF prod.collapse [symmetric]])
qed simp

lemma find_record_other:
  assumes "mr_cycleId p \<noteq> i"
  shows "find_cycle i (fst (recordMintResult k now p db)) = find_cycle i db"
  using record_cycles [OF prod.collapse [symmetric, of "recordMintResult k now p db"]]
proof cases
  case 1
  then show ?thesis by (simp add: find_cycle_def)
next
  case (2 c)
  have "find_cycle i (fst (recordMintResult k now p db))
      = find_cycle i (save_cycle now (c\<lparr>vc_status := minted, vc_mintAttempt := None\<rparr>) db)"
    using 2(3) by (simp add: find_cycle_def)
  then show ?thesis using assms find_cycle_Some [OF 2(1)] by (simp add: find_save_cycle)
qed

lemma healOne_other: "i \<noteq> j \<Longrightarrow> find_cycle i (fst (healOne env j ch a u db)) = find_cycle i db"
proof (cases rule: healOne_writes [of env j ch a u db])
  case 2
  assume "i \<noteq> j"
  then show ?thesis unfolding 2
    by (cases rule: cancelCycle_cases [of "re_now env" j db])
       (auto simp: find_save_cycle dest: find_cycle_Some)
next
  case (3 p)
  assume "i \<noteq> j"
  then show ?thesis unfolding 3(2) using 3(1) by (simp add: find_record_other)
qed simp

lemma recover_rows_steps:
  "(vault_step (re_keccak256 env))\<^sup>*\<^sup>* db (fst (recover_rows env rows counts db))"
proof (induction env rows counts db rule: recover_rows.induct)
  case (2 env cycle asset attempt rows h c db)
  show ?case
    using rtranclp_trans [OF healOne_steps 2 [OF refl prod.collapse]]
    by (simp add: split_beta)
qed simp

lemma recover_rows_other:
  "i \<notin> (vc_id \<circ> fst) ` set rows \<Longrightarrow> find_cycle i (fst (recover_rows env rows counts db)) = find_cycle i db"
proof (induction env rows counts db rule: recover_rows.induct)
  case (2 env cycle asset attempt rows h c db)
  have "find_cycle i (fst (recover_rows env ((cycle, asset, attempt) # rows) (h, c) db))
      = find_cycle i (fst (healOne env (vc_id cycle) (vc_chainId cycle) attempt (vc_updatedAt cycle) db))"
    using 2(1) [OF refl prod.collapse] 2(2) by (simp add: split_beta)
  then show ?case using 2(2) by (simp add: healOne_other)
qed simp

lemma recoverPass_steps: "(vault_step (re_keccak256 env))\<^sup>*\<^sup>* db (fst (recoverPass env running db))"
  by (simp add: recoverPass_def recover_rows_steps)

lemma reconcile_minting_steps:
  "(vault_step (re_keccak256 env))\<^sup>*\<^sup>* db (fst (reconcile_minting env c db))"
proof -
  define r where "r = (case vc_mintAttempt c of
      Some a \<Rightarrow> if ma_tokenURI a \<noteq> [] \<and> ma_certNumber a \<noteq> []
        then healOne env (vc_id c) (vc_chainId c) a (vc_updatedAt c) db else (db, Inr heal_skip)
    | None \<Rightarrow> (db, Inr heal_skip))"
  have 1: "(vault_step (re_keccak256 env))\<^sup>*\<^sup>* db (fst r)"
    by (auto simp: r_def healOne_steps split: option.split)
  have "fst (reconcile_minting env c db) = fst r
      \<or> fst (reconcile_minting env c db) = cancelCycle (re_now env) (vc_id c) (fst r)"
    unfolding reconcile_minting_def Let_def r_def [symmetric]
    by (cases r) (auto simp: Let_def split: sum.split heal_outcome.split)
  with 1 show ?thesis by (metis rtranclp.rtrancl_into_rtrancl vault_step.cancel)
qed

lemma reconcileBlocking_steps:
  "(vault_step (re_keccak256 env))\<^sup>*\<^sup>* db (fst (reconcileBlockingOpenCycle env cert ch db))"
  by (auto simp: reconcileBlockingOpenCycle_def reconcile_minting_steps
      intro: r_into_rtranclp vault_step.cancel split: option.split)

end
