(* ===== verification/SubmissionData.thy ===== *)
theory SubmissionData
  imports MintRecovery "HOL-Library.List_Lexorder"
begin

text \<open>
  The packages of cards that users ship to PSA (vault/vault-submission.service.ts): the entities
  VaultSubmission and VaultSubmissionItem and the two mail review tables, saving and finding
  them, public ids, and the view of a package that the controllers return.

  Generated uuids are numbers; se_uuid gives the text of one, in lower case, for the lookups by
  id. TypeORM writes nothing when a saved row equals the stored one, and otherwise sets
  updated_at. The users table is read for an e-mail address and a name only and is a parameter,
  as is the offset of the server's time zone.
\<close>

section \<open>Entities\<close>

datatype submission_status =
  sb_draft | awaiting_shipment | sb_in_transit | psa_reviewing | sb_completed | sb_cancelled

datatype item_status =
    it_draft | confirmed | it_in_transit | reviewing | approved | rejected | it_minting
  | it_completed | failed

record submission =
  sm_id :: nat
  sm_publicId :: string
  sm_userId :: string
  sm_chainId :: "nat option"
  sm_tokenContract :: "string option"
  sm_status :: submission_status
  sm_carrier :: "string option"
  sm_trackingNumber :: "string option"
  sm_shipDate :: "string option"
  sm_shippedAt :: "int option"
  sm_packingSlipDownloadedAt :: "int option"
  sm_arrivedAt :: "int option"
  sm_vaultedAt :: "int option"
  sm_createdAt :: int
  sm_updatedAt :: int

record submission_item =
  im_id :: nat
  im_submissionId :: nat
  im_certNumber :: string
  im_displayName :: "string option"
  im_cardNumber :: "string option"
  im_cardYear :: "string option"
  im_setName :: "string option"
  im_language :: "string option"
  im_variant :: "string option"
  im_grade :: "string option"
  im_imageUrl :: "string option"
  im_status :: item_status
  im_rejectionReason :: "string option"
  im_vaultCycleId :: "nat option"
  im_sortOrder :: nat
  im_updatedAt :: int

datatype review_via = rv_auto | rv_admin

datatype arrival_status = ar_pending | ar_confirmed | ar_dismissed

record arrival_review =
  ar_id :: nat
  ar_gmailMessageId :: string
  ar_subject :: "string option"
  ar_fromAddress :: "string option"
  ar_certs :: "string list"
  ar_matchedPublicIds :: "string list"
  ar_unmatchedCerts :: "string list"
  ar_ingestNote :: "string option"
  ar_status :: arrival_status
  ar_confirmedVia :: "review_via option"
  ar_skippedPublicIds :: "string list"
  ar_reviewedAt :: "int option"

datatype vaulted_status = vr_pending | vr_minted | vr_failed | vr_dismissed

record cert_mint_result =
  cm_cert :: string
  cm_itemId :: "nat option"
  cm_publicId :: "string option"
  cm_ok :: bool
  cm_tokenId :: "nat option"
  cm_error :: "string option"

record vaulted_review =
  vw_id :: nat
  vw_gmailMessageId :: string
  vw_subject :: "string option"
  vw_fromAddress :: "string option"
  vw_certs :: "string list"
  vw_matchedItemIds :: "nat list"
  vw_matchedPublicIds :: "string list"
  vw_unmatchedCerts :: "string list"
  vw_ingestNote :: "string option"
  vw_status :: vaulted_status
  vw_mintedVia :: "review_via option"
  vw_mintResults :: "cert_mint_result list"
  vw_errorSummary :: "string option"
  vw_reviewedAt :: "int option"

record submission_db =
  sd_subs :: "submission list"
  sd_items :: "submission_item list"
  sd_arrivals :: "arrival_review list"
  sd_vaulted :: "vaulted_review list"
  sd_next :: nat

record submission_env =
  se_config :: config
  se_now :: int
  se_tzOffset :: int
  se_uuid :: "nat \<Rightarrow> string"
  se_users :: "string \<Rightarrow> (string option \<times> string option) option"

section \<open>Saving rows\<close>

definition save_sub :: "int \<Rightarrow> submission \<Rightarrow> submission_db \<Rightarrow> submission_db" where
  "save_sub now s db = (if s \<in> set (sd_subs db) then db
     else db\<lparr>sd_subs := upsert sm_id (s\<lparr>sm_updatedAt := now\<rparr>) (sd_subs db)\<rparr>)"

definition save_item :: "int \<Rightarrow> submission_item \<Rightarrow> submission_db \<Rightarrow> submission_db" where
  "save_item now it db = (if it \<in> set (sd_items db) then db
     else db\<lparr>sd_items := upsert im_id (it\<lparr>im_updatedAt := now\<rparr>) (sd_items db)\<rparr>)"

definition save_arrival :: "arrival_review \<Rightarrow> submission_db \<Rightarrow> submission_db" where
  "save_arrival r db = db\<lparr>sd_arrivals := upsert ar_id r (sd_arrivals db)\<rparr>"

definition save_vaulted :: "vaulted_review \<Rightarrow> submission_db \<Rightarrow> submission_db" where
  "save_vaulted r db = db\<lparr>sd_vaulted := upsert vw_id r (sd_vaulted db)\<rparr>"

definition items_of :: "nat \<Rightarrow> submission_db \<Rightarrow> submission_item list" where
  "items_of i db = filter (\<lambda>it. im_submissionId it = i) (sd_items db)"

definition find_sub :: "nat \<Rightarrow> submission_db \<Rightarrow> submission option" where
  "find_sub i db = find_key sm_id i (sd_subs db)"

definition find_item :: "nat \<Rightarrow> submission_db \<Rightarrow> submission_item option" where
  "find_item i db = find_key im_id i (sd_items db)"

definition find_arrival :: "nat \<Rightarrow> submission_db \<Rightarrow> arrival_review option" where
  "find_arrival i db = find_key ar_id i (sd_arrivals db)"

definition find_vaulted :: "nat \<Rightarrow> submission_db \<Rightarrow> vaulted_review option" where
  "find_vaulted i db = find_key vw_id i (sd_vaulted db)"

text \<open>The unique constraints on public ids and on the certificates of one package.\<close>

definition uq_public_id :: "submission list \<Rightarrow> bool" where
  "uq_public_id t = unique_index sm_id sm_publicId (\<lambda>_. True) t"

definition uq_submission_cert :: "submission_item list \<Rightarrow> bool" where
  "uq_submission_cert t = unique_index im_id (\<lambda>i. (im_submissionId i, im_certNumber i)) (\<lambda>_. True) t"

interpretation arrival_repo: repository ar_id find_arrival save_arrival
  by unfold_locales (auto simp: find_arrival_def save_arrival_def table_simps dest: find_key_Some)

interpretation vaulted_repo: repository vw_id find_vaulted save_vaulted
  by unfold_locales (auto simp: find_vaulted_def save_vaulted_def table_simps dest: find_key_Some)

section \<open>Scope and lookup\<close>

definition submission_scope :: "submission_env \<Rightarrow> string option \<Rightarrow> (nat \<times> string) result" where
  "submission_scope env chainHeader =
     (let chainId = resolveChainId (se_config env) chainHeader in
      on_ok (getRwaAddress (se_config env) chainId) (\<lambda>tokenContract. Inr (chainId, tokenContract)))"

text \<open>The contract that chainId != null ? String(chainId) : undefined resolves to.\<close>

definition contract_of_chain :: "submission_env \<Rightarrow> nat option \<Rightarrow> string result" where
  "contract_of_chain env chainId =
     getRwaAddress (se_config env) (resolveChainId (se_config env) (map_option nat_str chainId))"

text \<open>The canonical form of a version 1 to 5 uuid, in either case.\<close>

definition uuid_pattern :: "(char \<Rightarrow> bool) list" where
  "uuid_pattern = (let hex = is_hex; dash = (\<lambda>c. c = CHR ''-'') in
     replicate 8 hex @ [dash] @ replicate 4 hex @ [dash]
     @ [\<lambda>c. c \<in> set ''12345''] @ replicate 3 hex @ [dash]
     @ [\<lambda>c. c \<in> set ''89abAB''] @ replicate 3 hex @ [dash] @ replicate 12 hex)"

definition uuid_like :: "string \<Rightarrow> bool" where
  "uuid_like key = (length key = length uuid_pattern \<and> list_all2 (\<lambda>p c. p c) uuid_pattern key)"

definition on_contract :: "string \<Rightarrow> submission \<Rightarrow> bool" where
  "on_contract tokenContract row = (js_lower (or_empty (sm_tokenContract row)) = tokenContract)"

definition submission_not_found :: http_exception where
  "submission_not_found = NotFoundException ''Submission not found''"

definition findOwned ::
  "submission_env \<Rightarrow> string \<Rightarrow> string \<Rightarrow> string option \<Rightarrow> submission_db \<Rightarrow> submission result" where
  "findOwned env userId idOrPublicId chainHeader db =
     (let key = js_trim idOrPublicId;
          byPublic = find_row (\<lambda>s. sm_publicId s = js_upper key \<and> sm_userId s = userId) (sd_subs db) in
      on_ok (submission_scope env chainHeader) (\<lambda>(chainId, tokenContract).
        case byPublic of
          Some s \<Rightarrow> check (on_contract tokenContract s) submission_not_found (Inr s)
        | None \<Rightarrow>
            if uuid_like key
            then (case find_row (\<lambda>s. se_uuid env (sm_id s) = js_lower key \<and> sm_userId s = userId)
                    (sd_subs db) of
                Some s \<Rightarrow> check (on_contract tokenContract s) submission_not_found (Inr s)
              | None \<Rightarrow> Inl submission_not_found)
            else Inl submission_not_found))"

definition findAny :: "submission_env \<Rightarrow> string \<Rightarrow> submission_db \<Rightarrow> submission result" where
  "findAny env idOrPublicId db =
     (let key = js_trim idOrPublicId in
      case find_row (\<lambda>s. sm_publicId s = js_upper key) (sd_subs db) of
        Some s \<Rightarrow> Inr s
      | None \<Rightarrow>
          if uuid_like key
          then (case find_row (\<lambda>s. se_uuid env (sm_id s) = js_lower key) (sd_subs db) of
              Some s \<Rightarrow> Inr s
            | None \<Rightarrow> Inl submission_not_found)
          else Inl submission_not_found)"

section \<open>Calendar dates\<close>

text \<open>
  Year, month and day of a time in milliseconds since 1970, in the proleptic Gregorian calendar
  of ECMAScript: whole days, then eras of 400 years that begin on the first of March.
\<close>

definition civil_date :: "int \<Rightarrow> int \<times> int \<times> int" where
  "civil_date ms =
     (let z = ms div 86400000 + 719468;
          era = z div 146097; doe = z mod 146097;
          yoe = (doe - doe div 1460 + doe div 36524 - doe div 146096) div 365;
          doy = doe - (365 * yoe + yoe div 4 - yoe div 100);
          mp = (5 * doy + 2) div 153;
          d = doy - (153 * mp + 2) div 5 + 1;
          m = (if mp < 10 then mp + 3 else mp - 9)
      in (yoe + era * 400 + (if m \<le> 2 then 1 else 0), m, d))"

definition pad_start :: "nat \<Rightarrow> string \<Rightarrow> string" where
  "pad_start n s = replicate (n - length s) (CHR ''0'') @ s"

text \<open>new Date().toISOString().slice(0, 10), for the years of four digits.\<close>

definition utc_date :: "int \<Rightarrow> string" where
  "utc_date now = (let (y, m, d) = civil_date now in
     pad_start 4 (int_str y) @ ''-'' @ pad_start 2 (nat_str (nat m)) @ ''-'' @ pad_start 2 (nat_str (nat d)))"

lemma civil_date_samples:
  "civil_date 0 = (1970, 1, 1)" "civil_date 951782400000 = (2000, 2, 29)"
  "civil_date 1767225599999 = (2025, 12, 31)" "civil_date 4107542400000 = (2100, 3, 1)"
  by code_simp+

section \<open>Public ids\<close>

definition public_id_prefix :: "submission_env \<Rightarrow> string" where
  "public_id_prefix env = (let (y, m, d) = civil_date (se_now env + se_tzOffset env) in
     ''SUB-'' @ int_str y @ pad_start 2 (nat_str (nat m)) @ pad_start 2 (nat_str (nat d)) @ ''-'')"

definition starts_with :: "string \<Rightarrow> string \<Rightarrow> bool" where
  "starts_with prefix s = (take (length prefix) s = prefix)"

definition last_public_id :: "string \<Rightarrow> submission_db \<Rightarrow> string option" where
  "last_public_id prefix db =
     latest_by id (filter (starts_with prefix) (map sm_publicId (sd_subs db)))"

text \<open>The transaction holds an advisory lock for the day, so two calls do not overlap.\<close>

definition nextDailyPublicId :: "submission_env \<Rightarrow> submission_db \<Rightarrow> string result" where
  "nextDailyPublicId env db =
     (let prefix = public_id_prefix env;
          last = js_trim (or_empty (last_public_id prefix db));
          next = (if starts_with prefix last
             then (case js_Number (drop (length prefix) last) of
                 None \<Rightarrow> 1
               | Some n \<Rightarrow> if 0 \<le> n then \<lfloor>n\<rfloor> + 1 else 1)
             else 1)
      in if next > 99999
         then Inl (InternalServerErrorException ''Daily vault submission id sequence exhausted (max 99999)'')
         else Inr (prefix @ pad_start 5 (int_str next)))"

section \<open>What the controllers return\<close>

datatype scenario = ScA | ScB | ScC | ScD | ScE | ScF | ScG | ScH

definition terminal_item :: "item_status \<Rightarrow> bool" where
  "terminal_item s = (s = it_completed \<or> s = rejected \<or> s = failed)"

definition resolveScenario :: "submission_status \<Rightarrow> item_status list \<Rightarrow> scenario" where
  "resolveScenario status statuses =
     (if status = sb_draft then ScA
      else if status = awaiting_shipment then ScB
      else if status = sb_in_transit then ScC
      else if status = sb_cancelled then ScA
      else if statuses = [] then
        (if status = psa_reviewing then ScD else if status = sb_completed then ScG else ScC)
      else if list_all terminal_item statuses then
        (let minted_count = length (filter (\<lambda>s. s = it_completed) statuses) in
         if minted_count = length statuses then ScG else if minted_count = 0 then ScF else ScH)
      else if failed \<in> set statuses \<and> it_completed \<in> set statuses then ScH
      else if list_all (\<lambda>s. s = approved \<or> s = it_completed \<or> s = it_minting) statuses then ScE
      else if list_ex (\<lambda>s. s = reviewing \<or> s = approved \<or> s = rejected) statuses then ScD
      else if status = psa_reviewing then ScD
      else if status = sb_completed then ScG
      else ScC)"

record submission_dto =
  sv_submission :: submission
  sv_scenario :: scenario
  sv_items :: "submission_item list"

text \<open>
  toDto: the columns of the package (dates are kept as times), its scenario, and its items in
  the order of their sort keys.
\<close>

definition toDto :: "submission \<Rightarrow> submission_db \<Rightarrow> submission_dto" where
  "toDto s db = (let its = order_asc im_sortOrder (items_of (sm_id s) db) in
     \<lparr>sv_submission = s, sv_scenario = resolveScenario (sm_status s) (map im_status its), sv_items = its\<rparr>)"

definition listForUser ::
  "submission_env \<Rightarrow> string \<Rightarrow> string option \<Rightarrow> submission_db \<Rightarrow> submission_dto list result" where
  "listForUser env userId chainHeader db =
     on_ok (submission_scope env chainHeader) (\<lambda>(chainId, tokenContract).
       Inr (map (\<lambda>s. toDto s db) (order_desc sm_updatedAt
         (filter (\<lambda>s. sm_userId s = userId \<and> sm_tokenContract s = Some tokenContract) (sd_subs db)))))"

definition getForUser ::
  "submission_env \<Rightarrow> string \<Rightarrow> string \<Rightarrow> string option \<Rightarrow> submission_db \<Rightarrow> submission_dto result" where
  "getForUser env userId idOrPublicId chainHeader db =
     on_ok (findOwned env userId idOrPublicId chainHeader db) (\<lambda>s. Inr (toDto s db))"

text \<open>adminGet adds the user's e-mail and name.\<close>

definition adminGet ::
  "submission_env \<Rightarrow> string \<Rightarrow> submission_db \<Rightarrow>
   (submission_dto \<times> string option \<times> string option) result" where
  "adminGet env idOrPublicId db =
     on_ok (findAny env idOrPublicId db) (\<lambda>s.
       let (email, name) = (case se_users env (sm_userId s) of None \<Rightarrow> (None, None) | Some u \<Rightarrow> u)
       in Inr (toDto s db, email, name))"

section \<open>Self vault against the shipping path\<close>

definition SELF_VAULT_BLOCKED_ITEM_STATUSES :: "item_status list" where
  "SELF_VAULT_BLOCKED_ITEM_STATUSES = [it_in_transit, reviewing, approved, it_minting]"

definition SELF_VAULT_BLOCKED_SUBMISSION_STATUSES :: "submission_status list" where
  "SELF_VAULT_BLOCKED_SUBMISSION_STATUSES = [sb_in_transit, psa_reviewing]"

definition isBlockedForSelfVault :: "submission_status \<Rightarrow> item_status \<Rightarrow> bool" where
  "isBlockedForSelfVault submissionStatus itemStatus =
     (if itemStatus = rejected \<or> itemStatus = failed \<or> itemStatus = it_completed then False
      else if itemStatus \<in> set SELF_VAULT_BLOCKED_ITEM_STATUSES then True
      else submissionStatus \<in> set SELF_VAULT_BLOCKED_SUBMISSION_STATUSES)"

text \<open>The items joined with their packages, in table order.\<close>

definition joined_items :: "submission_db \<Rightarrow> (submission_item \<times> submission) list" where
  "joined_items db = List.map_filter (\<lambda>it. case find_sub (im_submissionId it) db of
     None \<Rightarrow> None | Some s \<Rightarrow> Some (it, s)) (sd_items db)"

definition self_vault_blocked :: "string \<Rightarrow> string \<Rightarrow> submission_item \<times> submission \<Rightarrow> bool" where
  "self_vault_blocked cert tokenContract row = (case row of (it, s) \<Rightarrow>
     im_certNumber it = cert \<and> sm_status s \<noteq> sb_cancelled \<and> on_contract tokenContract s
     \<and> isBlockedForSelfVault (sm_status s) (im_status it))"

definition assertCertAvailableForSelfVault ::
  "submission_env \<Rightarrow> string \<Rightarrow> nat option \<Rightarrow> submission_db \<Rightarrow> unit result" where
  "assertCertAvailableForSelfVault env certNumber chainId db =
     (let cert = normalizeCert certNumber in
      if cert = [] then Inl (BadRequestException ''certNumber is required'')
      else on_ok (contract_of_chain env chainId) (\<lambda>tokenContract.
        case List.find (self_vault_blocked cert tokenContract) (joined_items db) of
          None \<Rightarrow> Inr ()
        | Some hit \<Rightarrow> Inl (BadRequestException
            ''PSA cert is already in PSA vault shipment. Self vault mint is not allowed while the card is in transit or at PSA.'')))"

end
