(* ===== verification/SubmissionOps.thy ===== *)
theory SubmissionOps
  imports SubmissionData "HOL-Library.Sublist"
begin

text \<open>
  The operations of vault/vault-submission.service.ts on packages: the shipping package of the
  sell flow, tracking, cancelling, the link between an item and the vault cycle of its mint, and
  the operations of the administrator. An operation that runs in one transaction, or writes last,
  returns a result with the new tables; the others return the tables beside the result.
\<close>

section \<open>The shipping package\<close>

record card_dto =
  cd_cert :: string
  cd_name :: string
  cd_grade :: nat
  cd_img :: "string option"
  cd_confirmed :: bool
  cd_cardNumber :: "string option"
  cd_year :: "string option"
  cd_setName :: "string option"
  cd_language :: "string option"
  cd_variant :: "string option"

definition url_scheme :: "string \<Rightarrow> bool" where
  "url_scheme t = (starts_with ''http://'' (js_lower t) \<or> starts_with ''https://'' (js_lower t))"

definition normalizeVaultSubmissionImageUrl :: "string option \<Rightarrow> string option" where
  "normalizeVaultSubmissionImageUrl raw = (case trim_or_null raw of
      None \<Rightarrow> None
    | Some t \<Rightarrow>
        if starts_with ''data:'' (js_lower t) then None
        else if \<not> url_scheme t then None
        else if length t > 2048 then None
        else Some t)"

definition cardToItem :: "int \<Rightarrow> nat \<Rightarrow> nat \<Rightarrow> card_dto \<Rightarrow> nat \<Rightarrow> submission_item" where
  "cardToItem now itemId submissionId c sortOrder =
     \<lparr>im_id = itemId, im_submissionId = submissionId, im_certNumber = normalizeCert (cd_cert c),
      im_displayName = non_empty (js_trim (cd_name c)),
      im_cardNumber = trim_or_null (cd_cardNumber c), im_cardYear = trim_or_null (cd_year c),
      im_setName = trim_or_null (cd_setName c), im_language = trim_or_null (cd_language c),
      im_variant = trim_or_null (cd_variant c), im_grade = Some (''PSA '' @ nat_str (cd_grade c)),
      im_imageUrl = normalizeVaultSubmissionImageUrl (cd_img c),
      im_status = (if cd_confirmed c then confirmed else it_draft), im_rejectionReason = None,
      im_vaultCycleId = None, im_sortOrder = sortOrder, im_updatedAt = now\<rparr>"

text \<open>The package an upsert writes to: the named one when it is open and on the contract, else the
  latest awaiting shipment, else the latest legacy draft.\<close>

definition open_for_upsert :: "string \<Rightarrow> submission \<Rightarrow> bool" where
  "open_for_upsert tokenContract s =
     ((sm_status s = sb_draft \<or> sm_status s = awaiting_shipment) \<and> on_contract tokenContract s)"

definition latest_of_user ::
  "string \<Rightarrow> submission_status \<Rightarrow> string \<Rightarrow> submission_db \<Rightarrow> submission option" where
  "latest_of_user userId status tokenContract db =
     latest_by sm_updatedAt (filter (\<lambda>s. sm_userId s = userId \<and> sm_status s = status
       \<and> on_contract tokenContract s) (sd_subs db))"

definition package_for_upsert ::
  "string \<Rightarrow> string option \<Rightarrow> string \<Rightarrow> submission_db \<Rightarrow> submission option" where
  "package_for_upsert userId publicId tokenContract db =
     (let named = (case trim_or_null publicId of
            None \<Rightarrow> None
          | Some p \<Rightarrow> (case find_row (\<lambda>s. sm_publicId s = js_upper p \<and> sm_userId s = userId) (sd_subs db) of
                None \<Rightarrow> None
              | Some s \<Rightarrow> if open_for_upsert tokenContract s then Some s else None))
      in case named of
           Some s \<Rightarrow> Some s
         | None \<Rightarrow> (case latest_of_user userId awaiting_shipment tokenContract db of
               Some s \<Rightarrow> Some s
             | None \<Rightarrow> latest_of_user userId sb_draft tokenContract db))"

definition new_package ::
  "submission_env \<Rightarrow> string \<Rightarrow> string \<Rightarrow> nat \<Rightarrow> string \<Rightarrow> submission_db \<Rightarrow> submission" where
  "new_package env publicId userId chainId tokenContract db =
     \<lparr>sm_id = sd_next db, sm_publicId = publicId, sm_userId = userId, sm_chainId = Some chainId,
      sm_tokenContract = Some tokenContract, sm_status = awaiting_shipment, sm_carrier = None,
      sm_trackingNumber = None, sm_shipDate = None, sm_shippedAt = None,
      sm_packingSlipDownloadedAt = None, sm_arrivedAt = None, sm_vaultedAt = None,
      sm_createdAt = se_now env, sm_updatedAt = se_now env\<rparr>"

definition open_package ::
  "submission_env \<Rightarrow> string \<Rightarrow> string option \<Rightarrow> nat \<Rightarrow> string \<Rightarrow> submission_db \<Rightarrow>
   (submission \<times> submission_db) result" where
  "open_package env userId publicId chainId tokenContract db =
     (case package_for_upsert userId publicId tokenContract db of
        Some s \<Rightarrow> Inr (s, db)
      | None \<Rightarrow> on_ok (nextDailyPublicId env db) (\<lambda>pid.
          let s = new_package env pid userId chainId tokenContract db;
              db' = db\<lparr>sd_subs := sd_subs db @ [s], sd_next := sd_next db + 1\<rparr>
          in if uq_public_id (sd_subs db') then Inr (s, db') else Inl unique_violation))"

definition items_from_cards :: "int \<Rightarrow> nat \<Rightarrow> nat \<Rightarrow> card_dto list \<Rightarrow> submission_item list" where
  "items_from_cards now first submissionId cards =
     map (\<lambda>(i, c). cardToItem now (first + i) submissionId c i) (enumerate 0 cards)"

definition replace_items :: "int \<Rightarrow> nat \<Rightarrow> card_dto list \<Rightarrow> submission_db \<Rightarrow> submission_db result" where
  "replace_items now submissionId cards db =
     (let kept = filter (\<lambda>it. im_submissionId it \<noteq> submissionId) (sd_items db);
          t = kept @ items_from_cards now (sd_next db) submissionId cards
      in if uq_submission_cert t
         then Inr (db\<lparr>sd_items := t, sd_next := sd_next db + length cards\<rparr>)
         else Inl unique_violation)"

definition upsertDraft ::
  "submission_env \<Rightarrow> string \<Rightarrow> string option \<Rightarrow> card_dto list \<Rightarrow> string option \<Rightarrow> submission_db \<Rightarrow>
   (submission_dto \<times> submission_db) result" where
  "upsertDraft env userId publicId cards chainHeader db =
     check (cards \<noteq> [])
       (BadRequestException ''Add at least one confirmed card before saving the shipping package'')
     (check (list_all cd_confirmed cards)
       (BadRequestException ''Confirm every card before saving the shipping package'')
     (on_ok (submission_scope env chainHeader) (\<lambda>(chainId, tokenContract).
      on_ok (open_package env userId publicId chainId tokenContract db) (\<lambda>(s, db1).
      on_ok (replace_items (se_now env) (sm_id s) cards db1) (\<lambda>db2.
        let s' = (if sm_status s = sb_draft \<or> sm_status s = awaiting_shipment
              then s\<lparr>sm_status := awaiting_shipment, sm_updatedAt := se_now env\<rparr> else s);
            db3 = db2\<lparr>sd_subs := upsert sm_id s' (sd_subs db2)\<rparr>
        in Inr (toDto s' db3, db3))))))"

section \<open>The owner's operations on a package\<close>

definition markPackingSlipDownloaded ::
  "submission_env \<Rightarrow> string \<Rightarrow> string \<Rightarrow> string option \<Rightarrow> submission_db \<Rightarrow>
   submission_db result" where
  "markPackingSlipDownloaded env userId idOrPublicId chainHeader db =
     on_ok (findOwned env userId idOrPublicId chainHeader db) (\<lambda>s. Inr (
       if sm_packingSlipDownloadedAt s = None
       then save_sub (se_now env) (s\<lparr>sm_packingSlipDownloadedAt := Some (se_now env)\<rparr>) db
       else db))"

definition cancelPreShipPackage ::
  "submission_env \<Rightarrow> string \<Rightarrow> string \<Rightarrow> string option \<Rightarrow> submission_db \<Rightarrow> submission_db result" where
  "cancelPreShipPackage env userId idOrPublicId chainHeader db =
     on_ok (findOwned env userId idOrPublicId chainHeader db) (\<lambda>s.
     check (sm_status s = sb_draft \<or> sm_status s = awaiting_shipment)
       (BadRequestException ''Cannot remove this package in its status. Contact support if you need help after shipping.'')
     (check (trim_or_null (sm_trackingNumber s) = None)
       (BadRequestException ''This package already has tracking. Contact support to cancel.'')
     (Inr (save_sub (se_now env) (s\<lparr>sm_status := sb_cancelled\<rparr>) db))))"

definition lists_cert :: "string \<Rightarrow> submission_db \<Rightarrow> submission \<Rightarrow> bool" where
  "lists_cert cert db s = list_ex (\<lambda>it. im_certNumber it = cert) (items_of (sm_id s) db)"

definition cancelPreShipPackagesForCert ::
  "submission_env \<Rightarrow> string \<Rightarrow> nat option \<Rightarrow> submission_db \<Rightarrow> (nat \<times> submission_db) result" where
  "cancelPreShipPackagesForCert env certNumber chainId db =
     (let cert = normalizeCert certNumber in
      if cert = [] then Inr (0, db)
      else on_ok (contract_of_chain env chainId) (\<lambda>tokenContract.
        let rows = filter (\<lambda>s. lists_cert cert db s \<and> open_for_upsert tokenContract s) (sd_subs db)
        in Inr (length rows,
             fold (\<lambda>s. save_sub (se_now env) (s\<lparr>sm_status := sb_cancelled\<rparr>)) rows db)))"

section \<open>Tracking\<close>

text \<open>The loop over the items stops at the first certificate that already has an open cycle.\<close>

fun certs_available :: "vault_db \<Rightarrow> nat \<Rightarrow> submission_item list \<Rightarrow> unit result" where
  "certs_available vdb chainId [] = Inr ()"
| "certs_available vdb chainId (it # its) =
     (let cert = normalizeCert (im_certNumber it) in
      if cert = [] then certs_available vdb chainId its
      else case checkAvailableForNewCycle cert chainId psa_graded vdb of (available, c, message) \<Rightarrow>
        if \<not> available
        then Inl (BadRequestException (case message of
            Some m \<Rightarrow> m
          | None \<Rightarrow> ''PSA cert is already minted on this network. Remove this package from Sell and start again if needed.''))
        else certs_available vdb chainId its)"

definition shipped :: "submission_env \<Rightarrow> string \<Rightarrow> string \<Rightarrow> string option \<Rightarrow> submission \<Rightarrow> submission" where
  "shipped env carrier trackingNumber shipDate s =
     (let cleaned = js_upper (filter (\<lambda>c. \<not> is_ws c) trackingNumber);
          isEdit = (sm_status s = sb_in_transit \<and> trim_or_null (sm_trackingNumber s) \<noteq> None)
      in s\<lparr>sm_carrier := Some carrier, sm_trackingNumber := Some cleaned,
           sm_shipDate := Some (case shipDate of
               Some d \<Rightarrow> d
             | None \<Rightarrow> if isEdit \<and> or_empty (sm_shipDate s) \<noteq> [] then or_empty (sm_shipDate s)
                 else utc_date (se_now env)),
           sm_shippedAt := (if \<not> isEdit \<or> sm_shippedAt s = None then Some (se_now env) else sm_shippedAt s),
           sm_status := sb_in_transit,
           sm_packingSlipDownloadedAt := (if sm_packingSlipDownloadedAt s = None
             then Some (se_now env) else sm_packingSlipDownloadedAt s)\<rparr>)"

text \<open>Every loaded item that satisfies p is saved with the new status.\<close>

definition set_items ::
  "int \<Rightarrow> (item_status \<Rightarrow> bool) \<Rightarrow> item_status \<Rightarrow> submission_item list \<Rightarrow> submission_db \<Rightarrow> submission_db" where
  "set_items now p status its db =
     fold (\<lambda>it db. if p (im_status it) then save_item now (it\<lparr>im_status := status\<rparr>) db else db) its db"

definition registerTracking ::
  "submission_env \<Rightarrow> vault_db \<Rightarrow> string \<Rightarrow> string \<Rightarrow> string \<Rightarrow> string \<Rightarrow> string option \<Rightarrow> string option \<Rightarrow>
   submission_db \<Rightarrow> submission_db result" where
  "registerTracking env vdb userId idOrPublicId carrier trackingNumber shipDate chainHeader db =
     on_ok (findOwned env userId idOrPublicId chainHeader db) (\<lambda>s.
     check (sm_status s = sb_draft \<or> sm_status s = awaiting_shipment \<or> sm_status s = sb_in_transit)
       (BadRequestException ''Cannot register tracking in this status'')
     (let its = items_of (sm_id s) db in
     check (its \<noteq> []) (BadRequestException ''Add at least one confirmed card before shipping'')
     (check (list_all (\<lambda>it. im_status it = confirmed \<or> im_status it = it_in_transit) its)
       (BadRequestException ''Confirm all cards before registering tracking'')
     (on_ok (submission_scope env chainHeader) (\<lambda>(chainId, tokenContract).
      on_ok (certs_available vdb chainId its) (\<lambda>_.
        Inr (set_items (se_now env) (\<lambda>st. st = confirmed) it_in_transit its
          (save_sub (se_now env) (shipped env carrier trackingNumber shipDate s) db))))))))"

section \<open>The link to the mint\<close>

text \<open>
  The item of a package that shipped, in the package of the user that was updated last. The row
  is of the join, so of two items the first in table order comes first.
\<close>

definition attachable :: "string \<Rightarrow> string \<Rightarrow> string \<Rightarrow> submission_item \<times> submission \<Rightarrow> bool" where
  "attachable userId cert tokenContract row = (case row of (it, s) \<Rightarrow>
     sm_userId s = userId \<and> im_certNumber it = cert
     \<and> (sm_status s = sb_in_transit \<or> sm_status s = psa_reviewing)
     \<and> \<not> terminal_item (im_status it) \<and> on_contract tokenContract s)"

definition arrived :: "int \<Rightarrow> submission \<Rightarrow> submission" where
  "arrived now s = s\<lparr>sm_status := psa_reviewing,
     sm_arrivedAt := (if sm_arrivedAt s = None then Some now else sm_arrivedAt s)\<rparr>"

definition attach_item :: "int \<Rightarrow> nat \<Rightarrow> submission_item \<Rightarrow> submission_db \<Rightarrow> submission_db" where
  "attach_item now cycleId it db =
     (let db1 = save_item now (it\<lparr>im_vaultCycleId := Some cycleId, im_status := it_minting\<rparr>) db in
      case find_sub (im_submissionId it) db1 of
        None \<Rightarrow> db1
      | Some s \<Rightarrow> if sm_status s = sb_in_transit then save_sub now (arrived now s) db1 else db1)"

definition attachCycleForCert ::
  "submission_env \<Rightarrow> string \<Rightarrow> string \<Rightarrow> nat \<Rightarrow> nat option \<Rightarrow> submission_db \<Rightarrow>
   (bool \<times> submission_db) result" where
  "attachCycleForCert env userId certNumber cycleId chainId db =
     (let cert = normalizeCert certNumber;
          chain = (case chainId of None \<Rightarrow> getDefaultChainId (se_config env) | Some i \<Rightarrow> i) in
      on_ok (getRwaAddress (se_config env) chain) (\<lambda>tokenContract.
        case latest_by (\<lambda>r. sm_updatedAt (snd r))
               (filter (attachable userId cert tokenContract) (joined_items db)) of
          None \<Rightarrow> Inr (False, db)
        | Some row \<Rightarrow> Inr (True, attach_item (se_now env) cycleId (fst row) db)))"

definition finished_item :: "item_status \<Rightarrow> bool" where
  "finished_item s = (s = it_completed \<or> s = rejected)"

definition markItemCompletedForCycle ::
  "submission_env \<Rightarrow> nat \<Rightarrow> submission_db \<Rightarrow> bool \<times> submission_db" where
  "markItemCompletedForCycle env cycleId db =
     (case find_row (\<lambda>it. im_vaultCycleId it = Some cycleId) (sd_items db) of
        None \<Rightarrow> (False, db)
      | Some it \<Rightarrow>
          let db1 = save_item (se_now env) (it\<lparr>im_status := it_completed\<rparr>) db in
          case find_sub (im_submissionId it) db1 of
            None \<Rightarrow> (True, db1)
          | Some s \<Rightarrow> (True,
              if list_all (\<lambda>i. finished_item (im_status i)) (items_of (sm_id s) db1)
              then save_sub (se_now env) (s\<lparr>sm_status := sb_completed,
                sm_vaultedAt := (if sm_vaultedAt s = None then Some (se_now env) else sm_vaultedAt s)\<rparr>) db1
              else db1))"

section \<open>The administrator\<close>

definition awaits_mint :: "submission_item \<Rightarrow> bool" where
  "awaits_mint it = (im_status it = reviewing \<or> im_status it = approved)"

definition mint_queue_hay ::
  "submission_env \<Rightarrow> submission_item \<times> submission \<Rightarrow> string" where
  "mint_queue_hay env row = (case row of (it, s) \<Rightarrow>
     let (email, name) = (case se_users env (sm_userId s) of None \<Rightarrow> (None, None) | Some u \<Rightarrow> u) in
     js_lower (sm_publicId s @ '' '' @ im_certNumber it @ '' '' @ or_empty (im_displayName it)
       @ '' '' @ or_empty email @ '' '' @ or_empty name))"

definition listAdminMintQueue ::
  "submission_env \<Rightarrow> string option \<Rightarrow> string option \<Rightarrow> submission_db \<Rightarrow>
   (submission_item \<times> submission) list result" where
  "listAdminMintQueue env q chainHeader db =
     on_ok (submission_scope env chainHeader) (\<lambda>(chainId, tokenContract).
       let packages = take 200 (order_desc sm_updatedAt (filter (\<lambda>s. sm_status s = psa_reviewing
             \<and> sm_tokenContract s = Some tokenContract) (sd_subs db)));
           its = take 200 (order_desc im_updatedAt (order_asc im_sortOrder (filter (\<lambda>it.
             im_submissionId it \<in> set (map sm_id packages) \<and> awaits_mint it) (sd_items db))));
           needle = js_lower (js_trim (or_empty q));
           rows = List.map_filter (\<lambda>it. map_option (\<lambda>s. (it, s))
             (find_key sm_id (im_submissionId it) packages)) its
       in Inr (if needle = [] then rows
               else filter (\<lambda>row. sublist needle (mint_queue_hay env row)) rows))"

definition status_count :: "string \<Rightarrow> submission_status \<Rightarrow> submission_db \<Rightarrow> nat" where
  "status_count tokenContract status db =
     length (filter (\<lambda>s. on_contract tokenContract s \<and> sm_status s = status) (sd_subs db))"

text \<open>adminCounts: the count of every status, in the order of the literal, and their sum.\<close>

definition adminCounts ::
  "submission_env \<Rightarrow> string option \<Rightarrow> submission_db \<Rightarrow> (nat \<times> (submission_status \<times> nat) list) result" where
  "adminCounts env chainHeader db =
     on_ok (submission_scope env chainHeader) (\<lambda>(chainId, tokenContract).
       let counts = map (\<lambda>st. (st, status_count tokenContract st db))
             [sb_draft, awaiting_shipment, sb_in_transit, psa_reviewing, sb_completed, sb_cancelled]
       in Inr (sum_list (map snd counts), counts))"

text \<open>What adminMarkArrived does with the package it found; the notification is left out.\<close>

definition mark_arrived :: "int \<Rightarrow> submission \<Rightarrow> submission_db \<Rightarrow> submission_db result" where
  "mark_arrived now s db =
     check (sm_status s = sb_in_transit \<or> sm_status s = awaiting_shipment)
       (BadRequestException ''Can only mark arrived from in_transit/awaiting_shipment'')
     (Inr (set_items now (\<lambda>st. st = it_in_transit \<or> st = confirmed) reviewing (items_of (sm_id s) db)
       (save_sub now (arrived now s) db)))"

definition adminMarkArrived :: "submission_env \<Rightarrow> string \<Rightarrow> submission_db \<Rightarrow> submission_db result" where
  "adminMarkArrived env idOrPublicId db =
     on_ok (findAny env idOrPublicId db) (\<lambda>s. mark_arrived (se_now env) s db)"

definition adminSetSubmissionStatus ::
  "submission_env \<Rightarrow> string \<Rightarrow> submission_status \<Rightarrow> submission_db \<Rightarrow> submission_db result" where
  "adminSetSubmissionStatus env idOrPublicId status db =
     on_ok (findAny env idOrPublicId db) (\<lambda>s. Inr (save_sub (se_now env) (s\<lparr>sm_status := status\<rparr>) db))"

definition with_item_status :: "item_status \<Rightarrow> string option \<Rightarrow> submission_item \<Rightarrow> submission_item" where
  "with_item_status status rejectionReason it =
     (let it' = it\<lparr>im_status := status\<rparr> in
      if status = rejected
      then it'\<lparr>im_rejectionReason := Some (case trim_or_null rejectionReason of
          Some r \<Rightarrow> r | None \<Rightarrow> ''Does not meet requirements'')\<rparr>
      else if rejectionReason = Some [] then it'\<lparr>im_rejectionReason := None\<rparr> else it')"

text \<open>The package follows the outcomes of its cards.\<close>

definition sync_package :: "int \<Rightarrow> submission \<Rightarrow> submission_db \<Rightarrow> submission_db" where
  "sync_package now s db =
     (let statuses = map im_status (items_of (sm_id s) db) in
      if statuses \<noteq> [] \<and> list_all finished_item statuses
      then save_sub now (s\<lparr>sm_status := sb_completed,
        sm_vaultedAt := (if it_completed \<in> set statuses \<and> sm_vaultedAt s = None then Some now
          else sm_vaultedAt s)\<rparr>) db
      else if list_ex (\<lambda>st. st = reviewing \<or> st = approved \<or> st = rejected) statuses
          \<and> (sm_status s = sb_in_transit \<or> sm_status s = awaiting_shipment)
      then save_sub now (arrived now s) db
      else db)"

definition adminSetItemStatus ::
  "submission_env \<Rightarrow> string \<Rightarrow> nat \<Rightarrow> item_status \<Rightarrow> string option \<Rightarrow> submission_db \<Rightarrow>
   submission_db result" where
  "adminSetItemStatus env idOrPublicId itemId status rejectionReason db =
     on_ok (findAny env idOrPublicId db) (\<lambda>s.
       case find_row (\<lambda>it. im_id it = itemId) (items_of (sm_id s) db) of
         None \<Rightarrow> Inl (NotFoundException ''Item not found'')
       | Some it \<Rightarrow>
           let db1 = save_item (se_now env) (with_item_status status rejectionReason it) db
           in case find_sub (sm_id s) db1 of
                None \<Rightarrow> Inl submission_not_found
              | Some refreshed \<Rightarrow> Inr (sync_package (se_now env) refreshed db1))"

end
