(* ===== verification/SubmissionMail.thy ===== *)
theory SubmissionMail
  imports SubmissionOps
begin

text \<open>
  The mails of PSA in vault/vault-submission.service.ts: matching the certificates of a mail to
  packages and items, the review of an arrival mail (queued, confirmed by the poll or by an
  administrator, dismissed), and the review of a vaulted mail with the outcome of its mints.
\<close>

section \<open>Certificates of a mail\<close>

definition cert_like :: "string \<Rightarrow> bool" where
  "cert_like c = (list_all is_digit c \<and> 7 \<le> length c \<and> length c \<le> 10)"

definition mail_certs :: "string list \<Rightarrow> string list" where
  "mail_certs certs = js_unique (filter cert_like (map normalizeCert certs))"

definition configured_contracts :: "submission_env \<Rightarrow> string list result" where
  "configured_contracts env =
     fold (\<lambda>i r. on_ok r (\<lambda>cs. on_ok (getRwaAddress (se_config env) i) (\<lambda>c. Inr (cs @ [c]))))
       (listConfiguredChainIds (se_config env)) (Inr [])"

record package_match =
  pm_matchedCerts :: "string list"
  pm_unmatchedCerts :: "string list"
  pm_packages :: "submission list"

definition open_to_arrive :: "string list \<Rightarrow> string list \<Rightarrow> submission_item \<times> submission \<Rightarrow> bool" where
  "open_to_arrive certs contracts row = (case row of (it, s) \<Rightarrow>
     im_certNumber it \<in> set certs
     \<and> (sm_status s = sb_in_transit \<or> sm_status s = awaiting_shipment)
     \<and> js_lower (or_empty (sm_tokenContract s)) \<in> set contracts)"

text \<open>findOpenPackagesByCerts; a package is listed once, where its first item is.\<close>

definition findOpenPackagesByCerts ::
  "submission_env \<Rightarrow> string list \<Rightarrow> submission_db \<Rightarrow> package_match result" where
  "findOpenPackagesByCerts env certs db =
     (let normalized = mail_certs certs in
      if normalized = [] then Inr \<lparr>pm_matchedCerts = [], pm_unmatchedCerts = [], pm_packages = []\<rparr>
      else on_ok (configured_contracts env) (\<lambda>contracts.
        if contracts = []
        then Inr \<lparr>pm_matchedCerts = [], pm_unmatchedCerts = normalized, pm_packages = []\<rparr>
        else
          let rows = filter (open_to_arrive normalized contracts) (joined_items db);
              matchedCerts = js_unique (map (\<lambda>(it, s). js_upper (im_certNumber it)) rows)
          in Inr \<lparr>pm_matchedCerts = matchedCerts,
                  pm_unmatchedCerts = filter (\<lambda>c. c \<notin> set matchedCerts) normalized,
                  pm_packages = js_unique (map snd rows)\<rparr>))"

section \<open>Arrival mails\<close>

text \<open>
  Each matched package is loaded again and marked; one that throws is skipped. The result lists
  the public ids marked and the public ids skipped.
\<close>

fun mark_packages ::
  "int \<Rightarrow> submission list \<Rightarrow> submission_db \<Rightarrow> submission_db \<times> string list \<times> string list" where
  "mark_packages now [] db = (db, [], [])"
| "mark_packages now (p # ps) db =
     (case (case find_sub (sm_id p) db of None \<Rightarrow> Inl submission_not_found | Some s \<Rightarrow> mark_arrived now s db) of
        Inl e \<Rightarrow> (let (db', ok, skip) = mark_packages now ps db in (db', ok, sm_publicId p # skip))
      | Inr db1 \<Rightarrow> (let (db', ok, skip) = mark_packages now ps db1 in (db', sm_publicId p # ok, skip)))"

text \<open>The packages are marked before the automatic path can throw, so the tables come back too.\<close>

definition applyPsaArrivalConfirm ::
  "submission_env \<Rightarrow> nat \<Rightarrow> review_via \<Rightarrow> submission_db \<Rightarrow>
   submission_db \<times> (string list \<times> string list) result" where
  "applyPsaArrivalConfirm env reviewId via db =
     (case find_arrival reviewId db of
        None \<Rightarrow> (db, Inl (NotFoundException ''Arrival review not found''))
      | Some review \<Rightarrow>
          if ar_status review \<noteq> ar_pending then (db, Inl (BadRequestException ''Review is already decided''))
          else case findOpenPackagesByCerts env (ar_certs review) db of
            Inl e \<Rightarrow> (db, Inl e)
          | Inr match \<Rightarrow>
              let (db1, marked, skipped) = mark_packages (se_now env) (pm_packages match) db in
              if via = rv_auto \<and> marked = []
              then (db1, Inl (BadRequestException ''Auto-confirm found no packages to mark arrived''))
              else (save_arrival (review\<lparr>ar_status := ar_confirmed, ar_confirmedVia := Some via,
                      ar_reviewedAt := Some (se_now env), ar_skippedPublicIds := skipped,
                      ar_matchedPublicIds := js_unique (ar_matchedPublicIds review @ marked),
                      ar_unmatchedCerts := pm_unmatchedCerts match\<rparr>) db1,
                    Inr (marked, skipped)))"

definition isAutoConfirmEnabled :: "submission_env \<Rightarrow> bool" where
  "isAutoConfirmEnabled env =
     (let v = map_option js_trim (se_config env ''PSA_RECEIVED_MAIL_AUTO_CONFIRM'')
      in v \<noteq> Some ''0'' \<and> v \<noteq> Some ''false'')"

datatype auto_confirm =
    ac_confirmed | ac_disabled | ac_not_found | ac_already | ac_incomplete | ac_no_packages | ac_failed

text \<open>The search for packages runs outside the try, so what it throws comes out.\<close>

definition maybeAutoConfirmPsaArrivalReview ::
  "submission_env \<Rightarrow> nat \<Rightarrow> submission_db \<Rightarrow> submission_db \<times> auto_confirm result" where
  "maybeAutoConfirmPsaArrivalReview env reviewId db =
     (if \<not> isAutoConfirmEnabled env then (db, Inr ac_disabled)
      else case find_arrival reviewId db of
        None \<Rightarrow> (db, Inr ac_not_found)
      | Some review \<Rightarrow>
          if ar_status review \<noteq> ar_pending then (db, Inr ac_already)
          else if or_empty (ar_ingestNote review) \<noteq> [] then (db, Inr ac_incomplete)
          else case findOpenPackagesByCerts env (ar_certs review) db of
            Inl e \<Rightarrow> (db, Inl e)
          | Inr match \<Rightarrow>
              if pm_packages match = [] then (db, Inr ac_no_packages)
              else (case applyPsaArrivalConfirm env reviewId rv_auto db of
                  (db', Inl e) \<Rightarrow> (db', Inr ac_failed)
                | (db', Inr _) \<Rightarrow> (db', Inr ac_confirmed)))"

record mail_input =
  mi_gmailMessageId :: string
  mi_subject :: "string option"
  mi_fromAddress :: "string option"
  mi_certs :: "string list"
  mi_ingestNote :: "string option"
  mi_autoConfirmEligible :: bool

definition new_arrival :: "mail_input \<Rightarrow> package_match \<Rightarrow> nat \<Rightarrow> arrival_review" where
  "new_arrival input match i =
     \<lparr>ar_id = i, ar_gmailMessageId = mi_gmailMessageId input, ar_subject = mi_subject input,
      ar_fromAddress = mi_fromAddress input, ar_certs = mail_certs (mi_certs input),
      ar_matchedPublicIds = map sm_publicId (pm_packages match),
      ar_unmatchedCerts = pm_unmatchedCerts match, ar_ingestNote = trim_or_null (mi_ingestNote input),
      ar_status = ar_pending, ar_confirmedVia = None, ar_skippedPublicIds = [], ar_reviewedAt = None\<rparr>"

definition auto_confirm_if ::
  "submission_env \<Rightarrow> bool \<Rightarrow> nat \<Rightarrow> submission_db \<Rightarrow> submission_db \<times> unit result" where
  "auto_confirm_if env eligible reviewId db =
     (if eligible
      then let (db', r) = maybeAutoConfirmPsaArrivalReview env reviewId db in (db', on_ok r (\<lambda>_. Inr ()))
      else (db, Inr ()))"

definition enqueuePsaArrivalReview ::
  "submission_env \<Rightarrow> mail_input \<Rightarrow> submission_db \<Rightarrow> submission_db \<times> nat result" where
  "enqueuePsaArrivalReview env input db =
     (case find_row (\<lambda>r. ar_gmailMessageId r = mi_gmailMessageId input) (sd_arrivals db) of
        Some existing \<Rightarrow>
          let (db', r) = auto_confirm_if env
                (ar_status existing = ar_pending \<and> mi_autoConfirmEligible input) (ar_id existing) db
          in (db', on_ok r (\<lambda>_. Inr (ar_id existing)))
      | None \<Rightarrow>
          (case findOpenPackagesByCerts env (mi_certs input) db of
             Inl e \<Rightarrow> (db, Inl e)
           | Inr match \<Rightarrow>
               let i = sd_next db;
                   db1 = save_arrival (new_arrival input match i) (db\<lparr>sd_next := i + 1\<rparr>);
                   (db', r) = auto_confirm_if env (mi_autoConfirmEligible input) i db1
               in (db', on_ok r (\<lambda>_. Inr i))))"

definition dismissPsaArrivalReview ::
  "submission_env \<Rightarrow> nat \<Rightarrow> submission_db \<Rightarrow> submission_db result" where
  "dismissPsaArrivalReview env reviewId db =
     (case find_arrival reviewId db of
        None \<Rightarrow> Inl (NotFoundException ''Arrival review not found'')
      | Some review \<Rightarrow>
          check (ar_status review = ar_pending) (BadRequestException ''Review is already decided'')
          (Inr (save_arrival (review\<lparr>ar_status := ar_dismissed, ar_reviewedAt := Some (se_now env)\<rparr>) db)))"

text \<open>markArrivedByCerts: the certificates matched and not, and the packages marked and skipped.\<close>

definition markArrivedByCerts ::
  "submission_env \<Rightarrow> string list \<Rightarrow> submission_db \<Rightarrow>
   (string list \<times> string list \<times> string list \<times> string list \<times> submission_db) result" where
  "markArrivedByCerts env certs db =
     on_ok (findOpenPackagesByCerts env certs db) (\<lambda>match.
       let (db', marked, skipped) = mark_packages (se_now env) (pm_packages match) db
       in Inr (pm_matchedCerts match, pm_unmatchedCerts match, marked, skipped, db'))"

section \<open>Vaulted mails\<close>

definition in_mint_queue :: "string list \<Rightarrow> submission_item \<times> submission \<Rightarrow> bool" where
  "in_mint_queue certs row = (case row of (it, s) \<Rightarrow>
     im_certNumber it \<in> set certs \<and> sm_status s = psa_reviewing \<and> awaits_mint it
     \<and> im_vaultCycleId it = None)"

text \<open>findMintQueueItemsByCerts: the certificates matched, those not, and the rows.\<close>

definition findMintQueueItemsByCerts ::
  "string list \<Rightarrow> submission_db \<Rightarrow> string list \<times> string list \<times> (submission_item \<times> submission) list" where
  "findMintQueueItemsByCerts certs db =
     (let normalized = mail_certs certs in
      if normalized = [] then ([], [], [])
      else
        let rows = filter (in_mint_queue normalized) (joined_items db);
            matchedCerts = js_unique (map (\<lambda>(it, s). js_upper (im_certNumber it)) rows)
        in (matchedCerts, filter (\<lambda>c. c \<notin> set matchedCerts) normalized, rows))"

definition enqueuePsaVaultedReview :: "mail_input \<Rightarrow> submission_db \<Rightarrow> submission_db \<times> vaulted_review" where
  "enqueuePsaVaultedReview input db =
     (case find_row (\<lambda>r. vw_gmailMessageId r = mi_gmailMessageId input) (sd_vaulted db) of
        Some existing \<Rightarrow> (db, existing)
      | None \<Rightarrow>
          let (matchedCerts, unmatchedCerts, rows) = findMintQueueItemsByCerts (mi_certs input) db;
              row = \<lparr>vw_id = sd_next db, vw_gmailMessageId = mi_gmailMessageId input,
                vw_subject = mi_subject input, vw_fromAddress = mi_fromAddress input,
                vw_certs = (if mi_certs input \<noteq> [] then mail_certs (mi_certs input) else matchedCerts),
                vw_matchedItemIds = map (\<lambda>(it, s). im_id it) rows,
                vw_matchedPublicIds = js_unique (filter (\<lambda>p. p \<noteq> []) (map (\<lambda>(it, s). sm_publicId s) rows)),
                vw_unmatchedCerts = unmatchedCerts, vw_ingestNote = trim_or_null (mi_ingestNote input),
                vw_status = vr_pending, vw_mintedVia = None, vw_mintResults = [],
                vw_errorSummary = None, vw_reviewedAt = None\<rparr>
          in (save_vaulted row (db\<lparr>sd_next := sd_next db + 1\<rparr>), row))"

definition dismissPsaVaultedReview ::
  "submission_env \<Rightarrow> nat \<Rightarrow> submission_db \<Rightarrow> submission_db result" where
  "dismissPsaVaultedReview env reviewId db =
     (case find_vaulted reviewId db of
        None \<Rightarrow> Inl (NotFoundException ''Vaulted review not found'')
      | Some review \<Rightarrow>
          check (vw_status review = vr_pending \<or> vw_status review = vr_failed)
            (BadRequestException ''Review is already decided'')
          (Inr (save_vaulted (review\<lparr>vw_status := vr_dismissed, vw_reviewedAt := Some (se_now env)\<rparr>) db)))"

text \<open>
  mergeVaultedMintResults: a Map from upper-case certificates to results, in insertion order; a
  later failure does not replace an earlier success.
\<close>

fun put_result :: "cert_mint_result \<Rightarrow> (string \<times> cert_mint_result) list \<Rightarrow> (string \<times> cert_mint_result) list" where
  "put_result r [] = [(js_upper (cm_cert r), r)]"
| "put_result r ((k, x) # m) = (if k = js_upper (cm_cert r) then (k, r) # m else (k, x) # put_result r m)"

definition merge_result ::
  "cert_mint_result \<Rightarrow> (string \<times> cert_mint_result) list \<Rightarrow> (string \<times> cert_mint_result) list" where
  "merge_result r m = (case map_of m (js_upper (cm_cert r)) of
      Some prev \<Rightarrow> if cm_ok prev \<and> \<not> cm_ok r then m else put_result r m
    | None \<Rightarrow> put_result r m)"

definition mergeVaultedMintResults ::
  "cert_mint_result list \<Rightarrow> cert_mint_result list \<Rightarrow> cert_mint_result list" where
  "mergeVaultedMintResults previous next_results =
     map snd (fold merge_result next_results (fold put_result previous []))"

fun join_with :: "string \<Rightarrow> string list \<Rightarrow> string" where
  "join_with sep [] = []"
| "join_with sep [x] = x"
| "join_with sep (x # y # xs) = x @ sep @ join_with sep (y # xs)"

definition error_line :: "cert_mint_result \<Rightarrow> string" where
  "error_line r = cm_cert r @ '': '' @ (case cm_error r of None \<Rightarrow> ''failed'' | Some e \<Rightarrow> e)"

definition recordPsaVaultedMintOutcome ::
  "submission_env \<Rightarrow> nat \<Rightarrow> review_via \<Rightarrow> cert_mint_result list \<Rightarrow> submission_db \<Rightarrow>
   submission_db result" where
  "recordPsaVaultedMintOutcome env reviewId via results db =
     (case find_vaulted reviewId db of
        None \<Rightarrow> Inl (NotFoundException ''Vaulted review not found'')
      | Some review \<Rightarrow>
          let merged = mergeVaultedMintResults (vw_mintResults review) results;
              anyOk = list_ex cm_ok merged; anyFail = list_ex (\<lambda>r. \<not> cm_ok r) merged;
              itemIds = js_unique (vw_matchedItemIds review @ List.map_filter cm_itemId merged);
              publicIds = js_unique (vw_matchedPublicIds review
                @ filter (\<lambda>p. p \<noteq> []) (List.map_filter cm_publicId merged));
              allErrors = join_with ''; '' (map error_line merged)
          in Inr (save_vaulted (review\<lparr>vw_mintResults := merged, vw_mintedVia := Some via,
               vw_reviewedAt := Some (se_now env), vw_matchedItemIds := itemIds,
               vw_matchedPublicIds := publicIds,
               vw_status := (if anyOk then vr_minted else vr_failed),
               vw_errorSummary := (if anyOk \<and> \<not> anyFail then None
                 else if anyOk then Some (join_with ''; '' (map error_line (filter (\<lambda>r. \<not> cm_ok r) merged)))
                 else Some (if allErrors = [] then ''mint failed'' else allErrors))\<rparr>) db))"

end
