(* ===== verification/PublicIds.thy ===== *)
theory PublicIds
  imports SubmissionData
begin

text \<open>
  Public ids are texts of fixed width: within a day their order as text is the order of their
  numbers, so the largest one gives the next, and the next is new.
\<close>

section \<open>Digits of fixed width\<close>

lemma radix_val_acc_bounds:
  "list_all is_digit s \<Longrightarrow> radix_val_acc 10 a s = Some v \<Longrightarrow>
   a * 10 ^ length s \<le> v \<and> v < (a + 1) * 10 ^ length s"
proof (induction s arbitrary: a)
  case (Cons c s)
  then obtain d where d: "d < 10" "digit_val c = Some d" using digit_val_digit by auto
  with Cons have v: "(10 * a + d) * 10 ^ length s \<le> v" "v < (10 * a + d + 1) * 10 ^ length s" by auto
  have "a * 10 ^ length (c # s) \<le> (10 * a + d) * 10 ^ length s"
    by (simp add: algebra_simps)
  then have lo: "a * 10 ^ length (c # s) \<le> v" using v(1) by linarith
  have "(10 * a + d + 1) * 10 ^ length s \<le> (10 * a + 10) * 10 ^ length s"
    by (rule mult_le_mono1) (use d in simp)
  then have "v < (10 * a + 10) * 10 ^ length s" using v(2) by linarith
  then have "v < (a + 1) * 10 ^ length (c # s)" by (simp add: algebra_simps)
  with lo show ?case ..
qed simp

lemma digit_order:
  assumes "is_digit c" "is_digit d" "digit_val c = Some m" "digit_val d = Some n"
  shows "c < d \<longleftrightarrow> m < n"
  using assms by (auto simp: is_digit_def digit_val_def Let_def less_char_def char_code_def)

lemma digits_order:
  "list_all is_digit s \<Longrightarrow> list_all is_digit t \<Longrightarrow> length s = length t \<Longrightarrow> s \<le> t \<Longrightarrow>
   radix_val_acc 10 a s = Some v \<Longrightarrow> radix_val_acc 10 a t = Some w \<Longrightarrow> v \<le> w"
proof (induction s t arbitrary: a rule: list_induct2')
  case (4 c s d t)
  obtain m where m: "m < 10" "digit_val c = Some m" using digit_val_digit 4 by auto
  obtain n where n: "n < 10" "digit_val d = Some n" using digit_val_digit 4 by auto
  have o: "c < d \<longleftrightarrow> m < n" using 4 m n by (intro digit_order) auto
  from 4 m n have v: "radix_val_acc 10 (10 * a + m) s = Some v" and w: "radix_val_acc 10 (10 * a + n) t = Some w"
    by auto
  consider "c < d" | "c = d" "s \<le> t" using 4 by auto
  then show ?case
  proof cases
    case 1
    then have "10 * a + m + 1 \<le> 10 * a + n" using o by simp
    then have "(10 * a + m + 1) * 10 ^ length s \<le> (10 * a + n) * 10 ^ length s" by (rule mult_le_mono1)
    moreover have "length s = length t" using 4 by simp
    ultimately show ?thesis
      using radix_val_acc_bounds [OF _ v] radix_val_acc_bounds [OF _ w] 4 by force
  next
    case 2
    then have "m = n" using m n by simp
    then show ?thesis using 4 v w 2 by simp
  qed
qed simp_all

lemma length_nat_str: "n < 10 ^ k \<Longrightarrow> 0 < k \<Longrightarrow> length (nat_str n) \<le> k"
proof (induction n arbitrary: k rule: nat_str.induct)
  case (1 n)
  show ?case
  proof (cases "n < 10")
    case True
    then show ?thesis using 1 by (simp add: nat_str.simps [of n])
  next
    case False
    then obtain j where k: "k = Suc j" "0 < j" using 1 by (cases k; cases "k - 1") auto
    then have "n div 10 < 10 ^ j" using 1 by (simp add: less_mult_imp_div_less mult.commute)
    then show ?thesis using 1 False k by (simp add: nat_str.simps [of n])
  qed
qed

lemma pad_start_digits: "list_all is_digit s \<Longrightarrow> list_all is_digit (pad_start n s)"
  by (auto simp: pad_start_def list_all_iff is_digit_def char_code_def)

lemma nat_str_digits [simp]: "list_all is_digit (nat_str n)"
  using is_decimal_nat_str [of n] by (simp add: is_decimal_def)

definition pad5 :: "nat \<Rightarrow> string" where
  "pad5 k = pad_start 5 (nat_str k)"

lemma pad5_digits [simp]: "list_all is_digit (pad5 k)"
  by (simp add: pad5_def pad_start_digits)

lemma length_pad5: "k < 100000 \<Longrightarrow> length (pad5 k) = 5"
  using length_nat_str [of k 5] by (simp add: pad5_def pad_start_def)

lemma radix_zeros: "radix_val_acc 10 0 (replicate n (CHR ''0'') @ s) = radix_val_acc 10 0 s"
  by (induction n) (simp_all add: digit_val_def char_code_def)

lemma radix_pad5 [simp]: "radix_val_acc 10 0 (pad5 k) = Some k"
  by (simp add: pad5_def pad_start_def radix_zeros radix_val_acc_nat_str)

lemma pad5_nonempty [simp]: "pad5 k \<noteq> []"
  by (simp add: pad5_def pad_start_def)

lemma pad5_number [simp]: "js_Number (pad5 k) = Some (of_nat k)"
proof -
  have "is_decimal (pad5 k)" by (simp add: is_decimal_def)
  then show ?thesis by (simp add: js_Number_decimal radix_val_def)
qed

lemma pad5_inj: "pad5 j = pad5 k \<Longrightarrow> j = k"
  by (metis option.inject radix_pad5)

lemma pad5_order: "j < 100000 \<Longrightarrow> k < 100000 \<Longrightarrow> pad5 j \<le> pad5 k \<Longrightarrow> j \<le> k"
  by (rule digits_order [of "pad5 j" "pad5 k" 0]) (simp_all add: length_pad5)

section \<open>The next id of the day\<close>

text \<open>SUB-, the digits of the date, a dash and five digits.\<close>

definition public_id_form :: "string \<Rightarrow> bool" where
  "public_id_form pid = (\<exists>date k. pid = ''SUB-'' @ date @ ''-'' @ pad5 k \<and> list_all is_digit date \<and> k < 100000)"

definition clock_ok :: "submission_env \<Rightarrow> bool" where
  "clock_ok env = (0 \<le> fst (civil_date (se_now env + se_tzOffset env)))"

lemma prefix_form:
  assumes "clock_ok env"
  obtains date where "public_id_prefix env = ''SUB-'' @ date @ ''-''" "list_all is_digit date"
proof -
  obtain y m d where c: "civil_date (se_now env + se_tzOffset env) = (y, m, d)" by (metis prod_cases3)
  let ?date = "int_str y @ pad_start 2 (nat_str (nat m)) @ pad_start 2 (nat_str (nat d))"
  have "0 \<le> y" using assms c by (simp add: clock_ok_def)
  then have "list_all is_digit ?date" by (simp add: pad_start_digits)
  then show thesis by (rule that [rotated]) (simp add: public_id_prefix_def c)
qed

lemma digits_dash:
  "list_all is_digit D \<Longrightarrow> list_all is_digit E \<Longrightarrow> D @ CHR ''-'' # x = E @ CHR ''-'' # y \<Longrightarrow> D = E \<and> x = y"
proof (induction D arbitrary: E)
  case Nil
  then show ?case by (cases E) auto
next
  case (Cons c D)
  then show ?case by (cases E) auto
qed

lemma id_of_day:
  assumes "public_id_form pid" "starts_with (''SUB-'' @ date @ ''-'') pid" "list_all is_digit date"
  obtains k where "pid = ''SUB-'' @ date @ ''-'' @ pad5 k" "k < 100000"
proof -
  from assms(1) obtain D k where D: "pid = ''SUB-'' @ D @ ''-'' @ pad5 k" "list_all is_digit D" "k < 100000"
    by (auto simp: public_id_form_def)
  from assms(2) have "pid = (''SUB-'' @ date @ ''-'') @ drop (length (''SUB-'' @ date @ ''-'')) pid"
    unfolding starts_with_def by (metis append_take_drop_id)
  then have "date @ CHR ''-'' # drop (length (''SUB-'' @ date @ ''-'')) pid = D @ CHR ''-'' # pad5 k"
    using D(1) by simp
  then have "date = D" using digits_dash assms(3) D(2) by blast
  then show thesis using that D by blast
qed

lemma id_text: "public_id_form pid \<Longrightarrow> js_trim pid = pid"
proof (rule js_trim_no_ws)
  assume "public_id_form pid"
  then obtain D k where D: "pid = ''SUB-'' @ D @ ''-'' @ pad5 k" "list_all is_digit D"
    by (auto simp: public_id_form_def)
  have "list_all (\<lambda>c. \<not> is_ws c) s" if "list_all is_digit s" for s
    using that by (auto simp: list_all_iff digit_not_ws)
  then show "list_all (\<lambda>c. \<not> is_ws c) pid" using D by (simp add: is_ws_def char_code_def)
qed

lemma starts_with_Nil [simp]: "starts_with p [] \<longleftrightarrow> p = []"
  by (auto simp: starts_with_def)

lemma starts_with_append [simp]: "starts_with p (p @ s)"
  by (simp add: starts_with_def)

text \<open>The first id of a day is number 1; after number k comes k + 1.\<close>

lemma nextDaily_first:
  assumes "last_public_id (public_id_prefix env) db = None" "public_id_prefix env \<noteq> []"
  shows "nextDailyPublicId env db = Inr (public_id_prefix env @ pad5 1)"
  using assms by (simp add: nextDailyPublicId_def or_empty_def Let_def pad5_def)

lemma nextDaily_next:
  assumes "last_public_id (public_id_prefix env) db = Some (public_id_prefix env @ pad5 k)"
    and "js_trim (public_id_prefix env @ pad5 k) = public_id_prefix env @ pad5 k"
  shows "nextDailyPublicId env db =
    (if k < 99999 then Inr (public_id_prefix env @ pad5 (k + 1))
     else Inl (InternalServerErrorException ''Daily vault submission id sequence exhausted (max 99999)''))"
  using assms by (auto simp: nextDailyPublicId_def or_empty_def Let_def pad5_def [of "Suc k"] nat_add_distrib)

lemma day_prefix_order: "(p :: string) @ s \<le> p @ t \<Longrightarrow> s \<le> t"
  by (induction p) auto

lemma nextDaily_cases:
  assumes ids: "\<forall>s \<in> set (sd_subs db). public_id_form (sm_publicId s)" and clock: "clock_ok env"
  obtains "last_public_id (public_id_prefix env) db = None"
    "nextDailyPublicId env db = Inr (public_id_prefix env @ pad5 1)"
  | k where "last_public_id (public_id_prefix env) db = Some (public_id_prefix env @ pad5 k)" "k < 100000"
    "nextDailyPublicId env db = (if k < 99999 then Inr (public_id_prefix env @ pad5 (k + 1))
       else Inl (InternalServerErrorException ''Daily vault submission id sequence exhausted (max 99999)''))"
proof -
  obtain date where pre: "public_id_prefix env = ''SUB-'' @ date @ ''-''" and date: "list_all is_digit date"
    using prefix_form [OF clock] .
  show thesis
  proof (cases "last_public_id (public_id_prefix env) db")
    case None
    then show thesis using that(1) [OF None nextDaily_first [OF None]] pre by simp
  next
    case (Some last)
    note max = latest_by_Some [OF Some [unfolded last_public_id_def]]
    then have form: "public_id_form last" and st: "starts_with (''SUB-'' @ date @ ''-'') last"
      using ids by (auto simp: pre)
    obtain k where k: "last = ''SUB-'' @ date @ ''-'' @ pad5 k" "k < 100000" using id_of_day [OF form st date] .
    then have l: "last = public_id_prefix env @ pad5 k" by (simp add: pre)
    show thesis
      using that(2) [OF Some [unfolded l] k(2) nextDaily_next [OF Some [unfolded l]]] id_text [OF form] l by simp
  qed
qed

lemma later_id_unused:
  assumes s: "s \<in> set (sd_subs db)"
    and last: "last_public_id (public_id_prefix env) db = None
      \<or> last_public_id (public_id_prefix env) db = Some (public_id_prefix env @ pad5 k) \<and> k < m"
    and m: "m \<le> 99999"
  shows "sm_publicId s \<noteq> public_id_prefix env @ pad5 m"
proof
  let ?pre = "public_id_prefix env"
  assume eq: "sm_publicId s = ?pre @ pad5 m"
  then have mem: "?pre @ pad5 m \<in> set (filter (starts_with ?pre) (map sm_publicId (sd_subs db)))"
    using imageI [OF s, of sm_publicId] by simp
  then have "filter (starts_with ?pre) (map sm_publicId (sd_subs db)) \<noteq> []" by (metis empty_iff empty_set)
  then have "last_public_id ?pre db \<noteq> None" unfolding last_public_id_def latest_by_None .
  then have k: "last_public_id ?pre db = Some (?pre @ pad5 k)" "k < m" using last by auto
  then have "?pre @ pad5 m \<le> ?pre @ pad5 k"
    using latest_by_Some [OF k(1) [unfolded last_public_id_def]] mem by simp
  then have "pad5 m \<le> pad5 k" by (rule day_prefix_order)
  then show False using pad5_order [of m k] k(2) m by simp
qed

lemma nextDaily_form:
  assumes ids: "\<forall>s \<in> set (sd_subs db). public_id_form (sm_publicId s)" and clock: "clock_ok env"
    and ok: "nextDailyPublicId env db = Inr pid"
  shows "public_id_form pid \<and> (\<forall>s \<in> set (sd_subs db). sm_publicId s \<noteq> pid)"
proof -
  let ?pre = "public_id_prefix env"
  obtain date where pre: "?pre = ''SUB-'' @ date @ ''-''" and date: "list_all is_digit date"
    using prefix_form [OF clock] .
  have form: "public_id_form (?pre @ pad5 k)" if "k < 100000" for k
    using date that by (auto simp: public_id_form_def pre)
  show ?thesis
  proof (cases rule: nextDaily_cases [OF ids clock])
    case 1
    then show ?thesis using ok form [of 1] later_id_unused [of _ db env 0 1] by simp
  next
    case (2 k)
    then have pid: "pid = ?pre @ pad5 (k + 1)" and less: "k + 1 < 100000" using ok by (auto split: if_splits)
    then show ?thesis using form later_id_unused [of _ db env k "k + 1"] 2(1) by simp
  qed
qed

end
