(* ===== verification/SubmissionMachine.thy ===== *)
theory SubmissionMachine
  imports SubmissionMail PublicIds
begin

text \<open>
  The packages as a state machine. Every operation but upsertDraft rewrites rows in place: it is
  a sequence of touches, a map over the packages and a map over the items that keep the keys,
  move a package along the graph of statuses, and keep the link between items and packages. The
  two operations with which an administrator sets a status by hand follow no graph and are not
  steps.
\<close>

section \<open>The graph of a package and the invariant\<close>

inductive package_edge :: "submission_status \<Rightarrow> submission_status \<Rightarrow> bool" where
  confirm: "package_edge sb_draft awaiting_shipment"
| cancel_draft: "package_edge sb_draft sb_cancelled"
| cancel_open: "package_edge awaiting_shipment sb_cancelled"
| ship_draft: "package_edge sb_draft sb_in_transit"
| ship: "package_edge awaiting_shipment sb_in_transit"
| arrive_unshipped: "package_edge awaiting_shipment psa_reviewing"
| arrive: "package_edge sb_in_transit psa_reviewing"
| vault_all: "package_edge psa_reviewing sb_completed"

inductive_cases package_edgeE: "package_edge s t"

inductive_simps package_edge_simps [simp]:
  "package_edge sb_draft t" "package_edge awaiting_shipment t" "package_edge sb_in_transit t"
  "package_edge psa_reviewing t" "package_edge sb_completed t" "package_edge sb_cancelled t"

definition initial_package :: "submission_status \<Rightarrow> bool" where
  "initial_package s = (s = awaiting_shipment)"

definition package_statuses :: "submission_db \<Rightarrow> nat \<Rightarrow> submission_status option" where
  "package_statuses db i = map_option sm_status (find_sub i db)"

text \<open>
  An item is linked to a vault cycle only when its package is with PSA or completed, and the items
  of a completed package are all completed or rejected.
\<close>

definition linked_ok :: "submission_item \<Rightarrow> submission \<Rightarrow> bool" where
  "linked_ok it s = ((im_vaultCycleId it \<noteq> None \<longrightarrow> sm_status s = psa_reviewing \<or> sm_status s = sb_completed)
     \<and> (sm_status s = sb_completed \<longrightarrow> finished_item (im_status it)))"

definition all_linked :: "submission_item list \<Rightarrow> submission list \<Rightarrow> bool" where
  "all_linked its subs = (\<forall>it \<in> set its. \<exists>s \<in> set subs. sm_id s = im_submissionId it \<and> linked_ok it s)"

definition submissions_wf :: "submission_db \<Rightarrow> bool" where
  "submissions_wf db = (distinct (map sm_id (sd_subs db)) \<and> distinct (map im_id (sd_items db))
     \<and> (\<forall>s \<in> set (sd_subs db). sm_id s < sd_next db) \<and> (\<forall>it \<in> set (sd_items db). im_id it < sd_next db)
     \<and> distinct (map sm_publicId (sd_subs db)) \<and> (\<forall>s \<in> set (sd_subs db). public_id_form (sm_publicId s))
     \<and> uq_submission_cert (sd_items db) \<and> all_linked (sd_items db) (sd_subs db))"

definition empty_submissions :: submission_db where
  "empty_submissions = \<lparr>sd_subs = [], sd_items = [], sd_arrivals = [], sd_vaulted = [], sd_next = 0\<rparr>"

lemma empty_submissions_wf: "submissions_wf empty_submissions"
  by (simp add: submissions_wf_def empty_submissions_def uq_submission_cert_def all_linked_def)

lemma find_sub_Some: "find_sub i db = Some s \<Longrightarrow> s \<in> set (sd_subs db) \<and> sm_id s = i"
  unfolding find_sub_def by (rule find_key_Some)

lemma sub_by_id:
  "submissions_wf db \<Longrightarrow> s \<in> set (sd_subs db) \<Longrightarrow> t \<in> set (sd_subs db) \<Longrightarrow> sm_id s = sm_id t \<Longrightarrow> s = t"
  unfolding submissions_wf_def by (metis distinct_map inj_onD)

lemma item_by_id:
  "submissions_wf db \<Longrightarrow> a \<in> set (sd_items db) \<Longrightarrow> b \<in> set (sd_items db) \<Longrightarrow> im_id a = im_id b \<Longrightarrow> a = b"
  unfolding submissions_wf_def by (metis distinct_map inj_onD)

lemma find_sub_member: "submissions_wf db \<Longrightarrow> s \<in> set (sd_subs db) \<Longrightarrow> find_sub (sm_id s) db = Some s"
  unfolding find_sub_def submissions_wf_def by (simp add: find_key_member)

lemma package_of_item:
  assumes "submissions_wf db" "it \<in> set (sd_items db)"
  obtains s where "find_sub (im_submissionId it) db = Some s" "s \<in> set (sd_subs db)"
    "sm_id s = im_submissionId it" "linked_ok it s"
proof -
  obtain s where s: "s \<in> set (sd_subs db)" "sm_id s = im_submissionId it" "linked_ok it s"
    using assms unfolding submissions_wf_def all_linked_def by blast
  then show thesis using that find_sub_member [OF assms(1) s(1)] by simp
qed

lemma item_linked:
  "submissions_wf db \<Longrightarrow> it \<in> set (sd_items db) \<Longrightarrow> s \<in> set (sd_subs db) \<Longrightarrow>
   sm_id s = im_submissionId it \<Longrightarrow> linked_ok it s"
  by (metis package_of_item sub_by_id)

lemma items_of_member: "it \<in> set (items_of i db) \<longleftrightarrow> it \<in> set (sd_items db) \<and> im_submissionId it = i"
  by (auto simp: items_of_def)

section \<open>Touches\<close>

definition touch_by ::
  "(submission_item \<Rightarrow> submission_item) \<Rightarrow> (submission \<Rightarrow> submission) \<Rightarrow> submission_db \<Rightarrow> bool" where
  "touch_by f g db = (
     (\<forall>s \<in> set (sd_subs db). sm_id (g s) = sm_id s \<and> sm_publicId (g s) = sm_publicId s
        \<and> (sm_status s = sm_status (g s) \<or> package_edge (sm_status s) (sm_status (g s))))
     \<and> (\<forall>it \<in> set (sd_items db). im_id (f it) = im_id it \<and> im_submissionId (f it) = im_submissionId it
        \<and> im_certNumber (f it) = im_certNumber it)
     \<and> (\<forall>it \<in> set (sd_items db). \<forall>s \<in> set (sd_subs db). sm_id s = im_submissionId it \<longrightarrow> linked_ok (f it) (g s)))"

inductive touch :: "submission_db \<Rightarrow> submission_db \<Rightarrow> bool" where
  "touch_by f g db \<Longrightarrow> sd_subs db' = map g (sd_subs db) \<Longrightarrow> sd_items db' = map f (sd_items db) \<Longrightarrow>
   sd_next db \<le> sd_next db' \<Longrightarrow> touch db db'"

inductive_cases touchE: "touch db db'"

lemma map_key_same: "(\<And>x. x \<in> set t \<Longrightarrow> key (g x) = key x) \<Longrightarrow> map key (map g t) = map key t"
  by simp

lemma unique_index_map_same:
  assumes "unique_index key h (\<lambda>_. True) t" "\<And>x. x \<in> set t \<Longrightarrow> key (f x) = key x \<and> h (f x) = h x"
  shows "unique_index key h (\<lambda>_. True) (map f t)"
  unfolding unique_index_def
proof (intro ballI impI)
  fix x y assume "x \<in> set (map f t)" "y \<in> set (map f t)" and eq: "h x = h y"
  then obtain a b where ab: "a \<in> set t" "x = f a" "b \<in> set t" "y = f b" by auto
  then have "key a = key b" using unique_indexD [OF assms(1) ab(1,3)] assms(2) eq by metis
  then show "key x = key y" using assms(2) ab by simp
qed

lemma touch_wf: "touch db db' \<Longrightarrow> submissions_wf db \<Longrightarrow> submissions_wf db'"
proof (erule touchE)
  fix f g
  assume tb: "touch_by f g db" and eqs: "sd_subs db' = map g (sd_subs db)" "sd_items db' = map f (sd_items db)"
    and n: "sd_next db \<le> sd_next db'" and wf: "submissions_wf db"
  note g = conjunct1 [OF tb [unfolded touch_by_def]]
    and f = conjunct1 [OF conjunct2 [OF tb [unfolded touch_by_def]]]
    and l = conjunct2 [OF conjunct2 [OF tb [unfolded touch_by_def]]]
  have bounds: "s \<in> set (sd_subs db) \<Longrightarrow> sm_id s < sd_next db' \<and> public_id_form (sm_publicId s)"
    "it \<in> set (sd_items db) \<Longrightarrow> im_id it < sd_next db'" for s it
    using wf n unfolding submissions_wf_def by (meson order_less_le_trans)+
  have "map sm_id (map g (sd_subs db)) = map sm_id (sd_subs db)"
    "map sm_publicId (map g (sd_subs db)) = map sm_publicId (sd_subs db)"
    "map im_id (map f (sd_items db)) = map im_id (sd_items db)"
    using f g by (intro map_key_same; blast)+
  then have "distinct (map sm_id (map g (sd_subs db)))" "distinct (map sm_publicId (map g (sd_subs db)))"
    "distinct (map im_id (map f (sd_items db)))"
    using wf by (simp_all only: submissions_wf_def)
  moreover have "uq_submission_cert (map f (sd_items db))"
    unfolding uq_submission_cert_def
    by (rule unique_index_map_same) (use wf f in \<open>auto simp: submissions_wf_def uq_submission_cert_def\<close>)
  moreover have "all_linked (map f (sd_items db)) (map g (sd_subs db))"
    unfolding all_linked_def
  proof
    fix x assume "x \<in> set (map f (sd_items db))"
    then obtain it where it: "it \<in> set (sd_items db)" "x = f it" by auto
    obtain s where s: "s \<in> set (sd_subs db)" "sm_id s = im_submissionId it"
      using package_of_item [OF wf it(1)] by blast
    then have "linked_ok x (g s)" using l it by blast
    moreover have "sm_id (g s) = im_submissionId x" using f g it s by force
    ultimately show "\<exists>s \<in> set (map g (sd_subs db)). sm_id s = im_submissionId x \<and> linked_ok x s"
      using s(1) by (metis image_eqI list.set_map)
  qed
  moreover have "\<forall>s \<in> set (map g (sd_subs db)). sm_id s < sd_next db'"
    "\<forall>s \<in> set (map g (sd_subs db)). public_id_form (sm_publicId s)"
    "\<forall>it \<in> set (map f (sd_items db)). im_id it < sd_next db'"
    using bounds
    by (auto simp: f [THEN bspec, THEN conjunct1] g [THEN bspec, THEN conjunct1]
        g [THEN bspec, THEN conjunct2, THEN conjunct1])
  ultimately show ?thesis unfolding submissions_wf_def eqs by blast
qed

lemma statuses_map:
  assumes "sd_subs db' = map g (sd_subs db)" "\<forall>s \<in> set (sd_subs db). sm_id (g s) = sm_id s"
  shows "package_statuses db' i = map_option (sm_status \<circ> g) (find_sub i db)"
proof -
  have "find_key sm_id i (map g t) = map_option g (find_key sm_id i t)"
    if "\<forall>s \<in> set t. sm_id (g s) = sm_id s" for t
    using that by (induction t) (auto simp: find_key_def)
  with assms show ?thesis by (simp add: package_statuses_def find_sub_def option.map_comp)
qed

lemma dom_package_statuses: "finite (dom (package_statuses db))"
proof (rule finite_subset)
  show "dom (package_statuses db) \<subseteq> sm_id ` set (sd_subs db)"
    by (auto simp: package_statuses_def dest!: find_sub_Some)
qed simp

abbreviation package_life :: "submission_db \<Rightarrow> submission_db \<Rightarrow> bool" where
  "package_life db db' \<equiv> (life_step initial_package package_edge)\<^sup>*\<^sup>* (package_statuses db) (package_statuses db')"

lemma touch_life: "touch db db' \<Longrightarrow> package_life db db'"
proof (erule touchE)
  fix f g
  assume tb: "touch_by f g db" and eq: "sd_subs db' = map g (sd_subs db)"
  note g = conjunct1 [OF tb [unfolded touch_by_def]]
  have st: "package_statuses db' i = map_option (sm_status \<circ> g) (find_sub i db)" for i
    by (rule statuses_map [OF eq]) (use g in blast)
  show ?thesis
  proof (rule life_moves [OF dom_package_statuses])
    fix i
    show "(\<exists>s t. package_statuses db i = Some s \<and> package_statuses db' i = Some t \<and> (s = t \<or> package_edge s t))
      \<or> package_statuses db i = None \<and> package_statuses db' i = None"
    proof (cases "find_sub i db")
      case (Some s)
      then have "sm_status s = sm_status (g s) \<or> package_edge (sm_status s) (sm_status (g s))"
        using g find_sub_Some by blast
      moreover have "package_statuses db i = Some (sm_status s)" by (simp add: package_statuses_def Some)
      ultimately show ?thesis unfolding st by (simp add: Some)
    qed (simp add: st, simp add: package_statuses_def)
  qed
qed

lemma touches_ok: "touch\<^sup>*\<^sup>* db db' \<Longrightarrow> submissions_wf db \<Longrightarrow> submissions_wf db' \<and> package_life db db'"
proof (induction rule: rtranclp_induct)
  case (step x y)
  then show ?case by (meson rtranclp_trans touch_life touch_wf)
qed simp

text \<open>A write that leaves the two tables alone.\<close>

lemma touch_frame:
  assumes "submissions_wf db" "sd_subs db' = sd_subs db" "sd_items db' = sd_items db" "sd_next db \<le> sd_next db'"
  shows "touch db db'"
  by (rule touch.intros [of id id]) (use assms item_linked [OF assms(1)] in \<open>auto simp: touch_by_def\<close>)

section \<open>Saving a loaded row is a touch\<close>

lemma upsert_mapped:
  "distinct (map key t) \<Longrightarrow> key r \<in> key ` set t \<Longrightarrow>
   upsert key r t = map (\<lambda>x. if key x = key r then r else x) t"
proof (induction t)
  case (Cons x t)
  show ?case
  proof (cases "key x = key r")
    case True
    then have "\<forall>y \<in> set t. key y \<noteq> key r" using Cons.prems by (metis distinct.simps(2) image_eqI list.simps(9) list.set_map)
    then have "map (\<lambda>x. if key x = key r then r else x) t = t" by (simp add: map_idI)
    then show ?thesis using True by simp
  qed (use Cons in auto)
qed simp

definition put_sub :: "int \<Rightarrow> submission \<Rightarrow> submission \<Rightarrow> submission" where
  "put_sub now s x = (if sm_id x = sm_id s \<and> x \<noteq> s then s\<lparr>sm_updatedAt := now\<rparr> else x)"

definition put_item :: "int \<Rightarrow> submission_item \<Rightarrow> submission_item \<Rightarrow> submission_item" where
  "put_item now it x = (if im_id x = im_id it \<and> x \<noteq> it then it\<lparr>im_updatedAt := now\<rparr> else x)"

lemma save_sub_map:
  assumes wf: "submissions_wf db" and t: "t \<in> set (sd_subs db)" "sm_id t = sm_id s"
  shows "sd_subs (save_sub now s db) = map (put_sub now s) (sd_subs db)"
proof (cases "s \<in> set (sd_subs db)")
  case True
  then have "\<And>x. x \<in> set (sd_subs db) \<Longrightarrow> put_sub now s x = x"
    using sub_by_id [OF wf] by (auto simp: put_sub_def)
  then show ?thesis using True by (simp add: save_sub_def map_idI)
next
  case False
  have "sm_id (s\<lparr>sm_updatedAt := now\<rparr>) \<in> sm_id ` set (sd_subs db)" by (rule image_eqI [OF _ t(1)]) (simp add: t(2))
  moreover have "distinct (map sm_id (sd_subs db))" using wf by (simp add: submissions_wf_def)
  ultimately have "upsert sm_id (s\<lparr>sm_updatedAt := now\<rparr>) (sd_subs db)
      = map (\<lambda>x. if sm_id x = sm_id s then s\<lparr>sm_updatedAt := now\<rparr> else x) (sd_subs db)"
    using upsert_mapped by fastforce
  also have "\<dots> = map (put_sub now s) (sd_subs db)" by (rule map_cong) (use False in \<open>auto simp: put_sub_def\<close>)
  finally show ?thesis using False by (simp add: save_sub_def)
qed

lemma save_item_map:
  assumes wf: "submissions_wf db" and t: "jt \<in> set (sd_items db)" "im_id jt = im_id it"
  shows "sd_items (save_item now it db) = map (put_item now it) (sd_items db)"
proof (cases "it \<in> set (sd_items db)")
  case True
  then have "\<And>x. x \<in> set (sd_items db) \<Longrightarrow> put_item now it x = x"
    using item_by_id [OF wf] by (auto simp: put_item_def)
  then show ?thesis using True by (simp add: save_item_def map_idI)
next
  case False
  have "im_id (it\<lparr>im_updatedAt := now\<rparr>) \<in> im_id ` set (sd_items db)" by (rule image_eqI [OF _ t(1)]) (simp add: t(2))
  moreover have "distinct (map im_id (sd_items db))" using wf by (simp add: submissions_wf_def)
  ultimately have "upsert im_id (it\<lparr>im_updatedAt := now\<rparr>) (sd_items db)
      = map (\<lambda>x. if im_id x = im_id it then it\<lparr>im_updatedAt := now\<rparr> else x) (sd_items db)"
    using upsert_mapped by fastforce
  also have "\<dots> = map (put_item now it) (sd_items db)" by (rule map_cong) (use False in \<open>auto simp: put_item_def\<close>)
  finally show ?thesis using False by (simp add: save_item_def)
qed

lemma save_fields [simp]:
  "sd_items (save_sub now s db) = sd_items db" "sd_subs (save_item now it db) = sd_subs db"
  "sd_next (save_sub now s db) = sd_next db" "sd_next (save_item now it db) = sd_next db"
  "sd_arrivals (save_sub now s db) = sd_arrivals db" "sd_arrivals (save_item now it db) = sd_arrivals db"
  "sd_vaulted (save_sub now s db) = sd_vaulted db" "sd_vaulted (save_item now it db) = sd_vaulted db"
  by (simp_all add: save_sub_def save_item_def)

lemma save_sub_item: "save_sub now s (save_item now it db) = save_item now it (save_sub now s db)"
  by (simp add: save_sub_def save_item_def)

lemma linked_ok_cong:
  "sm_status s = sm_status t \<Longrightarrow> im_vaultCycleId it = im_vaultCycleId jt \<Longrightarrow> im_status it = im_status jt \<Longrightarrow>
   linked_ok it s = linked_ok jt t"
  by (simp add: linked_ok_def)

lemma linked_ok_updatedAt [simp]:
  "linked_ok it (s\<lparr>sm_updatedAt := n\<rparr>) = linked_ok it s" "linked_ok (it\<lparr>im_updatedAt := n\<rparr>) s = linked_ok it s"
  by (simp_all add: linked_ok_def)

lemma save_sub_touch:
  assumes wf: "submissions_wf db" and t: "t \<in> set (sd_subs db)" "sm_id s = sm_id t"
    "sm_publicId s = sm_publicId t" "sm_status t = sm_status s \<or> package_edge (sm_status t) (sm_status s)"
    and l: "\<And>it. it \<in> set (sd_items db) \<Longrightarrow> im_submissionId it = sm_id t \<Longrightarrow> linked_ok it s"
  shows "touch db (save_sub now s db)"
proof (rule touch.intros [of id "put_sub now s"])
  have same: "x = t" if "x \<in> set (sd_subs db)" "sm_id x = sm_id s" for x
    using sub_by_id [OF wf] t(1,2) that by simp
  show "touch_by id (put_sub now s) db"
    unfolding touch_by_def
  proof (intro conjI ballI impI)
    fix it x assume "it \<in> set (sd_items db)" "x \<in> set (sd_subs db)" "sm_id x = im_submissionId it"
    then show "linked_ok (id it) (put_sub now s x)"
      using l item_linked [OF wf] same t(2) by (auto simp: put_sub_def)
  qed (use same t in \<open>auto simp: put_sub_def\<close>)
qed (use save_sub_map [OF wf t(1)] t(2) in auto)

lemma save_item_touch:
  assumes wf: "submissions_wf db" and j: "jt \<in> set (sd_items db)" "im_id it = im_id jt"
    "im_submissionId it = im_submissionId jt" "im_certNumber it = im_certNumber jt"
    and l: "\<And>s. s \<in> set (sd_subs db) \<Longrightarrow> sm_id s = im_submissionId jt \<Longrightarrow> linked_ok it s"
  shows "touch db (save_item now it db)"
proof (rule touch.intros [of "put_item now it" id])
  have same: "x = jt" if "x \<in> set (sd_items db)" "im_id x = im_id it" for x
    using item_by_id [OF wf] j(1,2) that by simp
  show "touch_by (put_item now it) id db"
    unfolding touch_by_def
  proof (intro conjI ballI impI)
    fix x s assume "x \<in> set (sd_items db)" "s \<in> set (sd_subs db)" "sm_id s = im_submissionId x"
    then show "linked_ok (put_item now it x) (id s)"
      using l item_linked [OF wf] same by (auto simp: put_item_def)
  qed (use same j in \<open>auto simp: put_item_def\<close>)
qed (use save_item_map [OF wf j(1)] j(2) in auto)

section \<open>The operations\<close>

lemma findOwned_member: "findOwned env u i h db = Inr s \<Longrightarrow> s \<in> set (sd_subs db)"
  by (auto simp: findOwned_def Let_def on_ok_eq_Inr split: option.splits if_splits dest: find_row_Some)

lemma findAny_member: "findAny env i db = Inr s \<Longrightarrow> s \<in> set (sd_subs db)"
  by (auto simp: findAny_def Let_def split: option.splits if_splits dest: find_row_Some)

lemma slip_touch:
  assumes wf: "submissions_wf db" and ok: "markPackingSlipDownloaded env u i h db = Inr db'"
  shows "touch db db'"
proof -
  obtain s where s: "findOwned env u i h db = Inr s"
    and db': "db' = (if sm_packingSlipDownloadedAt s = None
      then save_sub (se_now env) (s\<lparr>sm_packingSlipDownloadedAt := Some (se_now env)\<rparr>) db else db)"
    using ok by (auto simp: markPackingSlipDownloaded_def on_ok_eq_Inr)
  have m: "s \<in> set (sd_subs db)" using findOwned_member [OF s] .
  have l: "linked_ok it (s\<lparr>sm_packingSlipDownloadedAt := x\<rparr>)"
    if "it \<in> set (sd_items db)" "im_submissionId it = sm_id s" for it x
    using item_linked [OF wf that(1) m] that(2) by (simp add: linked_ok_def)
  show ?thesis unfolding db'
    using save_sub_touch [OF wf m, of "s\<lparr>sm_packingSlipDownloadedAt := Some (se_now env)\<rparr>"] l
      touch_frame [OF wf] by simp
qed

text \<open>An item of a package that has not reached PSA is not linked to a cycle.\<close>

lemma pre_psa_unlinked:
  "linked_ok it s \<Longrightarrow> sm_status s \<noteq> psa_reviewing \<Longrightarrow> sm_status s \<noteq> sb_completed \<Longrightarrow>
   im_vaultCycleId it = None"
  by (auto simp: linked_ok_def)

lemma move_touch:
  assumes wf: "submissions_wf db" and m: "s \<in> set (sd_subs db)" and same: "sm_id s' = sm_id s"
    "sm_publicId s' = sm_publicId s" and st: "sm_status s = sm_status s' \<or> package_edge (sm_status s) (sm_status s')"
    and new: "sm_status s \<notin> {psa_reviewing, sb_completed}" "sm_status s' \<noteq> sb_completed"
  shows "touch db (save_sub now s' db)"
proof (rule save_sub_touch [OF wf m same st])
  fix it assume it: "it \<in> set (sd_items db)" "im_submissionId it = sm_id s"
  then have "im_vaultCycleId it = None" using pre_psa_unlinked [OF item_linked [OF wf it(1) m]] new by simp
  then show "linked_ok it s'" using new by (simp add: linked_ok_def)
qed

lemma cancel_touch:
  assumes wf: "submissions_wf db" and ok: "cancelPreShipPackage env u i h db = Inr db'"
  shows "touch db db'"
proof -
  obtain s where s: "findOwned env u i h db = Inr s" "sm_status s = sb_draft \<or> sm_status s = awaiting_shipment"
    and db': "db' = save_sub (se_now env) (s\<lparr>sm_status := sb_cancelled\<rparr>) db"
    using ok by (auto simp: cancelPreShipPackage_def on_ok_eq_Inr)
  show ?thesis unfolding db'
    by (rule move_touch [OF wf findOwned_member [OF s(1)]]) (use s(2) in auto)
qed

lemma save_sub_keeps:
  assumes wf: "submissions_wf db" and t: "t \<in> set (sd_subs db)" "sm_id t = sm_id s"
    and x: "x \<in> set (sd_subs db)" "sm_id x \<noteq> sm_id s"
  shows "x \<in> set (sd_subs (save_sub now s db))"
  unfolding save_sub_map [OF wf t] using x by (auto simp: put_sub_def image_iff)

lemma cancel_rows_touch:
  "submissions_wf db \<Longrightarrow> distinct (map sm_id rows) \<Longrightarrow> set rows \<subseteq> set (sd_subs db) \<Longrightarrow>
   list_all (\<lambda>s. sm_status s = sb_draft \<or> sm_status s = awaiting_shipment) rows \<Longrightarrow>
   touch\<^sup>*\<^sup>* db (fold (\<lambda>s. save_sub now (s\<lparr>sm_status := sb_cancelled\<rparr>)) rows db)"
proof (induction rows arbitrary: db)
  case (Cons s rows)
  let ?db = "save_sub now (s\<lparr>sm_status := sb_cancelled\<rparr>) db"
  have t: "touch db ?db" by (rule move_touch [OF Cons.prems(1), of s]) (use Cons.prems in auto)
  have "set rows \<subseteq> set (sd_subs ?db)"
  proof
    fix x assume x: "x \<in> set rows"
    then have "sm_id x \<noteq> sm_id s"
      using Cons.prems(2) by (metis distinct.simps(2) image_eqI list.simps(9) list.set_map)
    then show "x \<in> set (sd_subs ?db)"
      using save_sub_keeps [OF Cons.prems(1), of s "s\<lparr>sm_status := sb_cancelled\<rparr>" x] Cons.prems(3) x by auto
  qed
  then have "touch\<^sup>*\<^sup>* ?db (fold (\<lambda>s. save_sub now (s\<lparr>sm_status := sb_cancelled\<rparr>)) rows ?db)"
    using Cons.IH [OF touch_wf [OF t Cons.prems(1)]] Cons.prems(2,4) by simp
  then show ?case using t by (simp add: converse_rtranclp_into_rtranclp)
qed simp

lemma cancel_cert_touch:
  assumes wf: "submissions_wf db" and ok: "cancelPreShipPackagesForCert env cert ch db = Inr (n, db')"
  shows "touch\<^sup>*\<^sup>* db db'"
proof -
  have dist: "distinct (map sm_id (filter P (sd_subs db)))" for P
    using wf by (simp add: submissions_wf_def distinct_map_filter)
  from ok consider "db' = db" | tc where "db' = fold (\<lambda>s. save_sub (se_now env) (s\<lparr>sm_status := sb_cancelled\<rparr>))
      (filter (\<lambda>s. lists_cert (normalizeCert cert) db s \<and> open_for_upsert tc s) (sd_subs db)) db"
    by (auto simp: cancelPreShipPackagesForCert_def Let_def on_ok_eq_Inr split: if_splits)
  then show ?thesis
  proof cases
    case (2 tc)
    show ?thesis unfolding 2
      by (rule cancel_rows_touch [OF wf dist]) (auto simp: list_all_iff open_for_upsert_def)
  qed simp
qed

text \<open>Saving the items of a package one by one.\<close>

definition item_key :: "submission_item \<Rightarrow> nat \<times> nat \<times> string \<times> nat option" where
  "item_key it = (im_id it, im_submissionId it, im_certNumber it, im_vaultCycleId it)"

lemma item_key_fields [simp]:
  "item_key (it\<lparr>im_status := st\<rparr>) = item_key it" "item_key (it\<lparr>im_updatedAt := n\<rparr>) = item_key it"
  by (simp_all add: item_key_def)

lemma item_keyD:
  assumes "item_key it = item_key jt"
  shows "im_id it = im_id jt" "im_submissionId it = im_submissionId jt"
    "im_certNumber it = im_certNumber jt" "im_vaultCycleId it = im_vaultCycleId jt"
  using assms by (simp_all add: item_key_def)

lemma keys_save_item:
  assumes wf: "submissions_wf db" and j: "jt \<in> set (sd_items db)" "item_key it = item_key jt"
  shows "item_key ` set (sd_items (save_item now it db)) = item_key ` set (sd_items db)"
proof -
  have "item_key (put_item now it x) = item_key x" if x: "x \<in> set (sd_items db)" for x
  proof (cases "im_id x = im_id it")
    case True
    then have "x = jt" using item_by_id [OF wf x j(1)] item_keyD(1) [OF j(2)] by simp
    then show ?thesis using j(2) by (simp add: put_item_def)
  qed (simp add: put_item_def)
  then show ?thesis
    using save_item_map [OF wf j(1), of it now] item_keyD(1) [OF j(2)] by (auto simp: image_image)
qed

lemma set_items_touch:
  "submissions_wf db \<Longrightarrow> s \<in> set (sd_subs db) \<Longrightarrow> sm_status s \<noteq> sb_completed \<Longrightarrow>
   list_all (\<lambda>it. im_submissionId it = sm_id s) its \<Longrightarrow>
   item_key ` set its \<subseteq> item_key ` set (sd_items db) \<Longrightarrow> touch\<^sup>*\<^sup>* db (set_items now p st its db)"
proof (induction its arbitrary: db)
  case (Cons it its)
  let ?it = "it\<lparr>im_status := st\<rparr>"
  obtain jt where j: "jt \<in> set (sd_items db)" "item_key ?it = item_key jt"
    using Cons.prems(5) by auto
  note k = item_keyD [OF j(2)]
  have sub: "im_submissionId jt = sm_id s" using k(2) Cons.prems(4) by simp
  then have "linked_ok jt s" using item_linked [OF Cons.prems(1) j(1) Cons.prems(2)] by simp
  then have l: "linked_ok ?it s" using k(4) Cons.prems(3) by (simp add: linked_ok_def)
  have t: "touch db (save_item now ?it db)"
  proof (rule save_item_touch [OF Cons.prems(1) j(1) k(1-3)])
    fix x assume "x \<in> set (sd_subs db)" "sm_id x = im_submissionId jt"
    then have "x = s" using sub sub_by_id [OF Cons.prems(1) _ Cons.prems(2)] by simp
    then show "linked_ok ?it x" using l by simp
  qed
  let ?db = "if p (im_status it) then save_item now ?it db else db"
  have keys: "item_key ` set (sd_items ?db) = item_key ` set (sd_items db)"
    using keys_save_item [OF Cons.prems(1) j] by simp
  have "touch\<^sup>*\<^sup>* ?db (set_items now p st its ?db)"
    by (rule Cons.IH) (use Cons.prems touch_wf [OF t Cons.prems(1)] keys in auto)
  then show ?case using t by (auto simp: set_items_def intro: converse_rtranclp_into_rtranclp)
qed (simp add: set_items_def)

lemma shipped_fields [simp]:
  "sm_id (shipped env c t d s) = sm_id s" "sm_publicId (shipped env c t d s) = sm_publicId s"
  "sm_status (shipped env c t d s) = sb_in_transit" "sm_tokenContract (shipped env c t d s) = sm_tokenContract s"
  by (simp_all add: shipped_def Let_def)

lemma arrived_fields [simp]:
  "sm_id (arrived now s) = sm_id s" "sm_publicId (arrived now s) = sm_publicId s"
  "sm_status (arrived now s) = psa_reviewing"
  by (simp_all add: arrived_def)

lemma track_Inr:
  assumes "registerTracking env vdb u i c t d h db = Inr db'"
  obtains s ch tc where "findOwned env u i h db = Inr s"
    "sm_status s = sb_draft \<or> sm_status s = awaiting_shipment \<or> sm_status s = sb_in_transit"
    "items_of (sm_id s) db \<noteq> []"
    "list_all (\<lambda>it. im_status it = confirmed \<or> im_status it = it_in_transit) (items_of (sm_id s) db)"
    "submission_scope env h = Inr (ch, tc)" "certs_available vdb ch (items_of (sm_id s) db) = Inr ()"
    "db' = set_items (se_now env) (\<lambda>st. st = confirmed) it_in_transit (items_of (sm_id s) db)
      (save_sub (se_now env) (shipped env c t d s) db)"
  using assms by (auto simp: registerTracking_def Let_def on_ok_eq_Inr)

text \<open>The package in the table after a save of a loaded package.\<close>

lemma saved_member:
  assumes wf: "submissions_wf db" and s: "s \<in> set (sd_subs db)" "sm_id s = sm_id s'"
  shows "\<exists>x \<in> set (sd_subs (save_sub now s' db)). sm_id x = sm_id s' \<and> sm_status x = sm_status s'
    \<and> sm_tokenContract x = sm_tokenContract s'"
proof -
  have "put_sub now s' s \<in> set (sd_subs (save_sub now s' db))"
    using save_sub_map [OF wf s, of now] s(1) by simp
  then show ?thesis by (rule bexI [rotated]) (use s(2) in \<open>auto simp: put_sub_def\<close>)
qed

lemma save_then_set_items:
  assumes wf: "submissions_wf db" and t: "touch db (save_sub now s' db)" and s: "s \<in> set (sd_subs db)"
    "sm_id s = sm_id s'" and st: "sm_status s' \<noteq> sb_completed"
  shows "touch\<^sup>*\<^sup>* db (set_items now p st (items_of (sm_id s) db) (save_sub now s' db))"
proof -
  obtain x where x: "x \<in> set (sd_subs (save_sub now s' db))" "sm_id x = sm_id s'" "sm_status x = sm_status s'"
    using saved_member [OF wf s] by blast
  have "touch\<^sup>*\<^sup>* (save_sub now s' db) (set_items now p st (items_of (sm_id s) db) (save_sub now s' db))"
    by (rule set_items_touch [OF touch_wf [OF t wf] x(1)]) (use s st x in \<open>auto simp: items_of_def list_all_iff\<close>)
  then show ?thesis using t by (rule converse_rtranclp_into_rtranclp [rotated])
qed

lemma track_touch:
  assumes wf: "submissions_wf db" and ok: "registerTracking env vdb u i c t d h db = Inr db'"
  shows "touch\<^sup>*\<^sup>* db db'"
  using ok
proof (rule track_Inr)
  fix s
  assume s: "findOwned env u i h db = Inr s"
    "sm_status s = sb_draft \<or> sm_status s = awaiting_shipment \<or> sm_status s = sb_in_transit"
    and db': "db' = set_items (se_now env) (\<lambda>st. st = confirmed) it_in_transit (items_of (sm_id s) db)
      (save_sub (se_now env) (shipped env c t d s) db)"
  have "touch db (save_sub (se_now env) (shipped env c t d s) db)"
    by (rule move_touch [OF wf findOwned_member [OF s(1)]]) (use s(2) in auto)
  then show ?thesis
    unfolding db' by (intro save_then_set_items [OF wf]) (use findOwned_member [OF s(1)] in auto)
qed

lemma arrived_touch:
  assumes wf: "submissions_wf db" and s: "s \<in> set (sd_subs db)"
    and ok: "mark_arrived now s db = Inr db'"
  shows "touch\<^sup>*\<^sup>* db db'"
proof -
  have st: "sm_status s = sb_in_transit \<or> sm_status s = awaiting_shipment"
    and db': "db' = set_items now (\<lambda>st. st = it_in_transit \<or> st = confirmed) reviewing
      (items_of (sm_id s) db) (save_sub now (arrived now s) db)"
    using ok by (auto simp: mark_arrived_def)
  have "touch db (save_sub now (arrived now s) db)"
    by (rule move_touch [OF wf s]) (use st in auto)
  then show ?thesis unfolding db' by (intro save_then_set_items [OF wf]) (use s in auto)
qed

lemma mark_packages_touch:
  "submissions_wf db \<Longrightarrow> touch\<^sup>*\<^sup>* db (fst (mark_packages now ps db))"
proof (induction ps arbitrary: db)
  case (Cons p ps)
  show ?case
  proof (cases "case find_sub (sm_id p) db of None \<Rightarrow> Inl submission_not_found | Some s \<Rightarrow> mark_arrived now s db")
    case (Inl e)
    then show ?thesis using Cons.IH [OF Cons.prems] by (simp add: split_beta)
  next
    case (Inr db1)
    then obtain s where s: "find_sub (sm_id p) db = Some s" "mark_arrived now s db = Inr db1"
      by (auto split: option.splits)
    then have t: "touch\<^sup>*\<^sup>* db db1" using arrived_touch [OF Cons.prems] find_sub_Some by blast
    then have "touch\<^sup>*\<^sup>* db1 (fst (mark_packages now ps db1))"
      using Cons.IH touches_ok [OF t Cons.prems] by blast
    with t show ?thesis using s by (simp add: split_beta)
  qed
qed simp

lemma map_filter_member: "x \<in> set (List.map_filter f xs) \<longleftrightarrow> (\<exists>y \<in> set xs. f y = Some x)"
  by (induction xs) (auto simp: map_filter_simps split: option.splits)

lemma joined_member:
  "(it, s) \<in> set (joined_items db) \<Longrightarrow> it \<in> set (sd_items db) \<and> find_sub (im_submissionId it) db = Some s"
  by (auto simp: joined_items_def map_filter_member split: option.splits)

lemma attach_Inr:
  assumes "attachCycleForCert env u cert cyc ch db = Inr (b, db')"
  obtains "b = False" "db' = db"
  | it s tc where "b = True" "it \<in> set (sd_items db)" "find_sub (im_submissionId it) db = Some s"
    "attachable u (normalizeCert cert) tc (it, s)" "db' = attach_item (se_now env) cyc it db"
proof -
  from assms obtain tc where tc: "(case latest_by (\<lambda>r. sm_updatedAt (snd r))
        (filter (attachable u (normalizeCert cert) tc) (joined_items db)) of
      None \<Rightarrow> Inr (False, db)
    | Some row \<Rightarrow> Inr (True, attach_item (se_now env) cyc (fst row) db))
    = (Inr (b, db') :: (bool \<times> submission_db) result)"
    unfolding attachCycleForCert_def Let_def on_ok_eq_Inr by blast
  show thesis
  proof (cases "latest_by (\<lambda>r. sm_updatedAt (snd r)) (filter (attachable u (normalizeCert cert) tc) (joined_items db))")
    case (Some r)
    then have a: "(fst r, snd r) \<in> set (joined_items db)" "attachable u (normalizeCert cert) tc (fst r, snd r)"
      using latest_by_Some [OF Some] by simp_all
    have "b = True" "db' = attach_item (se_now env) cyc (fst r) db" using tc Some by simp_all
    then show thesis using that(2) joined_member [OF a(1)] a(2) by blast
  qed (use tc that(1) in simp)
qed

lemma attach_item_eq:
  "find_sub (im_submissionId it) db = Some s \<Longrightarrow> attach_item now cyc it db =
    save_item now (it\<lparr>im_vaultCycleId := Some cyc, im_status := it_minting\<rparr>)
      (if sm_status s = sb_in_transit then save_sub now (arrived now s) db else db)"
  by (simp add: attach_item_def find_sub_def Let_def save_sub_item)

lemma attach_touch:
  assumes wf: "submissions_wf db" and ok: "attachCycleForCert env u cert cyc ch db = Inr (b, db')"
  shows "touch\<^sup>*\<^sup>* db db'"
  using ok
proof (cases rule: attach_Inr)
  case (2 it s tc)
  let ?it = "it\<lparr>im_vaultCycleId := Some cyc, im_status := it_minting\<rparr>"
  let ?db = "if sm_status s = sb_in_transit then save_sub (se_now env) (arrived (se_now env) s) db else db"
  note fs = find_sub_Some [OF 2(3)]
  have st: "sm_status s = sb_in_transit \<or> sm_status s = psa_reviewing" using 2(4) by (auto simp: attachable_def)
  have t: "touch db ?db"
  proof (cases "sm_status s = sb_in_transit")
    case True
    then show ?thesis using move_touch [OF wf conjunct1 [OF fs], of "arrived (se_now env) s"] by simp
  qed (use touch_frame [OF wf] in simp)
  have psa: "sm_status x = psa_reviewing" if x: "x \<in> set (sd_subs ?db)" "sm_id x = sm_id s" for x
  proof (cases "sm_status s = sb_in_transit")
    case True
    then obtain y where y: "y \<in> set (sd_subs ?db)" "sm_id y = sm_id s" "sm_status y = psa_reviewing"
      using saved_member [OF wf conjunct1 [OF fs], of "arrived (se_now env) s"] by auto
    then show ?thesis using sub_by_id [OF touch_wf [OF t wf] x(1) y(1)] x(2) by simp
  next
    case False
    then show ?thesis using sub_by_id [OF wf _ conjunct1 [OF fs]] x st by auto
  qed
  have "touch ?db (save_item (se_now env) ?it ?db)"
  proof (rule save_item_touch [OF touch_wf [OF t wf], of it])
    fix x assume x: "x \<in> set (sd_subs ?db)" "sm_id x = im_submissionId it"
    have "sm_status x = psa_reviewing" by (rule psa [OF x(1)]) (simp only: x(2) fs)
    then show "linked_ok ?it x" by (simp add: linked_ok_def)
  qed (use 2(2) in auto)
  then show ?thesis unfolding 2(5) attach_item_eq [OF 2(3)]
    by (rule converse_rtranclp_into_rtranclp [of touch, OF t r_into_rtranclp [of touch]])
qed simp

lemma complete_cases:
  obtains "markItemCompletedForCycle env cyc db = (False, db)"
  | it db1 where "it \<in> set (sd_items db)" "im_vaultCycleId it = Some cyc"
    "db1 = save_item (se_now env) (it\<lparr>im_status := it_completed\<rparr>) db"
    "markItemCompletedForCycle env cyc db = (True, case find_sub (im_submissionId it) db1 of
       None \<Rightarrow> db1
     | Some s \<Rightarrow> if list_all (\<lambda>i. finished_item (im_status i)) (items_of (sm_id s) db1)
         then save_sub (se_now env) (s\<lparr>sm_status := sb_completed,
           sm_vaultedAt := (if sm_vaultedAt s = None then Some (se_now env) else sm_vaultedAt s)\<rparr>) db1 else db1)"
proof (cases "find_row (\<lambda>it. im_vaultCycleId it = Some cyc) (sd_items db)")
  case None
  then show thesis using that(1) by (simp add: markItemCompletedForCycle_def)
next
  case (Some it)
  then show thesis
    using that(2) [OF _ _ refl, of it] find_row_Some [OF Some]
    by (simp add: markItemCompletedForCycle_def Let_def split: option.splits)
qed

lemma complete_touch:
  assumes wf: "submissions_wf db"
  shows "touch\<^sup>*\<^sup>* db (snd (markItemCompletedForCycle env cyc db))"
proof (cases rule: complete_cases [of env cyc db])
  case (2 it db1)
  obtain s where s: "find_sub (im_submissionId it) db = Some s" "s \<in> set (sd_subs db)"
    "sm_id s = im_submissionId it" "linked_ok it s"
    using package_of_item [OF wf 2(1)] .
  have st: "sm_status s = psa_reviewing \<or> sm_status s = sb_completed" using s(4) 2(2) by (auto simp: linked_ok_def)
  have t: "touch db db1"
    unfolding 2(3)
  proof (rule save_item_touch [OF wf 2(1)])
    fix x assume "x \<in> set (sd_subs db)" "sm_id x = im_submissionId it"
    then have "x = s" using sub_by_id [OF wf _ s(2)] s(3) by simp
    then show "linked_ok (it\<lparr>im_status := it_completed\<rparr>) x"
      using st by (auto simp: linked_ok_def finished_item_def)
  qed simp_all
  have s1: "find_sub (im_submissionId it) db1 = Some s" "s \<in> set (sd_subs db1)"
    using s by (simp_all add: 2(3) find_sub_def)
  let ?s = "s\<lparr>sm_status := sb_completed,
    sm_vaultedAt := (if sm_vaultedAt s = None then Some (se_now env) else sm_vaultedAt s)\<rparr>"
  have "touch db1 (save_sub (se_now env) ?s db1)"
    if "list_all (\<lambda>i. finished_item (im_status i)) (items_of (sm_id s) db1)"
    by (rule save_sub_touch [OF touch_wf [OF t wf] s1(2)])
       (use st that in \<open>auto simp: linked_ok_def list_all_iff items_of_def\<close>)
  then have "touch\<^sup>*\<^sup>* db1 (if list_all (\<lambda>i. finished_item (im_status i)) (items_of (sm_id s) db1)
      then save_sub (se_now env) ?s db1 else db1)" by (cases "list_all (\<lambda>i. finished_item (im_status i)) (items_of (sm_id s) db1)") simp_all
  with t show ?thesis unfolding 2(4) s1(1) snd_conv option.case by (rule converse_rtranclp_into_rtranclp)
qed simp

section \<open>The shipping package\<close>

lemma package_for_upsert_Some:
  "package_for_upsert u p tc db = Some s \<Longrightarrow>
   s \<in> set (sd_subs db) \<and> (sm_status s = sb_draft \<or> sm_status s = awaiting_shipment)"
  by (auto simp: package_for_upsert_def latest_of_user_def open_for_upsert_def Let_def
      split: option.splits if_splits dest!: find_row_Some latest_by_Some)

lemma new_package_fields [simp]:
  "sm_id (new_package env pid u ch tc db) = sd_next db" "sm_publicId (new_package env pid u ch tc db) = pid"
  "sm_status (new_package env pid u ch tc db) = awaiting_shipment"
  "sm_userId (new_package env pid u ch tc db) = u"
  by (simp_all add: new_package_def)

text \<open>Opening a package keeps everything and adds at most one, which has no items.\<close>

lemma open_package_ok:
  assumes wf: "submissions_wf db" and clock: "clock_ok env"
    and ok: "open_package env u p ch tc db = Inr (s, db')"
  shows "submissions_wf db' \<and> package_life db db' \<and> s \<in> set (sd_subs db')
    \<and> (sm_status s = sb_draft \<or> sm_status s = awaiting_shipment)"
proof (cases "package_for_upsert u p tc db")
  case (Some t)
  then show ?thesis using ok wf package_for_upsert_Some [OF Some] by (auto simp: open_package_def)
next
  case None
  then obtain pid where pid: "nextDailyPublicId env db = Inr pid"
    and s: "s = new_package env pid u ch tc db"
    and db': "db' = db\<lparr>sd_subs := sd_subs db @ [s], sd_next := sd_next db + 1\<rparr>"
    using ok by (auto simp: open_package_def Let_def on_ok_eq_Inr split: if_splits)
  have "\<forall>s \<in> set (sd_subs db). public_id_form (sm_publicId s)" using wf by (simp add: submissions_wf_def)
  note id = nextDaily_form [OF this clock pid]
  have "all_linked (sd_items db) (sd_subs db @ [s])"
    using wf by (auto simp: submissions_wf_def all_linked_def)
  then have "submissions_wf db'"
    using wf id unfolding db' by (auto simp: submissions_wf_def s less_Suc_eq)
  moreover have "package_life db db'"
  proof -
    have fresh: "find_sub (sd_next db) db = None" using wf by (auto simp: submissions_wf_def find_sub_def find_key_None)
    have "package_statuses db' = (package_statuses db)(sd_next db \<mapsto> awaiting_shipment)"
    proof
      fix i
      have "List.find P (xs @ [x]) = (case List.find P xs of None \<Rightarrow> if P x then Some x else None | Some y \<Rightarrow> Some y)"
        for P :: "submission \<Rightarrow> bool" and xs x by (induction xs) auto
      then show "package_statuses db' i = ((package_statuses db)(sd_next db \<mapsto> awaiting_shipment)) i"
        using fresh by (auto simp: package_statuses_def find_sub_def find_key_def db' s split: option.splits)
    qed
    moreover have "package_statuses db (sd_next db) = None" by (simp add: package_statuses_def fresh)
    ultimately show ?thesis
      using life_step.appear [of "package_statuses db" "sd_next db" initial_package awaiting_shipment package_edge]
      by (simp add: initial_package_def r_into_rtranclp)
  qed
  ultimately show ?thesis by (simp add: db' s)
qed

lemma items_from_cards_simps:
  "map im_id (items_from_cards now n i cards) = [n..<n + length cards]"
  "it \<in> set (items_from_cards now n i cards) \<Longrightarrow> im_submissionId it = i \<and> im_vaultCycleId it = None"
proof -
  have id: "im_id (cardToItem now j i c k) = j" for j c k by (simp add: cardToItem_def)
  have "map im_id (map (\<lambda>(j, c). cardToItem now (n + j) i c j) (enumerate k cards)) = [n + k..<n + k + length cards]" for k
  proof (induction cards arbitrary: k)
    case (Cons c cards)
    then show ?case using Cons [of "Suc k"] by (simp add: id upt_conv_Cons del: upt_Suc)
  qed simp
  from this [of 0] show "map im_id (items_from_cards now n i cards) = [n..<n + length cards]"
    by (simp add: items_from_cards_def)
qed (auto simp: items_from_cards_def cardToItem_def)

lemma replace_items_ok:
  assumes wf: "submissions_wf db" and s: "s \<in> set (sd_subs db)" "sm_status s = sb_draft \<or> sm_status s = awaiting_shipment"
    and ok: "replace_items now (sm_id s) cards db = Inr db'"
  shows "submissions_wf db' \<and> sd_subs db' = sd_subs db"
proof -
  let ?new = "items_from_cards now (sd_next db) (sm_id s) cards"
  let ?kept = "filter (\<lambda>it. im_submissionId it \<noteq> sm_id s) (sd_items db)"
  have uq: "uq_submission_cert (?kept @ ?new)"
    and db': "db' = db\<lparr>sd_items := ?kept @ ?new, sd_next := sd_next db + length cards\<rparr>"
    using ok by (auto simp: replace_items_def Let_def split: if_splits)
  have ids: "map im_id ?new = [sd_next db..<sd_next db + length cards]" by (rule items_from_cards_simps(1))
  then have idset: "im_id ` set ?new = {sd_next db..<sd_next db + length cards}" by (metis list.set_map set_upt)
  have "distinct (map im_id ?new)" by (simp add: ids)
  moreover have "distinct (map im_id ?kept)" using wf by (simp add: submissions_wf_def distinct_map_filter)
  moreover have "im_id ` set ?kept \<inter> im_id ` set ?new = {}"
    using wf unfolding idset by (auto simp: submissions_wf_def)
  ultimately have "distinct (map im_id (?kept @ ?new))" by simp
  moreover have "im_id it < sd_next db'" if it: "it \<in> set (?kept @ ?new)" for it
  proof (cases "it \<in> set ?new")
    case True
    then have "im_id it \<in> {sd_next db..<sd_next db + length cards}" using idset by blast
    then show ?thesis by (simp add: db')
  next
    case False
    then show ?thesis using it wf by (auto simp: submissions_wf_def db')
  qed
  moreover have "all_linked (?kept @ ?new) (sd_subs db)"
    unfolding all_linked_def
  proof
    fix it assume "it \<in> set (?kept @ ?new)"
    then consider "it \<in> set (sd_items db)" | "it \<in> set ?new" by auto
    then show "\<exists>x \<in> set (sd_subs db). sm_id x = im_submissionId it \<and> linked_ok it x"
    proof cases
      case 1
      then show ?thesis using package_of_item [OF wf] by metis
    next
      case 2
      then have "sm_id s = im_submissionId it \<and> linked_ok it s"
        using items_from_cards_simps(2) [OF 2] s(2) by (auto simp: linked_ok_def)
      then show ?thesis using s(1) by blast
    qed
  qed
  ultimately show ?thesis using wf uq by (auto simp: submissions_wf_def db')
qed

lemma upsert_Inr:
  assumes "upsertDraft env u p cards h db = Inr (dto, db')"
  obtains ch tc s db1 db2 where "cards \<noteq> []" "list_all cd_confirmed cards" "submission_scope env h = Inr (ch, tc)"
    "open_package env u p ch tc db = Inr (s, db1)" "replace_items (se_now env) (sm_id s) cards db1 = Inr db2"
    "db' = db2\<lparr>sd_subs := upsert sm_id (if sm_status s = sb_draft \<or> sm_status s = awaiting_shipment
       then s\<lparr>sm_status := awaiting_shipment, sm_updatedAt := se_now env\<rparr> else s) (sd_subs db2)\<rparr>"
  using assms by (auto simp: upsertDraft_def Let_def on_ok_eq_Inr)

lemma upsert_ok:
  assumes wf: "submissions_wf db" and clock: "clock_ok env"
    and ok: "upsertDraft env u p cards h db = Inr (dto, db')"
  shows "submissions_wf db' \<and> package_life db db'"
  using ok
proof (rule upsert_Inr)
  fix ch tc s db1 db2
  assume o: "open_package env u p ch tc db = Inr (s, db1)" and r: "replace_items (se_now env) (sm_id s) cards db1 = Inr db2"
    and db': "db' = db2\<lparr>sd_subs := upsert sm_id (if sm_status s = sb_draft \<or> sm_status s = awaiting_shipment
       then s\<lparr>sm_status := awaiting_shipment, sm_updatedAt := se_now env\<rparr> else s) (sd_subs db2)\<rparr>"
  note 1 = open_package_ok [OF wf clock o]
  then have 2: "submissions_wf db2" "sd_subs db2 = sd_subs db1" using replace_items_ok [of db1 s] r by blast+
  have l12: "package_statuses db2 = package_statuses db1" by (simp add: package_statuses_def [abs_def] find_sub_def 2)
  let ?s = "s\<lparr>sm_status := awaiting_shipment, sm_updatedAt := se_now env\<rparr>"
  have m: "s \<in> set (sd_subs db2)" and st: "sm_status s = sb_draft \<or> sm_status s = awaiting_shipment" using 1 2 by auto
  have sub: "sd_subs db' = map (\<lambda>x. if sm_id x = sm_id s then ?s else x) (sd_subs db2)"
    using upsert_mapped [of sm_id "sd_subs db2" ?s] m 2(1) st by (auto simp: db' submissions_wf_def)
  have same: "x = s" if "x \<in> set (sd_subs db2)" "sm_id x = sm_id s" for x
    by (rule sub_by_id [OF 2(1) that(1) m that(2)])
  have "touch db2 db'"
  proof (rule touch.intros [OF _ sub, of id])
    show "touch_by id (\<lambda>x. if sm_id x = sm_id s then ?s else x) db2"
      unfolding touch_by_def
    proof (intro conjI ballI impI)
      fix it x assume it: "it \<in> set (sd_items db2)" "x \<in> set (sd_subs db2)" "sm_id x = im_submissionId it"
      have "linked_ok it x" by (rule item_linked [OF 2(1) it])
      then show "linked_ok (id it) (if sm_id x = sm_id s then ?s else x)"
        using same [OF it(2)] st by (auto simp: linked_ok_def)
    qed (use st in \<open>auto dest!: same\<close>)
  qed (simp_all add: db')
  then show ?thesis using touch_wf [OF _ 2(1)] touch_life 1 l12 by (metis rtranclp_trans)
qed

section \<open>Mails\<close>

lemma frame_touch:
  "submissions_wf db \<Longrightarrow> touch\<^sup>*\<^sup>* db db1 \<Longrightarrow> sd_subs db' = sd_subs db1 \<Longrightarrow> sd_items db' = sd_items db1 \<Longrightarrow>
   sd_next db1 \<le> sd_next db' \<Longrightarrow> touch\<^sup>*\<^sup>* db db'"
  by (rule rtranclp.rtrancl_into_rtrancl, assumption) (rule touch_frame, use touches_ok in blast)

lemma save_review_fields [simp]:
  "sd_subs (save_arrival r db) = sd_subs db" "sd_items (save_arrival r db) = sd_items db"
  "sd_next (save_arrival r db) = sd_next db" "sd_subs (save_vaulted v db) = sd_subs db"
  "sd_items (save_vaulted v db) = sd_items db" "sd_next (save_vaulted v db) = sd_next db"
  by (simp_all add: save_arrival_def save_vaulted_def)

lemma apply_touch:
  assumes wf: "submissions_wf db"
  shows "touch\<^sup>*\<^sup>* db (fst (applyPsaArrivalConfirm env i via db))"
proof (cases "find_arrival i db")
  case (Some review)
  show ?thesis
  proof (cases "ar_status review = ar_pending")
    case True
    show ?thesis
    proof (cases "findOpenPackagesByCerts env (ar_certs review) db")
      case (Inr m)
      note t = mark_packages_touch [OF wf, of "se_now env" "pm_packages m"]
      show ?thesis
        using t frame_touch [OF wf t] by (simp add: applyPsaArrivalConfirm_def Some True Inr split_beta)
    qed (simp add: applyPsaArrivalConfirm_def Some True)
  qed (simp add: applyPsaArrivalConfirm_def Some)
qed (simp add: applyPsaArrivalConfirm_def)

lemma maybe_touch:
  assumes wf: "submissions_wf db"
  shows "touch\<^sup>*\<^sup>* db (fst (maybeAutoConfirmPsaArrivalReview env i db))"
proof -
  have "fst (maybeAutoConfirmPsaArrivalReview env i db) \<in> {db, fst (applyPsaArrivalConfirm env i rv_auto db)}"
    unfolding maybeAutoConfirmPsaArrivalReview_def by (auto split: option.splits sum.splits prod.splits)
  then show ?thesis using apply_touch [OF wf] by auto
qed

lemma auto_confirm_touch: "submissions_wf db \<Longrightarrow> touch\<^sup>*\<^sup>* db (fst (auto_confirm_if env b i db))"
  using maybe_touch by (simp add: auto_confirm_if_def split_beta)

lemma enqueue_arrival_cases:
  obtains x where "fst (enqueuePsaArrivalReview env input db) = fst (auto_confirm_if env
      (ar_status x = ar_pending \<and> mi_autoConfirmEligible input) (ar_id x) db)"
    "find_row (\<lambda>r. ar_gmailMessageId r = mi_gmailMessageId input) (sd_arrivals db) = Some x"
  | "fst (enqueuePsaArrivalReview env input db) = db"
  | match where "fst (enqueuePsaArrivalReview env input db) = fst (auto_confirm_if env (mi_autoConfirmEligible input)
      (sd_next db) (save_arrival (new_arrival input match (sd_next db)) (db\<lparr>sd_next := sd_next db + 1\<rparr>)))"
    "find_row (\<lambda>r. ar_gmailMessageId r = mi_gmailMessageId input) (sd_arrivals db) = None"
proof (cases "find_row (\<lambda>r. ar_gmailMessageId r = mi_gmailMessageId input) (sd_arrivals db)")
  case None
  show thesis
  proof (cases "findOpenPackagesByCerts env (mi_certs input) db")
    case (Inl e)
    then show thesis using None that(2) by (simp add: enqueuePsaArrivalReview_def)
  next
    case (Inr match)
    show thesis by (rule that(3) [OF _ None, of match])
      (use None Inr in \<open>simp add: enqueuePsaArrivalReview_def split_beta Let_def\<close>)
  qed
next
  case (Some x)
  show thesis by (rule that(1) [OF _ Some])
    (use Some in \<open>simp add: enqueuePsaArrivalReview_def split_beta\<close>)
qed

lemma enqueue_arrival_touch:
  assumes wf: "submissions_wf db"
  shows "touch\<^sup>*\<^sup>* db (fst (enqueuePsaArrivalReview env input db))"
proof (cases rule: enqueue_arrival_cases [of env input db])
  case (1 x)
  show ?thesis unfolding 1(1) by (rule auto_confirm_touch [OF wf])
next
  case (3 match)
  have t: "touch db (save_arrival (new_arrival input match (sd_next db)) (db\<lparr>sd_next := sd_next db + 1\<rparr>))"
    by (rule touch_frame [OF wf]) simp_all
  show ?thesis unfolding 3(1)
    by (rule converse_rtranclp_into_rtranclp [of touch, OF t auto_confirm_touch [OF touch_wf [OF t wf]]])
qed simp

section \<open>The machine\<close>

inductive submission_step :: "submission_db \<Rightarrow> submission_db \<Rightarrow> bool" where
  upsert: "clock_ok env \<Longrightarrow> upsertDraft env u p cards h db = Inr (dto, db') \<Longrightarrow> submission_step db db'"
| slip: "markPackingSlipDownloaded env u i h db = Inr db' \<Longrightarrow> submission_step db db'"
| cancel: "cancelPreShipPackage env u i h db = Inr db' \<Longrightarrow> submission_step db db'"
| cancel_cert: "cancelPreShipPackagesForCert env cert ch db = Inr (n, db') \<Longrightarrow> submission_step db db'"
| track: "registerTracking env vdb u i c t d h db = Inr db' \<Longrightarrow> submission_step db db'"
| attach: "attachCycleForCert env u cert cyc ch db = Inr (b, db') \<Longrightarrow> submission_step db db'"
| complete: "markItemCompletedForCycle env cyc db = (b, db') \<Longrightarrow> submission_step db db'"
| arrive: "adminMarkArrived env i db = Inr db' \<Longrightarrow> submission_step db db'"
| arrive_certs: "markArrivedByCerts env certs db = Inr (a, b, c, d, db') \<Longrightarrow> submission_step db db'"
| arrival_mail: "enqueuePsaArrivalReview env input db = (db', r) \<Longrightarrow> submission_step db db'"
| confirm_arrival: "applyPsaArrivalConfirm env i via db = (db', r) \<Longrightarrow> submission_step db db'"
| dismiss_arrival: "dismissPsaArrivalReview env i db = Inr db' \<Longrightarrow> submission_step db db'"
| vaulted_mail: "enqueuePsaVaultedReview input db = (db', v) \<Longrightarrow> submission_step db db'"
| dismiss_vaulted: "dismissPsaVaultedReview env i db = Inr db' \<Longrightarrow> submission_step db db'"
| vaulted_outcome: "recordPsaVaultedMintOutcome env i via results db = Inr db' \<Longrightarrow> submission_step db db'"

inductive_cases submission_stepE: "submission_step db db'"

lemma reviews_touch:
  assumes wf: "submissions_wf db"
  shows "dismissPsaArrivalReview env i db = Inr db' \<Longrightarrow> touch db db'"
    "enqueuePsaVaultedReview input db = (db', v) \<Longrightarrow> touch db db'"
    "dismissPsaVaultedReview env i db = Inr db' \<Longrightarrow> touch db db'"
    "recordPsaVaultedMintOutcome env i via results db = Inr db' \<Longrightarrow> touch db db'"
  by (rule touch_frame [OF wf]; auto simp: dismissPsaArrivalReview_def enqueuePsaVaultedReview_def
      dismissPsaVaultedReview_def recordPsaVaultedMintOutcome_def Let_def split_beta split: option.splits)+

lemma arrive_touch:
  assumes wf: "submissions_wf db"
  shows "adminMarkArrived env i db = Inr db' \<Longrightarrow> touch\<^sup>*\<^sup>* db db'"
    "markArrivedByCerts env certs db = Inr (a, b, c, d, db') \<Longrightarrow> touch\<^sup>*\<^sup>* db db'"
proof -
  show "adminMarkArrived env i db = Inr db' \<Longrightarrow> touch\<^sup>*\<^sup>* db db'"
    by (auto simp: adminMarkArrived_def on_ok_eq_Inr dest: findAny_member intro: arrived_touch [OF wf])
  assume "markArrivedByCerts env certs db = Inr (a, b, c, d, db')"
  then obtain ps where "db' = fst (mark_packages (se_now env) ps db)"
    by (auto simp: markArrivedByCerts_def on_ok_eq_Inr split_beta)
  then show "touch\<^sup>*\<^sup>* db db'" using mark_packages_touch [OF wf] by simp
qed

lemma in_place_touch:
  assumes wf: "submissions_wf db"
  shows "markItemCompletedForCycle env cyc db = (b, db') \<Longrightarrow> touch\<^sup>*\<^sup>* db db'"
    "enqueuePsaArrivalReview env input db = (db', r) \<Longrightarrow> touch\<^sup>*\<^sup>* db db'"
    "applyPsaArrivalConfirm env i via db = (db', q) \<Longrightarrow> touch\<^sup>*\<^sup>* db db'"
    "markPackingSlipDownloaded env u k h db = Inr db' \<Longrightarrow> touch\<^sup>*\<^sup>* db db'"
    "cancelPreShipPackage env u k h db = Inr db' \<Longrightarrow> touch\<^sup>*\<^sup>* db db'"
  using complete_touch [OF wf, of env cyc] enqueue_arrival_touch [OF wf, of env input]
    apply_touch [OF wf, of env i via] slip_touch [OF wf] cancel_touch [OF wf] by auto

lemma submission_step_ok:
  assumes step: "submission_step db db'" and wf: "submissions_wf db"
  shows "submissions_wf db' \<and> package_life db db'"
proof -
  note t = in_place_touch [OF wf] cancel_cert_touch [OF wf] track_touch [OF wf] attach_touch [OF wf]
    arrive_touch [OF wf] reviews_touch [OF wf, THEN r_into_rtranclp [of touch]]
  show ?thesis
    using step by (rule submission_stepE) (erule upsert_ok [OF wf] t [THEN touches_ok, OF _ wf], assumption?)+
qed

interpretation submission_machine: invariant_machine submission_step submissions_wf
  by unfold_locales (use submission_step_ok in blast)

interpretation package_refines: status_refinement submission_step submissions_wf package_statuses
    initial_package package_edge
  by unfold_locales (use submission_step_ok in blast)+

lemma submissions_reachable_wf: "submission_step\<^sup>*\<^sup>* empty_submissions db \<Longrightarrow> submissions_wf db"
  using submission_machine.steps_inv empty_submissions_wf by blast

end
