(* ===== verification/SubmissionProperties.thy ===== *)
theory SubmissionProperties
  imports SubmissionMachine
begin

text \<open>
  The properties of the packages: the life of a package, the invariant of the tables, the public
  ids, the certificates a shipped package withholds from self vault, and the reviews of mails.
\<close>

section \<open>The example: one card, shipped\<close>

definition sample_senv :: submission_env where
  "sample_senv = \<lparr>se_config = (\<lambda>k. if k = ''CHAIN_1_RWA_ADDRESS'' then Some (''0x'' @ replicate 40 (CHR ''c''))
       else if k = ''CHAIN_1_RPC_URL'' then Some ''http://node'' else None),
     se_now = 1767225600000, se_tzOffset = 0, se_uuid = nat_str, se_users = (\<lambda>u. None)\<rparr>"

definition sample_card :: card_dto where
  "sample_card = \<lparr>cd_cert = '' 12345678 '', cd_name = ''Card'', cd_grade = 10, cd_img = None, cd_confirmed = True,
     cd_cardNumber = None, cd_year = None, cd_setName = None, cd_language = None, cd_variant = None\<rparr>"

definition sample_open :: submission_db where
  "sample_open = (case upsertDraft sample_senv ''u1'' None [sample_card] None empty_submissions of
     Inl e \<Rightarrow> empty_submissions | Inr (dto, db) \<Rightarrow> db)"

definition sample_shipped :: submission_db where
  "sample_shipped = (case registerTracking sample_senv empty_db ''u1'' ''sub-20260101-00001'' ''ups'' ''1Z 999''
       None None sample_open of Inl e \<Rightarrow> sample_open | Inr db \<Rightarrow> db)"

text \<open>The values of the example, computed once.\<close>

lemma sample_open_value [code]:
  "sample_open = \<lparr>sd_subs = [\<lparr>sm_id = 0, sm_publicId = ''SUB-20260101-00001'', sm_userId = ''u1'', sm_chainId = Some 1,
         sm_tokenContract = Some ''0xcccccccccccccccccccccccccccccccccccccccc'', sm_status = awaiting_shipment, sm_carrier = None,
         sm_trackingNumber = None, sm_shipDate = None, sm_shippedAt = None, sm_packingSlipDownloadedAt = None,
         sm_arrivedAt = None, sm_vaultedAt = None, sm_createdAt = 1767225600000, sm_updatedAt = 1767225600000\<rparr>],
     sd_items = [\<lparr>im_id = 1, im_submissionId = 0, im_certNumber = ''12345678'', im_displayName = Some ''Card'',
         im_cardNumber = None, im_cardYear = None, im_setName = None, im_language = None, im_variant = None,
         im_grade = Some ''PSA 10'', im_imageUrl = None, im_status = confirmed, im_rejectionReason = None,
         im_vaultCycleId = None, im_sortOrder = 0, im_updatedAt = 1767225600000\<rparr>],
     sd_arrivals = [], sd_vaulted = [], sd_next = 2\<rparr>"
  by code_simp

lemma sample_shipped_value [code]:
  "sample_shipped = \<lparr>sd_subs = [\<lparr>sm_id = 0, sm_publicId = ''SUB-20260101-00001'', sm_userId = ''u1'', sm_chainId = Some 1,
         sm_tokenContract = Some ''0xcccccccccccccccccccccccccccccccccccccccc'', sm_status = sb_in_transit, sm_carrier = Some ''ups'',
         sm_trackingNumber = Some ''1Z999'', sm_shipDate = Some ''2026-01-01'', sm_shippedAt = Some 1767225600000, sm_packingSlipDownloadedAt = Some 1767225600000,
         sm_arrivedAt = None, sm_vaultedAt = None, sm_createdAt = 1767225600000, sm_updatedAt = 1767225600000\<rparr>],
     sd_items = [\<lparr>im_id = 1, im_submissionId = 0, im_certNumber = ''12345678'', im_displayName = Some ''Card'',
         im_cardNumber = None, im_cardYear = None, im_setName = None, im_language = None, im_variant = None,
         im_grade = Some ''PSA 10'', im_imageUrl = None, im_status = it_in_transit, im_rejectionReason = None,
         im_vaultCycleId = None, im_sortOrder = 0, im_updatedAt = 1767225600000\<rparr>],
     sd_arrivals = [], sd_vaulted = [], sd_next = 2\<rparr>"
  by code_simp

lemma sample_clock: "clock_ok sample_senv"
  by code_simp

lemma open_reachable: "submission_step\<^sup>*\<^sup>* empty_submissions sample_open"
  unfolding sample_open_def
  by (auto split: sum.split intro: r_into_rtranclp [of submission_step] submission_step.upsert [OF sample_clock])

lemma shipped_step: "submission_step\<^sup>*\<^sup>* sample_open sample_shipped"
  unfolding sample_shipped_def
  by (auto split: sum.split intro: r_into_rtranclp [of submission_step] submission_step.track)

lemma shipped_reachable: "submission_step\<^sup>*\<^sup>* empty_submissions sample_shipped"
  by (rule rtranclp_trans [OF open_reachable shipped_step])

lemma sample_statuses:
  "package_statuses sample_open 0 = Some awaiting_shipment" "package_statuses sample_shipped 0 = Some sb_in_transit"
  by code_simp+

section \<open>The life of a package\<close>

text \<open>C10 Refinement of the package graph: the administrator's hand-set statuses aside, whatever
  operations run between two states, the status of a package has moved along the edges draft,
  awaiting shipment, in transit, with PSA, completed, with cancelling before shipping only; a
  completed or a cancelled package keeps its status.\<close>
theorem package_follows_graph:
  assumes reach: "submission_step\<^sup>*\<^sup>* empty_submissions db" and run: "submission_step\<^sup>*\<^sup>* db db'"
    and s: "package_statuses db i = Some s"
  shows "\<exists>t. package_statuses db' i = Some t \<and> package_edge\<^sup>*\<^sup>* s t
    \<and> (if s \<in> {sb_completed, sb_cancelled} then t = s else True)"
proof -
  have wf: "submissions_wf db" by (rule submissions_reachable_wf [OF reach])
  obtain t where t: "package_statuses db' i = Some t" "package_edge\<^sup>*\<^sup>* s t"
    using package_refines.row_path [OF wf run s] by blast
  have "t = s" if "s \<in> {sb_completed, sb_cancelled}"
    using package_refines.closed_stays [OF wf run s] that t(1) by auto
  with t show ?thesis by simp
qed

theorem package_follows_graph_witness:
  "\<exists>t. package_statuses sample_shipped 0 = Some t \<and> package_edge\<^sup>*\<^sup>* awaiting_shipment t"
  using package_follows_graph [OF open_reachable shipped_step sample_statuses(1)] by blast

text \<open>C20 Invariant of the tables in every state that the package service reaches without the
  administrator's hand-set statuses (adminSetSubmissionStatus and adminSetItemStatus, which write any
  status and can break it): public ids are distinct; an item is linked
  to a vault cycle only when its package is with PSA or completed; the items of a completed package
  are all completed or rejected; no package lists a certificate twice.\<close>
theorem packages_invariant:
  assumes reach: "submission_step\<^sup>*\<^sup>* empty_submissions db" and it: "it \<in> set (sd_items db)"
    and s: "find_sub (im_submissionId it) db = Some s"
  shows "distinct (map sm_publicId (sd_subs db))
    \<and> (if im_vaultCycleId it \<noteq> None then sm_status s \<in> {psa_reviewing, sb_completed} else True)
    \<and> (if sm_status s = sb_completed then finished_item (im_status it) else True)
    \<and> length (filter (\<lambda>jt. im_certNumber jt = im_certNumber it) (items_of (sm_id s) db)) = 1"
proof -
  have wf: "submissions_wf db" by (rule submissions_reachable_wf [OF reach])
  note fs = find_sub_Some [OF s]
  have l: "linked_ok it s" using item_linked [OF wf it] fs by simp
  have uq: "unique_index im_id (\<lambda>i. (im_submissionId i, im_certNumber i)) (\<lambda>_. True) (sd_items db)"
    using wf by (simp add: submissions_wf_def uq_submission_cert_def)
  have same: "jt = it" if "jt \<in> set (sd_items db)" "im_submissionId jt = sm_id s" "im_certNumber jt = im_certNumber it" for jt
    using unique_indexD [OF uq that(1) it] that(2,3) fs item_by_id [OF wf that(1) it] by simp
  have "filter (\<lambda>jt. im_certNumber jt = im_certNumber it) (items_of (sm_id s) db)
      = filter (\<lambda>jt. jt = it) (sd_items db)"
    unfolding items_of_def filter_filter by (rule filter_cong) (use same fs in auto)
  moreover have "distinct (sd_items db)" using wf by (simp add: submissions_wf_def distinct_map)
  ultimately have "length (filter (\<lambda>jt. im_certNumber jt = im_certNumber it) (items_of (sm_id s) db)) = 1"
    using it by (metis One_nat_def distinct_length_filter Int_insert_right_if1 Int_empty_right card_1_singleton_iff Collect_conv_if singleton_conv inf_commute)
  then show ?thesis using wf l by (simp add: submissions_wf_def linked_ok_def)
qed

theorem packages_invariant_witness:
  "length (filter (\<lambda>jt. im_certNumber jt = im_certNumber (hd (sd_items sample_shipped))) (items_of 0 sample_shipped)) = 1"
proof -
  let ?it = "hd (sd_items sample_shipped)" and ?s = "hd (sd_subs sample_shipped)"
  have "sd_items sample_shipped \<noteq> []" and s: "find_sub (im_submissionId ?it) sample_shipped = Some ?s" "sm_id ?s = 0"
    by code_simp+
  then have it: "?it \<in> set (sd_items sample_shipped)" by simp
  from packages_invariant [OF shipped_reachable it s(1)] show ?thesis unfolding s(2) by blast
qed

section \<open>Public ids\<close>

text \<open>C22 The next public id of the day, in any reachable state: it is the prefix of the day and a number
  of five digits from 1 to 99999 that is larger than the number of every package of that day, so it is
  new; the call throws only when the id with number 99999 exists.\<close>
theorem next_public_id:
  assumes reach: "submission_step\<^sup>*\<^sup>* empty_submissions db" and clock: "clock_ok env"
  shows "case nextDailyPublicId env db of
      Inr pid \<Rightarrow> pid \<notin> set (map sm_publicId (sd_subs db)) \<and> (\<exists>n. pid = public_id_prefix env @ pad5 n \<and> 1 \<le> n \<and> n \<le> 99999
        \<and> list_all (\<lambda>s. sm_publicId s \<notin> {public_id_prefix env @ pad5 m | m. n \<le> m \<and> m \<le> 99999}) (sd_subs db))
    | Inl e \<Rightarrow> public_id_prefix env @ pad5 99999 \<in> set (map sm_publicId (sd_subs db))"
proof -
  let ?pre = "public_id_prefix env"
  have wf: "submissions_wf db" by (rule submissions_reachable_wf [OF reach])
  then have ids: "\<forall>s \<in> set (sd_subs db). public_id_form (sm_publicId s)" by (simp add: submissions_wf_def)
  have new: "sm_publicId s \<noteq> ?pre @ pad5 m"
    if "s \<in> set (sd_subs db)" "last_public_id ?pre db = None \<or> last_public_id ?pre db = Some (?pre @ pad5 k) \<and> k < m"
      "m \<le> 99999" for s m k
    by (rule later_id_unused [OF that])
  show ?thesis
  proof (cases rule: nextDaily_cases [OF ids clock])
    case 1
    have "list_all (\<lambda>s. sm_publicId s \<notin> {?pre @ pad5 m | m. 1 \<le> m \<and> m \<le> 99999}) (sd_subs db)"
      using new 1(1) by (auto simp: list_all_iff)
    then show ?thesis
      unfolding 1(2) using nextDaily_form [OF ids clock 1(2)] by (auto intro!: exI [of _ 1])
  next
    case (2 k)
    show ?thesis
    proof (cases "k < 99999")
      case True
      have "list_all (\<lambda>s. sm_publicId s \<notin> {?pre @ pad5 m | m. k + 1 \<le> m \<and> m \<le> 99999}) (sd_subs db)"
        using new [of _ k] 2(1) by (fastforce simp: list_all_iff)
      then show ?thesis
        using nextDaily_form [OF ids clock, of "?pre @ pad5 (k + 1)"] 2(3) True
        by (auto intro!: exI [of _ "k + 1"])
    next
      case False
      then have "k = 99999" using 2(2) by simp
      then show ?thesis using 2 latest_by_Some [OF 2(1) [unfolded last_public_id_def]] by auto
    qed
  qed
qed

theorem next_public_id_witness:
  "nextDailyPublicId sample_senv sample_open = Inr ''SUB-20260101-00002''
   \<and> ''SUB-20260101-00002'' \<notin> set (map sm_publicId (sd_subs sample_open))"
proof -
  have n: "nextDailyPublicId sample_senv sample_open = Inr ''SUB-20260101-00002''" by code_simp
  from next_public_id [OF open_reachable sample_clock, unfolded n] show ?thesis using n by simp
qed

section \<open>A shipped card is not minted by self vault\<close>

lemma save_item_row:
  assumes wf: "submissions_wf db" and j: "it \<in> set (sd_items db)"
  shows "\<exists>x \<in> set (sd_items (save_item now (it\<lparr>im_status := st\<rparr>) db)). item_key x = item_key it \<and> im_status x = st"
proof -
  have "put_item now (it\<lparr>im_status := st\<rparr>) it \<in> set (sd_items (save_item now (it\<lparr>im_status := st\<rparr>) db))"
    using save_item_map [OF wf j, of "it\<lparr>im_status := st\<rparr>" now] j by simp
  moreover have "it = it\<lparr>im_status := st\<rparr> \<Longrightarrow> im_status it = st" by (metis submission_item.select_convs(12) submission_item.surjective submission_item.update_convs(12))
  ultimately show ?thesis by (rule_tac bexI [rotated]) (auto simp: put_item_def)
qed

lemma save_item_other:
  assumes wf: "submissions_wf db" and j: "it \<in> set (sd_items db)"
    and x: "x \<in> set (sd_items db)" "im_id x \<noteq> im_id it"
  shows "x \<in> set (sd_items (save_item now (it\<lparr>im_status := st\<rparr>) db))"
proof -
  have "put_item now (it\<lparr>im_status := st\<rparr>) x \<in> set (sd_items (save_item now (it\<lparr>im_status := st\<rparr>) db))"
    using save_item_map [OF wf j, of "it\<lparr>im_status := st\<rparr>" now] x(1) by simp
  then show ?thesis using x(2) by (simp add: put_item_def)
qed

lemma save_status_wf:
  assumes wf: "submissions_wf db" and it: "it \<in> set (sd_items db)" and s: "s \<in> set (sd_subs db)"
    "sm_id s = im_submissionId it" "sm_status s \<noteq> sb_completed"
  shows "submissions_wf (save_item now (it\<lparr>im_status := st\<rparr>) db)"
proof (rule touch_wf [OF save_item_touch [OF wf it] wf])
  fix x assume "x \<in> set (sd_subs db)" "sm_id x = im_submissionId it"
  then have "x = s" using sub_by_id [OF wf _ s(1)] s(2) by simp
  then show "linked_ok (it\<lparr>im_status := st\<rparr>) x"
    using item_linked [OF wf it s(1,2)] s(3) by (simp add: linked_ok_def)
qed simp_all

text \<open>Rows that the loop does not load stay, and the rows it loads end with the new status.\<close>

lemma set_items_rows:
  "submissions_wf db \<Longrightarrow> s \<in> set (sd_subs db) \<Longrightarrow> sm_status s \<noteq> sb_completed \<Longrightarrow>
   set its \<subseteq> set (sd_items db) \<Longrightarrow> list_all (\<lambda>it. im_submissionId it = sm_id s) its \<Longrightarrow>
   distinct (map im_id its) \<Longrightarrow>
   (x \<in> set (sd_items db) \<longrightarrow> im_id x \<notin> im_id ` set its \<longrightarrow> x \<in> set (sd_items (set_items now p st its db)))
   \<and> (\<forall>it \<in> set its. p (im_status it) \<or> im_status it = st \<longrightarrow>
        (\<exists>y \<in> set (sd_items (set_items now p st its db)). item_key y = item_key it \<and> im_status y = st))"
proof (induction its arbitrary: db x)
  case (Cons it its)
  let ?db = "if p (im_status it) then save_item now (it\<lparr>im_status := st\<rparr>) db else db"
  have it: "it \<in> set (sd_items db)" "sm_id s = im_submissionId it" using Cons.prems(4,5) by auto
  have wf: "submissions_wf ?db" using save_status_wf [OF Cons.prems(1) it(1) Cons.prems(2) it(2) Cons.prems(3)] Cons.prems(1) by simp
  have other: "z \<in> set (sd_items ?db)" if "z \<in> set (sd_items db)" "im_id z \<noteq> im_id it" for z
    using save_item_other [OF Cons.prems(1) it(1) that] that(1) by simp
  have dist: "im_id it \<notin> im_id ` set its" "distinct (map im_id its)" using Cons.prems(6) by auto
  have its: "set its \<subseteq> set (sd_items ?db)"
  proof
    fix z assume z: "z \<in> set its"
    then have "im_id z \<noteq> im_id it" using dist(1) imageI [OF z, of im_id] by metis
    then show "z \<in> set (sd_items ?db)" using other Cons.prems(4) z by auto
  qed
  have rows: "(z \<in> set (sd_items ?db) \<longrightarrow> im_id z \<notin> im_id ` set its \<longrightarrow> z \<in> set (sd_items (set_items now p st its ?db)))
   \<and> (\<forall>it \<in> set its. p (im_status it) \<or> im_status it = st \<longrightarrow>
        (\<exists>y \<in> set (sd_items (set_items now p st its ?db)). item_key y = item_key it \<and> im_status y = st))" for z
    by (rule Cons.IH [OF wf _ Cons.prems(3) its _ dist(2)]) (use Cons.prems(2,5) in auto)
  have eq: "set_items now p st (it # its) db = set_items now p st its ?db" by (simp add: set_items_def)
  have "\<exists>y \<in> set (sd_items (set_items now p st its ?db)). item_key y = item_key it \<and> im_status y = st"
    if "p (im_status it) \<or> im_status it = st"
  proof -
    have "\<exists>z \<in> set (sd_items ?db). item_key z = item_key it \<and> im_status z = st"
    proof (cases "p (im_status it)")
      case True
      then show ?thesis using save_item_row [OF Cons.prems(1) it(1), of now st] by simp
    next
      case False
      then show ?thesis using it(1) that by auto
    qed
    then obtain z where z: "z \<in> set (sd_items ?db)" "item_key z = item_key it" "im_status z = st" by blast
    then have "im_id z \<notin> im_id ` set its" using dist(1) item_keyD(1) [OF z(2)] by simp
    then show ?thesis using rows z by blast
  qed
  moreover have "x \<in> set (sd_items (set_items now p st its ?db))"
    if "x \<in> set (sd_items db)" "im_id x \<notin> im_id ` set (it # its)"
    using rows [of x] other [OF that(1)] that(2) by simp
  ultimately show ?case unfolding eq using rows by (metis (no_types, lifting) set_ConsD)
qed (simp add: set_items_def)

lemma resolve_own_chain:
  "i \<in> set SUPPORTED_CHAIN_IDS \<Longrightarrow> resolveChainId cfg (Some (nat_str i)) = i"
  by (auto simp: resolveChainId_def supported_chain_def SUPPORTED_CHAIN_IDS_def js_trim_decimal)

lemma scope_contract:
  "submission_scope env h = Inr (ch, tc) \<Longrightarrow> contract_of_chain env (Some ch) = Inr tc"
  by (auto simp: submission_scope_def contract_of_chain_def Let_def on_ok_eq_Inr
      resolve_own_chain [OF resolveChainId_supported])

lemma findOwned_contract:
  "findOwned env u i h db = Inr s \<Longrightarrow> submission_scope env h = Inr (ch, tc) \<Longrightarrow> on_contract tc s"
  by (auto simp: findOwned_def Let_def split: option.splits if_splits)

lemma blocked_found:
  assumes wf: "submissions_wf db" and it: "it \<in> set (sd_items db)" "im_certNumber it = normalizeCert cert"
    "im_status it = it_in_transit" and s: "s \<in> set (sd_subs db)" "sm_id s = im_submissionId it"
    "sm_status s \<noteq> sb_cancelled" "on_contract tc s" and ch: "contract_of_chain env ch = Inr tc"
  shows "\<exists>e. assertCertAvailableForSelfVault env cert ch db = Inl e"
proof -
  have "find_sub (im_submissionId it) db = Some s" using find_sub_member [OF wf s(1)] s(2) by simp
  then have "(it, s) \<in> set (joined_items db)"
    unfolding joined_items_def map_filter_member by (intro bexI [OF _ it(1)]) simp
  moreover have "self_vault_blocked (normalizeCert cert) tc (it, s)"
    using it s by (simp add: self_vault_blocked_def isBlockedForSelfVault_def SELF_VAULT_BLOCKED_ITEM_STATUSES_def)
  ultimately have "List.find (self_vault_blocked (normalizeCert cert) tc) (joined_items db) \<noteq> None"
    by (auto simp: find_None_iff)
  then show ?thesis using ch by (auto simp: assertCertAvailableForSelfVault_def Let_def)
qed

lemma set_items_subs [simp]: "sd_subs (set_items now p st its db) = sd_subs db"
proof -
  have "sd_subs (fold (\<lambda>it db. if p (im_status it) then save_item now (it\<lparr>im_status := st\<rparr>) db else db) its db) = sd_subs db"
    by (induction its arbitrary: db) auto
  then show ?thesis by (simp add: set_items_def)
qed

lemma available_normalized:
  "checkAvailableForNewCycle cert ch ty vdb = checkAvailableForNewCycle (normalizeCert cert) ch ty vdb"
  unfolding checkAvailableForNewCycle_def findOpenCycleForCert_def normalizeCert_idem ..

lemma certs_available_all:
  "certs_available vdb ch its = Inr () \<Longrightarrow> it \<in> set its \<Longrightarrow> normalizeCert (im_certNumber it) \<noteq> [] \<Longrightarrow>
   fst (checkAvailableForNewCycle (normalizeCert (im_certNumber it)) ch psa_graded vdb)"
  by (induction its) (auto simp: Let_def split: prod.splits if_splits)

text \<open>C11 Registering tracking takes every card of the package out of self vault: when it succeeds in a
  reachable state, no card of the package had an open vault cycle on the chain, and afterwards a
  self-vault mint of any of its certificates, in any spelling, is refused on that chain.\<close>
theorem shipped_cards_leave_self_vault:
  assumes reach: "submission_step\<^sup>*\<^sup>* empty_submissions db"
    and ok: "registerTracking env vdb u i c t d h db = Inr db'"
    and own: "findOwned env u i h db = Inr s" "submission_scope env h = Inr (ch, tc)"
    and it: "it \<in> set (items_of (sm_id s) db)" "normalizeCert cert = im_certNumber it"
  shows "(if im_certNumber it = [] then True else fst (checkAvailableForNewCycle cert ch psa_graded vdb))
    \<and> (\<exists>e. assertCertAvailableForSelfVault env cert (Some ch) db' = Inl e)"
proof -
  have wf: "submissions_wf db" by (rule submissions_reachable_wf [OF reach])
  have s: "s \<in> set (sd_subs db)" using findOwned_member [OF own(1)] .
  let ?s = "shipped env c t d s" and ?its = "items_of (sm_id s) db" and ?now = "se_now env"
  let ?db = "save_sub ?now ?s db"
  have st: "sm_status s = sb_draft \<or> sm_status s = awaiting_shipment \<or> sm_status s = sb_in_transit"
    and conf: "list_all (\<lambda>it. im_status it = confirmed \<or> im_status it = it_in_transit) ?its"
    and avail: "certs_available vdb ch ?its = Inr ()"
    and db': "db' = set_items ?now (\<lambda>st. st = confirmed) it_in_transit ?its ?db"
    using ok own by (auto elim!: track_Inr)
  have t: "touch db ?db" by (rule move_touch [OF wf s]) (use st in auto)
  note wf1 = touch_wf [OF t wf]
  obtain x where x: "x \<in> set (sd_subs ?db)" "sm_id x = sm_id s" "sm_status x = sb_in_transit"
    "sm_tokenContract x = sm_tokenContract s" using saved_member [OF wf s, of ?s ?now] by auto
  have its: "set ?its \<subseteq> set (sd_items ?db)" "list_all (\<lambda>it. im_submissionId it = sm_id x) ?its"
    by (auto simp: items_of_def list_all_iff x(2))
  have "distinct (map im_id ?its)" using wf by (simp add: items_of_def submissions_wf_def distinct_map_filter)
  then have "\<exists>y \<in> set (sd_items db'). item_key y = item_key it \<and> im_status y = it_in_transit"
    using set_items_rows [OF wf1 x(1) _ its, where p = "\<lambda>st. st = confirmed" and st = it_in_transit and now = ?now] x(3) it(1) conf
    unfolding db' by (auto simp: list_all_iff)
  then obtain y where y: "y \<in> set (sd_items db')" "item_key y = item_key it" "im_status y = it_in_transit" by blast
  have x': "x \<in> set (sd_subs db')" using x(1) by (simp add: db' set_items_subs)
  have "\<exists>e. assertCertAvailableForSelfVault env cert (Some ch) db' = Inl e"
  proof (rule blocked_found [OF _ y(1) _ y(3) x'])
    show "submissions_wf db'" using track_touch [OF wf ok] touches_ok wf by blast
    show "on_contract tc x" using findOwned_contract [OF own] by (simp add: on_contract_def x(4))
    show "contract_of_chain env (Some ch) = Inr tc" by (rule scope_contract [OF own(2)])
  qed (use item_keyD [OF y(2)] it x in \<open>auto simp: items_of_member\<close>)
  moreover have "normalizeCert (im_certNumber it) = im_certNumber it"
    unfolding it(2) [symmetric] by simp
  ultimately show ?thesis
    using certs_available_all [OF avail it(1)] available_normalized [of cert ch] by (simp add: it(2))
qed

theorem shipped_cards_leave_self_vault_witness:
  "\<exists>e. assertCertAvailableForSelfVault sample_senv ''12345678'' (Some 1) sample_shipped = Inl e"
proof -
  let ?s = "hd (sd_subs sample_open)" and ?it = "hd (sd_items sample_open)"
  have ok: "registerTracking sample_senv empty_db ''u1'' ''sub-20260101-00001'' ''ups'' ''1Z 999'' None None sample_open
      = Inr sample_shipped"
    by code_simp
  have own: "findOwned sample_senv ''u1'' ''sub-20260101-00001'' None sample_open = Inr ?s"
    "submission_scope sample_senv None = Inr (1, ''0x'' @ replicate 40 (CHR ''c''))"
    and it: "?it \<in> set (items_of (sm_id ?s) sample_open)" "normalizeCert ''12345678'' = im_certNumber ?it"
    by code_simp+
  from shipped_cards_leave_self_vault [OF open_reachable ok own it] show ?thesis by blast
qed

section \<open>Reviews of mails\<close>

definition arrival_keys :: "submission_db \<Rightarrow> (nat \<times> string) list" where
  "arrival_keys db = map (\<lambda>r. (ar_id r, ar_gmailMessageId r)) (sd_arrivals db)"

lemma keys_upsert_found:
  "find_key key (key r) t = Some x \<Longrightarrow> g r = g x \<Longrightarrow> map (\<lambda>r. (key r, g r)) (upsert key r t) = map (\<lambda>r. (key r, g r)) t"
  by (induction t) (auto simp: find_key_def split: if_splits)

lemma arrivals_set_items [simp]: "sd_arrivals (set_items now p st its db) = sd_arrivals db"
proof -
  have "sd_arrivals (fold (\<lambda>it db. if p (im_status it) then save_item now (it\<lparr>im_status := st\<rparr>) db else db) its db)
      = sd_arrivals db" by (induction its arbitrary: db) auto
  then show ?thesis by (simp add: set_items_def)
qed

lemma arrivals_mark_packages [simp]: "sd_arrivals (fst (mark_packages now ps db)) = sd_arrivals db"
proof (induction ps arbitrary: db)
  case (Cons p ps)
  have "sd_arrivals db1 = sd_arrivals db" if "mark_arrived now s db = Inr db1" for s db1
    using that by (auto simp: mark_arrived_def)
  then show ?case using Cons by (auto simp: split_beta split: sum.split option.split)
qed simp

lemma arrival_keys_apply: "arrival_keys (fst (applyPsaArrivalConfirm env i via db)) = arrival_keys db"
proof (cases "find_arrival i db")
  case (Some review)
  have "arrival_keys (save_arrival r db') = arrival_keys db"
    if "sd_arrivals db' = sd_arrivals db" "ar_id r = ar_id review" "ar_gmailMessageId r = ar_gmailMessageId review" for r db'
    using that Some find_key_Some [of ar_id i "sd_arrivals db" review]
      keys_upsert_found [of ar_id r "sd_arrivals db" review ar_gmailMessageId]
    by (simp add: arrival_keys_def save_arrival_def find_arrival_def)
  moreover have "arrival_keys (fst (mark_packages now ps db)) = arrival_keys db" for now ps
    by (simp add: arrival_keys_def)
  ultimately show ?thesis
    by (auto simp: applyPsaArrivalConfirm_def Some split_beta split: sum.split)
qed (simp add: applyPsaArrivalConfirm_def)

lemma arrival_keys_auto: "arrival_keys (fst (auto_confirm_if env b i db)) = arrival_keys db"
proof -
  have "fst (maybeAutoConfirmPsaArrivalReview env i db) \<in> {db, fst (applyPsaArrivalConfirm env i rv_auto db)}"
    unfolding maybeAutoConfirmPsaArrivalReview_def by (auto split: option.splits sum.splits prod.splits)
  then show ?thesis using arrival_keys_apply [of env i rv_auto db] by (auto simp: auto_confirm_if_def split_beta)
qed

lemma find_mail:
  "map_option ar_id (find_row (\<lambda>r. ar_gmailMessageId r = m) (sd_arrivals db))
    = map_option fst (List.find (\<lambda>k. snd k = m) (arrival_keys db))"
proof -
  have "map_option ar_id (List.find (\<lambda>r. ar_gmailMessageId r = m) t)
      = map_option fst (List.find (\<lambda>k. snd k = m) (map (\<lambda>r. (ar_id r, ar_gmailMessageId r)) t))" for t
    by (induction t) auto
  then show ?thesis by (simp add: find_row_def arrival_keys_def)
qed

lemma enqueue_found:
  assumes "enqueuePsaArrivalReview env input db = (db', Inr i)" and wf: "\<forall>r \<in> set (sd_arrivals db). ar_id r < sd_next db"
  shows "map_option fst (List.find (\<lambda>k. snd k = mi_gmailMessageId input) (arrival_keys db')) = Some i"
proof (cases "find_row (\<lambda>r. ar_gmailMessageId r = mi_gmailMessageId input) (sd_arrivals db)")
  case (Some x)
  then have "i = ar_id x" "arrival_keys db' = arrival_keys db"
    using assms(1) arrival_keys_auto [of env _ "ar_id x" db]
    by (auto simp: enqueuePsaArrivalReview_def split_beta on_ok_eq_Inr)
  then show ?thesis using find_mail [of "mi_gmailMessageId input" db] Some by simp
next
  case None
  then obtain match where m: "i = sd_next db" "arrival_keys db'
      = arrival_keys (save_arrival (new_arrival input match (sd_next db)) (db\<lparr>sd_next := sd_next db + 1\<rparr>))"
    using assms(1) arrival_keys_auto
    by (auto simp: enqueuePsaArrivalReview_def split_beta Let_def on_ok_eq_Inr split: sum.splits)
  have "ar_id (new_arrival input match (sd_next db)) \<notin> ar_id ` set (sd_arrivals db)"
    using wf by (auto simp: new_arrival_def)
  then have "arrival_keys db' = arrival_keys db @ [(sd_next db, mi_gmailMessageId input)]"
    unfolding m(2) by (simp add: arrival_keys_def save_arrival_def upsert_fresh) (simp add: new_arrival_def)
  moreover have "List.find (\<lambda>k. snd k = mi_gmailMessageId input) (arrival_keys db) = None"
    using find_mail [of "mi_gmailMessageId input" db] None by simp
  moreover have "List.find P xs = None \<Longrightarrow> List.find P (xs @ [x]) = (if P x then Some x else None)"
    for P :: "nat \<times> string \<Rightarrow> bool" and xs x by (induction xs) (auto split: if_splits)
  ultimately show ?thesis by (simp add: m(1))
qed

lemma mails_next [simp]:
  "sd_next (set_items now p st its db) = sd_next db" "sd_next (fst (mark_packages now ps db)) = sd_next db"
proof -
  have "sd_next (fold (\<lambda>it db. if p (im_status it) then save_item now (it\<lparr>im_status := st\<rparr>) db else db) its db)
      = sd_next db" for p st its db by (induction its arbitrary: db) auto
  then show 1: "sd_next (set_items now p st its db) = sd_next db" for p st its db by (simp add: set_items_def)
  show "sd_next (fst (mark_packages now ps db)) = sd_next db"
  proof (induction ps arbitrary: db)
    case (Cons p ps)
    have "sd_next db1 = sd_next db" if "mark_arrived now s db = Inr db1" for s db1
      using that 1 by (auto simp: mark_arrived_def)
    then show ?case using Cons by (auto simp: split_beta split: sum.split option.split)
  qed simp
qed

text \<open>
  The queue of arrival mails only grows: its entries keep their ids and their mails, and a new
  one comes after them with an id of its own.
\<close>

definition mails_ok :: "submission_db \<Rightarrow> bool" where
  "mails_ok db = (\<forall>r \<in> set (sd_arrivals db). ar_id r < sd_next db)"

definition mails_grow :: "submission_db \<Rightarrow> submission_db \<Rightarrow> bool" where
  "mails_grow db db' = (mails_ok db \<longrightarrow> mails_ok db' \<and> (\<exists>ks. arrival_keys db' = arrival_keys db @ ks))"

lemma mails_ok_keys: "mails_ok db \<longleftrightarrow> (\<forall>k \<in> set (arrival_keys db). fst k < sd_next db)"
  by (auto simp: mails_ok_def arrival_keys_def)

lemma mails_same:
  "arrival_keys db' = arrival_keys db \<Longrightarrow> sd_next db \<le> sd_next db' \<Longrightarrow> mails_grow db db'"
  unfolding mails_grow_def mails_ok_keys by fastforce

lemma mails_frame:
  "sd_arrivals db' = sd_arrivals db \<Longrightarrow> sd_next db \<le> sd_next db' \<Longrightarrow> mails_grow db db'"
  by (rule mails_same) (simp_all add: arrival_keys_def)

lemma mails_grow_trans: "mails_grow a b \<Longrightarrow> mails_grow b c \<Longrightarrow> mails_grow a c"
  unfolding mails_grow_def by force

lemma mails_grow_first:
  assumes "mails_grow db db'" "mails_ok db" "List.find (\<lambda>k. snd k = m) (arrival_keys db) = Some k"
  shows "List.find (\<lambda>k. snd k = m) (arrival_keys db') = Some k"
proof -
  have "List.find P xs = Some k \<Longrightarrow> List.find P (xs @ ys) = Some k" for P :: "nat \<times> string \<Rightarrow> bool" and xs ys
    by (induction xs) (auto split: if_splits)
  then show ?thesis using assms by (auto simp: mails_grow_def)
qed

lemma apply_next: "sd_next (fst (applyPsaArrivalConfirm env i via db)) = sd_next db"
  by (auto simp: applyPsaArrivalConfirm_def split_beta split: option.split sum.split)

lemma auto_confirm_next: "sd_next (fst (auto_confirm_if env b i db)) = sd_next db"
proof -
  have "fst (maybeAutoConfirmPsaArrivalReview env i db) \<in> {db, fst (applyPsaArrivalConfirm env i rv_auto db)}"
    unfolding maybeAutoConfirmPsaArrivalReview_def by (auto split: option.splits sum.splits prod.splits)
  then show ?thesis using apply_next [of env i rv_auto db] by (auto simp: auto_confirm_if_def split_beta)
qed

lemma auto_confirm_grow: "mails_grow db (fst (auto_confirm_if env b i db))"
  by (rule mails_same) (simp_all add: arrival_keys_auto auto_confirm_next)

lemma enqueue_grow: "mails_grow db (fst (enqueuePsaArrivalReview env input db))"
proof (cases rule: enqueue_arrival_cases [of env input db])
  case (3 match)
  let ?db = "save_arrival (new_arrival input match (sd_next db)) (db\<lparr>sd_next := sd_next db + 1\<rparr>)"
  have "mails_grow db ?db"
    unfolding mails_grow_def
  proof
    assume ok: "mails_ok db"
    then have "ar_id (new_arrival input match (sd_next db)) \<notin> ar_id ` set (sd_arrivals db)"
      by (auto simp: mails_ok_def new_arrival_def)
    then have "sd_arrivals ?db = sd_arrivals db @ [new_arrival input match (sd_next db)]"
      by (simp add: save_arrival_def upsert_fresh)
    then show "mails_ok ?db \<and> (\<exists>ks. arrival_keys ?db = arrival_keys db @ ks)"
      using ok by (auto simp: mails_ok_def arrival_keys_def new_arrival_def)
  qed
  then show ?thesis unfolding 3(1) using auto_confirm_grow mails_grow_trans by blast
qed (simp_all only: auto_confirm_grow mails_same order_refl)

lemma dismiss_grow:
  assumes "dismissPsaArrivalReview env i db = Inr db'"
  shows "mails_grow db db'"
proof -
  obtain review where r: "find_arrival i db = Some review"
    "db' = save_arrival (review\<lparr>ar_status := ar_dismissed, ar_reviewedAt := Some (se_now env)\<rparr>) db"
    using assms by (auto simp: dismissPsaArrivalReview_def split: option.splits)
  have "arrival_keys db' = arrival_keys db"
    using r(1) find_key_Some [of ar_id i "sd_arrivals db" review]
      keys_upsert_found [of ar_id "review\<lparr>ar_status := ar_dismissed, ar_reviewedAt := Some (se_now env)\<rparr>"
        "sd_arrivals db" review ar_gmailMessageId]
    by (simp add: r(2) arrival_keys_def save_arrival_def find_arrival_def)
  then show ?thesis by (rule mails_same) (simp add: r(2))
qed

lemma upsert_frame:
  assumes "upsertDraft env u p cards h db = Inr (dto, db')"
  shows "sd_arrivals db' = sd_arrivals db \<and> sd_next db \<le> sd_next db'"
  using assms
  by (rule upsert_Inr)
     (auto simp: open_package_def replace_items_def Let_def on_ok_eq_Inr split: option.splits if_splits)

lemma cancel_cert_frame:
  assumes "cancelPreShipPackagesForCert env cert ch db = Inr (n, db')"
  shows "sd_arrivals db' = sd_arrivals db \<and> sd_next db \<le> sd_next db'"
proof -
  have "sd_arrivals (fold (\<lambda>s. save_sub now (f s)) rows db) = sd_arrivals db
      \<and> sd_next (fold (\<lambda>s. save_sub now (f s)) rows db) = sd_next db" for now f rows
    by (induction rows arbitrary: db) simp_all
  then show ?thesis using assms by (auto simp: cancelPreShipPackagesForCert_def Let_def on_ok_eq_Inr split: if_splits)
qed

lemma attach_item_frame [simp]:
  "sd_arrivals (attach_item now cyc it db) = sd_arrivals db" "sd_next (attach_item now cyc it db) = sd_next db"
  by (simp_all add: attach_item_def Let_def split: option.split)

lemma package_frames:
  "markPackingSlipDownloaded env u i h db = Inr db' \<Longrightarrow> sd_arrivals db' = sd_arrivals db \<and> sd_next db \<le> sd_next db'"
  "cancelPreShipPackage env u i h db = Inr db' \<Longrightarrow> sd_arrivals db' = sd_arrivals db \<and> sd_next db \<le> sd_next db'"
  "registerTracking env vdb u i c t d h db = Inr db' \<Longrightarrow> sd_arrivals db' = sd_arrivals db \<and> sd_next db \<le> sd_next db'"
  "markItemCompletedForCycle env cyc db = (b, db') \<Longrightarrow> sd_arrivals db' = sd_arrivals db \<and> sd_next db \<le> sd_next db'"
  "adminMarkArrived env i db = Inr db' \<Longrightarrow> sd_arrivals db' = sd_arrivals db \<and> sd_next db \<le> sd_next db'"
  by (auto simp: markPackingSlipDownloaded_def cancelPreShipPackage_def registerTracking_def
      markItemCompletedForCycle_def adminMarkArrived_def mark_arrived_def Let_def on_ok_eq_Inr
      split: option.splits if_splits)

lemma attach_frame:
  assumes "attachCycleForCert env u cert cyc ch db = Inr (b, db')"
  shows "sd_arrivals db' = sd_arrivals db \<and> sd_next db \<le> sd_next db'"
  using assms by (rule attach_Inr) simp_all

lemma arrive_certs_frame:
  "markArrivedByCerts env certs db = Inr (a, b, c, d, db') \<Longrightarrow> sd_arrivals db' = sd_arrivals db \<and> sd_next db \<le> sd_next db'"
  by (auto simp: markArrivedByCerts_def on_ok_eq_Inr split_beta)

lemma vaulted_frames:
  "enqueuePsaVaultedReview input db = (db', v) \<Longrightarrow> sd_arrivals db' = sd_arrivals db \<and> sd_next db \<le> sd_next db'"
  "dismissPsaVaultedReview env i db = Inr db' \<Longrightarrow> sd_arrivals db' = sd_arrivals db \<and> sd_next db \<le> sd_next db'"
  "recordPsaVaultedMintOutcome env i via results db = Inr db' \<Longrightarrow> sd_arrivals db' = sd_arrivals db \<and> sd_next db \<le> sd_next db'"
  by (auto simp: enqueuePsaVaultedReview_def dismissPsaVaultedReview_def recordPsaVaultedMintOutcome_def Let_def
      split_beta save_vaulted_def split: option.splits if_splits)

lemma step_grows: "submission_step db db' \<Longrightarrow> mails_grow db db'"
proof (erule submission_stepE)
  fix env i via r assume "applyPsaArrivalConfirm env i via db = (db', r)"
  then show ?thesis
    using arrival_keys_apply [of env i via db] apply_next [of env i via db] by (simp add: mails_same)
next
  fix env input r assume "enqueuePsaArrivalReview env input db = (db', r)"
  then show "mails_grow db db'" using enqueue_grow [of db env input] by simp
qed (use mails_frame upsert_frame cancel_cert_frame package_frames attach_frame arrive_certs_frame vaulted_frames dismiss_grow in metis)+

lemma steps_grow: "submission_step\<^sup>*\<^sup>* db db' \<Longrightarrow> mails_grow db db'"
proof (induction rule: rtranclp_induct)
  case (step y z)
  then show ?case using step_grows mails_grow_trans by blast
qed (simp add: mails_same)

text \<open>C24 A mail that the poll delivers again is not queued again. After a call that answered with
  its review, let any operations of the package service run (the administrator's hand-set statuses,
  which write no reviews, apart): other mails, an operator who confirms or dismisses the review,
  packages that move on. When the mail is then delivered again, the second call finds the review of
  the first, adds none, answers with the same review unless it throws, and changes nothing when the
  review was decided in between.\<close>
theorem arrival_mail_queued_once:
  assumes "enqueuePsaArrivalReview env input db = (db1, Inr i)" and "\<forall>r \<in> set (sd_arrivals db). ar_id r < sd_next db"
    and between: "submission_step\<^sup>*\<^sup>* db1 db1'"
    and again: "mi_gmailMessageId input' = mi_gmailMessageId input" "enqueuePsaArrivalReview env' input' db1' = (db2, r)"
  shows "arrival_keys db2 = arrival_keys db1' \<and> (case r of Inr j \<Rightarrow> j = i | Inl e \<Rightarrow> True)
    \<and> (if map_option ar_status (find_row (\<lambda>r. ar_gmailMessageId r = mi_gmailMessageId input) (sd_arrivals db1')) = Some ar_pending
       then True else db2 = db1')"
proof -
  have "mails_ok db1" using enqueue_grow [of db env input] assms(1,2) by (simp add: mails_grow_def mails_ok_def)
  moreover obtain k where "List.find (\<lambda>k. snd k = mi_gmailMessageId input) (arrival_keys db1) = Some k" "fst k = i"
    using enqueue_found [OF assms(1,2)] by blast
  ultimately have "map_option fst (List.find (\<lambda>k. snd k = mi_gmailMessageId input) (arrival_keys db1')) = Some i"
    using mails_grow_first [OF steps_grow [OF between]] by simp
  then have "map_option ar_id (find_row (\<lambda>r. ar_gmailMessageId r = mi_gmailMessageId input) (sd_arrivals db1')) = Some i"
    using find_mail by metis
  then obtain x where x: "find_row (\<lambda>r. ar_gmailMessageId r = mi_gmailMessageId input) (sd_arrivals db1') = Some x"
    "ar_id x = i" by auto
  have f: "find_row (\<lambda>r. ar_gmailMessageId r = mi_gmailMessageId input') (sd_arrivals db1') = Some x"
    using x(1) by (simp only: again(1))
  let ?b = "ar_status x = ar_pending \<and> mi_autoConfirmEligible input'"
  have "db2 = fst (auto_confirm_if env' ?b i db1')" "r = on_ok (snd (auto_confirm_if env' ?b i db1')) (\<lambda>_. Inr i)"
    using again(2) f x(2) by (auto simp: enqueuePsaArrivalReview_def split_beta)
  moreover have "\<not> ?b \<Longrightarrow> fst (auto_confirm_if env' ?b i db1') = db1'" by (auto simp: auto_confirm_if_def)
  ultimately show ?thesis
    using arrival_keys_auto [of env' ?b i db1'] x(1) by (auto simp: on_ok_def split: sum.split)
qed

text \<open>The mail waits for the operator, who dismisses it before it is delivered again.\<close>

definition sample_mail :: mail_input where
  "sample_mail = \<lparr>mi_gmailMessageId = ''m1'', mi_subject = None, mi_fromAddress = None, mi_certs = [''12345678''],
     mi_ingestNote = None, mi_autoConfirmEligible = True\<rparr>"

definition manual_mail :: mail_input where
  "manual_mail = sample_mail\<lparr>mi_autoConfirmEligible := False\<rparr>"

definition sample_waiting :: submission_db where
  "sample_waiting = fst (enqueuePsaArrivalReview sample_senv manual_mail sample_shipped)"

definition sample_dismissed :: submission_db where
  "sample_dismissed = (case dismissPsaArrivalReview sample_senv 2 sample_waiting of Inl e \<Rightarrow> sample_waiting | Inr db \<Rightarrow> db)"

theorem arrival_mail_queued_once_witness:
  "arrival_keys sample_waiting = [(2, ''m1'')]
   \<and> fst (enqueuePsaArrivalReview sample_senv sample_mail sample_dismissed) = sample_dismissed"
proof -
  let ?r = "enqueuePsaArrivalReview sample_senv sample_mail sample_dismissed"
  have "snd (enqueuePsaArrivalReview sample_senv manual_mail sample_shipped) = Inr 2" by code_simp
  then have 1: "enqueuePsaArrivalReview sample_senv manual_mail sample_shipped = (sample_waiting, Inr 2)"
    by (metis prod.collapse sample_waiting_def)
  have 2: "\<forall>r \<in> set (sd_arrivals sample_shipped). ar_id r < sd_next sample_shipped" by code_simp
  have "dismissPsaArrivalReview sample_senv 2 sample_waiting = Inr sample_dismissed" by code_simp
  then have 3: "submission_step\<^sup>*\<^sup>* sample_waiting sample_dismissed"
    by (intro r_into_rtranclp) (rule submission_step.dismiss_arrival)
  have m: "mi_gmailMessageId sample_mail = mi_gmailMessageId manual_mail" by (simp add: manual_mail_def)
  have s: "map_option ar_status (find_row (\<lambda>r. ar_gmailMessageId r = mi_gmailMessageId manual_mail)
      (sd_arrivals sample_dismissed)) = Some ar_dismissed" "arrival_keys sample_waiting = [(2, ''m1'')]"
    by code_simp+
  from arrival_mail_queued_once [OF 1 2 3 m prod.collapse [symmetric, of ?r]] s show ?thesis
    by simp
qed

section \<open>Outcomes of mints\<close>

definition results_ok :: "(string \<times> cert_mint_result) list \<Rightarrow> bool" where
  "results_ok m = (distinct (map fst m) \<and> list_all (\<lambda>(k, r). k = js_upper (cm_cert r)) m)"

lemma pair_images: "(a, b) \<in> S \<Longrightarrow> a \<in> fst ` S" "(a, b) \<in> S \<Longrightarrow> b \<in> snd ` S"
  by force+

lemma put_result_keys: "fst ` set (put_result r m) = insert (js_upper (cm_cert r)) (fst ` set m)"
  by (induction r m rule: put_result.induct) auto

lemma put_result_ok: "results_ok m \<Longrightarrow> results_ok (put_result r m)"
proof (induction r m rule: put_result.induct)
  case (2 r k x m)
  have "fst ` set (put_result r m) = insert (js_upper (cm_cert r)) (fst ` set m)" by (rule put_result_keys)
  with 2 show ?case by (auto simp: results_ok_def dest: pair_images(1))
qed (simp add: results_ok_def)

lemma put_result_lookup: "map_of (put_result r m) = (map_of m)(js_upper (cm_cert r) \<mapsto> r)"
  by (induction r m rule: put_result.induct) auto

lemma merge_result_ok: "results_ok m \<Longrightarrow> results_ok (merge_result r m)"
  by (auto simp: merge_result_def put_result_ok split: option.split)

lemma fold_put_ok: "results_ok m \<Longrightarrow> results_ok (fold put_result rs m)"
  by (induction rs arbitrary: m) (auto simp: put_result_ok)

lemma fold_merge_ok: "results_ok m \<Longrightarrow> results_ok (fold merge_result rs m)"
  by (induction rs arbitrary: m) (auto simp: merge_result_ok)

lemma merge_keeps_ok:
  "map_option cm_ok (map_of m k) = Some True \<Longrightarrow> map_option cm_ok (map_of (merge_result r m) k) = Some True"
  by (auto simp: merge_result_def put_result_lookup split: option.split)

lemma fold_merge_keeps_ok:
  "map_option cm_ok (map_of m k) = Some True \<Longrightarrow> map_option cm_ok (map_of (fold merge_result rs m) k) = Some True"
proof (induction rs arbitrary: m)
  case (Cons r rs)
  then show ?case using Cons.IH [OF merge_keeps_ok [OF Cons.prems, of r]] by simp
qed simp

lemma fold_put_other:
  "k \<notin> (\<lambda>r. js_upper (cm_cert r)) ` set rs \<Longrightarrow> map_of (fold put_result rs m) k = map_of m k"
  by (induction rs arbitrary: m) (auto simp: put_result_lookup)

lemma fold_put_member:
  "distinct (map (\<lambda>r. js_upper (cm_cert r)) rs) \<Longrightarrow> r \<in> set rs \<Longrightarrow>
   map_of (fold put_result rs m) (js_upper (cm_cert r)) = Some r"
proof (induction rs arbitrary: m)
  case (Cons x rs)
  show ?case
  proof (cases "r = x")
    case True
    then have "js_upper (cm_cert r) \<notin> (\<lambda>r. js_upper (cm_cert r)) ` set rs" using Cons.prems(1) by auto
    then show ?thesis using fold_put_other True by (simp add: put_result_lookup)
  qed (use Cons in auto)
qed simp

text \<open>C23 A card that was minted stays minted in its review: recording the outcome of another attempt,
  whatever it was, keeps one result per certificate, keeps a success for every certificate that had
  one, and keeps the review decided as minted.\<close>
theorem minted_outcome_is_kept:
  assumes review: "find_vaulted i db = Some review"
    and one: "distinct (map (\<lambda>r. js_upper (cm_cert r)) (vw_mintResults review))"
    and r: "r \<in> set (vw_mintResults review)" "cm_ok r"
    and ok: "recordPsaVaultedMintOutcome env i via results db = Inr db'"
  shows "\<exists>review'. find_vaulted i db' = Some review' \<and> vw_status review' = vr_minted
    \<and> distinct (map (\<lambda>r. js_upper (cm_cert r)) (vw_mintResults review'))
    \<and> (\<exists>r'. r' \<in> set (vw_mintResults review') \<and> cm_ok r' \<and> js_upper (cm_cert r') = js_upper (cm_cert r))"
proof -
  let ?m = "fold merge_result results (fold put_result (vw_mintResults review) [])"
  have ok1: "results_ok ?m" by (intro fold_merge_ok fold_put_ok) (simp add: results_ok_def)
  have "map_option cm_ok (map_of (fold put_result (vw_mintResults review) []) (js_upper (cm_cert r))) = Some True"
    using fold_put_member [OF one r(1)] r(2) by simp
  then obtain r' where r': "map_of ?m (js_upper (cm_cert r)) = Some r'" "cm_ok r'"
    using fold_merge_keeps_ok by fastforce
  have mem: "(js_upper (cm_cert r), r') \<in> set ?m" using map_of_SomeD [OF r'(1)] .
  have keys: "map (\<lambda>r. js_upper (cm_cert r)) (map snd ?m) = map fst ?m"
    using ok1 by (auto simp: results_ok_def list_all_iff intro!: map_cong)
  have cert: "js_upper (cm_cert r') = js_upper (cm_cert r)" using ok1 mem by (auto simp: results_ok_def list_all_iff)
  obtain review' where rv: "db' = save_vaulted review' db" "vw_id review' = vw_id review"
    "vw_mintResults review' = map snd ?m" "vw_status review' = (if list_ex cm_ok (map snd ?m) then vr_minted else vr_failed)"
    using ok review by (auto simp: recordPsaVaultedMintOutcome_def Let_def mergeVaultedMintResults_def)
  have "find_vaulted i db' = Some review'"
    using rv(1,2) find_key_Some [OF review [unfolded find_vaulted_def]]
    by (simp add: find_vaulted_def save_vaulted_def table_simps)
  moreover have "list_ex cm_ok (map snd ?m)"
    using pair_images(2) [OF mem] r'(2) by (simp only: list_ex_iff set_map) (rule bexI)
  moreover have "distinct (map (\<lambda>r. js_upper (cm_cert r)) (map snd ?m))"
    using ok1 unfolding keys by (simp add: results_ok_def)
  moreover have "r' \<in> set (map snd ?m)" using pair_images(2) [OF mem] by simp
  ultimately show ?thesis using rv(3,4) r'(2) cert by (metis (full_types))
qed

definition sample_result :: "bool \<Rightarrow> cert_mint_result" where
  "sample_result ok = \<lparr>cm_cert = ''12345678'', cm_itemId = Some 1, cm_publicId = None, cm_ok = ok,
     cm_tokenId = (if ok then Some 40 else None), cm_error = None\<rparr>"

definition sample_vaulted :: submission_db where
  "sample_vaulted = (case recordPsaVaultedMintOutcome sample_senv 0 rv_auto [sample_result True]
       (fst (enqueuePsaVaultedReview sample_mail empty_submissions)) of
     Inl e \<Rightarrow> empty_submissions | Inr db \<Rightarrow> db)"

definition sample_retried :: submission_db where
  "sample_retried = (case recordPsaVaultedMintOutcome sample_senv 0 rv_admin [sample_result False] sample_vaulted of
     Inl e \<Rightarrow> empty_submissions | Inr db \<Rightarrow> db)"

theorem minted_outcome_is_kept_witness:
  "map_option vw_status (find_vaulted 0 sample_retried) = Some vr_minted"
proof -
  let ?v = "hd (sd_vaulted sample_vaulted)"
  have ok: "recordPsaVaultedMintOutcome sample_senv 0 rv_admin [sample_result False] sample_vaulted = Inr sample_retried"
    and v: "find_vaulted 0 sample_vaulted = Some ?v" "distinct (map (\<lambda>r. js_upper (cm_cert r)) (vw_mintResults ?v))"
    and r: "vw_mintResults ?v = [sample_result True]" "cm_ok (sample_result True)"
    by code_simp+
  then have "sample_result True \<in> set (vw_mintResults ?v)" by simp
  from minted_outcome_is_kept [OF v this r(2) ok] show ?thesis by force
qed

end
