(* ===== verification/MintPipeline.thy ===== *)
theory MintPipeline
  imports SubmissionMail RedeemFlow
begin

text \<open>
  The mint of a vaulted card: mintTo, mintBatchTo and safeTransferFromCustody of
  blockchain/rwa-chain-writer.service.ts with the retry of common/rpc-retry.util.ts and the error
  texts of common/mint-rpc-error.util.ts, the pipeline of rwa/rwa-mint.service.ts, and the two
  checks a client makes around it in rwa/rwa.service.ts.

  The chain answers every send: mt_send is what the n-th send of a call gets, a refusal, or the
  hash of a submitted transaction and what waiting for it gives. The state records the hashes of
  the transactions that were submitted. The wallets of a user, the partner contract of a user, the
  check of a slab image URL and the address of a private key are parameters. The lock of the
  signer makes calls of mintTo sequential; the portfolio work after a mint runs detached and is
  left out.
\<close>

section \<open>RPC errors\<close>

record rpc_error =
  er_code :: "string option"
  er_message :: "string option"
  er_shortMessage :: "string option"
  er_reason :: "string option"
  er_infoCode :: "string option"
  er_infoMessage :: "string option"

definition contains_any :: "string list \<Rightarrow> string \<Rightarrow> bool" where
  "contains_any ws s = list_ex (\<lambda>w. sublist w s) ws"

definition isRpcRateLimitError :: "rpc_error \<Rightarrow> bool" where
  "isRpcRateLimitError e =
     (let code = (case er_infoCode e of Some c \<Rightarrow> Some c | None \<Rightarrow> er_code e);
          blob = or_empty (er_message e) @ '' '' @ or_empty (er_shortMessage e) @ '' '' @ or_empty (er_infoMessage e)
      in code = Some ''429''
         \<or> contains_any [''429'', ''rate limit'', ''compute units per second'', ''too many requests''] (js_lower blob))"

definition rpcErrorBlob :: "rpc_error \<Rightarrow> string" where
  "rpcErrorBlob e = join_with '' '' (filter (\<lambda>s. js_trim s \<noteq> [])
     (List.map_filter id [er_shortMessage e, er_reason e, er_message e, er_infoMessage e, er_code e]))"

text \<open>The dash of the messages, as the bytes of its UTF-8 encoding.\<close>

definition em_dash :: string where
  "em_dash = [CHR 0xE2, CHR 0x80, CHR 0x94]"

definition formatMintRpcError :: "rpc_error \<Rightarrow> string" where
  "formatMintRpcError err =
     (if isRpcRateLimitError err
      then ''Blockchain RPC rate limit (Alchemy compute units). Wait a few seconds and retry mint, or raise RPC_MAX_CONCURRENCY / upgrade the RPC plan.''
      else let blob = js_lower (rpcErrorBlob err); raw = js_trim (rpcErrorBlob err) in
      if contains_any [''minter role'', ''must have minter role''] blob
      then ''Mint wallet is missing MINTER_ROLE on the RWA contract. Grant MINTER_ROLE to RWA_OWNER_PRIVATE_KEY on this chain.''
      else if contains_any [''paused'', ''pausable''] blob
      then (''RWA contract is paused '' @ em_dash @ '' unpause before minting.'')
      else if contains_any [''insufficient funds'', ''insufficient balance''] blob
      then ''Mint wallet has insufficient ETH for gas on this chain.''
      else if contains_any [''nonce too low'', ''already known''] blob
      then ''Mint transaction nonce conflict (another tx may be pending). Wait for pending txs or reset the owner wallet nonce.''
      else if contains_any [''replacement fee too low''] blob
      then (''Pending mint tx blocks a new one '' @ em_dash @ '' wait for confirmation or speed up the stuck tx.'')
      else if contains_any [''timeout'', ''timed out'', ''etimedout''] blob
      then (''Blockchain RPC timed out while waiting for mint confirmation '' @ em_dash @ '' retry; check ALCHEMY / RPC URL.'')
      else if contains_any [''revert'', ''execution reverted''] blob
      then (if raw \<noteq> [] then ''On-chain mint reverted: '' @ raw
            else ''On-chain mint reverted (check contract pause, minter role, and recipient address).'')
      else if raw \<noteq> [] then ''On-chain mint failed: '' @ raw
      else ''On-chain mint failed (unknown RPC error). Check backend logs and RWA_OWNER_PRIVATE_KEY / chain config.'')"

datatype call_error = http_error http_exception | rpc_failure rpc_error

definition limited :: "call_error \<Rightarrow> bool" where
  "limited e = (case e of http_error h \<Rightarrow> False | rpc_failure r \<Rightarrow> isRpcRateLimitError r)"

definition toMintRpcHttpException :: "call_error \<Rightarrow> http_exception" where
  "toMintRpcHttpException e = (case e of
      http_error h \<Rightarrow> h
    | rpc_failure r \<Rightarrow> InternalServerErrorException (formatMintRpcError r))"

section \<open>The retry of RPC calls\<close>

text \<open>
  withRpcRateLimitRetry: attempt number k of a call on the state, and left more after it. The
  semaphore of withRpcProviderCall only bounds how many calls run at once.
\<close>

fun rpc_retry :: "nat \<Rightarrow> nat \<Rightarrow> (nat \<Rightarrow> 's \<Rightarrow> 's \<times> (call_error + 'a)) \<Rightarrow> 's \<Rightarrow> 's \<times> (call_error + 'a)" where
  "rpc_retry 0 k fn st = fn k st"
| "rpc_retry (Suc left) k fn st = (case fn k st of
      (st', Inl e) \<Rightarrow> if limited e then rpc_retry left (k + 1) fn st' else (st', Inl e)
    | (st', Inr x) \<Rightarrow> (st', Inr x))"

definition DEFAULT_MAX_RETRIES :: nat where
  "DEFAULT_MAX_RETRIES = 6"

definition withRpcProviderCall :: "(nat \<Rightarrow> 's \<Rightarrow> 's \<times> (call_error + 'a)) \<Rightarrow> 's \<Rightarrow> 's \<times> (call_error + 'a)" where
  "withRpcProviderCall fn st = rpc_retry (DEFAULT_MAX_RETRIES - 1) 1 fn st"

section \<open>State and environment\<close>

datatype wait_outcome = wait_fails rpc_error | wait_receipt "(string \<times> mint_log option list) option"

datatype send_outcome = send_fails rpc_error | submitted string wait_outcome

record mint_state =
  ms_vault :: vault_db
  ms_subs :: submission_db
  ms_sent :: "string list"

record mint_env =
  mt_recovery :: recovery_env
  mt_uuid :: "nat \<Rightarrow> string"
  mt_users :: "string \<Rightarrow> (string option \<times> string option) option"
  mt_tzOffset :: int
  mt_wallets :: "string \<Rightarrow> string list"
  mt_partner :: "string \<Rightarrow> string result"
  mt_slab :: "string option \<Rightarrow> nat \<Rightarrow> string \<Rightarrow> bool \<Rightarrow> string option"
  mt_addressOf :: "string \<Rightarrow> string"
  mt_send :: "nat \<Rightarrow> string \<Rightarrow> send_outcome"
  mt_ownerOf :: "nat \<Rightarrow> nat \<Rightarrow> string result"
  mt_transfer :: "nat \<Rightarrow> string \<Rightarrow> nat \<Rightarrow> (string option) result"

definition mt_config :: "mint_env \<Rightarrow> config" where
  "mt_config env = re_config (mt_recovery env)"

definition mt_now :: "mint_env \<Rightarrow> int" where
  "mt_now env = re_now (mt_recovery env)"

definition mt_subs :: "mint_env \<Rightarrow> submission_env" where
  "mt_subs env = \<lparr>se_config = mt_config env, se_now = mt_now env, se_tzOffset = mt_tzOffset env,
     se_uuid = mt_uuid env, se_users = mt_users env\<rparr>"

section \<open>Keys\<close>

definition first_nonblank :: "config \<Rightarrow> string list \<Rightarrow> string" where
  "first_nonblank config names = (case List.map_filter (\<lambda>n. trim_or_null (config n)) names of
      [] \<Rightarrow> [] | v # _ \<Rightarrow> v)"

definition normalizePrivateKey :: "string \<Rightarrow> string \<Rightarrow> string result" where
  "normalizePrivateKey raw label = (let key = js_trim raw in
     if key = [] then Inl (InternalServerErrorException (label @ '' is not configured''))
     else Inr (if starts_with ''0x'' key then key else ''0x'' @ key))"

definition ownerPrivateKey :: "config \<Rightarrow> string result" where
  "ownerPrivateKey config =
     normalizePrivateKey (first_nonblank config [''RWA_OWNER_PRIVATE_KEY'', ''DEPLOYER_PRIVATE_KEY'']) ''RWA_OWNER_PRIVATE_KEY''"

definition custodyPrivateKey :: "config \<Rightarrow> string result" where
  "custodyPrivateKey config =
     on_ok (case trim_or_null (config ''RWA_CUSTODY_PRIVATE_KEY'') of Some k \<Rightarrow> Inr k | None \<Rightarrow> ownerPrivateKey config)
       (\<lambda>key. normalizePrivateKey key ''RWA_CUSTODY_PRIVATE_KEY'')"

definition getCustodyWalletAddress :: "mint_env \<Rightarrow> nat \<Rightarrow> string result" where
  "getCustodyWalletAddress env chainId =
     (case map_option js_lower (trim_or_null (mt_config env ''RWA_CUSTODY_WALLET_ADDRESS'')) of
        Some a \<Rightarrow> if is_hex_word_ci 40 a then Inr a
          else on_ok (custodyPrivateKey (mt_config env)) (\<lambda>k. Inr (js_lower (mt_addressOf env k)))
      | None \<Rightarrow> on_ok (custodyPrivateKey (mt_config env)) (\<lambda>k. Inr (js_lower (mt_addressOf env k))))"

section \<open>Minting one token\<close>

fun parseMintedTokenIds :: "mint_log option list \<Rightarrow> nat list" where
  "parseMintedTokenIds [] = []"
| "parseMintedTokenIds (None # ls) = parseMintedTokenIds ls"
| "parseMintedTokenIds (Some l # ls) =
     (if ml_name l = ''Transfer'' \<and> js_lower (ml_from l) = zero_address
      then ml_tokenId l # parseMintedTokenIds ls else parseMintedTokenIds ls)"

text \<open>
  One attempt inside the retry: submit, tell the hook, wait, read the token id, record the owner.
  onSubmitted is the cycle whose attempt the hook notes the hash on.
\<close>

definition note_submitted :: "mint_env \<Rightarrow> nat option \<Rightarrow> string \<Rightarrow> mint_state \<Rightarrow> mint_state" where
  "note_submitted env onSubmitted hash st =
     st\<lparr>ms_sent := ms_sent st @ [hash],
        ms_vault := (case onSubmitted of
            None \<Rightarrow> ms_vault st
          | Some cycleId \<Rightarrow> noteMintAttemptTx (mt_now env) cycleId None hash (ms_vault st))\<rparr>"

definition mint_attempt ::
  "mint_env \<Rightarrow> nat \<Rightarrow> string \<Rightarrow> nat option \<Rightarrow> nat \<Rightarrow> mint_state \<Rightarrow> mint_state \<times> (call_error + nat \<times> string)" where
  "mint_attempt env chainId recipient onSubmitted k st =
     (case getRwaAddress (mt_config env) chainId of
        Inl e \<Rightarrow> (st, Inl (http_error e))
      | Inr contract \<Rightarrow> (case mt_send env k recipient of
          send_fails e \<Rightarrow> (st, Inl (rpc_failure e))
        | submitted hash w \<Rightarrow>
            let st = note_submitted env onSubmitted hash st in
            case w of
              wait_fails e \<Rightarrow> (st, Inl (rpc_failure e))
            | wait_receipt None \<Rightarrow> (st, Inl (http_error (InternalServerErrorException
                ''Mint transaction was mined but returned no receipt hash'')))
            | wait_receipt (Some (h, logs)) \<Rightarrow> (case parseMintedTokenIds logs of
                [] \<Rightarrow> (st, Inl (http_error (InternalServerErrorException
                  ''Mint receipt had no ERC-721 Transfer from address(0)'')))
              | tokenId # _ \<Rightarrow>
                  (st\<lparr>ms_vault := recordOwner contract (nat_str tokenId) recipient (ms_vault st)\<rparr>,
                   Inr (tokenId, h)))))"

definition zero_hash :: string where
  "zero_hash = ''0x'' @ replicate 64 (CHR ''0'')"

definition mintTo ::
  "mint_env \<Rightarrow> string \<Rightarrow> string \<Rightarrow> string \<Rightarrow> nat \<Rightarrow> nat option \<Rightarrow> mint_state \<Rightarrow>
   mint_state \<times> (nat \<times> string) result" where
  "mintTo env to tokenURI vaultRef chainId onSubmitted st =
     (let recipient = js_lower (js_trim to) in
      if \<not> is_hex_word_ci 40 recipient
      then (st, Inl (BadRequestException ''Invalid recipient wallet address''))
      else if js_trim tokenURI = [] then (st, Inl (BadRequestException ''tokenURI is required''))
      else if vaultRef = [] \<or> vaultRef = zero_hash then (st, Inl (BadRequestException ''vaultRef is required''))
      else case ownerPrivateKey (mt_config env) of
        Inl e \<Rightarrow> (st, Inl e)
      | Inr key \<Rightarrow>
          (case withRpcProviderCall (mint_attempt env chainId recipient onSubmitted) st of
             (st', Inl e) \<Rightarrow> (st', Inl (toMintRpcHttpException e))
           | (st', Inr x) \<Rightarrow> (st', Inr x)))"

text \<open>mintBatchTo: the token ids and the hash of the last transaction; it stops at the first error.\<close>

fun mint_items ::
  "mint_env \<Rightarrow> nat \<Rightarrow> (string \<times> string \<times> string) list \<Rightarrow> nat list \<times> string \<Rightarrow> mint_state \<Rightarrow>
   mint_state \<times> (nat list \<times> string) result" where
  "mint_items env chainId [] acc st = (st, Inr acc)"
| "mint_items env chainId ((to, uri, ref) # its) (ids, lastHash) st =
     (case mintTo env to uri ref chainId None st of
        (st', Inl e) \<Rightarrow> (st', Inl e)
      | (st', Inr (tokenId, txHash)) \<Rightarrow> mint_items env chainId its (ids @ [tokenId], txHash) st')"

definition mintBatchTo ::
  "mint_env \<Rightarrow> (string \<times> string \<times> string) list \<Rightarrow> nat \<Rightarrow> mint_state \<Rightarrow>
   mint_state \<times> (nat list \<times> string) result" where
  "mintBatchTo env items chainId st =
     (if items = [] then (st, Inl (BadRequestException ''mintBatch requires at least one item''))
      else mint_items env chainId items ([], []) st)"

section \<open>Delivery from custody\<close>

definition transfer_held ::
  "mint_env \<Rightarrow> nat \<Rightarrow> string \<Rightarrow> nat \<Rightarrow> string \<Rightarrow> string \<Rightarrow> mint_state \<Rightarrow> mint_state \<times> string result" where
  "transfer_held env tokenId recipient chainId contract custodyWallet st =
     (case mt_ownerOf env tokenId chainId of
        Inl e \<Rightarrow> (st, Inl (BadRequestException ''Could not resolve owner for token''))
      | Inr owner \<Rightarrow>
          if js_lower (js_trim owner) \<noteq> custodyWallet
          then (st, Inl (BadRequestException ''Token is not held in custody''))
          else (case mt_transfer env tokenId recipient chainId of
              Inl e \<Rightarrow> (st, Inl (InternalServerErrorException ''Transfer transaction reverted''))
            | Inr None \<Rightarrow> (st, Inl (InternalServerErrorException ''Transfer transaction failed''))
            | Inr (Some h) \<Rightarrow>
                (st\<lparr>ms_vault := recordOwner contract (nat_str tokenId) recipient (ms_vault st)\<rparr>, Inr h)))"

definition safeTransferFromCustody ::
  "mint_env \<Rightarrow> nat \<Rightarrow> string \<Rightarrow> nat \<Rightarrow> mint_state \<Rightarrow> mint_state \<times> string result" where
  "safeTransferFromCustody env tokenId to chainId st =
     (let recipient = js_lower (js_trim to) in
      if \<not> is_hex_word_ci 40 recipient
      then (st, Inl (BadRequestException ''Invalid recipient wallet address''))
      else need (getCustodyWalletAddress env chainId) (\<lambda>custodyWallet.
           need (custodyPrivateKey (mt_config env)) (\<lambda>key.
           need (getRwaAddress (mt_config env) chainId) (\<lambda>contract st.
             if js_lower (mt_addressOf env key) \<noteq> custodyWallet
             then (st, Inl (InternalServerErrorException ''Custody signer does not match RWA_CUSTODY_WALLET_ADDRESS''))
             else transfer_held env tokenId recipient chainId contract custodyWallet st))) st)"

section \<open>The deposit pipeline\<close>

record mint_dto =
  md_recipientAddress :: string
  md_tokenURI :: string
  md_certNumber :: string
  md_deliveryMode :: "delivery_mode option"
  md_displayName :: "string option"
  md_displayImageUrl :: "string option"
  md_displayImageBackUrl :: "string option"
  md_collectionKey :: "string option"

record mint_options =
  mp_jobPreflightDone :: bool
  mp_vaultPartnerId :: "string option"

record mint_outcome =
  mo_tokenId :: nat
  mo_tokenURI :: string
  mo_vaultRef :: string
  mo_txHash :: string
  mo_custodyWallet :: string
  mo_mintedTo :: string
  mo_intendedRecipient :: string
  mo_deliveryMode :: delivery_mode

definition linked_wallet :: "mint_env \<Rightarrow> string \<Rightarrow> string \<Rightarrow> bool" where
  "linked_wallet env userId recipient =
     list_ex (\<lambda>w. js_lower (js_trim w) = recipient) (mt_wallets env userId)"

definition assertPartnerVaultMintJobPreflight :: "mint_env \<Rightarrow> string \<Rightarrow> string \<Rightarrow> unit result" where
  "assertPartnerVaultMintJobPreflight env userId recipientAddress =
     check (linked_wallet env userId (js_lower (js_trim recipientAddress)))
       (ForbiddenException ''Recipient wallet must be linked to your Tokenable account'')
     (on_ok (mt_partner env userId) (\<lambda>_. Inr ()))"

text \<open>
  The checks before anything is written: the partner of a direct mint and the vault reference.
  KYC is off (VAULT_MINT_REQUIRES_KYC is false).
\<close>

definition mint_delivery :: "mint_dto \<Rightarrow> delivery_mode" where
  "mint_delivery dto = (if md_deliveryMode dto = Some direct then direct else custody)"

definition mint_partner :: "mint_env \<Rightarrow> string \<Rightarrow> mint_dto \<Rightarrow> mint_options \<Rightarrow> (string option) result" where
  "mint_partner env userId dto opts =
     (if mint_delivery dto \<noteq> direct then Inr None
      else case trim_or_null (mp_vaultPartnerId opts) of
        Some p \<Rightarrow> if mp_jobPreflightDone opts then Inr (Some p)
          else on_ok (mt_partner env userId) (\<lambda>p. Inr (Some p))
      | None \<Rightarrow> on_ok (mt_partner env userId) (\<lambda>p. Inr (Some p)))"

definition mint_preflight ::
  "mint_env \<Rightarrow> string \<Rightarrow> mint_dto \<Rightarrow> nat \<Rightarrow> mint_options \<Rightarrow> submission_db \<Rightarrow> (string option \<times> string) result" where
  "mint_preflight env userId dto chainId opts subs =
     check (mp_jobPreflightDone opts \<or> linked_wallet env userId (js_lower (js_trim (md_recipientAddress dto))))
       (ForbiddenException ''Recipient wallet must be linked to your Tokenable account'')
     (check (js_trim (md_tokenURI dto) \<noteq> []) (BadRequestException ''tokenURI is required'')
     (check (js_trim (md_certNumber dto) \<noteq> []) (BadRequestException ''certNumber is required'')
     (on_ok (mint_partner env userId dto opts) (\<lambda>vaultPartnerId.
      on_ok (if mint_delivery dto = direct
             then assertCertAvailableForSelfVault (mt_subs env) (js_trim (md_certNumber dto)) (Some chainId) subs
             else Inr ()) (\<lambda>_.
      on_ok (computeVaultRef (re_keccak256 (mt_recovery env)) (js_trim (md_certNumber dto))) (\<lambda>vaultRef.
      Inr (vaultPartnerId, vaultRef)))))))"

definition early_display_name :: "mint_dto \<Rightarrow> string" where
  "early_display_name dto = (case trim_or_null (md_displayName dto) of
      Some n \<Rightarrow> n | None \<Rightarrow> ''PSA #'' @ js_trim (md_certNumber dto))"

text \<open>Reconcile a blocking cycle, reserve the new one, link the item of a shipped package.\<close>

definition mint_reserve ::
  "mint_env \<Rightarrow> string \<Rightarrow> mint_dto \<Rightarrow> nat \<Rightarrow> mint_state \<Rightarrow> mint_state \<times> (nat \<times> bool) result" where
  "mint_reserve env userId dto chainId st =
     (let cert = js_trim (md_certNumber dto);
          (db, r) = reconcileBlockingOpenCycle (mt_recovery env) cert chainId (ms_vault st) in
      need r (\<lambda>_ st.
      need (reserveCycleForDeposit (re_keccak256 (mt_recovery env)) (mt_now env) cert chainId psa_graded
             (Some (early_display_name dto)) (Some userId) (ms_vault st)) (\<lambda>(asset, cycle, db) st.
      let st = st\<lparr>ms_vault := db\<rparr> in
      need (attachCycleForCert (mt_subs env) userId cert (vc_id cycle) (Some chainId) (ms_subs st)) (\<lambda>(is_linked, subs) st.
        (st\<lparr>ms_subs := subs\<rparr>, Inr (vc_id cycle, is_linked))) st) st)
      (st\<lparr>ms_vault := db\<rparr>))"

definition mint_attempt_row ::
  "mint_env \<Rightarrow> mint_dto \<Rightarrow> nat \<Rightarrow> string option \<Rightarrow> string \<Rightarrow> vault_mint_attempt" where
  "mint_attempt_row env dto chainId vaultPartnerId mintToAddress =
     (let cert = js_trim (md_certNumber dto); mode = mint_delivery dto in
      \<lparr>ma_tokenURI = js_trim (md_tokenURI dto), ma_certNumber = cert,
       ma_settlementPolicy = (if mode = direct then self_vault_hold else standard),
       ma_vaultPartnerId = vaultPartnerId, ma_ownerWallet = mintToAddress, ma_deliveryMode = mode,
       ma_displayName = Some (early_display_name dto),
       ma_displayImageUrl = mt_slab env (md_displayImageUrl dto) chainId cert True,
       ma_displayImageBackUrl = mt_slab env (md_displayImageBackUrl dto) chainId cert False,
       ma_tokenId = None, ma_txHash = None\<rparr>)"

definition mint_record ::
  "mint_env \<Rightarrow> mint_dto \<Rightarrow> nat \<Rightarrow> vault_mint_attempt \<Rightarrow> string \<Rightarrow> nat \<Rightarrow> string \<Rightarrow> mint_result" where
  "mint_record env dto cycleId att contract tokenId txHash =
     \<lparr>mr_cycleId = cycleId, mr_tokenContract = contract, mr_tokenId = nat_str tokenId,
      mr_tokenURI = ma_tokenURI att, mr_txHash = txHash, mr_certNumber = ma_certNumber att,
      mr_displayName = ma_displayName att, mr_displayImageUrl = ma_displayImageUrl att,
      mr_displayImageBackUrl = ma_displayImageBackUrl att,
      mr_settlementPolicy = Some (ma_settlementPolicy att), mr_vaultPartnerId = ma_vaultPartnerId att,
      mr_ownerWallet = Some (ma_ownerWallet att),
      mr_collectionKey = map_option js_lower (trim_or_null (md_collectionKey dto))\<rparr>"

text \<open>
  The on-chain half: a mint that throws cancels the reserved cycle; after a mint the token id is
  noted and the result recorded, and an error of the record is passed on.
\<close>

definition mint_on_chain ::
  "mint_env \<Rightarrow> mint_dto \<Rightarrow> nat \<Rightarrow> nat \<Rightarrow> vault_mint_attempt \<Rightarrow> string \<Rightarrow> mint_state \<Rightarrow>
   mint_state \<times> (nat \<times> string) result" where
  "mint_on_chain env dto chainId cycleId att vaultRef st =
     (case mintTo env (ma_ownerWallet att) (ma_tokenURI att) vaultRef chainId (Some cycleId) st of
        (st', Inl e) \<Rightarrow> (st'\<lparr>ms_vault := cancelCycle (mt_now env) cycleId (ms_vault st')\<rparr>, Inl e)
      | (st', Inr (tokenId, txHash)) \<Rightarrow>
          need (getRwaAddress (mt_config env) chainId) (\<lambda>contract st.
            let (db, r) = recordMintResult (re_keccak256 (mt_recovery env)) (mt_now env)
                  (mint_record env dto cycleId att contract tokenId txHash) (ms_vault st)
            in (st\<lparr>ms_vault := db\<rparr>, on_ok r (\<lambda>_. Inr (tokenId, txHash))))
          (st'\<lparr>ms_vault := noteMintAttemptTx (mt_now env) cycleId (Some (nat_str tokenId)) txHash (ms_vault st')\<rparr>))"

definition mint_finish ::
  "mint_env \<Rightarrow> mint_dto \<Rightarrow> nat \<Rightarrow> nat \<Rightarrow> bool \<Rightarrow> mint_state \<Rightarrow> mint_state \<times> unit result" where
  "mint_finish env dto chainId cycleId is_linked st =
     (let st1 = (if is_linked
            then st\<lparr>ms_subs := snd (markItemCompletedForCycle (mt_subs env) cycleId (ms_subs st))\<rparr> else st) in
      if mint_delivery dto = direct
      then need (cancelPreShipPackagesForCert (mt_subs env) (js_trim (md_certNumber dto)) (Some chainId) (ms_subs st1))
             (\<lambda>(n, subs) st. (st\<lparr>ms_subs := subs\<rparr>, Inr ())) st1
      else (st1, Inr ()))"

definition mintForUser ::
  "mint_env \<Rightarrow> string \<Rightarrow> mint_dto \<Rightarrow> nat \<Rightarrow> mint_options \<Rightarrow> mint_state \<Rightarrow> mint_state \<times> mint_outcome result" where
  "mintForUser env userId dto chainId opts st =
     need (mint_preflight env userId dto chainId opts (ms_subs st)) (\<lambda>(vaultPartnerId, vaultRef) st.
     andThen (mint_reserve env userId dto chainId st) (\<lambda>(cycleId, is_linked).
     need (getCustodyWalletAddress env chainId) (\<lambda>custodyWallet st.
       let recipient = js_lower (js_trim (md_recipientAddress dto));
           mintToAddress = (if mint_delivery dto = direct then recipient else custodyWallet);
           att = mint_attempt_row env dto chainId vaultPartnerId mintToAddress in
       need (beginMintAttempt (mt_now env) cycleId att (ms_vault st)) (\<lambda>db st.
       andThen (mint_on_chain env dto chainId cycleId att vaultRef (st\<lparr>ms_vault := db\<rparr>)) (\<lambda>(tokenId, txHash) st.
       andThen (mint_finish env dto chainId cycleId is_linked st) (\<lambda>_ st.
         (st, Inr \<lparr>mo_tokenId = tokenId, mo_tokenURI = js_trim (md_tokenURI dto), mo_vaultRef = vaultRef,
                   mo_txHash = txHash, mo_custodyWallet = custodyWallet, mo_mintedTo = mintToAddress,
                   mo_intendedRecipient = recipient, mo_deliveryMode = mint_delivery dto\<rparr>)))) st))) st"

definition no_options :: mint_options where
  "no_options = \<lparr>mp_jobPreflightDone = False, mp_vaultPartnerId = None\<rparr>"

definition mintCustodyThenDeliverForUser ::
  "mint_env \<Rightarrow> string \<Rightarrow> mint_dto \<Rightarrow> nat \<Rightarrow> mint_state \<Rightarrow> mint_state \<times> (mint_outcome \<times> string) result" where
  "mintCustodyThenDeliverForUser env userId dto chainId st =
     andThen (mintForUser env userId (dto\<lparr>md_deliveryMode := Some custody\<rparr>) chainId no_options st) (\<lambda>mint st.
     andThen (safeTransferFromCustody env (mo_tokenId mint) (mo_intendedRecipient mint) chainId st) (\<lambda>deliverTxHash st.
       (st, Inr (mint\<lparr>mo_mintedTo := mo_intendedRecipient mint\<rparr>, deliverTxHash))))"

text \<open>
  A card that is already minted: link its item, deliver from custody unless the user holds it, and
  complete the item. The answer is the hash of the delivery, None when the user held the token.
\<close>

record adopt_params =
  ap_recipientAddress :: string
  ap_certNumber :: string
  ap_tokenId :: nat
  ap_cycleId :: nat

definition adopt_deliver ::
  "mint_env \<Rightarrow> adopt_params \<Rightarrow> nat \<Rightarrow> string \<Rightarrow> string \<Rightarrow> mint_state \<Rightarrow> mint_state \<times> (string option) result" where
  "adopt_deliver env p chainId recipient custodyWallet st =
     (case re_tokenOwner (mt_recovery env) (of_nat (ap_tokenId p)) chainId of
        Inl e \<Rightarrow> (st, Inl e)
      | Inr onChainOwner \<Rightarrow>
          if onChainOwner = recipient then (st, Inr None)
          else if onChainOwner = custodyWallet
          then andThen (safeTransferFromCustody env (ap_tokenId p) recipient chainId st) (\<lambda>h st. (st, Inr (Some h)))
          else (st, Inl (BadRequestException
            ''Token is neither in custody nor the depositor wallet. Resolve ownership before mint-queue adopt.'')))"

definition adoptExistingMintedAndDeliverForUser ::
  "mint_env \<Rightarrow> string \<Rightarrow> adopt_params \<Rightarrow> nat \<Rightarrow> mint_state \<Rightarrow> mint_state \<times> (string option) result" where
  "adoptExistingMintedAndDeliverForUser env userId p chainId st =
     (let recipient = js_lower (js_trim (ap_recipientAddress p)) in
      if \<not> linked_wallet env userId recipient
      then (st, Inl (ForbiddenException ''Recipient wallet must be linked to the depositor Tokenable account''))
      else need (attachCycleForCert (mt_subs env) userId (ap_certNumber p) (ap_cycleId p) (Some chainId) (ms_subs st))
        (\<lambda>(attached, subs) st.
          if \<not> attached
          then (st, Inl (BadRequestException ''Could not link vault submission item to mint cycle (cert / chain mismatch).''))
          else need (getCustodyWalletAddress env chainId) (\<lambda>custodyWallet st.
            andThen (adopt_deliver env p chainId recipient custodyWallet st) (\<lambda>deliverTxHash st.
              let (completed, subs) = markItemCompletedForCycle (mt_subs env) (ap_cycleId p) (ms_subs st) in
              if \<not> completed
              then (st\<lparr>ms_subs := subs\<rparr>, Inl (BadRequestException ''Mint cycle was not linked to a vault submission item.''))
              else (st\<lparr>ms_subs := subs\<rparr>, Inr deliverTxHash))) (st\<lparr>ms_subs := subs\<rparr>)) st)"

section \<open>What a client asks about a certificate\<close>

datatype mint_progress = mint_available | mint_in_progress | mint_done rat "string option"

definition bad_cert :: http_exception where
  "bad_cert = BadRequestException ''Enter a valid PSA cert number (7-10 digits).''"

text \<open>Number(attempt?.tokenId): without an attempt it is NaN, with a null token id it is 0.\<close>

definition attempt_token_number :: "vault_mint_attempt option \<Rightarrow> rat option" where
  "attempt_token_number attempt = (case attempt of None \<Rightarrow> None | Some a \<Rightarrow> js_Number_null (ma_tokenId a))"

definition other_depositor :: "vault_cycle \<Rightarrow> string \<Rightarrow> bool" where
  "other_depositor cycle userId = (case trim_or_null (vc_depositedByUserId cycle) of
      None \<Rightarrow> False | Some o' \<Rightarrow> o' \<noteq> userId)"

definition resolveCertMintOutcome :: "string \<Rightarrow> nat \<Rightarrow> string \<Rightarrow> vault_db \<Rightarrow> mint_progress result" where
  "resolveCertMintOutcome certNumber chainId userId db =
     (let trimmed = js_trim certNumber in
      check (cert_like trimmed) bad_cert
      (case findOpenMintedTokenForCert trimmed chainId psa_graded db of
         Some (cycle, token, tokenId, vaultRef) \<Rightarrow>
           Inr (if other_depositor cycle userId then mint_available
                else mint_done tokenId (Option.bind (vc_mintAttempt cycle) ma_txHash))
       | None \<Rightarrow> (case findOpenVaultCycleWithAsset trimmed chainId psa_graded db of
           None \<Rightarrow> Inr mint_available
         | Some (cycle, asset) \<Rightarrow>
             if other_depositor cycle userId then Inr mint_available
             else Inr (case attempt_token_number (vc_mintAttempt cycle) of
                 None \<Rightarrow> mint_in_progress
               | Some n \<Rightarrow> if 0 \<le> n then mint_done n (Option.bind (vc_mintAttempt cycle) ma_txHash)
                   else mint_in_progress))))"

text \<open>checkCertAvailability: available, the certificate and the message.\<close>

definition checkCertAvailability ::
  "mint_env \<Rightarrow> string \<Rightarrow> nat \<Rightarrow> mint_state \<Rightarrow> mint_state \<times> (bool \<times> string \<times> string option) result" where
  "checkCertAvailability env certNumber chainId st =
     (let trimmed = js_trim certNumber in
      if \<not> cert_like trimmed then (st, Inl bad_cert)
      else let (db, r) = reconcileBlockingOpenCycle (mt_recovery env) trimmed chainId (ms_vault st) in
      need r (\<lambda>_ st.
        let cycleCheck = checkAvailableForNewCycle trimmed chainId psa_graded (ms_vault st) in
        if \<not> fst cycleCheck then (st, Inr cycleCheck)
        else case assertCertAvailableForSelfVault (mt_subs env) trimmed (Some chainId) (ms_subs st) of
          Inl (BadRequestException m) \<Rightarrow> (st, Inr (False, trimmed, Some m))
        | Inl e \<Rightarrow> (st, Inl e)
        | Inr _ \<Rightarrow> (st, Inr (True, trimmed, None))) (st\<lparr>ms_vault := db\<rparr>))"

end
