(* ===== verification/RecoveryProperties.thy ===== *)
theory RecoveryProperties
  imports MintRecovery
begin

text \<open>
  What the recovery of interrupted mints guarantees: a pass touches nothing but cycles whose mint
  is under way, and it brings a cycle whose transaction minted a token to its end.
\<close>

section \<open>What the pass lists\<close>

lemma recoverable_Some:
  "recoverable db c = Some x \<Longrightarrow> fst x = c \<and> vc_mintAttempt c = Some (snd (snd x))"
  by (auto simp: recoverable_def split: option.splits if_splits)

lemma map_filter_fst:
  "distinct (map vc_id cs) \<Longrightarrow> distinct (map (vc_id \<circ> fst) (List.map_filter (recoverable db) cs))"
proof (induction cs)
  case (Cons c cs)
  have "fst x \<in> set cs" if "x \<in> set (List.map_filter (recoverable db) cs)" for x
    using that by (induction cs) (auto simp: map_filter_simps dest: recoverable_Some split: option.splits)
  with Cons show ?case
    by (cases "recoverable db c") (auto simp: map_filter_simps dest!: recoverable_Some)
qed (simp add: map_filter_simps)

lemma recovery_ids_distinct:
  assumes "vault_wf db"
  shows "distinct (map (vc_id \<circ> fst) (listMintingCyclesForRecovery n db))"
proof -
  have d: "distinct (map vc_id (vd_cycles db))" using assms by (simp add: wf_defs)
  have "distinct (map vc_id (order_asc vc_updatedAt (filter P (vd_cycles db))))" for P
  proof -
    have "inj_on vc_id (set (vd_cycles db))" "distinct (vd_cycles db)" using d by (simp_all add: distinct_map)
    then show ?thesis
      unfolding order_asc_def by (simp add: distinct_map inj_on_subset)
  qed
  then show ?thesis
    unfolding listMintingCyclesForRecovery_def
    by (intro map_filter_fst) (simp add: take_map [symmetric] distinct_take)
qed

lemma recovery_lists:
  assumes c: "c \<in> set (vd_cycles db)" "vc_status c = minting"
    and few: "length (filter (\<lambda>c. vc_status c = minting) (vd_cycles db)) \<le> 50"
    and r: "recoverable db c = Some x"
  shows "x \<in> set (listMintingCyclesForRecovery 50 db)"
proof -
  have "take 50 (order_asc vc_updatedAt (filter (\<lambda>c. vc_status c = minting) (vd_cycles db)))
      = order_asc vc_updatedAt (filter (\<lambda>c. vc_status c = minting) (vd_cycles db))"
    using few by (simp add: order_asc_def)
  moreover have "c \<in> set (order_asc vc_updatedAt (filter (\<lambda>c. vc_status c = minting) (vd_cycles db)))"
    using c by (simp add: order_asc_def)
  moreover have "c \<in> set cs \<Longrightarrow> x \<in> set (List.map_filter (recoverable db) cs)" for cs
    using r by (induction cs) (auto simp: map_filter_simps split: option.splits)
  ultimately show ?thesis unfolding listMintingCyclesForRecovery_def by simp
qed

section \<open>Only mints under way\<close>

lemma recovery_skips:
  assumes reach: "(vault_step (re_keccak256 env))\<^sup>*\<^sup>* empty_db db"
    and c: "find_cycle i db = Some c" "vc_status c \<noteq> minting"
  shows "find_cycle i (fst (recoverPass env running db)) = Some c"
proof -
  have wf: "vault_wf db" by (rule reachable_wf [OF reach])
  have "i \<notin> (vc_id \<circ> fst) ` set (listMintingCyclesForRecovery 50 db)"
  proof
    assume "i \<in> (vc_id \<circ> fst) ` set (listMintingCyclesForRecovery 50 db)"
    then obtain x where x: "x \<in> set (listMintingCyclesForRecovery 50 db)" "i = vc_id (fst x)" by auto
    then have "find_cycle i db = Some (fst x)"
      using recovery_rows [OF x(1)] find_cycle_member [OF wf] by blast
    then show False using c recovery_rows [OF x(1)] by simp
  qed
  then show ?thesis using c by (simp add: recoverPass_def recover_rows_other)
qed

text \<open>A recovery pass, in any reachable vault and with any answers of the chain, leaves every cycle
  whose mint is not under way exactly as it is, and it is a run of the vault's own operations.\<close>
theorem recovery_touches_minting_only:
  assumes reach: "(vault_step (re_keccak256 env))\<^sup>*\<^sup>* empty_db db"
    and c: "find_cycle i db = Some c" "vc_status c \<noteq> minting"
  shows "find_cycle i (fst (recoverPass env running db)) = Some c
    \<and> (vault_step (re_keccak256 env))\<^sup>*\<^sup>* empty_db (fst (recoverPass env running db))"
  using recovery_skips [OF assms] rtranclp_trans [OF reach recoverPass_steps] by simp

section \<open>A mint that was confirmed is completed\<close>

lemma heal_params_Inr:
  assumes "js_trim (ma_tokenURI a) \<noteq> []" "js_trim (ma_ownerWallet a) \<noteq> []"
    "getRwaAddress (re_config env) ch = Inr contract"
  shows "heal_params env i ch a n = Inr (heal_result i a contract n (js_trim (ma_tokenURI a))
    (js_lower (js_trim (ma_ownerWallet a))))"
  using assms by (simp add: heal_params_def Let_def)

lemma record_marks_minted:
  assumes "find_cycle (mr_cycleId p) db = Some c" "vc_status c = minting"
  shows "\<exists>c'. find_cycle (mr_cycleId p) (fst (recordMintResult k now p db)) = Some c'
    \<and> vc_status c' = minted"
proof -
  have i: "vc_id c = mr_cycleId p" using find_cycle_Some [OF assms(1)] by simp
  show ?thesis
    using assms by (auto simp: recordMintResult_def Let_def table_simps i split: sum.split)
qed

text \<open>What the sources call a confirmed mint: the recorded transaction has a receipt with the mint.\<close>

definition confirmed_mint :: "recovery_env \<Rightarrow> nat \<Rightarrow> vault_mint_attempt \<Rightarrow> bool" where
  "confirmed_mint env chain a = (case ma_txHash a of
      None \<Rightarrow> False
    | Some h \<Rightarrow> (case getMintedTokenIdFromTx env h chain of
        Inl _ \<Rightarrow> False
      | Inr n \<Rightarrow> 0 < n))"

lemma heal_token_confirmed:
  assumes "confirmed_mint env ch a" "ma_tokenId a = None"
  shows "\<exists>n. heal_token_id env ch a = Inr n \<and> n \<noteq> 0"
proof -
  from assms(1) obtain h n where h: "ma_txHash a = Some h" "getMintedTokenIdFromTx env h ch = Inr n" "0 < n"
    by (auto simp: confirmed_mint_def split: option.splits sum.splits)
  then have "h \<noteq> []" by (auto simp: getMintedTokenIdFromTx_def)
  with h assms(2) show ?thesis
    by (auto simp: heal_token_id_def js_Number_null_def or_empty_def)
qed

lemma healOne_minted:
  assumes c: "find_cycle i db = Some c" "vc_status c = minting"
    and a: "js_trim (ma_tokenURI a) \<noteq> []" "js_trim (ma_ownerWallet a) \<noteq> []"
    and ch: "ch \<in> set (listConfiguredChainIds (re_config env))"
    and n: "heal_token_id env ch a = Inr n" "n \<noteq> 0"
    and contract: "getRwaAddress (re_config env) ch = Inr contract"
  shows "\<exists>c'. find_cycle i (fst (healOne env i ch a u db)) = Some c' \<and> vc_status c' = minted"
proof -
  let ?p = "heal_result i a contract n (js_trim (ma_tokenURI a)) (js_lower (js_trim (ma_ownerWallet a)))"
  have i: "mr_cycleId ?p = i" by (simp add: heal_result_def)
  have "fst (healOne env i ch a u db) = fst (recordMintResult (re_keccak256 env) (re_now env) ?p db)"
    using ch n by (simp add: healOne_def heal_params_Inr [OF a contract] split_beta)
  then show ?thesis using record_marks_minted [of ?p db c] c i by simp
qed

lemma recover_rows_minted:
  assumes "distinct (map (vc_id \<circ> fst) rows)" "(c, asset, a) \<in> set rows"
    "find_cycle (vc_id c) db = Some c'" "vc_status c' = minting"
    "js_trim (ma_tokenURI a) \<noteq> []" "js_trim (ma_ownerWallet a) \<noteq> []"
    "vc_chainId c \<in> set (listConfiguredChainIds (re_config env))"
    "heal_token_id env (vc_chainId c) a = Inr n" "n \<noteq> 0"
    "getRwaAddress (re_config env) (vc_chainId c) = Inr contract"
  shows "\<exists>c'. find_cycle (vc_id c) (fst (recover_rows env rows counts db)) = Some c' \<and> vc_status c' = minted"
  using assms(1-4)
proof (induction rows arbitrary: db counts)
  case (Cons x rows)
  obtain d b e where x: "x = (d, b, e)" by (cases x)
  obtain h k where counts: "counts = (h, k)" by (cases counts)
  let ?r = "healOne env (vc_id d) (vc_chainId d) e (vc_updatedAt d) db"
  let ?n = "(if snd ?r = Inr healed then h + 1 else h, if snd ?r = Inr heal_cancelled then k + 1 else k)"
  have pass: "fst (recover_rows env (x # rows) counts db) = fst (recover_rows env rows ?n (fst ?r))"
    by (simp add: x counts split_beta)
  show ?case
  proof (cases "(c, asset, a) = x")
    case True
    then have dc: "d = c" "e = a" by (simp_all add: x)
    have "vc_id c \<notin> (vc_id \<circ> fst) ` set rows" using Cons.prems(1) by (simp add: x dc)
    then have "find_cycle (vc_id c) (fst (recover_rows env rows ?n (fst ?r))) = find_cycle (vc_id c) (fst ?r)"
      by (rule recover_rows_other)
    then show ?thesis
      using healOne_minted [OF Cons.prems(3,4) assms(5-10)] by (simp only: pass dc)
  next
    case False
    then have mem: "(c, asset, a) \<in> set rows" using Cons.prems(2) by simp
    then have "vc_id c \<in> (vc_id \<circ> fst) ` set rows" by (rule_tac image_eqI) (simp_all add: comp_def)
    moreover have "vc_id d \<notin> (vc_id \<circ> fst) ` set rows" using Cons.prems(1) by (simp add: x)
    ultimately have "vc_id c \<noteq> vc_id d" by metis
    then have "find_cycle (vc_id c) (fst ?r) = Some c'" using Cons.prems(3) by (simp add: healOne_other)
    then show ?thesis unfolding pass using Cons.IH [OF _ mem] Cons.prems(1,4) by simp
  qed
qed simp

text \<open>C9 A mint that was confirmed on the chain is completed: when a minting cycle, with the token URI,
  the certificate and the wallet of its attempt, has recorded the hash of its transaction and no token
  id, the receipt of that transaction shows a mint whose token id is greater than 0 (the recovery
  takes id 0 for no mint and cancels the cycle), the chain is configured, and at most fifty mints are
  under way, the cycle is minted after one recovery pass, however the mints listed beside it end.\<close>
theorem confirmed_mint_is_recovered:
  assumes reach: "(vault_step (re_keccak256 env))\<^sup>*\<^sup>* empty_db db"
    and c: "find_cycle i db = Some c" "vc_status c = minting" "vc_mintAttempt c = Some a"
    and attempt: "js_trim (ma_tokenURI a) \<noteq> []" "ma_certNumber a \<noteq> []" "js_trim (ma_ownerWallet a) \<noteq> []"
      "ma_tokenId a = None"
    and chain: "confirmed_mint env (vc_chainId c) a"
      "vc_chainId c \<in> set (listConfiguredChainIds (re_config env))"
      "getRwaAddress (re_config env) (vc_chainId c) = Inr contract"
    and few: "length (filter (\<lambda>c. vc_status c = minting) (vd_cycles db)) \<le> 50"
  shows "\<exists>c'. find_cycle i (fst (recoverPass env False db)) = Some c' \<and> vc_status c' = minted"
proof -
  have wf: "vault_wf db" by (rule reachable_wf [OF reach])
  note ci = find_cycle_Some [OF c(1)]
  obtain asset where asset: "asset \<in> set (vd_assets db)" "va_id asset = vc_vaultAssetId c"
    using wf ci unfolding vault_wf_def cycles_wf_def by blast
  then have "find_asset (vc_vaultAssetId c) db = Some asset"
    using wf find_key_member [of va_id "vd_assets db" asset] by (simp add: find_asset_def wf_defs)
  then have "recoverable db c = Some (c, asset, a)"
    using c(3) attempt by (auto simp: recoverable_def)
  then have mem: "(c, asset, a) \<in> set (listMintingCyclesForRecovery 50 db)"
    using recovery_lists ci c(2) few by blast
  obtain n where n: "heal_token_id env (vc_chainId c) a = Inr n" "n \<noteq> 0"
    using heal_token_confirmed [OF chain(1) attempt(4)] by blast
  have "find_cycle (vc_id c) db = Some c" using c(1) ci by simp
  from recover_rows_minted [OF recovery_ids_distinct [OF wf] mem this c(2) attempt(1,3) chain(2) n chain(3)]
  show ?thesis using ci by (simp add: recoverPass_def)
qed

section \<open>The example: a process that died after the mint was sent\<close>

definition sample_hash :: string where
  "sample_hash = ''0x'' @ replicate 64 (CHR ''a'')"

definition sample_env :: recovery_env where
  "sample_env = \<lparr>re_config = (\<lambda>k.
        if k = ''CHAIN_1_RPC_URL'' then Some ''http://node''
        else if k = ''CHAIN_1_RWA_ADDRESS'' then Some (''0x'' @ replicate 40 (CHR ''c'')) else None),
     re_keccak256 = id, re_now = 20,
     re_receipt = (\<lambda>h ch. if h = sample_hash then Inr (Some
        [None, Some \<lparr>ml_name = ''Transfer'', ml_from = zero_address, ml_tokenId = 40\<rparr>]) else Inr None),
     re_tokenURI = (\<lambda>n ch. Inr ''ipfs://m''), re_tokenOwner = (\<lambda>n ch. Inr ''0xbb'')\<rparr>"

definition sample_attempt :: vault_mint_attempt where
  "sample_attempt = \<lparr>ma_tokenURI = ''ipfs://m'', ma_certNumber = ''A1'', ma_settlementPolicy = standard,
     ma_vaultPartnerId = None, ma_ownerWallet = ''0xbb'', ma_deliveryMode = custody,
     ma_displayName = Some ''Card'', ma_displayImageUrl = None, ma_displayImageBackUrl = None,
     ma_tokenId = None, ma_txHash = None\<rparr>"

definition sample_interrupted :: vault_db where
  "sample_interrupted = (case beginMintAttempt 6 1 sample_attempt deposited of
     Inl e \<Rightarrow> deposited | Inr db \<Rightarrow> noteMintAttemptTx 7 1 None sample_hash db)"

lemma interrupted_reachable: "(vault_step id)\<^sup>*\<^sup>* empty_db sample_interrupted"
proof -
  have "(vault_step id)\<^sup>*\<^sup>* deposited sample_interrupted"
    unfolding sample_interrupted_def
    by (auto split: sum.split intro: rtranclp.rtrancl_into_rtrancl [OF r_into_rtranclp]
        vault_step.begin_mint vault_step.note_mint)
  then show ?thesis by (rule rtranclp_trans [OF deposited_reachable])
qed

theorem confirmed_mint_is_recovered_witness:
  "\<exists>c'. find_cycle 1 (fst (recoverPass sample_env False sample_interrupted)) = Some c' \<and> vc_status c' = minted"
proof (rule confirmed_mint_is_recovered)
  let ?c = "the (find_cycle 1 sample_interrupted)"
  show "(vault_step (re_keccak256 sample_env))\<^sup>*\<^sup>* empty_db sample_interrupted"
    using interrupted_reachable by (simp add: sample_env_def)
  show "find_cycle 1 sample_interrupted = Some ?c" "vc_status ?c = minting"
    "vc_mintAttempt ?c = Some (the (vc_mintAttempt ?c))" by code_simp+
  show "js_trim (ma_tokenURI (the (vc_mintAttempt ?c))) \<noteq> []" "ma_certNumber (the (vc_mintAttempt ?c)) \<noteq> []"
    "js_trim (ma_ownerWallet (the (vc_mintAttempt ?c))) \<noteq> []" "ma_tokenId (the (vc_mintAttempt ?c)) = None"
    by code_simp+
  show "confirmed_mint sample_env (vc_chainId ?c) (the (vc_mintAttempt ?c))" by code_simp
  show "vc_chainId ?c \<in> set (listConfiguredChainIds (re_config sample_env))" by code_simp
  show "getRwaAddress (re_config sample_env) (vc_chainId ?c) = Inr (''0x'' @ replicate 40 (CHR ''c''))"
    by code_simp
  show "length (filter (\<lambda>c. vc_status c = minting) (vd_cycles sample_interrupted)) \<le> 50" by code_simp
qed

theorem recovery_touches_minting_only_witness:
  "find_cycle 1 (fst (recoverPass sample_env False sample_vault)) = find_cycle 1 sample_vault"
proof -
  let ?c = "the (find_cycle 1 sample_vault)"
  have "(vault_step (re_keccak256 sample_env))\<^sup>*\<^sup>* empty_db sample_vault"
    using sample_reachable by (simp add: sample_env_def)
  moreover have c: "find_cycle 1 sample_vault = Some ?c" "vc_status ?c \<noteq> minting" by code_simp+
  ultimately show ?thesis
    using recovery_touches_minting_only [of sample_env sample_vault 1 ?c False] by simp
qed

end
