(* ===== verification/MintProperties.thy ===== *)
theory MintProperties
  imports MintPipeline RecoveryProperties SubmissionMachine
begin

text \<open>
  The properties of the mint pipeline: what a successful mint leaves in the vault, how many
  transactions a call submits, what an error after the submission does, and that the recovery of
  an interrupted mint gives what the interrupted call would have given.
\<close>

section \<open>Reading successful calls\<close>

lemma need_ok: "need r f st = (st', Inr y) \<longleftrightarrow> (\<exists>x. r = Inr x \<and> f x st = (st', Inr y))"
  by (cases r) (simp_all add: need_def)

lemma andThen_ok: "andThen p f = (st', Inr y) \<longleftrightarrow> (\<exists>s x. p = (s, Inr x) \<and> f x s = (st', Inr y))"
  by (cases p; cases "snd p") (simp_all add: andThen_def)

lemmas ok_rules = need_ok andThen_ok on_ok_eq_Inr

text \<open>What the retry keeps when every attempt keeps it, and what it returns.\<close>

lemma rpc_retry_keeps:
  assumes refl: "\<And>s. R s s" and trans: "\<And>a b c. R a b \<Longrightarrow> R b c \<Longrightarrow> R a c"
    and step: "\<And>k s. R s (fst (fn k s))"
  shows "R st (fst (rpc_retry left k fn st))"
proof (induction left arbitrary: k st)
  case (Suc left)
  obtain st1 r where f: "fn k st = (st1, r)" by (cases "fn k st")
  then have 1: "R st st1" using step [of st k] by simp
  show ?case
  proof (cases r)
    case (Inl e)
    then show ?thesis using f 1 trans [OF 1 Suc.IH] by (auto split: if_splits)
  qed (use f 1 in simp)
qed (use step in simp)

lemma rpc_retry_ok:
  "rpc_retry left k fn st = (st', Inr x) \<Longrightarrow> \<exists>j st0. fn j st0 = (st', Inr x)"
  by (induction left k fn st rule: rpc_retry.induct) (auto split: prod.splits sum.splits if_splits)

section \<open>What minting does to the vault\<close>

text \<open>The vault's own steps; the cards, the place of the cycle and the burns stay.\<close>

definition burned_at :: "string \<times> string \<Rightarrow> vault_db \<Rightarrow> int option" where
  "burned_at k db = Option.bind (find_token k db) rt_burnedAt"

definition mint_frame :: "nat \<Rightarrow> vault_db \<Rightarrow> vault_db \<Rightarrow> bool" where
  "mint_frame i db db' = (vd_assets db' = vd_assets db \<and> (\<forall>k. burned_at k db' = burned_at k db)
     \<and> map_option (\<lambda>c. (vc_id c, vc_vaultAssetId c, vc_chainId c)) (find_cycle i db')
       = map_option (\<lambda>c. (vc_id c, vc_vaultAssetId c, vc_chainId c)) (find_cycle i db))"

lemma mint_frame_refl [simp]: "mint_frame i db db"
  by (simp add: mint_frame_def)

lemma mint_frame_trans: "mint_frame i a b \<Longrightarrow> mint_frame i b c \<Longrightarrow> mint_frame i a c"
  by (simp add: mint_frame_def)

lemma save_cycle_frame:
  "find_cycle (vc_id c) db = Some b \<Longrightarrow> vc_vaultAssetId c = vc_vaultAssetId b \<Longrightarrow> vc_chainId c = vc_chainId b \<Longrightarrow>
   mint_frame i db (save_cycle now c db)"
  using find_cycle_Some [of "vc_id c" db b] by (auto simp: mint_frame_def burned_at_def find_save_cycle)

lemma note_frame: "mint_frame i db (noteMintAttemptTx now j tid tx db)"
proof (cases rule: noteMint_cases [of now j tid tx db])
  case (2 c att)
  show ?thesis unfolding 2(3) by (rule save_cycle_frame [of _ _ c]) (use 2(1) find_cycle_Some in auto)
qed simp

lemma owner_frame: "mint_frame i db (recordOwner c tid w db)"
proof -
  have "burned_at k (save_token (t\<lparr>rt_ownerWallet := x\<rparr>) db) = burned_at k db"
    if "find_token (rt_key t) db = Some t \<or> find_token (rt_key t) db = None \<and> rt_burnedAt t = None" for t k x
    using that by (auto simp: burned_at_def token_repo.look_put rt_key_def)
  moreover have "rt_key t = (a, b)" if "find_token (a, b) db = Some t" for a b t
    using that by (simp add: find_token_Some)
  ultimately show ?thesis
    by (auto simp: mint_frame_def recordOwner_def put_owner_def Let_def find_cycle_def stub_token_def rt_key_def
        split: option.split)
qed

lemma note_step: "vault_step k db (noteMintAttemptTx now i tid tx db)"
  by (rule vault_step.note_mint [OF refl])

lemma owner_step: "vault_step k db (recordOwner c tid w db)"
  by (rule vault_step.own [OF refl])

text \<open>One relation for everything an attempt does: run of the vault and frame.\<close>

definition mint_run :: "(string \<Rightarrow> string) \<Rightarrow> nat \<Rightarrow> mint_state \<Rightarrow> mint_state \<Rightarrow> bool" where
  "mint_run kc i st st' = ((vault_step kc)\<^sup>*\<^sup>* (ms_vault st) (ms_vault st') \<and> mint_frame i (ms_vault st) (ms_vault st')
     \<and> ms_subs st' = ms_subs st)"

lemma mint_run_refl [simp]: "mint_run kc i st st"
  by (simp add: mint_run_def)

lemma mint_run_trans: "mint_run kc i a b \<Longrightarrow> mint_run kc i b c \<Longrightarrow> mint_run kc i a c"
  unfolding mint_run_def using mint_frame_trans by (metis rtranclp_trans)

lemma note_submitted_run: "mint_run kc i st (note_submitted env o' h st)"
  by (auto simp: mint_run_def note_submitted_def note_frame note_step split: option.split)

lemma owner_run: "mint_run kc i st (st\<lparr>ms_vault := recordOwner c tid w (ms_vault st)\<rparr>)"
  by (auto simp: mint_run_def owner_frame owner_step)

lemma mint_attempt_run: "mint_run kc i st (fst (mint_attempt env ch r o' k st))"
proof (cases "getRwaAddress (mt_config env) ch")
  case (Inr contract)
  show ?thesis
  proof (cases "mt_send env k r")
    case (submitted h w)
    note n = note_submitted_run [of kc i st env o' h]
    then have "mint_run kc i st ((note_submitted env o' h st)\<lparr>ms_vault := recordOwner c t w
        (ms_vault (note_submitted env o' h st))\<rparr>)" for c t w
      using mint_run_trans owner_run by blast
    with n show ?thesis
      by (auto simp: mint_attempt_def Inr submitted Let_def split: wait_outcome.split option.split list.split)
  qed (simp add: mint_attempt_def Inr)
qed (simp add: mint_attempt_def)

lemma mintTo_run: "mint_run kc i st (fst (mintTo env to uri ref ch o' st))"
proof -
  have "mint_run kc i st (fst (withRpcProviderCall (mint_attempt env ch r o') st))" for r
    unfolding withRpcProviderCall_def
    by (rule rpc_retry_keeps [of "mint_run kc i"]) (auto intro: mint_attempt_run mint_run_trans)
  then show ?thesis
    by (auto simp: mintTo_def Let_def split: sum.split prod.split) (metis fst_conv)+
qed

section \<open>A successful mint\<close>

lemma mint_reserve_Inr:
  assumes "mint_reserve env u dto ch st = (st', Inr (i, b))"
  obtains asset cycle db where
    "reserveCycleForDeposit (re_keccak256 (mt_recovery env)) (mt_now env) (js_trim (md_certNumber dto)) ch psa_graded
       (Some (early_display_name dto)) (Some u)
       (fst (reconcileBlockingOpenCycle (mt_recovery env) (js_trim (md_certNumber dto)) ch (ms_vault st)))
     = Inr (asset, cycle, db)" "ms_vault st' = db" "i = vc_id cycle" "ms_sent st' = ms_sent st"
  using assms by (auto simp: mint_reserve_def Let_def split_beta need_ok)

lemma mint_finish_vault: "ms_vault (fst (mint_finish env dto ch i b st)) = ms_vault st"
  by (auto simp: mint_finish_def Let_def need_def split: sum.split)

lemma mint_on_chain_Inr:
  assumes "mint_on_chain env dto ch i att ref st = (st', Inr (tid, tx))"
  obtains st1 contract where
    "mintTo env (ma_ownerWallet att) (ma_tokenURI att) ref ch (Some i) st = (st1, Inr (tid, tx))"
    "getRwaAddress (mt_config env) ch = Inr contract"
    "recordMintResult (re_keccak256 (mt_recovery env)) (mt_now env) (mint_record env dto i att contract tid tx)
       (noteMintAttemptTx (mt_now env) i (Some (nat_str tid)) tx (ms_vault st1)) = (ms_vault st', Inr ())"
proof -
  obtain st1 r where m: "mintTo env (ma_ownerWallet att) (ma_tokenURI att) ref ch (Some i) st = (st1, r)"
    by (cases "mintTo env (ma_ownerWallet att) (ma_tokenURI att) ref ch (Some i) st")
  show thesis
  proof (cases r)
    case (Inl e)
    then show thesis using assms m by (simp add: mint_on_chain_def)
  next
    case (Inr x)
    obtain t h where x: "x = (t, h)" by (cases x)
    let ?db = "noteMintAttemptTx (mt_now env) i (Some (nat_str t)) h (ms_vault st1)"
    obtain contract where c: "getRwaAddress (mt_config env) ch = Inr contract"
      and r: "(st1\<lparr>ms_vault := fst (recordMintResult (re_keccak256 (mt_recovery env)) (mt_now env)
            (mint_record env dto i att contract t h) ?db)\<rparr>,
          on_ok (snd (recordMintResult (re_keccak256 (mt_recovery env)) (mt_now env)
            (mint_record env dto i att contract t h) ?db)) (\<lambda>_. Inr (t, h))) = (st', Inr (tid, tx))"
      using assms m Inr x by (auto simp: mint_on_chain_def need_ok split_beta)
    then have "t = tid" "h = tx" "snd (recordMintResult (re_keccak256 (mt_recovery env)) (mt_now env)
        (mint_record env dto i att contract t h) ?db) = Inr ()" by (auto simp: on_ok_eq_Inr)
    with c r show thesis using that m Inr x by (metis fst_conv mint_state.select_convs(1) mint_state.surjective
        mint_state.update_convs(1) prod.collapse)
  qed
qed

lemma mintForUser_Inr:
  assumes "mintForUser env u dto ch opts st = (st', Inr out)"
  obtains vp ref asset cycle db2 cw db3 st3 st4 contract where
    "mint_preflight env u dto ch opts (ms_subs st) = Inr (vp, ref)"
    "reserveCycleForDeposit (re_keccak256 (mt_recovery env)) (mt_now env) (js_trim (md_certNumber dto)) ch psa_graded
       (Some (early_display_name dto)) (Some u)
       (fst (reconcileBlockingOpenCycle (mt_recovery env) (js_trim (md_certNumber dto)) ch (ms_vault st)))
     = Inr (asset, cycle, db2)"
    "beginMintAttempt (mt_now env) (vc_id cycle) (mint_attempt_row env dto ch vp (mo_mintedTo out)) db2 = Inr db3"
    "ms_vault st3 = db3"
    "mintTo env (mo_mintedTo out) (js_trim (md_tokenURI dto)) ref ch (Some (vc_id cycle)) st3
       = (st4, Inr (mo_tokenId out, mo_txHash out))"
    "getRwaAddress (mt_config env) ch = Inr contract"
    "recordMintResult (re_keccak256 (mt_recovery env)) (mt_now env)
       (mint_record env dto (vc_id cycle) (mint_attempt_row env dto ch vp (mo_mintedTo out)) contract
         (mo_tokenId out) (mo_txHash out))
       (noteMintAttemptTx (mt_now env) (vc_id cycle) (Some (nat_str (mo_tokenId out))) (mo_txHash out) (ms_vault st4))
     = (ms_vault st', Inr ())"
    "ms_sent st3 = ms_sent st"
proof -
  have vault: "ms_vault s' = ms_vault s" if "mint_finish env dto ch i b s = (s', r)" for i b s s' r
    using mint_finish_vault [of env dto ch i b s] that by simp
  have row: "ma_ownerWallet (mint_attempt_row env dto ch vp w) = w"
    "ma_tokenURI (mint_attempt_row env dto ch vp w) = js_trim (md_tokenURI dto)" for vp w
    by (simp_all add: mint_attempt_row_def Let_def)
  from assms obtain vp ref s1 i b cw db3 s4 tid tx s5 where
    p: "mint_preflight env u dto ch opts (ms_subs st) = Inr (vp, ref)"
    and r: "mint_reserve env u dto ch st = (s1, Inr (i, b))"
    and a: "beginMintAttempt (mt_now env) i (mint_attempt_row env dto ch vp (mo_mintedTo out)) (ms_vault s1) = Inr db3"
    and m: "mint_on_chain env dto ch i (mint_attempt_row env dto ch vp (mo_mintedTo out)) ref (s1\<lparr>ms_vault := db3\<rparr>)
        = (s4, Inr (tid, tx))"
    and f: "mint_finish env dto ch i b s4 = (s5, Inr ())" and o: "st' = s5" "mo_tokenId out = tid" "mo_txHash out = tx"
    by (auto simp: mintForUser_def Let_def need_ok andThen_ok split_beta)
  from r obtain asset cycle db where c: "reserveCycleForDeposit (re_keccak256 (mt_recovery env)) (mt_now env)
       (js_trim (md_certNumber dto)) ch psa_graded (Some (early_display_name dto)) (Some u)
       (fst (reconcileBlockingOpenCycle (mt_recovery env) (js_trim (md_certNumber dto)) ch (ms_vault st)))
     = Inr (asset, cycle, db)" "ms_vault s1 = db" "i = vc_id cycle" "ms_sent s1 = ms_sent st" by (rule mint_reserve_Inr)
  let ?att = "mint_attempt_row env dto ch vp (mo_mintedTo out)"
  from m obtain s3 contract where
    "mintTo env (ma_ownerWallet ?att) (ma_tokenURI ?att) ref ch (Some i) (s1\<lparr>ms_vault := db3\<rparr>) = (s3, Inr (tid, tx))"
    "getRwaAddress (mt_config env) ch = Inr contract"
    "recordMintResult (re_keccak256 (mt_recovery env)) (mt_now env)
       (mint_record env dto i (mint_attempt_row env dto ch vp (mo_mintedTo out)) contract tid tx)
       (noteMintAttemptTx (mt_now env) i (Some (nat_str tid)) tx (ms_vault s3)) = (ms_vault s4, Inr ())"
    by (rule mint_on_chain_Inr)
  note x = this [unfolded row]
  with p a c o vault [OF f] show thesis by (intro that [of vp ref asset cycle db db3 "s1\<lparr>ms_vault := db3\<rparr>"]) auto
qed

lemma cancel_burned: "burned_at k (cancelCycle now i db) = burned_at k db"
  by (cases rule: cancelCycle_cases [of now i db]) (auto simp: burned_at_def)

lemma record_burned: "burned_at k (fst (recordMintResult kc now p db)) = burned_at k db"
proof -
  have row: "burned_at k (save_token (minted_row now i ref p (find_token (mr_tokenContract p, mr_tokenId p) db)) db)
      = burned_at k db" for i ref db
  proof -
    let ?r = "minted_row now i ref p (find_token (mr_tokenContract p, mr_tokenId p) db)"
    have key: "rt_key ?r = (mr_tokenContract p, mr_tokenId p)"
      by (rule minted_row_key) (auto dest: find_token_Some)
    have "rt_burnedAt ?r = burned_at (mr_tokenContract p, mr_tokenId p) db" by (simp add: burned_at_def)
    then show ?thesis unfolding burned_at_def token_repo.look_put key by simp
  qed
  have name: "burned_at k (name_asset_once j n db) = burned_at k db" for j n db
    by (simp add: burned_at_def find_token_def)
  have cyc: "burned_at k (save_cycle now c db) = burned_at k db" for c db by (simp add: burned_at_def)
  show ?thesis
    unfolding recordMintResult_def Let_def
    by (auto simp: row name cyc split: option.split sum.split)
qed

lemma reconcile_keeps:
  assumes cn: "\<And>i db. P db \<Longrightarrow> P (cancelCycle (re_now env) i db)"
    and rr: "\<And>p db. P db \<Longrightarrow> P (fst (recordMintResult (re_keccak256 env) (re_now env) p db))"
    and P: "P db"
  shows "P (fst (reconcileBlockingOpenCycle env cert ch db))"
proof -
  have heal: "P (fst (healOne env i ch a u db))" if "P db" for i ch a u db
    by (cases rule: healOne_writes [of env i ch a u db]) (use that cn rr in auto)
  have "P (fst (reconcile_minting env c db))" if "P db" for c db
  proof -
    define r where "r = (case vc_mintAttempt c of
        Some a \<Rightarrow> if ma_tokenURI a \<noteq> [] \<and> ma_certNumber a \<noteq> []
          then healOne env (vc_id c) (vc_chainId c) a (vc_updatedAt c) db else (db, Inr heal_skip)
      | None \<Rightarrow> (db, Inr heal_skip))"
    have "P (fst r)" using that heal by (auto simp: r_def split: option.split)
    moreover have "fst (reconcile_minting env c db) = fst r
        \<or> fst (reconcile_minting env c db) = cancelCycle (re_now env) (vc_id c) (fst r)"
      unfolding reconcile_minting_def Let_def r_def [symmetric]
      by (cases r) (auto simp: Let_def split: sum.split heal_outcome.split)
    ultimately show ?thesis using cn by auto
  qed
  then show ?thesis using P cn by (auto simp: reconcileBlockingOpenCycle_def split: option.split)
qed

lemma normalizeCert_trim [simp]: "normalizeCert (js_trim c) = normalizeCert c"
  by (simp add: normalizeCert_def)

lemma begin_frame: "beginMintAttempt now i att db = Inr db' \<Longrightarrow> mint_frame i db db'"
proof (erule beginMint_Inr)
  fix c att'
  assume c: "find_cycle i db = Some c"
    and db': "db' = save_cycle now (c\<lparr>vc_status := minting, vc_mintAttempt := Some att'\<rparr>) db"
  show ?thesis unfolding db' by (rule save_cycle_frame [of _ _ c]) (use c find_cycle_Some [OF c] in simp_all)
qed

lemma reserved_asset:
  assumes wf: "vault_wf db" and r: "reserveCycleForDeposit k now cert ch ty name user db = Inr (a, c, db')"
  shows "normalizeCert cert \<noteq> [] \<and> find_asset_by_cert ty (normalizeCert cert) db' = Some a
    \<and> find_cycle (vc_id c) db' = Some (c\<lparr>vc_updatedAt := now\<rparr>) \<and> vc_vaultAssetId c = va_id a
    \<and> vc_chainId c = ch \<and> vd_tokens db' = vd_tokens db"
  using r
proof (rule reserve_Inr)
  fix db1
  assume f: "find_or_create_asset k ty (normalizeCert cert) name db = Inr (a, db1)" and n: "normalizeCert cert \<noteq> []"
    and c: "c = \<lparr>vc_id = vd_next db1, vc_vaultAssetId = va_id a, vc_chainId = ch,
        vc_cycleNumber = length (cycles_of_asset (va_id a) db1) + 1, vc_status = deposit_verified,
        vc_depositedAt = Some now, vc_depositVerifiedBy = None, vc_depositedByUserId = user,
        vc_redeemedAt = None, vc_mintAttempt = None, vc_updatedAt = now\<rparr>"
    and db': "db' = save_cycle now c (db1\<lparr>vd_next := vd_next db1 + 1\<rparr>)"
  note 1 = find_or_create_asset_ok [OF wf f]
  then have "find_asset_by_cert ty (normalizeCert cert) db' = Some a" by (simp add: db' find_asset_by_cert_def)
  then show ?thesis using 1 n by (simp add: db' c find_save_cycle)
qed

text \<open>The whole call, up to the record: the vault it reached and the row it records.\<close>

lemma mintForUser_run:
  assumes reach: "(vault_step (re_keccak256 (mt_recovery env)))\<^sup>*\<^sup>* empty_db (ms_vault st)"
    and ok: "mintForUser env u dto ch opts st = (st', Inr out)"
  obtains contract p db a and c :: vault_cycle where
    "getRwaAddress (mt_config env) ch = Inr contract" "mr_tokenContract p = contract"
    "mr_tokenId p = nat_str (mo_tokenId out)" "(vault_step (re_keccak256 (mt_recovery env)))\<^sup>*\<^sup>* empty_db db"
    "recordMintResult (re_keccak256 (mt_recovery env)) (mt_now env) p db = (ms_vault st', Inr ())"
    "find_cycle (mr_cycleId p) db = Some c" "vc_chainId c = ch" "find_asset (vc_vaultAssetId c) db = Some a"
    "va_assetType a = psa_graded" "va_externalCertNumber a = normalizeCert (md_certNumber dto)"
    "normalizeCert (md_certNumber dto) \<noteq> []" "\<And>k. burned_at k db = burned_at k (ms_vault st)"
  using ok
proof (rule mintForUser_Inr)
  fix vp ref asset db2 db3 contract and st3 st4 :: mint_state and cycle :: vault_cycle
  let ?k = "re_keccak256 (mt_recovery env)" and ?cert = "js_trim (md_certNumber dto)"
  let ?db1 = "fst (reconcileBlockingOpenCycle (mt_recovery env) ?cert ch (ms_vault st))"
  let ?p = "mint_record env dto (vc_id cycle) (mint_attempt_row env dto ch vp (mo_mintedTo out)) contract
      (mo_tokenId out) (mo_txHash out)"
  let ?db5 = "noteMintAttemptTx (mt_now env) (vc_id cycle) (Some (nat_str (mo_tokenId out))) (mo_txHash out) (ms_vault st4)"
  assume r: "reserveCycleForDeposit ?k (mt_now env) ?cert ch psa_graded (Some (early_display_name dto)) (Some u) ?db1
      = Inr (asset, cycle, db2)"
    and b: "beginMintAttempt (mt_now env) (vc_id cycle) (mint_attempt_row env dto ch vp (mo_mintedTo out)) db2 = Inr db3"
    and s3: "ms_vault st3 = db3"
    and m: "mintTo env (mo_mintedTo out) (js_trim (md_tokenURI dto)) ref ch (Some (vc_id cycle)) st3
      = (st4, Inr (mo_tokenId out, mo_txHash out))"
    and c': "getRwaAddress (mt_config env) ch = Inr contract"
    and rm: "recordMintResult ?k (mt_now env) ?p ?db5 = (ms_vault st', Inr ())"
  have 1: "(vault_step ?k)\<^sup>*\<^sup>* empty_db ?db1" by (rule rtranclp_trans [OF reach reconcileBlocking_steps])
  have 2: "(vault_step ?k)\<^sup>*\<^sup>* empty_db db2" by (rule rtranclp.rtrancl_into_rtrancl [OF 1 vault_step.reserve [OF r]])
  have 3: "(vault_step ?k)\<^sup>*\<^sup>* empty_db db3" by (rule rtranclp.rtrancl_into_rtrancl [OF 2 vault_step.begin_mint [OF b]])
  have run: "mint_run ?k (vc_id cycle) st3 st4" using mintTo_run [of ?k "vc_id cycle" st3 env] m by (metis fst_conv)
  then have "(vault_step ?k)\<^sup>*\<^sup>* empty_db (ms_vault st4)" using 3 s3 by (auto simp: mint_run_def)
  then have 5: "(vault_step ?k)\<^sup>*\<^sup>* empty_db ?db5" by (rule rtranclp.rtrancl_into_rtrancl) (rule note_step)
  have frame: "mint_frame (vc_id cycle) db2 ?db5"
    using begin_frame [OF b] run s3 note_frame mint_frame_trans unfolding mint_run_def by blast
  note x = reserved_asset [OF reachable_wf [OF 1] r]
  obtain c where c: "find_cycle (vc_id cycle) ?db5 = Some c" "vc_vaultAssetId c = va_id asset" "vc_chainId c = ch"
    using frame x by (auto simp: mint_frame_def)
  have fa: "find_asset_by_cert psa_graded (normalizeCert ?cert) db2 = Some asset" using x by blast
  have "asset \<in> set (vd_assets ?db5)" using find_asset_by_cert_Some [OF fa] frame by (simp add: mint_frame_def)
  then have a: "find_asset (vc_vaultAssetId c) ?db5 = Some asset"
    using find_key_member [of va_id "vd_assets ?db5" asset] reachable_wf [OF 5]
    by (simp add: find_asset_def wf_defs c)
  have "burned_at k ?db1 = burned_at k (ms_vault st)" for k
    by (rule reconcile_keeps) (simp_all add: cancel_burned record_burned)
  then have "burned_at k ?db5 = burned_at k (ms_vault st)" for k
    using frame x by (cases k) (simp add: mint_frame_def burned_at_def find_token_def)
  moreover have "mr_cycleId ?p = vc_id cycle" "mr_tokenContract ?p = contract" "mr_tokenId ?p = nat_str (mo_tokenId out)"
    by (simp_all add: mint_record_def)
  ultimately show ?thesis
    using that [OF c' _ _ 5 rm _ c(3) a] c(1) find_asset_by_cert_Some [OF fa] x by simp
qed

text \<open>C7 A successful mint can be found: after mintForUser returns token id n, the certificate has an open
  minted cycle on the chain, findOpenMintedTokenForCert answers with the row of token n of the chain's
  contract, so that asking again adopts that token, and the vault is still a reachable one.\<close>
theorem pipeline_mint_is_found:
  assumes reach: "(vault_step (re_keccak256 (mt_recovery env)))\<^sup>*\<^sup>* empty_db (ms_vault st)"
    and ok: "mintForUser env u dto ch opts st = (st', Inr out)"
    and contract: "getRwaAddress (mt_config env) ch = Inr contract"
    and fresh: "burned_at (contract, nat_str (mo_tokenId out)) (ms_vault st) = None"
  shows "(\<exists>c t ref. findOpenMintedTokenForCert (md_certNumber dto) ch psa_graded (ms_vault st')
        = Some (c, t, of_nat (mo_tokenId out), ref) \<and> vc_status c = minted \<and> vc_chainId c = ch
        \<and> rt_key t = (contract, nat_str (mo_tokenId out)))
    \<and> (vault_step (re_keccak256 (mt_recovery env)))\<^sup>*\<^sup>* empty_db (ms_vault st')"
proof (rule mintForUser_run [OF reach ok])
  fix contract' p db a and c :: vault_cycle
  let ?k = "re_keccak256 (mt_recovery env)"
  assume p: "getRwaAddress (mt_config env) ch = Inr contract'" "mr_tokenContract p = contract'"
      "mr_tokenId p = nat_str (mo_tokenId out)"
    and db: "(vault_step ?k)\<^sup>*\<^sup>* empty_db db" "recordMintResult ?k (mt_now env) p db = (ms_vault st', Inr ())"
    and c: "find_cycle (mr_cycleId p) db = Some c" "vc_chainId c = ch" "find_asset (vc_vaultAssetId c) db = Some a"
    and a: "va_assetType a = psa_graded" "va_externalCertNumber a = normalizeCert (md_certNumber dto)"
      "normalizeCert (md_certNumber dto) \<noteq> []" and b: "\<And>k. burned_at k db = burned_at k (ms_vault st)"
  have key: "(mr_tokenContract p, mr_tokenId p) = (contract, nat_str (mo_tokenId out))" using p contract by simp
  have nb: "burned_at (contract, nat_str (mo_tokenId out)) db = None" using b fresh by simp
  show ?thesis
  proof (rule record_lookup [OF reachable_wf [OF db(1)] db(2) c(1,3)])
    fix ref' b' t and c' :: vault_cycle
    assume t: "t = minted_row (mt_now env) (vc_id c) ref' p (find_token (mr_tokenContract p, mr_tokenId p) db)"
      "c' = c\<lparr>vc_status := minted, vc_mintAttempt := None, vc_updatedAt := mt_now env\<rparr>"
      "find_asset_by_cert (va_assetType a) (va_externalCertNumber a) (ms_vault st') = Some b'" "va_id b' = vc_vaultAssetId c"
      "open_cycle_of (vc_vaultAssetId c) (vc_chainId c) (ms_vault st') = Some c'"
      "find_row (\<lambda>t. rt_vaultCycleId t = Some (vc_id c)) (vd_tokens (ms_vault st')) = Some t"
      "rt_key t = (mr_tokenContract p, mr_tokenId p)"
    have "rt_burnedAt t = None" using nb t(1) key by (simp add: burned_at_def)
    moreover have "rt_tokenId t = nat_str (mo_tokenId out)" using t(7) key by (simp add: rt_key_def)
    ultimately have "findOpenMintedTokenForCert (md_certNumber dto) ch psa_graded (ms_vault st')
        = Some (c', t, of_nat (mo_tokenId out), va_vaultRef b')"
      using t(2-6) a c find_cycle_Some [OF c(1)] by (simp add: findOpenMintedTokenForCert_def)
    then show ?thesis
      using t(2,7) key c(2) rtranclp.rtrancl_into_rtrancl [OF db(1) vault_step.record_mint [OF db(2)]] by auto
  qed
qed

section \<open>How many transactions a call submits\<close>

text \<open>The usual input of mintTo: a recipient, a token URI, a vault reference and a signer.\<close>

definition mint_ready :: "mint_env \<Rightarrow> string \<Rightarrow> string \<Rightarrow> string \<Rightarrow> nat \<Rightarrow> bool" where
  "mint_ready env to tokenURI vaultRef chainId =
     (is_hex_word_ci 40 (js_lower (js_trim to)) \<and> js_trim tokenURI \<noteq> [] \<and> vaultRef \<noteq> [] \<and> vaultRef \<noteq> zero_hash
      \<and> (case ownerPrivateKey (mt_config env) of Inl e \<Rightarrow> False | Inr k \<Rightarrow> True)
      \<and> (case getRwaAddress (mt_config env) chainId of Inl e \<Rightarrow> False | Inr c \<Rightarrow> True))"

lemma mint_ready_contract: "mint_ready env to uri ref ch \<Longrightarrow> \<exists>contract. getRwaAddress (mt_config env) ch = Inr contract"
  by (auto simp: mint_ready_def split: sum.splits)

lemma mint_ready_mintTo:
  "mint_ready env to uri ref ch \<Longrightarrow> mintTo env to uri ref ch o' st =
     (case rpc_retry 5 1 (mint_attempt env ch (js_lower (js_trim to)) o') st of
        (st', Inl e) \<Rightarrow> (st', Inl (toMintRpcHttpException e)) | (st', Inr x) \<Rightarrow> (st', Inr x))"
  by (auto simp: mint_ready_def mintTo_def Let_def withRpcProviderCall_def DEFAULT_MAX_RETRIES_def split: sum.splits)

lemma first_try:
  "fn k st = (st', Inr x) \<Longrightarrow> rpc_retry left k fn st = (st', Inr x)"
  "fn k st = (st', Inl e) \<Longrightarrow> \<not> limited e \<Longrightarrow> rpc_retry left k fn st = (st', Inl e)"
  by (cases left; simp)+

lemma next_try:
  "fn k st = (st', Inl e) \<Longrightarrow> limited e \<Longrightarrow> rpc_retry (Suc left) k fn st = rpc_retry left (k + 1) fn st'"
  by simp

text \<open>What one attempt adds to the submitted transactions, and when the retry goes on after it.\<close>

lemma mint_attempt_sent:
  obtains "ms_sent (fst (mint_attempt env ch r o' k st)) = ms_sent st"
  | h w where "mt_send env k r = submitted h w" "ms_sent (fst (mint_attempt env ch r o' k st)) = ms_sent st @ [h]"
      "\<And>e. snd (mint_attempt env ch r o' k st) = Inl e \<Longrightarrow> limited e \<Longrightarrow>
        \<exists>err. w = wait_fails err \<and> isRpcRateLimitError err"
proof (cases "getRwaAddress (mt_config env) ch")
  case (Inr contract)
  show thesis
  proof (cases "mt_send env k r")
    case (submitted h w)
    have "ms_sent (fst (mint_attempt env ch r o' k st)) = ms_sent st @ [h]"
      by (auto simp: mint_attempt_def Inr submitted Let_def note_submitted_def
          split: wait_outcome.split option.split list.split)
    moreover have "\<exists>err. w = wait_fails err \<and> isRpcRateLimitError err"
      if "snd (mint_attempt env ch r o' k st) = Inl e" "limited e" for e
      using that by (auto simp: mint_attempt_def Inr submitted Let_def limited_def
          split: wait_outcome.splits option.splits list.splits)
    ultimately show thesis using that(2) [OF submitted] by simp
  qed (use that(1) in \<open>simp add: mint_attempt_def Inr\<close>)
qed (use that(1) in \<open>simp add: mint_attempt_def\<close>)

lemma retry_sends_once:
  assumes "\<And>k h err. mt_send env k r = submitted h (wait_fails err) \<Longrightarrow> \<not> isRpcRateLimitError err"
  shows "\<exists>hs. length hs \<le> 1 \<and> ms_sent (fst (rpc_retry left k (mint_attempt env ch r o') st)) = ms_sent st @ hs"
proof (induction left arbitrary: k st)
  case 0
  show ?case
    by (cases rule: mint_attempt_sent [of env ch r o' k st]) (force, simp)
next
  case (Suc left)
  obtain st1 x where f: "mint_attempt env ch r o' k st = (st1, x)" by (cases "mint_attempt env ch r o' k st")
  show ?case
  proof (cases rule: mint_attempt_sent [of env ch r o' k st])
    case 1
    then have s: "ms_sent st1 = ms_sent st" using f by simp
    show ?thesis
    proof (cases x)
      case (Inl e)
      then show ?thesis using f s Suc.IH [of "k + 1" st1] by (auto intro: exI [of _ "[]"])
    qed (use f s in auto)
  next
    case (2 h w)
    then have "\<not> limited e" if "x = Inl e" for e using f that assms by fastforce
    then have "rpc_retry (Suc left) k (mint_attempt env ch r o') st = (st1, x)"
      using f by (cases x) (simp_all add: first_try)
    then show ?thesis using 2(2) f by (intro exI [of _ "[h]"]) simp
  qed
qed

text \<open>At most n transactions more.\<close>

definition submits :: "nat \<Rightarrow> mint_state \<Rightarrow> mint_state \<Rightarrow> bool" where
  "submits n st st' = (\<exists>hs. ms_sent st' = ms_sent st @ hs \<and> length hs \<le> n)"

lemma submits_refl [simp]: "submits n st st"
  by (simp add: submits_def)

lemma submits_0: "ms_sent st' = ms_sent st \<Longrightarrow> submits n st st'"
  by (simp add: submits_def)

lemma submits_trans: "submits m a b \<Longrightarrow> submits n b c \<Longrightarrow> submits (m + n) a c"
  by (force simp: submits_def)

lemma submits_need: "(\<And>x. r = Inr x \<Longrightarrow> submits n st (fst (f x st))) \<Longrightarrow> submits n st (fst (need r f st))"
  by (cases r) (simp_all add: need_def)

lemma submits_andThen:
  assumes "submits m st (fst p)" "\<And>x s. submits n s (fst (f x s))"
  shows "submits (m + n) st (fst (andThen p f))"
proof (cases "snd p")
  case (Inl e)
  then show ?thesis using assms(1) by (auto simp: andThen_def split_beta submits_def)
next
  case (Inr x)
  then show ?thesis using submits_trans [OF assms(1) assms(2)] by (simp add: andThen_def split_beta)
qed

lemma mintTo_sends:
  assumes "\<And>k r h err. mt_send env k r = submitted h (wait_fails err) \<Longrightarrow> \<not> isRpcRateLimitError err"
  shows "submits 1 st (fst (mintTo env to uri ref ch o' st))"
proof -
  let ?r = "js_lower (js_trim to)"
  have "submits 1 st (fst (withRpcProviderCall (mint_attempt env ch ?r o') st))"
    using retry_sends_once [of env ?r "DEFAULT_MAX_RETRIES - 1" 1 ch o' st] assms
    by (auto simp: withRpcProviderCall_def submits_def)
  then show ?thesis
    by (auto simp: mintTo_def Let_def split: sum.split prod.split)
qed

lemma mint_on_chain_sent: "ms_sent (fst (mint_on_chain env dto ch i att ref st))
    = ms_sent (fst (mintTo env (ma_ownerWallet att) (ma_tokenURI att) ref ch (Some i) st))"
  by (auto simp: mint_on_chain_def need_def split_beta Let_def split: sum.split prod.split)

lemma mint_finish_sent: "ms_sent (fst (mint_finish env dto ch i b st)) = ms_sent st"
  by (auto simp: mint_finish_def Let_def need_def split: sum.split)

lemma mint_reserve_sent: "ms_sent (fst (mint_reserve env u dto ch st)) = ms_sent st"
  by (auto simp: mint_reserve_def Let_def need_def split_beta split: sum.split)

text \<open>C21 No call mints twice unless the provider limits its rate: when no submitted transaction is answered
  with a rate limit while it is waited for, a whole mintForUser, successful or not, submits at most
  one transaction.\<close>
theorem one_transaction_unless_limited:
  assumes "\<And>k r h err. mt_send env k r = submitted h (wait_fails err) \<Longrightarrow> \<not> isRpcRateLimitError err"
  shows "\<exists>hs. ms_sent (fst (mintForUser env u dto ch opts st)) = ms_sent st @ hs \<and> length hs \<le> 1"
proof -
  have chain: "submits 1 s (fst (mint_on_chain env dto ch i att ref (s\<lparr>ms_vault := db\<rparr>)))" for i att ref s db
  proof -
    have "submits 1 (s\<lparr>ms_vault := db\<rparr>) (fst (mintTo env (ma_ownerWallet att) (ma_tokenURI att) ref ch (Some i)
        (s\<lparr>ms_vault := db\<rparr>)))"
      by (rule mintTo_sends) (rule assms)
    then show ?thesis by (simp add: submits_def mint_on_chain_sent)
  qed
  have finish: "submits 0 s (fst (andThen (mint_finish env dto ch i b s) (\<lambda>_ st. (st, Inr (out :: mint_outcome)))))"
    for i b s out
  proof -
    have "submits (0 + 0) s (fst (andThen (mint_finish env dto ch i b s) (\<lambda>_ st. (st, Inr out))))"
      by (rule submits_andThen) (simp_all add: submits_0 mint_finish_sent)
    then show ?thesis by simp
  qed
  have "submits (0 + (1 + 0)) st (fst (mintForUser env u dto ch opts st))"
    unfolding mintForUser_def Let_def split_beta
    by (intro submits_need submits_andThen chain finish) (simp add: submits_0 mint_reserve_sent)
  then show ?thesis by (simp add: submits_def)
qed

section \<open>What a late answer does\<close>

lemma mint_attempt_submitted:
  assumes "getRwaAddress (mt_config env) ch = Inr contract" "mt_send env k r = submitted h w"
  shows "w = wait_fails err \<Longrightarrow> mint_attempt env ch r o' k st = (note_submitted env o' h st, Inl (rpc_failure err))"
    and "w = wait_receipt (Some (h', logs)) \<Longrightarrow> parseMintedTokenIds logs = n # ns \<Longrightarrow>
      mint_attempt env ch r o' k st =
        ((note_submitted env o' h st)\<lparr>ms_vault := recordOwner contract (nat_str n) r (ms_vault (note_submitted env o' h st))\<rparr>,
         Inr (n, h'))"
  using assms by (simp_all add: mint_attempt_def Let_def)

lemma note_cycle:
  assumes "find_cycle i db = Some c"
  shows "\<exists>x y. find_cycle i (noteMintAttemptTx now i t h db) = Some (c\<lparr>vc_mintAttempt := x, vc_updatedAt := y\<rparr>)"
proof (cases rule: noteMint_cases [of now i t h db])
  case 1
  moreover have "c = c\<lparr>vc_mintAttempt := vc_mintAttempt c, vc_updatedAt := vc_updatedAt c\<rparr>" by simp
  ultimately show ?thesis using assms by metis
next
  case (2 c' a)
  have "find_cycle i (noteMintAttemptTx now i t h db) = Some (c\<lparr>vc_mintAttempt := Some a, vc_updatedAt := now\<rparr>)"
    unfolding 2(3) using 2(1) assms find_cycle_Some [OF assms] by (simp add: find_save_cycle)
  then show ?thesis by blast
qed

text \<open>C34 The retry mints again: when the first transaction is submitted and waiting for it runs into the
  provider's rate limit, mintTo sends a second one; when that is confirmed, both were submitted, and
  the caller and the cycle's attempt know of the second token only.\<close>
theorem rate_limit_mints_twice:
  assumes ready: "mint_ready env to uri ref ch"
    and first: "mt_send env 1 (js_lower (js_trim to)) = submitted h1 (wait_fails err)" "isRpcRateLimitError err"
    and second: "mt_send env 2 (js_lower (js_trim to)) = submitted h2 (wait_receipt (Some (h2, logs)))"
      "parseMintedTokenIds logs = n # ns"
    and c: "find_cycle i (ms_vault st) = Some c" "vc_status c = minting" "vc_mintAttempt c = Some a"
  shows "\<exists>st' c' a'. mintTo env to uri ref ch (Some i) st = (st', Inr (n, h2)) \<and> ms_sent st' = ms_sent st @ [h1, h2]
    \<and> find_cycle i (ms_vault st') = Some c' \<and> vc_mintAttempt c' = Some a' \<and> ma_txHash a' = Some (js_lower (js_trim h2))"
proof -
  obtain contract where contract: "getRwaAddress (mt_config env) ch = Inr contract"
    using mint_ready_contract [OF ready] by blast
  note run = mint_ready_mintTo [OF ready]
  let ?r = "js_lower (js_trim to)" and ?st1 = "note_submitted env (Some i) h1 st"
  let ?st2 = "note_submitted env (Some i) h2 ?st1"
  let ?st3 = "?st2\<lparr>ms_vault := recordOwner contract (nat_str n) ?r (ms_vault ?st2)\<rparr>"
  have 2: "mint_attempt env ch ?r (Some i) 2 ?st1 = (?st3, Inr (n, h2))"
    using mint_attempt_submitted(2) [OF contract second(1) refl second(2)] .
  have "rpc_retry 5 1 (mint_attempt env ch ?r (Some i)) st = rpc_retry 4 2 (mint_attempt env ch ?r (Some i)) ?st1"
  proof -
    have "limited (rpc_failure err)" using first(2) by (simp add: limited_def)
    with next_try [of "mint_attempt env ch ?r (Some i)" 1 st ?st1 "rpc_failure err" 4]
      mint_attempt_submitted(1) [OF contract first(1) refl, of "Some i" st]
    have "rpc_retry (Suc 4) 1 (mint_attempt env ch ?r (Some i)) st
      = rpc_retry 4 (1 + 1) (mint_attempt env ch ?r (Some i)) ?st1" by blast
    moreover have "Suc 4 = 5" "1 + 1 = (2 :: nat)" by simp_all
    ultimately show ?thesis by (simp only:)
  qed
  then have "mintTo env to uri ref ch (Some i) st = (?st3, Inr (n, h2))"
    using first_try(1) [of "mint_attempt env ch ?r (Some i)" 2 ?st1, OF 2] by (simp add: run)
  moreover have "ms_sent ?st3 = ms_sent st @ [h1, h2]" by (simp add: note_submitted_def)
  moreover have "\<exists>c' a'. find_cycle i (ms_vault ?st3) = Some c' \<and> vc_mintAttempt c' = Some a'
      \<and> ma_txHash a' = Some (js_lower (js_trim h2))"
    using c find_cycle_Some [OF c(1)]
    by (auto simp: note_submitted_def noteMintAttemptTx_def table_simps recordOwner_def put_owner_def Let_def)
  ultimately show ?thesis by blast
qed

text \<open>C35 A lost answer drops the mint: when the transaction of a minting cycle is submitted and waiting
  for it fails otherwise, the pipeline passes the error on and cancels the cycle with its attempt, so
  that the submitted transaction is known to no cycle, and every later recovery pass leaves it so.\<close>
theorem lost_receipt_cancels_cycle:
  assumes ready: "mint_ready env (ma_ownerWallet att) (ma_tokenURI att) ref ch"
    and send: "mt_send env 1 (js_lower (js_trim (ma_ownerWallet att))) = submitted h (wait_fails err)"
      "\<not> isRpcRateLimitError err"
    and reach: "(vault_step (re_keccak256 renv))\<^sup>*\<^sup>* empty_db (ms_vault st)"
    and c: "find_cycle i (ms_vault st) = Some c" "vc_status c = minting"
  shows "\<exists>st' e. mint_on_chain env dto ch i att ref st = (st', Inl e) \<and> h \<in> set (ms_sent st')
    \<and> find_cycle i (fst (recoverPass renv running (ms_vault st')))
      = Some (c\<lparr>vc_status := cancelled, vc_mintAttempt := None, vc_updatedAt := mt_now env\<rparr>)"
proof -
  obtain contract where contract: "getRwaAddress (mt_config env) ch = Inr contract"
    using mint_ready_contract [OF ready] by blast
  note run = mint_ready_mintTo [OF ready]
  let ?st1 = "note_submitted env (Some i) h st"
  let ?db = "cancelCycle (mt_now env) i (ms_vault ?st1)"
  have "mintTo env (ma_ownerWallet att) (ma_tokenURI att) ref ch (Some i) st
      = (?st1, Inl (toMintRpcHttpException (rpc_failure err)))"
    using mint_attempt_submitted(1) [OF contract send(1) refl, of "Some i" st] send(2)
    by (simp add: run first_try(2) limited_def)
  then have "mint_on_chain env dto ch i att ref st
      = (?st1\<lparr>ms_vault := ?db\<rparr>, Inl (toMintRpcHttpException (rpc_failure err)))"
    by (simp add: mint_on_chain_def)
  moreover have "h \<in> set (ms_sent ?st1)" by (simp add: note_submitted_def)
  moreover have "find_cycle i (fst (recoverPass renv running ?db))
      = Some (c\<lparr>vc_status := cancelled, vc_mintAttempt := None, vc_updatedAt := mt_now env\<rparr>)"
  proof (rule recovery_skips)
    have v: "ms_vault ?st1 = noteMintAttemptTx (mt_now env) i None h (ms_vault st)" by (simp add: note_submitted_def)
    show "(vault_step (re_keccak256 renv))\<^sup>*\<^sup>* empty_db ?db"
      unfolding v by (rule rtranclp.rtrancl_into_rtrancl, rule rtranclp.rtrancl_into_rtrancl, rule reach,
          rule note_step, rule vault_step.cancel, rule refl)
    obtain x y where n: "find_cycle i (noteMintAttemptTx (mt_now env) i None h (ms_vault st))
        = Some (c\<lparr>vc_mintAttempt := x, vc_updatedAt := y\<rparr>)" using note_cycle [OF c(1)] by blast
    show "find_cycle i ?db = Some (c\<lparr>vc_status := cancelled, vc_mintAttempt := None, vc_updatedAt := mt_now env\<rparr>)"
      unfolding v cancelCycle_def n option.case using c(2) find_cycle_Some [OF c(1)] by (simp add: find_save_cycle)
  qed simp
  ultimately show ?thesis
    by (intro exI [of _ "?st1\<lparr>ms_vault := ?db\<rparr>"] exI [of _ "toMintRpcHttpException (rpc_failure err)"])
      simp
qed

lemma confirmed_mintTo:
  assumes "mint_ready env to uri ref ch" "getRwaAddress (mt_config env) ch = Inr contract"
    "mt_send env 1 (js_lower (js_trim to)) = submitted h (wait_receipt (Some (h', logs)))" "parseMintedTokenIds logs = n # ns"
  shows "mintTo env to uri ref ch o' st = ((note_submitted env o' h st)\<lparr>ms_vault :=
    recordOwner contract (nat_str n) (js_lower (js_trim to)) (ms_vault (note_submitted env o' h st))\<rparr>, Inr (n, h'))"
  using mint_attempt_submitted(2) [OF assms(2,3) refl assms(4)]
  by (simp add: mint_ready_mintTo [OF assms(1)] first_try(1))

section \<open>The recovery of an interrupted mint gives what the call would have given\<close>

text \<open>Writing twice is writing once, and the tables are written independently.\<close>

lemma save_cycle_twice: "vc_id x = vc_id y \<Longrightarrow> save_cycle now x (save_cycle now' y db) = save_cycle now x db"
  by (simp add: save_cycle_def upsert_twice)

lemma save_token_twice: "rt_key x = rt_key y \<Longrightarrow> save_token x (save_token y db) = save_token x db"
  by (simp add: save_token_def upsert_twice)

lemma save_token_cycle: "save_cycle now c (save_token t db) = save_token t (save_cycle now c db)"
  by (simp add: save_cycle_def save_token_def)

lemma name_token: "name_asset_once j n (save_token t db) = save_token t (name_asset_once j n db)"
  by (auto simp: name_asset_once_def save_asset_def save_token_def find_asset_def split: option.split)

text \<open>recordMintResult on a vault where the attempt and the stub of the token were written before.\<close>

lemma minted_row_stub:
  "minted_row now i ref p (Some (stub_token (mr_tokenContract p) (mr_tokenId p)\<lparr>rt_ownerWallet := w\<rparr>))
   = minted_row now i ref p None"
  by (simp add: minted_row_def stub_token_def Let_def)

lemma record_after_writes:
  assumes c: "find_cycle (mr_cycleId p) db = Some c"
    and fresh: "find_token (mr_tokenContract p, mr_tokenId p) db = None"
    and ok: "recordMintResult k now p (save_cycle now' (c\<lparr>vc_mintAttempt := x\<rparr>)
        (save_token (stub_token (mr_tokenContract p) (mr_tokenId p)\<lparr>rt_ownerWallet := w\<rparr>) db)) = (db', Inr ())"
  shows "recordMintResult k now p db = (db', Inr ())"
proof -
  let ?t = "stub_token (mr_tokenContract p) (mr_tokenId p)\<lparr>rt_ownerWallet := w\<rparr>"
  let ?r = "\<lambda>ref. minted_row now (vc_id c) ref p None"
  have key: "rt_key ?t = (mr_tokenContract p, mr_tokenId p)" "rt_key (?r ref) = (mr_tokenContract p, mr_tokenId p)" for ref
    by (simp_all add: rt_key_def stub_token_def minted_row_def Let_def)
  have id: "vc_id c = mr_cycleId p" using find_cycle_Some [OF c] by simp
  have name: "find_token q (name_asset_once j n db1) = find_token q db1" for q j n db1 by (simp add: find_token_def)
  have look: "find_token (rt_key ?t) (save_token ?t db1) = Some ?t" for db1 by (rule token_repo.look_put_same)
  have again: "save_cycle now (c\<lparr>vc_status := minted, vc_mintAttempt := None\<rparr>) (save_cycle now' (c\<lparr>vc_mintAttempt := x\<rparr>) db)
      = save_cycle now (c\<lparr>vc_status := minted, vc_mintAttempt := None\<rparr>) db"
    by (rule save_cycle_twice) simp
  have row: "save_cycle now (c\<lparr>vc_updatedAt := now', vc_status := minted, vc_mintAttempt := None\<rparr>) db1
      = save_cycle now (c\<lparr>vc_status := minted, vc_mintAttempt := None\<rparr>) db1" for db1
    by (simp add: save_cycle_def)
  have merge: "save_token (?r ref) (save_token ?t db1) = save_token (?r ref) db1" for ref db1
    by (rule save_token_twice) (simp only: key)
  show ?thesis
    using ok c fresh
    by (auto simp: recordMintResult_def Let_def find_save_cycle id save_token_cycle row again name_token name key
        look [unfolded key] minted_row_stub merge [unfolded id] split: if_splits sum.splits)
qed

lemma record_cong:
  assumes "mr_cycleId p = mr_cycleId q" "mr_tokenContract p = mr_tokenContract q" "mr_tokenId p = mr_tokenId q"
    and "\<And>j ref old. minted_row now j ref p old = minted_row now j ref q old"
    and "computeVaultRef k (mr_certNumber p) = computeVaultRef k (mr_certNumber q)"
    and "trim_or_null (mr_displayName p) = trim_or_null (mr_displayName q)"
  shows "recordMintResult k now p db = recordMintResult k now q db"
  unfolding recordMintResult_def assms ..

lemma minted_row_cong:
  assumes "mr_tokenContract p = mr_tokenContract q" "mr_tokenId p = mr_tokenId q" "mr_tokenURI p = mr_tokenURI q"
    "js_lower (js_trim (mr_txHash p)) = js_lower (js_trim (mr_txHash q))"
    "normalizeCert (mr_certNumber p) = normalizeCert (mr_certNumber q)"
    "trim_or_null (mr_displayName p) = trim_or_null (mr_displayName q)"
    "trim_or_null (mr_displayImageUrl p) = trim_or_null (mr_displayImageUrl q)"
    "trim_or_null (mr_displayImageBackUrl p) = trim_or_null (mr_displayImageBackUrl q)"
    "mr_settlementPolicy p = mr_settlementPolicy q"
    "mr_settlementPolicy q = Some self_vault_hold \<longrightarrow>
       trim_or_null (mr_vaultPartnerId p) = trim_or_null (mr_vaultPartnerId q)"
    "map_option js_lower (trim_or_null (mr_ownerWallet p)) = map_option js_lower (trim_or_null (mr_ownerWallet q))"
    "trim_or_null (mr_collectionKey p) = trim_or_null (mr_collectionKey q)"
  shows "minted_row now i ref p old = minted_row now i ref q old"
proof (cases "mr_settlementPolicy q = Some self_vault_hold")
  case True
  then have v: "trim_or_null (mr_vaultPartnerId p) = trim_or_null (mr_vaultPartnerId q)" using assms by blast
  show ?thesis unfolding minted_row_def assms(1-9,11,12) v ..
next
  case False
  show ?thesis unfolding minted_row_def assms(1-9,11,12) using False by (simp add: Let_def)
qed

text \<open>The attempt beginMintAttempt stores.\<close>

definition stored_attempt :: "vault_mint_attempt \<Rightarrow> vault_mint_attempt" where
  "stored_attempt att = \<lparr>ma_tokenURI = js_trim (ma_tokenURI att), ma_certNumber = normalizeCert (ma_certNumber att),
     ma_settlementPolicy = ma_settlementPolicy att,
     ma_vaultPartnerId = (if ma_settlementPolicy att = self_vault_hold then trim_or_null (ma_vaultPartnerId att) else None),
     ma_ownerWallet = js_lower (js_trim (ma_ownerWallet att)), ma_deliveryMode = ma_deliveryMode att,
     ma_displayName = trim_or_null (ma_displayName att), ma_displayImageUrl = trim_or_null (ma_displayImageUrl att),
     ma_displayImageBackUrl = trim_or_null (ma_displayImageBackUrl att), ma_tokenId = trim_or_null (ma_tokenId att),
     ma_txHash = map_option js_lower (trim_or_null (ma_txHash att))\<rparr>"

lemma begin_stored:
  assumes "beginMintAttempt now i att db = Inr db'"
  obtains c where "find_cycle i db' = Some c" "vc_status c = minting" "vc_mintAttempt c = Some (stored_attempt att)"
    "vd_tokens db' = vd_tokens db" "js_trim (ma_tokenURI att) \<noteq> []" "js_trim (ma_ownerWallet att) \<noteq> []"
proof -
  have policy: "(if ma_settlementPolicy att = self_vault_hold then self_vault_hold else standard) = ma_settlementPolicy att"
    "(if ma_deliveryMode att = direct then direct else custody) = ma_deliveryMode att"
    by (cases "ma_settlementPolicy att"; cases "ma_deliveryMode att"; simp)+
  obtain b where b: "find_cycle i db = Some b"
    using assms by (cases "find_cycle i db") (simp_all add: beginMintAttempt_def)
  have "Inr db' = (Inr (save_cycle now (b\<lparr>vc_status := minting, vc_mintAttempt := Some (stored_attempt att)\<rparr>) db) :: _ result)
      \<and> js_trim (ma_tokenURI att) \<noteq> [] \<and> js_trim (ma_ownerWallet att) \<noteq> []"
    unfolding assms [symmetric] using assms
    by (simp add: beginMintAttempt_def b Let_def policy stored_attempt_def split: if_splits)
  then show thesis
    using find_cycle_Some [OF b]
    by (intro that [of "b\<lparr>vc_status := minting, vc_mintAttempt := Some (stored_attempt att), vc_updatedAt := now\<rparr>"])
      (simp_all add: find_save_cycle)
qed

lemma heal_same_row:
  assumes uri: "ma_tokenURI att = js_trim (ma_tokenURI att)" and key: "trim_or_null (md_collectionKey dto) = None"
    and h: "js_trim h = h" "h \<noteq> []"
    and a: "a = (stored_attempt att)\<lparr>ma_txHash := Some h\<rparr>"
  shows "recordMintResult k now (heal_result i a contract (of_nat n) (js_trim (ma_tokenURI a))
      (js_lower (js_trim (ma_ownerWallet a)))) db
    = recordMintResult k now (mint_record env dto i att contract n h) db"
proof -
  have tx: "trim_or_null (Some h) = Some h" using h by (simp add: trim_or_null_def non_empty_def)
  have owner: "trim_or_null (Some (js_lower (js_trim (ma_ownerWallet att))))
      = map_option js_lower (trim_or_null (Some (ma_ownerWallet att)))"
    by (simp add: trim_or_null_def non_empty_def js_simps)
  have none: "trim_or_null None = None" by (simp add: trim_or_null_def)
  show ?thesis
    by (rule record_cong; (rule minted_row_cong)?)
      (simp_all add: a heal_result_def mint_record_def stored_attempt_def uri [symmetric] key none tx owner
        computeVaultRef_def option.map_comp comp_def js_simps)
qed

lemma parsed_first: "parseMintedTokenIds logs = n # ns \<Longrightarrow> first_minted logs = n"
  by (induction logs rule: parseMintedTokenIds.induct) (auto split: if_splits)

lemma heal_finds_token:
  assumes "ma_tokenId a = None" "ma_txHash a = Some h" "js_trim h = h" "is_hex_word_ci 64 h"
    "re_receipt renv h ch = Inr (Some logs)" "parseMintedTokenIds logs = n # ns"
  shows "heal_token_id renv ch a = Inr (of_nat n)"
proof -
  have "h \<noteq> []" using assms(4) by (auto simp: is_hex_word_ci_def)
  then show ?thesis
    using assms parsed_first [OF assms(6)]
    by (simp add: heal_token_id_def js_Number_null_def or_empty_def getMintedTokenIdFromTx_def Let_def)
qed

lemma hash_normal:
  assumes "is_hex_word n h"
  shows "js_lower (js_trim h) = h" "js_trim h = h" "is_hex_word_ci n h"
proof -
  obtain t where h: "h = ''0x'' @ t" and t: "list_all is_hex_lower t"
    using assms by (metis append_take_drop_id is_hex_word_def)
  have c: "is_hex_lower c \<Longrightarrow> \<not> is_ws c \<and> lower_char c = c \<and> is_hex c" for c
    by (auto simp: is_hex_lower_def is_hex_def is_ws_def lower_char_def Let_def)
  have x: "\<not> is_ws (CHR ''0'')" "\<not> is_ws (CHR ''x'')" "js_lower ''0x'' = ''0x''" by code_simp+
  show trim: "js_trim h = h" by (rule js_trim_no_ws) (use t c x in \<open>auto simp: h list_all_iff\<close>)
  have "js_lower t = t" using t c by (auto simp: js_lower_def list_all_iff intro: map_idI)
  then show "js_lower (js_trim h) = h" using x by (simp add: trim) (simp add: h js_lower_def)
  show "is_hex_word_ci n h" using assms t c by (auto simp: is_hex_word_def is_hex_word_ci_def list_all_iff)
qed

lemma getRwaAddress_normal: "getRwaAddress cfg ch = Inr a \<Longrightarrow> normalizeWallet a = a"
  by (auto simp: getRwaAddress_def contract_address_def normalizeWallet_def js_simps
      split: option.splits if_splits dest!: trim_or_null_Some)

lemma healOne_records:
  assumes "ch \<in> set (listConfiguredChainIds (re_config env))" "heal_token_id env ch a = Inr n" "n \<noteq> 0"
    "heal_params env i ch a n = Inr p" "recordMintResult (re_keccak256 env) (re_now env) p db = (db', Inr ())"
  shows "healOne env i ch a u db = (db', Inr healed)"
  using assms by (simp add: healOne_def)

text \<open>The vault at the crash, and what the call makes of it.\<close>

lemma crashed_vault:
  assumes b: "beginMintAttempt now i att db = Inr db1" and h: "js_lower (js_trim h) = h"
  obtains c where "find_cycle i (noteMintAttemptTx now i None h db1) = Some c" "vc_status c = minting"
    "vc_mintAttempt c = Some (stored_attempt att\<lparr>ma_txHash := Some h\<rparr>)"
    "vd_tokens (noteMintAttemptTx now i None h db1) = vd_tokens db"
proof (rule begin_stored [OF b])
  fix c :: vault_cycle
  assume c: "find_cycle i db1 = Some c" "vc_status c = minting" "vc_mintAttempt c = Some (stored_attempt att)"
    and t: "vd_tokens db1 = vd_tokens db"
  show thesis
    by (rule that [of "c\<lparr>vc_mintAttempt := Some (stored_attempt att\<lparr>ma_txHash := Some h\<rparr>), vc_updatedAt := now\<rparr>"])
      (use c t find_cycle_Some [OF c(1)] in \<open>simp_all add: noteMintAttemptTx_def find_save_cycle h\<close>)
qed

lemma finish_is_record:
  assumes c: "find_cycle i db = Some c" "vc_status c = minting" "vc_mintAttempt c = Some a" "mr_cycleId p = i"
    and p: "mr_tokenContract p = contract" "mr_tokenId p = nat_str n" "normalizeWallet contract = contract"
    and w: "is_hex_word_ci 40 (normalizeWallet w)" and fresh: "find_token (contract, nat_str n) db = None"
    and ok: "recordMintResult k now p (noteMintAttemptTx now i (Some (nat_str n)) h (recordOwner contract (nat_str n) w db))
      = (db', Inr ())"
  shows "recordMintResult k now p db = (db', Inr ())"
proof -
  have "js_trim (nat_str n) = nat_str n" by simp
  then have owner: "recordOwner contract (nat_str n) w db
      = save_token (stub_token (mr_tokenContract p) (mr_tokenId p)\<lparr>rt_ownerWallet := Some (normalizeWallet w)\<rparr>) db"
    using p w fresh by (simp add: recordOwner_def put_owner_def Let_def)
  have "\<exists>x. noteMintAttemptTx now i (Some (nat_str n)) h (save_token t db) = save_cycle now (c\<lparr>vc_mintAttempt := x\<rparr>) (save_token t db)"
    for t
    using c(1-3) by (auto simp: noteMintAttemptTx_def Let_def)
  then obtain x where "noteMintAttemptTx now i (Some (nat_str n)) h (recordOwner contract (nat_str n) w db)
      = save_cycle now (c\<lparr>vc_mintAttempt := x\<rparr>) (recordOwner contract (nat_str n) w db)" unfolding owner by blast
  from ok [unfolded this, unfolded owner] show ?thesis
    using c fresh p by (intro record_after_writes [of p db c]) simp_all
qed

text \<open>C8 Recovery is equivalent to finishing the call. Take a mint request without a collection key, ready
  to be sent on a configured chain, whose attempt was recorded without a token id; its first send is
  submitted and the receipt shows a mint of a token id greater than 0 that is not registered yet. If
  the call goes on and answers, it ends in some vault; if instead the process dies right after the
  submission, and the recovery reads the same receipt, the recovery of the cycle from its recorded
  hash ends in exactly the same vault.\<close>
theorem recovery_equals_the_call:
  assumes b: "beginMintAttempt (mt_now env) i att db = Inr (ms_vault st)"
    and att: "ma_tokenURI att = js_trim (ma_tokenURI att)" "ma_tokenId att = None" "ma_txHash att = None"
    and ready: "mint_ready env (ma_ownerWallet att) (ma_tokenURI att) ref ch"
    and chain: "ch \<in> set (listConfiguredChainIds (mt_config env))" "getRwaAddress (mt_config env) ch = Inr contract"
    and send: "mt_send env 1 (js_lower (js_trim (ma_ownerWallet att))) = submitted h (wait_receipt (Some (h, logs)))"
    and mint: "parseMintedTokenIds logs = n # ns" "0 < n" "re_receipt (mt_recovery env) h ch = Inr (Some logs)"
    and hash: "is_hex_word 64 h"
    and fresh: "find_token (contract, nat_str n) db = None" and key: "trim_or_null (md_collectionKey dto) = None"
    and call: "mint_on_chain env dto ch i att ref st = (st', Inr out)"
  shows "\<exists>c a. find_cycle i (ms_vault (note_submitted env (Some i) h st)) = Some c \<and> vc_mintAttempt c = Some a
    \<and> healOne (mt_recovery env) i ch a (vc_updatedAt c) (ms_vault (note_submitted env (Some i) h st)) = (ms_vault st', Inr healed)"
proof (rule crashed_vault [OF b hash_normal(1) [OF hash]])
  fix c :: vault_cycle
  note h = hash_normal [OF hash]
  then have nonempty: "h \<noteq> []" by (auto simp: is_hex_word_ci_def)
  let ?k = "re_keccak256 (mt_recovery env)" and ?db = "ms_vault (note_submitted env (Some i) h st)"
  let ?r = "js_lower (js_trim (ma_ownerWallet att))" and ?a = "stored_attempt att\<lparr>ma_txHash := Some h\<rparr>"
  let ?p = "mint_record env dto i att contract n h"
  have crash: "?db = noteMintAttemptTx (mt_now env) i None h (ms_vault st)" by (simp add: note_submitted_def)
  assume "find_cycle i (noteMintAttemptTx (mt_now env) i None h (ms_vault st)) = Some c" "vc_status c = minting"
    "vc_mintAttempt c = Some ?a" "vd_tokens (noteMintAttemptTx (mt_now env) i None h (ms_vault st)) = vd_tokens db"
  then have c: "find_cycle i ?db = Some c" "vc_status c = minting" "vc_mintAttempt c = Some ?a"
    and t: "vd_tokens ?db = vd_tokens db" by (simp_all only: crash)
  let ?st1 = "(note_submitted env (Some i) h st)\<lparr>ms_vault := recordOwner contract (nat_str n) ?r ?db\<rparr>"
  have "mintTo env (ma_ownerWallet att) (ma_tokenURI att) ref ch (Some i) st = (?st1, Inr (n, h))"
    by (rule confirmed_mintTo [OF ready chain(2) send mint(1)])
  then have rm: "recordMintResult ?k (mt_now env) ?p (noteMintAttemptTx (mt_now env) i (Some (nat_str n)) h
      (recordOwner contract (nat_str n) ?r ?db)) = (ms_vault st', Inr ())"
    using call chain(2) by (auto simp: mint_on_chain_def need_ok split_beta on_ok_eq_Inr intro: prod_eqI)
  have "normalizeWallet contract = contract" using getRwaAddress_normal [OF chain(2)] .
  moreover have "is_hex_word_ci 40 (normalizeWallet ?r)"
    using ready by (simp add: mint_ready_def normalizeWallet_def js_simps)
  moreover have "find_token (contract, nat_str n) ?db = None" using fresh t by (simp add: find_token_def)
  ultimately have "recordMintResult ?k (mt_now env) ?p ?db = (ms_vault st', Inr ())"
    using rm by (intro finish_is_record [OF c]) (simp_all add: mint_record_def)
  then have "recordMintResult ?k (re_now (mt_recovery env)) ?p ?db = (ms_vault st', Inr ())" unfolding mt_now_def .
  then have rec: "recordMintResult ?k (re_now (mt_recovery env)) (heal_result i ?a contract (of_nat n)
      (js_trim (ma_tokenURI ?a)) (js_lower (js_trim (ma_ownerWallet ?a)))) ?db = (ms_vault st', Inr ())"
    by (rule trans [OF heal_same_row [OF att(1) key h(2) nonempty refl]])
  have "js_trim (ma_tokenURI att) \<noteq> [] \<and> js_trim (ma_ownerWallet att) \<noteq> []"
    by (rule begin_stored [OF b]) (rule conjI)
  then have "js_trim (ma_tokenURI ?a) \<noteq> []" "js_trim (ma_ownerWallet ?a) \<noteq> []"
    by (simp_all add: stored_attempt_def js_simps)
  note par = heal_params_Inr [OF this chain(2) [unfolded mt_config_def]]
  have "heal_token_id (mt_recovery env) ch ?a = Inr (of_nat n)"
    by (rule heal_finds_token [OF _ _ h(2,3) mint(3,1)]) (simp_all add: stored_attempt_def att(2) trim_or_null_def)
  moreover have "(of_nat n :: rat) \<noteq> 0" using mint(2) by simp
  ultimately have "healOne (mt_recovery env) i ch ?a (vc_updatedAt c) ?db = (ms_vault st', Inr healed)"
    by (rule healOne_records [OF chain(1) [unfolded mt_config_def] _ _ par rec])
  then show ?thesis using c by blast
qed

section \<open>The examples\<close>

definition sample_owner :: string where
  "sample_owner = ''0x'' @ replicate 40 (CHR ''b'')"

definition sample_config :: config where
  "sample_config k = (if k = ''RWA_OWNER_PRIVATE_KEY'' then Some ''0x01'' else re_config sample_env k)"

definition sample_mint_env :: "(nat \<Rightarrow> string \<Rightarrow> send_outcome) \<Rightarrow> mint_env" where
  "sample_mint_env f = \<lparr>mt_recovery = sample_env\<lparr>re_config := sample_config\<rparr>, mt_uuid = nat_str,
     mt_users = (\<lambda>u. None), mt_tzOffset = 0, mt_wallets = (\<lambda>u. [sample_owner]), mt_partner = (\<lambda>u. Inr ''p''),
     mt_slab = (\<lambda>u ch c b. None), mt_addressOf = (\<lambda>k. sample_owner), mt_send = f,
     mt_ownerOf = (\<lambda>n ch. Inr sample_owner), mt_transfer = (\<lambda>n w ch. Inr None)\<rparr>"

definition sample_logs :: "mint_log option list" where
  "sample_logs = [None, Some \<lparr>ml_name = ''Transfer'', ml_from = zero_address, ml_tokenId = 40\<rparr>]"

definition sample_send :: "nat \<Rightarrow> string \<Rightarrow> send_outcome" where
  "sample_send k w = submitted sample_hash (wait_receipt (Some (sample_hash, sample_logs)))"

definition sample_limit :: rpc_error where
  "sample_limit = \<lparr>er_code = Some ''429'', er_message = None, er_shortMessage = None, er_reason = None,
     er_infoCode = None, er_infoMessage = None\<rparr>"

definition sample_reverted :: rpc_error where
  "sample_reverted = sample_limit\<lparr>er_code := Some ''TIMEOUT''\<rparr>"

definition sample_row :: vault_mint_attempt where
  "sample_row = sample_attempt\<lparr>ma_ownerWallet := sample_owner\<rparr>"

definition begun :: vault_db where
  "begun = (case beginMintAttempt 20 1 sample_row deposited of Inl e \<Rightarrow> deposited | Inr db \<Rightarrow> db)"

definition begun_state :: mint_state where
  "begun_state = \<lparr>ms_vault = begun, ms_subs = empty_submissions, ms_sent = []\<rparr>"

definition sample_dto :: mint_dto where
  "sample_dto = \<lparr>md_recipientAddress = sample_owner, md_tokenURI = ''ipfs://m'', md_certNumber = ''a1'',
     md_deliveryMode = None, md_displayName = None, md_displayImageUrl = None, md_displayImageBackUrl = None,
     md_collectionKey = None\<rparr>"

lemma begun_ok: "beginMintAttempt 20 1 sample_row deposited = Inr begun"
proof -
  have "(case beginMintAttempt 20 1 sample_row deposited of Inl _ \<Rightarrow> False | Inr _ \<Rightarrow> True)" by code_simp
  then show ?thesis by (auto simp: begun_def split: sum.splits)
qed

lemma begun_reachable: "(vault_step id)\<^sup>*\<^sup>* empty_db begun"
  by (rule rtranclp.rtrancl_into_rtrancl [OF deposited_reachable vault_step.begin_mint [OF begun_ok]])

lemma sample_ready: "mint_ready (sample_mint_env f) (ma_ownerWallet sample_row) (ma_tokenURI sample_row) ''ref'' 1"
proof -
  have "js_trim ''ipfs://m'' \<noteq> []" "''ref'' \<noteq> zero_hash" "is_hex_word_ci 40 (js_lower (js_trim sample_owner))"
    "(case ownerPrivateKey sample_config of Inl e \<Rightarrow> False | Inr k \<Rightarrow> True)"
    "(case getRwaAddress sample_config 1 of Inl e \<Rightarrow> False | Inr c \<Rightarrow> True)" by code_simp+
  then show ?thesis
    by (simp add: mint_ready_def sample_row_def sample_attempt_def mt_config_def sample_mint_env_def)
qed

lemma sample_cycle:
  "find_cycle 1 begun = Some (the (find_cycle 1 begun))" "vc_status (the (find_cycle 1 begun)) = minting"
  "vc_mintAttempt (the (find_cycle 1 begun)) = Some (the (vc_mintAttempt (the (find_cycle 1 begun))))"
  by code_simp+

theorem one_transaction_unless_limited_witness:
  "\<exists>hs. ms_sent (fst (mintForUser (sample_mint_env sample_send) ''u1'' sample_dto 1 no_options begun_state)) = hs
     \<and> length hs \<le> 1"
  using one_transaction_unless_limited [of "sample_mint_env sample_send" "''u1''" sample_dto 1 no_options begun_state]
  by (simp add: sample_mint_env_def sample_send_def begun_state_def)

theorem rate_limit_mints_twice_witness:
  "\<exists>st'. mintTo (sample_mint_env (\<lambda>k w. if k = 1 then submitted ''0x1'' (wait_fails sample_limit) else sample_send k w))
      sample_owner ''ipfs://m'' ''ref'' 1 (Some 1) begun_state = (st', Inr (40, sample_hash))
    \<and> ms_sent st' = [''0x1'', sample_hash]"
proof -
  let ?f = "\<lambda>k w. if k = 1 then submitted ''0x1'' (wait_fails sample_limit) else sample_send k w"
  have "isRpcRateLimitError sample_limit" "parseMintedTokenIds sample_logs = [40]" by code_simp+
  with rate_limit_mints_twice [OF sample_ready [of ?f], of "''0x1''" sample_limit sample_hash sample_logs 40 "[]" 1 begun_state]
    sample_cycle
  show ?thesis
    by (auto simp: sample_mint_env_def sample_send_def begun_state_def sample_row_def sample_attempt_def)
qed

theorem lost_receipt_cancels_cycle_witness:
  "\<exists>st' e. mint_on_chain (sample_mint_env (\<lambda>k w. submitted ''0x1'' (wait_fails sample_reverted))) sample_dto 1 1
      sample_row ''ref'' begun_state = (st', Inl e)
    \<and> ''0x1'' \<in> set (ms_sent st') \<and> map_option vc_status (find_cycle 1 (fst (recoverPass sample_env False (ms_vault st')))) = Some cancelled"
proof -
  let ?f = "\<lambda>k w. submitted ''0x1'' (wait_fails sample_reverted)"
  have "\<not> isRpcRateLimitError sample_reverted" by code_simp
  moreover have "(vault_step (re_keccak256 sample_env))\<^sup>*\<^sup>* empty_db (ms_vault begun_state)"
    using begun_reachable by (simp add: sample_env_def begun_state_def)
  ultimately show ?thesis
    using lost_receipt_cancels_cycle [OF sample_ready [of ?f], of "''0x1''" sample_reverted sample_env begun_state 1
      "the (find_cycle 1 begun)" sample_dto False] sample_cycle
    by (force simp: sample_mint_env_def begun_state_def)
qed

lemma confirmed_on_chain:
  assumes "mint_ready env (ma_ownerWallet att) (ma_tokenURI att) ref ch" "getRwaAddress (mt_config env) ch = Inr contract"
    "mt_send env 1 (js_lower (js_trim (ma_ownerWallet att))) = submitted h (wait_receipt (Some (h', logs)))"
    "parseMintedTokenIds logs = n # ns"
    "snd (recordMintResult (re_keccak256 (mt_recovery env)) (mt_now env) (mint_record env dto i att contract n h')
       (noteMintAttemptTx (mt_now env) i (Some (nat_str n)) h' (recordOwner contract (nat_str n)
         (js_lower (js_trim (ma_ownerWallet att))) (noteMintAttemptTx (mt_now env) i None h (ms_vault st))))) = Inr ()"
  shows "\<exists>st'. mint_on_chain env dto ch i att ref st = (st', Inr (n, h'))"
  using assms(2,5) confirmed_mintTo [OF assms(1-4), of "Some i" st]
  by (simp add: mint_on_chain_def need_def split_beta note_submitted_def on_ok_def)

abbreviation sample_chain :: mint_env where
  "sample_chain \<equiv> sample_mint_env sample_send"

abbreviation sample_contract :: string where
  "sample_contract \<equiv> ''0x'' @ replicate 40 (CHR ''c'')"

lemma sample_sends:
  "getRwaAddress (mt_config sample_chain) 1 = Inr sample_contract" "parseMintedTokenIds sample_logs = [40]"
  "mt_send sample_chain k w = submitted sample_hash (wait_receipt (Some (sample_hash, sample_logs)))"
proof -
  show "getRwaAddress (mt_config sample_chain) 1 = Inr sample_contract" "parseMintedTokenIds sample_logs = [40]"
    by code_simp+
qed (simp add: sample_mint_env_def sample_send_def)

theorem recovery_equals_the_call_witness:
  "\<exists>st' out (c :: vault_cycle) a. mint_on_chain sample_chain sample_dto 1 1 sample_row ''ref'' begun_state = (st', Inr out)
    \<and> vc_mintAttempt c = Some a \<and> healOne (mt_recovery sample_chain) 1 1 a (vc_updatedAt c)
        (ms_vault (note_submitted sample_chain (Some 1) sample_hash begun_state)) = (ms_vault st', Inr healed)"
proof -
  note ready = sample_ready [of sample_send]
  have "snd (recordMintResult (re_keccak256 (mt_recovery sample_chain)) (mt_now sample_chain)
      (mint_record sample_chain sample_dto 1 sample_row sample_contract 40 sample_hash)
       (noteMintAttemptTx (mt_now sample_chain) 1 (Some (nat_str 40)) sample_hash (recordOwner sample_contract (nat_str 40)
         (js_lower (js_trim (ma_ownerWallet sample_row))) (noteMintAttemptTx (mt_now sample_chain) 1 None sample_hash
           (ms_vault begun_state))))) = Inr ()" by code_simp
  from confirmed_on_chain [OF ready sample_sends(1,3,2) this]
  obtain st' where call: "mint_on_chain sample_chain sample_dto 1 1 sample_row ''ref'' begun_state = (st', Inr (40, sample_hash))"
    by blast
  have b: "beginMintAttempt (mt_now sample_chain) 1 sample_row deposited = Inr (ms_vault begun_state)"
    using begun_ok by (simp add: mt_now_def sample_mint_env_def sample_env_def begun_state_def)
  have "ma_tokenURI sample_row = js_trim (ma_tokenURI sample_row)" "ma_tokenId sample_row = None" "ma_txHash sample_row = None"
    "1 \<in> set (listConfiguredChainIds (mt_config sample_chain))" "(0 :: nat) < 40"
    "re_receipt (mt_recovery sample_chain) sample_hash 1 = Inr (Some sample_logs)" "is_hex_word 64 sample_hash"
    "find_token (sample_contract, nat_str 40) deposited = None" "trim_or_null (md_collectionKey sample_dto) = None"
    by code_simp+
  note this(1-3) ready this(4) sample_sends(1,3,2) this(5-9) call
  from recovery_equals_the_call [OF b this] call show ?thesis by blast
qed

text \<open>A whole call on an empty vault.\<close>

definition fresh_state :: mint_state where
  "fresh_state = \<lparr>ms_vault = empty_db, ms_subs = empty_submissions, ms_sent = []\<rparr>"

definition reserved_state :: mint_state where
  "reserved_state = fst (mint_reserve sample_chain ''u1'' sample_dto 1 fresh_state)"

definition first_row :: vault_mint_attempt where
  "first_row = mint_attempt_row sample_chain sample_dto 1 None sample_owner"

definition first_begun :: vault_db where
  "first_begun = (case beginMintAttempt 20 1 first_row (ms_vault reserved_state) of Inl e \<Rightarrow> empty_db | Inr db \<Rightarrow> db)"

lemma first_steps:
  "mint_preflight sample_chain ''u1'' sample_dto 1 no_options empty_submissions = Inr (None, ''A1'')"
  "snd (mint_reserve sample_chain ''u1'' sample_dto 1 fresh_state) = Inr (1, False)"
  "getCustodyWalletAddress sample_chain 1 = Inr sample_owner"
  "(case beginMintAttempt 20 1 first_row (ms_vault reserved_state) of Inl e \<Rightarrow> False | Inr db \<Rightarrow> True)"
  "mint_delivery sample_dto = custody" "mint_ready sample_chain (ma_ownerWallet first_row) (ma_tokenURI first_row) ''A1'' 1"
  by code_simp+

lemma first_mint:
  "snd (recordMintResult (re_keccak256 (mt_recovery sample_chain)) (mt_now sample_chain)
      (mint_record sample_chain sample_dto 1 first_row sample_contract 40 sample_hash)
       (noteMintAttemptTx (mt_now sample_chain) 1 (Some (nat_str 40)) sample_hash (recordOwner sample_contract (nat_str 40)
         (js_lower (js_trim (ma_ownerWallet first_row))) (noteMintAttemptTx (mt_now sample_chain) 1 None sample_hash
           (ms_vault (reserved_state\<lparr>ms_vault := first_begun\<rparr>)))))) = Inr ()"
  by code_simp

lemma first_call:
  "\<exists>st' out. mintForUser sample_chain ''u1'' sample_dto 1 no_options fresh_state = (st', Inr out) \<and> mo_tokenId out = 40"
proof -
  have r: "mint_reserve sample_chain ''u1'' sample_dto 1 fresh_state = (reserved_state, Inr (1, False))"
    using first_steps(2) by (simp add: reserved_state_def prod_eq_iff)
  have b: "beginMintAttempt 20 1 first_row (ms_vault reserved_state) = Inr first_begun"
    using first_steps(4) by (auto simp: first_begun_def split: sum.splits)
  obtain s where m: "mint_on_chain sample_chain sample_dto 1 1 first_row ''A1'' (reserved_state\<lparr>ms_vault := first_begun\<rparr>)
      = (s, Inr (40, sample_hash))"
    using confirmed_on_chain [OF first_steps(6) sample_sends(1,3,2) first_mint] by blast
  have now: "mt_now sample_chain = 20" by (simp add: mt_now_def sample_mint_env_def sample_env_def)
  have subs: "ms_subs fresh_state = empty_submissions" by (simp add: fresh_state_def)
  have row: "mint_attempt_row sample_chain sample_dto 1 None sample_owner = first_row" by (simp add: first_row_def)
  show ?thesis
    unfolding mintForUser_def
    by (simp add: need_def andThen_def subs first_steps(1,3,5) r now row b m mint_finish_def del: One_nat_def)
qed

theorem pipeline_mint_is_found_witness:
  "\<exists>st' c t ref. findOpenMintedTokenForCert ''a1'' 1 psa_graded (ms_vault st') = Some (c, t, 40, ref)
     \<and> fst (mintForUser sample_chain ''u1'' sample_dto 1 no_options fresh_state) = st'
     \<and> rt_key t = (sample_contract, nat_str 40)"
proof -
  obtain st' out where ok: "mintForUser sample_chain ''u1'' sample_dto 1 no_options fresh_state = (st', Inr out)"
    and out: "mo_tokenId out = 40" using first_call by blast
  have reach: "(vault_step (re_keccak256 (mt_recovery sample_chain)))\<^sup>*\<^sup>* empty_db (ms_vault fresh_state)"
    by (simp add: fresh_state_def)
  have "find_token k empty_db = None" for k by (simp add: find_token_def empty_db_def find_key_None)
  then have "burned_at (sample_contract, nat_str (mo_tokenId out)) (ms_vault fresh_state) = None"
    by (simp add: fresh_state_def burned_at_def)
  from pipeline_mint_is_found [OF reach ok sample_sends(1) this] show ?thesis
    unfolding ok out by (auto simp: sample_dto_def)
qed

end
